(* ===== verification/Gw_Prelude.thy ===== *)
theory Gw_Prelude
  imports Complex_Main "HOL-Library.Word"
begin

text \<open>
  Shared vocabulary of the development: instants and durations as the Go package
  \<open>time\<close> has them, Go maps as partial functions, and the lemmas on them that the
  component theories use through the collections below.

  An instant is the number of nanoseconds since the zero value \<open>time.Time{}\<close>, so the
  zero value itself is 0 and instants of a running program are positive. A duration is
  a signed 64-bit count of nanoseconds; subtraction of two instants saturates at the
  ends of that range, as \<open>Time.Sub\<close> and \<open>time.Since\<close> do. A method that reads the
  clock takes the instant it reads as its argument \<open>now\<close>; the reads one critical
  section makes are identified. A finite \<open>float64\<close> is the rational number it denotes.
\<close>

named_theorems time_simps \<open>instants, durations and their comparisons\<close>
named_theorems go_map_simps \<open>lookups in updated Go maps\<close>

type_synonym gtime = int
type_synonym duration = int
type_synonym gostr = string
type_synonym float64 = rat
type_synonym ('k, 'v) gomap = "'k \<rightharpoonup> 'v"

section \<open>Instants and durations\<close>

definition zero_time :: gtime where
  "zero_time = 0"

definition min_duration :: duration where
  "min_duration = - (2 ^ 63)"

definition max_duration :: duration where
  "max_duration = 2 ^ 63 - 1"

definition is_duration :: "duration \<Rightarrow> bool" where
  "is_duration d \<longleftrightarrow> min_duration \<le> d \<and> d \<le> max_duration"

definition time_sub :: "gtime \<Rightarrow> gtime \<Rightarrow> duration" where
  "time_sub t u = max min_duration (min max_duration (t - u))"

abbreviation (input) time_add :: "gtime \<Rightarrow> duration \<Rightarrow> gtime" where
  "time_add t d \<equiv> t + d"

abbreviation (input) time_after :: "gtime \<Rightarrow> gtime \<Rightarrow> bool" where
  "time_after t u \<equiv> u < t"

abbreviation (input) time_before :: "gtime \<Rightarrow> gtime \<Rightarrow> bool" where
  "time_before t u \<equiv> t < u"

definition millisecond :: duration where "millisecond = 1000000"
definition second :: duration where "second = 1000000000"
definition minute :: duration where "minute = 60000000000"
definition hour :: duration where "hour = 3600000000000"

lemmas unit_defs = millisecond_def second_def minute_def hour_def

text \<open>
  Against a bound that is itself a duration, a saturating difference compares exactly
  as the unbounded one, except at the upper end for the strict comparison.
\<close>

lemma time_sub_ge_iff [time_simps]:
  "is_duration d \<Longrightarrow> min_duration < d \<Longrightarrow> d \<le> time_sub t u \<longleftrightarrow> d \<le> t - u"
  by (auto simp: time_sub_def is_duration_def)

lemma time_sub_less_iff [time_simps]:
  "is_duration d \<Longrightarrow> min_duration < d \<Longrightarrow> time_sub t u < d \<longleftrightarrow> t - u < d"
  by (auto simp: time_sub_def is_duration_def)

lemma time_sub_gt_iff [time_simps]:
  "is_duration d \<Longrightarrow> d < max_duration \<Longrightarrow> d < time_sub t u \<longleftrightarrow> d < t - u"
  by (auto simp: time_sub_def is_duration_def)

lemma time_sub_gtD: "is_duration d \<Longrightarrow> d < time_sub t u \<Longrightarrow> d < t - u"
  by (auto simp: time_sub_def is_duration_def)

lemma time_sub_geD: "is_duration d \<Longrightarrow> min_duration < d \<Longrightarrow> d \<le> time_sub t u \<Longrightarrow> d \<le> t - u"
  by (simp add: time_sub_ge_iff)

lemma time_sub_mono: "t \<le> t' \<Longrightarrow> time_sub t u \<le> time_sub t' u"
  by (auto simp: time_sub_def)

lemma time_sub_self [simp]: "time_sub t t = 0"
  by (simp add: time_sub_def min_duration_def max_duration_def)

lemma is_duration_units [simp]:
  "is_duration millisecond" "is_duration second" "is_duration minute" "is_duration hour"
  by (simp_all add: is_duration_def min_duration_def max_duration_def unit_defs)

text \<open>\<open>Duration.Milliseconds\<close> truncates towards zero.\<close>

definition to_milliseconds :: "duration \<Rightarrow> int" where
  "to_milliseconds d = (if d < 0 then - ((- d) div 1000000) else d div 1000000)"

section \<open>Go maps\<close>

text \<open>
  \<open>m[k]\<close> of a Go map yields the zero value of the element type where the key is absent.
\<close>

definition map_get :: "'v \<Rightarrow> ('k, 'v) gomap \<Rightarrow> 'k \<Rightarrow> 'v" where
  "map_get z m k = (case m k of None \<Rightarrow> z | Some v \<Rightarrow> v)"

lemma map_get_upd [simp, go_map_simps]:
  "map_get z (m(k \<mapsto> v)) k' = (if k' = k then v else map_get z m k')"
  by (simp add: map_get_def)

lemma map_get_empty [simp, go_map_simps]: "map_get z Map.empty k = z"
  by (simp add: map_get_def)

lemma map_get_delete [simp, go_map_simps]:
  "map_get z (m(k := None)) k' = (if k' = k then z else map_get z m k')"
  by (simp add: map_get_def)

lemma map_get_Some [simp]: "m k = Some v \<Longrightarrow> map_get z m k = v"
  by (simp add: map_get_def)

text \<open>
  The read-lock, write-lock, check-again idiom of the managers: an existing entry is
  returned, a missing one is created from a default and stored.
\<close>

definition get_or_create :: "'v \<Rightarrow> ('k, 'v) gomap \<Rightarrow> 'k \<Rightarrow> 'v \<times> ('k, 'v) gomap" where
  "get_or_create d m k = (case m k of Some v \<Rightarrow> (v, m) | None \<Rightarrow> (d, m(k \<mapsto> d)))"

lemma get_or_create_fst [simp]: "fst (get_or_create d m k) = map_get d m k"
  by (simp add: get_or_create_def map_get_def split: option.split)

lemma get_or_create_snd: "snd (get_or_create d m k) = m(k \<mapsto> map_get d m k)"
  by (auto simp: get_or_create_def map_get_def fun_eq_iff split: option.split)

lemma get_or_create_stored [simp]: "snd (get_or_create d m k) k = Some (map_get d m k)"
  by (simp add: get_or_create_snd)

lemma get_or_create_other [simp]: "k' \<noteq> k \<Longrightarrow> snd (get_or_create d m k) k' = m k'"
  by (simp add: get_or_create_snd)

text \<open>
  The iteration order of a Go map is unspecified: a function that ranges over a map
  takes the order as an argument, any duplicate-free enumeration of its keys.
\<close>

definition enumerates :: "'k list \<Rightarrow> ('k, 'v) gomap \<Rightarrow> bool" where
  "enumerates ks m \<longleftrightarrow> distinct ks \<and> set ks = dom m"

definition range_of :: "'k list \<Rightarrow> ('k, 'v) gomap \<Rightarrow> ('k \<times> 'v) list" where
  "range_of ks m = List.map_filter (\<lambda>k. map_option (Pair k) (m k)) ks"

lemma range_of_Nil [simp]: "range_of [] m = []"
  by (simp add: range_of_def)

lemma range_of_Cons [simp]:
  "range_of (k # ks) m = (case m k of None \<Rightarrow> range_of ks m | Some v \<Rightarrow> (k, v) # range_of ks m)"
  by (simp add: range_of_def split: option.split)

lemma set_range_of: "set (range_of ks m) = {(k, v). k \<in> set ks \<and> m k = Some v}"
  by (induction ks) (auto split: option.split)

lemma range_of_enumerates: "enumerates ks m \<Longrightarrow> (k, v) \<in> set (range_of ks m) \<longleftrightarrow> m k = Some v"
  by (auto simp: set_range_of enumerates_def)

section \<open>Lists and keys\<close>

lemma upt_shift: "[0..<Suc n] = 0 # map Suc [0..<n]"
  by (simp add: map_Suc_upt upt_conv_Cons del: upt_Suc)

text \<open>
  Keys built as \<open>a + ":" + b\<close> determine their parts when the first part holds no colon.
\<close>

lemma sep_key_inject:
  assumes "a @ c # b = a' @ c # b'" "c \<notin> set a" "c \<notin> set a'"
  shows "a = a' \<and> b = b'"
  using assms
proof (induction a arbitrary: a')
  case Nil
  then show ?case by (cases a') auto
next
  case (Cons x xs)
  then show ?case by (cases a') auto
qed

text \<open>Go compares strings byte by byte, a proper prefix before its extensions.\<close>

fun str_less :: "gostr \<Rightarrow> gostr \<Rightarrow> bool" where
  "str_less s [] = False"
| "str_less [] (y # ys) = True"
| "str_less (x # xs) (y # ys) = ((of_char x :: nat) < of_char y \<or> x = y \<and> str_less xs ys)"

lemma str_less_append:
  "length s = length t \<Longrightarrow> str_less s t \<Longrightarrow> str_less (s @ x) (t @ y)"
  by (induction s t rule: list_induct2) auto

lemma str_less_last:
  "(of_char c :: nat) < of_char d \<Longrightarrow> str_less (s @ c # x) (s @ d # y)"
  by (induction s) auto

section \<open>Decimal numbers\<close>

text \<open>The verb \<open>%d\<close> of \<open>fmt\<close> and \<open>strconv.Itoa\<close>.\<close>

fun digits :: "nat \<Rightarrow> gostr" where
  "digits n = (if n < 10 then [char_of (48 + n)] else digits (n div 10) @ [char_of (48 + n mod 10)])"

declare digits.simps [simp del]

definition itoa :: "int \<Rightarrow> gostr" where
  "itoa i = (if i < 0 then CHR ''-'' # digits (nat (- i)) else digits (nat i))"

definition digit_value :: "gostr \<Rightarrow> nat" where
  "digit_value = foldl (\<lambda>v c. 10 * v + (of_char c - 48)) 0"

lemma of_char_digit [simp]: "d < 10 \<Longrightarrow> of_char (char_of (48 + d) :: char) = (48 + d :: nat)"
  by simp

lemma digit_value_digits [simp]: "digit_value (digits n) = n"
proof (induction n rule: digits.induct)
  case (1 n)
  then show ?case by (subst digits.simps) (simp add: digit_value_def)
qed

lemma digits_inject [simp]: "digits m = digits n \<longleftrightarrow> m = n"
  by (metis digit_value_digits)

lemma set_digits: "set (digits n) \<subseteq> char_of ` {48 .. 57 :: nat}"
proof (induction n rule: digits.induct)
  case (1 n)
  then show ?case by (subst digits.simps) auto
qed

lemma digits_not_empty [simp]: "digits n \<noteq> []"
  by (subst digits.simps) simp

lemma minus_not_digit: "CHR ''-'' \<notin> set (digits n)"
proof
  assume "CHR ''-'' \<in> set (digits n)"
  then obtain d :: nat where "CHR ''-'' = (char_of d :: char)" "48 \<le> d" "d \<le> 57"
    using set_digits by fastforce
  then have "of_char CHR ''-'' = d" by simp
  with \<open>48 \<le> d\<close> show False by simp
qed

lemma itoa_inject [simp]: "itoa a = itoa b \<longleftrightarrow> a = b"
proof -
  have "CHR ''-'' # xs \<noteq> digits n" "digits n \<noteq> CHR ''-'' # xs" for xs n
    using minus_not_digit [of n] by (metis list.set_intros(1))+
  then show ?thesis by (auto simp: itoa_def)
qed

section \<open>Machine integers\<close>

text \<open>The range of \<open>int\<close> and \<open>int64\<close>, and their wrap-around.\<close>

definition wrap64 :: "int \<Rightarrow> int" where
  "wrap64 x = (x + 2 ^ 63) mod 2 ^ 64 - 2 ^ 63"

definition is_int64 :: "int \<Rightarrow> bool" where
  "is_int64 x \<longleftrightarrow> - (2 ^ 63) \<le> x \<and> x < 2 ^ 63"

lemma wrap64_id [simp]: "is_int64 x \<Longrightarrow> wrap64 x = x"
  by (simp add: wrap64_def is_int64_def)

lemma is_int64_wrap64 [simp]: "is_int64 (wrap64 x)"
  by (simp add: wrap64_def is_int64_def)

text \<open>Wrapping sums may be wrapped once at the end.\<close>

lemma wrap64_add: "wrap64 (wrap64 x + y) = wrap64 (x + y)" "wrap64 (x + wrap64 y) = wrap64 (x + y)"
proof -
  have "wrap64 x + y + 2 ^ 63 = (x + 2 ^ 63) mod 2 ^ 64 + y" "x + wrap64 y + 2 ^ 63 = x + (y + 2 ^ 63) mod 2 ^ 64"
    by (simp_all add: wrap64_def)
  moreover have "x + 2 ^ 63 + y = x + y + 2 ^ 63" "x + (y + 2 ^ 63) = x + y + 2 ^ 63" by simp_all
  ultimately have "(wrap64 x + y + 2 ^ 63) mod 2 ^ 64 = (x + y + 2 ^ 63) mod 2 ^ 64"
    "(x + wrap64 y + 2 ^ 63) mod 2 ^ 64 = (x + y + 2 ^ 63) mod 2 ^ 64"
    by (simp_all only: mod_add_left_eq mod_add_right_eq)
  then show "wrap64 (wrap64 x + y) = wrap64 (x + y)" "wrap64 (x + wrap64 y) = wrap64 (x + y)"
    by (simp_all only: wrap64_def [of "wrap64 x + y"] wrap64_def [of "x + wrap64 y"] wrap64_def [of "x + y"])
qed

section \<open>Values behind an empty interface\<close>

text \<open>The dynamic types that the planner and the protocol server store behind \<open>interface{}\<close>.\<close>

datatype pval = PString gostr | PBool bool | PInt int | PFloat float64 | PList "pval list"
  | PMetrics "(gostr, float64) gomap option" | PObject "(gostr \<times> pval) list"

end
