(* ===== verification/Breaker_Contract.thy ===== *)
theory Breaker_Contract
  imports Gw_Prelude
begin

text \<open>
  The contract the gateway's circuit breakers share. The repository has several
  independent implementations (packages \<open>retry\<close>, \<open>provider\<close>, \<open>circuitbreaker\<close>,
  \<open>resilience\<close>); every one of them is a provider of the locale \<open>breaker\<close>, most of
  them also of its extensions, and the facts a caller relies on are proved here once.
\<close>

datatype breaker_op = OpAllow gtime | OpSuccess gtime | OpFailure gtime

fun op_time :: "breaker_op \<Rightarrow> gtime" where
  "op_time (OpAllow t) = t"
| "op_time (OpSuccess t) = t"
| "op_time (OpFailure t) = t"

text \<open>
  A run of a breaker over an arbitrary interleaving of the operations its callers make:
  the answers \<open>Allow\<close> gave, in order, and the final state. The breakers take their lock
  for the whole of every operation, so the operations of concurrent callers are such a
  sequence.
\<close>

fun breaker_run ::
  "(gtime \<Rightarrow> 's \<Rightarrow> bool \<times> 's) \<Rightarrow> (gtime \<Rightarrow> 's \<Rightarrow> 's) \<Rightarrow> (gtime \<Rightarrow> 's \<Rightarrow> 's)
     \<Rightarrow> breaker_op list \<Rightarrow> 's \<Rightarrow> bool list \<times> 's" where
  "breaker_run al su fa [] s = ([], s)"
| "breaker_run al su fa (OpAllow t # ops) s =
     (let (b, s') = al t s; (bs, s'') = breaker_run al su fa ops s' in (b # bs, s''))"
| "breaker_run al su fa (OpSuccess t # ops) s = breaker_run al su fa ops (su t s)"
| "breaker_run al su fa (OpFailure t # ops) s = breaker_run al su fa ops (fa t s)"

lemma breaker_run_Allow [simp]:
  "fst (breaker_run al su fa (OpAllow t # ops) s)
     = fst (al t s) # fst (breaker_run al su fa ops (snd (al t s)))"
  "snd (breaker_run al su fa (OpAllow t # ops) s)
     = snd (breaker_run al su fa ops (snd (al t s)))"
  by (simp_all add: Let_def split: prod.splits)

declare breaker_run.simps(2) [simp del]

locale breaker =
  fixes allow :: "gtime \<Rightarrow> 's \<Rightarrow> bool \<times> 's"
    and on_success :: "gtime \<Rightarrow> 's \<Rightarrow> 's"
    and on_failure :: "gtime \<Rightarrow> 's \<Rightarrow> 's"
    and is_open :: "'s \<Rightarrow> bool"
    and ready :: "gtime \<Rightarrow> 's \<Rightarrow> bool"
    and slack :: "'s \<Rightarrow> nat"
    and inv :: "'s \<Rightarrow> bool"
  assumes allow_blocked: "inv s \<Longrightarrow> is_open s \<Longrightarrow> \<not> ready now s \<Longrightarrow> allow now s = (False, s)"
    and allow_probe: "inv s \<Longrightarrow> is_open s \<Longrightarrow> ready now s \<Longrightarrow>
      fst (allow now s) \<and> \<not> is_open (snd (allow now s))"
    and allow_not_opens: "inv s \<Longrightarrow> \<not> is_open s \<Longrightarrow> \<not> is_open (snd (allow now s))"
    and success_not_opens: "inv s \<Longrightarrow> \<not> is_open s \<Longrightarrow> \<not> is_open (on_success now s)"
    and failure_stays_open: "inv s \<Longrightarrow> is_open s \<Longrightarrow> is_open (on_failure now s)"
    and failure_trips: "inv s \<Longrightarrow> \<not> is_open s \<Longrightarrow> slack s \<le> 1 \<Longrightarrow> is_open (on_failure now s)"
    and failure_slack: "inv s \<Longrightarrow> \<not> is_open s \<Longrightarrow> \<not> is_open (on_failure now s) \<Longrightarrow>
      slack (on_failure now s) < slack s"
    and inv_allow: "inv s \<Longrightarrow> inv (snd (allow now s))"
    and inv_success: "inv s \<Longrightarrow> inv (on_success now s)"
    and inv_failure: "inv s \<Longrightarrow> inv (on_failure now s)"
begin

text \<open>Enough consecutive failures open the breaker, whatever state they find it in.\<close>

lemma failures_keep_inv: "inv s \<Longrightarrow> inv (fold on_failure ts s)"
  by (induction ts arbitrary: s) (simp_all add: inv_failure)

lemma failures_keep_open: "inv s \<Longrightarrow> is_open s \<Longrightarrow> is_open (fold on_failure ts s)"
  by (induction ts arbitrary: s) (simp_all add: inv_failure failure_stays_open)

lemma failures_open:
  assumes "inv s" "ts \<noteq> []" "slack s \<le> length ts"
  shows "is_open (fold on_failure ts s)"
  using assms
proof (induction ts arbitrary: s)
  case Nil
  then show ?case by simp
next
  case (Cons t ts)
  let ?s = "on_failure t s"
  have inv: "inv ?s" using Cons.prems(1) by (rule inv_failure)
  show ?case
  proof (cases "is_open ?s")
    case True
    with inv show ?thesis by (simp add: failures_keep_open)
  next
    case False
    with Cons.prems(1) have closed: "\<not> is_open s" by (auto dest: failure_stays_open)
    with False Cons.prems(1) have "slack ?s < slack s" "1 < slack s"
      by (auto intro: failure_slack dest: failure_trips)
    with Cons.prems(3) have "ts \<noteq> []" "slack ?s \<le> length ts" by auto
    with inv show ?thesis using Cons.IH by simp
  qed
qed

lemma run_inv: "inv s \<Longrightarrow> inv (snd (breaker_run allow on_success on_failure ops s))"
proof (induction ops arbitrary: s)
  case Nil
  then show ?case by simp
next
  case (Cons x ops)
  then show ?case by (cases x) (simp_all add: inv_allow inv_success inv_failure)
qed

text \<open>While the cooldown runs, polling is refused and leaves no trace.\<close>

lemma polls_blocked:
  assumes "inv s" "is_open s" "\<And>t. t \<in> set ts \<Longrightarrow> \<not> ready t s"
  shows "breaker_run allow on_success on_failure (map OpAllow ts) s
    = (replicate (length ts) False, s)"
  using assms by (induction ts) (simp_all add: allow_blocked prod_eq_iff)

end

text \<open>
  A breaker whose cooldown is counted from the last failure: a failure that leaves it
  open keeps it from being ready for the cooldown, and a success reported by a caller
  that was admitted earlier does not close it.
\<close>

locale rearming_breaker = breaker +
  fixes cooldown :: "'a \<Rightarrow> duration"
  assumes failure_rearms: "inv s \<Longrightarrow> is_open (on_failure now s) \<Longrightarrow> t < now + cooldown s \<Longrightarrow>
      \<not> ready t (on_failure now s)"
    and cooldown_failure: "cooldown (on_failure now s) = cooldown s"
begin

lemma failures_cooldown: "cooldown (fold on_failure ts s) = cooldown s"
  by (induction ts arbitrary: s) (simp_all add: cooldown_failure)

text \<open>
  The fail-fast guarantee: once the failures that were still tolerated have happened,
  the last of them at \<open>t0\<close>, every request before \<open>t0 + cooldown\<close> is refused and the
  breaker is left as the last failure left it.
\<close>

lemma fail_fast:
  assumes "inv s" "slack s \<le> Suc (length ts)"
    and "\<And>t. t \<in> set polls \<Longrightarrow> t < t0 + cooldown s"
  shows "breaker_run allow on_success on_failure (map OpAllow polls)
      (fold on_failure (ts @ [t0]) s)
    = (replicate (length polls) False, fold on_failure (ts @ [t0]) s)"
proof (rule polls_blocked)
  let ?s = "fold on_failure ts s"
  show inv: "inv (fold on_failure (ts @ [t0]) s)"
    using assms(1) by (rule failures_keep_inv)
  show open': "is_open (fold on_failure (ts @ [t0]) s)"
    using assms(1,2) by (intro failures_open) auto
  show "\<not> ready t (fold on_failure (ts @ [t0]) s)" if "t \<in> set polls" for t
    using failure_rearms [of ?s t0 t] failures_keep_inv [OF assms(1)] open' assms(3) [OF that]
    by (simp add: failures_cooldown)
qed

end

text \<open>
  Among operations that report no success, failures count however many requests are admitted in
  between, and whether the breaker opens and lets probes through on the way: the number of failures
  that are still tolerated falls with each of them, to one for a breaker that has opened.
\<close>

fun is_success :: "breaker_op \<Rightarrow> bool" where
  "is_success (OpSuccess t) = True"
| "is_success _ = False"

fun is_failure :: "breaker_op \<Rightarrow> bool" where
  "is_failure (OpFailure t) = True"
| "is_failure _ = False"

lemma breaker_run_append:
  "snd (breaker_run al su fa (ops @ ops') s) = snd (breaker_run al su fa ops' (snd (breaker_run al su fa ops s)))"
proof (induction ops arbitrary: s)
  case (Cons x ops)
  then show ?case by (cases x) simp_all
qed simp

definition tolerated :: "('s \<Rightarrow> bool) \<Rightarrow> ('s \<Rightarrow> nat) \<Rightarrow> 's \<Rightarrow> nat" where
  "tolerated is_open slack s = (if is_open s then 1 else slack s)"

locale probing_breaker = rearming_breaker +
  assumes probe_slack: "inv s \<Longrightarrow> is_open s \<Longrightarrow> \<not> is_open (snd (allow now s)) \<Longrightarrow> slack (snd (allow now s)) \<le> 1"
    and allow_slack: "inv s \<Longrightarrow> \<not> is_open s \<Longrightarrow> slack (snd (allow now s)) \<le> slack s"
    and cooldown_allow: "cooldown (snd (allow now s)) = cooldown s"
begin

lemma run_tolerated:
  assumes "inv s" "list_all (\<lambda>x. \<not> is_success x) ops"
  shows "tolerated is_open slack (snd (breaker_run allow on_success on_failure ops s))
    \<le> max 1 (tolerated is_open slack s - length (filter is_failure ops))"
  using assms
proof (induction ops arbitrary: s)
  case (Cons x ops)
  have inv: "inv (snd (allow t s))" "inv (on_failure t s)" for t using Cons.prems(1) by (auto intro: inv_allow inv_failure)
  show ?case
  proof (cases x)
    case (OpAllow t)
    have "tolerated is_open slack (snd (allow t s)) \<le> max 1 (tolerated is_open slack s)"
      using Cons.prems(1) probe_slack [of s t] allow_slack [of s t] allow_not_opens [of s t] by (auto simp: tolerated_def)
    then show ?thesis using Cons.IH [OF inv(1) [of t]] Cons.prems(2) OpAllow by simp
  next
    case (OpFailure t)
    have "tolerated is_open slack (on_failure t s) \<le> max 1 (tolerated is_open slack s - 1)"
      using Cons.prems(1) failure_slack [of s t] failure_stays_open [of s t] by (auto simp: tolerated_def)
    then show ?thesis using Cons.IH [OF inv(2) [of t]] Cons.prems(2) OpFailure by simp
  qed (use Cons.prems in simp)
qed simp

lemma run_cooldown:
  assumes "list_all (\<lambda>x. \<not> is_success x) ops"
  shows "cooldown (snd (breaker_run allow on_success on_failure ops s)) = cooldown s"
  using assms
proof (induction ops arbitrary: s)
  case (Cons x ops)
  then show ?case by (cases x) (simp_all add: cooldown_allow cooldown_failure)
qed simp

lemma open_without_success:
  assumes "inv s" "is_open s" "\<And>t. t < limit \<Longrightarrow> \<not> ready t s"
    and "\<And>x. x \<in> set ops \<Longrightarrow> \<not> is_success x \<and> op_time x < limit \<and> limit \<le> op_time x + cooldown s"
    and "now < limit"
  shows "\<not> fst (allow now (snd (breaker_run allow on_success on_failure ops s)))"
  using assms
proof (induction ops arbitrary: s)
  case Nil
  then show ?case by (simp add: allow_blocked)
next
  case (Cons x ops)
  show ?case
  proof (cases x)
    case (OpAllow t)
    then have "t < limit" using Cons.prems(4) [of x] by simp
    then have "allow t s = (False, s)" using Cons.prems(1-3) by (intro allow_blocked) auto
    then show ?thesis using OpAllow Cons by simp
  next
    case (OpFailure t)
    have "is_open (on_failure t s)" using Cons.prems(1,2) by (rule failure_stays_open)
    then have "\<not> fst (allow now (snd (breaker_run allow on_success on_failure ops (on_failure t s))))"
      using Cons.prems(4) [of x] Cons.prems OpFailure
      by (intro Cons.IH) (auto simp: inv_failure cooldown_failure failure_rearms)
    then show ?thesis using OpFailure by simp
  qed (use Cons.prems(4) [of x] in simp)
qed

lemma outage:
  assumes "inv s" "tolerated is_open slack s \<le> Suc (length (filter is_failure pre))"
    and "list_all (\<lambda>x. \<not> is_success x) pre"
    and "\<And>x. x \<in> set post \<Longrightarrow> \<not> is_success x \<and> t0 \<le> op_time x \<and> op_time x < t0 + cooldown s"
    and "now < t0 + cooldown s"
  shows "\<not> fst (allow now (snd (breaker_run allow on_success on_failure (pre @ OpFailure t0 # post) s)))"
proof -
  let ?s = "snd (breaker_run allow on_success on_failure pre s)"
  have i: "inv ?s" using assms(1) by (rule run_inv)
  have "tolerated is_open slack ?s \<le> 1" using run_tolerated [OF assms(1,3)] assms(2) by simp
  then have o: "is_open (on_failure t0 ?s)"
    using i failure_trips failure_stays_open by (auto simp: tolerated_def split: if_splits)
  have "\<not> fst (allow now (snd (breaker_run allow on_success on_failure post (on_failure t0 ?s))))"
  proof (rule open_without_success [OF _ o])
    show "inv (on_failure t0 ?s)" using i by (rule inv_failure)
    show "\<not> ready t (on_failure t0 ?s)" if "t < t0 + cooldown s" for t
      using failure_rearms [OF i o] that run_cooldown [OF assms(3)] by simp
    show "\<not> is_success x \<and> op_time x < t0 + cooldown s \<and> t0 + cooldown s \<le> op_time x + cooldown (on_failure t0 ?s)"
      if "x \<in> set post" for x
      using assms(4) [OF that] run_cooldown [OF assms(3)] by (simp add: cooldown_failure)
  qed (rule assms(5))
  then show ?thesis by (simp add: breaker_run_append)
qed

end

locale latching_breaker = rearming_breaker +
  assumes success_stays_open: "inv s \<Longrightarrow> is_open s \<Longrightarrow> is_open (on_success now s)"
    and success_ready: "inv s \<Longrightarrow> is_open s \<Longrightarrow> ready t (on_success now s) = ready t s"
    and cooldown_success: "inv s \<Longrightarrow> is_open s \<Longrightarrow> cooldown (on_success now s) = cooldown s"
begin

text \<open>
  An open breaker stays shut for any interleaving of the operations of its callers, late
  successes and late failures included, up to the instant its cooldown ends.
\<close>

lemma stays_shut:
  assumes "inv s" "is_open s" "\<And>t. t < limit \<Longrightarrow> \<not> ready t s"
    and "\<And>x. x \<in> set ops \<Longrightarrow> op_time x < limit \<and> limit \<le> op_time x + cooldown s"
  shows "is_open (snd (breaker_run allow on_success on_failure ops s))
    \<and> True \<notin> set (fst (breaker_run allow on_success on_failure ops s))"
  using assms
proof (induction ops arbitrary: s)
  case Nil
  then show ?case by simp
next
  case (Cons x ops)
  have x: "op_time x < limit" "limit \<le> op_time x + cooldown s"
    using Cons.prems(4) by simp_all
  show ?case
  proof (cases x)
    case (OpAllow t)
    with x Cons.prems have "allow t s = (False, s)" by (auto intro: allow_blocked)
    with OpAllow Cons show ?thesis by simp
  next
    case (OpSuccess t)
    have "is_open (snd (breaker_run allow on_success on_failure ops (on_success t s)))
      \<and> True \<notin> set (fst (breaker_run allow on_success on_failure ops (on_success t s)))"
      using Cons.prems
      by (intro Cons.IH) (auto simp: inv_success success_stays_open success_ready cooldown_success)
    with OpSuccess show ?thesis by simp
  next
    case (OpFailure t)
    have "is_open (on_failure t s)" using Cons.prems(1,2) by (rule failure_stays_open)
    then have "is_open (snd (breaker_run allow on_success on_failure ops (on_failure t s)))
      \<and> True \<notin> set (fst (breaker_run allow on_success on_failure ops (on_failure t s)))"
      using Cons.prems x OpFailure
      by (intro Cons.IH) (auto simp: inv_failure cooldown_failure failure_rearms)
    with OpFailure show ?thesis by simp
  qed
qed

text \<open>The two together: tripped at \<open>t0\<close>, shut until \<open>t0 + cooldown\<close>.\<close>

lemma shut_after_failures:
  assumes "inv s" "slack s \<le> Suc (length ts)"
    and "\<And>x. x \<in> set ops \<Longrightarrow> t0 \<le> op_time x \<and> op_time x < t0 + cooldown s"
  shows "is_open (snd (breaker_run allow on_success on_failure ops
        (fold on_failure (ts @ [t0]) s)))
    \<and> True \<notin> set (fst (breaker_run allow on_success on_failure ops
        (fold on_failure (ts @ [t0]) s)))"
proof (rule stays_shut)
  let ?s = "fold on_failure (ts @ [t0]) s"
  show "inv ?s" using assms(1) by (rule failures_keep_inv)
  show open': "is_open ?s" using assms(1,2) by (intro failures_open) auto
  show "\<not> ready t ?s" if "t < t0 + cooldown s" for t
    using failure_rearms [of "fold on_failure ts s" t0 t] failures_keep_inv [OF assms(1)] open' that
    by (simp add: failures_cooldown)
  show "op_time x < t0 + cooldown s \<and> t0 + cooldown s \<le> op_time x + cooldown ?s"
    if "x \<in> set ops" for x
    using assms(3) [OF that] by (simp only: failures_cooldown) simp
qed

end

end
