(* ===== verification/Retry_Breaker.thy ===== *)
theory Retry_Breaker
  imports Breaker_Contract
begin

text \<open>
  \<open>internal/retry/circuit_breaker.go\<close>: the breaker that guards retried calls. The record
  \<open>retry_cb\<close> is \<open>CircuitBreaker\<close> without its mutex; each method is one definition that
  takes the instant it reads. \<open>Allow\<close> answers \<open>nil\<close> (\<open>None\<close>) or \<open>ErrCircuitOpen\<close>.
  The logging calls have no effect on the state and are left out.
\<close>

datatype retry_state = CircuitClosed | CircuitOpen | CircuitHalfOpen

datatype retry_error = ErrCircuitOpen

fun retry_state_String :: "retry_state \<Rightarrow> gostr" where
  "retry_state_String CircuitClosed = ''closed''"
| "retry_state_String CircuitOpen = ''open''"
| "retry_state_String CircuitHalfOpen = ''half-open''"

record retry_cb =
  rcb_state :: retry_state
  rcb_failureCount :: int
  rcb_successCount :: int
  rcb_failureThreshold :: int
  rcb_successThreshold :: int
  rcb_timeout :: duration
  rcb_lastFailureTime :: gtime

definition retry_NewCircuitBreaker :: "int \<Rightarrow> int \<Rightarrow> duration \<Rightarrow> retry_cb" where
  "retry_NewCircuitBreaker failureThreshold successThreshold timeout =
     \<lparr>rcb_state = CircuitClosed, rcb_failureCount = 0, rcb_successCount = 0,
      rcb_failureThreshold = failureThreshold, rcb_successThreshold = successThreshold,
      rcb_timeout = timeout, rcb_lastFailureTime = zero_time\<rparr>"

definition retry_State :: "retry_cb \<Rightarrow> retry_state" where
  "retry_State cb = rcb_state cb"

definition retry_Allow :: "gtime \<Rightarrow> retry_cb \<Rightarrow> retry_error option \<times> retry_cb" where
  "retry_Allow now cb = (case rcb_state cb of
     CircuitClosed \<Rightarrow> (None, cb)
   | CircuitOpen \<Rightarrow>
       if time_sub now (rcb_lastFailureTime cb) > rcb_timeout cb
       then (None, cb\<lparr>rcb_state := CircuitHalfOpen, rcb_successCount := 0, rcb_failureCount := 0\<rparr>)
       else (Some ErrCircuitOpen, cb)
   | CircuitHalfOpen \<Rightarrow> (None, cb))"

definition retry_RecordSuccess :: "retry_cb \<Rightarrow> retry_cb" where
  "retry_RecordSuccess cb = (case rcb_state cb of
     CircuitClosed \<Rightarrow> cb\<lparr>rcb_failureCount := 0\<rparr>
   | CircuitHalfOpen \<Rightarrow>
       let cb = cb\<lparr>rcb_successCount := rcb_successCount cb + 1\<rparr> in
       if rcb_successCount cb \<ge> rcb_successThreshold cb
       then cb\<lparr>rcb_state := CircuitClosed, rcb_failureCount := 0, rcb_successCount := 0\<rparr>
       else cb
   | CircuitOpen \<Rightarrow> cb)"

definition retry_RecordFailure :: "gtime \<Rightarrow> retry_cb \<Rightarrow> retry_cb" where
  "retry_RecordFailure now cb =
     (let cb = cb\<lparr>rcb_lastFailureTime := now\<rparr> in
      case rcb_state cb of
        CircuitClosed \<Rightarrow>
          let cb = cb\<lparr>rcb_failureCount := rcb_failureCount cb + 1\<rparr> in
          if rcb_failureCount cb \<ge> rcb_failureThreshold cb
          then cb\<lparr>rcb_state := CircuitOpen\<rparr> else cb
      | CircuitHalfOpen \<Rightarrow> cb\<lparr>rcb_state := CircuitOpen, rcb_failureCount := 1\<rparr>
      | CircuitOpen \<Rightarrow> cb)"

definition retry_Reset :: "retry_cb \<Rightarrow> retry_cb" where
  "retry_Reset cb = cb\<lparr>rcb_state := CircuitClosed, rcb_failureCount := 0,
     rcb_successCount := 0, rcb_lastFailureTime := zero_time\<rparr>"

record retry_stats =
  rst_State :: gostr
  rst_FailureCount :: int
  rst_SuccessCount :: int
  rst_LastFailure :: gtime
  rst_FailureThreshold :: int
  rst_SuccessThreshold :: int

definition retry_Stats :: "retry_cb \<Rightarrow> retry_stats" where
  "retry_Stats cb = \<lparr>rst_State = retry_state_String (rcb_state cb),
     rst_FailureCount = rcb_failureCount cb, rst_SuccessCount = rcb_successCount cb,
     rst_LastFailure = rcb_lastFailureTime cb,
     rst_FailureThreshold = rcb_failureThreshold cb,
     rst_SuccessThreshold = rcb_successThreshold cb\<rparr>"

lemmas retry_ops = retry_Allow_def retry_RecordSuccess_def retry_RecordFailure_def retry_Reset_def

section \<open>The contract\<close>

text \<open>
  What the contract needs of a configuration is only that the timeout is a Go duration;
  the thresholds may be any integers.
\<close>

definition retry_inv :: "retry_cb \<Rightarrow> bool" where
  "retry_inv cb \<longleftrightarrow> is_duration (rcb_timeout cb)"

definition retry_admit :: "gtime \<Rightarrow> retry_cb \<Rightarrow> bool \<times> retry_cb" where
  "retry_admit now cb = (let (e, cb') = retry_Allow now cb in (e = None, cb'))"

definition retry_ready :: "gtime \<Rightarrow> retry_cb \<Rightarrow> bool" where
  "retry_ready now cb \<longleftrightarrow> time_sub now (rcb_lastFailureTime cb) > rcb_timeout cb"

definition retry_slack :: "retry_cb \<Rightarrow> nat" where
  "retry_slack cb = (case rcb_state cb of
     CircuitClosed \<Rightarrow> nat (rcb_failureThreshold cb - rcb_failureCount cb)
   | CircuitHalfOpen \<Rightarrow> 1
   | CircuitOpen \<Rightarrow> 0)"

abbreviation retry_is_open :: "retry_cb \<Rightarrow> bool" where
  "retry_is_open cb \<equiv> rcb_state cb = CircuitOpen"

lemmas retry_contract_defs = retry_ops retry_admit_def retry_ready_def retry_slack_def retry_inv_def

interpretation rcb: latching_breaker retry_admit "\<lambda>_. retry_RecordSuccess" retry_RecordFailure
  retry_is_open retry_ready retry_slack retry_inv rcb_timeout
  by unfold_locales
    (auto simp: retry_contract_defs Let_def split: retry_state.splits if_splits dest: time_sub_gtD)

section \<open>Transitions\<close>

text \<open>
  The steps a caller can make the breaker take, and the transitions of the protocol: a
  breaker opens only out of a failure, leaves the open state only through an \<open>Allow\<close>
  after the timeout (or a reset), and closes again only after enough probe successes.
\<close>

inductive retry_step :: "retry_cb \<Rightarrow> retry_cb \<Rightarrow> bool" where
  allow: "retry_step cb (snd (retry_Allow now cb))"
| success: "retry_step cb (retry_RecordSuccess cb)"
| failure: "retry_step cb (retry_RecordFailure now cb)"
| reset: "retry_step cb (retry_Reset cb)"

inductive_cases retry_stepE: "retry_step cb cb'"

text \<open>
  Counters of a breaker built by the constructor with a positive success threshold: a
  half-open breaker has seen fewer probe successes than it needs, and no failure; a
  closed one has seen no more failures than it tolerates.
\<close>

definition retry_wf :: "retry_cb \<Rightarrow> bool" where
  "retry_wf cb \<longleftrightarrow> 0 \<le> rcb_failureCount cb \<and> 0 \<le> rcb_successCount cb
     \<and> (rcb_state cb = CircuitClosed \<longrightarrow>
          rcb_failureCount cb < rcb_failureThreshold cb \<and> rcb_successCount cb = 0)
     \<and> (rcb_state cb = CircuitHalfOpen \<longrightarrow>
          rcb_failureCount cb = 0 \<and> rcb_successCount cb < rcb_successThreshold cb)
     \<and> (rcb_state cb = CircuitOpen \<longrightarrow> 1 \<le> rcb_failureCount cb)"

definition retry_config_ok :: "retry_cb \<Rightarrow> bool" where
  "retry_config_ok cb \<longleftrightarrow> 1 \<le> rcb_failureThreshold cb \<and> 1 \<le> rcb_successThreshold cb"

lemma retry_step_config: "retry_step cb cb' \<Longrightarrow> retry_config_ok cb' = retry_config_ok cb"
  by (elim retry_stepE)
    (auto simp: retry_ops retry_config_ok_def Let_def split: retry_state.splits)

lemma retry_step_wf: "retry_step cb cb' \<Longrightarrow> retry_config_ok cb \<Longrightarrow> retry_wf cb \<Longrightarrow> retry_wf cb'"
  by (elim retry_stepE)
    (auto simp: retry_ops retry_config_ok_def retry_wf_def Let_def split: retry_state.splits)

section \<open>Properties\<close>

lemma retry_New_slack:
  "retry_slack (retry_NewCircuitBreaker ft st d) = nat ft"
  by (simp add: retry_slack_def retry_NewCircuitBreaker_def)

lemma retry_New_inv: "retry_inv (retry_NewCircuitBreaker ft st d) = is_duration d"
  by (simp add: retry_inv_def retry_NewCircuitBreaker_def)

text \<open>Fail fast. Once a fresh retry breaker has seen its threshold of consecutive
  failures, the last of them at \<open>t0\<close>, every \<open>Allow\<close> before \<open>t0\<close> plus the timeout is
  refused, and the polling leaves the breaker as the last failure left it.\<close>

theorem retry_fail_fast:
  assumes "is_duration d" "ft \<le> int (length ts) + 1" "\<forall>t \<in> set polls. t < t0 + d"
  shows "breaker_run retry_admit (\<lambda>_. retry_RecordSuccess) retry_RecordFailure
      (map OpAllow polls)
      (fold retry_RecordFailure (ts @ [t0]) (retry_NewCircuitBreaker ft st d))
    = (replicate (length polls) False,
       fold retry_RecordFailure (ts @ [t0]) (retry_NewCircuitBreaker ft st d))"
proof (rule rcb.fail_fast)
  show "retry_inv (retry_NewCircuitBreaker ft st d)"
    using assms(1) by (simp add: retry_New_inv)
  show "retry_slack (retry_NewCircuitBreaker ft st d) \<le> Suc (length ts)"
    using assms(2) by (simp add: retry_New_slack)
  show "t < t0 + rcb_timeout (retry_NewCircuitBreaker ft st d)" if "t \<in> set polls" for t
    using assms(3) that by (simp add: retry_NewCircuitBreaker_def)
qed

theorem retry_fail_fast_witness:
  "breaker_run retry_admit (\<lambda>_. retry_RecordSuccess) retry_RecordFailure
      (map OpAllow [115, 130])
      (fold retry_RecordFailure ([100, 105] @ [110]) (retry_NewCircuitBreaker 3 2 30))
    = ([False, False],
       fold retry_RecordFailure ([100, 105] @ [110]) (retry_NewCircuitBreaker 3 2 30))"
  using retry_fail_fast [of 30 3 "[100, 105]" "[115, 130]" 110 2]
  by (simp add: is_duration_def min_duration_def max_duration_def numeral_2_eq_2)

text \<open>The transitions of the retry breaker. Whatever operation a caller makes, the
  breaker leaves the open state only through an \<open>Allow\<close> after the timeout has elapsed
  since the last failure, and then into the half-open state, or through a reset; and it
  enters the open state only through a failure.\<close>

theorem retry_transitions:
  assumes "retry_step cb cb'" "rcb_state cb' \<noteq> rcb_state cb"
  shows "rcb_state cb = CircuitOpen \<and> rcb_state cb' = CircuitHalfOpen
      \<and> (\<exists>now. retry_ready now cb \<and> retry_Allow now cb = (None, cb'))
    \<or> cb' = retry_Reset cb
    \<or> rcb_state cb \<noteq> CircuitOpen \<and> rcb_state cb' = CircuitOpen
      \<and> (\<exists>now. cb' = retry_RecordFailure now cb)
    \<or> rcb_state cb = CircuitHalfOpen \<and> rcb_state cb' = CircuitClosed
      \<and> cb' = retry_RecordSuccess cb
      \<and> rcb_successThreshold cb \<le> rcb_successCount cb + 1"
  using assms(1)
proof (cases rule: retry_step.cases)
  case (allow now)
  with assms(2) show ?thesis
    by (auto simp: retry_Allow_def retry_ready_def split: retry_state.splits if_splits
        intro!: exI [of _ now])
next
  case success
  with assms(2) show ?thesis
    by (auto simp: retry_RecordSuccess_def Let_def split: retry_state.splits if_splits)
next
  case (failure now)
  with assms(2) show ?thesis
    by (auto simp: retry_RecordFailure_def Let_def split: retry_state.splits if_splits
        intro!: exI [of _ now])
next
  case reset
  then show ?thesis by simp
qed

theorem retry_transitions_witness:
  "\<exists>now. rcb_state (retry_RecordFailure 7 (retry_NewCircuitBreaker 1 1 5)) = CircuitOpen
     \<and> retry_RecordFailure 7 (retry_NewCircuitBreaker 1 1 5)
       = retry_RecordFailure now (retry_NewCircuitBreaker 1 1 5)"
  using retry_transitions [OF retry_step.failure [of "retry_NewCircuitBreaker 1 1 5" 7]]
  by (auto simp: retry_NewCircuitBreaker_def retry_RecordFailure_def retry_Reset_def
      retry_RecordSuccess_def)

text \<open>Reachable retry breakers are consistent. Every breaker built with positive
  thresholds and driven by any sequence of operations keeps its counters in range: a
  closed breaker is below its failure threshold, a half-open one has no failure on
  record and lacks at least one probe success, an open one has failed.\<close>

theorem retry_reachable_wf:
  assumes "retry_step\<^sup>*\<^sup>* (retry_NewCircuitBreaker ft st d) cb" "1 \<le> ft" "1 \<le> st"
  shows "retry_wf cb"
proof -
  have "retry_config_ok cb \<and> retry_wf cb"
    using assms(1)
  proof (induction rule: rtranclp_induct)
    case base
    show ?case using assms(2,3)
      by (simp add: retry_config_ok_def retry_wf_def retry_NewCircuitBreaker_def)
  next
    case (step y z)
    then show ?case by (auto simp: retry_step_config intro: retry_step_wf)
  qed
  then show ?thesis ..
qed

theorem retry_reachable_wf_witness:
  "retry_wf (retry_RecordFailure 9 (retry_NewCircuitBreaker 1 2 5))"
  by (rule retry_reachable_wf [of 1 2 5])
    (auto intro: r_into_rtranclp retry_step.intros)

lemma retry_probe_successes:
  assumes "rcb_state cb = CircuitHalfOpen" "rcb_successCount cb + int n < rcb_successThreshold cb"
  shows "(retry_RecordSuccess ^^ n) cb = cb\<lparr>rcb_successCount := rcb_successCount cb + int n\<rparr>"
  using assms
proof (induction n)
  case 0
  then show ?case by simp
next
  case (Suc n)
  then show ?case by (simp add: retry_RecordSuccess_def Let_def)
qed

text \<open>C34: recovery. A breaker that is open and past its timeout admits the next request. It then stays
  half-open, counting them, as long as fewer successes than the success threshold have followed, and
  closes with both counters cleared exactly at the threshold.\<close>

theorem retry_recovers:
  assumes "rcb_state cb = CircuitOpen" "retry_ready now cb" "1 \<le> rcb_successThreshold cb"
  shows "fst (retry_Allow now cb) = None
    \<and> (\<forall>k. int k < rcb_successThreshold cb \<longrightarrow> (retry_RecordSuccess ^^ k) (snd (retry_Allow now cb))
         = cb\<lparr>rcb_state := CircuitHalfOpen, rcb_successCount := int k, rcb_failureCount := 0\<rparr>)
    \<and> (retry_RecordSuccess ^^ nat (rcb_successThreshold cb)) (snd (retry_Allow now cb))
      = cb\<lparr>rcb_state := CircuitClosed, rcb_failureCount := 0, rcb_successCount := 0\<rparr>"
proof -
  let ?h = "cb\<lparr>rcb_state := CircuitHalfOpen, rcb_successCount := 0, rcb_failureCount := 0\<rparr>"
  define n where "n = nat (rcb_successThreshold cb - 1)"
  have n: "nat (rcb_successThreshold cb) = Suc n" "rcb_successThreshold cb = int n + 1"
    using assms(3) by (simp_all add: n_def Suc_nat_eq_nat_zadd1)
  have a: "retry_Allow now cb = (None, ?h)"
    using assms(1,2) by (simp add: retry_Allow_def retry_ready_def)
  have p: "(retry_RecordSuccess ^^ k) ?h = ?h\<lparr>rcb_successCount := int k\<rparr>" if "int k < rcb_successThreshold cb" for k
    using that retry_probe_successes [of ?h k] by simp
  show ?thesis using n a p [of n] p by (simp add: retry_RecordSuccess_def)
qed

theorem retry_recovers_witness:
  "rcb_state ((retry_RecordSuccess ^^ 2)
      (snd (retry_Allow 20 (retry_RecordFailure 7 (retry_NewCircuitBreaker 1 2 5))))) = CircuitClosed"
  using retry_recovers [of "retry_RecordFailure 7 (retry_NewCircuitBreaker 1 2 5)" 20]
  by (simp add: retry_RecordFailure_def retry_NewCircuitBreaker_def retry_ready_def
      time_sub_def min_duration_def max_duration_def)

end
