(* ===== verification/Circuit_Manager.thy ===== *)
theory Circuit_Manager
  imports Breaker_Contract
begin

text \<open>
  \<open>internal/resilience/circuitbreaker/circuitbreaker.go\<close>: the provider circuits with a
  bounded half-open phase, and the manager that holds one circuit per provider. The
  callback \<open>onStateChange\<close> is a private field nothing in the repository assigns, so it
  is \<open>nil\<close> and never fires; it has no counterpart here.
\<close>

datatype circuit_state = StateClosed | StateHalfOpen | StateOpen

fun circuit_state_String :: "circuit_state \<Rightarrow> gostr" where
  "circuit_state_String StateClosed = ''CLOSED''"
| "circuit_state_String StateHalfOpen = ''HALF_OPEN''"
| "circuit_state_String StateOpen = ''OPEN''"

record circuit_config =
  FailureThreshold :: int
  SuccessThreshold :: int
  OpenDuration :: duration
  HalfOpenMaxCalls :: int

definition DefaultConfig :: circuit_config where
  "DefaultConfig = \<lparr>FailureThreshold = 5, SuccessThreshold = 3,
     OpenDuration = 30 * second, HalfOpenMaxCalls = 3\<rparr>"

record circuit =
  c_provider :: gostr
  c_state :: circuit_state
  c_failures :: int
  c_successes :: int
  c_lastFailureTime :: gtime
  c_lastStateChange :: gtime
  c_config :: circuit_config

definition NewCircuit :: "gtime \<Rightarrow> gostr \<Rightarrow> circuit_config \<Rightarrow> circuit" where
  "NewCircuit now provider config =
     \<lparr>c_provider = provider, c_state = StateClosed, c_failures = 0, c_successes = 0,
      c_lastFailureTime = zero_time, c_lastStateChange = now, c_config = config\<rparr>"

definition circuit_transitionTo :: "gtime \<Rightarrow> circuit_state \<Rightarrow> circuit \<Rightarrow> circuit" where
  "circuit_transitionTo now newState c =
     (if c_state c = newState then c
      else let c = c\<lparr>c_state := newState, c_lastStateChange := now\<rparr> in
        (case newState of
           StateClosed \<Rightarrow> c\<lparr>c_failures := 0, c_successes := 0\<rparr>
         | StateHalfOpen \<Rightarrow> c\<lparr>c_successes := 0, c_failures := 0\<rparr>
         | StateOpen \<Rightarrow> c))"

definition circuit_Allow :: "gtime \<Rightarrow> circuit \<Rightarrow> bool \<times> circuit" where
  "circuit_Allow now c = (case c_state c of
     StateClosed \<Rightarrow> (True, c)
   | StateOpen \<Rightarrow>
       if time_sub now (c_lastFailureTime c) \<ge> OpenDuration (c_config c)
       then (True, circuit_transitionTo now StateHalfOpen c)
       else (False, c)
   | StateHalfOpen \<Rightarrow> (c_successes c + c_failures c < HalfOpenMaxCalls (c_config c), c))"

definition circuit_RecordSuccess :: "gtime \<Rightarrow> circuit \<Rightarrow> circuit" where
  "circuit_RecordSuccess now c = (case c_state c of
     StateClosed \<Rightarrow> c\<lparr>c_failures := 0, c_successes := c_successes c + 1\<rparr>
   | StateHalfOpen \<Rightarrow>
       let c = c\<lparr>c_successes := c_successes c + 1\<rparr> in
       if c_successes c \<ge> SuccessThreshold (c_config c)
       then circuit_transitionTo now StateClosed c else c
   | StateOpen \<Rightarrow> c)"

definition circuit_RecordFailure :: "gtime \<Rightarrow> circuit \<Rightarrow> circuit" where
  "circuit_RecordFailure now c =
     (let c = c\<lparr>c_lastFailureTime := now\<rparr> in
      case c_state c of
        StateClosed \<Rightarrow>
          let c = c\<lparr>c_failures := c_failures c + 1, c_successes := 0\<rparr> in
          if c_failures c \<ge> FailureThreshold (c_config c)
          then circuit_transitionTo now StateOpen c else c
      | StateHalfOpen \<Rightarrow>
          circuit_transitionTo now StateOpen (c\<lparr>c_failures := c_failures c + 1\<rparr>)
      | StateOpen \<Rightarrow> c)"

definition circuit_Reset :: "gtime \<Rightarrow> circuit \<Rightarrow> circuit" where
  "circuit_Reset now c = circuit_transitionTo now StateClosed c"

record circuit_stats =
  cs_Provider :: gostr
  cs_State :: gostr
  cs_Failures :: int
  cs_Successes :: int
  cs_LastFailure :: gtime
  cs_LastStateChange :: gtime
  cs_TimeInState :: duration

definition circuit_Stats :: "gtime \<Rightarrow> circuit \<Rightarrow> circuit_stats" where
  "circuit_Stats now c = \<lparr>cs_Provider = c_provider c,
     cs_State = circuit_state_String (c_state c), cs_Failures = c_failures c,
     cs_Successes = c_successes c, cs_LastFailure = c_lastFailureTime c,
     cs_LastStateChange = c_lastStateChange c,
     cs_TimeInState = time_sub now (c_lastStateChange c)\<rparr>"

section \<open>The manager\<close>

record circuit_manager =
  m_circuits :: "(gostr, circuit) gomap"
  m_config :: circuit_config
  m_persistFunc :: "(circuit_stats list \<Rightarrow> gostr option) option"

definition NewManager :: "circuit_config \<Rightarrow> circuit_manager" where
  "NewManager config = \<lparr>m_circuits = Map.empty, m_config = config, m_persistFunc = None\<rparr>"

definition manager_GetOrCreate ::
  "gtime \<Rightarrow> gostr \<Rightarrow> circuit_manager \<Rightarrow> circuit \<times> circuit_manager" where
  "manager_GetOrCreate now provider m =
     (let (c, cs) = get_or_create (NewCircuit now provider (m_config m)) (m_circuits m) provider
      in (c, m\<lparr>m_circuits := cs\<rparr>))"

definition manager_Get :: "gostr \<Rightarrow> circuit_manager \<Rightarrow> circuit option" where
  "manager_Get provider m = m_circuits m provider"

definition manager_List :: "gostr list \<Rightarrow> circuit_manager \<Rightarrow> circuit list" where
  "manager_List order m = map snd (range_of order (m_circuits m))"

definition manager_SetPersistenceFunc ::
  "(circuit_stats list \<Rightarrow> gostr option) \<Rightarrow> circuit_manager \<Rightarrow> circuit_manager" where
  "manager_SetPersistenceFunc f m = m\<lparr>m_persistFunc := Some f\<rparr>"

definition manager_PersistStats ::
  "gtime \<Rightarrow> gostr list \<Rightarrow> circuit_manager \<Rightarrow> gostr option" where
  "manager_PersistStats now order m = (case m_persistFunc m of
     None \<Rightarrow> None
   | Some f \<Rightarrow> f (map (circuit_Stats now \<circ> snd) (range_of order (m_circuits m))))"

lemmas circuit_ops = circuit_Allow_def circuit_RecordSuccess_def circuit_RecordFailure_def
  circuit_Reset_def circuit_transitionTo_def

section \<open>The contract\<close>

definition circuit_inv :: "circuit \<Rightarrow> bool" where
  "circuit_inv c \<longleftrightarrow> is_duration (OpenDuration (c_config c))
     \<and> min_duration < OpenDuration (c_config c)"

definition circuit_ready :: "gtime \<Rightarrow> circuit \<Rightarrow> bool" where
  "circuit_ready now c \<longleftrightarrow> time_sub now (c_lastFailureTime c) \<ge> OpenDuration (c_config c)"

definition circuit_slack :: "circuit \<Rightarrow> nat" where
  "circuit_slack c = (case c_state c of
     StateClosed \<Rightarrow> nat (FailureThreshold (c_config c) - c_failures c)
   | StateHalfOpen \<Rightarrow> 1
   | StateOpen \<Rightarrow> 0)"

definition circuit_cooldown :: "circuit \<Rightarrow> duration" where
  "circuit_cooldown c = OpenDuration (c_config c)"

abbreviation circuit_is_open :: "circuit \<Rightarrow> bool" where
  "circuit_is_open c \<equiv> c_state c = StateOpen"

lemmas circuit_contract_defs = circuit_ops circuit_ready_def circuit_slack_def circuit_inv_def
  circuit_cooldown_def

interpretation circ: latching_breaker circuit_Allow circuit_RecordSuccess circuit_RecordFailure
  circuit_is_open circuit_ready circuit_slack circuit_inv circuit_cooldown
  by unfold_locales
    (auto simp: circuit_contract_defs Let_def time_sub_ge_iff
      split: circuit_state.splits if_splits)

section \<open>Reachable circuits\<close>

inductive circuit_step :: "circuit \<Rightarrow> circuit \<Rightarrow> bool" where
  allow: "circuit_step c (snd (circuit_Allow now c))"
| success: "circuit_step c (circuit_RecordSuccess now c)"
| failure: "circuit_step c (circuit_RecordFailure now c)"
| reset: "circuit_step c (circuit_Reset now c)"

inductive_cases circuit_stepE: "circuit_step c c'"

definition circuit_wf :: "circuit \<Rightarrow> bool" where
  "circuit_wf c \<longleftrightarrow> 0 \<le> c_failures c \<and> 0 \<le> c_successes c
     \<and> (c_state c = StateClosed \<longrightarrow> c_failures c < FailureThreshold (c_config c))
     \<and> (c_state c = StateHalfOpen \<longrightarrow>
          c_failures c = 0 \<and> c_successes c < SuccessThreshold (c_config c))"

definition circuit_config_ok :: "circuit_config \<Rightarrow> bool" where
  "circuit_config_ok cfg \<longleftrightarrow> 1 \<le> FailureThreshold cfg \<and> 1 \<le> SuccessThreshold cfg
     \<and> SuccessThreshold cfg \<le> HalfOpenMaxCalls cfg"

lemma circuit_step_config: "circuit_step c c' \<Longrightarrow> c_config c' = c_config c"
  by (elim circuit_stepE) (auto simp: circuit_ops Let_def split: circuit_state.splits)

lemma circuit_step_wf:
  "circuit_step c c' \<Longrightarrow> circuit_config_ok (c_config c) \<Longrightarrow> circuit_wf c \<Longrightarrow> circuit_wf c'"
  by (elim circuit_stepE)
    (auto simp: circuit_ops circuit_config_ok_def circuit_wf_def Let_def
      split: circuit_state.splits)

lemma circuit_reachable_wf:
  assumes "circuit_step\<^sup>*\<^sup>* (NewCircuit now p cfg) c" "circuit_config_ok cfg"
  shows "circuit_wf c \<and> c_config c = cfg"
  using assms(1)
proof (induction rule: rtranclp_induct)
  case base
  show ?case using assms(2)
    by (simp add: circuit_wf_def circuit_config_ok_def NewCircuit_def)
next
  case (step y z)
  with assms(2) show ?case by (auto simp: circuit_step_config intro: circuit_step_wf)
qed

section \<open>Properties\<close>

text \<open>C7: fail fast. A circuit built with the default configuration that has recorded
  five consecutive failures, the last at \<open>t0\<close>, refuses every request for the following
  thirty seconds, whatever successes and failures of requests admitted earlier are still
  reported in between.\<close>

theorem circuit_stays_shut:
  assumes "length ts = 4"
    and "\<forall>x \<in> set ops. t0 \<le> op_time x \<and> op_time x < t0 + 30 * second"
  shows "True \<notin> set (fst (breaker_run circuit_Allow circuit_RecordSuccess circuit_RecordFailure
      ops (fold circuit_RecordFailure (ts @ [t0]) (NewCircuit now p DefaultConfig))))"
proof -
  let ?c = "NewCircuit now p DefaultConfig"
  have "circuit_inv ?c"
    by (simp add: circuit_inv_def NewCircuit_def DefaultConfig_def is_duration_def
        min_duration_def max_duration_def second_def)
  moreover have "circuit_slack ?c \<le> Suc (length ts)"
    using assms(1) by (simp add: circuit_slack_def NewCircuit_def DefaultConfig_def)
  moreover have "circuit_cooldown ?c = 30 * second"
    by (simp add: circuit_cooldown_def NewCircuit_def DefaultConfig_def)
  ultimately show ?thesis
    using circ.shut_after_failures [of ?c ts ops t0] assms(2) by simp
qed

theorem circuit_stays_shut_witness:
  "True \<notin> set (fst (breaker_run circuit_Allow circuit_RecordSuccess circuit_RecordFailure
     [OpAllow 110, OpSuccess 120, OpFailure 130, OpAllow 29000000000]
     (fold circuit_RecordFailure ([1, 2, 3, 4] @ [100]) (NewCircuit 0 ''p'' DefaultConfig))))"
  using circuit_stays_shut [of "[1, 2, 3, 4]"
      "[OpAllow 110, OpSuccess 120, OpFailure 130, OpAllow 29000000000]" 100 0 "''p''"]
  by (simp add: second_def)

text \<open>No half-open deadlock. When the configuration needs no more probe successes
  than it admits half-open calls (the defaults do), every reachable half-open circuit
  admits the next request, so it can always make progress.\<close>

theorem circuit_half_open_admits:
  assumes "circuit_step\<^sup>*\<^sup>* (NewCircuit now p cfg) c" "circuit_config_ok cfg"
    and "c_state c = StateHalfOpen"
  shows "circuit_Allow t c = (True, c)"
  using circuit_reachable_wf [OF assms(1,2)] assms(2,3)
  by (auto simp: circuit_Allow_def circuit_wf_def circuit_config_ok_def)

lemma circuit_default_half_open:
  "circuit_step\<^sup>*\<^sup>* (NewCircuit 0 ''p'' (DefaultConfig\<lparr>FailureThreshold := 1\<rparr>))
     (snd (circuit_Allow 40000000000
        (circuit_RecordFailure 7 (NewCircuit 0 ''p'' (DefaultConfig\<lparr>FailureThreshold := 1\<rparr>)))))"
  by (rule rtranclp.rtrancl_into_rtrancl [where r = circuit_step, OF r_into_rtranclp])
    (rule circuit_step.failure, rule circuit_step.allow)

theorem circuit_half_open_admits_witness:
  "fst (circuit_Allow 9 (snd (circuit_Allow 40000000000
     (circuit_RecordFailure 7 (NewCircuit 0 ''p'' (DefaultConfig\<lparr>FailureThreshold := 1\<rparr>))))))"
  using circuit_half_open_admits [OF circuit_default_half_open, of 9]
  by (simp add: circuit_config_ok_def DefaultConfig_def circuit_ops NewCircuit_def second_def
      time_sub_def min_duration_def max_duration_def)

text \<open>The half-open bound counts outcomes, not calls. A circuit that has just become
  half-open admits any number of requests as long as none of them has reported an
  outcome: \<open>HalfOpenMaxCalls\<close> does not bound the calls in flight.\<close>

theorem circuit_half_open_unbounded:
  assumes "circuit_is_open c" "circuit_ready now c" "0 < HalfOpenMaxCalls (c_config c)"
  shows "breaker_run circuit_Allow circuit_RecordSuccess circuit_RecordFailure
      (OpAllow now # map OpAllow ts) c
    = (replicate (Suc (length ts)) True, circuit_transitionTo now StateHalfOpen c)"
proof -
  let ?h = "circuit_transitionTo now StateHalfOpen c"
  have h: "circuit_Allow t ?h = (True, ?h)" for t
    using assms by (simp add: circuit_ops)
  have "breaker_run circuit_Allow circuit_RecordSuccess circuit_RecordFailure (map OpAllow ts) ?h
    = (replicate (length ts) True, ?h)"
    by (induction ts) (simp_all add: h prod_eq_iff)
  then show ?thesis
    using assms by (simp add: prod_eq_iff circuit_Allow_def circuit_ready_def)
qed

theorem circuit_half_open_unbounded_witness:
  "fst (breaker_run circuit_Allow circuit_RecordSuccess circuit_RecordFailure
     (OpAllow 40000000000 # map OpAllow [1, 2, 3, 4, 5, 6, 7])
     ((NewCircuit 0 ''p'' DefaultConfig)\<lparr>c_state := StateOpen\<rparr>)) = replicate 8 True"
  using circuit_half_open_unbounded
    [of "(NewCircuit 0 ''p'' DefaultConfig)\<lparr>c_state := StateOpen\<rparr>" 40000000000
      "[1, 2, 3, 4, 5, 6, 7]"]
  by (simp add: circuit_ready_def DefaultConfig_def NewCircuit_def second_def zero_time_def
      time_sub_def min_duration_def max_duration_def numeral_eq_Suc)

text \<open>The manager hands out one circuit per provider. A circuit asked for twice is
  the same circuit, a new one is closed with the manager's configuration, and asking for
  one provider leaves the circuits of the others alone.\<close>

theorem manager_GetOrCreate_spec:
  "manager_Get p (snd (manager_GetOrCreate now p m)) = Some (fst (manager_GetOrCreate now p m))
   \<and> manager_GetOrCreate now' p (snd (manager_GetOrCreate now p m)) = manager_GetOrCreate now p m
   \<and> fst (manager_GetOrCreate now p m)
     = (case manager_Get p m of Some c \<Rightarrow> c | None \<Rightarrow> NewCircuit now p (m_config m))
   \<and> (q = p \<or> manager_Get q (snd (manager_GetOrCreate now p m)) = manager_Get q m)"
  by (auto simp: manager_GetOrCreate_def manager_Get_def get_or_create_def split: option.splits)

end
