(* ===== verification/Resilience.thy ===== *)
theory Resilience
  imports Breaker_Contract
begin

text \<open>
  \<open>internal/resilience/circuit_breaker.go\<close>: the three-layer resilience system. Layer 1 is
  the provider circuit breaker \<open>ProviderCB\<close>, layer 2 the per-account cooldown, layer 3
  the per-model lockout; \<open>ThreeLayerResilience\<close> holds a map of each and answers
  \<open>CanRoute\<close>. The managers return pointers into their maps; a call through such a
  pointer is an update of the map at its key.
\<close>

section \<open>Layer 1: the provider circuit breaker\<close>

datatype cb_state = CBStateClosed | CBStateHalfOpen | CBStateOpen | CBStateDegraded

fun cb_state_String :: "cb_state \<Rightarrow> gostr" where
  "cb_state_String CBStateClosed = ''CLOSED''"
| "cb_state_String CBStateHalfOpen = ''HALF_OPEN''"
| "cb_state_String CBStateOpen = ''OPEN''"
| "cb_state_String CBStateDegraded = ''DEGRADED''"

record provider_cb =
  cb_ProviderID :: gostr
  cb_State :: cb_state
  cb_FailureCount :: int
  cb_SuccessCount :: int
  cb_LastFailure :: gtime
  cb_CooldownEnds :: gtime
  cb_LastStateChange :: gtime
  cb_FailureThreshold :: int
  cb_SuccessThreshold :: int
  cb_CooldownDuration :: duration
  cb_DegradedThreshold :: int
  cb_TotalRequests :: int
  cb_TotalFailures :: int
  cb_TotalSuccesses :: int

definition NewProviderCB :: "gostr \<Rightarrow> provider_cb" where
  "NewProviderCB providerID =
     \<lparr>cb_ProviderID = providerID, cb_State = CBStateClosed, cb_FailureCount = 0,
      cb_SuccessCount = 0, cb_LastFailure = zero_time, cb_CooldownEnds = zero_time,
      cb_LastStateChange = zero_time, cb_FailureThreshold = 5, cb_SuccessThreshold = 3,
      cb_CooldownDuration = 30 * second, cb_DegradedThreshold = 10,
      cb_TotalRequests = 0, cb_TotalFailures = 0, cb_TotalSuccesses = 0\<rparr>"

definition cb_transitionToLocked :: "gtime \<Rightarrow> cb_state \<Rightarrow> provider_cb \<Rightarrow> provider_cb" where
  "cb_transitionToLocked now st cb =
     (if cb_State cb = st then cb
      else let cb = cb\<lparr>cb_State := st, cb_LastStateChange := now\<rparr> in
        if st = CBStateOpen
        then cb\<lparr>cb_CooldownEnds := time_add now (cb_CooldownDuration cb)\<rparr> else cb)"

definition cb_Allow :: "gtime \<Rightarrow> provider_cb \<Rightarrow> bool \<times> provider_cb" where
  "cb_Allow now cb = (case cb_State cb of
     CBStateClosed \<Rightarrow> (True, cb)
   | CBStateHalfOpen \<Rightarrow> (True, cb)
   | CBStateOpen \<Rightarrow>
       if time_after now (cb_CooldownEnds cb)
       then (True, cb_transitionToLocked now CBStateHalfOpen cb)
       else (False, cb)
   | CBStateDegraded \<Rightarrow> (True, cb))"

definition cb_RecordSuccess :: "gtime \<Rightarrow> provider_cb \<Rightarrow> provider_cb" where
  "cb_RecordSuccess now cb =
     (let cb = cb\<lparr>cb_TotalRequests := cb_TotalRequests cb + 1,
                 cb_TotalSuccesses := cb_TotalSuccesses cb + 1\<rparr> in
      case cb_State cb of
        CBStateClosed \<Rightarrow> cb\<lparr>cb_FailureCount := 0\<rparr>
      | CBStateHalfOpen \<Rightarrow>
          let cb = cb\<lparr>cb_SuccessCount := cb_SuccessCount cb + 1\<rparr> in
          if cb_SuccessCount cb \<ge> cb_SuccessThreshold cb
          then (cb_transitionToLocked now CBStateClosed cb)
                 \<lparr>cb_FailureCount := 0, cb_SuccessCount := 0\<rparr>
          else cb
      | CBStateOpen \<Rightarrow>
          (cb_transitionToLocked now CBStateHalfOpen cb)\<lparr>cb_SuccessCount := 1\<rparr>
      | CBStateDegraded \<Rightarrow>
          let cb = cb\<lparr>cb_FailureCount := cb_FailureCount cb - 1\<rparr> in
          if cb_FailureCount cb \<le> 0
          then (cb_transitionToLocked now CBStateClosed cb)\<lparr>cb_FailureCount := 0\<rparr>
          else cb)"

definition cb_RecordFailure :: "gtime \<Rightarrow> provider_cb \<Rightarrow> provider_cb" where
  "cb_RecordFailure now cb =
     (let cb = cb\<lparr>cb_TotalRequests := cb_TotalRequests cb + 1,
                 cb_TotalFailures := cb_TotalFailures cb + 1, cb_LastFailure := now\<rparr> in
      case cb_State cb of
        CBStateClosed \<Rightarrow>
          let cb = cb\<lparr>cb_FailureCount := cb_FailureCount cb + 1, cb_SuccessCount := 0\<rparr> in
          if cb_FailureCount cb \<ge> cb_FailureThreshold cb
          then cb_transitionToLocked now CBStateOpen cb
          else if cb_FailureCount cb \<ge> cb_DegradedThreshold cb
          then cb_transitionToLocked now CBStateDegraded cb
          else cb
      | CBStateHalfOpen \<Rightarrow> cb_transitionToLocked now CBStateOpen cb
      | CBStateOpen \<Rightarrow> cb\<lparr>cb_CooldownEnds := time_add now (cb_CooldownDuration cb)\<rparr>
      | CBStateDegraded \<Rightarrow>
          let cb = cb\<lparr>cb_FailureCount := cb_FailureCount cb + 1\<rparr> in
          if cb_FailureCount cb \<ge> cb_DegradedThreshold cb
          then cb_transitionToLocked now CBStateOpen cb else cb)"

definition cb_GetState :: "provider_cb \<Rightarrow> cb_state" where
  "cb_GetState cb = cb_State cb"

record cb_stats =
  cbs_ProviderID :: gostr
  cbs_State :: gostr
  cbs_FailureCount :: int
  cbs_SuccessCount :: int
  cbs_LastFailure :: gtime
  cbs_LastStateChange :: gtime
  cbs_TotalRequests :: int
  cbs_TotalFailures :: int
  cbs_TotalSuccesses :: int
  cbs_CooldownEnds :: gtime

definition cb_Stats :: "provider_cb \<Rightarrow> cb_stats" where
  "cb_Stats cb = \<lparr>cbs_ProviderID = cb_ProviderID cb,
     cbs_State = cb_state_String (cb_State cb), cbs_FailureCount = cb_FailureCount cb,
     cbs_SuccessCount = cb_SuccessCount cb, cbs_LastFailure = cb_LastFailure cb,
     cbs_LastStateChange = cb_LastStateChange cb, cbs_TotalRequests = cb_TotalRequests cb,
     cbs_TotalFailures = cb_TotalFailures cb, cbs_TotalSuccesses = cb_TotalSuccesses cb,
     cbs_CooldownEnds = cb_CooldownEnds cb\<rparr>"

lemmas cb_ops = cb_Allow_def cb_RecordSuccess_def cb_RecordFailure_def cb_transitionToLocked_def

text \<open>
  \<open>ProviderCB\<close> meets the breaker contract and rearms its cooldown on every failure. It
  does not latch: a success reported while it is open makes it half-open at once.
\<close>

definition cb_ready :: "gtime \<Rightarrow> provider_cb \<Rightarrow> bool" where
  "cb_ready now cb \<longleftrightarrow> time_after now (cb_CooldownEnds cb)"

definition cb_slack :: "provider_cb \<Rightarrow> nat" where
  "cb_slack cb = (case cb_State cb of
     CBStateClosed \<Rightarrow> nat (cb_FailureThreshold cb - cb_FailureCount cb)
   | CBStateHalfOpen \<Rightarrow> 1
   | CBStateOpen \<Rightarrow> 0
   | CBStateDegraded \<Rightarrow> nat (cb_DegradedThreshold cb - cb_FailureCount cb))"

abbreviation cb_is_open :: "provider_cb \<Rightarrow> bool" where
  "cb_is_open cb \<equiv> cb_State cb = CBStateOpen"

interpretation pcb: probing_breaker cb_Allow cb_RecordSuccess cb_RecordFailure
  cb_is_open cb_ready cb_slack "\<lambda>_. True" cb_CooldownDuration
  by unfold_locales
    (auto simp: cb_ops cb_ready_def cb_slack_def Let_def split: cb_state.splits if_splits)

inductive cb_step :: "provider_cb \<Rightarrow> provider_cb \<Rightarrow> bool" where
  allow: "cb_step cb (snd (cb_Allow now cb))"
| success: "cb_step cb (cb_RecordSuccess now cb)"
| failure: "cb_step cb (cb_RecordFailure now cb)"

inductive_cases cb_stepE: "cb_step cb cb'"

definition cb_wf :: "provider_cb \<Rightarrow> bool" where
  "cb_wf cb \<longleftrightarrow> cb_FailureThreshold cb = 5 \<and> cb_DegradedThreshold cb = 10
     \<and> cb_SuccessThreshold cb = 3 \<and> cb_State cb \<noteq> CBStateDegraded
     \<and> 0 \<le> cb_FailureCount cb \<and> 0 \<le> cb_SuccessCount cb
     \<and> (cb_State cb = CBStateClosed \<longrightarrow> cb_FailureCount cb < 5)
     \<and> cb_SuccessCount cb < 3
     \<and> cb_TotalRequests cb = cb_TotalFailures cb + cb_TotalSuccesses cb"

lemma cb_step_wf: "cb_step cb cb' \<Longrightarrow> cb_wf cb \<Longrightarrow> cb_wf cb'"
  by (elim cb_stepE) (auto simp: cb_ops cb_wf_def Let_def split: cb_state.splits)

section \<open>Layer 2: connection cooldowns\<close>

record connection_cooldown =
  cc_AccountID :: gostr
  cc_ProviderID :: gostr
  cc_CooledUntil :: gtime
  cc_RetryAfter :: duration
  cc_Reason :: gostr

definition NewConnectionCooldown :: "gostr \<Rightarrow> gostr \<Rightarrow> connection_cooldown" where
  "NewConnectionCooldown accountID providerID =
     \<lparr>cc_AccountID = accountID, cc_ProviderID = providerID, cc_CooledUntil = zero_time,
      cc_RetryAfter = 30 * second, cc_Reason = ''rate_limit''\<rparr>"

definition cc_CanUse :: "gtime \<Rightarrow> connection_cooldown \<Rightarrow> bool" where
  "cc_CanUse now cc \<longleftrightarrow> time_after now (cc_CooledUntil cc)"

definition cc_SetCooldown ::
  "gtime \<Rightarrow> duration \<Rightarrow> gostr \<Rightarrow> connection_cooldown \<Rightarrow> connection_cooldown" where
  "cc_SetCooldown now d reason cc =
     cc\<lparr>cc_CooledUntil := time_add now d, cc_RetryAfter := d, cc_Reason := reason\<rparr>"

definition cc_Remaining :: "gtime \<Rightarrow> connection_cooldown \<Rightarrow> duration" where
  "cc_Remaining now cc =
     (let remaining = time_sub (cc_CooledUntil cc) now in if remaining < 0 then 0 else remaining)"

type_synonym cooldown_mgr = "(gostr, connection_cooldown) gomap"

definition cooldownKey :: "gostr \<Rightarrow> gostr \<Rightarrow> gostr" where
  "cooldownKey accountID providerID = accountID @ '':'' @ providerID"

definition cm_GetCooldown ::
  "gostr \<Rightarrow> gostr \<Rightarrow> cooldown_mgr \<Rightarrow> connection_cooldown \<times> cooldown_mgr" where
  "cm_GetCooldown accountID providerID m =
     get_or_create (NewConnectionCooldown accountID providerID) m (cooldownKey accountID providerID)"

definition cm_RemoveCooldown :: "gostr \<Rightarrow> gostr \<Rightarrow> cooldown_mgr \<Rightarrow> cooldown_mgr" where
  "cm_RemoveCooldown accountID providerID m = m(cooldownKey accountID providerID := None)"

section \<open>Layer 3: model lockouts\<close>

record model_lockout =
  ml_ProviderID :: gostr
  ml_ModelID :: gostr
  ml_LockedUntil :: gtime
  ml_Reason :: gostr
  ml_LockedBy :: gostr

definition NewModelLockout :: "gostr \<Rightarrow> gostr \<Rightarrow> model_lockout" where
  "NewModelLockout providerID modelID =
     \<lparr>ml_ProviderID = providerID, ml_ModelID = modelID, ml_LockedUntil = zero_time,
      ml_Reason = ''manual'', ml_LockedBy = ''''\<rparr>"

definition ml_IsLocked :: "gtime \<Rightarrow> model_lockout \<Rightarrow> bool" where
  "ml_IsLocked now ml \<longleftrightarrow> time_before now (ml_LockedUntil ml)"

definition ml_Lock ::
  "gtime \<Rightarrow> duration \<Rightarrow> gostr \<Rightarrow> gostr \<Rightarrow> model_lockout \<Rightarrow> model_lockout" where
  "ml_Lock now d reason lockedBy ml =
     ml\<lparr>ml_LockedUntil := time_add now d, ml_Reason := reason, ml_LockedBy := lockedBy\<rparr>"

definition ml_Unlock :: "model_lockout \<Rightarrow> model_lockout" where
  "ml_Unlock ml = ml\<lparr>ml_LockedUntil := zero_time\<rparr>"

definition ml_Remaining :: "gtime \<Rightarrow> model_lockout \<Rightarrow> duration" where
  "ml_Remaining now ml =
     (let remaining = time_sub (ml_LockedUntil ml) now in if remaining < 0 then 0 else remaining)"

type_synonym lockout_mgr = "(gostr, model_lockout) gomap"

definition lockoutKey :: "gostr \<Rightarrow> gostr \<Rightarrow> gostr" where
  "lockoutKey providerID modelID = providerID @ '':'' @ modelID"

definition lm_GetLockout :: "gostr \<Rightarrow> gostr \<Rightarrow> lockout_mgr \<Rightarrow> model_lockout \<times> lockout_mgr" where
  "lm_GetLockout providerID modelID m =
     get_or_create (NewModelLockout providerID modelID) m (lockoutKey providerID modelID)"

definition lm_IsLocked :: "gtime \<Rightarrow> gostr \<Rightarrow> gostr \<Rightarrow> lockout_mgr \<Rightarrow> bool \<times> lockout_mgr" where
  "lm_IsLocked now providerID modelID m =
     (let (ml, m') = lm_GetLockout providerID modelID m in (ml_IsLocked now ml, m'))"

definition lm_RemoveLockout :: "gostr \<Rightarrow> gostr \<Rightarrow> lockout_mgr \<Rightarrow> lockout_mgr" where
  "lm_RemoveLockout providerID modelID m = m(lockoutKey providerID modelID := None)"

section \<open>The three layers together\<close>

record three_layer =
  tl_providerCBs :: "(gostr, provider_cb) gomap"
  tl_cooldownMgr :: cooldown_mgr
  tl_lockoutMgr :: lockout_mgr

definition NewThreeLayerResilience :: three_layer where
  "NewThreeLayerResilience =
     \<lparr>tl_providerCBs = Map.empty, tl_cooldownMgr = Map.empty, tl_lockoutMgr = Map.empty\<rparr>"

definition tl_GetProviderCB :: "gostr \<Rightarrow> three_layer \<Rightarrow> provider_cb \<times> three_layer" where
  "tl_GetProviderCB providerID t =
     (let (cb, m) = get_or_create (NewProviderCB providerID) (tl_providerCBs t) providerID
      in (cb, t\<lparr>tl_providerCBs := m\<rparr>))"

text \<open>A method called on the breaker of a provider, through the pointer into the map.\<close>

definition tl_put_cb :: "gostr \<Rightarrow> provider_cb \<Rightarrow> three_layer \<Rightarrow> three_layer" where
  "tl_put_cb providerID cb t = t\<lparr>tl_providerCBs := (tl_providerCBs t)(providerID \<mapsto> cb)\<rparr>"

definition tl_CanRoute ::
  "gtime \<Rightarrow> gostr \<Rightarrow> gostr \<Rightarrow> gostr \<Rightarrow> three_layer \<Rightarrow> bool \<times> three_layer" where
  "tl_CanRoute now providerID modelID accountID t =
     (let (cb, t) = tl_GetProviderCB providerID t;
          (allowed, cb) = cb_Allow now cb;
          t = tl_put_cb providerID cb t
      in if \<not> allowed then (False, t)
      else let (cc, m) = cm_GetCooldown accountID providerID (tl_cooldownMgr t);
               t = t\<lparr>tl_cooldownMgr := m\<rparr>
      in if \<not> cc_CanUse now cc then (False, t)
      else if modelID \<noteq> '''' then
        let (locked, lm) = lm_IsLocked now providerID modelID (tl_lockoutMgr t);
            t = t\<lparr>tl_lockoutMgr := lm\<rparr>
        in (if locked then (False, t) else (True, t))
      else (True, t))"

definition tl_RecordSuccess ::
  "gtime \<Rightarrow> gostr \<Rightarrow> gostr \<Rightarrow> gostr \<Rightarrow> three_layer \<Rightarrow> three_layer" where
  "tl_RecordSuccess now providerID modelID accountID t =
     (let (cb, t) = tl_GetProviderCB providerID t;
          t = tl_put_cb providerID (cb_RecordSuccess now cb) t
      in t\<lparr>tl_cooldownMgr := cm_RemoveCooldown accountID providerID (tl_cooldownMgr t)\<rparr>)"

definition tl_RecordFailure ::
  "gtime \<Rightarrow> gostr \<Rightarrow> gostr \<Rightarrow> gostr \<Rightarrow> three_layer \<Rightarrow> three_layer" where
  "tl_RecordFailure now providerID modelID accountID t =
     (let (cb, t) = tl_GetProviderCB providerID t
      in tl_put_cb providerID (cb_RecordFailure now cb) t)"

definition tl_SetCooldown ::
  "gtime \<Rightarrow> gostr \<Rightarrow> gostr \<Rightarrow> duration \<Rightarrow> gostr \<Rightarrow> three_layer \<Rightarrow> three_layer" where
  "tl_SetCooldown now accountID providerID d reason t =
     (let (cc, m) = cm_GetCooldown accountID providerID (tl_cooldownMgr t)
      in t\<lparr>tl_cooldownMgr := m(cooldownKey accountID providerID \<mapsto> cc_SetCooldown now d reason cc)\<rparr>)"

definition tl_LockModel ::
  "gtime \<Rightarrow> gostr \<Rightarrow> gostr \<Rightarrow> duration \<Rightarrow> gostr \<Rightarrow> gostr \<Rightarrow> three_layer \<Rightarrow> three_layer" where
  "tl_LockModel now providerID modelID d reason lockedBy t =
     (let (ml, m) = lm_GetLockout providerID modelID (tl_lockoutMgr t)
      in t\<lparr>tl_lockoutMgr := m(lockoutKey providerID modelID \<mapsto> ml_Lock now d reason lockedBy ml)\<rparr>)"

definition tl_UnlockModel :: "gostr \<Rightarrow> gostr \<Rightarrow> three_layer \<Rightarrow> three_layer" where
  "tl_UnlockModel providerID modelID t =
     t\<lparr>tl_lockoutMgr := lm_RemoveLockout providerID modelID (tl_lockoutMgr t)\<rparr>"

definition tl_GetAllStats :: "gostr list \<Rightarrow> three_layer \<Rightarrow> cb_stats list" where
  "tl_GetAllStats order t = map (cb_Stats \<circ> snd) (range_of order (tl_providerCBs t))"

section \<open>Abstract view\<close>

text \<open>
  What the three layers promise, without the lazily filled maps: a breaker for every
  provider, and for every key the instant up to which it is cooled down or locked out.
  Creating an entry on first use is invisible here.
\<close>

record layers =
  L_cb :: "gostr \<Rightarrow> provider_cb"
  L_cooled :: "gostr \<Rightarrow> gtime"
  L_locked :: "gostr \<Rightarrow> gtime"

definition cooled_until :: "cooldown_mgr \<Rightarrow> gostr \<Rightarrow> gtime" where
  "cooled_until m k = (case m k of None \<Rightarrow> zero_time | Some cc \<Rightarrow> cc_CooledUntil cc)"

definition locked_until :: "lockout_mgr \<Rightarrow> gostr \<Rightarrow> gtime" where
  "locked_until m k = (case m k of None \<Rightarrow> zero_time | Some ml \<Rightarrow> ml_LockedUntil ml)"

definition layers_of :: "three_layer \<Rightarrow> layers" where
  "layers_of t = \<lparr>L_cb = (\<lambda>p. map_get (NewProviderCB p) (tl_providerCBs t) p),
     L_cooled = cooled_until (tl_cooldownMgr t), L_locked = locked_until (tl_lockoutMgr t)\<rparr>"

definition spec_CanRoute :: "gtime \<Rightarrow> gostr \<Rightarrow> gostr \<Rightarrow> gostr \<Rightarrow> layers \<Rightarrow> bool \<times> layers" where
  "spec_CanRoute now p m a L =
     (let (ok, cb) = cb_Allow now (L_cb L p)
      in (ok \<and> L_cooled L (cooldownKey a p) < now
             \<and> (m = '''' \<or> L_locked L (lockoutKey p m) \<le> now),
          L\<lparr>L_cb := (L_cb L)(p := cb)\<rparr>))"

lemma cooled_until_upd [simp]:
  "cooled_until (m(k \<mapsto> cc)) = (cooled_until m)(k := cc_CooledUntil cc)"
  by (auto simp: cooled_until_def)

lemma cooled_until_delete [simp]: "cooled_until (m(k := None)) = (cooled_until m)(k := zero_time)"
  by (auto simp: cooled_until_def)

lemma locked_until_upd [simp]:
  "locked_until (m(k \<mapsto> ml)) = (locked_until m)(k := ml_LockedUntil ml)"
  by (auto simp: locked_until_def)

lemma locked_until_delete [simp]: "locked_until (m(k := None)) = (locked_until m)(k := zero_time)"
  by (auto simp: locked_until_def)

lemma cm_GetCooldown_view:
  "cc_CooledUntil (fst (cm_GetCooldown a p m)) = cooled_until m (cooldownKey a p)"
  "cooled_until (snd (cm_GetCooldown a p m)) = cooled_until m"
  by (auto simp: cm_GetCooldown_def get_or_create_snd map_get_def cooled_until_def
      NewConnectionCooldown_def fun_eq_iff split: option.splits)

lemma lm_GetLockout_view:
  "ml_LockedUntil (fst (lm_GetLockout p m lm)) = locked_until lm (lockoutKey p m)"
  "locked_until (snd (lm_GetLockout p m lm)) = locked_until lm"
  by (auto simp: lm_GetLockout_def get_or_create_snd map_get_def locked_until_def
      NewModelLockout_def fun_eq_iff split: option.splits)

lemma tl_GetProviderCB_view:
  "fst (tl_GetProviderCB p t) = L_cb (layers_of t) p"
  "layers_of (snd (tl_GetProviderCB p t)) = layers_of t"
  "tl_cooldownMgr (snd (tl_GetProviderCB p t)) = tl_cooldownMgr t"
  "tl_lockoutMgr (snd (tl_GetProviderCB p t)) = tl_lockoutMgr t"
  by (auto simp: tl_GetProviderCB_def layers_of_def get_or_create_def map_get_def fun_eq_iff
      split: option.splits)

lemma tl_put_cb_view:
  "layers_of (tl_put_cb p cb t) = (layers_of t)\<lparr>L_cb := (L_cb (layers_of t))(p := cb)\<rparr>"
  "tl_cooldownMgr (tl_put_cb p cb t) = tl_cooldownMgr t"
  "tl_lockoutMgr (tl_put_cb p cb t) = tl_lockoutMgr t"
  by (auto simp: tl_put_cb_def layers_of_def map_get_def)

lemma layers_of_managers:
  "layers_of (t\<lparr>tl_cooldownMgr := cm\<rparr>) = (layers_of t)\<lparr>L_cooled := cooled_until cm\<rparr>"
  "layers_of (t\<lparr>tl_lockoutMgr := lm\<rparr>) = (layers_of t)\<lparr>L_locked := locked_until lm\<rparr>"
  by (simp_all add: layers_of_def)

lemma layers_of_same:
  "(layers_of t)\<lparr>L_cooled := cooled_until (tl_cooldownMgr t)\<rparr> = layers_of t"
  "(layers_of t)\<lparr>L_locked := locked_until (tl_lockoutMgr t)\<rparr> = layers_of t"
  "L_cooled (layers_of t) = cooled_until (tl_cooldownMgr t)"
  "L_locked (layers_of t) = locked_until (tl_lockoutMgr t)"
  by (simp_all add: layers_of_def)

lemmas tl_views = tl_GetProviderCB_view tl_put_cb_view cm_GetCooldown_view lm_GetLockout_view
  layers_of_managers layers_of_same

lemma tl_CanRoute_view:
  "fst (tl_CanRoute now p m a t) = fst (spec_CanRoute now p m a (layers_of t))"
  "layers_of (snd (tl_CanRoute now p m a t)) = snd (spec_CanRoute now p m a (layers_of t))"
proof -
  obtain ok cb' where al: "cb_Allow now (L_cb (layers_of t) p) = (ok, cb')" by fastforce
  show "fst (tl_CanRoute now p m a t) = fst (spec_CanRoute now p m a (layers_of t))"
    "layers_of (snd (tl_CanRoute now p m a t)) = snd (spec_CanRoute now p m a (layers_of t))"
    by (auto simp: tl_CanRoute_def spec_CanRoute_def lm_IsLocked_def cc_CanUse_def ml_IsLocked_def
        case_prod_beta Let_def tl_views al)
qed

lemma tl_update_views:
  "layers_of (tl_RecordSuccess now p m a t)
     = (layers_of t)\<lparr>L_cb := (L_cb (layers_of t))(p := cb_RecordSuccess now (L_cb (layers_of t) p)),
         L_cooled := (L_cooled (layers_of t))(cooldownKey a p := zero_time)\<rparr>"
  "layers_of (tl_RecordFailure now p m a t)
     = (layers_of t)\<lparr>L_cb := (L_cb (layers_of t))(p := cb_RecordFailure now (L_cb (layers_of t) p))\<rparr>"
  "layers_of (tl_SetCooldown now a p d r t)
     = (layers_of t)\<lparr>L_cooled := (L_cooled (layers_of t))(cooldownKey a p := now + d)\<rparr>"
  "layers_of (tl_LockModel now p m d r b t)
     = (layers_of t)\<lparr>L_locked := (L_locked (layers_of t))(lockoutKey p m := now + d)\<rparr>"
  "layers_of (tl_UnlockModel p m t)
     = (layers_of t)\<lparr>L_locked := (L_locked (layers_of t))(lockoutKey p m := zero_time)\<rparr>"
  by (simp_all add: tl_RecordSuccess_def tl_RecordFailure_def tl_SetCooldown_def tl_LockModel_def
      tl_UnlockModel_def cm_RemoveCooldown_def lm_RemoveLockout_def cc_SetCooldown_def ml_Lock_def
      case_prod_beta Let_def tl_views)

text \<open>
  The operations of the gateway on the three layers, in the order in which they take effect. Seen from
  one provider, they are a run of its breaker.
\<close>

datatype tl_op = RouteOp gtime gostr gostr gostr | SuccessOp gtime gostr gostr gostr | FailureOp gtime gostr gostr gostr
  | CooldownOp gtime gostr gostr duration gostr | LockOp gtime gostr gostr duration gostr gostr | UnlockOp gostr gostr

fun tl_apply :: "tl_op \<Rightarrow> three_layer \<Rightarrow> three_layer" where
  "tl_apply (RouteOp now p m a) t = snd (tl_CanRoute now p m a t)"
| "tl_apply (SuccessOp now p m a) t = tl_RecordSuccess now p m a t"
| "tl_apply (FailureOp now p m a) t = tl_RecordFailure now p m a t"
| "tl_apply (CooldownOp now a p d r) t = tl_SetCooldown now a p d r t"
| "tl_apply (LockOp now p m d r b) t = tl_LockModel now p m d r b t"
| "tl_apply (UnlockOp p m) t = tl_UnlockModel p m t"

fun breaker_ops :: "gostr \<Rightarrow> tl_op \<Rightarrow> breaker_op list" where
  "breaker_ops p (RouteOp now q m a) = (if q = p then [OpAllow now] else [])"
| "breaker_ops p (SuccessOp now q m a) = (if q = p then [OpSuccess now] else [])"
| "breaker_ops p (FailureOp now q m a) = (if q = p then [OpFailure now] else [])"
| "breaker_ops p _ = []"

definition history :: "gostr \<Rightarrow> tl_op list \<Rightarrow> breaker_op list" where
  "history p ops = concat (map (breaker_ops p) ops)"

lemma history_simps [simp]:
  "history p [] = []" "history p (x # ops) = breaker_ops p x @ history p ops" "history p (ops @ ops') = history p ops @ history p ops'"
  by (simp_all add: history_def)

lemma spec_CanRoute_layers: "snd (spec_CanRoute now p m a L) = L\<lparr>L_cb := (L_cb L)(p := snd (cb_Allow now (L_cb L p)))\<rparr>"
  by (simp add: spec_CanRoute_def case_prod_beta Let_def)

lemma breaker_of_run:
  "L_cb (layers_of (fold tl_apply ops t)) p
     = snd (breaker_run cb_Allow cb_RecordSuccess cb_RecordFailure (history p ops) (L_cb (layers_of t) p))"
proof (induction ops arbitrary: t)
  case (Cons x ops)
  then show ?case by (cases x) (simp_all add: tl_update_views tl_CanRoute_view spec_CanRoute_layers)
qed simp

text \<open>The failures of one provider leave the rest of the layers alone.\<close>

definition others_agree :: "gostr \<Rightarrow> three_layer \<Rightarrow> three_layer \<Rightarrow> bool" where
  "others_agree p t t' \<longleftrightarrow> (\<forall>q. q \<noteq> p \<longrightarrow> L_cb (layers_of t) q = L_cb (layers_of t') q)
     \<and> L_cooled (layers_of t) = L_cooled (layers_of t') \<and> L_locked (layers_of t) = L_locked (layers_of t')"

fun failure_of :: "gostr \<Rightarrow> tl_op \<Rightarrow> bool" where
  "failure_of p (FailureOp now q m a) = (q = p)"
| "failure_of p _ = False"

lemma failures_leave_others:
  "others_agree p t t' \<Longrightarrow> others_agree p (fold tl_apply ops t) (fold tl_apply (filter (\<lambda>x. \<not> failure_of p x) ops) t')"
proof (induction ops arbitrary: t t')
  case (Cons x ops)
  have "others_agree p (tl_apply x t) (if failure_of p x then t' else tl_apply x t')"
    using Cons.prems by (cases x) (auto simp: others_agree_def tl_update_views tl_CanRoute_view spec_CanRoute_layers)
  then show ?case using Cons.IH by (simp split: if_splits)
qed simp

lemma others_agree_CanRoute:
  "others_agree p t t' \<Longrightarrow> q \<noteq> p \<Longrightarrow> fst (tl_CanRoute now q m a t) = fst (tl_CanRoute now q m a t')"
  by (simp add: tl_CanRoute_view spec_CanRoute_def others_agree_def case_prod_beta Let_def)

lemma layers_of_New:
  "layers_of NewThreeLayerResilience
     = \<lparr>L_cb = NewProviderCB, L_cooled = (\<lambda>_. zero_time), L_locked = (\<lambda>_. zero_time)\<rparr>"
  by (auto simp: layers_of_def NewThreeLayerResilience_def cooled_until_def locked_until_def)

text \<open>A breaker that only its operations have changed tolerates at most five failures and cools down for thirty seconds.\<close>

lemma cb_run_cooldown:
  "cb_CooldownDuration (snd (breaker_run cb_Allow cb_RecordSuccess cb_RecordFailure ops cb)) = cb_CooldownDuration cb"
proof (induction ops arbitrary: cb)
  case (Cons x ops)
  have "cb_CooldownDuration (snd (cb_Allow n cb)) = cb_CooldownDuration cb" "cb_CooldownDuration (cb_RecordSuccess n cb) = cb_CooldownDuration cb"
    "cb_CooldownDuration (cb_RecordFailure n cb) = cb_CooldownDuration cb" for n
    by (auto simp: cb_ops Let_def split: cb_state.splits)
  then show ?case using Cons.IH by (cases x) simp_all
qed simp

lemma cb_run_wf: "cb_wf cb \<Longrightarrow> cb_wf (snd (breaker_run cb_Allow cb_RecordSuccess cb_RecordFailure ops cb))"
proof (induction ops arbitrary: cb)
  case (Cons x ops)
  then show ?case by (cases x) (auto intro: cb_step_wf cb_step.intros)
qed simp

lemma tl_history_breaker:
  defines "cb \<equiv> \<lambda>ops p. L_cb (layers_of (fold tl_apply ops NewThreeLayerResilience)) p"
  shows "tolerated cb_is_open cb_slack (cb ops p) \<le> 5" "cb_CooldownDuration (cb ops p) = 30 * second"
proof -
  have "cb_wf (cb ops p)" unfolding cb_def breaker_of_run
    by (rule cb_run_wf) (simp add: layers_of_New cb_wf_def NewProviderCB_def)
  then show "tolerated cb_is_open cb_slack (cb ops p) \<le> 5" by (auto simp: tolerated_def cb_slack_def cb_wf_def split: cb_state.split)
  show "cb_CooldownDuration (cb ops p) = 30 * second"
    unfolding cb_def breaker_of_run cb_run_cooldown by (simp add: layers_of_New NewProviderCB_def)
qed

section \<open>Properties\<close>

text \<open>C1: the three layers refine their specification. \<open>CanRoute\<close> answers yes exactly
  when the provider's breaker admits the request, the account is not cooling down at the
  provider and the model, if one is named, is not locked; and of the abstract state it
  changes only the breaker of that provider. A recorded outcome moves the provider's
  breaker (a success also lifts the account's cooldown), a cooldown and a lock set the
  instant of their key, an unlock clears it; nothing else changes.\<close>

theorem tl_refines:
  "fst (tl_CanRoute now p m a t) = fst (spec_CanRoute now p m a (layers_of t))
   \<and> layers_of (snd (tl_CanRoute now p m a t)) = snd (spec_CanRoute now p m a (layers_of t))
   \<and> layers_of (tl_RecordSuccess now p m a t)
     = (layers_of t)\<lparr>L_cb := (L_cb (layers_of t))(p := cb_RecordSuccess now (L_cb (layers_of t) p)),
         L_cooled := (L_cooled (layers_of t))(cooldownKey a p := zero_time)\<rparr>
   \<and> layers_of (tl_RecordFailure now p m a t)
     = (layers_of t)\<lparr>L_cb := (L_cb (layers_of t))(p := cb_RecordFailure now (L_cb (layers_of t) p))\<rparr>
   \<and> layers_of (tl_SetCooldown now a p d r t)
     = (layers_of t)\<lparr>L_cooled := (L_cooled (layers_of t))(cooldownKey a p := now + d)\<rparr>
   \<and> layers_of (tl_LockModel now p m d r b t)
     = (layers_of t)\<lparr>L_locked := (L_locked (layers_of t))(lockoutKey p m := now + d)\<rparr>
   \<and> layers_of (tl_UnlockModel p m t)
     = (layers_of t)\<lparr>L_locked := (L_locked (layers_of t))(lockoutKey p m := zero_time)\<rparr>"
  by (simp only: tl_CanRoute_view tl_update_views simp_thms)

text \<open>C6: a provider outage stays with its provider. Whatever has happened before, once requests to \<open>p\<close>
  have failed at least five times with no success of \<open>p\<close> recorded in between, the last of these failures at
  \<open>t0\<close>, and until a success of \<open>p\<close> is recorded, no request to \<open>p\<close> is routed for thirty seconds, for any model
  and account and however many requests, failures, cooldowns and locks of this and of other providers come
  in between; and the failures of \<open>p\<close> change no answer for another provider.\<close>

theorem tl_outage:
  assumes "ops = pre @ FailureOp t0 p m0 a0 # post"
    and "\<forall>x \<in> set (history p (pre @ post)). \<not> is_success x" "4 \<le> length (filter (failure_of p) pre)"
    and "\<forall>x \<in> set (history p post). t0 \<le> op_time x \<and> op_time x < t0 + 30 * second" "now < t0 + 30 * second"
  shows "\<not> fst (tl_CanRoute now p m a (fold tl_apply (before @ ops) NewThreeLayerResilience))
    \<and> (q \<noteq> p \<longrightarrow> fst (tl_CanRoute now q m a (fold tl_apply (before @ ops) NewThreeLayerResilience))
         = fst (tl_CanRoute now q m a (fold tl_apply (filter (\<lambda>x. \<not> failure_of p x) (before @ ops)) NewThreeLayerResilience)))"
proof -
  let ?t = "fold tl_apply before NewThreeLayerResilience"
  let ?cb = "L_cb (layers_of ?t) p"
  note b = tl_history_breaker [of before p]
  have h: "history p ops = history p pre @ OpFailure t0 # history p post" by (simp add: assms(1))
  have "length (filter is_failure (breaker_ops p x)) = (if failure_of p x then 1 else 0)" for x by (cases x) simp_all
  then have "length (filter is_failure (history p xs)) = length (filter (failure_of p) xs)" for xs
    by (induction xs) simp_all
  then have f: "tolerated cb_is_open cb_slack ?cb \<le> Suc (length (filter is_failure (history p pre)))" using b(1) assms(3) by simp
  have "\<not> fst (cb_Allow now (snd (breaker_run cb_Allow cb_RecordSuccess cb_RecordFailure (history p ops) ?cb)))"
    unfolding h by (rule pcb.outage [OF _ f]) (use assms(2,4,5) b(2) in \<open>auto simp: list_all_iff\<close>)
  then have "\<not> fst (tl_CanRoute now p m a (fold tl_apply ops ?t))"
    by (simp add: tl_CanRoute_view spec_CanRoute_def breaker_of_run case_prod_beta Let_def)
  moreover have "others_agree p (fold tl_apply (before @ ops) NewThreeLayerResilience)
      (fold tl_apply (filter (\<lambda>x. \<not> failure_of p x) (before @ ops)) NewThreeLayerResilience)"
    by (rule failures_leave_others) (simp add: others_agree_def)
  ultimately show ?thesis using others_agree_CanRoute by simp
qed

definition outage_demo :: "tl_op list" where
  "outage_demo = map (\<lambda>n. FailureOp n ''openai'' ''m'' ''x'') [1, 2, 3, 4]"

theorem tl_outage_witness:
  "\<not> fst (tl_CanRoute 20 ''openai'' ''gpt-4'' ''acct''
      (fold tl_apply ([SuccessOp 0 ''openai'' [] ''x''] @ outage_demo @ FailureOp 10 ''openai'' [] ''x'' # [RouteOp 12 ''openai'' [] ''x''])
        NewThreeLayerResilience))"
  using tl_outage [OF refl, of "''openai''" outage_demo "[RouteOp 12 ''openai'' [] ''x'']" 10 20 "''gpt-4''" "''acct''"
      "[SuccessOp 0 ''openai'' [] ''x'']" "[]" "''x''" "''openai''"]
  by (simp add: outage_demo_def second_def del: fold_append fold_simps)

text \<open>A success that was still under way when the breaker opened makes it half-open at once: requests are routed within the thirty seconds.\<close>

theorem tl_late_success_reopens:
  "fst (tl_CanRoute 20 ''openai'' ''gpt-4'' ''acct''
      (fold tl_apply (outage_demo @ [FailureOp 10 ''openai'' [] ''x'', SuccessOp 15 ''openai'' [] ''x'']) NewThreeLayerResilience))"
proof -
  let ?ops = "outage_demo @ [FailureOp 10 ''openai'' [] ''x'', SuccessOp 15 ''openai'' [] ''x'']"
  let ?L = "layers_of (fold tl_apply ?ops NewThreeLayerResilience)"
  have "fst (cb_Allow 20 (L_cb ?L ''openai''))" unfolding breaker_of_run
    by (simp add: outage_demo_def layers_of_New cb_ops NewProviderCB_def Let_def)
  moreover have "L_cooled ?L k = 0" "L_locked ?L k = 0" for k
    by (simp_all add: outage_demo_def tl_update_views layers_of_New zero_time_def)
  ultimately show ?thesis
    by (simp add: tl_CanRoute_view spec_CanRoute_def case_prod_beta Let_def del: fold_append fold_simps)
qed

text \<open>Reachable provider breakers. A breaker that \<open>NewProviderCB\<close> built, driven by
  any sequence of operations, keeps its counters within its thresholds and its totals
  consistent, and is never in the degraded state: with the thresholds of the constructor
  a closed breaker opens at five failures, so the degraded branch, which needs ten, is
  not reachable.\<close>

theorem cb_reachable:
  assumes "cb_step\<^sup>*\<^sup>* (NewProviderCB p) cb"
  shows "cb_wf cb \<and> cb_State cb \<noteq> CBStateDegraded"
proof -
  from assms have "cb_wf cb"
  proof (induction rule: rtranclp_induct)
    case base
    show ?case by (simp add: cb_wf_def NewProviderCB_def)
  next
    case (step y z)
    then show ?case by (auto intro: cb_step_wf)
  qed
  then show ?thesis by (simp add: cb_wf_def)
qed

theorem cb_reachable_witness:
  "cb_wf (cb_RecordFailure 7 (NewProviderCB ''p''))"
  using cb_reachable [of "''p''" "cb_RecordFailure 7 (NewProviderCB ''p'')"]
  by (auto intro: r_into_rtranclp cb_step.failure)

text \<open>A failed probe does not clear the probe successes. A half-open breaker one
  success short of closing that fails a probe reopens, but its success count survives the
  cooldown: the first probe of the next half-open phase that succeeds closes it, although
  the threshold asks for several consecutive ones.\<close>

theorem cb_stale_successes:
  assumes "cb_State cb = CBStateHalfOpen" "cb_SuccessThreshold cb = cb_SuccessCount cb + 1"
    and "t0 + cb_CooldownDuration cb < t1"
  shows "cb_State (cb_RecordFailure t0 cb) = CBStateOpen
    \<and> fst (cb_Allow t1 (cb_RecordFailure t0 cb))
    \<and> cb_State (snd (cb_Allow t1 (cb_RecordFailure t0 cb))) = CBStateHalfOpen
    \<and> cb_State (cb_RecordSuccess t2 (snd (cb_Allow t1 (cb_RecordFailure t0 cb)))) = CBStateClosed"
  using assms by (simp add: cb_ops Let_def)

theorem cb_stale_successes_witness:
  "cb_State (cb_RecordSuccess 41 (snd (cb_Allow 40 (cb_RecordFailure 5
     ((NewProviderCB ''p'')\<lparr>cb_State := CBStateHalfOpen, cb_SuccessCount := 2,
       cb_CooldownDuration := 30\<rparr>))))) = CBStateClosed"
  using cb_stale_successes [of "(NewProviderCB ''p'')\<lparr>cb_State := CBStateHalfOpen,
      cb_SuccessCount := 2, cb_CooldownDuration := 30\<rparr>" 5 40 41]
  by (simp add: NewProviderCB_def)

lemma cooldownKey_inject:
  assumes "CHR '':'' \<notin> set a" "CHR '':'' \<notin> set a'"
  shows "cooldownKey a p = cooldownKey a' p' \<longleftrightarrow> a = a' \<and> p = p'"
  using sep_key_inject [of a "CHR '':''" p a' p'] assms by (auto simp: cooldownKey_def)

text \<open>Cooldowns are isolated. When account identifiers hold no colon, cooling down one
  account at one provider changes the routing of no other account or provider.\<close>

theorem tl_cooldown_isolated:
  assumes "CHR '':'' \<notin> set a" "CHR '':'' \<notin> set a'" "(a, p) \<noteq> (a', p')"
  shows "fst (tl_CanRoute now' p' m a' (tl_SetCooldown now a p d r t)) = fst (tl_CanRoute now' p' m a' t)"
proof -
  have "cooldownKey a' p' \<noteq> cooldownKey a p"
    using assms cooldownKey_inject [of a' a p' p] by auto
  then show ?thesis
    by (simp add: tl_CanRoute_view tl_update_views spec_CanRoute_def case_prod_beta)
qed

theorem tl_cooldown_isolated_witness:
  "fst (tl_CanRoute 9 ''p'' ''m'' ''bob'' (tl_SetCooldown 5 ''alice'' ''p'' 100 ''429'' NewThreeLayerResilience))
   = fst (tl_CanRoute 9 ''p'' ''m'' ''bob'' NewThreeLayerResilience)"
  by (rule tl_cooldown_isolated) simp_all

text \<open>Cooldown keys collide. With colons in the identifiers two different pairs of
  account and provider share one key, and a cooldown of one account at one provider blocks
  an unrelated account at an unrelated provider.\<close>

theorem tl_cooldown_collision:
  assumes "now' \<le> now + d"
  shows "\<not> fst (tl_CanRoute now' p m (a @ '':'' @ b) (tl_SetCooldown now a (b @ '':'' @ p) d r t))"
  using assms
  by (simp add: tl_CanRoute_view tl_update_views spec_CanRoute_def case_prod_beta cooldownKey_def)

theorem tl_cooldown_collision_witness:
  "\<not> fst (tl_CanRoute 9 ''c'' '''' (''a'' @ '':'' @ ''b'')
      (tl_SetCooldown 5 ''a'' (''b'' @ '':'' @ ''c'') 100 ''429'' NewThreeLayerResilience))"
  by (rule tl_cooldown_collision) simp

end
