(* ===== verification/Fallback_Tiers.thy ===== *)
theory Fallback_Tiers
  imports Breaker_Contract "HOL-Library.Sublist"
begin

text \<open>
  \<open>internal/resilience/fallback_tiers.go\<close>: the four-tier fallback. A request walks the
  tiers from a start tier on and tries their available providers in order until one
  succeeds or the attempts are used up; a breaker with one state per provider name keeps
  failing providers out.

  The executor is code of the caller: it is a function of the number of the attempt, the
  provider and the model, and answers an error or none. The clock is two functions of
  the number of attempts made so far: the instant of the checks before the next call, and
  the instant at which that call returns.
\<close>

section \<open>The breaker\<close>

datatype fb_state = FbClosed | FbOpen | FbHalfOpen

fun fb_state_String :: "fb_state \<Rightarrow> gostr" where
  "fb_state_String FbClosed = ''closed''"
| "fb_state_String FbOpen = ''open''"
| "fb_state_String FbHalfOpen = ''half-open''"

record fb_circuit =
  fc_State :: fb_state
  fc_FailureCount :: int
  fc_LastFailure :: gtime
  fc_NextRetry :: gtime

record fb_breaker =
  fbb_states :: "(gostr, fb_circuit) gomap"
  fbb_failureThreshold :: int
  fbb_timeout :: duration

definition fb_NewCircuitBreaker :: "int \<Rightarrow> duration \<Rightarrow> fb_breaker" where
  "fb_NewCircuitBreaker failureThreshold timeout =
     \<lparr>fbb_states = Map.empty, fbb_failureThreshold = failureThreshold, fbb_timeout = timeout\<rparr>"

definition fb_new_circuit :: fb_circuit where
  "fb_new_circuit = \<lparr>fc_State = FbClosed, fc_FailureCount = 0, fc_LastFailure = zero_time,
     fc_NextRetry = zero_time\<rparr>"

definition fb_getOrCreateState :: "gostr \<Rightarrow> fb_breaker \<Rightarrow> fb_circuit \<times> fb_breaker" where
  "fb_getOrCreateState providerID cb =
     (let (st, m) = get_or_create fb_new_circuit (fbb_states cb) providerID
      in (st, cb\<lparr>fbb_states := m\<rparr>))"

definition fb_put :: "gostr \<Rightarrow> fb_circuit \<Rightarrow> fb_breaker \<Rightarrow> fb_breaker" where
  "fb_put providerID st cb = cb\<lparr>fbb_states := (fbb_states cb)(providerID \<mapsto> st)\<rparr>"

definition fb_RecordSuccess :: "gostr \<Rightarrow> fb_breaker \<Rightarrow> fb_breaker" where
  "fb_RecordSuccess providerID cb = (case fbb_states cb providerID of
     None \<Rightarrow> cb
   | Some st \<Rightarrow>
       if fc_State st = FbHalfOpen
       then fb_put providerID (st\<lparr>fc_State := FbClosed, fc_FailureCount := 0\<rparr>) cb
       else if fc_FailureCount st > 0
       then fb_put providerID (st\<lparr>fc_FailureCount := fc_FailureCount st - 1\<rparr>) cb
       else cb)"

definition fb_RecordFailure :: "gtime \<Rightarrow> gostr \<Rightarrow> fb_breaker \<Rightarrow> fb_breaker" where
  "fb_RecordFailure now providerID cb =
     (let (st, cb) = fb_getOrCreateState providerID cb;
          st = st\<lparr>fc_FailureCount := fc_FailureCount st + 1, fc_LastFailure := now\<rparr>;
          st = (if fc_FailureCount st \<ge> fbb_failureThreshold cb
                then st\<lparr>fc_State := FbOpen, fc_NextRetry := time_add now (fbb_timeout cb)\<rparr> else st)
      in fb_put providerID st cb)"

definition fb_IsOpen :: "gtime \<Rightarrow> gostr \<Rightarrow> fb_breaker \<Rightarrow> bool \<times> fb_breaker" where
  "fb_IsOpen now providerID cb =
     (let (st, cb) = fb_getOrCreateState providerID cb in
      if fc_State st = FbOpen
      then if time_after now (fc_NextRetry st)
           then (False, fb_put providerID (st\<lparr>fc_State := FbHalfOpen\<rparr>) cb)
           else (True, cb)
      else (False, cb))"

definition fb_GetCircuitState :: "gostr \<Rightarrow> fb_breaker \<Rightarrow> fb_circuit \<times> fb_breaker" where
  "fb_GetCircuitState providerID cb = fb_getOrCreateState providerID cb"

definition fb_GetAllCircuitStates :: "fb_breaker \<Rightarrow> (gostr, fb_circuit) gomap" where
  "fb_GetAllCircuitStates cb = fbb_states cb"

text \<open>
  For one provider the breaker meets the base contract, over the circuit it keeps. It is
  not a rearming breaker: an open circuit whose count late successes have lowered does
  not extend its retry time on a failure below the threshold.
\<close>

definition fb_circuit_of :: "gostr \<Rightarrow> fb_breaker \<Rightarrow> fb_circuit" where
  "fb_circuit_of p cb = map_get fb_new_circuit (fbb_states cb) p"

definition fb_admit :: "gostr \<Rightarrow> gtime \<Rightarrow> fb_breaker \<Rightarrow> bool \<times> fb_breaker" where
  "fb_admit p now cb = (let (b, cb') = fb_IsOpen now p cb in (\<not> b, cb'))"

definition fb_ready :: "gostr \<Rightarrow> gtime \<Rightarrow> fb_breaker \<Rightarrow> bool" where
  "fb_ready p now cb \<longleftrightarrow> time_after now (fc_NextRetry (fb_circuit_of p cb))"

definition fb_slack :: "gostr \<Rightarrow> fb_breaker \<Rightarrow> nat" where
  "fb_slack p cb = (if fc_State (fb_circuit_of p cb) = FbOpen then 0
     else nat (fbb_failureThreshold cb - fc_FailureCount (fb_circuit_of p cb)))"

lemmas fb_ops = fb_RecordSuccess_def fb_RecordFailure_def fb_IsOpen_def fb_getOrCreateState_def
  fb_put_def fb_circuit_of_def

interpretation fbb: breaker "fb_admit p" "\<lambda>_. fb_RecordSuccess p" "\<lambda>now. fb_RecordFailure now p"
  "\<lambda>cb. fc_State (fb_circuit_of p cb) = FbOpen" "fb_ready p" "fb_slack p" "\<lambda>_. True" for p
  by unfold_locales
    (auto simp: fb_admit_def fb_ops fb_ready_def fb_slack_def Let_def get_or_create_def map_get_def
      fb_new_circuit_def case_prod_beta split: option.splits if_splits)

section \<open>Tiers and requests\<close>

datatype provider_tier = TierSubscription | TierAPIKey | TierCheap | TierFree

fun provider_tier_String :: "provider_tier \<Rightarrow> gostr" where
  "provider_tier_String TierSubscription = ''subscription''"
| "provider_tier_String TierAPIKey = ''api_key''"
| "provider_tier_String TierCheap = ''cheap''"
| "provider_tier_String TierFree = ''free''"

record fb_provider =
  fp_ID :: gostr
  fp_Name :: gostr
  fp_Tier :: provider_tier
  fp_Health :: float64
  fp_QuotaRemaining :: int
  fp_QuotaLimit :: int
  fp_IsHealthy :: bool
  fp_Priority :: int

record fb_tier =
  ft_Tier :: int
  ft_Name :: gostr
  ft_Providers :: "fb_provider list"
  ft_LatencyBudget :: duration
  ft_IsHealthy :: bool

record four_tier =
  ftf_tiers :: "fb_tier list"
  ftf_circuitBreaker :: fb_breaker
  ftf_maxDepth :: int
  ftf_requestCounts :: "(gostr, int) gomap"

record fb_options =
  fo_TenantID :: gostr
  fo_PreferredTier :: int
  fo_MinimumTier :: int
  fo_AllowFree :: bool
  fo_MaxAttempts :: int
  fo_MaxLatencyMs :: int
  fo_RequireVision :: bool
  fo_RequireStreaming :: bool
  fo_ContextWindow :: int
  fo_PreferredProvider :: gostr
  fo_Strategy :: gostr

record fb_result =
  fr_Provider :: "fb_provider option"
  fr_ModelName :: gostr
  fr_Tier :: int
  fr_Attempts :: int
  fr_TotalLatencyMs :: int
  fr_Fallbacked :: bool
  fr_FallbackPath :: "gostr list"
  fr_Error :: "gostr option"
  fr_Success :: bool

definition named_provider :: "gostr \<Rightarrow> provider_tier \<Rightarrow> int \<Rightarrow> fb_provider" where
  "named_provider name tier priority = \<lparr>fp_ID = '''', fp_Name = name, fp_Tier = tier, fp_Health = 0,
     fp_QuotaRemaining = 0, fp_QuotaLimit = 0, fp_IsHealthy = False, fp_Priority = priority\<rparr>"

definition initializeTiers :: "fb_tier list" where
  "initializeTiers =
    [\<lparr>ft_Tier = 1, ft_Name = ''premium'',
      ft_Providers = [named_provider ''claude-code'' TierSubscription 1,
        named_provider ''openai-codex'' TierSubscription 2,
        named_provider ''github-copilot'' TierSubscription 3],
      ft_LatencyBudget = 2000 * millisecond, ft_IsHealthy = True\<rparr>,
     \<lparr>ft_Tier = 2, ft_Name = ''standard'',
      ft_Providers = [named_provider ''deepseek'' TierAPIKey 1,
        named_provider ''xai-grok'' TierAPIKey 2, named_provider ''xai'' TierAPIKey 3],
      ft_LatencyBudget = 3000 * millisecond, ft_IsHealthy = True\<rparr>,
     \<lparr>ft_Tier = 3, ft_Name = ''budget'',
      ft_Providers = [named_provider ''zhipu-glm'' TierCheap 1, named_provider ''minimax'' TierCheap 2],
      ft_LatencyBudget = 5000 * millisecond, ft_IsHealthy = True\<rparr>,
     \<lparr>ft_Tier = 4, ft_Name = ''free'',
      ft_Providers = [named_provider ''kiro'' TierFree 1, named_provider ''qoder'' TierFree 2,
        named_provider ''pollinations'' TierFree 3],
      ft_LatencyBudget = 10000 * millisecond, ft_IsHealthy = True\<rparr>]"

definition NewFourTierAutoFallback :: four_tier where
  "NewFourTierAutoFallback = \<lparr>ftf_tiers = initializeTiers,
     ftf_circuitBreaker = fb_NewCircuitBreaker 5 (30 * second), ftf_maxDepth = 4,
     ftf_requestCounts = Map.empty\<rparr>"

definition determineStartTier :: "fb_options \<Rightarrow> int" where
  "determineStartTier req =
     (if fo_PreferredTier req > 0 \<and> fo_PreferredTier req \<le> 4 then fo_PreferredTier req - 1
      else if fo_MinimumTier req > 0 \<and> fo_MinimumTier req \<le> 4 then fo_MinimumTier req - 1
      else 0)"

fun available_loop ::
  "gtime \<Rightarrow> int \<Rightarrow> fb_options \<Rightarrow> fb_provider list \<Rightarrow> fb_breaker \<Rightarrow> fb_provider list \<times> fb_breaker" where
  "available_loop now tier req [] cb = ([], cb)"
| "available_loop now tier req (p # ps) cb =
     (let (isOpen, cb) = fb_IsOpen now (fp_Name p) cb;
          (rest, cb) = available_loop now tier req ps cb
      in if isOpen then (rest, cb)
      else if tier = 4 \<and> \<not> fo_AllowFree req then (rest, cb)
      else if fo_PreferredProvider req \<noteq> '''' \<and> fp_Name p \<noteq> fo_PreferredProvider req then (rest, cb)
      else (p # rest, cb))"

definition getAvailableProviders ::
  "gtime \<Rightarrow> fb_tier \<Rightarrow> fb_options \<Rightarrow> fb_breaker \<Rightarrow> fb_provider list \<times> fb_breaker" where
  "getAvailableProviders now tier req cb = available_loop now (ft_Tier tier) req (ft_Providers tier) cb"

definition selectModelForProvider :: "fb_provider \<Rightarrow> fb_options \<Rightarrow> gostr" where
  "selectModelForProvider p req =
     (if fp_Name p = ''claude-code'' then ''claude-3-5-sonnet-20240620''
      else if fp_Name p = ''openai-codex'' then ''gpt-4o''
      else if fp_Name p = ''github-copilot'' then ''gpt-4-turbo''
      else if fp_Name p = ''deepseek'' then ''deepseek-chat''
      else if fp_Name p = ''xai-grok'' \<or> fp_Name p = ''xai'' then ''grok-2''
      else if fp_Name p = ''zhipu-glm'' then ''glm-4''
      else if fp_Name p = ''minimax'' then ''moonshot-v1-32k''
      else if fp_Name p = ''kiro'' \<or> fp_Name p = ''qoder'' \<or> fp_Name p = ''pollinations''
      then ''llama-3-70b-instruct''
      else ''gpt-4o-mini'')"

section \<open>Execution\<close>

text \<open>
  The local variables of \<open>ExecuteWithFallback\<close>: the attempts made, the last error, the
  fallback path, and the log of the calls to the executor, which is not a variable of the
  code but what the properties speak about.
\<close>

record fb_run =
  run_attempts :: nat
  run_lastErr :: "gostr option"
  run_path :: "gostr list"
  run_calls :: "(fb_provider \<times> gostr) list"

record fb_env =
  env_exec :: "nat \<Rightarrow> fb_provider \<Rightarrow> gostr \<Rightarrow> gostr option"
  env_before :: "nat \<Rightarrow> gtime"
  env_after :: "nat \<Rightarrow> gtime"

text \<open>The loop over the available providers of one tier; \<open>Some\<close> result ends the request.\<close>

fun try_providers :: "fb_env \<Rightarrow> fb_options \<Rightarrow> fb_tier \<Rightarrow> fb_provider list \<Rightarrow> fb_run \<Rightarrow> four_tier
    \<Rightarrow> fb_result option \<times> fb_run \<times> four_tier" where
  "try_providers env req tier [] run f = (None, run, f)"
| "try_providers env req tier (p # ps) run f =
     (let n = run_attempts run in
      if int n \<ge> fo_MaxAttempts req then (None, run, f)
      else if fo_MaxLatencyMs req > 0 \<and> to_milliseconds (ft_LatencyBudget tier) > fo_MaxLatencyMs req
      then try_providers env req tier ps run f
      else
        let (isOpen, cb) = fb_IsOpen (env_before env n) (fp_Name p) (ftf_circuitBreaker f);
            f = f\<lparr>ftf_circuitBreaker := cb\<rparr>
        in if isOpen then try_providers env req tier ps run f
        else
          let modelName = selectModelForProvider p req;
              run = run\<lparr>run_attempts := n + 1, run_calls := run_calls run @ [(p, modelName)]\<rparr>
          in case env_exec env n p modelName of
               None \<Rightarrow>
                 (Some \<lparr>fr_Provider = Some p, fr_ModelName = modelName, fr_Tier = ft_Tier tier,
                    fr_Attempts = int n + 1,
                    fr_TotalLatencyMs = to_milliseconds (time_sub (env_after env n) (env_before env n)),
                    fr_Fallbacked = run_path run \<noteq> [], fr_FallbackPath = run_path run,
                    fr_Error = None, fr_Success = True\<rparr>, run,
                  f\<lparr>ftf_circuitBreaker := fb_RecordSuccess (fp_Name p) (ftf_circuitBreaker f),
                    ftf_requestCounts := (ftf_requestCounts f)
                      (fp_Name p \<mapsto> map_get 0 (ftf_requestCounts f) (fp_Name p) + 1)\<rparr>)
             | Some err \<Rightarrow>
                 try_providers env req tier ps
                   (run\<lparr>run_lastErr := Some err,
                        run_path := run_path run @ [fp_Name p @ '':'' @ err]\<rparr>)
                   (f\<lparr>ftf_circuitBreaker := fb_RecordFailure (env_after env n) (fp_Name p)
                        (ftf_circuitBreaker f)\<rparr>))"

fun try_tiers :: "fb_env \<Rightarrow> fb_options \<Rightarrow> fb_tier list \<Rightarrow> fb_run \<Rightarrow> four_tier
    \<Rightarrow> fb_result option \<times> fb_run \<times> four_tier" where
  "try_tiers env req [] run f = (None, run, f)"
| "try_tiers env req (tier # tiers) run f =
     (if int (run_attempts run) \<ge> fo_MaxAttempts req then (None, run, f)
      else if \<not> ft_IsHealthy tier then try_tiers env req tiers run f
      else
        let (ps, cb) = getAvailableProviders (env_before env (run_attempts run)) tier req
                         (ftf_circuitBreaker f);
            f = f\<lparr>ftf_circuitBreaker := cb\<rparr>
        in if ps = [] then try_tiers env req tiers run f
        else (case try_providers env req tier ps run f of
            (Some res, run, f) \<Rightarrow> (Some res, run, f)
          | (None, run, f) \<Rightarrow> try_tiers env req tiers run f))"

definition fb_start :: fb_run where
  "fb_start = \<lparr>run_attempts = 0, run_lastErr = None, run_path = [], run_calls = []\<rparr>"

definition ExecuteWithFallback ::
  "fb_env \<Rightarrow> fb_options \<Rightarrow> four_tier \<Rightarrow> (fb_result \<times> bool) \<times> fb_run \<times> four_tier" where
  "ExecuteWithFallback env req f =
     (case try_tiers env req
         (drop (nat (determineStartTier req)) (take (nat (ftf_maxDepth f)) (ftf_tiers f))) fb_start f of
        (Some res, run, f) \<Rightarrow> ((res, True), run, f)
      | (None, run, f) \<Rightarrow>
          ((\<lparr>fr_Provider = None, fr_ModelName = '''', fr_Tier = 0, fr_Attempts = int (run_attempts run),
             fr_TotalLatencyMs = 0, fr_Fallbacked = True, fr_FallbackPath = run_path run,
             fr_Error = run_lastErr run, fr_Success = False\<rparr>, False), run, f))"

definition SetTierHealth :: "int \<Rightarrow> bool \<Rightarrow> four_tier \<Rightarrow> four_tier" where
  "SetTierHealth tier healthy f =
     (if tier \<ge> 1 \<and> tier \<le> 4 \<and> nat (tier - 1) < length (ftf_tiers f)
      then f\<lparr>ftf_tiers := (ftf_tiers f)[nat (tier - 1) := ((ftf_tiers f) ! nat (tier - 1))
              \<lparr>ft_IsHealthy := healthy\<rparr>]\<rparr>
      else f)"

definition ftf_GetTiers :: "four_tier \<Rightarrow> fb_tier list" where
  "ftf_GetTiers f = ftf_tiers f"

record fb_health =
  fh_ProviderName :: gostr
  fh_Tier :: int
  fh_TierName :: gostr
  fh_IsHealthy :: bool
  fh_CircuitState :: gostr
  fh_RequestCount :: int

definition provider_health ::
  "fb_tier \<Rightarrow> fb_provider \<Rightarrow> (gostr, fb_health) gomap \<times> four_tier \<Rightarrow> (gostr, fb_health) gomap \<times> four_tier" where
  "provider_health tier p = (\<lambda>(health, f).
     let (st, cb) = fb_GetCircuitState (fp_Name p) (ftf_circuitBreaker f)
     in (health(fp_Name p \<mapsto> \<lparr>fh_ProviderName = fp_Name p, fh_Tier = ft_Tier tier,
           fh_TierName = ft_Name tier, fh_IsHealthy = ft_IsHealthy tier \<and> fc_State st \<noteq> FbOpen,
           fh_CircuitState = fb_state_String (fc_State st),
           fh_RequestCount = map_get 0 (ftf_requestCounts f) (fp_Name p)\<rparr>),
         f\<lparr>ftf_circuitBreaker := cb\<rparr>))"

definition ftf_GetProviderHealth :: "four_tier \<Rightarrow> (gostr, fb_health) gomap \<times> four_tier" where
  "ftf_GetProviderHealth f =
     fold (\<lambda>tier. fold (provider_health tier) (ft_Providers tier)) (ftf_tiers f) (Map.empty, f)"

section \<open>What a request calls\<close>

text \<open>
  The calls of a request in order, from attempt \<open>n\<close> on: all but the last fail, and the
  last one is the winner if there is one.
\<close>

fun outcome_ok :: "fb_env \<Rightarrow> nat \<Rightarrow> (fb_provider \<times> gostr) list \<Rightarrow> fb_provider option \<Rightarrow> bool" where
  "outcome_ok env n [] r = (r = None)"
| "outcome_ok env n (c # cs) r = (case env_exec env n (fst c) (snd c) of
     None \<Rightarrow> cs = [] \<and> r = Some (fst c)
   | Some _ \<Rightarrow> outcome_ok env (Suc n) cs r)"

lemma outcome_ok_append:
  "outcome_ok env n xs None \<Longrightarrow> outcome_ok env (n + length xs) ys r \<Longrightarrow> outcome_ok env n (xs @ ys) r"
  by (induction xs arbitrary: n) (auto split: option.splits)

definition winner :: "fb_result option \<Rightarrow> fb_provider option" where
  "winner r = (case r of None \<Rightarrow> None | Some res \<Rightarrow> fr_Provider res)"

text \<open>The calls that a stage of a request adds, between two states of its variables.\<close>

definition stage_ok :: "fb_env \<Rightarrow> fb_options \<Rightarrow> fb_provider list \<Rightarrow> fb_run \<Rightarrow> fb_result option \<Rightarrow> fb_run
    \<Rightarrow> (fb_provider \<times> gostr) list \<Rightarrow> bool" where
  "stage_ok env req ps run r run' cs \<longleftrightarrow>
     run_calls run' = run_calls run @ cs \<and> run_attempts run' = run_attempts run + length cs
     \<and> subseq (map fst cs) ps \<and> outcome_ok env (run_attempts run) cs (winner r)
     \<and> (cs = [] \<or> int (run_attempts run') \<le> fo_MaxAttempts req)
     \<and> (case r of None \<Rightarrow> True | Some res \<Rightarrow> fr_Provider res \<noteq> None
          \<and> fr_Success res \<and> fr_Attempts res = int (run_attempts run'))"

lemma stage_ok_Nil: "stage_ok env req ps run None run []"
  by (simp add: stage_ok_def winner_def)

lemma stage_ok_skip: "stage_ok env req ps run r run' cs \<Longrightarrow> stage_ok env req (p # ps) run r run' cs"
  by (auto simp: stage_ok_def)

lemma stage_ok_subseq:
  "stage_ok env req ps run r run' cs \<Longrightarrow> subseq ps qs \<Longrightarrow> stage_ok env req qs run r run' cs"
  by (auto simp: stage_ok_def intro: subseq_order.trans)

lemma stage_ok_seq:
  assumes "stage_ok env req ps run None run1 cs" "stage_ok env req qs run1 r run2 ds"
  shows "stage_ok env req (ps @ qs) run r run2 (cs @ ds)"
  using assms
  by (auto simp: stage_ok_def winner_def intro: outcome_ok_append list_emb_append_mono
      split: option.splits)

text \<open>
  One round of the loop over providers: it stops at the attempt bound, skips the provider,
  or calls it, and the call succeeds or fails.
\<close>

definition after_call :: "fb_options \<Rightarrow> fb_provider \<Rightarrow> fb_run \<Rightarrow> fb_run" where
  "after_call req p run = run\<lparr>run_attempts := run_attempts run + 1,
     run_calls := run_calls run @ [(p, selectModelForProvider p req)]\<rparr>"

definition after_failure :: "fb_options \<Rightarrow> fb_provider \<Rightarrow> gostr \<Rightarrow> fb_run \<Rightarrow> fb_run" where
  "after_failure req p err run = (after_call req p run)
     \<lparr>run_lastErr := Some err, run_path := run_path run @ [fp_Name p @ '':'' @ err]\<rparr>"

lemma try_providers_round:
  assumes "try_providers env req tier (p # ps) run f = (r, run', f')"
    and io: "fb_IsOpen (env_before env (run_attempts run)) (fp_Name p) (ftf_circuitBreaker f) = (isOpen, cb)"
  obtains (stop) "r = None" "run' = run" "f' = f" "fo_MaxAttempts req \<le> int (run_attempts run)"
  | (late) "0 < fo_MaxLatencyMs req" "try_providers env req tier ps run f = (r, run', f')"
  | (blocked) "isOpen" "try_providers env req tier ps run (f\<lparr>ftf_circuitBreaker := cb\<rparr>) = (r, run', f')"
  | (won) res where "int (run_attempts run) < fo_MaxAttempts req" "\<not> isOpen"
      "env_exec env (run_attempts run) p (selectModelForProvider p req) = None" "r = Some res"
      "fr_Provider res = Some p" "fr_Success res" "fr_Attempts res = int (run_attempts run) + 1"
      "run' = after_call req p run" "ftf_circuitBreaker f' = fb_RecordSuccess (fp_Name p) cb"
  | (lost) err where "int (run_attempts run) < fo_MaxAttempts req" "\<not> isOpen"
      "env_exec env (run_attempts run) p (selectModelForProvider p req) = Some err"
      "try_providers env req tier ps (after_failure req p err run)
         (f\<lparr>ftf_circuitBreaker := fb_RecordFailure (env_after env (run_attempts run)) (fp_Name p) cb\<rparr>)
       = (r, run', f')"
proof (cases "int (run_attempts run) \<ge> fo_MaxAttempts req")
  case True
  with assms stop show ?thesis by simp
next
  case room: False
  show ?thesis
  proof (cases "fo_MaxLatencyMs req > 0 \<and> to_milliseconds (ft_LatencyBudget tier) > fo_MaxLatencyMs req")
    case True
    with assms room late show ?thesis by (simp add: Let_def)
  next
    case fast: False
    show ?thesis
    proof (cases isOpen)
      case True
      with assms room fast blocked show ?thesis by (simp add: Let_def)
    next
      case False
      show ?thesis
      proof (cases "env_exec env (run_attempts run) p (selectModelForProvider p req)")
        case None
        with assms room fast False show ?thesis
          by (intro won) (auto simp: Let_def after_call_def)
      next
        case (Some err)
        with assms room fast False show ?thesis
          by (intro lost) (auto simp: Let_def after_call_def after_failure_def)
      qed
    qed
  qed
qed

lemma try_providers_stage:
  assumes "try_providers env req tier ps run f = (r, run', f')"
  shows "\<exists>cs. stage_ok env req ps run r run' cs"
  using assms
proof (induction ps arbitrary: run f)
  case Nil
  then show ?case using stage_ok_Nil [of env req "[]" run] by auto
next
  case (Cons p ps)
  let ?c = "(p, selectModelForProvider p req)"
  from Cons.prems prod.collapse [symmetric] show ?case
  proof (cases rule: try_providers_round)
    case stop
    then show ?thesis using stage_ok_Nil by blast
  next
    case late
    then show ?thesis using Cons.IH stage_ok_skip by blast
  next
    case blocked
    then show ?thesis using Cons.IH stage_ok_skip by blast
  next
    case (won res)
    then have "stage_ok env req (p # ps) run r run' [?c]"
      by (simp add: stage_ok_def winner_def after_call_def)
    then show ?thesis by blast
  next
    case (lost err)
    from Cons.IH [OF lost(4)] obtain cs where
      "stage_ok env req ps (after_failure req p err run) r run' cs" ..
    with lost(1,3) have "stage_ok env req (p # ps) run r run' (?c # cs)"
      by (auto simp: stage_ok_def after_failure_def after_call_def split: option.splits)
    then show ?thesis by blast
  qed
qed

text \<open>The providers of a tier that a request may use at all, whatever the breaker says.\<close>

definition tier_candidates :: "fb_options \<Rightarrow> fb_tier \<Rightarrow> fb_provider list" where
  "tier_candidates req tier =
     (if ft_IsHealthy tier \<and> (ft_Tier tier = 4 \<longrightarrow> fo_AllowFree req)
      then filter (\<lambda>p. fo_PreferredProvider req = '''' \<or> fp_Name p = fo_PreferredProvider req)
             (ft_Providers tier)
      else [])"

definition request_candidates :: "fb_options \<Rightarrow> four_tier \<Rightarrow> fb_provider list" where
  "request_candidates req f = concat (map (tier_candidates req)
     (drop (nat (determineStartTier req)) (take (nat (ftf_maxDepth f)) (ftf_tiers f))))"

lemma available_loop_subseq:
  "subseq (fst (available_loop now tier req ps cb))
     (filter (\<lambda>p. (tier = 4 \<longrightarrow> fo_AllowFree req)
        \<and> (fo_PreferredProvider req = '''' \<or> fp_Name p = fo_PreferredProvider req)) ps)"
  by (induction ps arbitrary: cb) (auto simp: Let_def case_prod_beta)

lemma available_candidates:
  assumes "ft_IsHealthy tier"
  shows "subseq (fst (getAvailableProviders now tier req cb)) (tier_candidates req tier)"
  using available_loop_subseq [of now "ft_Tier tier" req "ft_Providers tier" cb] assms
  by (auto simp: getAvailableProviders_def tier_candidates_def)

lemma try_tiers_stage:
  assumes "try_tiers env req tiers run f = (r, run', f')"
  shows "\<exists>cs. stage_ok env req (concat (map (tier_candidates req) tiers)) run r run' cs"
  using assms
proof (induction tiers arbitrary: run f)
  case Nil
  then show ?case using stage_ok_Nil [of env req "[]" run] by auto
next
  case (Cons tier tiers)
  let ?av = "getAvailableProviders (env_before env (run_attempts run)) tier req (ftf_circuitBreaker f)"
  let ?f = "f\<lparr>ftf_circuitBreaker := snd ?av\<rparr>"
  let ?cands = "concat (map (tier_candidates req) (tier # tiers))"
  have later: ?case if "try_tiers env req tiers run g = (r, run', f')" for g
  proof -
    from Cons.IH [OF that] obtain cs where
      "stage_ok env req (concat (map (tier_candidates req) tiers)) run r run' cs" ..
    then have "stage_ok env req ?cands run r run' cs"
      by (rule stage_ok_subseq) (simp add: subseq_drop_many)
    then show ?thesis by blast
  qed
  show ?case
  proof (cases "int (run_attempts run) \<ge> fo_MaxAttempts req")
    case True
    with Cons.prems have "r = None" "run' = run" by simp_all
    then show ?thesis using stage_ok_Nil by blast
  next
    case room: False
    show ?thesis
    proof (cases "\<not> ft_IsHealthy tier \<or> fst ?av = []")
      case True
      with Cons.prems room have "\<exists>g. try_tiers env req tiers run g = (r, run', f')"
        by (auto simp: Let_def case_prod_beta split: if_splits)
      then show ?thesis using later by blast
    next
      case False
      obtain r1 run1 f1 where tp: "try_providers env req tier (fst ?av) run ?f = (r1, run1, f1)"
        by (metis prod_cases3)
      then obtain cs where "stage_ok env req (fst ?av) run r1 run1 cs"
        using try_providers_stage by blast
      then have cs: "stage_ok env req (tier_candidates req tier) run r1 run1 cs"
        by (rule stage_ok_subseq) (use False in \<open>simp add: available_candidates\<close>)
      show ?thesis
      proof (cases r1)
        case None
        with tp Cons.prems room False have "try_tiers env req tiers run1 f1 = (r, run', f')"
          by (simp add: Let_def case_prod_beta)
        from Cons.IH [OF this] obtain ds where
          "stage_ok env req (concat (map (tier_candidates req) tiers)) run1 r run' ds" ..
        with cs None show ?thesis by (auto intro: stage_ok_seq)
      next
        case (Some res)
        with tp Cons.prems room False have "r = r1" "run' = run1"
          by (simp_all add: Let_def case_prod_beta)
        with cs have "stage_ok env req ?cands run r run' cs"
          by (auto intro: stage_ok_subseq subseq_rev_drop_many)
        then show ?thesis by blast
      qed
    qed
  qed
qed

lemma execute_stage:
  assumes "ExecuteWithFallback env req f = ((res, ok), run, f')"
  shows "\<exists>cs r. stage_ok env req (request_candidates req f) fb_start r run cs
    \<and> ok = (r \<noteq> None) \<and> fr_Success res = ok \<and> fr_Provider res = winner r
    \<and> fr_Attempts res = int (run_attempts run)"
proof -
  let ?tiers = "drop (nat (determineStartTier req)) (take (nat (ftf_maxDepth f)) (ftf_tiers f))"
  obtain r run1 f1 where tt: "try_tiers env req ?tiers fb_start f = (r, run1, f1)"
    by (metis prod_cases3)
  then obtain cs where cs: "stage_ok env req (request_candidates req f) fb_start r run1 cs"
    unfolding request_candidates_def using try_tiers_stage by blast
  show ?thesis
  proof (cases r)
    case None
    with assms tt cs show ?thesis by (auto simp: ExecuteWithFallback_def winner_def)
  next
    case (Some x)
    with assms tt have "res = x" "ok" "run = run1" by (simp_all add: ExecuteWithFallback_def)
    moreover have "fr_Success x" "fr_Attempts x = int (run_attempts run1)"
      using cs Some by (simp_all add: stage_ok_def)
    ultimately show ?thesis using cs Some by (intro exI [of _ cs] exI [of _ r]) (simp add: winner_def)
  qed
qed

section \<open>Blocked providers\<close>

lemma fb_IsOpen_circuit:
  "fb_circuit_of q (snd (fb_IsOpen now p cb)) =
     (if q = p \<and> fc_State (fb_circuit_of p cb) = FbOpen \<and> fc_NextRetry (fb_circuit_of p cb) < now
      then (fb_circuit_of p cb)\<lparr>fc_State := FbHalfOpen\<rparr> else fb_circuit_of q cb)"
  "fst (fb_IsOpen now p cb) \<longleftrightarrow>
     fc_State (fb_circuit_of p cb) = FbOpen \<and> now \<le> fc_NextRetry (fb_circuit_of p cb)"
  by (auto simp: fb_ops Let_def case_prod_beta get_or_create_snd)

lemma fb_Record_other:
  "q \<noteq> p \<Longrightarrow> fb_circuit_of q (fb_RecordSuccess p cb) = fb_circuit_of q cb"
  "q \<noteq> p \<Longrightarrow> fb_circuit_of q (fb_RecordFailure now p cb) = fb_circuit_of q cb"
  by (auto simp: fb_ops Let_def case_prod_beta get_or_create_snd split: option.splits)

definition fb_blocked :: "fb_env \<Rightarrow> gostr \<Rightarrow> fb_breaker \<Rightarrow> bool" where
  "fb_blocked env x cb \<longleftrightarrow> fc_State (fb_circuit_of x cb) = FbOpen
     \<and> (\<forall>n. env_before env n \<le> fc_NextRetry (fb_circuit_of x cb))"

lemma blocked_IsOpen:
  "fb_blocked env x cb \<Longrightarrow> fb_blocked env x (snd (fb_IsOpen (env_before env n) p cb))"
  "fb_blocked env x cb \<Longrightarrow> fst (fb_IsOpen (env_before env n) x cb)"
  by (auto simp: fb_blocked_def fb_IsOpen_circuit not_le [symmetric])

lemma blocked_Record:
  "fb_blocked env x cb \<Longrightarrow> x \<noteq> p \<Longrightarrow> fb_blocked env x (fb_RecordSuccess p cb)"
  "fb_blocked env x cb \<Longrightarrow> x \<noteq> p \<Longrightarrow> fb_blocked env x (fb_RecordFailure now p cb)"
  by (simp_all add: fb_blocked_def fb_Record_other)

lemma blocked_available:
  "fb_blocked env x cb \<Longrightarrow> fb_blocked env x (snd (available_loop (env_before env n) tier req ps cb))"
proof (induction ps arbitrary: cb)
  case Nil
  then show ?case by simp
next
  case (Cons p ps)
  have "snd (available_loop (env_before env n) tier req (p # ps) cb)
      = snd (available_loop (env_before env n) tier req ps (snd (fb_IsOpen (env_before env n) (fp_Name p) cb)))"
    by (simp add: Let_def case_prod_beta)
  with Cons show ?case by (simp add: blocked_IsOpen)
qed

abbreviation never_called :: "gostr \<Rightarrow> fb_run \<Rightarrow> bool" where
  "never_called x run \<equiv> \<forall>c \<in> set (run_calls run). fp_Name (fst c) \<noteq> x"

lemma blocked_providers:
  assumes "try_providers env req tier ps run f = (r, run', f')"
    and "fb_blocked env x (ftf_circuitBreaker f)" "never_called x run"
  shows "fb_blocked env x (ftf_circuitBreaker f') \<and> never_called x run'"
  using assms
proof (induction ps arbitrary: run f)
  case Nil
  then show ?case by simp
next
  case (Cons p ps)
  let ?io = "fb_IsOpen (env_before env (run_attempts run)) (fp_Name p) (ftf_circuitBreaker f)"
  have io: "fb_blocked env x (snd ?io)" using Cons.prems(2) by (rule blocked_IsOpen)
  have ne: "fp_Name p \<noteq> x" if "\<not> fst ?io" using that blocked_IsOpen(2) [OF Cons.prems(2)] by auto
  from Cons.prems(1) prod.collapse [symmetric] show ?case
  proof (cases rule: try_providers_round)
    case stop
    with Cons.prems show ?thesis by simp
  next
    case late
    with Cons show ?thesis by blast
  next
    case blocked
    with Cons.IH [OF blocked(2)] Cons.prems(3) io show ?thesis by simp
  next
    case (won res)
    with Cons.prems(3) io ne show ?thesis by (simp add: blocked_Record after_call_def)
  next
    case (lost err)
    with Cons.IH [OF lost(4)] Cons.prems(3) io ne show ?thesis
      by (simp add: blocked_Record after_call_def after_failure_def)
  qed
qed

lemma blocked_tiers:
  assumes "try_tiers env req tiers run f = (r, run', f')"
    and "fb_blocked env x (ftf_circuitBreaker f)" "never_called x run"
  shows "never_called x run'"
  using assms
proof (induction tiers arbitrary: run f)
  case Nil
  then show ?case by simp
next
  case (Cons tier tiers)
  let ?av = "getAvailableProviders (env_before env (run_attempts run)) tier req (ftf_circuitBreaker f)"
  let ?f = "f\<lparr>ftf_circuitBreaker := snd ?av\<rparr>"
  have av: "fb_blocked env x (ftf_circuitBreaker ?f)"
    using Cons.prems(2) by (simp add: getAvailableProviders_def blocked_available)
  obtain r1 run1 f1 where tp: "try_providers env req tier (fst ?av) run ?f = (r1, run1, f1)"
    by (metis prod_cases3)
  note bp = blocked_providers [OF tp av Cons.prems(3)]
  show ?case
    using Cons.prems(1) Cons.prems Cons.IH [of run f] Cons.IH [of run ?f] Cons.IH [of run1 f1] av bp tp
    by (auto simp: Let_def case_prod_beta split: if_splits option.splits)
qed

section \<open>Completeness of the search\<close>

lemma subseq_set: "subseq xs ys \<Longrightarrow> set xs \<subseteq> set ys"
  by (induction rule: list_emb.induct) auto

lemma subseq_distinct_map: "subseq xs ys \<Longrightarrow> distinct (map g ys) \<Longrightarrow> distinct (map g xs)"
proof (induction rule: list_emb.induct)
  case (list_emb_Cons2 x y xs ys)
  moreover have "set xs \<subseteq> set ys" using list_emb_Cons2.hyps(2) by (rule subseq_set)
  ultimately show ?case by auto
qed simp_all

abbreviation fb_usable :: "gostr \<Rightarrow> four_tier \<Rightarrow> bool" where
  "fb_usable x f \<equiv> fc_State (fb_circuit_of x (ftf_circuitBreaker f)) \<noteq> FbOpen"

lemma available_loop_usable:
  assumes "fc_State (fb_circuit_of x cb) \<noteq> FbOpen"
  shows "fc_State (fb_circuit_of x (snd (available_loop now tier req ps cb))) \<noteq> FbOpen"
  using assms
proof (induction ps arbitrary: cb)
  case Nil
  then show ?case by simp
next
  case (Cons p ps)
  have "snd (available_loop now tier req (p # ps) cb)
      = snd (available_loop now tier req ps (snd (fb_IsOpen now (fp_Name p) cb)))"
    by (simp add: Let_def case_prod_beta)
  with Cons show ?case by (simp add: fb_IsOpen_circuit)
qed

lemma available_loop_complete:
  assumes "fc_State (fb_circuit_of (fp_Name p) cb) \<noteq> FbOpen" "p \<in> set ps"
    and "tier = 4 \<longrightarrow> fo_AllowFree req"
    and "fo_PreferredProvider req = '''' \<or> fp_Name p = fo_PreferredProvider req"
  shows "p \<in> set (fst (available_loop now tier req ps cb))"
  using assms
proof (induction ps arbitrary: cb)
  case Nil
  then show ?case by simp
next
  case (Cons q ps)
  let ?cb = "snd (fb_IsOpen now (fp_Name q) cb)"
  have "fc_State (fb_circuit_of (fp_Name p) ?cb) \<noteq> FbOpen"
    using Cons.prems(1) by (simp add: fb_IsOpen_circuit)
  with Cons show ?case
    by (cases "p = q") (auto simp: Let_def case_prod_beta fb_IsOpen_circuit)
qed

lemma calls_grow:
  "try_providers env req tier ps run f = (r, run', f') \<Longrightarrow> set (run_calls run) \<subseteq> set (run_calls run')"
  "try_tiers env req tiers run f = (r, run', f') \<Longrightarrow> set (run_calls run) \<subseteq> set (run_calls run')"
  using try_providers_stage try_tiers_stage by (fastforce simp: stage_ok_def)+

lemma attempts_grow:
  "try_tiers env req tiers run f = (r, run', f') \<Longrightarrow> run_attempts run \<le> run_attempts run'"
  using try_tiers_stage by (fastforce simp: stage_ok_def)

lemma providers_reach:
  assumes "try_providers env req tier ps run f = (None, run', f')" "fo_MaxLatencyMs req \<le> 0"
    and "int (run_attempts run') < fo_MaxAttempts req" "distinct (map fp_Name ps)"
    and "fb_usable x f"
  shows "(\<forall>p \<in> set ps. fp_Name p = x \<longrightarrow> p \<in> fst ` set (run_calls run'))
    \<and> (x \<notin> fp_Name ` set ps \<longrightarrow> fb_usable x f')"
  using assms
proof (induction ps arbitrary: run f)
  case Nil
  then show ?case by simp
next
  case (Cons q ps)
  let ?io = "fb_IsOpen (env_before env (run_attempts run)) (fp_Name q) (ftf_circuitBreaker f)"
  have io: "fc_State (fb_circuit_of x (snd ?io)) \<noteq> FbOpen"
    using Cons.prems(5) by (simp add: fb_IsOpen_circuit)
  have ne: "fp_Name q \<noteq> x" if "fst ?io" using that Cons.prems(5) by (auto simp: fb_IsOpen_circuit)
  from Cons.prems(1) prod.collapse [symmetric] show ?case
  proof (cases rule: try_providers_round)
    case stop
    with Cons.prems(3) show ?thesis by simp
  next
    case late
    with Cons.prems(2) show ?thesis by simp
  next
    case blocked
    then show ?thesis using Cons.IH [OF blocked(2)] Cons.prems ne io by auto
  next
    case (won res)
    then show ?thesis by simp
  next
    case (lost err)
    show ?thesis
    proof (cases "fp_Name q = x")
      case True
      have "q \<in> fst ` set (run_calls run')"
        using calls_grow(1) [OF lost(4)] by (force simp: after_failure_def after_call_def)
      moreover have "fp_Name p \<noteq> x" if "p \<in> set ps" for p
        using that True Cons.prems(4) by (metis distinct.simps(2) image_eqI list.map(2) list.set_map)
      ultimately show ?thesis using True by auto
    next
      case False
      then have "fb_usable x (f\<lparr>ftf_circuitBreaker :=
          fb_RecordFailure (env_after env (run_attempts run)) (fp_Name q) (snd ?io)\<rparr>)"
        using io by (simp add: fb_Record_other)
      from Cons.IH [OF lost(4) Cons.prems(2,3) _ this] Cons.prems(4) False show ?thesis by auto
    qed
  qed
qed

lemma tiers_reach:
  assumes "try_tiers env req tiers run f = (None, run', f')" "fo_MaxLatencyMs req \<le> 0"
    and "int (run_attempts run') < fo_MaxAttempts req"
    and "distinct (map fp_Name (concat (map (tier_candidates req) tiers)))"
    and "fb_usable (fp_Name p) f" "p \<in> set (concat (map (tier_candidates req) tiers))"
  shows "p \<in> fst ` set (run_calls run')"
  using assms
proof (induction tiers arbitrary: run f)
  case Nil
  then show ?case by simp
next
  case (Cons tier tiers)
  let ?av = "getAvailableProviders (env_before env (run_attempts run)) tier req (ftf_circuitBreaker f)"
  let ?f = "f\<lparr>ftf_circuitBreaker := snd ?av\<rparr>"
  have av: "fb_usable (fp_Name p) ?f"
    using Cons.prems(5) by (simp add: getAvailableProviders_def available_loop_usable)
  have "int (run_attempts run) < fo_MaxAttempts req"
    using attempts_grow [OF Cons.prems(1)] Cons.prems(3) by linarith
  note room = this [folded not_le]
  have dist: "distinct (map fp_Name (concat (map (tier_candidates req) tiers)))"
    using Cons.prems(4) by simp
  show ?case
  proof (cases "ft_IsHealthy tier")
    case False
    then have "p \<in> set (concat (map (tier_candidates req) tiers))"
      using Cons.prems(6) by (simp add: tier_candidates_def)
    with False room Cons.IH [of run f] Cons.prems dist show ?thesis by simp
  next
    case healthy: True
    have sub: "subseq (fst ?av) (tier_candidates req tier)" using healthy by (rule available_candidates)
    have avail: "p \<in> set (fst ?av)" if "p \<in> set (tier_candidates req tier)"
      using that Cons.prems(5)
      by (auto simp: tier_candidates_def getAvailableProviders_def intro!: available_loop_complete
          split: if_splits)
    obtain r1 run1 f1 where tp: "try_providers env req tier (fst ?av) run ?f = (r1, run1, f1)"
      by (metis prod_cases3)
    show ?thesis
    proof (cases "fst ?av = []")
      case True
      then have "p \<in> set (concat (map (tier_candidates req) tiers))"
        using avail Cons.prems(6) by auto
      with True healthy room Cons.IH [of run ?f] Cons.prems av dist show ?thesis
        by (simp add: Let_def case_prod_beta)
    next
      case False
      with healthy room Cons.prems(1) tp
      have tt: "r1 = None" "try_tiers env req tiers run1 f1 = (None, run', f')"
        by (auto simp: Let_def case_prod_beta split: option.splits)
      have "int (run_attempts run1) < fo_MaxAttempts req"
        using attempts_grow [OF tt(2)] Cons.prems(3) by linarith
      moreover have "distinct (map fp_Name (fst ?av))"
        using Cons.prems(4) by (intro subseq_distinct_map [OF sub]) simp
      ultimately have reach: "(\<forall>p' \<in> set (fst ?av). fp_Name p' = fp_Name p \<longrightarrow> p' \<in> fst ` set (run_calls run1))
          \<and> (fp_Name p \<notin> fp_Name ` set (fst ?av) \<longrightarrow> fb_usable (fp_Name p) f1)"
        using providers_reach [OF tp [unfolded tt(1)] Cons.prems(2) _ _ av] by blast
      show ?thesis
      proof (cases "p \<in> set (tier_candidates req tier)")
        case True
        with avail reach calls_grow(2) [OF tt(2)] show ?thesis by blast
      next
        case False
        then have later: "p \<in> set (concat (map (tier_candidates req) tiers))"
          using Cons.prems(6) by simp
        have "fp_Name p \<notin> fp_Name ` set (fst ?av)"
        proof
          assume "fp_Name p \<in> fp_Name ` set (fst ?av)"
          then have "fp_Name p \<in> set (map fp_Name (tier_candidates req tier))"
            using subseq_set [OF sub] by auto
          moreover have "fp_Name p \<in> set (map fp_Name (concat (map (tier_candidates req) tiers)))"
            using later by (simp del: set_concat)
          ultimately show False using Cons.prems(4) by (auto simp del: set_concat)
        qed
        with reach tt Cons.IH [OF tt(2)] Cons.prems(2,3) dist later show ?thesis by blast
      qed
    qed
  qed
qed

section \<open>Failures of one provider\<close>

lemma fb_RecordFailure_circuit:
  "fb_circuit_of p (fb_RecordFailure now p cb) =
     (let st = (fb_circuit_of p cb)\<lparr>fc_FailureCount := fc_FailureCount (fb_circuit_of p cb) + 1,
            fc_LastFailure := now\<rparr>
      in if fc_FailureCount st \<ge> fbb_failureThreshold cb
         then st\<lparr>fc_State := FbOpen, fc_NextRetry := now + fbb_timeout cb\<rparr> else st)"
  "fbb_failureThreshold (fb_RecordFailure now p cb) = fbb_failureThreshold cb"
  "fbb_timeout (fb_RecordFailure now p cb) = fbb_timeout cb"
  by (simp_all add: fb_ops Let_def case_prod_beta)

lemma fb_failures:
  "fc_FailureCount (fb_circuit_of p (fold (\<lambda>t. fb_RecordFailure t p) ts cb))
     = fc_FailureCount (fb_circuit_of p cb) + int (length ts)
   \<and> fbb_failureThreshold (fold (\<lambda>t. fb_RecordFailure t p) ts cb) = fbb_failureThreshold cb
   \<and> fbb_timeout (fold (\<lambda>t. fb_RecordFailure t p) ts cb) = fbb_timeout cb"
  by (induction ts arbitrary: cb) (auto simp: fb_RecordFailure_circuit Let_def)

lemma fb_tripped:
  assumes "fbb_failureThreshold cb \<le> fc_FailureCount (fb_circuit_of p cb) + int (length ts) + 1"
  shows "fc_State (fb_circuit_of p (fold (\<lambda>t. fb_RecordFailure t p) (ts @ [t0]) cb)) = FbOpen
    \<and> fc_NextRetry (fb_circuit_of p (fold (\<lambda>t. fb_RecordFailure t p) (ts @ [t0]) cb)) = t0 + fbb_timeout cb"
  using assms fb_failures [of p ts cb] by (simp add: fb_RecordFailure_circuit Let_def)

section \<open>Properties\<close>

text \<open>C2: what a fallback request does. The providers it calls are, in order and each at
  most once, candidates of the healthy tiers from the start tier on (the free tier only if
  allowed, only the preferred provider if one is named); every call but the last failed;
  the request succeeds exactly when the last call did and then reports its provider; it
  makes at most the attempts it was given and reports their number.\<close>

theorem fallback_calls:
  assumes "ExecuteWithFallback env req f = ((res, ok), run, f')"
  shows "subseq (map fst (run_calls run)) (request_candidates req f)
    \<and> outcome_ok env 0 (run_calls run) (fr_Provider res)
    \<and> ok = fr_Success res \<and> ok = (fr_Provider res \<noteq> None)
    \<and> fr_Attempts res = int (length (run_calls run))
    \<and> int (length (run_calls run)) \<le> max 0 (fo_MaxAttempts req)"
proof -
  from execute_stage [OF assms] obtain cs r where
    cs: "stage_ok env req (request_candidates req f) fb_start r run cs"
    and r: "ok = (r \<noteq> None)" "fr_Success res = ok" "fr_Provider res = winner r"
      "fr_Attempts res = int (run_attempts run)" by blast
  have "(winner r \<noteq> None) = (r \<noteq> None)"
    using cs by (auto simp: stage_ok_def winner_def split: option.splits)
  with cs r show ?thesis by (auto simp: stage_ok_def fb_start_def)
qed

definition example_options :: fb_options where
  "example_options = \<lparr>fo_TenantID = ''t'', fo_PreferredTier = 0, fo_MinimumTier = 0,
     fo_AllowFree = False, fo_MaxAttempts = 5, fo_MaxLatencyMs = 0, fo_RequireVision = False,
     fo_RequireStreaming = False, fo_ContextWindow = 0, fo_PreferredProvider = '''', fo_Strategy = ''''\<rparr>"

definition example_env :: fb_env where
  "example_env = \<lparr>env_exec = (\<lambda>n p m. if fp_Name p = ''openai-codex'' then None else Some ''down''),
     env_before = (\<lambda>n. 10), env_after = (\<lambda>n. 20)\<rparr>"

abbreviation example_request :: "(fb_result \<times> bool) \<times> fb_run \<times> four_tier" where
  "example_request \<equiv> ExecuteWithFallback example_env example_options NewFourTierAutoFallback"

lemma example_attempts: "fr_Attempts (fst (fst example_request)) = 2"
  by code_simp

theorem fallback_calls_witness: "length (run_calls (fst (snd example_request))) = 2"
  using fallback_calls [of example_env example_options NewFourTierAutoFallback "fst (fst example_request)"
      "snd (fst example_request)" "fst (snd example_request)" "snd (snd example_request)"]
    example_attempts
  by simp

text \<open>C3: a request gives up only when nothing is left. When a request without a latency
  bound fails with attempts to spare, every candidate whose circuit was not open at the
  start has been called; so a request succeeds if one usable candidate works.\<close>

theorem fallback_exhaustive:
  assumes "ExecuteWithFallback env req f = ((res, False), run, f')" "fo_MaxLatencyMs req \<le> 0"
    and "int (length (run_calls run)) < fo_MaxAttempts req"
    and "distinct (map fp_Name (request_candidates req f))"
    and "p \<in> set (request_candidates req f)" "fb_usable (fp_Name p) f"
  shows "p \<in> fst ` set (run_calls run)"
proof -
  let ?tiers = "drop (nat (determineStartTier req)) (take (nat (ftf_maxDepth f)) (ftf_tiers f))"
  from execute_stage [OF assms(1)] have "run_attempts run = length (run_calls run)"
    by (auto simp: stage_ok_def fb_start_def)
  moreover obtain r run1 f1 where tt: "try_tiers env req ?tiers fb_start f = (r, run1, f1)"
    by (metis prod_cases3)
  moreover have "r = None" "run1 = run"
    using assms(1) tt by (auto simp: ExecuteWithFallback_def split: option.splits)
  ultimately show ?thesis
    using assms tiers_reach [of env req ?tiers fb_start f run f1 p]
    by (simp add: request_candidates_def)
qed

text \<open>A failing provider is skipped. After five failures of a provider, the last at
  \<open>t0\<close>, no request whose checks happen within thirty seconds calls it, whatever else the
  request tries.\<close>

theorem fallback_fail_fast:
  assumes "length ts = 4" "\<forall>n. env_before env n \<le> t0 + 30 * second"
    and "ftf_circuitBreaker f = fold (\<lambda>t. fb_RecordFailure t x) (ts @ [t0])
      (fb_NewCircuitBreaker 5 (30 * second))"
    and "ExecuteWithFallback env req f = ((res, ok), run, f')"
  shows "x \<notin> (\<lambda>c. fp_Name (fst c)) ` set (run_calls run)"
proof -
  have "fb_blocked env x (ftf_circuitBreaker f)"
    using fb_tripped [of "fb_NewCircuitBreaker 5 (30 * second)" x ts t0] assms(1-3)
    by (simp add: fb_blocked_def fb_NewCircuitBreaker_def fb_circuit_of_def fb_new_circuit_def)
  moreover obtain r run1 f1 where tt: "try_tiers env req
      (drop (nat (determineStartTier req)) (take (nat (ftf_maxDepth f)) (ftf_tiers f))) fb_start f
      = (r, run1, f1)" by (metis prod_cases3)
  moreover have "run1 = run"
    using assms(4) tt by (auto simp: ExecuteWithFallback_def split: option.splits)
  ultimately show ?thesis using blocked_tiers [OF tt] by (auto simp: fb_start_def)
qed

definition tripped_fallback :: four_tier where
  "tripped_fallback = NewFourTierAutoFallback\<lparr>ftf_circuitBreaker :=
     fold (\<lambda>t. fb_RecordFailure t ''claude-code'') ([1, 2, 3, 4] @ [5]) (fb_NewCircuitBreaker 5 (30 * second))\<rparr>"

theorem fallback_fail_fast_witness:
  "''claude-code'' \<notin> (\<lambda>c. fp_Name (fst c))
     ` set (run_calls (fst (snd (ExecuteWithFallback example_env example_options tripped_fallback))))"
proof -
  obtain res ok run f' where ex:
    "ExecuteWithFallback example_env example_options tripped_fallback = ((res, ok), run, f')"
    by (metis prod.collapse)
  have "\<forall>n. env_before example_env n \<le> 5 + 30 * second"
    by (simp add: example_env_def second_def)
  from fallback_fail_fast [OF _ this _ ex, of "[1, 2, 3, 4]" "''claude-code''"] ex show ?thesis
    by (simp add: tripped_fallback_def)
qed

abbreviation exhausted_request :: "(fb_result \<times> bool) \<times> fb_run \<times> four_tier" where
  "exhausted_request \<equiv> ExecuteWithFallback (example_env\<lparr>env_exec := (\<lambda>n p m. Some ''down'')\<rparr>)
     (example_options\<lparr>fo_PreferredTier := 3\<rparr>) NewFourTierAutoFallback"

lemma exhausted_request_fails:
  "snd (fst exhausted_request) = False" "length (run_calls (fst (snd exhausted_request))) = 2"
  by code_simp+

lemma budget_candidates:
  "request_candidates (example_options\<lparr>fo_PreferredTier := 3\<rparr>) NewFourTierAutoFallback
     = [named_provider ''zhipu-glm'' TierCheap 1, named_provider ''minimax'' TierCheap 2]"
  by (simp add: request_candidates_def tier_candidates_def example_options_def determineStartTier_def
      NewFourTierAutoFallback_def initializeTiers_def numeral_eq_Suc)

theorem fallback_exhaustive_witness:
  "named_provider ''minimax'' TierCheap 2 \<in> fst ` set (run_calls (fst (snd exhausted_request)))"
proof (rule fallback_exhaustive)
  show "exhausted_request = ((fst (fst exhausted_request), False), fst (snd exhausted_request),
      snd (snd exhausted_request))"
    using exhausted_request_fails(1) by (simp add: prod_eq_iff)
  show "fb_usable (fp_Name (named_provider ''minimax'' TierCheap 2)) NewFourTierAutoFallback"
    by (simp add: fb_circuit_of_def NewFourTierAutoFallback_def fb_NewCircuitBreaker_def fb_new_circuit_def)
  show "fo_MaxLatencyMs (example_options\<lparr>fo_PreferredTier := 3\<rparr>) \<le> 0"
    by (simp add: example_options_def)
  show "int (length (run_calls (fst (snd exhausted_request))))
      < fo_MaxAttempts (example_options\<lparr>fo_PreferredTier := 3\<rparr>)"
    unfolding exhausted_request_fails(2) by (simp add: example_options_def)
qed (simp_all add: budget_candidates named_provider_def)

end
