(* ===== verification/Channel_Router.thy ===== *)
theory Channel_Router
  imports Breaker_Contract
begin

text \<open>
  \<open>internal/channel/channel.go\<close> and \<open>router.go\<close>: upstream channels and their selection
  by weight behind a circuit breaker per channel. The repository of channels is a
  database: what \<open>ListActive\<close> answered is an argument, as is what \<open>rand.Intn\<close> drew.
\<close>

record channel =
  ch_ID :: int
  ch_Name :: gostr
  ch_Type :: gostr
  ch_BaseURL :: gostr
  ch_APIKeyEncrypted :: gostr
  ch_Models :: "gostr list"
  ch_Priority :: int
  ch_Ratio :: int
  ch_IsActive :: bool
  ch_Balance :: float64
  ch_BalanceType :: gostr
  ch_GroupName :: gostr
  ch_CreatedAt :: gtime
  ch_UpdatedAt :: gtime

datatype channel_error = ErrChannelNameRequired | ErrChannelTypeRequired
  | ErrChannelAPIKeyRequired | ErrChannelNotFound | ErrChannelInactive | ErrRepository gostr
  | RandPanic

definition IsModelSupported :: "gostr \<Rightarrow> channel \<Rightarrow> bool" where
  "IsModelSupported model c \<longleftrightarrow> ch_Models c = []
     \<or> list_ex (\<lambda>m. m = model \<or> m = ''*'') (ch_Models c)"

definition getDefaultURL :: "gostr \<Rightarrow> gostr" where
  "getDefaultURL chType =
     (if chType = ''openai'' then ''https://api.openai.com/v1''
      else if chType = ''anthropic'' then ''https://api.anthropic.com/v1''
      else if chType = ''google'' then ''https://generativelanguage.googleapis.com/v1''
      else if chType = ''azure'' then ''''
      else if chType = ''cohere'' then ''https://api.cohere.ai/v1''
      else if chType = ''mistral'' then ''https://api.mistral.ai/v1''
      else if chType = ''ollama'' then ''http://localhost:11434/v1''
      else '''')"

definition GetEffectiveURL :: "channel \<Rightarrow> gostr" where
  "GetEffectiveURL c = (if ch_BaseURL c = '''' then getDefaultURL (ch_Type c) else ch_BaseURL c)"

definition channel_Validate :: "channel \<Rightarrow> channel_error option" where
  "channel_Validate c =
     (if ch_Name c = '''' then Some ErrChannelNameRequired
      else if ch_Type c = '''' then Some ErrChannelTypeRequired
      else if ch_APIKeyEncrypted c = '''' \<and> ch_Type c \<noteq> ''ollama'' then Some ErrChannelAPIKeyRequired
      else None)"

section \<open>The breaker of the channels\<close>

datatype chan_state = ChanClosed | ChanOpen | ChanHalfOpen

definition circuitFailureThreshold :: int where "circuitFailureThreshold = 5"
definition circuitOpenDuration :: duration where "circuitOpenDuration = 30 * second"

record channel_breaker =
  cbr_states :: "(int, chan_state) gomap"
  cbr_failureCounts :: "(int, int) gomap"
  cbr_lastFailure :: "(int, gtime) gomap"
  cbr_halfOpenMax :: int

definition NewChannelBreaker :: channel_breaker where
  "NewChannelBreaker = \<lparr>cbr_states = Map.empty, cbr_failureCounts = Map.empty,
     cbr_lastFailure = Map.empty, cbr_halfOpenMax = 3\<rparr>"

definition chan_state_of :: "int \<Rightarrow> channel_breaker \<Rightarrow> chan_state" where
  "chan_state_of i cb = map_get ChanClosed (cbr_states cb) i"

definition router_RecordSuccess :: "int \<Rightarrow> channel_breaker \<Rightarrow> channel_breaker" where
  "router_RecordSuccess channelID cb =
     (let cb = cb\<lparr>cbr_failureCounts := (cbr_failureCounts cb)(channelID := None)\<rparr> in
      if chan_state_of channelID cb = ChanHalfOpen
      then cb\<lparr>cbr_states := (cbr_states cb)(channelID \<mapsto> ChanClosed)\<rparr> else cb)"

definition router_RecordFailure :: "gtime \<Rightarrow> int \<Rightarrow> channel_breaker \<Rightarrow> channel_breaker" where
  "router_RecordFailure now channelID cb =
     (let n = map_get 0 (cbr_failureCounts cb) channelID + 1;
          cb = cb\<lparr>cbr_failureCounts := (cbr_failureCounts cb)(channelID \<mapsto> n),
                 cbr_lastFailure := (cbr_lastFailure cb)(channelID \<mapsto> now)\<rparr>
      in if n \<ge> circuitFailureThreshold
         then cb\<lparr>cbr_states := (cbr_states cb)(channelID \<mapsto> ChanOpen)\<rparr> else cb)"

definition router_GetCircuitState :: "int \<Rightarrow> channel_breaker \<Rightarrow> chan_state" where
  "router_GetCircuitState channelID cb = chan_state_of channelID cb"

definition router_ResetCircuit :: "int \<Rightarrow> channel_breaker \<Rightarrow> channel_breaker" where
  "router_ResetCircuit channelID cb =
     cb\<lparr>cbr_states := (cbr_states cb)(channelID := None),
        cbr_failureCounts := (cbr_failureCounts cb)(channelID := None),
        cbr_lastFailure := (cbr_lastFailure cb)(channelID := None)\<rparr>"

section \<open>Selection\<close>

text \<open>The circuit-breaker part of the body of the loop of \<open>SelectChannel\<close>, for one channel.\<close>

definition chan_admit :: "gtime \<Rightarrow> int \<Rightarrow> channel_breaker \<Rightarrow> bool \<times> channel_breaker" where
  "chan_admit now i cb =
     (if chan_state_of i cb = ChanOpen
      then if time_sub now (map_get zero_time (cbr_lastFailure cb) i) > circuitOpenDuration
           then (True, cb\<lparr>cbr_states := (cbr_states cb)(i \<mapsto> ChanHalfOpen),
                   cbr_failureCounts := (cbr_failureCounts cb)(i \<mapsto> 0)\<rparr>)
           else (False, cb)
      else (True, cb))"

fun eligible_channels ::
  "gtime \<Rightarrow> gostr \<Rightarrow> channel list \<Rightarrow> channel_breaker \<Rightarrow> channel list \<times> channel_breaker" where
  "eligible_channels now model [] cb = ([], cb)"
| "eligible_channels now model (c # cs) cb =
     (if \<not> IsModelSupported model c then eligible_channels now model cs cb
      else let (ok, cb) = chan_admit now (ch_ID c) cb;
               (es, cb) = eligible_channels now model cs cb
           in (if ok then c # es else es, cb))"

text \<open>Weights and their sums are of the type \<open>int\<close> and wrap around.\<close>

definition channel_weight :: "channel \<Rightarrow> int" where
  "channel_weight c = wrap64 (ch_Priority c * ch_Ratio c)"

fun pick_cumulative :: "int \<Rightarrow> int \<Rightarrow> channel list \<Rightarrow> channel option" where
  "pick_cumulative r cumulative [] = None"
| "pick_cumulative r cumulative (c # cs) =
     (let cumulative = wrap64 (cumulative + channel_weight c)
      in if r < cumulative then Some c else pick_cumulative r cumulative cs)"

text \<open>\<open>rand.Intn\<close> panics when its argument is not positive; \<open>r\<close> is its result otherwise.\<close>

definition weightedRandomSelect :: "int \<Rightarrow> channel list \<Rightarrow> channel_error + channel" where
  "weightedRandomSelect r channels =
     (if length channels = 1 then Inr (hd channels)
      else let totalWeight = foldl (\<lambda>total c. wrap64 (total + channel_weight c)) 0 channels in
        if totalWeight = 0 then Inr (hd channels)
        else if totalWeight < 0 then Inl RandPanic
        else (case pick_cumulative r 0 channels of
            Some c \<Rightarrow> Inr c
          | None \<Rightarrow> Inr (last channels)))"

definition router_SelectChannel :: "(gostr + channel list) \<Rightarrow> int \<Rightarrow> gtime \<Rightarrow> gostr \<Rightarrow> channel_breaker
    \<Rightarrow> (channel_error + channel) \<times> channel_breaker" where
  "router_SelectChannel listed r now model cb = (case listed of
     Inl err \<Rightarrow> (Inl (ErrRepository err), cb)
   | Inr channels \<Rightarrow>
       if channels = [] then (Inl ErrChannelNotFound, cb)
       else let (eligible, cb) = eligible_channels now model channels cb in
         if eligible = [] then (Inl ErrChannelInactive, cb)
         else (weightedRandomSelect r eligible, cb))"

text \<open>
  The loop of \<open>SelectWithFailover\<close>; each attempt makes its own query and its own draw
  at its own instant.
\<close>

primrec failover_loop :: "(nat \<Rightarrow> (gostr + channel list) \<times> int \<times> gtime) \<Rightarrow> gostr \<Rightarrow> nat \<Rightarrow> nat
    \<Rightarrow> channel_breaker \<Rightarrow> (channel_error + channel) \<times> channel_breaker" where
  "failover_loop env model attempts 0 cb = (Inl ErrChannelInactive, cb)"
| "failover_loop env model attempts (Suc n) cb =
     (case env attempts of (listed, r, now) \<Rightarrow>
        (case router_SelectChannel listed r now model cb of
           (Inl err, cb) \<Rightarrow> (Inl err, cb)
         | (Inr c, cb) \<Rightarrow> failover_loop env model (Suc attempts) n cb))"

definition router_SelectWithFailover :: "(nat \<Rightarrow> (gostr + channel list) \<times> int \<times> gtime) \<Rightarrow> gostr \<Rightarrow> int
    \<Rightarrow> channel_breaker \<Rightarrow> (channel_error + channel) \<times> channel_breaker" where
  "router_SelectWithFailover env model maxAttempts cb =
     failover_loop env model 0 (nat maxAttempts) cb"

record channel_stats =
  hs_ChannelID :: int
  hs_Name :: gostr
  hs_State :: gostr
  hs_FailureCount :: int
  hs_LastFailure :: gtime
  hs_SuccessRate :: float64
  hs_AvgLatencyMS :: float64
  hs_TotalRequests :: int

definition router_GetHealthStats :: "channel list \<Rightarrow> channel_breaker \<Rightarrow> channel_stats list" where
  "router_GetHealthStats channels cb = map (\<lambda>c.
     \<lparr>hs_ChannelID = ch_ID c, hs_Name = ch_Name c,
      hs_State = (case chan_state_of (ch_ID c) cb of
        ChanOpen \<Rightarrow> ''open'' | ChanHalfOpen \<Rightarrow> ''half_open'' | ChanClosed \<Rightarrow> ''closed''),
      hs_FailureCount = map_get 0 (cbr_failureCounts cb) (ch_ID c),
      hs_LastFailure = map_get zero_time (cbr_lastFailure cb) (ch_ID c),
      hs_SuccessRate = 0, hs_AvgLatencyMS = 0, hs_TotalRequests = 0\<rparr>) channels"

section \<open>The contract\<close>

text \<open>
  Every channel has a breaker of its own in the maps; it latches, and counts a failure of
  a half-open channel like one of a closed channel.
\<close>

definition chan_ready :: "int \<Rightarrow> gtime \<Rightarrow> channel_breaker \<Rightarrow> bool" where
  "chan_ready i now cb \<longleftrightarrow> time_sub now (map_get zero_time (cbr_lastFailure cb) i) > circuitOpenDuration"

definition chan_slack :: "int \<Rightarrow> channel_breaker \<Rightarrow> nat" where
  "chan_slack i cb = (if chan_state_of i cb = ChanOpen then 0
     else nat (circuitFailureThreshold - map_get 0 (cbr_failureCounts cb) i))"

lemmas chan_ops = chan_admit_def router_RecordSuccess_def router_RecordFailure_def chan_state_of_def

lemma circuitOpenDuration_ok: "is_duration circuitOpenDuration"
  by (simp add: circuitOpenDuration_def is_duration_def min_duration_def max_duration_def second_def)

interpretation chan: latching_breaker "\<lambda>now. chan_admit now i" "\<lambda>_. router_RecordSuccess i"
  "\<lambda>now. router_RecordFailure now i" "\<lambda>cb. chan_state_of i cb = ChanOpen" "chan_ready i"
  "chan_slack i" "\<lambda>_. True" "\<lambda>_. circuitOpenDuration" for i
  by unfold_locales
    (auto simp: chan_ops chan_ready_def chan_slack_def Let_def
      dest: time_sub_gtD [OF circuitOpenDuration_ok] split: if_splits)

section \<open>Eligibility\<close>

lemma chan_admit_state:
  "chan_state_of j (snd (chan_admit now i cb)) = ChanOpen \<Longrightarrow> chan_state_of j cb = ChanOpen"
  "chan_state_of i (snd (chan_admit now i cb)) = ChanOpen \<Longrightarrow> \<not> fst (chan_admit now i cb)"
  by (auto simp: chan_ops split: if_splits)

lemma chan_admit_other:
  "j \<noteq> i \<Longrightarrow> chan_state_of j (snd (chan_admit now i cb)) = chan_state_of j cb"
  "cbr_lastFailure (snd (chan_admit now i cb)) = cbr_lastFailure cb"
  by (auto simp: chan_ops split: if_splits)

lemma eligible_state:
  "chan_state_of j (snd (eligible_channels now model cs cb)) = ChanOpen \<Longrightarrow> chan_state_of j cb = ChanOpen"
proof (induction cs arbitrary: cb)
  case Nil
  then show ?case by simp
next
  case (Cons c cs)
  show ?case
    using Cons.prems Cons.IH [of cb] Cons.IH [of "snd (chan_admit now (ch_ID c) cb)"]
      chan_admit_state(1) [of j now "ch_ID c" cb]
    by (auto simp: Let_def split: if_splits prod.splits)
qed

lemma eligible_sound:
  assumes "c \<in> set (fst (eligible_channels now model cs cb))"
  shows "c \<in> set cs \<and> IsModelSupported model c
    \<and> chan_state_of (ch_ID c) (snd (eligible_channels now model cs cb)) \<noteq> ChanOpen"
  using assms
proof (induction cs arbitrary: cb)
  case Nil
  then show ?case by simp
next
  case (Cons x cs)
  let ?a = "chan_admit now (ch_ID x) cb"
  show ?case
  proof (cases "IsModelSupported model x")
    case False
    with Cons show ?thesis by simp
  next
    case True
    then have split: "fst (eligible_channels now model (x # cs) cb)
        = (if fst ?a then x # fst (eligible_channels now model cs (snd ?a))
           else fst (eligible_channels now model cs (snd ?a)))"
      "snd (eligible_channels now model (x # cs) cb) = snd (eligible_channels now model cs (snd ?a))"
      by (simp_all add: Let_def split: prod.splits)
    have "chan_state_of (ch_ID x) (snd (eligible_channels now model cs (snd ?a))) \<noteq> ChanOpen"
      if "fst ?a"
      using that chan_admit_state(2) [of "ch_ID x" now cb] eligible_state by blast
    with True Cons.IH [of "snd ?a"] Cons.prems show ?thesis
      unfolding split by (auto split: if_splits)
  qed
qed

lemma eligible_blocked:
  assumes "chan_state_of i cb = ChanOpen" "\<not> chan_ready i now cb"
  shows "chan_state_of i (snd (eligible_channels now model cs cb)) = ChanOpen"
  using assms
proof (induction cs arbitrary: cb)
  case Nil
  then show ?case by simp
next
  case (Cons x cs)
  let ?cb = "snd (chan_admit now (ch_ID x) cb)"
  have "chan_state_of i ?cb = ChanOpen \<and> \<not> chan_ready i now ?cb"
  proof (cases "ch_ID x = i")
    case True
    with Cons.prems show ?thesis by (simp add: chan.allow_blocked)
  next
    case False
    with Cons.prems show ?thesis by (simp add: chan_admit_other chan_ready_def)
  qed
  with Cons.IH [of ?cb] Cons.IH [of cb] Cons.prems show ?case
    by (auto simp: Let_def split: prod.splits)
qed

lemma pick_cumulative_mem: "pick_cumulative r a cs = Some c \<Longrightarrow> c \<in> set cs"
  by (induction cs arbitrary: a) (auto simp: Let_def split: if_splits)

lemma weightedRandomSelect_mem:
  assumes "cs \<noteq> []" "weightedRandomSelect r cs = Inr c"
  shows "c \<in> set cs"
  using assms
  by (auto simp: weightedRandomSelect_def Let_def split: if_splits option.splits
      dest: pick_cumulative_mem)

lemma SelectChannel_eligible:
  assumes "router_SelectChannel (Inr cs) r now model cb = (Inr c, cb')"
  shows "c \<in> set (fst (eligible_channels now model cs cb)) \<and> cb' = snd (eligible_channels now model cs cb)"
  using assms
  by (auto simp: router_SelectChannel_def case_prod_beta Let_def split: if_splits
      dest: weightedRandomSelect_mem)

text \<open>The intended weights, which do not wrap around, and their sum over the channels before position \<open>i\<close>.\<close>

definition true_weight :: "channel \<Rightarrow> int" where
  "true_weight c = ch_Priority c * ch_Ratio c"

definition weight_before :: "channel list \<Rightarrow> nat \<Rightarrow> int" where
  "weight_before cs i = sum_list (map true_weight (take i cs))"

lemma total_weight: "foldl (\<lambda>total c. wrap64 (total + channel_weight c)) 0 cs = wrap64 (sum_list (map true_weight cs))"
  by (induction cs rule: rev_induct) (simp_all add: channel_weight_def true_weight_def wrap64_add is_int64_def)

lemma weight_before_bounds:
  assumes "\<forall>c \<in> set cs. 0 \<le> true_weight c"
  shows "0 \<le> weight_before cs i" "weight_before cs i \<le> sum_list (map true_weight cs)"
proof -
  show "0 \<le> weight_before cs i"
    unfolding weight_before_def using assms by (intro sum_list_nonneg) (auto dest: in_set_takeD)
  have "sum_list (map true_weight cs) = weight_before cs i + sum_list (map true_weight (drop i cs))"
    unfolding weight_before_def by (metis append_take_drop_id map_append sum_list_append)
  moreover have "0 \<le> sum_list (map true_weight (drop i cs))"
    using assms by (intro sum_list_nonneg) (auto dest: in_set_dropD)
  ultimately show "weight_before cs i \<le> sum_list (map true_weight cs)" by simp
qed

lemma weight_before_Cons: "weight_before (c # cs) (Suc j) = true_weight c + weight_before cs j"
  by (simp add: weight_before_def)

lemma pick_cumulative_nth:
  assumes "\<forall>c \<in> set cs. 0 \<le> true_weight c" "i < length cs" "0 \<le> a" "a + sum_list (map true_weight cs) < 2 ^ 63"
    and "a + weight_before cs i \<le> r" "r < a + weight_before cs (Suc i)"
  shows "pick_cumulative r a cs = Some (cs ! i)"
  using assms
proof (induction cs arbitrary: a i)
  case (Cons c cs)
  have w: "0 \<le> true_weight c" "0 \<le> sum_list (map true_weight cs)"
    using Cons.prems(1) weight_before_bounds [of cs 0] by (auto intro: sum_list_nonneg)
  then have "is_int64 (a + true_weight c)" using Cons.prems(3,4) by (simp add: is_int64_def)
  then have "wrap64 (a + channel_weight c) = a + true_weight c"
    by (simp add: channel_weight_def true_weight_def wrap64_add)
  then have e: "pick_cumulative r a (c # cs) = (if r < a + true_weight c then Some c else pick_cumulative r (a + true_weight c) cs)"
    by simp
  show ?case
  proof (cases i)
    case 0
    with Cons.prems(6) show ?thesis unfolding e by (simp add: weight_before_def)
  next
    case (Suc j)
    have "0 \<le> weight_before cs j" using Cons.prems(1) by (intro weight_before_bounds) simp
    with Suc Cons.prems(5) have "\<not> r < a + true_weight c" by (simp add: weight_before_Cons)
    moreover have "pick_cumulative r (a + true_weight c) cs = Some (cs ! j)"
      using Cons.prems Suc w by (intro Cons.IH) (simp_all add: weight_before_Cons)
    ultimately show ?thesis unfolding e using Suc by simp
  qed
qed simp

section \<open>Properties\<close>

text \<open>A selected channel is usable. It is one of the active channels the repository
  listed, it supports the model, and its circuit is not open after the selection.\<close>

theorem router_select_sound:
  assumes "router_SelectChannel (Inr cs) r now model cb = (Inr c, cb')"
  shows "c \<in> set cs \<and> IsModelSupported model c \<and> chan_state_of (ch_ID c) cb' \<noteq> ChanOpen"
  using SelectChannel_eligible [OF assms] eligible_sound [of c now model cs cb] by simp

definition example_channel :: "int \<Rightarrow> channel" where
  "example_channel i = \<lparr>ch_ID = i, ch_Name = ''c'', ch_Type = ''openai'', ch_BaseURL = '''',
     ch_APIKeyEncrypted = ''k'', ch_Models = [], ch_Priority = 2, ch_Ratio = 3, ch_IsActive = True,
     ch_Balance = 0, ch_BalanceType = ''prepay'', ch_GroupName = '''', ch_CreatedAt = 0,
     ch_UpdatedAt = 0\<rparr>"

lemmas example_channel_simps = example_channel_def router_SelectChannel_def IsModelSupported_def
  chan_admit_def chan_state_of_def NewChannelBreaker_def weightedRandomSelect_def channel_weight_def is_int64_def

theorem router_select_sound_witness:
  "router_SelectChannel (Inr [example_channel 1, example_channel 2]) 7 9 ''gpt'' NewChannelBreaker
     = (Inr (example_channel 2), NewChannelBreaker)
   \<and> chan_state_of (ch_ID (example_channel 2)) NewChannelBreaker \<noteq> ChanOpen"
  using router_select_sound [of "[example_channel 1, example_channel 2]" 7 9 "''gpt''" NewChannelBreaker
      "example_channel 2" NewChannelBreaker]
  by (simp add: example_channel_simps)

text \<open>A failing channel is taken out. Once a channel has failed five times in a row,
  the last time at \<open>t0\<close>, no selection within the next thirty seconds picks it, whatever
  the weights and the draw.\<close>

theorem router_fail_fast:
  assumes "length ts = 4" "now < t0 + circuitOpenDuration"
    and "router_SelectChannel (Inr cs) r now model
      (fold (\<lambda>t. router_RecordFailure t i) (ts @ [t0]) NewChannelBreaker) = (Inr c, cb')"
  shows "ch_ID c \<noteq> i"
proof -
  let ?cb = "fold (\<lambda>t. router_RecordFailure t i) (ts @ [t0]) NewChannelBreaker"
  have slack: "chan_slack i NewChannelBreaker \<le> Suc (length ts)"
    using assms(1) by (simp add: chan_slack_def NewChannelBreaker_def chan_state_of_def
        circuitFailureThreshold_def)
  have "chan_state_of i ?cb = ChanOpen"
    using slack by (intro chan.failures_open) simp_all
  moreover have "\<not> chan_ready i now ?cb"
    using chan.failure_rearms [of i t0 "fold (\<lambda>t. router_RecordFailure t i) ts NewChannelBreaker" now]
      calculation assms(2) by simp
  ultimately have "chan_state_of i (snd (eligible_channels now model cs ?cb)) = ChanOpen"
    by (rule eligible_blocked)
  with SelectChannel_eligible [OF assms(3)] eligible_sound [of c now model cs ?cb] show ?thesis
    by auto
qed

lemma example_tripped:
  "router_SelectChannel (Inr [example_channel 1, example_channel 2]) 0 9 ''gpt''
     (fold (\<lambda>t. router_RecordFailure t 1) ([1, 2, 3, 4] @ [5]) NewChannelBreaker)
   = (Inr (example_channel 2), fold (\<lambda>t. router_RecordFailure t 1) ([1, 2, 3, 4] @ [5]) NewChannelBreaker)"
  by (simp add: example_channel_simps router_RecordFailure_def circuitFailureThreshold_def
      circuitOpenDuration_def second_def time_sub_def min_duration_def max_duration_def)

theorem router_fail_fast_witness: "ch_ID (example_channel 2) \<noteq> 1"
  by (rule router_fail_fast [OF _ _ example_tripped]) (simp_all add: circuitOpenDuration_def second_def)

text \<open>C30: Among two or more channels whose weights are not negative and add up to less than \<open>2\<^sup>6\<^sup>3\<close>, the
  weights are honoured exactly: the draw \<open>r\<close> selects the channel at position \<open>i\<close> when \<open>r\<close> lies
  between the weight of the channels before it and that of the channels up to it, so that of the equally likely draws
  below the total as many select it as its weight, the product of priority and ratio, says.\<close>

theorem router_weights_exact:
  assumes "\<forall>c \<in> set cs. 0 \<le> true_weight c" "sum_list (map true_weight cs) < 2 ^ 63" "i < length cs" "2 \<le> length cs"
    and "weight_before cs i \<le> r" "r < weight_before cs (Suc i)"
  shows "weightedRandomSelect r cs = Inr (cs ! i)
    \<and> weight_before cs (Suc i) - weight_before cs i = ch_Priority (cs ! i) * ch_Ratio (cs ! i)"
proof -
  let ?W = "sum_list (map true_weight cs)"
  note b = weight_before_bounds [OF assms(1)]
  have "weight_before cs (Suc i) = weight_before cs i + true_weight (cs ! i)"
    using assms(3) by (simp add: weight_before_def take_Suc_conv_app_nth)
  moreover have "0 < ?W" using b(1) [of i] b(2) [of "Suc i"] assms(5,6) by linarith
  moreover from this have "wrap64 ?W = ?W" using assms(2) by (simp add: is_int64_def)
  ultimately show ?thesis
    using assms pick_cumulative_nth [of cs i 0 r] by (simp add: weightedRandomSelect_def Let_def total_weight true_weight_def)
qed

theorem router_weights_exact_witness:
  "weightedRandomSelect 7 [example_channel 1, example_channel 2] = Inr (example_channel 2)"
  using router_weights_exact [of "[example_channel 1, example_channel 2]" 1 7]
  by (simp add: weight_before_def true_weight_def example_channel_def)

text \<open>
  Beyond that the total wraps around: three channels whose priority and ratio are the largest
  integers of their columns have a negative total, for which the selection panics.
\<close>

theorem router_weights_overflow:
  "let c = (example_channel 1)\<lparr>ch_Priority := 2 ^ 31 - 1, ch_Ratio := 2 ^ 31 - 1\<rparr>
   in weightedRandomSelect r [c, c\<lparr>ch_ID := 2\<rparr>, c\<lparr>ch_ID := 3\<rparr>] = Inl RandPanic"
  by (simp add: Let_def weightedRandomSelect_def channel_weight_def wrap64_def)

lemma failover_loop_fails: "\<exists>err. fst (failover_loop env model k n cb) = Inl err"
proof (induction n arbitrary: k cb)
  case 0
  then show ?case by simp
next
  case (Suc n)
  show ?case by (auto simp: Suc.IH split: prod.splits sum.splits)
qed

text \<open>Failover never selects. Whatever channels the repository lists and whatever is
  drawn, \<open>SelectWithFailover\<close> returns an error: its loop discards every channel it
  selects and ends with \<open>ErrChannelInactive\<close>.\<close>

theorem router_failover_fails:
  "\<exists>err. fst (router_SelectWithFailover env model maxAttempts cb) = Inl err"
  unfolding router_SelectWithFailover_def by (rule failover_loop_fails)

text \<open>A failed probe does not reopen the circuit. A half-open channel that fails stays
  half-open and eligible until it has failed five times.\<close>

theorem router_half_open_tolerates:
  assumes "chan_state_of i cb = ChanHalfOpen" "map_get 0 (cbr_failureCounts cb) i < 4"
  shows "chan_state_of i (router_RecordFailure now i cb) = ChanHalfOpen
    \<and> fst (chan_admit now' i (router_RecordFailure now i cb))"
  using assms by (simp add: chan_ops circuitFailureThreshold_def Let_def)

theorem router_half_open_tolerates_witness:
  "fst (chan_admit 9 1 (router_RecordFailure 5 1 (NewChannelBreaker\<lparr>cbr_states := [1 \<mapsto> ChanHalfOpen]\<rparr>)))"
  using router_half_open_tolerates [of 1 "NewChannelBreaker\<lparr>cbr_states := [1 \<mapsto> ChanHalfOpen]\<rparr>" 5 9]
  by (simp add: chan_state_of_def NewChannelBreaker_def)

end
