(* ===== verification/Rate_Limiter.thy ===== *)
theory Rate_Limiter
  imports Gw_Prelude
begin

text \<open>
  \<open>internal/rate/limiter.go\<close>: fixed-window rate limiting per user and per model. The Go
  interface \<open>RateLimitStorage\<close> is the record \<open>rate_storage\<close> of its methods over a
  storage state \<open>'s\<close>; \<open>InMemoryRateLimitStorage\<close> is the instance the repository has.
  A method that returns a Go error returns \<open>Inl\<close>; the limiter forwards it.
\<close>

record 's rate_storage =
  storage_Check :: "gtime \<Rightarrow> gostr \<Rightarrow> int \<Rightarrow> duration \<Rightarrow> 's \<Rightarrow> (gostr + bool \<times> int \<times> duration) \<times> 's"
  storage_Increment :: "gtime \<Rightarrow> gostr \<Rightarrow> duration \<Rightarrow> 's \<Rightarrow> (gostr + int) \<times> 's"
  storage_GetLimit :: "gostr \<Rightarrow> 's \<Rightarrow> gostr + int"
  storage_SetLimit :: "gostr \<Rightarrow> int \<Rightarrow> duration \<Rightarrow> 's \<Rightarrow> gostr option \<times> 's"

record rate_config =
  Enabled :: bool
  DefaultRPM :: int
  DefaultRPD :: int
  DefaultTPM :: int
  DefaultTPD :: int
  RedisURL :: gostr

definition DefaultRateLimitConfig :: rate_config where
  "DefaultRateLimitConfig = \<lparr>Enabled = True, DefaultRPM = 60, DefaultRPD = 10000,
     DefaultTPM = 100000, DefaultTPD = 1000000, RedisURL = ''''\<rparr>"

section \<open>The in-memory storage\<close>

record rate_counter =
  rc_count :: int
  rc_windowEnd :: gtime

record rate_limit =
  rl_limit :: int
  rl_window :: duration

record mem_storage =
  ms_counters :: "(gostr, rate_counter) gomap"
  ms_limits :: "(gostr, rate_limit) gomap"

definition NewInMemoryRateLimitStorage :: mem_storage where
  "NewInMemoryRateLimitStorage = \<lparr>ms_counters = Map.empty, ms_limits = Map.empty\<rparr>"

definition mem_put :: "gostr \<Rightarrow> int \<Rightarrow> gtime \<Rightarrow> mem_storage \<Rightarrow> mem_storage" where
  "mem_put key n e s =
     s\<lparr>ms_counters := (ms_counters s)(key \<mapsto> \<lparr>rc_count = n, rc_windowEnd = e\<rparr>)\<rparr>"

definition mem_Check :: "gtime \<Rightarrow> gostr \<Rightarrow> int \<Rightarrow> duration \<Rightarrow> mem_storage
    \<Rightarrow> (gostr + bool \<times> int \<times> duration) \<times> mem_storage" where
  "mem_Check now key limit window s = (case ms_counters s key of
     None \<Rightarrow> (Inr (True, limit - 1, 0), mem_put key 1 (time_add now window) s)
   | Some counter \<Rightarrow>
       if time_after now (rc_windowEnd counter)
       then (Inr (True, limit - 1, 0), mem_put key 1 (time_add now window) s)
       else if rc_count counter \<ge> limit
       then (Inr (False, 0, time_sub (rc_windowEnd counter) now), s)
       else (Inr (True, limit - (rc_count counter + 1), 0),
             mem_put key (rc_count counter + 1) (rc_windowEnd counter) s))"

definition mem_Increment ::
  "gtime \<Rightarrow> gostr \<Rightarrow> duration \<Rightarrow> mem_storage \<Rightarrow> (gostr + int) \<times> mem_storage" where
  "mem_Increment now key window s = (case ms_counters s key of
     None \<Rightarrow> (Inr 1, mem_put key 1 (time_add now window) s)
   | Some counter \<Rightarrow>
       if time_after now (rc_windowEnd counter)
       then (Inr 1, mem_put key 1 (time_add now window) s)
       else (Inr (rc_count counter + 1),
             mem_put key (rc_count counter + 1) (rc_windowEnd counter) s))"

definition mem_GetLimit :: "gostr \<Rightarrow> mem_storage \<Rightarrow> gostr + int" where
  "mem_GetLimit key s = (case ms_limits s key of Some l \<Rightarrow> Inr (rl_limit l) | None \<Rightarrow> Inr 0)"

definition mem_SetLimit ::
  "gostr \<Rightarrow> int \<Rightarrow> duration \<Rightarrow> mem_storage \<Rightarrow> gostr option \<times> mem_storage" where
  "mem_SetLimit key limit window s =
     (None, s\<lparr>ms_limits := (ms_limits s)(key \<mapsto> \<lparr>rl_limit = limit, rl_window = window\<rparr>)\<rparr>)"

definition mem_rate_storage :: "mem_storage rate_storage" where
  "mem_rate_storage = \<lparr>storage_Check = mem_Check, storage_Increment = mem_Increment,
     storage_GetLimit = mem_GetLimit, storage_SetLimit = mem_SetLimit\<rparr>"

section \<open>The limiter\<close>

record rate_limit_result =
  rr_Allowed :: bool
  rr_Remaining :: int
  rr_Limit :: int
  rr_RetryAfter :: duration
  rr_ResetAt :: gtime

record 's rate_limiter =
  rlim_storage :: "'s rate_storage"
  rlim_config :: rate_config

definition NewRateLimiter :: "'s rate_storage \<Rightarrow> rate_config \<Rightarrow> 's rate_limiter" where
  "NewRateLimiter st cfg = \<lparr>rlim_storage = st, rlim_config = cfg\<rparr>"

definition rpm_user_key :: "gostr \<Rightarrow> gostr" where
  "rpm_user_key userID = ''rpm:user:'' @ userID"

definition rpd_user_key :: "gostr \<Rightarrow> gostr" where
  "rpd_user_key userID = ''rpd:user:'' @ userID"

definition rpm_model_key :: "gostr \<Rightarrow> gostr" where
  "rpm_model_key model = ''rpm:model:'' @ model"

definition tpm_user_key :: "gostr \<Rightarrow> gostr" where
  "tpm_user_key userID = ''tpm:user:'' @ userID"

lemmas key_defs = rpm_user_key_def rpd_user_key_def rpm_model_key_def tpm_user_key_def

lemma keys_distinct [simp]:
  "rpm_user_key u = rpm_user_key v \<longleftrightarrow> u = v" "rpd_user_key u = rpd_user_key v \<longleftrightarrow> u = v"
  "rpm_user_key u \<noteq> rpd_user_key v" "rpd_user_key v \<noteq> rpm_user_key u"
  "rpm_user_key u \<noteq> tpm_user_key v" "rpm_user_key u \<noteq> rpm_model_key v"
  by (simp_all add: key_defs)

definition limiter_Check :: "'s rate_limiter \<Rightarrow> gtime \<Rightarrow> gostr \<Rightarrow> int \<Rightarrow> duration \<Rightarrow> 's
    \<Rightarrow> (gostr + rate_limit_result) \<times> 's" where
  "limiter_Check rl now key limit window s =
     (case storage_Check (rlim_storage rl) now key limit window s of
        (Inl err, s') \<Rightarrow> (Inl err, s')
      | (Inr (allowed, remaining, retryAfter), s') \<Rightarrow>
          (Inr \<lparr>rr_Allowed = allowed, rr_Remaining = remaining, rr_Limit = limit,
             rr_RetryAfter = retryAfter, rr_ResetAt = time_add now window\<rparr>, s'))"

definition limiter_CheckUserRPM ::
  "'s rate_limiter \<Rightarrow> gtime \<Rightarrow> gostr \<Rightarrow> 's \<Rightarrow> (gostr + rate_limit_result) \<times> 's" where
  "limiter_CheckUserRPM rl now userID s =
     (let key = rpm_user_key userID in
      case storage_GetLimit (rlim_storage rl) key s of
        Inl err \<Rightarrow> (Inl err, s)
      | Inr limit \<Rightarrow>
          let limit = (if limit = 0 then DefaultRPM (rlim_config rl) else limit) in
          limiter_Check rl now key limit minute s)"

definition limiter_CheckUserRPD ::
  "'s rate_limiter \<Rightarrow> gtime \<Rightarrow> gostr \<Rightarrow> 's \<Rightarrow> (gostr + rate_limit_result) \<times> 's" where
  "limiter_CheckUserRPD rl now userID s =
     (let key = rpd_user_key userID in
      case storage_GetLimit (rlim_storage rl) key s of
        Inl err \<Rightarrow> (Inl err, s)
      | Inr limit \<Rightarrow>
          let limit = (if limit = 0 then DefaultRPD (rlim_config rl) else limit) in
          limiter_Check rl now key limit (24 * hour) s)"

definition limiter_CheckModelRPM ::
  "'s rate_limiter \<Rightarrow> gtime \<Rightarrow> gostr \<Rightarrow> 's \<Rightarrow> (gostr + rate_limit_result) \<times> 's" where
  "limiter_CheckModelRPM rl now model s = limiter_Check rl now (rpm_model_key model) 120 minute s"

definition limiter_CheckTokensPM ::
  "'s rate_limiter \<Rightarrow> gtime \<Rightarrow> gostr \<Rightarrow> int \<Rightarrow> 's \<Rightarrow> (gostr + rate_limit_result) \<times> 's" where
  "limiter_CheckTokensPM rl now userID tokens s =
     (let key = tpm_user_key userID; limit = DefaultTPM (rlim_config rl) in
      case storage_Increment (rlim_storage rl) now key minute s of
        (Inl err, s') \<Rightarrow> (Inl err, s')
      | (Inr count, s') \<Rightarrow>
          let remaining = limit - count;
              remaining = (if remaining < 0 then 0 else remaining)
          in (Inr \<lparr>rr_Allowed = count \<le> limit, rr_Remaining = remaining, rr_Limit = limit,
                rr_RetryAfter = 0, rr_ResetAt = time_add now minute\<rparr>, s'))"

definition limiter_SetUserLimit ::
  "'s rate_limiter \<Rightarrow> gostr \<Rightarrow> int \<Rightarrow> int \<Rightarrow> 's \<Rightarrow> gostr option \<times> 's" where
  "limiter_SetUserLimit rl userID rpm rpd s =
     (let (e, s) = (if rpm > 0
            then storage_SetLimit (rlim_storage rl) (rpm_user_key userID) rpm minute s
            else (None, s))
      in if e \<noteq> None then (e, s)
      else let (e, s) = (if rpd > 0
            then storage_SetLimit (rlim_storage rl) (rpd_user_key userID) rpd (24 * hour) s
            else (None, s))
      in if e \<noteq> None then (e, s) else (None, s))"

section \<open>The contract of a window counter\<close>

text \<open>
  What the limiter relies on of its storage: a key has a live window or none; without
  one, a check opens a window that runs for \<open>window\<close> and counts one; in a live window a
  check below the limit counts one more and a check at the limit changes nothing; no
  operation touches another key. The storage never fails.
\<close>

text \<open>The answers to a sequence of checks of one key, at the instants given.\<close>

primrec check_run ::
  "(gtime \<Rightarrow> gostr \<Rightarrow> int \<Rightarrow> duration \<Rightarrow> 's \<Rightarrow> (gostr + bool \<times> int \<times> duration) \<times> 's)
     \<Rightarrow> gostr \<Rightarrow> int \<Rightarrow> duration \<Rightarrow> gtime list \<Rightarrow> 's \<Rightarrow> bool list" where
  "check_run check k limit window [] s = []"
| "check_run check k limit window (t # ts) s =
     (case fst (check t k limit window s) of Inr (ok, _) \<Rightarrow> ok | Inl _ \<Rightarrow> False)
       # check_run check k limit window ts (snd (check t k limit window s))"

text \<open>
  What the answers should be: the first request opens a window, which takes the requests up to its end; the next
  one opens another. Of each window the first \<open>limit\<close> are admitted, and the first in any case.
\<close>

function windows :: "duration \<Rightarrow> gtime list \<Rightarrow> gtime list list" where
  "windows d [] = []"
| "windows d (t # ts) = (t # takeWhile (\<lambda>x. x \<le> t + d) ts) # windows d (dropWhile (\<lambda>x. x \<le> t + d) ts)"
  by pat_completeness auto
termination
  by (relation "measure (length \<circ> snd)") (simp_all add: less_Suc_eq_le length_dropWhile_le)

definition first_admitted :: "int \<Rightarrow> 'a list \<Rightarrow> bool list" where
  "first_admitted limit w = map (\<lambda>i. i = 0 \<or> int i < limit) [0..<length w]"

definition window_answers :: "int \<Rightarrow> duration \<Rightarrow> gtime list \<Rightarrow> bool list" where
  "window_answers limit d ts = concat (map (first_admitted limit) (windows d ts))"

lemma window_answers_Cons:
  "window_answers limit d (t # ts)
     = True # map (\<lambda>i. 1 + int i < limit) [0..<length (takeWhile (\<lambda>x. x \<le> t + d) ts)]
       @ window_answers limit d (dropWhile (\<lambda>x. x \<le> t + d) ts)"
  by (simp add: window_answers_def first_admitted_def upt_shift comp_def del: upt_Suc)

locale window_storage =
  fixes check :: "gtime \<Rightarrow> gostr \<Rightarrow> int \<Rightarrow> duration \<Rightarrow> 's \<Rightarrow> (gostr + bool \<times> int \<times> duration) \<times> 's"
    and increment :: "gtime \<Rightarrow> gostr \<Rightarrow> duration \<Rightarrow> 's \<Rightarrow> (gostr + int) \<times> 's"
    and window_of :: "gostr \<Rightarrow> 's \<Rightarrow> (int \<times> gtime) option"
  assumes check_opens: "(\<And>n e. window_of k s = Some (n, e) \<Longrightarrow> e < now) \<Longrightarrow>
      fst (check now k limit window s) = Inr (True, limit - 1, 0)
      \<and> window_of k (snd (check now k limit window s)) = Some (1, now + window)"
    and check_counts: "window_of k s = Some (n, e) \<Longrightarrow> now \<le> e \<Longrightarrow> n < limit \<Longrightarrow>
      fst (check now k limit window s) = Inr (True, limit - (n + 1), 0)
      \<and> window_of k (snd (check now k limit window s)) = Some (n + 1, e)"
    and check_denies: "window_of k s = Some (n, e) \<Longrightarrow> now \<le> e \<Longrightarrow> limit \<le> n \<Longrightarrow>
      check now k limit window s = (Inr (False, 0, time_sub e now), s)"
    and check_other: "k' \<noteq> k \<Longrightarrow>
      window_of k' (snd (check now k limit window s)) = window_of k' s"
    and increment_opens: "(\<And>n e. window_of k s = Some (n, e) \<Longrightarrow> e < now) \<Longrightarrow>
      fst (increment now k window s) = Inr 1
      \<and> window_of k (snd (increment now k window s)) = Some (1, now + window)"
    and increment_counts: "window_of k s = Some (n, e) \<Longrightarrow> now \<le> e \<Longrightarrow>
      fst (increment now k window s) = Inr (n + 1)
      \<and> window_of k (snd (increment now k window s)) = Some (n + 1, e)"
begin

lemma checks_live:
  assumes "window_of k s = Some (n, e)"
  shows "check_run check k limit window ts s
    = map (\<lambda>i. n + int i < limit) [0..<length (takeWhile (\<lambda>x. x \<le> e) ts)]
      @ window_answers limit window (dropWhile (\<lambda>x. x \<le> e) ts)"
  using assms
proof (induction ts arbitrary: s n e)
  case Nil
  then show ?case by (simp add: window_answers_def)
next
  case (Cons t ts)
  consider "t \<le> e" "n < limit" | "t \<le> e" "limit \<le> n" | "e < t" by linarith
  then show ?case
  proof cases
    case 1
    with Cons.prems have "fst (check t k limit window s) = Inr (True, limit - (n + 1), 0)"
      and "window_of k (snd (check t k limit window s)) = Some (n + 1, e)"
      using check_counts by blast+
    with Cons.IH 1 show ?thesis by (simp add: upt_shift comp_def algebra_simps del: upt_Suc)
  next
    case 2
    with Cons.prems have "check t k limit window s = (Inr (False, 0, time_sub e t), s)"
      by (simp add: check_denies)
    with Cons.IH [OF Cons.prems] 2 show ?thesis by (simp add: upt_shift comp_def del: upt_Suc)
  next
    case 3
    then have "fst (check t k limit window s) = Inr (True, limit - 1, 0)"
      "window_of k (snd (check t k limit window s)) = Some (1, t + window)"
      using check_opens [of k s t limit window] Cons.prems by simp_all
    with Cons.IH [of _ 1 "t + window"] 3 show ?thesis by (simp add: window_answers_Cons)
  qed
qed

text \<open>The answers from any state: the window under way, when there is one, and then windows of their own.\<close>

lemma checks_exact:
  "check_run check k limit window ts s = (case window_of k s of
     None \<Rightarrow> window_answers limit window ts
   | Some (n, e) \<Rightarrow> map (\<lambda>i. n + int i < limit) [0..<length (takeWhile (\<lambda>x. x \<le> e) ts)]
       @ window_answers limit window (dropWhile (\<lambda>x. x \<le> e) ts))"
proof (cases "window_of k s")
  case None
  show ?thesis
  proof (cases ts)
    case (Cons t ts')
    with None show ?thesis using check_opens [of k s t limit window]
      by (simp add: checks_live window_answers_Cons)
  qed (simp add: None window_answers_def)
qed (auto simp: checks_live)

end

definition mem_window :: "gostr \<Rightarrow> mem_storage \<Rightarrow> (int \<times> gtime) option" where
  "mem_window k s = map_option (\<lambda>c. (rc_count c, rc_windowEnd c)) (ms_counters s k)"

interpretation mem: window_storage mem_Check mem_Increment mem_window
  by unfold_locales
    (auto simp: mem_Check_def mem_Increment_def mem_window_def mem_put_def split: option.splits)

lemma mem_Check_limits [simp]: "ms_limits (snd (mem_Check now k limit window s)) = ms_limits s"
  by (simp add: mem_Check_def mem_put_def split: option.splits)

text \<open>The limiter over the in-memory storage, and the limit it applies to a user.\<close>

abbreviation mem_limiter :: "rate_config \<Rightarrow> mem_storage rate_limiter" where
  "mem_limiter cfg \<equiv> NewRateLimiter mem_rate_storage cfg"

definition user_rpm :: "rate_config \<Rightarrow> gostr \<Rightarrow> mem_storage \<Rightarrow> int" where
  "user_rpm cfg u s = (case mem_GetLimit (rpm_user_key u) s of
     Inr l \<Rightarrow> if l = 0 then DefaultRPM cfg else l | Inl _ \<Rightarrow> 0)"

lemma user_rpm_Check [simp]: "user_rpm cfg u (snd (mem_Check now k limit window s)) = user_rpm cfg u s"
  by (simp add: user_rpm_def mem_GetLimit_def)

lemma mem_CheckUserRPM:
  "limiter_CheckUserRPM (mem_limiter cfg) now u s
     = limiter_Check (mem_limiter cfg) now (rpm_user_key u) (user_rpm cfg u s) minute s"
  by (simp add: limiter_CheckUserRPM_def NewRateLimiter_def mem_rate_storage_def user_rpm_def
      mem_GetLimit_def split: option.splits)

definition answer :: "gostr + rate_limit_result \<Rightarrow> bool" where
  "answer r = (case r of Inr x \<Rightarrow> rr_Allowed x | Inl _ \<Rightarrow> False)"

lemma mem_limiter_Check:
  "answer (fst (limiter_Check (mem_limiter cfg) now k limit window s))
     = (case fst (mem_Check now k limit window s) of Inr (ok, _) \<Rightarrow> ok | Inl _ \<Rightarrow> False)"
  "snd (limiter_Check (mem_limiter cfg) now k limit window s) = snd (mem_Check now k limit window s)"
  by (auto simp: limiter_Check_def NewRateLimiter_def mem_rate_storage_def answer_def
      split: prod.splits sum.splits)

text \<open>
  The requests of all users in the order the limiter sees them, each with its instant,
  and the answer each one gets.
\<close>

primrec rpm_run :: "'s rate_limiter \<Rightarrow> (gtime \<times> gostr) list \<Rightarrow> 's \<Rightarrow> (gostr \<times> bool) list" where
  "rpm_run rl [] s = []"
| "rpm_run rl (r # rs) s =
     (snd r, answer (fst (limiter_CheckUserRPM rl (fst r) (snd r) s)))
       # rpm_run rl rs (snd (limiter_CheckUserRPM rl (fst r) (snd r) s))"

primrec tokens_run :: "'s rate_limiter \<Rightarrow> gostr \<Rightarrow> (gtime \<times> int) list \<Rightarrow> 's \<Rightarrow> bool list" where
  "tokens_run rl u [] s = []"
| "tokens_run rl u (r # rs) s =
     answer (fst (limiter_CheckTokensPM rl (fst r) u (snd r) s))
       # tokens_run rl u rs (snd (limiter_CheckTokensPM rl (fst r) u (snd r) s))"

lemma rpm_run_one_user:
  "rpm_run (mem_limiter cfg) (map (\<lambda>t. (t, u)) ts) s
     = map (Pair u) (check_run mem_Check (rpm_user_key u) (user_rpm cfg u s) minute ts s)"
  by (induction ts arbitrary: s) (simp_all add: mem_CheckUserRPM mem_limiter_Check)

text \<open>Two storages that agree on a user's counter and limit serve that user alike.\<close>

definition agree_on :: "gostr \<Rightarrow> mem_storage \<Rightarrow> mem_storage \<Rightarrow> bool" where
  "agree_on k s s' \<longleftrightarrow> ms_counters s k = ms_counters s' k \<and> ms_limits s k = ms_limits s' k"

lemma mem_Check_agree:
  assumes "agree_on k s s'"
  shows "fst (mem_Check now k limit window s) = fst (mem_Check now k limit window s')"
    "agree_on k (snd (mem_Check now k limit window s)) (snd (mem_Check now k limit window s'))"
  using assms by (auto simp: agree_on_def mem_Check_def mem_put_def split: option.splits)

lemma mem_Check_agree_other:
  "k' \<noteq> k \<Longrightarrow> agree_on k s s' \<Longrightarrow> agree_on k (snd (mem_Check now k' limit window s)) s'"
  by (auto simp: agree_on_def mem_Check_def mem_put_def split: option.splits)

lemma user_rpm_agree: "agree_on (rpm_user_key u) s s' \<Longrightarrow> user_rpm cfg u s = user_rpm cfg u s'"
  by (simp add: agree_on_def user_rpm_def mem_GetLimit_def)

lemma rpm_run_agree:
  assumes "agree_on (rpm_user_key u) s s'"
  shows "filter (\<lambda>a. fst a = u) (rpm_run (mem_limiter cfg) rs s)
    = rpm_run (mem_limiter cfg) (filter (\<lambda>r. snd r = u) rs) s'"
  using assms
proof (induction rs arbitrary: s s')
  case Nil
  then show ?case by simp
next
  case (Cons r rs)
  then show ?case
    by (auto simp: mem_CheckUserRPM mem_limiter_Check mem_Check_agree mem_Check_agree_other
        user_rpm_agree)
qed

section \<open>Properties\<close>

text \<open>C32: The limiter is a fixed-window limiter, in any interleaving of the requests of all users and from any state
  of the storage. The answers that one user gets are these: a window under way takes the requests up to
  its end and admits those for which its count is below the limit; then the first request opens a window that takes
  the requests of the minute that follows, of which the first \<open>limit\<close> are admitted, the next request
  opens another, and so on (with a limit below one the first request of each window is still admitted).\<close>

theorem rate_window_exact:
  "map snd (filter (\<lambda>a. fst a = u) (rpm_run (mem_limiter cfg) rs s))
   = (let ts = map fst (filter (\<lambda>r. snd r = u) rs); limit = user_rpm cfg u s
      in case ms_counters s (rpm_user_key u) of
        None \<Rightarrow> window_answers limit minute ts
      | Some c \<Rightarrow> map (\<lambda>i. rc_count c + int i < limit) [0..<length (takeWhile (\<lambda>t. t \<le> rc_windowEnd c) ts)]
          @ window_answers limit minute (dropWhile (\<lambda>t. t \<le> rc_windowEnd c) ts))"
proof -
  let ?rs = "filter (\<lambda>r. snd r = u) rs"
  have "?rs = map (\<lambda>t. (t, u)) (map fst ?rs)" by (induction rs) auto
  then have "map snd (filter (\<lambda>a. fst a = u) (rpm_run (mem_limiter cfg) rs s))
      = check_run mem_Check (rpm_user_key u) (user_rpm cfg u s) minute (map fst ?rs) s"
    using rpm_run_agree [of u s s cfg rs] rpm_run_one_user [of cfg u "map fst ?rs" s]
    by (simp add: agree_on_def comp_def)
  then show ?thesis using mem.checks_exact [of "rpm_user_key u" "user_rpm cfg u s" minute "map fst ?rs" s]
    by (simp add: mem_window_def Let_def split: option.splits)
qed

theorem rate_window_exact_witness:
  "map snd (filter (\<lambda>a. fst a = ''bob'') (rpm_run (mem_limiter (DefaultRateLimitConfig\<lparr>DefaultRPM := 2\<rparr>))
     [(5, ''bob''), (6, ''bob''), (7, ''bob''), (5 + 2 * minute, ''bob'')] NewInMemoryRateLimitStorage)) = [True, True, False, True]"
  unfolding rate_window_exact
  by (simp add: NewInMemoryRateLimitStorage_def user_rpm_def mem_GetLimit_def minute_def second_def window_answers_def
      first_admitted_def upt_rec)

text \<open>Users do not interfere. In any interleaving of the requests of any users, the
  answers one user gets are those the same requests would get with no other user on the
  gateway.\<close>

theorem rate_noninterference:
  "filter (\<lambda>a. fst a = u) (rpm_run (mem_limiter cfg) rs s)
     = rpm_run (mem_limiter cfg) (filter (\<lambda>r. snd r = u) rs) s"
  by (rule rpm_run_agree) (simp add: agree_on_def)

text \<open>A custom limit takes effect. After \<open>SetUserLimit\<close> with positive limits the
  checks per minute and per day of that user are made against them, and the limits of
  every other user are what they were.\<close>

theorem rate_SetUserLimit:
  assumes "0 < rpm" "0 < rpd" "(e, s') = limiter_SetUserLimit (mem_limiter cfg) u rpm rpd s"
  shows "e = None
    \<and> fst (limiter_CheckUserRPM (mem_limiter cfg) now u s')
        = fst (limiter_Check (mem_limiter cfg) now (rpm_user_key u) rpm minute s)
    \<and> fst (limiter_CheckUserRPD (mem_limiter cfg) now u s')
        = fst (limiter_Check (mem_limiter cfg) now (rpd_user_key u) rpd (24 * hour) s)
    \<and> (v = u \<or> user_rpm cfg v s' = user_rpm cfg v s)"
  using assms
  by (auto simp: limiter_SetUserLimit_def limiter_CheckUserRPM_def limiter_CheckUserRPD_def
      limiter_Check_def NewRateLimiter_def mem_rate_storage_def mem_SetLimit_def mem_GetLimit_def
      mem_Check_def mem_put_def user_rpm_def Let_def split: option.splits)

theorem rate_SetUserLimit_witness:
  "rr_Limit (projr (fst (limiter_CheckUserRPM (mem_limiter DefaultRateLimitConfig) 9 ''u''
     (snd (limiter_SetUserLimit (mem_limiter DefaultRateLimitConfig) ''u'' 7 70
        NewInMemoryRateLimitStorage))))) = 7"
  using rate_SetUserLimit [of 7 70 _ _ DefaultRateLimitConfig "''u''" NewInMemoryRateLimitStorage 9,
      OF _ _ prod.collapse]
  by (simp add: limiter_Check_def NewRateLimiter_def mem_rate_storage_def mem_Check_def
      NewInMemoryRateLimitStorage_def)

lemma tokens_run_live:
  assumes "mem_window (tpm_user_key u) s = Some (n, e)" "\<forall>r \<in> set rs. fst r \<le> e"
  shows "tokens_run (mem_limiter cfg) u rs s = map (\<lambda>i. n + int i < DefaultTPM cfg) [0..<length rs]"
  using assms
proof (induction rs arbitrary: s n)
  case Nil
  then show ?case by simp
next
  case (Cons r rs)
  have upt: "[0..<length (r # rs)] = 0 # map Suc [0..<length rs]"
    by (simp add: map_Suc_upt upt_conv_Cons del: upt_Suc)
  from Cons.prems have i: "fst (mem_Increment (fst r) (tpm_user_key u) minute s) = Inr (n + 1)"
    "mem_window (tpm_user_key u) (snd (mem_Increment (fst r) (tpm_user_key u) minute s))
       = Some (n + 1, e)"
    using mem.increment_counts [of "tpm_user_key u" s n e "fst r" minute] by simp_all
  then have
    "answer (fst (limiter_CheckTokensPM (mem_limiter cfg) (fst r) u (snd r) s)) = (n < DefaultTPM cfg)"
    "snd (limiter_CheckTokensPM (mem_limiter cfg) (fst r) u (snd r) s)
       = snd (mem_Increment (fst r) (tpm_user_key u) minute s)"
    by (auto simp: limiter_CheckTokensPM_def NewRateLimiter_def mem_rate_storage_def answer_def
        Let_def split: prod.splits)
  with Cons i(2) show ?case unfolding upt by (simp add: comp_def algebra_simps)
qed

text \<open>The tokens-per-minute check counts calls, not tokens. Whatever numbers of tokens
  the requests of a user ask for, the requests within a minute of the first are admitted
  by their position alone: the \<open>DefaultTPM\<close> bound is never compared with tokens.\<close>

theorem rate_tokens_ignored:
  assumes "ms_counters s (tpm_user_key u) = None" "\<forall>r \<in> set rs. fst r \<le> t0 + minute"
  shows "tokens_run (mem_limiter cfg) u ((t0, n) # rs) s
    = (1 \<le> DefaultTPM cfg) # map (\<lambda>i. 1 + int i < DefaultTPM cfg) [0..<length rs]"
proof -
  let ?s = "snd (mem_Increment t0 (tpm_user_key u) minute s)"
  have i: "fst (mem_Increment t0 (tpm_user_key u) minute s) = Inr 1"
    "mem_window (tpm_user_key u) ?s = Some (1, t0 + minute)"
    using mem.increment_opens [of "tpm_user_key u" s t0 minute] assms(1) by (simp_all add: mem_window_def)
  then have "answer (fst (limiter_CheckTokensPM (mem_limiter cfg) t0 u n s)) = (1 \<le> DefaultTPM cfg)"
    "snd (limiter_CheckTokensPM (mem_limiter cfg) t0 u n s) = ?s"
    by (auto simp: limiter_CheckTokensPM_def NewRateLimiter_def mem_rate_storage_def answer_def
        Let_def split: prod.splits)
  with tokens_run_live [OF i(2) assms(2)] show ?thesis by simp
qed

theorem rate_tokens_ignored_witness:
  "tokens_run (mem_limiter DefaultRateLimitConfig) ''u'' [(5, 999999999), (6, 999999999)]
     NewInMemoryRateLimitStorage = [True, True]"
  using rate_tokens_ignored [of NewInMemoryRateLimitStorage "''u''" "[(6, 999999999)]" 5
      DefaultRateLimitConfig 999999999]
  by (simp add: NewInMemoryRateLimitStorage_def DefaultRateLimitConfig_def minute_def)

end
