(* ===== verification/Quota.thy ===== *)
theory Quota
  imports Gw_Prelude
begin

text \<open>
  \<open>internal/quota/manager.go\<close>: quota plans, the in-memory usage repository, the
  sliding-window limiter \<open>TenantRateLimiter\<close> and \<open>CheckQuota\<close>. \<open>CheckQuota\<close> mutates
  the usage it is given; its definition returns the updated usage with the error, if any.
\<close>

record quota_plan =
  qp_Name :: gostr
  qp_RequestsPerMin :: int
  qp_RequestsPerHour :: int
  qp_RequestsPerDay :: int
  qp_MaxTokensPerDay :: int
  qp_Features :: "(gostr, bool) gomap"

definition plan_features :: "bool \<Rightarrow> bool \<Rightarrow> bool \<Rightarrow> bool \<Rightarrow> (gostr, bool) gomap" where
  "plan_features streaming analytics priority custom =
     [''streaming'' \<mapsto> streaming, ''analytics'' \<mapsto> analytics, ''priority_queue'' \<mapsto> priority,
      ''custom_models'' \<mapsto> custom]"

definition DefaultQuotaPlans :: "(gostr, quota_plan) gomap" where
  "DefaultQuotaPlans =
     [''free'' \<mapsto> \<lparr>qp_Name = ''free'', qp_RequestsPerMin = 10, qp_RequestsPerHour = 100,
        qp_RequestsPerDay = 1000, qp_MaxTokensPerDay = 100000,
        qp_Features = plan_features False False False False\<rparr>,
      ''standard'' \<mapsto> \<lparr>qp_Name = ''standard'', qp_RequestsPerMin = 60, qp_RequestsPerHour = 1000,
        qp_RequestsPerDay = 10000, qp_MaxTokensPerDay = 1000000,
        qp_Features = plan_features True True False False\<rparr>,
      ''enterprise'' \<mapsto> \<lparr>qp_Name = ''enterprise'', qp_RequestsPerMin = 300,
        qp_RequestsPerHour = 10000, qp_RequestsPerDay = 100000, qp_MaxTokensPerDay = 10000000,
        qp_Features = plan_features True True True True\<rparr>]"

record quota_usage =
  qu_TenantID :: gostr
  qu_Plan :: gostr
  qu_MinuteRequests :: int
  qu_HourRequests :: int
  qu_DayRequests :: int
  qu_TokensToday :: int
  qu_LastMinuteReset :: gtime
  qu_LastHourReset :: gtime
  qu_LastDayReset :: gtime

section \<open>The usage repository\<close>

record quota_repo =
  qr_usage :: "(gostr, quota_usage) gomap"
  qr_plans :: "(gostr, quota_plan) gomap"

definition NewInMemoryQuotaRepository :: quota_repo where
  "NewInMemoryQuotaRepository = \<lparr>qr_usage = Map.empty, qr_plans = DefaultQuotaPlans\<rparr>"

definition repo_GetQuotaUsage :: "gtime \<Rightarrow> gostr \<Rightarrow> quota_repo \<Rightarrow> quota_usage" where
  "repo_GetQuotaUsage now tenantID r = (case qr_usage r tenantID of
     Some usage \<Rightarrow> usage
   | None \<Rightarrow> \<lparr>qu_TenantID = tenantID, qu_Plan = ''free'', qu_MinuteRequests = 0,
       qu_HourRequests = 0, qu_DayRequests = 0, qu_TokensToday = 0, qu_LastMinuteReset = now,
       qu_LastHourReset = now, qu_LastDayReset = now\<rparr>)"

definition repo_SaveQuotaUsage :: "quota_usage \<Rightarrow> quota_repo \<Rightarrow> quota_repo" where
  "repo_SaveQuotaUsage usage r = r\<lparr>qr_usage := (qr_usage r)(qu_TenantID usage \<mapsto> usage)\<rparr>"

definition repo_ResetMinute :: "gtime \<Rightarrow> gostr \<Rightarrow> quota_repo \<Rightarrow> quota_repo" where
  "repo_ResetMinute now tenantID r = (case qr_usage r tenantID of
     Some usage \<Rightarrow> r\<lparr>qr_usage := (qr_usage r)(tenantID \<mapsto>
       usage\<lparr>qu_MinuteRequests := 0, qu_LastMinuteReset := now\<rparr>)\<rparr>
   | None \<Rightarrow> r)"

definition repo_ResetHour :: "gtime \<Rightarrow> gostr \<Rightarrow> quota_repo \<Rightarrow> quota_repo" where
  "repo_ResetHour now tenantID r = (case qr_usage r tenantID of
     Some usage \<Rightarrow> r\<lparr>qr_usage := (qr_usage r)(tenantID \<mapsto>
       usage\<lparr>qu_HourRequests := 0, qu_MinuteRequests := 0, qu_LastHourReset := now\<rparr>)\<rparr>
   | None \<Rightarrow> r)"

definition repo_ResetDay :: "gtime \<Rightarrow> gostr \<Rightarrow> quota_repo \<Rightarrow> quota_repo" where
  "repo_ResetDay now tenantID r = (case qr_usage r tenantID of
     Some usage \<Rightarrow> r\<lparr>qr_usage := (qr_usage r)(tenantID \<mapsto>
       usage\<lparr>qu_DayRequests := 0, qu_TokensToday := 0, qu_HourRequests := 0,
         qu_MinuteRequests := 0, qu_LastDayReset := now\<rparr>)\<rparr>
   | None \<Rightarrow> r)"

definition repo_GetPlan :: "gostr \<Rightarrow> quota_repo \<Rightarrow> gostr + quota_plan" where
  "repo_GetPlan planName r = (case qr_plans r planName of
     Some plan \<Rightarrow> Inr plan | None \<Rightarrow> Inl ''plan not found'')"

definition repo_UpdatePlan :: "quota_plan \<Rightarrow> quota_repo \<Rightarrow> quota_repo" where
  "repo_UpdatePlan plan r = r\<lparr>qr_plans := (qr_plans r)(qp_Name plan \<mapsto> plan)\<rparr>"

section \<open>The sliding-window limiter\<close>

record tenant_limiter =
  trl_requests :: "(gostr, gtime list) gomap"
  trl_plan :: quota_plan
  trl_planName :: gostr

definition NewTenantRateLimiter :: "gostr \<Rightarrow> tenant_limiter" where
  "NewTenantRateLimiter planName =
     (let plan = (case DefaultQuotaPlans planName of
            Some p \<Rightarrow> p | None \<Rightarrow> the (DefaultQuotaPlans ''free''))
      in \<lparr>trl_requests = Map.empty, trl_plan = plan, trl_planName = planName\<rparr>)"

definition trl_cleanupExpired :: "gostr \<Rightarrow> gtime \<Rightarrow> tenant_limiter \<Rightarrow> tenant_limiter" where
  "trl_cleanupExpired tenantID now r = (case trl_requests r tenantID of
     None \<Rightarrow> r
   | Some requests \<Rightarrow> r\<lparr>trl_requests := (trl_requests r)
       (tenantID \<mapsto> filter (\<lambda>t. time_sub now t < minute) requests)\<rparr>)"

definition trl_Allow :: "gtime \<Rightarrow> gostr \<Rightarrow> tenant_limiter \<Rightarrow> bool \<times> tenant_limiter" where
  "trl_Allow now tenantID r =
     (let r = trl_cleanupExpired tenantID now r;
          requests = map_get [] (trl_requests r) tenantID
      in if int (length requests) \<ge> qp_RequestsPerMin (trl_plan r) then (False, r)
      else (True, r\<lparr>trl_requests := (trl_requests r)(tenantID \<mapsto> requests @ [now])\<rparr>))"

definition trl_GetRemaining :: "gtime \<Rightarrow> gostr \<Rightarrow> tenant_limiter \<Rightarrow> int" where
  "trl_GetRemaining now tenantID r = (case trl_requests r tenantID of
     None \<Rightarrow> qp_RequestsPerMin (trl_plan r)
   | Some requests \<Rightarrow>
       let valid = int (length (filter (\<lambda>t. time_sub now t < minute) requests));
           remaining = qp_RequestsPerMin (trl_plan r) - valid
       in if remaining < 0 then 0 else remaining)"

definition trl_GetResetTime :: "gtime \<Rightarrow> gostr \<Rightarrow> tenant_limiter \<Rightarrow> gtime" where
  "trl_GetResetTime now tenantID r = (case trl_requests r tenantID of
     None \<Rightarrow> now
   | Some requests \<Rightarrow> (case requests of [] \<Rightarrow> now | oldest # _ \<Rightarrow> time_add oldest minute))"

definition trl_Reset :: "gostr \<Rightarrow> tenant_limiter \<Rightarrow> tenant_limiter" where
  "trl_Reset tenantID r = r\<lparr>trl_requests := (trl_requests r)(tenantID := None)\<rparr>"

section \<open>Quota checks\<close>

record quota_error =
  qe_PlanName :: gostr
  qe_LimitType :: gostr
  qe_CurrentUsage :: int
  qe_Limit :: int
  qe_ResetTime :: gtime

text \<open>
  \<open>string(rune(n))\<close>: the conversion truncates to 32 bits and yields the UTF-8 encoding
  of that code point, or of U+FFFD where it is not one.
\<close>

definition rune_string :: "int \<Rightarrow> gostr" where
  "rune_string n =
     (let r = sint (word_of_int n :: 32 word) in
      if r < 0 \<or> r > 0x10FFFF \<or> 0xD800 \<le> r \<and> r \<le> 0xDFFF
      then map char_of [0xEF, 0xBF, 0xBD :: nat]
      else let c = nat r in
        if c < 0x80 then [char_of c]
        else if c < 0x800 then map char_of [0xC0 + c div 64, 0x80 + c mod 64]
        else if c < 0x10000
        then map char_of [0xE0 + c div 4096, 0x80 + c div 64 mod 64, 0x80 + c mod 64]
        else map char_of [0xF0 + c div 262144, 0x80 + c div 4096 mod 64, 0x80 + c div 64 mod 64,
               0x80 + c mod 64])"

definition quota_error_Error :: "quota_error \<Rightarrow> gostr" where
  "quota_error_Error e = ''quota exceeded: '' @ qe_LimitType e @ '' limit reached ('' @
     rune_string (qe_CurrentUsage e) @ ''/'' @ rune_string (qe_Limit e) @ '')''"

definition roll_minute :: "gtime \<Rightarrow> quota_usage \<Rightarrow> quota_usage" where
  "roll_minute now usage =
     (if time_sub now (qu_LastMinuteReset usage) \<ge> minute
      then usage\<lparr>qu_MinuteRequests := 0, qu_LastMinuteReset := now\<rparr> else usage)"

definition roll_hour :: "gtime \<Rightarrow> quota_usage \<Rightarrow> quota_usage" where
  "roll_hour now usage =
     (if time_sub now (qu_LastHourReset usage) \<ge> hour
      then usage\<lparr>qu_HourRequests := 0, qu_MinuteRequests := 0, qu_LastHourReset := now\<rparr> else usage)"

definition roll_day :: "gtime \<Rightarrow> quota_usage \<Rightarrow> quota_usage" where
  "roll_day now usage =
     (if time_sub now (qu_LastDayReset usage) \<ge> 24 * hour
      then usage\<lparr>qu_DayRequests := 0, qu_TokensToday := 0, qu_HourRequests := 0,
             qu_MinuteRequests := 0, qu_LastDayReset := now\<rparr> else usage)"

definition CheckQuota ::
  "gtime \<Rightarrow> quota_usage \<Rightarrow> quota_plan \<Rightarrow> int \<Rightarrow> quota_error option \<times> quota_usage" where
  "CheckQuota now usage plan tokens =
     (let usage = roll_day now (roll_hour now (roll_minute now usage)) in
      (if qu_MinuteRequests usage \<ge> qp_RequestsPerMin plan then
         Some \<lparr>qe_PlanName = qp_Name plan, qe_LimitType = ''minute'',
           qe_CurrentUsage = qu_MinuteRequests usage, qe_Limit = qp_RequestsPerMin plan,
           qe_ResetTime = time_add (qu_LastMinuteReset usage) minute\<rparr>
       else if qu_HourRequests usage \<ge> qp_RequestsPerHour plan then
         Some \<lparr>qe_PlanName = qp_Name plan, qe_LimitType = ''hour'',
           qe_CurrentUsage = qu_HourRequests usage, qe_Limit = qp_RequestsPerHour plan,
           qe_ResetTime = time_add (qu_LastHourReset usage) hour\<rparr>
       else if qu_DayRequests usage \<ge> qp_RequestsPerDay plan then
         Some \<lparr>qe_PlanName = qp_Name plan, qe_LimitType = ''day'',
           qe_CurrentUsage = qu_DayRequests usage, qe_Limit = qp_RequestsPerDay plan,
           qe_ResetTime = time_add (qu_LastDayReset usage) (24 * hour)\<rparr>
       else if qu_TokensToday usage + tokens > qp_MaxTokensPerDay plan then
         Some \<lparr>qe_PlanName = qp_Name plan, qe_LimitType = ''tokens'',
           qe_CurrentUsage = qu_TokensToday usage, qe_Limit = qp_MaxTokensPerDay plan,
           qe_ResetTime = time_add (qu_LastDayReset usage) (24 * hour)\<rparr>
       else None, usage))"

section \<open>The sliding-window contract\<close>

text \<open>
  The specification keeps every admitted request for ever and admits a new one when
  fewer than the limit are younger than a minute.
\<close>

definition recent :: "gtime \<Rightarrow> gtime list \<Rightarrow> gtime list" where
  "recent now ts = filter (\<lambda>t. now - t < minute) ts"

definition sw_step :: "int \<Rightarrow> gtime \<Rightarrow> gtime list \<Rightarrow> gtime list" where
  "sw_step limit now hist = (if int (length (recent now hist)) < limit then hist @ [now] else hist)"

definition in_minute :: "gtime \<Rightarrow> gtime list \<Rightarrow> nat" where
  "in_minute t ts = length (filter (\<lambda>u. t - minute < u \<and> u \<le> t) ts)"

lemma recent_append [simp]: "recent now (xs @ ys) = recent now xs @ recent now ys"
  by (simp add: recent_def)

lemma recent_recent: "now \<le> now' \<Longrightarrow> recent now' (recent now ts) = recent now' ts"
  unfolding recent_def filter_filter by (rule filter_cong) auto

text \<open>
  In the history of the specification no minute holds more requests than the limit.
\<close>

definition sw_ok :: "int \<Rightarrow> gtime list \<Rightarrow> bool" where
  "sw_ok limit hist \<longleftrightarrow> (\<forall>t. int (in_minute t hist) \<le> max 0 limit)"

lemma filter_length_mono:
  "(\<And>x. x \<in> set xs \<Longrightarrow> P x \<Longrightarrow> Q x) \<Longrightarrow> length (filter P xs) \<le> length (filter Q xs)"
  by (induction xs) (auto intro: le_SucI)

lemma sw_step_ok:
  assumes "sw_ok limit hist" "\<forall>u \<in> set hist. u \<le> now"
  shows "sw_ok limit (sw_step limit now hist)"
proof (cases "int (length (recent now hist)) < limit")
  case False
  then show ?thesis using assms(1) by (simp add: sw_step_def)
next
  case True
  have "int (in_minute t (hist @ [now])) \<le> max 0 limit" for t
  proof (cases "now \<le> t")
    case True
    have "in_minute t hist \<le> length (recent now hist)"
      unfolding in_minute_def recent_def using True assms(2)
      by (intro filter_length_mono) auto
    then have "int (in_minute t hist) + 1 \<le> limit"
      using \<open>int (length (recent now hist)) < limit\<close> by linarith
    then show ?thesis by (auto simp: in_minute_def)
  next
    case False
    then show ?thesis using assms(1) by (auto simp: sw_ok_def in_minute_def)
  qed
  with True show ?thesis by (simp add: sw_step_def sw_ok_def)
qed

lemma sw_history_ok:
  assumes "sw_ok limit hist" "\<forall>u \<in> set hist. \<forall>t \<in> set ts. u \<le> t" "sorted ts"
  shows "sw_ok limit (fold (sw_step limit) ts hist)"
  using assms
proof (induction ts arbitrary: hist)
  case Nil
  then show ?case by simp
next
  case (Cons t ts)
  have "\<forall>u \<in> set (sw_step limit t hist). \<forall>v \<in> set ts. u \<le> v"
    using Cons.prems by (auto simp: sw_step_def)
  with Cons show ?case by (simp add: sw_step_ok)
qed

text \<open>The requests of all keys in the order of their instants, and the answers.\<close>

primrec key_run :: "(gtime \<Rightarrow> 'k \<Rightarrow> 's \<Rightarrow> bool \<times> 's) \<Rightarrow> (gtime \<times> 'k) list \<Rightarrow> 's \<Rightarrow> bool list" where
  "key_run allow [] s = []"
| "key_run allow (r # rs) s =
     fst (allow (fst r) (snd r) s) # key_run allow rs (snd (allow (fst r) (snd r) s))"

definition admitted :: "'k \<Rightarrow> (gtime \<times> 'k) list \<Rightarrow> bool list \<Rightarrow> gtime list" where
  "admitted k rs bs = map (fst \<circ> fst) (filter (\<lambda>(r, b). snd r = k \<and> b) (zip rs bs))"

locale sliding_window =
  fixes allow :: "gtime \<Rightarrow> 'k \<Rightarrow> 's \<Rightarrow> bool \<times> 's"
    and log :: "'k \<Rightarrow> 's \<Rightarrow> gtime list"
    and limit :: "'s \<Rightarrow> int"
  assumes allow_iff: "fst (allow now k s) \<longleftrightarrow> int (length (recent now (log k s))) < limit s"
    and log_allow: "log k (snd (allow now k s))
      = recent now (log k s) @ (if fst (allow now k s) then [now] else [])"
    and log_other: "k' \<noteq> k \<Longrightarrow> log k' (snd (allow now k s)) = log k' s"
    and limit_allow: "limit (snd (allow now k s)) = limit s"
begin

text \<open>
  A log that agrees with the complete history on everything recent keeps doing so, as
  long as the clock does not go back; so the answers are those of the specification.
\<close>

lemma run_refines:
  assumes "\<And>t. t \<in> set (map fst rs) \<Longrightarrow> recent t (log k s) = recent t hist" "sorted (map fst rs)"
  shows "hist @ admitted k rs (key_run allow rs s)
    = fold (sw_step (limit s)) (map fst (filter (\<lambda>r. snd r = k) rs)) hist"
  using assms
proof (induction rs arbitrary: s hist)
  case Nil
  then show ?case by (simp add: admitted_def)
next
  case (Cons r rs)
  let ?t = "fst r" and ?s = "snd (allow (fst r) (snd r) s)"
  have le: "?t \<le> t" if "t \<in> set (map fst rs)" for t using Cons.prems(2) that by auto
  show ?case
  proof (cases "snd r = k")
    case False
    then have "recent t (log k ?s) = recent t hist" if "t \<in> set (map fst rs)" for t
      using Cons.prems(1) [of t] that by (simp add: log_other)
    from Cons.IH [OF this] Cons.prems(2) False show ?thesis
      by (simp add: admitted_def limit_allow)
  next
    case True
    have now: "recent ?t (log k s) = recent ?t hist" using Cons.prems(1) by simp
    let ?h = "hist @ (if fst (allow ?t k s) then [?t] else [])"
    have step: "sw_step (limit s) ?t hist = ?h"
      using now by (simp add: sw_step_def allow_iff)
    have "recent t (log k ?s) = recent t ?h" if "t \<in> set (map fst rs)" for t
      using True Cons.prems(1) [of t] le [OF that] that
      by (simp add: log_allow recent_recent)
    from Cons.IH [OF this] Cons.prems(2) True step show ?thesis
      by (simp add: admitted_def limit_allow split: if_splits)
  qed
qed

lemma run_bounded:
  assumes "log k s = []" "sorted (map fst rs)"
  shows "int (in_minute t (admitted k rs (key_run allow rs s))) \<le> max 0 (limit s)"
proof -
  have "sorted (map fst (filter (\<lambda>r. snd r = k) rs))"
    using assms(2) by (rule sorted_filter)
  moreover have "sw_ok (limit s) []" by (simp add: sw_ok_def in_minute_def)
  ultimately have "sw_ok (limit s) (fold (sw_step (limit s)) (map fst (filter (\<lambda>r. snd r = k) rs)) [])"
    by (intro sw_history_ok) simp_all
  with run_refines [of rs k s "[]"] assms show ?thesis by (simp add: sw_ok_def)
qed

end

definition trl_log :: "gostr \<Rightarrow> tenant_limiter \<Rightarrow> gtime list" where
  "trl_log k r = map_get [] (trl_requests r) k"

definition trl_limit :: "tenant_limiter \<Rightarrow> int" where
  "trl_limit r = qp_RequestsPerMin (trl_plan r)"

lemma minute_time_sub [simp]: "time_sub now t < minute \<longleftrightarrow> now - t < minute"
  by (rule time_sub_less_iff) (simp_all add: is_duration_def min_duration_def max_duration_def minute_def)

interpretation trl: sliding_window trl_Allow trl_log trl_limit
  by unfold_locales
    (auto simp: trl_Allow_def trl_cleanupExpired_def trl_log_def trl_limit_def map_get_def recent_def
      Let_def split: option.splits)

section \<open>Properties\<close>

text \<open>C9: the sliding window is tight. For requests of any tenants in the order of their
  instants, a limiter that starts empty admits of each tenant exactly the requests the
  specification admits, which remembers every request ever admitted; forgetting the
  expired ones changes no answer.\<close>

theorem quota_sliding_refines:
  assumes "sorted (map fst rs)"
  shows "admitted k rs (key_run trl_Allow rs (NewTenantRateLimiter plan))
    = fold (sw_step (trl_limit (NewTenantRateLimiter plan))) (map fst (filter (\<lambda>r. snd r = k) rs)) []"
  using trl.run_refines [of rs k "NewTenantRateLimiter plan" "[]"] assms
  by (simp add: trl_log_def NewTenantRateLimiter_def Let_def)

theorem quota_sliding_refines_witness:
  "admitted ''t'' [(5, ''t''), (6, ''u''), (7, ''t'')]
     (key_run trl_Allow [(5, ''t''), (6, ''u''), (7, ''t'')] (NewTenantRateLimiter ''free'')) = [5, 7]"
  using quota_sliding_refines [of "[(5, ''t''), (6, ''u''), (7, ''t'')]" "''t''" "''free''"]
  by (simp add: sw_step_def recent_def trl_limit_def NewTenantRateLimiter_def DefaultQuotaPlans_def)



text \<open>
  The counters as \<open>CheckQuota\<close> sees them: a counter counts as zero when its own window
  or an enclosing one has elapsed since its last reset.
\<close>

definition elapsed :: "duration \<Rightarrow> gtime \<Rightarrow> gtime \<Rightarrow> bool" where
  "elapsed d now t \<longleftrightarrow> d \<le> now - t"

definition eff_day :: "gtime \<Rightarrow> quota_usage \<Rightarrow> int \<times> int" where
  "eff_day now u = (if elapsed (24 * hour) now (qu_LastDayReset u) then (0, 0)
     else (qu_DayRequests u, qu_TokensToday u))"

definition eff_hour :: "gtime \<Rightarrow> quota_usage \<Rightarrow> int" where
  "eff_hour now u = (if elapsed (24 * hour) now (qu_LastDayReset u) \<or> elapsed hour now (qu_LastHourReset u)
     then 0 else qu_HourRequests u)"

definition eff_minute :: "gtime \<Rightarrow> quota_usage \<Rightarrow> int" where
  "eff_minute now u = (if elapsed (24 * hour) now (qu_LastDayReset u) \<or> elapsed hour now (qu_LastHourReset u)
     \<or> elapsed minute now (qu_LastMinuteReset u) then 0 else qu_MinuteRequests u)"

lemma elapsed_time_sub [simp]:
  "minute \<le> time_sub now t \<longleftrightarrow> elapsed minute now t"
  "hour \<le> time_sub now t \<longleftrightarrow> elapsed hour now t"
  "24 * hour \<le> time_sub now t \<longleftrightarrow> elapsed (24 * hour) now t"
  by (simp_all add: elapsed_def time_sub_ge_iff is_duration_def min_duration_def max_duration_def
      unit_defs)

lemmas roll_defs = roll_minute_def roll_hour_def roll_day_def

lemma roll_counters:
  "qu_MinuteRequests (roll_day now (roll_hour now (roll_minute now u))) = eff_minute now u"
  "qu_HourRequests (roll_day now (roll_hour now (roll_minute now u))) = eff_hour now u"
  "qu_DayRequests (roll_day now (roll_hour now (roll_minute now u))) = fst (eff_day now u)"
  "qu_TokensToday (roll_day now (roll_hour now (roll_minute now u))) = snd (eff_day now u)"
  by (auto simp: roll_defs eff_minute_def eff_hour_def eff_day_def)

lemma roll_resets:
  "qu_LastMinuteReset (roll_day now (roll_hour now (roll_minute now u)))
     = (if elapsed minute now (qu_LastMinuteReset u) then now else qu_LastMinuteReset u)"
  "qu_LastHourReset (roll_day now (roll_hour now (roll_minute now u)))
     = (if elapsed hour now (qu_LastHourReset u) then now else qu_LastHourReset u)"
  "qu_LastDayReset (roll_day now (roll_hour now (roll_minute now u)))
     = (if elapsed (24 * hour) now (qu_LastDayReset u) then now else qu_LastDayReset u)"
  by (auto simp: roll_defs)

lemma CheckQuota_usage: "snd (CheckQuota now u plan tokens) = roll_day now (roll_hour now (roll_minute now u))"
  by (simp add: CheckQuota_def Let_def)

text \<open>\<open>CheckQuota\<close> admits exactly the requests that stay within every limit of the
  plan, each counter taken as zero once its window has elapsed, and checking again at the
  same instant gives the same answer.\<close>

theorem CheckQuota_exact:
  "(fst (CheckQuota now u plan tokens) = None \<longleftrightarrow>
      eff_minute now u < qp_RequestsPerMin plan \<and> eff_hour now u < qp_RequestsPerHour plan
      \<and> fst (eff_day now u) < qp_RequestsPerDay plan
      \<and> snd (eff_day now u) + tokens \<le> qp_MaxTokensPerDay plan)
   \<and> CheckQuota now (snd (CheckQuota now u plan tokens)) plan tokens = CheckQuota now u plan tokens"
proof
  show "fst (CheckQuota now u plan tokens) = None \<longleftrightarrow>
      eff_minute now u < qp_RequestsPerMin plan \<and> eff_hour now u < qp_RequestsPerHour plan
      \<and> fst (eff_day now u) < qp_RequestsPerDay plan
      \<and> snd (eff_day now u) + tokens \<le> qp_MaxTokensPerDay plan"
    by (auto simp: CheckQuota_def Let_def roll_counters)
  have "roll_day now (roll_hour now (roll_minute now (roll_day now (roll_hour now (roll_minute now u)))))
      = roll_day now (roll_hour now (roll_minute now u))"
    by (simp add: roll_defs elapsed_def unit_defs)
  then show "CheckQuota now (snd (CheckQuota now u plan tokens)) plan tokens = CheckQuota now u plan tokens"
    by (simp add: CheckQuota_usage) (simp add: CheckQuota_def)
qed

text \<open>The reset time of a refusal is honest. It lies in the future, at most a day
  ahead, and a check repeated at that instant is no longer refused for the same limit,
  unless the plan admits nothing at all.\<close>

theorem CheckQuota_reset_time:
  assumes "CheckQuota now u plan tokens = (Some e, u')"
    and "qu_LastMinuteReset u \<le> now" "qu_LastHourReset u \<le> now" "qu_LastDayReset u \<le> now"
    and "0 < qp_RequestsPerMin plan" "0 < qp_RequestsPerHour plan" "0 < qp_RequestsPerDay plan"
    and "tokens \<le> qp_MaxTokensPerDay plan"
  shows "now < qe_ResetTime e \<and> qe_ResetTime e \<le> now + 24 * hour
    \<and> (case fst (CheckQuota (qe_ResetTime e) u' plan tokens) of
         None \<Rightarrow> True | Some e' \<Rightarrow> qe_LimitType e' \<noteq> qe_LimitType e)"
proof -
  let ?u = "roll_day now (roll_hour now (roll_minute now u))"
  have u': "u' = ?u" using assms(1) CheckQuota_usage [of now u plan tokens] by simp
  have resets: "now < qu_LastMinuteReset ?u + minute" "qu_LastMinuteReset ?u \<le> now"
    "now < qu_LastHourReset ?u + hour" "qu_LastHourReset ?u \<le> now"
    "now < qu_LastDayReset ?u + 24 * hour" "qu_LastDayReset ?u \<le> now"
    using assms(2-4) by (auto simp: roll_resets elapsed_def unit_defs)
  have units: "minute \<le> 24 * hour" "hour \<le> 24 * hour" by (simp_all add: unit_defs)
  consider
      "qe_LimitType e = ''minute''" "qe_ResetTime e = qu_LastMinuteReset ?u + minute"
    | "qe_LimitType e = ''hour''" "qe_ResetTime e = qu_LastHourReset ?u + hour"
    | "qe_LimitType e = ''day''" "qe_ResetTime e = qu_LastDayReset ?u + 24 * hour"
    | "qe_LimitType e = ''tokens''" "qe_ResetTime e = qu_LastDayReset ?u + 24 * hour"
    using assms(1) by (auto simp: CheckQuota_def Let_def split: if_splits)
  then show ?thesis
  proof cases
    case 1
    then have "eff_minute (qe_ResetTime e) u' = 0" by (simp add: u' eff_minute_def elapsed_def)
    with 1 resets units assms(5) show ?thesis
      by (auto simp: CheckQuota_def Let_def roll_counters)
  next
    case 2
    then have "eff_hour (qe_ResetTime e) u' = 0" by (simp add: u' eff_hour_def elapsed_def)
    with 2 resets units assms(6) show ?thesis
      by (auto simp: CheckQuota_def Let_def roll_counters)
  next
    case 3
    then have "eff_day (qe_ResetTime e) u' = (0, 0)" by (simp add: u' eff_day_def elapsed_def)
    with 3 resets units assms(7) show ?thesis
      by (auto simp: CheckQuota_def Let_def roll_counters)
  next
    case 4
    then have "eff_day (qe_ResetTime e) u' = (0, 0)" by (simp add: u' eff_day_def elapsed_def)
    with 4 resets units assms(8) show ?thesis
      by (auto simp: CheckQuota_def Let_def roll_counters)
  qed
qed

definition busy_usage :: quota_usage where
  "busy_usage = \<lparr>qu_TenantID = ''t'', qu_Plan = ''free'', qu_MinuteRequests = 10,
     qu_HourRequests = 20, qu_DayRequests = 30, qu_TokensToday = 0, qu_LastMinuteReset = 5,
     qu_LastHourReset = 5, qu_LastDayReset = 5\<rparr>"

definition free_plan :: quota_plan where
  "free_plan = the (DefaultQuotaPlans ''free'')"

lemma busy_usage_refused:
  "CheckQuota 9 busy_usage free_plan 1 = (Some \<lparr>qe_PlanName = ''free'', qe_LimitType = ''minute'',
     qe_CurrentUsage = 10, qe_Limit = 10, qe_ResetTime = 5 + minute\<rparr>, busy_usage)"
  by (simp add: CheckQuota_def roll_defs time_sub_def min_duration_def max_duration_def
      busy_usage_def free_plan_def DefaultQuotaPlans_def unit_defs del: elapsed_time_sub)

theorem CheckQuota_reset_time_witness:
  "case fst (CheckQuota (5 + minute) busy_usage free_plan 1) of
     None \<Rightarrow> True | Some e' \<Rightarrow> qe_LimitType e' \<noteq> ''minute''"
  using CheckQuota_reset_time [OF busy_usage_refused]
  by (simp add: busy_usage_def free_plan_def DefaultQuotaPlans_def split: option.splits)

text \<open>A refusal does not show its numbers. The message of a quota error converts the
  usage and the limit with \<open>string(rune(n))\<close>, which yields the characters with those code
  points instead of their digits: for any numbers below 128 the message holds exactly one
  character for each.\<close>

theorem quota_error_message:
  assumes "0 \<le> qe_CurrentUsage e" "qe_CurrentUsage e < 128" "0 \<le> qe_Limit e" "qe_Limit e < 128"
  shows "quota_error_Error e = ''quota exceeded: '' @ qe_LimitType e @ '' limit reached ('' @
    [char_of (nat (qe_CurrentUsage e))] @ ''/'' @ [char_of (nat (qe_Limit e))] @ '')''"
proof -
  have "rune_string n = [char_of (nat n)]" if "0 \<le> n" "n < 128" for n
  proof -
    have "sint (word_of_int n :: 32 word) = n"
      using that by (simp add: sint_sbintrunc' signed_take_bit_int_eq_self)
    with that show ?thesis by (simp add: rune_string_def nat_less_iff)
  qed
  with assms show ?thesis by (simp add: quota_error_Error_def)
qed

theorem quota_error_message_witness:
  "quota_error_Error \<lparr>qe_PlanName = ''free'', qe_LimitType = ''minute'', qe_CurrentUsage = 65,
     qe_Limit = 66, qe_ResetTime = 0\<rparr> = ''quota exceeded: minute limit reached (A/B)''"
  using quota_error_message [of "\<lparr>qe_PlanName = ''free'', qe_LimitType = ''minute'',
      qe_CurrentUsage = 65, qe_Limit = 66, qe_ResetTime = 0\<rparr>"]
  by (simp add: char_of_def bit_0)

end
