(* ===== verification/Rl_Storage.thy ===== *)
theory Rl_Storage
  imports Gw_Prelude "HOL-Library.Sublist"
begin

text \<open>
  \<open>internal/ratelimit/storage.go\<close> and \<open>tiers.go\<close>: the in-memory quota storage and the
  tier configurations. The storage is behind the Go interface \<open>QuotaStorage\<close>, here the
  record \<open>quota_storage\<close> of its methods over a state. \<open>RedisStorage\<close> forwards every
  method to an in-memory storage and so is the same model. A timer that \<open>SetCount\<close>
  starts is an entry of \<open>rm_timers\<close>; it fires by \<open>rlm_expire\<close>.
\<close>

section \<open>Tiers\<close>

definition rlTierFree :: gostr where "rlTierFree = ''free''"
definition rlTierPro :: gostr where "rlTierPro = ''pro''"
definition rlTierEnterprise :: gostr where "rlTierEnterprise = ''enterprise''"
definition rlTierUnlimited :: gostr where "rlTierUnlimited = ''unlimited''"

lemmas rl_tier_names = rlTierFree_def rlTierPro_def rlTierEnterprise_def rlTierUnlimited_def

record tier_config =
  tc_Tier :: gostr
  tc_RequestsPerMin :: int
  tc_BurstSize :: int
  tc_RequestsPerHour :: int
  tc_RequestsPerDay :: int
  tc_ConcurrentLimit :: int
  tc_Enabled :: bool

definition zero_tier_config :: tier_config where
  "zero_tier_config = \<lparr>tc_Tier = '''', tc_RequestsPerMin = 0, tc_BurstSize = 0,
     tc_RequestsPerHour = 0, tc_RequestsPerDay = 0, tc_ConcurrentLimit = 0, tc_Enabled = False\<rparr>"

definition DefaultTierConfigs :: "(gostr, tier_config) gomap" where
  "DefaultTierConfigs =
     [rlTierFree \<mapsto> \<lparr>tc_Tier = rlTierFree, tc_RequestsPerMin = 10, tc_BurstSize = 5,
        tc_RequestsPerHour = 100, tc_RequestsPerDay = 500, tc_ConcurrentLimit = 3, tc_Enabled = True\<rparr>,
      rlTierPro \<mapsto> \<lparr>tc_Tier = rlTierPro, tc_RequestsPerMin = 100, tc_BurstSize = 50,
        tc_RequestsPerHour = 1000, tc_RequestsPerDay = 10000, tc_ConcurrentLimit = 10,
        tc_Enabled = True\<rparr>,
      rlTierEnterprise \<mapsto> \<lparr>tc_Tier = rlTierEnterprise, tc_RequestsPerMin = 1000,
        tc_BurstSize = 500, tc_RequestsPerHour = 20000, tc_RequestsPerDay = 100000,
        tc_ConcurrentLimit = 50, tc_Enabled = True\<rparr>,
      rlTierUnlimited \<mapsto> \<lparr>tc_Tier = rlTierUnlimited, tc_RequestsPerMin = 10000,
        tc_BurstSize = 5000, tc_RequestsPerHour = 100000, tc_RequestsPerDay = 1000000,
        tc_ConcurrentLimit = 200, tc_Enabled = True\<rparr>]"

definition GetTierConfig :: "gostr \<Rightarrow> tier_config" where
  "GetTierConfig tier = (case DefaultTierConfigs tier of
     Some cfg \<Rightarrow> cfg | None \<Rightarrow> map_get zero_tier_config DefaultTierConfigs rlTierFree)"

record rl_result =
  rlr_Allowed :: bool
  rlr_Limit :: int
  rlr_Remaining :: int
  rlr_ResetAt :: int
  rlr_RetryAfter :: int
  rlr_Scope :: gostr
  rlr_Tier :: gostr
  rlr_Used :: int
  rlr_ResetInSeconds :: int

record rl_info =
  rli_Limit :: int
  rli_Remaining :: int
  rli_Reset :: int
  rli_ResetInSeconds :: int
  rli_RetryAfter :: int
  rli_Tier :: gostr
  rli_Scope :: gostr
  rli_RequestsPerMin :: int
  rli_RequestsPerHour :: int
  rli_RequestsPerDay :: int

record rl_config =
  rlc_Enabled :: bool
  rlc_DefaultTier :: gostr
  rlc_RedisURL :: gostr
  rlc_WindowSizeSecs :: int
  rlc_BypassLimits :: bool

definition rl_DefaultRateLimitConfig :: rl_config where
  "rl_DefaultRateLimitConfig = \<lparr>rlc_Enabled = True, rlc_DefaultTier = rlTierFree,
     rlc_RedisURL = '''', rlc_WindowSizeSecs = 60, rlc_BypassLimits = False\<rparr>"

section \<open>The in-memory storage\<close>

record rl_entry =
  re_Timestamp :: gtime
  re_Count :: int

record rl_mem =
  rm_data :: "(gostr, rl_entry) gomap"
  rm_counters :: "(gostr, int) gomap"
  rm_timers :: "(gtime \<times> gostr) list"

definition NewInMemoryStorage :: rl_mem where
  "NewInMemoryStorage = \<lparr>rm_data = Map.empty, rm_counters = Map.empty, rm_timers = []\<rparr>"

definition rlm_cleanOldEntriesLocked :: "gostr \<Rightarrow> gtime \<Rightarrow> rl_mem \<Rightarrow> rl_mem" where
  "rlm_cleanOldEntriesLocked key windowStart s = s\<lparr>rm_data := (\<lambda>k. case rm_data s k of
     None \<Rightarrow> None
   | Some entry \<Rightarrow>
       if prefix key k \<and> time_before (re_Timestamp entry) windowStart then None else Some entry)\<rparr>"

definition counter_add :: "gostr \<Rightarrow> int \<Rightarrow> rl_mem \<Rightarrow> rl_mem" where
  "counter_add key d s = s\<lparr>rm_counters := (rm_counters s)(key \<mapsto> map_get 0 (rm_counters s) key + d)\<rparr>"

definition rlm_IncrementCount :: "gtime \<Rightarrow> gostr \<Rightarrow> duration \<Rightarrow> rl_mem \<Rightarrow> (gostr + int) \<times> rl_mem" where
  "rlm_IncrementCount now key windowDuration s =
     (let windowStart = time_add now (- windowDuration);
          s = rlm_cleanOldEntriesLocked key windowStart s;
          entry = (case rm_data s key of
            None \<Rightarrow> \<lparr>re_Timestamp = now, re_Count = 0\<rparr> | Some e \<Rightarrow> e);
          entry = entry\<lparr>re_Count := re_Count entry + 1, re_Timestamp := now\<rparr>;
          s = s\<lparr>rm_data := (rm_data s)(key \<mapsto> entry)\<rparr>
      in (Inr (re_Count entry), counter_add key 1 s))"

definition rlm_GetCount :: "gostr \<Rightarrow> rl_mem \<Rightarrow> gostr + int" where
  "rlm_GetCount key s = Inr (map_get 0 (rm_counters s) key)"

definition rlm_GetCountWithWindow ::
  "gostr list \<Rightarrow> gostr \<Rightarrow> gtime \<Rightarrow> gtime \<Rightarrow> rl_mem \<Rightarrow> gostr + int" where
  "rlm_GetCountWithWindow order key windowStart windowEnd s =
     (let count = sum_list (map (re_Count \<circ> snd) (filter
            (\<lambda>(k, entry). prefix key k \<and> time_after (re_Timestamp entry) windowStart
               \<and> time_before (re_Timestamp entry) (time_add windowEnd second))
            (range_of order (rm_data s))))
      in Inr (case rm_counters s key of None \<Rightarrow> count | Some counterCount \<Rightarrow> counterCount))"

definition rlm_SetCount ::
  "gtime \<Rightarrow> gostr \<Rightarrow> int \<Rightarrow> duration \<Rightarrow> rl_mem \<Rightarrow> gostr option \<times> rl_mem" where
  "rlm_SetCount now key count expiration s =
     (let s = s\<lparr>rm_counters := (rm_counters s)(key \<mapsto> count)\<rparr>
      in (None, if expiration > 0
                then s\<lparr>rm_timers := rm_timers s @ [(time_add now expiration, key)]\<rparr> else s))"

definition rlm_expire :: "nat \<Rightarrow> rl_mem \<Rightarrow> rl_mem" where
  "rlm_expire i s =
     (if i < length (rm_timers s)
      then s\<lparr>rm_counters := (rm_counters s)(snd (rm_timers s ! i) := None),
             rm_timers := take i (rm_timers s) @ drop (Suc i) (rm_timers s)\<rparr>
      else s)"

definition rlm_GetRemaining :: "gostr \<Rightarrow> int \<Rightarrow> rl_mem \<Rightarrow> gostr + int" where
  "rlm_GetRemaining key limit s = (case rlm_GetCount key s of
     Inl err \<Rightarrow> Inl err
   | Inr count \<Rightarrow> let remaining = limit - count in Inr (if remaining < 0 then 0 else remaining))"

definition rlm_AcquireBurst ::
  "gostr \<Rightarrow> int \<Rightarrow> duration \<Rightarrow> rl_mem \<Rightarrow> (gostr + bool) \<times> rl_mem" where
  "rlm_AcquireBurst key maxBurst ttl s =
     (let burstKey = key @ '':burst'' in
      case rm_counters s burstKey of
        None \<Rightarrow> (Inr True, s\<lparr>rm_counters := (rm_counters s)(burstKey \<mapsto> 1)\<rparr>)
      | Some count \<Rightarrow>
          if count \<ge> maxBurst then (Inr False, s)
          else (Inr True, counter_add burstKey 1 s))"

definition rlm_ReleaseBurst :: "gostr \<Rightarrow> rl_mem \<Rightarrow> gostr option \<times> rl_mem" where
  "rlm_ReleaseBurst key s =
     (let burstKey = key @ '':burst'' in
      case rm_counters s burstKey of
        None \<Rightarrow> (None, s)
      | Some count \<Rightarrow> if count \<le> 0 then (None, s) else (None, counter_add burstKey (- 1) s))"

definition rlm_IncrementConcurrent :: "gostr \<Rightarrow> rl_mem \<Rightarrow> (gostr + int) \<times> rl_mem" where
  "rlm_IncrementConcurrent key s =
     (let concurrentKey = key @ '':concurrent'' in
      case rm_counters s concurrentKey of
        None \<Rightarrow> (Inr 1, s\<lparr>rm_counters := (rm_counters s)(concurrentKey \<mapsto> 1)\<rparr>)
      | Some count \<Rightarrow> (Inr (count + 1), counter_add concurrentKey 1 s))"

definition rlm_DecrementConcurrent :: "gostr \<Rightarrow> rl_mem \<Rightarrow> gostr option \<times> rl_mem" where
  "rlm_DecrementConcurrent key s =
     (let concurrentKey = key @ '':concurrent'' in
      case rm_counters s concurrentKey of
        None \<Rightarrow> (None, s)
      | Some count \<Rightarrow> if count \<le> 0 then (None, s) else (None, counter_add concurrentKey (- 1) s))"

definition rlm_GetConcurrentCount :: "gostr \<Rightarrow> rl_mem \<Rightarrow> gostr + int" where
  "rlm_GetConcurrentCount key s = Inr (map_get 0 (rm_counters s) (key @ '':concurrent''))"

definition rlm_Ping :: "rl_mem \<Rightarrow> gostr option" where
  "rlm_Ping s = None"

definition rlm_Close :: "rl_mem \<Rightarrow> gostr option \<times> rl_mem" where
  "rlm_Close s = (None, NewInMemoryStorage)"

definition rlm_Clear :: "rl_mem \<Rightarrow> rl_mem" where
  "rlm_Clear s = s\<lparr>rm_data := Map.empty, rm_counters := Map.empty\<rparr>"

section \<open>The interface\<close>

record 's quota_storage =
  qs_IncrementCount :: "gtime \<Rightarrow> gostr \<Rightarrow> duration \<Rightarrow> 's \<Rightarrow> (gostr + int) \<times> 's"
  qs_GetCount :: "gostr \<Rightarrow> 's \<Rightarrow> gostr + int"
  qs_GetCountWithWindow :: "gostr \<Rightarrow> gtime \<Rightarrow> gtime \<Rightarrow> 's \<Rightarrow> gostr + int"
  qs_SetCount :: "gtime \<Rightarrow> gostr \<Rightarrow> int \<Rightarrow> duration \<Rightarrow> 's \<Rightarrow> gostr option \<times> 's"
  qs_GetRemaining :: "gostr \<Rightarrow> int \<Rightarrow> 's \<Rightarrow> gostr + int"
  qs_AcquireBurst :: "gostr \<Rightarrow> int \<Rightarrow> duration \<Rightarrow> 's \<Rightarrow> (gostr + bool) \<times> 's"
  qs_ReleaseBurst :: "gostr \<Rightarrow> 's \<Rightarrow> gostr option \<times> 's"
  qs_IncrementConcurrent :: "gostr \<Rightarrow> 's \<Rightarrow> (gostr + int) \<times> 's"
  qs_DecrementConcurrent :: "gostr \<Rightarrow> 's \<Rightarrow> gostr option \<times> 's"
  qs_GetConcurrentCount :: "gostr \<Rightarrow> 's \<Rightarrow> gostr + int"
  qs_Ping :: "'s \<Rightarrow> gostr option"
  qs_Close :: "'s \<Rightarrow> gostr option \<times> 's"

text \<open>The order in which \<open>GetCountWithWindow\<close> ranges over its map is an argument.\<close>

definition rl_mem_storage :: "gostr list \<Rightarrow> rl_mem quota_storage" where
  "rl_mem_storage order = \<lparr>qs_IncrementCount = rlm_IncrementCount, qs_GetCount = rlm_GetCount,
     qs_GetCountWithWindow = rlm_GetCountWithWindow order, qs_SetCount = rlm_SetCount,
     qs_GetRemaining = rlm_GetRemaining, qs_AcquireBurst = rlm_AcquireBurst,
     qs_ReleaseBurst = rlm_ReleaseBurst, qs_IncrementConcurrent = rlm_IncrementConcurrent,
     qs_DecrementConcurrent = rlm_DecrementConcurrent,
     qs_GetConcurrentCount = rlm_GetConcurrentCount, qs_Ping = rlm_Ping, qs_Close = rlm_Close\<rparr>"

end
