(* ===== verification/Rl_Manager.thy ===== *)
theory Rl_Manager
  imports Rl_Storage
begin

text \<open>
  \<open>internal/ratelimit/manager.go\<close>: keys, the sliding-window limiter over a quota storage
  and the manager that checks the limits of all scopes of a request. The token-bucket
  limiter, which computes in floating point, is not modelled.

  \<open>int(d.Seconds())\<close> truncates a duration to whole seconds; for durations below 48 days
  the float in between is close enough not to reach the next integer.
\<close>

definition ScopeGlobal :: gostr where "ScopeGlobal = ''global''"
definition ScopeTenant :: gostr where "ScopeTenant = ''tenant''"
definition ScopeUser :: gostr where "ScopeUser = ''user''"
definition ScopeSkill :: gostr where "ScopeSkill = ''skill''"
definition ScopeAPIKey :: gostr where "ScopeAPIKey = ''apikey''"

lemmas scope_names = ScopeGlobal_def ScopeTenant_def ScopeUser_def ScopeSkill_def ScopeAPIKey_def

section \<open>Keys\<close>

definition BuildKey :: "gostr \<Rightarrow> gostr \<Rightarrow> gostr \<Rightarrow> gostr \<Rightarrow> gostr" where
  "BuildKey scope tenantID identifier window =
     ''rate'' @ '':'' @ scope @ '':'' @ tenantID @ '':'' @ identifier @ '':'' @ window"

definition BuildTenantKey :: "gostr \<Rightarrow> gostr \<Rightarrow> gostr" where
  "BuildTenantKey tenantID window = BuildKey ScopeTenant tenantID ''global'' window"

definition BuildUserKey :: "gostr \<Rightarrow> gostr \<Rightarrow> gostr \<Rightarrow> gostr" where
  "BuildUserKey tenantID userID window = BuildKey ScopeUser tenantID userID window"

definition BuildSkillKey :: "gostr \<Rightarrow> gostr \<Rightarrow> gostr \<Rightarrow> gostr" where
  "BuildSkillKey tenantID skillID window = BuildKey ScopeSkill tenantID skillID window"

definition BuildAPIKeyKey :: "gostr \<Rightarrow> gostr \<Rightarrow> gostr" where
  "BuildAPIKeyKey apiKeyHash window = BuildKey ScopeAPIKey ''global'' apiKeyHash window"

definition BuildGlobalKey :: "gostr \<Rightarrow> gostr" where
  "BuildGlobalKey window = BuildKey ScopeGlobal ''global'' ''global'' window"

lemmas build_keys = BuildTenantKey_def BuildUserKey_def BuildSkillKey_def BuildAPIKeyKey_def

section \<open>The limiter\<close>

definition seconds_of :: "duration \<Rightarrow> int" where
  "seconds_of d = (if d < 0 then - ((- d) div second) else d div second)"

definition unix_seconds :: "gtime \<Rightarrow> int" where
  "unix_seconds t = t div second - 62135596800"

definition sw_Check :: "'s quota_storage \<Rightarrow> gtime \<Rightarrow> gostr \<Rightarrow> int \<Rightarrow> duration \<Rightarrow> 's
    \<Rightarrow> (gostr + rl_result) \<times> 's" where
  "sw_Check st now key limit window s =
     (let windowStart = time_add now (- window); windowEnd = now in
      case qs_GetCountWithWindow st key windowStart windowEnd s of
        Inl err \<Rightarrow> (Inl (''failed to get count: '' @ err), s)
      | Inr count \<Rightarrow>
          if count \<ge> limit then
            let oldestKey = key @ '':oldest'';
                oldestStr = (case qs_GetCountWithWindow st oldestKey windowStart windowEnd s of
                  Inr n \<Rightarrow> n | Inl _ \<Rightarrow> 0);
                retryAfter = (if oldestStr > 0
                  then let oldest = time_add windowStart oldestStr;
                           r = seconds_of (time_sub (time_add oldest window) now)
                       in if r < 0 then 0 else r
                  else seconds_of window)
            in (Inr \<lparr>rlr_Allowed = False, rlr_Limit = limit, rlr_Remaining = 0,
                  rlr_ResetAt = unix_seconds (time_add now (retryAfter * second)),
                  rlr_RetryAfter = retryAfter, rlr_Scope = '''', rlr_Tier = '''', rlr_Used = count,
                  rlr_ResetInSeconds = 0\<rparr>, s)
          else (case qs_IncrementCount st now key window s of
              (Inl err, s) \<Rightarrow> (Inl (''failed to increment count: '' @ err), s)
            | (Inr newCount, s) \<Rightarrow>
                (Inr \<lparr>rlr_Allowed = True, rlr_Limit = limit, rlr_Remaining = limit - newCount,
                   rlr_ResetAt = unix_seconds (time_add now window), rlr_RetryAfter = 0,
                   rlr_Scope = '''', rlr_Tier = '''', rlr_Used = newCount,
                   rlr_ResetInSeconds = seconds_of window\<rparr>, s)))"

definition sw_GetStatus :: "'s quota_storage \<Rightarrow> gtime \<Rightarrow> gostr \<Rightarrow> int \<Rightarrow> duration \<Rightarrow> 's
    \<Rightarrow> gostr + rl_result" where
  "sw_GetStatus st now key limit window s =
     (let windowStart = time_add now (- window); windowEnd = now in
      case qs_GetCountWithWindow st key windowStart windowEnd s of
        Inl err \<Rightarrow> Inl (''failed to get count: '' @ err)
      | Inr count \<Rightarrow>
          let remaining = limit - count;
              remaining = (if remaining < 0 then 0 else remaining)
          in Inr \<lparr>rlr_Allowed = True, rlr_Limit = limit, rlr_Remaining = remaining,
               rlr_ResetAt = unix_seconds (time_add now window), rlr_RetryAfter = 0,
               rlr_Scope = '''', rlr_Tier = '''', rlr_Used = count,
               rlr_ResetInSeconds = seconds_of window\<rparr>)"

section \<open>The quota manager\<close>

record 's quota_manager =
  qm_storage :: "'s quota_storage"
  qm_config :: rl_config
  qm_tiers :: "(gostr, tier_config) gomap"

definition NewQuotaManager :: "'s quota_storage \<Rightarrow> rl_config option \<Rightarrow> 's quota_manager" where
  "NewQuotaManager st config = \<lparr>qm_storage = st,
     qm_config = (case config of None \<Rightarrow> rl_DefaultRateLimitConfig | Some c \<Rightarrow> c),
     qm_tiers = DefaultTierConfigs\<rparr>"

definition unlimited_result :: rl_result where
  "unlimited_result = \<lparr>rlr_Allowed = True, rlr_Limit = 0, rlr_Remaining = 0, rlr_ResetAt = 0,
     rlr_RetryAfter = 0, rlr_Scope = '''', rlr_Tier = '''', rlr_Used = 0, rlr_ResetInSeconds = 0\<rparr>"

text \<open>
  The four per-scope checks differ in their key only. A tier the map does not hold reads
  as the zero configuration.
\<close>

definition check_scope :: "'s quota_manager \<Rightarrow> gtime \<Rightarrow> gostr \<Rightarrow> gostr \<Rightarrow> 's
    \<Rightarrow> (gostr + rl_result) \<times> 's" where
  "check_scope q now key tier s =
     (let tierConfig = map_get zero_tier_config (qm_tiers q) tier in
      if \<not> tc_Enabled tierConfig then (Inr unlimited_result, s)
      else sw_Check (qm_storage q) now key (tc_RequestsPerMin tierConfig) minute s)"

definition CheckTenantLimit :: "'s quota_manager \<Rightarrow> gtime \<Rightarrow> gostr \<Rightarrow> gostr \<Rightarrow> 's
    \<Rightarrow> (gostr + rl_result) \<times> 's" where
  "CheckTenantLimit q now tenantID tier s = check_scope q now (BuildTenantKey tenantID ''min'') tier s"

definition CheckUserLimit :: "'s quota_manager \<Rightarrow> gtime \<Rightarrow> gostr \<Rightarrow> gostr \<Rightarrow> gostr \<Rightarrow> 's
    \<Rightarrow> (gostr + rl_result) \<times> 's" where
  "CheckUserLimit q now tenantID userID tier s =
     check_scope q now (BuildUserKey tenantID userID ''min'') tier s"

definition CheckSkillLimit :: "'s quota_manager \<Rightarrow> gtime \<Rightarrow> gostr \<Rightarrow> gostr \<Rightarrow> gostr \<Rightarrow> 's
    \<Rightarrow> (gostr + rl_result) \<times> 's" where
  "CheckSkillLimit q now tenantID skillID tier s =
     check_scope q now (BuildSkillKey tenantID skillID ''min'') tier s"

definition CheckAPIKeyLimit :: "'s quota_manager \<Rightarrow> gtime \<Rightarrow> gostr \<Rightarrow> gostr \<Rightarrow> 's
    \<Rightarrow> (gostr + rl_result) \<times> 's" where
  "CheckAPIKeyLimit q now apiKeyHash tier s =
     check_scope q now (BuildAPIKeyKey apiKeyHash ''min'') tier s"

text \<open>
  One of the optional steps of \<open>CheckAllLimits\<close>: skipped when its identifier is empty;
  an error or a refusal ends the check (\<open>Inl\<close>), otherwise the tenant result carries on
  with the smaller remaining count (\<open>Inr\<close>).
\<close>

definition scope_step :: "bool \<Rightarrow> gostr \<Rightarrow> gostr \<Rightarrow> gostr \<Rightarrow> ('s \<Rightarrow> (gostr + rl_result) \<times> 's)
    \<Rightarrow> rl_result \<Rightarrow> 's \<Rightarrow> ((gostr + rl_result) + rl_result) \<times> 's" where
  "scope_step present scope tier what check acc s =
     (if \<not> present then (Inr acc, s)
      else case check s of
        (Inl err, s) \<Rightarrow> (Inl (Inl (what @ '' limit check failed: '' @ err)), s)
      | (Inr res, s) \<Rightarrow>
          if \<not> rlr_Allowed res then (Inl (Inr (res\<lparr>rlr_Scope := scope, rlr_Tier := tier\<rparr>)), s)
          else (Inr (if rlr_Remaining res < rlr_Remaining acc
                     then acc\<lparr>rlr_Remaining := rlr_Remaining res\<rparr> else acc), s))"

definition CheckAllLimits :: "'s quota_manager \<Rightarrow> gtime \<Rightarrow> gostr \<Rightarrow> gostr \<Rightarrow> gostr \<Rightarrow> gostr \<Rightarrow> gostr
    \<Rightarrow> 's \<Rightarrow> (gostr + rl_result) \<times> 's" where
  "CheckAllLimits q now tenantID userID skillID apiKeyHash tier s =
     (if rlc_BypassLimits (qm_config q) then (Inr (unlimited_result\<lparr>rlr_Tier := tier\<rparr>), s)
      else case CheckTenantLimit q now tenantID tier s of
        (Inl err, s) \<Rightarrow> (Inl (''tenant limit check failed: '' @ err), s)
      | (Inr tenantResult, s) \<Rightarrow>
          if \<not> rlr_Allowed tenantResult
          then (Inr (tenantResult\<lparr>rlr_Scope := ScopeTenant, rlr_Tier := tier\<rparr>), s)
          else case scope_step (userID \<noteq> '''') ScopeUser tier ''user''
              (CheckUserLimit q now tenantID userID tier) tenantResult s of
            (Inl r, s) \<Rightarrow> (r, s)
          | (Inr acc, s) \<Rightarrow>
              (case scope_step (skillID \<noteq> '''') ScopeSkill tier ''skill''
                  (CheckSkillLimit q now tenantID skillID tier) acc s of
                (Inl r, s) \<Rightarrow> (r, s)
              | (Inr acc, s) \<Rightarrow>
                  (case scope_step (apiKeyHash \<noteq> '''') ScopeAPIKey tier ''api key''
                      (CheckAPIKeyLimit q now apiKeyHash tier) acc s of
                    (Inl r, s) \<Rightarrow> (r, s)
                  | (Inr acc, s) \<Rightarrow>
                      (Inr (acc\<lparr>rlr_Scope := ScopeGlobal, rlr_Tier := tier\<rparr>), s))))"

definition GetTierStatus :: "'s quota_manager \<Rightarrow> gtime \<Rightarrow> gostr \<Rightarrow> gostr \<Rightarrow> gostr \<Rightarrow> 's
    \<Rightarrow> gostr + rl_info" where
  "GetTierStatus q now tenantID userID tier s =
     (let tierConfig = map_get zero_tier_config (qm_tiers q) tier;
          limit = tc_RequestsPerMin tierConfig
      in case sw_GetStatus (qm_storage q) now (BuildTenantKey tenantID ''min'') limit minute s of
        Inl err \<Rightarrow> Inl err
      | Inr tenantStatus \<Rightarrow>
          (case (if userID \<noteq> ''''
                 then map_sum id Some (sw_GetStatus (qm_storage q) now
                   (BuildUserKey tenantID userID ''min'') limit minute s)
                 else Inr None) of
             Inl err \<Rightarrow> Inl err
           | Inr userStatus \<Rightarrow>
               let remaining = (case userStatus of
                     None \<Rightarrow> rlr_Remaining tenantStatus
                   | Some u \<Rightarrow> if rlr_Remaining u < rlr_Remaining tenantStatus
                       then rlr_Remaining u else rlr_Remaining tenantStatus)
               in Inr \<lparr>rli_Limit = rlr_Limit tenantStatus, rli_Remaining = remaining,
                    rli_Reset = rlr_ResetAt tenantStatus,
                    rli_ResetInSeconds = rlr_ResetInSeconds tenantStatus, rli_RetryAfter = 0,
                    rli_Tier = tier, rli_Scope = ScopeTenant,
                    rli_RequestsPerMin = tc_RequestsPerMin tierConfig,
                    rli_RequestsPerHour = tc_RequestsPerHour tierConfig,
                    rli_RequestsPerDay = tc_RequestsPerDay tierConfig\<rparr>))"

definition SetTierLimit :: "gostr \<Rightarrow> tier_config \<Rightarrow> 's quota_manager \<Rightarrow> 's quota_manager" where
  "SetTierLimit tier config q = q\<lparr>qm_tiers := (qm_tiers q)(tier \<mapsto> config)\<rparr>"

definition qm_HealthCheck :: "'s quota_manager \<Rightarrow> 's \<Rightarrow> gostr option" where
  "qm_HealthCheck q s = qs_Ping (qm_storage q) s"

definition TierToInt :: "gostr \<Rightarrow> int" where
  "TierToInt tier = (if tier = rlTierFree then 0 else if tier = rlTierPro then 1
     else if tier = rlTierEnterprise then 2 else if tier = rlTierUnlimited then 3 else 0)"

definition IntToTier :: "int \<Rightarrow> gostr" where
  "IntToTier i = (if i = 0 then rlTierFree else if i = 1 then rlTierPro
     else if i = 2 then rlTierEnterprise else if i = 3 then rlTierUnlimited else rlTierFree)"

section \<open>What the limiter relies on\<close>

text \<open>
  The contract of the storage as the limiter uses it, over an abstraction \<open>total\<close>: the
  count the storage reports for a key does not depend on the window asked for, and an
  increment adds one to its key and nothing to any other. It holds for the keys of a set
  \<open>K\<close> that are not mixed up with other keys of the storage, which is what \<open>clean\<close> says.
\<close>

locale counter_store =
  fixes st :: "'s quota_storage"
    and total :: "'s \<Rightarrow> gostr \<Rightarrow> int"
    and clean :: "gostr set \<Rightarrow> 's \<Rightarrow> bool"
  assumes get_total: "clean K s \<Longrightarrow> k \<in> K \<Longrightarrow> qs_GetCountWithWindow st k a b s = Inr (total s k)"
    and increment_ok: "\<exists>n. fst (qs_IncrementCount st now k w s) = Inr n"
    and increment_total: "total (snd (qs_IncrementCount st now k w s)) = (total s)(k := total s k + 1)"
    and increment_clean: "clean K s \<Longrightarrow> k \<in> K \<Longrightarrow> clean K (snd (qs_IncrementCount st now k w s))"
begin

lemma check_total:
  assumes "clean K s" "k \<in> K"
  obtains r s' where "sw_Check st now k limit w s = (Inr r, s')" "clean K s'"
    "rlr_Allowed r = (total s k < limit)"
    "total s' = (if total s k < limit then (total s)(k := total s k + 1) else total s)"
proof (cases "total s k < limit")
  case True
  obtain n where "fst (qs_IncrementCount st now k w s) = Inr n" using increment_ok by blast
  moreover have "clean K (snd (qs_IncrementCount st now k w s))"
    using assms by (rule increment_clean)
  moreover have "total (snd (qs_IncrementCount st now k w s)) = (total s)(k := total s k + 1)"
    by (rule increment_total)
  ultimately show ?thesis
    using True assms by (intro that) (auto simp: sw_Check_def get_total Let_def prod_eq_iff
        split: prod.splits)
next
  case False
  then show ?thesis
    using assms by (intro that) (auto simp: sw_Check_def get_total Let_def)
qed

end

definition rlm_total :: "rl_mem \<Rightarrow> gostr \<Rightarrow> int" where
  "rlm_total s k = map_get 0 (rm_counters s) k"

definition rlm_clean :: "gostr set \<Rightarrow> rl_mem \<Rightarrow> bool" where
  "rlm_clean K s \<longleftrightarrow> (\<forall>k \<in> K. \<forall>k' \<in> K. prefix k k' \<longrightarrow> k = k')
     \<and> (\<forall>k \<in> K. \<forall>k'. rm_data s k' \<noteq> None \<longrightarrow> prefix k k' \<longrightarrow> rm_counters s k \<noteq> None)"

lemma rlm_get_total:
  assumes "rlm_clean K s" "k \<in> K"
  shows "rlm_GetCountWithWindow order k a b s = Inr (rlm_total s k)"
proof (cases "rm_counters s k")
  case None
  with assms have "\<not> prefix k k'" if "rm_data s k' = Some e" for k' e
    using that by (auto simp: rlm_clean_def)
  then have "filter (\<lambda>(k', entry). prefix k k' \<and> a < re_Timestamp entry
      \<and> re_Timestamp entry < b + second) (range_of order (rm_data s)) = []"
    by (auto simp: filter_empty_conv set_range_of)
  with None show ?thesis by (simp add: rlm_GetCountWithWindow_def rlm_total_def map_get_def)
next
  case (Some n)
  then show ?thesis by (simp add: rlm_GetCountWithWindow_def rlm_total_def)
qed

lemma rlm_increment_fields:
  "\<exists>n. fst (rlm_IncrementCount now k w s) = Inr n"
  "rm_counters (snd (rlm_IncrementCount now k w s)) = (rm_counters s)(k \<mapsto> rlm_total s k + 1)"
  "rm_data (snd (rlm_IncrementCount now k w s)) k' \<noteq> None \<Longrightarrow> k' = k \<or> rm_data s k' \<noteq> None"
  by (auto simp: rlm_IncrementCount_def rlm_cleanOldEntriesLocked_def counter_add_def rlm_total_def
      Let_def split: option.splits if_splits)

lemma rlm_increment_total:
  "rlm_total (snd (rlm_IncrementCount now k w s)) = (rlm_total s)(k := rlm_total s k + 1)"
  by (simp add: rlm_total_def [abs_def] rlm_increment_fields(2) fun_eq_iff)

lemma rlm_increment_clean:
  assumes "rlm_clean K s" "k \<in> K"
  shows "rlm_clean K (snd (rlm_IncrementCount now k w s))"
  unfolding rlm_clean_def
proof (intro conjI ballI allI impI)
  fix a b assume "a \<in> K" "b \<in> K" "prefix a b"
  then show "a = b" using assms(1) by (simp add: rlm_clean_def)
next
  fix a b
  assume a: "a \<in> K" "rm_data (snd (rlm_IncrementCount now k w s)) b \<noteq> None" "prefix a b"
  from rlm_increment_fields(3) [OF a(2)] have "b = k \<or> rm_data s b \<noteq> None" .
  with a assms have "a = k \<or> rm_counters s a \<noteq> None" by (auto simp: rlm_clean_def)
  then show "rm_counters (snd (rlm_IncrementCount now k w s)) a \<noteq> None"
    by (auto simp: rlm_increment_fields(2))
qed

interpretation rlm: counter_store "rl_mem_storage order" rlm_total rlm_clean for order
  by unfold_locales
    (simp_all add: rl_mem_storage_def rlm_get_total rlm_increment_clean rlm_increment_total
      rlm_increment_fields(1))

section \<open>Runs and the specification of a combined check\<close>

primrec sw_run :: "'s quota_storage \<Rightarrow> gostr \<Rightarrow> int \<Rightarrow> duration \<Rightarrow> gtime list \<Rightarrow> 's \<Rightarrow> bool list" where
  "sw_run st k limit w [] s = []"
| "sw_run st k limit w (t # ts) s =
     (case fst (sw_Check st t k limit w s) of Inr r \<Rightarrow> rlr_Allowed r | Inl _ \<Rightarrow> False)
       # sw_run st k limit w ts (snd (sw_Check st t k limit w s))"

lemma sw_run_total:
  assumes "rlm_clean K s" "k \<in> K"
  shows "sw_run (rl_mem_storage order) k limit w ts s
    = map (\<lambda>i. rlm_total s k + int i < limit) [0..<length ts]"
  using assms(1)
proof (induction ts arbitrary: s)
  case Nil
  then show ?case by simp
next
  case (Cons t ts)
  from rlm.check_total [OF Cons.prems assms(2), of order t limit w] obtain r s' where
    c: "sw_Check (rl_mem_storage order) t k limit w s = (Inr r, s')" "rlm_clean K s'"
      "rlr_Allowed r = (rlm_total s k < limit)"
      "rlm_total s' = (if rlm_total s k < limit then (rlm_total s)(k := rlm_total s k + 1)
         else rlm_total s)" .
  with Cons.IH [OF c(2)] show ?case
    unfolding length_Cons upt_shift by (auto simp: comp_def algebra_simps)
qed

text \<open>
  A combined check of several keys against one limit, over the totals alone: the keys
  are counted in order until one is found at its limit.
\<close>

primrec spec_check :: "int \<Rightarrow> gostr list \<Rightarrow> (gostr \<Rightarrow> int) \<Rightarrow> bool \<times> (gostr \<Rightarrow> int)" where
  "spec_check limit [] tot = (True, tot)"
| "spec_check limit (k # ks) tot =
     (if tot k < limit then spec_check limit ks (tot(k := tot k + 1)) else (False, tot))"

definition request_keys :: "gostr \<Rightarrow> gostr \<Rightarrow> gostr \<Rightarrow> gostr \<Rightarrow> gostr list" where
  "request_keys tenantID userID skillID apiKeyHash =
     BuildTenantKey tenantID ''min''
     # (if userID \<noteq> '''' then [BuildUserKey tenantID userID ''min''] else [])
     @ (if skillID \<noteq> '''' then [BuildSkillKey tenantID skillID ''min''] else [])
     @ (if apiKeyHash \<noteq> '''' then [BuildAPIKeyKey apiKeyHash ''min''] else [])"

abbreviation mem_manager :: "gostr list \<Rightarrow> rl_config \<Rightarrow> (gostr, tier_config) gomap \<Rightarrow> rl_mem quota_manager" where
  "mem_manager order cfg tiers \<equiv>
     \<lparr>qm_storage = rl_mem_storage order, qm_config = cfg, qm_tiers = tiers\<rparr>"

lemma check_scope_total:
  assumes "rlm_clean K s" "k \<in> K" "tiers tier = Some tc" "tc_Enabled tc"
  obtains r s' where "check_scope (mem_manager order cfg tiers) now k tier s = (Inr r, s')" "rlm_clean K s'"
    "rlr_Allowed r = (rlm_total s k < tc_RequestsPerMin tc)"
    "rlm_total s' = (if rlm_total s k < tc_RequestsPerMin tc
       then (rlm_total s)(k := rlm_total s k + 1) else rlm_total s)"
  using rlm.check_total [OF assms(1,2), of order now "tc_RequestsPerMin tc" minute] assms(3,4)
  by (simp add: check_scope_def map_get_def) blast

lemma spec_check_append:
  "spec_check limit (ks @ ks') tot =
     (if fst (spec_check limit ks tot) then spec_check limit ks' (snd (spec_check limit ks tot))
      else (False, snd (spec_check limit ks tot)))"
  by (induction ks arbitrary: tot) auto

text \<open>A step of the combined check does what the specification does with its keys.\<close>

definition step_refines :: "int \<Rightarrow> gostr set \<Rightarrow> gostr list \<Rightarrow> rl_mem
    \<Rightarrow> ((gostr + rl_result) + rl_result) \<times> rl_mem \<Rightarrow> bool" where
  "step_refines limit K ks s R \<longleftrightarrow>
     (\<exists>r s'. R = (Inl (Inr r), s') \<and> \<not> rlr_Allowed r \<and> rlm_clean K s'
        \<and> spec_check limit ks (rlm_total s) = (False, rlm_total s'))
     \<or> (\<exists>acc s'. R = (Inr acc, s') \<and> rlr_Allowed acc \<and> rlm_clean K s'
        \<and> spec_check limit ks (rlm_total s) = (True, rlm_total s'))"

lemma scope_step_refines:
  assumes "rlm_clean K s" "present \<Longrightarrow> k \<in> K" "tiers tier = Some tc" "tc_Enabled tc" "rlr_Allowed acc"
  shows "step_refines (tc_RequestsPerMin tc) K (if present then [k] else []) s
    (scope_step present scope tier what (check_scope (mem_manager order cfg tiers) now k tier) acc s)"
proof (cases present)
  case False
  with assms show ?thesis by (simp add: step_refines_def scope_step_def)
next
  case True
  from check_scope_total [where tiers = tiers and tier = tier and order = order and cfg = cfg
      and now = now, OF assms(1) assms(2) [OF True] assms(3,4)] obtain r s' where
    "check_scope (mem_manager order cfg tiers) now k tier s = (Inr r, s')" "rlm_clean K s'"
      "rlr_Allowed r = (rlm_total s k < tc_RequestsPerMin tc)"
      "rlm_total s' = (if rlm_total s k < tc_RequestsPerMin tc
         then (rlm_total s)(k := rlm_total s k + 1) else rlm_total s)" .
  with True assms(5) show ?thesis by (auto simp: step_refines_def scope_step_def)
qed

definition check_refines :: "int \<Rightarrow> gostr set \<Rightarrow> gostr list \<Rightarrow> rl_mem \<Rightarrow> (gostr + rl_result) \<times> rl_mem \<Rightarrow> bool" where
  "check_refines limit K ks s F \<longleftrightarrow>
     (\<exists>r s'. F = (Inr r, s') \<and> rlm_clean K s' \<and> (rlr_Allowed r, rlm_total s') = spec_check limit ks (rlm_total s))"

lemma step_chain:
  assumes "step_refines L K ks s R"
    and "\<And>acc s'. rlm_clean K s' \<Longrightarrow> rlr_Allowed acc \<Longrightarrow> check_refines L K ks' s' (f acc s')"
  shows "check_refines L K (ks @ ks') s (case R of (Inl r, s) \<Rightarrow> (r, s) | (Inr acc, s) \<Rightarrow> f acc s)"
  using assms(1) unfolding step_refines_def
proof (elim disjE exE conjE)
  fix r s' assume "R = (Inl (Inr r), s')" "\<not> rlr_Allowed r" "rlm_clean K s'"
    "spec_check L ks (rlm_total s) = (False, rlm_total s')"
  then show ?thesis by (simp add: check_refines_def spec_check_append)
next
  fix acc s' assume R: "R = (Inr acc, s')" and "rlr_Allowed acc" "rlm_clean K s'"
    and spec: "spec_check L ks (rlm_total s) = (True, rlm_total s')"
  then have "check_refines L K ks' s' (f acc s')" by (intro assms(2))
  then show ?thesis by (simp add: R check_refines_def spec_check_append spec)
qed

lemma check_all_total:
  assumes "rlm_clean K s" "set (request_keys ten usr skl api) \<subseteq> K"
    and "tiers tier = Some tc" "tc_Enabled tc" "\<not> rlc_BypassLimits cfg"
  shows "check_refines (tc_RequestsPerMin tc) K (request_keys ten usr skl api) s
    (CheckAllLimits (mem_manager order cfg tiers) now ten usr skl api tier s)"
proof -
  let ?K = K and ?q = "mem_manager order cfg tiers"
  let ?L = "tc_RequestsPerMin tc" and ?T = "BuildTenantKey ten ''min''"
  have mem: "?T \<in> ?K" "usr \<noteq> '''' \<Longrightarrow> BuildUserKey ten usr ''min'' \<in> ?K"
    "skl \<noteq> '''' \<Longrightarrow> BuildSkillKey ten skl ''min'' \<in> ?K" "api \<noteq> '''' \<Longrightarrow> BuildAPIKeyKey api ''min'' \<in> ?K"
    using assms(2) by (auto simp: request_keys_def)
  have step: "step_refines ?L ?K (if present then [k] else []) s1
      (scope_step present scope tier what (check_scope ?q now k tier) acc s1)"
    if "rlm_clean ?K s1" "present \<Longrightarrow> k \<in> ?K" "rlr_Allowed acc" for s1 present k scope what acc
    using that by (intro scope_step_refines assms(3,4))
  from check_scope_total [where tiers = tiers and tier = tier and order = order and cfg = cfg
      and now = now, OF assms(1) mem(1) assms(3,4)] obtain r0 s0 where
    t: "check_scope ?q now ?T tier s = (Inr r0, s0)" "rlm_clean ?K s0"
      "rlr_Allowed r0 = (rlm_total s ?T < ?L)"
      "rlm_total s0 = (if rlm_total s ?T < ?L then (rlm_total s)(?T := rlm_total s ?T + 1)
         else rlm_total s)" by blast
  note defs = CheckAllLimits_def CheckTenantLimit_def CheckUserLimit_def [abs_def]
    CheckSkillLimit_def [abs_def] CheckAPIKeyLimit_def [abs_def]
  show ?thesis
  proof (cases "rlr_Allowed r0")
    case False
    with t assms(5) show ?thesis by (auto simp: defs request_keys_def check_refines_def)
  next
    case True
    let ?U = "if usr \<noteq> '''' then [BuildUserKey ten usr ''min''] else []"
    let ?S = "if skl \<noteq> '''' then [BuildSkillKey ten skl ''min''] else []"
    let ?A = "if api \<noteq> '''' then [BuildAPIKeyKey api ''min''] else []"
    define R1 where "R1 = scope_step (usr \<noteq> '''') ScopeUser tier ''user''
      (check_scope ?q now (BuildUserKey ten usr ''min'') tier) r0 s0"
    define R2 where "R2 acc s = scope_step (skl \<noteq> '''') ScopeSkill tier ''skill''
      (check_scope ?q now (BuildSkillKey ten skl ''min'') tier) acc s" for acc s
    define R3 where "R3 acc s = scope_step (api \<noteq> '''') ScopeAPIKey tier ''api key''
      (check_scope ?q now (BuildAPIKeyKey api ''min'') tier) acc s" for acc s
    have r1: "step_refines ?L ?K ?U s0 R1"
      unfolding R1_def using t(2) mem(2) True by (rule step)
    have r2: "step_refines ?L ?K ?S s1 (R2 acc s1)" if "rlm_clean ?K s1" "rlr_Allowed acc" for acc s1
      unfolding R2_def using that(1) mem(3) that(2) by (rule step)
    have r3: "step_refines ?L ?K ?A s1 (R3 acc s1)" if "rlm_clean ?K s1" "rlr_Allowed acc" for acc s1
      unfolding R3_def using that(1) mem(4) that(2) by (rule step)
    have "check_refines ?L ?K (?U @ ?S @ ?A @ []) s0 (case R1 of (Inl r, s) \<Rightarrow> (r, s)
        | (Inr acc, s) \<Rightarrow> (case R2 acc s of (Inl r, s) \<Rightarrow> (r, s)
        | (Inr acc, s) \<Rightarrow> (case R3 acc s of (Inl r, s) \<Rightarrow> (r, s)
        | (Inr acc, s) \<Rightarrow> (Inr (acc\<lparr>rlr_Scope := ScopeGlobal, rlr_Tier := tier\<rparr>), s))))"
      by (intro step_chain [OF r1] step_chain [OF r2] step_chain [OF r3])
        (simp_all add: check_refines_def)
    also have "(case R1 of (Inl r, s) \<Rightarrow> (r, s)
        | (Inr acc, s) \<Rightarrow> (case R2 acc s of (Inl r, s) \<Rightarrow> (r, s)
        | (Inr acc, s) \<Rightarrow> (case R3 acc s of (Inl r, s) \<Rightarrow> (r, s)
        | (Inr acc, s) \<Rightarrow> (Inr (acc\<lparr>rlr_Scope := ScopeGlobal, rlr_Tier := tier\<rparr>), s))))
        = CheckAllLimits ?q now ten usr skl api tier s"
      unfolding R1_def R2_def R3_def defs using t(1) True assms(5) by simp
    finally show ?thesis
      using True t(3,4) by (simp add: check_refines_def request_keys_def)
  qed
qed

section \<open>Keys of colon-free identifiers\<close>

lemma prefix_colon:
  assumes "prefix (a @ '':'' @ x) (b @ '':'' @ y)" "CHR '':'' \<notin> set a" "CHR '':'' \<notin> set b"
  shows "a = b \<and> prefix x y"
proof -
  from assms(1) obtain z where z: "b @ CHR '':'' # y = a @ CHR '':'' # (x @ z)"
    by (auto simp: prefix_def)
  have "takeWhile (\<lambda>c. c \<noteq> CHR '':'') (b @ CHR '':'' # y) = b"
    "takeWhile (\<lambda>c. c \<noteq> CHR '':'') (a @ CHR '':'' # (x @ z)) = a"
    using assms(2,3) by (subst takeWhile_append2; auto)+
  with z have "a = b" by metis
  with z show ?thesis by simp
qed

lemma prefix_key_min:
  assumes "prefix (i @ '':'' @ ''min'') (j @ '':'' @ ''min'')" "CHR '':'' \<notin> set i" "CHR '':'' \<notin> set j"
  shows "i = j"
  using prefix_colon [OF assms] by simp

lemma BuildKey_prefix:
  assumes "prefix (BuildKey sc t i ''min'') (BuildKey sc' t' i' ''min'')"
    and "CHR '':'' \<notin> set sc" "CHR '':'' \<notin> set sc'" "CHR '':'' \<notin> set t" "CHR '':'' \<notin> set t'"
    and "CHR '':'' \<notin> set i" "CHR '':'' \<notin> set i'"
  shows "sc = sc' \<and> t = t' \<and> i = i'"
proof -
  from assms(1) have "prefix (sc @ '':'' @ (t @ '':'' @ (i @ '':'' @ ''min'')))
      (sc' @ '':'' @ (t' @ '':'' @ (i' @ '':'' @ ''min'')))"
    by (simp add: BuildKey_def)
  with assms(2,3) have 1: "sc = sc'"
    "prefix (t @ '':'' @ (i @ '':'' @ ''min'')) (t' @ '':'' @ (i' @ '':'' @ ''min''))"
    using prefix_colon by blast+
  from 1(2) assms(4,5) have 2: "t = t'" "prefix (i @ '':'' @ ''min'') (i' @ '':'' @ ''min'')"
    using prefix_colon by blast+
  from prefix_key_min [OF 2(2) assms(6,7)] 1(1) 2(1) show ?thesis by simp
qed

section \<open>Runs of requests\<close>

record rl_request =
  rq_time :: gtime
  rq_tenant :: gostr
  rq_user :: gostr
  rq_skill :: gostr
  rq_apikey :: gostr
  rq_tier :: gostr

definition rq_keys :: "rl_request \<Rightarrow> gostr list" where
  "rq_keys r = request_keys (rq_tenant r) (rq_user r) (rq_skill r) (rq_apikey r)"

definition colon_free :: "rl_request \<Rightarrow> bool" where
  "colon_free r \<longleftrightarrow> CHR '':'' \<notin> set (rq_tenant r) \<union> set (rq_user r) \<union> set (rq_skill r) \<union> set (rq_apikey r)"

definition tier_known :: "(gostr, tier_config) gomap \<Rightarrow> rl_request \<Rightarrow> bool" where
  "tier_known tiers r \<longleftrightarrow> tc_Enabled (map_get zero_tier_config tiers (rq_tier r))"

definition rq_limit :: "(gostr, tier_config) gomap \<Rightarrow> rl_request \<Rightarrow> int" where
  "rq_limit tiers r = tc_RequestsPerMin (map_get zero_tier_config tiers (rq_tier r))"

primrec serve_all :: "'s quota_manager \<Rightarrow> rl_request list \<Rightarrow> 's \<Rightarrow> bool list" where
  "serve_all q [] s = []"
| "serve_all q (r # rs) s =
     (let R = CheckAllLimits q (rq_time r) (rq_tenant r) (rq_user r) (rq_skill r) (rq_apikey r)
        (rq_tier r) s
      in (case fst R of Inr res \<Rightarrow> rlr_Allowed res | Inl _ \<Rightarrow> False) # serve_all q rs (snd R))"

text \<open>The table of counters: a request that bypasses the limits or whose tier is not enabled (as one that is missing) is admitted uncounted.\<close>

primrec spec_serve :: "bool \<Rightarrow> (gostr, tier_config) gomap \<Rightarrow> rl_request list \<Rightarrow> (gostr \<Rightarrow> int) \<Rightarrow> bool list" where
  "spec_serve bypass tiers [] tot = []"
| "spec_serve bypass tiers (r # rs) tot =
     (let (ok, tot) = (if bypass \<or> \<not> tier_known tiers r then (True, tot) else spec_check (rq_limit tiers r) (rq_keys r) tot)
      in ok # spec_serve bypass tiers rs tot)"

lemma unlimited_request:
  assumes "rlc_BypassLimits (qm_config q) \<or> \<not> tc_Enabled (map_get zero_tier_config (qm_tiers q) tier)"
  shows "\<exists>r. CheckAllLimits q now ten usr skl api tier s = (Inr r, s) \<and> rlr_Allowed r"
proof (cases "rlc_BypassLimits (qm_config q)")
  case True
  then show ?thesis by (simp add: CheckAllLimits_def unlimited_result_def)
next
  case False
  then have "check_scope q now k tier s = (Inr unlimited_result, s)" for k s
    using assms by (simp add: check_scope_def)
  then show ?thesis
    by (simp add: CheckAllLimits_def CheckTenantLimit_def CheckUserLimit_def [abs_def]
        CheckSkillLimit_def [abs_def] CheckAPIKeyLimit_def [abs_def] scope_step_def unlimited_result_def)
qed

lemma rq_keys_cases:
  assumes "k \<in> set (rq_keys r)" "colon_free r"
  obtains sc t i where "k = BuildKey sc t i ''min''" "CHR '':'' \<notin> set sc" "CHR '':'' \<notin> set t"
    "CHR '':'' \<notin> set i"
  using assms by (fastforce simp: rq_keys_def request_keys_def build_keys scope_names colon_free_def
      split: if_splits)

lemma rlm_clean_new:
  assumes "\<forall>r \<in> set rs. colon_free r"
  shows "rlm_clean (\<Union> (set ` rq_keys ` set rs)) NewInMemoryStorage"
  unfolding rlm_clean_def
proof (intro conjI ballI allI impI)
  fix k k' assume k: "k \<in> \<Union> (set ` rq_keys ` set rs)" "k' \<in> \<Union> (set ` rq_keys ` set rs)" "prefix k k'"
  then obtain r r' where r: "k \<in> set (rq_keys r)" "colon_free r"
    and r': "k' \<in> set (rq_keys r')" "colon_free r'"
    using assms by auto
  from rq_keys_cases [OF r] obtain sc t i where 1: "k = BuildKey sc t i ''min''"
    "CHR '':'' \<notin> set sc" "CHR '':'' \<notin> set t" "CHR '':'' \<notin> set i" .
  from rq_keys_cases [OF r'] obtain sc' t' i' where 2: "k' = BuildKey sc' t' i' ''min''"
    "CHR '':'' \<notin> set sc'" "CHR '':'' \<notin> set t'" "CHR '':'' \<notin> set i'" .
  from k(3) 1 2 BuildKey_prefix [of sc t i sc' t' i'] show "k = k'" by simp
qed (simp add: NewInMemoryStorage_def)

lemma serve_all_refines:
  assumes "rlm_clean K s" "\<forall>r \<in> set rs. set (rq_keys r) \<subseteq> K"
  shows "serve_all (mem_manager order cfg tiers) rs s = spec_serve (rlc_BypassLimits cfg) tiers rs (rlm_total s)"
  using assms
proof (induction rs arbitrary: s)
  case Nil
  then show ?case by simp
next
  case (Cons r rs)
  let ?check = "CheckAllLimits (mem_manager order cfg tiers) (rq_time r) (rq_tenant r) (rq_user r) (rq_skill r) (rq_apikey r) (rq_tier r) s"
  show ?case
  proof (cases "rlc_BypassLimits cfg \<or> \<not> tier_known tiers r")
    case True
    then have "\<exists>res. ?check = (Inr res, s) \<and> rlr_Allowed res" by (intro unlimited_request) (auto simp: tier_known_def)
    then obtain res where "?check = (Inr res, s)" "rlr_Allowed res" by blast
    then show ?thesis using Cons True by simp
  next
    case False
    then obtain tc where tc: "tiers (rq_tier r) = Some tc" "tc_Enabled tc" and b: "\<not> rlc_BypassLimits cfg"
      by (cases "tiers (rq_tier r)") (auto simp: tier_known_def map_get_def zero_tier_config_def)
    from check_all_total [where tiers = tiers and tier = "rq_tier r" and order = order,
        OF Cons.prems(1) _ tc b, of "rq_tenant r" "rq_user r" "rq_skill r" "rq_apikey r" "rq_time r"]
      Cons.prems(2) obtain res s' where
      "?check = (Inr res, s')" "rlm_clean K s'"
      "(rlr_Allowed res, rlm_total s') = spec_check (tc_RequestsPerMin tc) (rq_keys r) (rlm_total s)"
      by (auto simp: check_refines_def rq_keys_def)
    with Cons tc False show ?thesis
      by (simp add: rq_limit_def map_get_def flip: \<open>(rlr_Allowed res, rlm_total s') = _\<close>)
  qed
qed

section \<open>Properties\<close>

text \<open>C8: For requests whose identifiers hold no colon, served one after another, the
  decisions of \<open>CheckAllLimits\<close> over a new in-memory storage are those of a plain table of
  counters: a request passes through the keys tenant, user, skill, API key in this order,
  each is counted while it is below the limit of the tier, and the first one at its limit
  refuses the request (having counted the ones before it). When the configuration bypasses the limits,
  or the tier of the request is missing or not enabled, the request is admitted and counted
  nowhere. The times of the requests do not enter.\<close>

theorem ratelimit_all_refines:
  assumes "\<forall>r \<in> set rs. colon_free r"
  shows "serve_all (mem_manager order cfg tiers) rs NewInMemoryStorage
    = spec_serve (rlc_BypassLimits cfg) tiers rs (\<lambda>_. 0)"
proof -
  have "rlm_total NewInMemoryStorage = (\<lambda>_. 0)"
    by (simp add: fun_eq_iff rlm_total_def NewInMemoryStorage_def map_get_def)
  then show ?thesis
    using serve_all_refines [OF rlm_clean_new, of rs rs order cfg tiers] assms by auto
qed

definition demo_requests :: "rl_request list" where
  "demo_requests = replicate 12 \<lparr>rq_time = 0, rq_tenant = ''acme'', rq_user = ''u1'', rq_skill = '''',
     rq_apikey = ''k'', rq_tier = rlTierFree\<rparr>"

theorem ratelimit_all_refines_witness:
  "serve_all (mem_manager [] rl_DefaultRateLimitConfig DefaultTierConfigs) demo_requests NewInMemoryStorage
    = spec_serve (rlc_BypassLimits rl_DefaultRateLimitConfig) DefaultTierConfigs demo_requests (\<lambda>_. 0)"
  by (rule ratelimit_all_refines) (simp add: demo_requests_def colon_free_def)

text \<open>The sliding window of the limiter never slides over the in-memory storage: of the
  requests against a key, the first \<open>limit\<close> are admitted and every later one is refused,
  at whatever times they arrive and whatever the window is.\<close>

theorem ratelimit_never_recovers:
  "sw_run (rl_mem_storage order) k limit w ts NewInMemoryStorage
    = map (\<lambda>i. int i < limit) [0..<length ts]"
proof -
  have "rlm_clean {k} NewInMemoryStorage" by (simp add: rlm_clean_def NewInMemoryStorage_def)
  from sw_run_total [OF this, of k order limit w ts] show ?thesis
    by (simp add: rlm_total_def NewInMemoryStorage_def)
qed

text \<open>A request of a tier that is not configured is admitted without being counted: the
  missing entry reads as a configuration that is not enabled, and a tier that is not
  enabled has no limit.\<close>

theorem ratelimit_unknown_tier_unlimited:
  assumes "qm_tiers q tier = None"
  shows "\<exists>r. CheckAllLimits q now ten usr skl api tier s = (Inr r, s) \<and> rlr_Allowed r"
  by (rule unlimited_request) (simp add: assms map_get_def zero_tier_config_def)

theorem ratelimit_unknown_tier_unlimited_witness:
  "\<exists>r. CheckAllLimits (NewQuotaManager (rl_mem_storage []) None) 0 ''acme'' ''u1'' '''' '''' ''gold'' NewInMemoryStorage
    = (Inr r, NewInMemoryStorage) \<and> rlr_Allowed r"
  by (rule ratelimit_unknown_tier_unlimited)
    (simp add: NewQuotaManager_def DefaultTierConfigs_def rl_tier_names)

text \<open>A request that a later scope refuses has been counted against the scopes before it.\<close>

lemma ratelimit_refusal_consumes:
  assumes "tot (BuildTenantKey t ''min'') < L" "tot (BuildUserKey t u ''min'') \<ge> L" "u \<noteq> ''''"
  shows "spec_check L (request_keys t u sk ak) tot
    = (False, tot(BuildTenantKey t ''min'' := tot (BuildTenantKey t ''min'') + 1))"
proof -
  have "BuildUserKey t u ''min'' \<noteq> BuildTenantKey t ''min''"
    by (simp add: build_keys BuildKey_def scope_names)
  with assms show ?thesis by (simp add: request_keys_def)
qed

lemma ratelimit_key_collision:
  "BuildUserKey ''a:b'' ''c'' ''min'' = BuildUserKey ''a'' ''b:c'' ''min''"
  by (simp add: BuildUserKey_def BuildKey_def)

lemma tier_int_roundtrip:
  "TierToInt (IntToTier i) = (if 0 \<le> i \<and> i \<le> 3 then i else 0)"
  "tier \<in> {rlTierFree, rlTierPro, rlTierEnterprise, rlTierUnlimited} \<Longrightarrow> IntToTier (TierToInt tier) = tier"
  by (auto simp: TierToInt_def IntToTier_def rl_tier_names)

end
