(* ===== verification/Go_Strings.thy ===== *)
theory Go_Strings
  imports Gw_Prelude "HOL-Library.Sublist"
begin

text \<open>
  The functions of the packages \<open>strings\<close> and \<open>unicode\<close> the gateway uses, on strings as
  lists of bytes.
\<close>

definition has_prefix :: "gostr \<Rightarrow> gostr \<Rightarrow> bool" where
  "has_prefix s p \<longleftrightarrow> prefix p s"

definition trim_prefix :: "gostr \<Rightarrow> gostr \<Rightarrow> gostr" where
  "trim_prefix s p = (if prefix p s then drop (length p) s else s)"

lemma trim_prefix_append [simp]: "trim_prefix (p @ s) p = s"
  by (simp add: trim_prefix_def)

fun str_contains :: "gostr \<Rightarrow> gostr \<Rightarrow> bool" where
  "str_contains [] sub \<longleftrightarrow> sub = []"
| "str_contains (c # s) sub \<longleftrightarrow> prefix sub (c # s) \<or> str_contains s sub"

lemma str_contains_iff: "str_contains s sub \<longleftrightarrow> (\<exists>a b. s = a @ sub @ b)"
proof -
  have "str_contains s sub \<longleftrightarrow> sublist sub s"
    by (induction s) (auto simp: sublist_Cons_right)
  then show ?thesis by (simp add: sublist_def)
qed

text \<open>\<open>s[:strings.LastIndex(s, c)]\<close> where the byte occurs, and \<open>strings.Split(s, c)[0]\<close>.\<close>

definition before_last :: "char \<Rightarrow> gostr \<Rightarrow> gostr" where
  "before_last c s = (if c \<in> set s then rev (tl (dropWhile (\<lambda>x. x \<noteq> c) (rev s))) else s)"

definition before_first :: "char \<Rightarrow> gostr \<Rightarrow> gostr" where
  "before_first c s = takeWhile (\<lambda>x. x \<noteq> c) s"

lemma before_last_append: "c \<notin> set b \<Longrightarrow> before_last c (a @ c # b) = a"
  by (simp add: before_last_def) (subst dropWhile_append2; auto)

text \<open>
  The UTF-8 encodings of the characters \<open>unicode.IsSpace\<close> accepts, and \<open>TrimSpace\<close>, which
  removes them at both ends.
\<close>

definition byte :: "nat \<Rightarrow> char" where "byte n = char_of n"

definition utf8_spaces :: "gostr list" where
  "utf8_spaces =
     map (\<lambda>n. [byte n]) [9, 10, 11, 12, 13, 32]
     @ [[byte 194, byte 133], [byte 194, byte 160], [byte 225, byte 154, byte 128]]
     @ map (\<lambda>n. [byte 226, byte 128, byte n]) [128..<139]
     @ map (\<lambda>n. [byte 226, byte 128, byte n]) [168, 169, 175]
     @ [[byte 226, byte 129, byte 159], [byte 227, byte 128, byte 128]]"

lemma utf8_spaces_code [code]:
  "utf8_spaces =
    [[CHR 0x09], [CHR 0x0A], [CHR 0x0B], [CHR 0x0C], [CHR 0x0D], [CHR 0x20], [CHR 0xC2, CHR 0x85], [CHR
     0xC2, CHR 0xA0], [CHR 0xE1, CHR 0x9A, CHR 0x80], [CHR 0xE2, CHR 0x80, CHR 0x80], [CHR 0xE2, CHR
     0x80, CHR 0x81], [CHR 0xE2, CHR 0x80, CHR 0x82], [CHR 0xE2, CHR 0x80, CHR 0x83], [CHR 0xE2, CHR
     0x80, CHR 0x84], [CHR 0xE2, CHR 0x80, CHR 0x85], [CHR 0xE2, CHR 0x80, CHR 0x86], [CHR 0xE2, CHR
     0x80, CHR 0x87], [CHR 0xE2, CHR 0x80, CHR 0x88], [CHR 0xE2, CHR 0x80, CHR 0x89], [CHR 0xE2, CHR
     0x80, CHR 0x8A], [CHR 0xE2, CHR 0x80, CHR 0xA8], [CHR 0xE2, CHR 0x80, CHR 0xA9], [CHR 0xE2, CHR
     0x80, CHR 0xAF], [CHR 0xE2, CHR 0x81, CHR 0x9F], [CHR 0xE3, CHR 0x80, CHR 0x80]]"
  by (simp add: utf8_spaces_def byte_def upt_conv_Cons) code_simp

lemma utf8_spaces_length: "list_all (\<lambda>p. 0 < length p) utf8_spaces"
  by code_simp

function trim_left :: "gostr list \<Rightarrow> gostr \<Rightarrow> gostr" where
  "trim_left ps s = (case find (\<lambda>p. p \<noteq> [] \<and> prefix p s) ps of
     None \<Rightarrow> s | Some p \<Rightarrow> trim_left ps (drop (length p) s))"
  by pat_completeness auto
termination
proof (relation "measure (\<lambda>(ps, s). length s)")
  fix ps s p assume "find (\<lambda>p. p \<noteq> [] \<and> prefix p s) ps = Some p"
  then have "p \<noteq> []" "prefix p s" by (auto simp: find_Some_iff)
  then have "0 < length p" "length p \<le> length s" by (auto simp: prefix_length_le)
  then show "((ps, drop (length p) s), (ps, s)) \<in> measure (\<lambda>(ps, s). length s)"
    by (cases p; cases s) auto
qed simp

declare trim_left.simps [simp del]

definition trim_space :: "gostr \<Rightarrow> gostr" where
  "trim_space s = rev (trim_left (map rev utf8_spaces) (rev (trim_left utf8_spaces s)))"

text \<open>
  \<open>ToLower\<close> as far as ASCII text in the result goes: ASCII capitals, and the two other
  characters whose lower case is an ASCII letter (U+0130 to i, the Kelvin sign to k).
  Every other character stays outside ASCII, so the result may be compared with, and
  searched for, ASCII strings only, which is all the gateway does with it.
\<close>

definition lower_byte :: "char \<Rightarrow> char" where
  "lower_byte c = (let n = of_char c :: nat in if 65 \<le> n \<and> n \<le> 90 then char_of (n + 32) else c)"

fun to_lower :: "gostr \<Rightarrow> gostr" where
  "to_lower [] = []"
| "to_lower (c # s) =
     (if prefix [byte 196, byte 176] (c # s) then CHR ''i'' # to_lower (tl s)
      else if prefix [byte 226, byte 132, byte 170] (c # s) then CHR ''k'' # to_lower (tl (tl s))
      else lower_byte c # to_lower s)"

lemma to_lower_code [code]:
  "to_lower [] = []"
  "to_lower (c # s) =
     (if prefix [CHR 0xC4, CHR 0xB0] (c # s) then CHR ''i'' # to_lower (tl s)
      else if prefix [CHR 0xE2, CHR 0x84, CHR 0xAA] (c # s) then CHR ''k'' # to_lower (tl (tl s))
      else lower_byte c # to_lower s)"
proof -
  have "byte 196 = CHR 0xC4" "byte 176 = CHR 0xB0" "byte 226 = CHR 0xE2" "byte 132 = CHR 0x84" "byte 170 = CHR 0xAA"
    by code_simp+
  then show "to_lower [] = []" "to_lower (c # s) =
     (if prefix [CHR 0xC4, CHR 0xB0] (c # s) then CHR ''i'' # to_lower (tl s)
      else if prefix [CHR 0xE2, CHR 0x84, CHR 0xAA] (c # s) then CHR ''k'' # to_lower (tl (tl s))
      else lower_byte c # to_lower s)" by simp_all
qed

section \<open>Durations as text\<close>

text \<open>
  \<open>Duration.String\<close>: hours, minutes and seconds with the fraction of a second, or a fraction of
  a smaller unit below one second.
\<close>

fun pad_digits :: "nat \<Rightarrow> int \<Rightarrow> gostr" where
  "pad_digits 0 v = []"
| "pad_digits (Suc p) v = pad_digits p (v div 10) @ [char_of (48 + v mod 10)]"

definition frac_digits :: "nat \<Rightarrow> int \<Rightarrow> gostr" where
  "frac_digits prec v = (let ds = rev (dropWhile (\<lambda>c. c = CHR ''0'') (rev (pad_digits prec v)))
     in if ds = [] then [] else CHR ''.'' # ds)"

definition dur_abs_String :: "int \<Rightarrow> gostr" where
  "dur_abs_String u =
     (if u = 0 then ''0s''
      else if u < 1000 then itoa u @ ''ns''
      else if u < 1000000 then itoa (u div 1000) @ frac_digits 3 (u mod 1000) @ [byte 194, byte 181] @ ''s''
      else if u < 1000000000 then itoa (u div 1000000) @ frac_digits 6 (u mod 1000000) @ ''ms''
      else let s = u div 1000000000; m = s div 60; h = m div 60;
               secs = itoa (s mod 60) @ frac_digits 9 (u mod 1000000000) @ ''s''
           in if m = 0 then secs
              else if h = 0 then itoa (m mod 60) @ ''m'' @ secs
              else itoa h @ ''h'' @ itoa (m mod 60) @ ''m'' @ secs)"

definition dur_String :: "duration \<Rightarrow> gostr" where
  "dur_String d = (if d < 0 then CHR ''-'' # dur_abs_String (- d) else dur_abs_String d)"

lemma dur_String_examples:
  "dur_String (5 * minute) = ''5m0s''" "dur_String 1500000000 = ''1.5s''" "dur_String (-90 * minute) = ''-1h30m0s''"
  "dur_String 0 = ''0s''" "dur_String 2050000 = ''2.05ms''"
  by code_simp+

lemma t_not_digit: "CHR ''t'' \<notin> set (digits n)"
proof
  assume "CHR ''t'' \<in> set (digits n)"
  then obtain d :: nat where "CHR ''t'' = (char_of d :: char)" "d \<le> 57" using set_digits by fastforce
  then have "of_char CHR ''t'' = d" by simp
  with \<open>d \<le> 57\<close> show False by simp
qed

lemma t_not_pad: "CHR ''t'' \<notin> set (pad_digits p v)"
proof (induction p arbitrary: v)
  case (Suc p)
  have "CHR ''t'' \<noteq> char_of (48 + v mod 10)"
  proof
    assume "CHR ''t'' = char_of (48 + v mod 10)"
    then have "of_char CHR ''t'' = 48 + v mod 10" by (simp del: of_char_Char)
    then show False by simp
  qed
  then show ?case using Suc by simp
qed simp

lemma t_not_frac: "CHR ''t'' \<notin> set (frac_digits p v)"
  using t_not_pad [of p v] by (auto simp: frac_digits_def Let_def dest!: set_dropWhileD)

lemma t_not_byte [simp]: "CHR ''t'' \<noteq> byte 194" "CHR ''t'' \<noteq> byte 181"
  by code_simp+

lemma t_not_itoa: "CHR ''t'' \<notin> set (itoa i)"
  by (simp add: itoa_def t_not_digit)

lemma t_not_dur_String: "CHR ''t'' \<notin> set (dur_String d)"
  by (auto simp: dur_String_def dur_abs_String_def Let_def t_not_itoa t_not_frac)

end
