(* ===== verification/Rl_Middleware.thy ===== *)
theory Rl_Middleware
  imports Rl_Manager Go_Strings
begin

text \<open>
  \<open>internal/ratelimit/middleware.go\<close> and \<open>internal/tenancy/tenant.go\<close>: which limits an HTTP
  request is checked against and how many requests may be in flight. A request is its
  header lookup and remote address; \<open>sha\<close> stands for the hexadecimal SHA-256 digest of
  a key. What the context carries (a tenant, an override of the tier) is an argument, and
  a resolver is a function from tenant ids. Calling the next handler and answering with
  an error are the outcomes of a middleware; logging is left out.
\<close>

section \<open>Tenants\<close>

record tenant =
  tn_ID :: gostr
  tn_Slug :: gostr
  tn_Name :: gostr
  tn_Environment :: gostr
  tn_Status :: gostr
  tn_Plan :: gostr
  tn_IsActive :: bool
  tn_Settings :: "(gostr, gostr) gomap"
  tn_OrganizationID :: gostr
  tn_OrganizationSlug :: gostr
  tn_OrganizationName :: gostr

definition tenant_Validate :: "tenant option \<Rightarrow> gostr option" where
  "tenant_Validate tn = (case tn of
     None \<Rightarrow> Some ''nil tenant''
   | Some t \<Rightarrow>
       if tn_ID t = '''' then Some ''tenant ID is required''
       else if tn_Slug t = '''' then Some ''tenant slug is required''
       else if tn_Status t \<noteq> ''active'' then Some ''tenant is not active''
       else if \<not> tn_IsActive t then Some ''tenant is deactivated''
       else None)"

definition IsEnterprise :: "tenant \<Rightarrow> bool" where
  "IsEnterprise t \<longleftrightarrow> tn_Plan t = ''enterprise''"

definition IsProduction :: "tenant \<Rightarrow> bool" where
  "IsProduction t \<longleftrightarrow> tn_Environment t = ''production''"

definition DefaultResolve :: "gostr \<Rightarrow> tenant \<times> gostr option" where
  "DefaultResolve identifier =
     (let identifier = (if identifier = '''' then ''default'' else identifier);
          t = \<lparr>tn_ID = identifier, tn_Slug = identifier, tn_Name = ''Tenant '' @ identifier,
            tn_Environment = ''development'', tn_Status = ''active'', tn_Plan = ''enterprise'',
            tn_IsActive = True, tn_Settings = Map.empty, tn_OrganizationID = '''',
            tn_OrganizationSlug = ''default-org'', tn_OrganizationName = ''Default Organization''\<rparr>
      in (t, tenant_Validate (Some t)))"

section \<open>Identifiers and tiers\<close>

record http_request =
  hr_header :: "gostr \<Rightarrow> gostr"
  hr_remote :: gostr

record identifiers =
  id_TenantID :: gostr
  id_UserID :: gostr
  id_SkillID :: gostr
  id_APIKeyHash :: gostr
  id_IPAddress :: gostr

definition api_key_hash :: "(gostr \<Rightarrow> gostr) \<Rightarrow> gostr \<Rightarrow> gostr" where
  "api_key_hash sha auth =
     (if auth = '''' then ''''
      else if has_prefix auth ''Bearer '' then sha (trim_prefix auth ''Bearer '')
      else if has_prefix auth ''ApiKey '' then sha (trim_prefix auth ''ApiKey '')
      else sha auth)"

definition client_ip :: "gostr \<Rightarrow> gostr \<Rightarrow> gostr" where
  "client_ip remote forwarded =
     (let ip = before_last (CHR '':'') remote
      in if forwarded \<noteq> '''' then trim_space (before_first (CHR '','') forwarded) else ip)"

definition extractIdentifiers :: "(gostr \<Rightarrow> gostr) \<Rightarrow> http_request \<Rightarrow> identifiers" where
  "extractIdentifiers sha r = \<lparr>
     id_TenantID = (if hr_header r ''X-Tenant-ID'' \<noteq> '''' then hr_header r ''X-Tenant-ID''
       else ''default-tenant''),
     id_UserID = hr_header r ''X-User-ID'',
     id_SkillID = hr_header r ''X-Skill-ID'',
     id_APIKeyHash = api_key_hash sha (hr_header r ''Authorization''),
     id_IPAddress = client_ip (hr_remote r) (hr_header r ''X-Forwarded-For'')\<rparr>"

definition tier_of_plan :: "gostr \<Rightarrow> gostr option" where
  "tier_of_plan plan =
     (let p = to_lower plan in
      if p = ''free'' then Some rlTierFree else if p = ''pro'' then Some rlTierPro
      else if p = ''enterprise'' then Some rlTierEnterprise
      else if p = ''unlimited'' then Some rlTierUnlimited else None)"

record rl_context =
  cx_tenant :: "tenant option"
  cx_tierOverride :: "gostr option"

record 's rl_middleware =
  mw_quotaManager :: "'s quota_manager"
  mw_tenantResolver :: "(gostr \<Rightarrow> tenant option) option"
  mw_config :: rl_config

definition NewRateLimitMiddleware :: "'s quota_manager \<Rightarrow> (gostr \<Rightarrow> tenant option) option \<Rightarrow> rl_config option
    \<Rightarrow> 's rl_middleware" where
  "NewRateLimitMiddleware q res config = \<lparr>mw_quotaManager = q, mw_tenantResolver = res,
     mw_config = (case config of None \<Rightarrow> rl_DefaultRateLimitConfig | Some c \<Rightarrow> c)\<rparr>"

text \<open>
  The tier of a request: the plan of the tenant in the context, else that of the resolved
  tenant, else the override, else the default; a plan that names no tier is passed over.
\<close>

definition getTier :: "'s rl_middleware \<Rightarrow> rl_context \<Rightarrow> gostr \<Rightarrow> gostr" where
  "getTier m cx tenantID =
     (case Option.bind (cx_tenant cx) (tier_of_plan \<circ> tn_Plan) of
        Some t \<Rightarrow> t
      | None \<Rightarrow>
          (case Option.bind (mw_tenantResolver m)
               (\<lambda>resolve. Option.bind (resolve tenantID) (tier_of_plan \<circ> tn_Plan)) of
             Some t \<Rightarrow> t
           | None \<Rightarrow>
               (case Option.bind (cx_tierOverride cx) tier_of_plan of
                  Some t \<Rightarrow> t
                | None \<Rightarrow> rlc_DefaultTier (mw_config m))))"

section \<open>The rate limit middleware\<close>

definition rate_headers :: "rl_result \<Rightarrow> (gostr \<times> gostr) list" where
  "rate_headers r =
     [(''X-RateLimit-Limit'', itoa (rlr_Limit r)), (''X-RateLimit-Remaining'', itoa (rlr_Remaining r)),
      (''X-RateLimit-Reset'', itoa (rlr_ResetAt r)), (''X-RateLimit-Used'', itoa (rlr_Used r)),
      (''X-RateLimit-Scope'', rlr_Scope r), (''X-RateLimit-Tier'', rlr_Tier r)]
     @ (if \<not> rlr_Allowed r \<and> rlr_RetryAfter r > 0 then [(''Retry-After'', itoa (rlr_RetryAfter r))] else [])
     @ [(''X-RateLimit-Window'', ''60'')]"

datatype mw_outcome = CallNext "rl_result option" | WriteError int gostr gostr

record mw_answer =
  ma_headers :: "(gostr \<times> gostr) list"
  ma_outcome :: mw_outcome

definition rl_Middleware :: "(gostr \<Rightarrow> gostr) \<Rightarrow> 's rl_middleware \<Rightarrow> gtime \<Rightarrow> rl_context \<Rightarrow> http_request
    \<Rightarrow> 's \<Rightarrow> mw_answer \<times> 's" where
  "rl_Middleware sha m now cx r s =
     (if \<not> rlc_Enabled (mw_config m) then (\<lparr>ma_headers = [], ma_outcome = CallNext None\<rparr>, s)
      else let ids = extractIdentifiers sha r; tier = getTier m cx (id_TenantID ids) in
        case CheckAllLimits (mw_quotaManager m) now (id_TenantID ids) (id_UserID ids) (id_SkillID ids)
            (id_APIKeyHash ids) tier s of
          (Inl err, s) \<Rightarrow> (\<lparr>ma_headers = [], ma_outcome = CallNext None\<rparr>, s)
        | (Inr result, s) \<Rightarrow>
            if \<not> rlr_Allowed result
            then (\<lparr>ma_headers = rate_headers result, ma_outcome = WriteError 429 ''RATE_LIMIT_EXCEEDED''
                    (''Rate limit exceeded. Retry after '' @ itoa (rlr_RetryAfter result) @ '' seconds.'')\<rparr>, s)
            else (\<lparr>ma_headers = rate_headers result, ma_outcome = CallNext (Some result)\<rparr>, s))"

definition GracefulDegradation :: "(gostr \<Rightarrow> gostr) \<Rightarrow> 's rl_middleware \<Rightarrow> gtime \<Rightarrow> rl_context \<Rightarrow> http_request
    \<Rightarrow> 's \<Rightarrow> mw_answer \<times> 's" where
  "GracefulDegradation sha m now cx r s = (case qm_HealthCheck (mw_quotaManager m) s of
     Some err \<Rightarrow> (\<lparr>ma_headers = [(''X-RateLimit-Degraded'', ''true''), (''X-RateLimit-Mode'', ''best-effort'')],
         ma_outcome = CallNext None\<rparr>, s)
   | None \<Rightarrow> rl_Middleware sha m now cx r s)"

definition mw_GetCurrentStatus :: "(gostr \<Rightarrow> gostr) \<Rightarrow> 's rl_middleware \<Rightarrow> gtime \<Rightarrow> rl_context \<Rightarrow> http_request
    \<Rightarrow> 's \<Rightarrow> gostr + rl_info" where
  "mw_GetCurrentStatus sha m now cx r s =
     (let ids = extractIdentifiers sha r
      in GetTierStatus (mw_quotaManager m) now (id_TenantID ids) (id_UserID ids)
           (getTier m cx (id_TenantID ids)) s)"

definition mw_UpdateTierConfig :: "gostr \<Rightarrow> gostr \<Rightarrow> tier_config option \<Rightarrow> 's rl_middleware \<Rightarrow> 's rl_middleware" where
  "mw_UpdateTierConfig tenantID tier customLimits m = (case customLimits of
     None \<Rightarrow> m
   | Some c \<Rightarrow> m\<lparr>mw_quotaManager := SetTierLimit tier c (mw_quotaManager m)\<rparr>)"

section \<open>Requests in flight\<close>

text \<open>
  \<open>WithBurstProtection\<close> and \<open>WithConcurrentLimit\<close> wrap the next handler: a part before it
  that admits or refuses, and a deferred part after it. Each is one storage operation, a
  refusal of the concurrency limit a second one; other requests run in between.
\<close>

definition burst_key :: "identifiers \<Rightarrow> gostr" where
  "burst_key ids = ''burst:'' @ id_TenantID ids @ '':'' @ id_IPAddress ids"

definition concurrent_key :: "identifiers \<Rightarrow> gostr" where
  "concurrent_key ids = ''concurrent:'' @ id_TenantID ids @ '':'' @ id_IPAddress ids"

datatype admission = Admitted | FailOpen | Refused gostr

definition burst_enter :: "'s quota_storage \<Rightarrow> gostr \<Rightarrow> gostr \<Rightarrow> 's \<Rightarrow> admission \<times> 's" where
  "burst_enter st tier key s =
     (case qs_AcquireBurst st key (tc_BurstSize (GetTierConfig tier)) minute s of
        (Inl err, s) \<Rightarrow> (FailOpen, s)
      | (Inr True, s) \<Rightarrow> (Admitted, s)
      | (Inr False, s) \<Rightarrow> (Refused ''BURST_LIMIT_EXCEEDED'', s))"

definition burst_leave :: "'s quota_storage \<Rightarrow> gostr \<Rightarrow> 's \<Rightarrow> 's" where
  "burst_leave st key s = snd (qs_ReleaseBurst st key s)"

definition concurrent_enter :: "'s quota_storage \<Rightarrow> gostr \<Rightarrow> gostr \<Rightarrow> 's \<Rightarrow> admission \<times> 's" where
  "concurrent_enter st tier key s =
     (case qs_IncrementConcurrent st key s of
        (Inl err, s) \<Rightarrow> (FailOpen, s)
      | (Inr count, s) \<Rightarrow>
          (if count > tc_ConcurrentLimit (GetTierConfig tier)
           then Refused ''CONCURRENT_LIMIT_EXCEEDED'' else Admitted, s))"

definition concurrent_leave :: "'s quota_storage \<Rightarrow> gostr \<Rightarrow> 's \<Rightarrow> 's" where
  "concurrent_leave st key s = snd (qs_DecrementConcurrent st key s)"

subsection \<open>Rate checks leave the other counters alone\<close>

lemma sw_Check_counters:
  assumes "k' \<noteq> key"
  shows "rm_counters (snd (sw_Check (rl_mem_storage order) now key limit w s)) k' = rm_counters s k'"
proof -
  obtain n s' where inc: "rlm_IncrementCount now key w s = (Inr n, s')"
    using rlm_increment_fields(1) [of now key w s] by (metis prod.collapse)
  with assms rlm_increment_fields(2) [of now key w s] have "rm_counters s' k' = rm_counters s k'" by simp
  moreover obtain c where "rlm_GetCountWithWindow order key (now - w) now s = Inr c"
    by (simp add: rlm_GetCountWithWindow_def Let_def)
  ultimately show ?thesis using inc by (simp add: sw_Check_def rl_mem_storage_def Let_def)
qed

lemma check_scope_counters:
  "k' \<noteq> key \<Longrightarrow> rm_counters (snd (check_scope (mem_manager order cfg tiers) now key tier s)) k' = rm_counters s k'"
  by (simp add: check_scope_def sw_Check_counters Let_def)

lemma scope_step_counters:
  assumes "\<And>s. rm_counters (snd (check s)) k' = rm_counters s k'"
  shows "rm_counters (snd (scope_step present scope tier what check acc s)) k' = rm_counters s k'"
  using assms [of s] by (auto simp: scope_step_def split: prod.splits sum.splits)

lemma CheckAllLimits_counters:
  assumes "k' \<notin> set (request_keys ten usr skl api)"
  shows "rm_counters (snd (CheckAllLimits (mem_manager order cfg tiers) now ten usr skl api tier s)) k'
    = rm_counters s k'"
proof -
  let ?q = "mem_manager order cfg tiers"
  have t: "rm_counters (snd (CheckTenantLimit ?q now ten tier s)) k' = rm_counters s k'"
    using assms by (simp add: CheckTenantLimit_def check_scope_counters request_keys_def)
  have u: "rm_counters (snd (scope_step (usr \<noteq> '''') sc tier w (CheckUserLimit ?q now ten usr tier) acc s)) k' = rm_counters s k'"
    for sc w acc s
    using assms by (cases "usr = ''''") (auto simp: scope_step_def [of False] CheckUserLimit_def request_keys_def
        intro!: scope_step_counters check_scope_counters)
  have k: "rm_counters (snd (scope_step (skl \<noteq> '''') sc tier w (CheckSkillLimit ?q now ten skl tier) acc s)) k' = rm_counters s k'"
    for sc w acc s
    using assms by (cases "skl = ''''") (auto simp: scope_step_def [of False] CheckSkillLimit_def request_keys_def
        intro!: scope_step_counters check_scope_counters)
  have a: "rm_counters (snd (scope_step (api \<noteq> '''') sc tier w (CheckAPIKeyLimit ?q now api tier) acc s)) k' = rm_counters s k'"
    for sc w acc s
    using assms by (cases "api = ''''") (auto simp: scope_step_def [of False] CheckAPIKeyLimit_def request_keys_def
        intro!: scope_step_counters check_scope_counters)
  have seq: "rm_counters (snd (case R of (Inl r, s) \<Rightarrow> (r, s) | (Inr acc, s) \<Rightarrow> f acc s)) k' = rm_counters s0 k'"
    if "rm_counters (snd R) k' = rm_counters s0 k'"
      "\<And>acc s. rm_counters (snd (f acc s)) k' = rm_counters s k'" for R :: "_ \<times> rl_mem" and f s0
    using that by (auto split: prod.splits sum.splits)
  have "rm_counters (snd (case CheckTenantLimit ?q now ten tier s of
      (Inl err, s) \<Rightarrow> (Inl (g err), s) | (Inr r, s) \<Rightarrow> f r s)) k' = rm_counters s k'"
    if "\<And>r s. rm_counters (snd (f r s)) k' = rm_counters s k'" for f and g :: "gostr \<Rightarrow> gostr"
    using t that by (auto split: prod.splits sum.splits)
  note tenant = this
  show ?thesis
    unfolding CheckAllLimits_def by (auto intro!: tenant seq u k a)
qed

lemma request_key_ends: "k \<in> set (request_keys ten usr skl api) \<Longrightarrow> \<exists>x. k = x @ ''min''"
  by (auto simp: request_keys_def build_keys BuildKey_def split: if_splits)

lemma min_not_suffix [simp]: "k @ '':burst'' \<noteq> x @ ''min''" "k @ '':concurrent'' \<noteq> x @ ''min''"
proof -
  have "last (k @ '':burst'') \<noteq> last (x @ ''min'')" "last (k @ '':concurrent'') \<noteq> last (x @ ''min'')" by simp_all
  then show "k @ '':burst'' \<noteq> x @ ''min''" "k @ '':concurrent'' \<noteq> x @ ''min''" by metis+
qed

lemma burst_not_concurrent [simp]: "k @ '':burst'' \<noteq> k' @ '':concurrent''" "k' @ '':concurrent'' \<noteq> k @ '':burst''"
proof -
  have "butlast (butlast (k @ '':burst'')) \<noteq> butlast (butlast (k' @ '':concurrent''))"
    by (simp add: butlast_append)
  then show "k @ '':burst'' \<noteq> k' @ '':concurrent''" "k' @ '':concurrent'' \<noteq> k @ '':burst''" by metis+
qed

subsection \<open>The system of requests\<close>

text \<open>
  The storage with the requests between their two operations: those that went through
  the burst protection, those admitted by the concurrency limit, and those it refused
  that have not yet given their slot back. \<open>tier\<close> gives the tier behind a key, which is
  that of the tenant in it.
\<close>

record flight =
  fl_store :: rl_mem
  fl_burst :: "gostr \<Rightarrow> nat"
  fl_run :: "gostr \<Rightarrow> nat"
  fl_refusing :: "gostr \<Rightarrow> nat"

definition no_flight :: flight where
  "no_flight = \<lparr>fl_store = NewInMemoryStorage, fl_burst = (\<lambda>_. 0), fl_run = (\<lambda>_. 0), fl_refusing = (\<lambda>_. 0)\<rparr>"

definition bump :: "gostr \<Rightarrow> (gostr \<Rightarrow> nat) \<Rightarrow> gostr \<Rightarrow> nat" where
  "bump k f = f(k := f k + 1)"

definition drop1 :: "gostr \<Rightarrow> (gostr \<Rightarrow> nat) \<Rightarrow> gostr \<Rightarrow> nat" where
  "drop1 k f = f(k := f k - 1)"

inductive flight_step :: "gostr list \<Rightarrow> (gostr \<Rightarrow> gostr) \<Rightarrow> flight \<Rightarrow> flight \<Rightarrow> bool"
  for order :: "gostr list" and tier :: "gostr \<Rightarrow> gostr" where
  fl_burst_in: "burst_enter (rl_mem_storage order) (tier k) k (fl_store f) = (Admitted, s) \<Longrightarrow>
    flight_step order tier f (f\<lparr>fl_store := s, fl_burst := bump k (fl_burst f)\<rparr>)"
| fl_burst_refused: "burst_enter (rl_mem_storage order) (tier k) k (fl_store f) = (Refused e, s) \<Longrightarrow>
    flight_step order tier f (f\<lparr>fl_store := s\<rparr>)"
| fl_burst_out: "0 < fl_burst f k \<Longrightarrow>
    flight_step order tier f (f\<lparr>fl_store := burst_leave (rl_mem_storage order) k (fl_store f),
      fl_burst := drop1 k (fl_burst f)\<rparr>)"
| fl_run_in: "concurrent_enter (rl_mem_storage order) (tier k) k (fl_store f) = (Admitted, s) \<Longrightarrow>
    flight_step order tier f (f\<lparr>fl_store := s, fl_run := bump k (fl_run f)\<rparr>)"
| fl_run_refused: "concurrent_enter (rl_mem_storage order) (tier k) k (fl_store f) = (Refused e, s) \<Longrightarrow>
    flight_step order tier f (f\<lparr>fl_store := s, fl_refusing := bump k (fl_refusing f)\<rparr>)"
| fl_run_undo: "0 < fl_refusing f k \<Longrightarrow>
    flight_step order tier f (f\<lparr>fl_store := concurrent_leave (rl_mem_storage order) k (fl_store f),
      fl_refusing := drop1 k (fl_refusing f)\<rparr>)"
| fl_run_out: "0 < fl_run f k \<Longrightarrow>
    flight_step order tier f (f\<lparr>fl_store := concurrent_leave (rl_mem_storage order) k (fl_store f),
      fl_run := drop1 k (fl_run f)\<rparr>)"
| fl_rate: "flight_step order tier f (f\<lparr>fl_store :=
    snd (CheckAllLimits (mem_manager order cfg tiers) now ten usr skl api t (fl_store f))\<rparr>)"

definition flight_inv :: "(gostr \<Rightarrow> gostr) \<Rightarrow> flight \<Rightarrow> bool" where
  "flight_inv tier f \<longleftrightarrow> (\<forall>k.
     map_get 0 (rm_counters (fl_store f)) (k @ '':burst'') = int (fl_burst f k)
     \<and> map_get 0 (rm_counters (fl_store f)) (k @ '':concurrent'') = int (fl_run f k + fl_refusing f k)
     \<and> int (fl_burst f k) \<le> tc_BurstSize (GetTierConfig (tier k))
     \<and> int (fl_run f k) \<le> tc_ConcurrentLimit (GetTierConfig (tier k)))"

lemma GetTierConfig_cases:
  "GetTierConfig t = the (DefaultTierConfigs rlTierFree) \<or> GetTierConfig t = the (DefaultTierConfigs rlTierPro)
   \<or> GetTierConfig t = the (DefaultTierConfigs rlTierEnterprise) \<or> GetTierConfig t = the (DefaultTierConfigs rlTierUnlimited)"
  by (auto simp: GetTierConfig_def DefaultTierConfigs_def rl_tier_names map_get_def)

lemma tier_sizes: "1 \<le> tc_BurstSize (GetTierConfig t)" "1 \<le> tc_ConcurrentLimit (GetTierConfig t)"
  using GetTierConfig_cases [of t] by (auto simp: DefaultTierConfigs_def rl_tier_names)

abbreviation counter_at :: "rl_mem \<Rightarrow> gostr \<Rightarrow> int" where
  "counter_at s k \<equiv> map_get 0 (rm_counters s) k"

lemma counter_at_None: "rm_counters s k = None \<Longrightarrow> counter_at s k = 0"
  by (simp add: map_get_def)

lemma burst_enter_mem:
  "burst_enter (rl_mem_storage order) t k s =
     (if counter_at s (k @ '':burst'') < tc_BurstSize (GetTierConfig t)
      then (Admitted, s\<lparr>rm_counters := (rm_counters s)(k @ '':burst'' \<mapsto> counter_at s (k @ '':burst'') + 1)\<rparr>)
      else (Refused ''BURST_LIMIT_EXCEEDED'', s))"
  using tier_sizes(1) [of t]
  by (simp add: burst_enter_def rl_mem_storage_def rlm_AcquireBurst_def counter_add_def counter_at_None Let_def
      split: option.split)

lemma burst_leave_mem:
  "0 < counter_at s (k @ '':burst'') \<Longrightarrow> burst_leave (rl_mem_storage order) k s =
     s\<lparr>rm_counters := (rm_counters s)(k @ '':burst'' \<mapsto> counter_at s (k @ '':burst'') - 1)\<rparr>"
  by (auto simp: burst_leave_def rl_mem_storage_def rlm_ReleaseBurst_def counter_add_def Let_def map_get_def
      split: option.splits)

lemma concurrent_enter_mem:
  "concurrent_enter (rl_mem_storage order) t k s =
     (if counter_at s (k @ '':concurrent'') < tc_ConcurrentLimit (GetTierConfig t)
      then Admitted else Refused ''CONCURRENT_LIMIT_EXCEEDED'',
      s\<lparr>rm_counters := (rm_counters s)(k @ '':concurrent'' \<mapsto> counter_at s (k @ '':concurrent'') + 1)\<rparr>)"
  by (simp add: concurrent_enter_def rl_mem_storage_def rlm_IncrementConcurrent_def counter_add_def
      counter_at_None Let_def split: option.split)

lemma concurrent_leave_mem:
  "0 < counter_at s (k @ '':concurrent'') \<Longrightarrow> concurrent_leave (rl_mem_storage order) k s =
     s\<lparr>rm_counters := (rm_counters s)(k @ '':concurrent'' \<mapsto> counter_at s (k @ '':concurrent'') - 1)\<rparr>"
  by (auto simp: concurrent_leave_def rl_mem_storage_def rlm_DecrementConcurrent_def counter_add_def Let_def
      map_get_def split: option.splits)

lemmas store_mem = burst_enter_mem burst_leave_mem concurrent_enter_mem concurrent_leave_mem

lemma flight_inv_new: "flight_inv tier no_flight"
proof -
  have "0 \<le> tc_BurstSize (GetTierConfig t)" "0 \<le> tc_ConcurrentLimit (GetTierConfig t)" for t
    using tier_sizes [of t] by simp_all
  then show ?thesis by (simp add: flight_inv_def no_flight_def NewInMemoryStorage_def)
qed

lemma flight_invD:
  assumes "flight_inv tier f"
  shows "counter_at (fl_store f) (k @ '':burst'') = int (fl_burst f k)"
    "counter_at (fl_store f) (k @ '':concurrent'') = int (fl_run f k + fl_refusing f k)"
    "int (fl_burst f k) \<le> tc_BurstSize (GetTierConfig (tier k))"
    "int (fl_run f k) \<le> tc_ConcurrentLimit (GetTierConfig (tier k))"
  using assms unfolding flight_inv_def by blast+

lemma flight_inv_step: "flight_step order tier f f' \<Longrightarrow> flight_inv tier f \<Longrightarrow> flight_inv tier f'"
proof (induction rule: flight_step.induct)
  case (fl_rate f cfg tiers now ten usr skl api t)
  have "rm_counters (snd (CheckAllLimits (mem_manager order cfg tiers) now ten usr skl api t (fl_store f))) k
      = rm_counters (fl_store f) k" if "k = x @ '':burst'' \<or> k = x @ '':concurrent''" for k x
    using that request_key_ends [of k ten usr skl api] by (intro CheckAllLimits_counters) auto
  with fl_rate show ?case by (simp add: flight_inv_def map_get_def)
next
  case (fl_burst_out f k)
  note inv = flight_invD [OF fl_burst_out.prems]
  have "0 < counter_at (fl_store f) (k @ '':burst'')" using fl_burst_out.hyps inv(1) [of k] by simp
  moreover have "int (fl_burst f k) - 1 \<le> tc_BurstSize (GetTierConfig (tier k))" using inv(3) [of k] by simp
  ultimately show ?case unfolding flight_inv_def using inv
    by (auto simp: burst_leave_mem drop1_def of_nat_diff)
next
  case (fl_run_undo f k)
  note inv = flight_invD [OF fl_run_undo.prems]
  have "0 < counter_at (fl_store f) (k @ '':concurrent'')" using fl_run_undo.hyps inv(2) [of k] by simp
  then show ?case unfolding flight_inv_def using inv fl_run_undo.hyps
    by (auto simp: concurrent_leave_mem drop1_def of_nat_diff)
next
  case (fl_run_out f k)
  note inv = flight_invD [OF fl_run_out.prems]
  have "0 < counter_at (fl_store f) (k @ '':concurrent'')" using fl_run_out.hyps inv(2) [of k] by simp
  moreover have "int (fl_run f k) - 1 \<le> tc_ConcurrentLimit (GetTierConfig (tier k))" using inv(4) [of k] by simp
  ultimately show ?case unfolding flight_inv_def using inv fl_run_out.hyps
    by (auto simp: concurrent_leave_mem drop1_def of_nat_diff)
next
  case (fl_burst_in k f s)
  then show ?case unfolding flight_inv_def using flight_invD [OF fl_burst_in.prems]
    by (auto simp: burst_enter_mem bump_def split: if_splits)
next
  case (fl_run_in k f s)
  then show ?case unfolding flight_inv_def using flight_invD [OF fl_run_in.prems]
    by (auto simp: concurrent_enter_mem bump_def split: if_splits)
next
  case (fl_run_refused k f e s)
  then show ?case unfolding flight_inv_def using flight_invD [OF fl_run_refused.prems]
    by (auto simp: concurrent_enter_mem bump_def split: if_splits)
next
  case (fl_burst_refused k f e s)
  then show ?case by (auto simp: burst_enter_mem split: if_splits)
qed

text \<open>C10: Requests in flight are bounded. Whatever requests arrive, finish, are refused or are
  counted by the rate limits, interleaved in any way, the requests of a client that the
  concurrency limit has admitted never exceed the limit of its tier, those that the burst
  protection has admitted never exceed its burst size, and the counters in the storage
  are exactly the requests in flight.\<close>

theorem flight_bounded:
  assumes "(flight_step order tier)\<^sup>*\<^sup>* no_flight f"
  shows "int (fl_run f k) \<le> tc_ConcurrentLimit (GetTierConfig (tier k))
    \<and> int (fl_burst f k) \<le> tc_BurstSize (GetTierConfig (tier k))
    \<and> rlm_GetConcurrentCount k (fl_store f) = Inr (int (fl_run f k + fl_refusing f k))"
proof -
  from assms have "flight_inv tier f"
    by (induction rule: rtranclp_induct) (auto intro: flight_inv_new flight_inv_step)
  from flight_invD [OF this] show ?thesis by (simp add: rlm_GetConcurrentCount_def)
qed

definition one_flight :: flight where
  "one_flight = no_flight\<lparr>fl_store := NewInMemoryStorage\<lparr>rm_counters := [''k:concurrent'' \<mapsto> 1]\<rparr>,
     fl_run := bump ''k'' (\<lambda>_. 0)\<rparr>"

theorem flight_bounded_witness:
  "fl_run one_flight ''k'' = 1
   \<and> int (fl_run one_flight ''k'') \<le> tc_ConcurrentLimit (GetTierConfig rlTierFree)
   \<and> rlm_GetConcurrentCount ''k'' (fl_store one_flight) = Inr 1"
proof -
  have "concurrent_enter (rl_mem_storage []) rlTierFree ''k'' (fl_store no_flight) = (Admitted, fl_store one_flight)"
    using tier_sizes(2) [of rlTierFree]
    by (simp add: concurrent_enter_mem no_flight_def one_flight_def NewInMemoryStorage_def)
  from fl_run_in [where tier = "\<lambda>_. rlTierFree", OF this]
  have "flight_step [] (\<lambda>_. rlTierFree) no_flight one_flight"
    by (simp add: one_flight_def no_flight_def)
  then have "(flight_step [] (\<lambda>_. rlTierFree))\<^sup>*\<^sup>* no_flight one_flight" by simp
  from flight_bounded [OF this, of "''k''"] show ?thesis
    by (simp add: one_flight_def bump_def no_flight_def)
qed

end
