(* ===== verification/Event_Id.thy ===== *)
theory Event_Id
  imports Gw_Prelude
begin

text \<open>
  \<open>internal/eventbus/id.go\<close> and \<open>sequencer.go\<close>: time-sortable event identifiers and
  per-partition sequence numbers. A Go string is its bytes; 64-bit integers are words, a
  signed shift is \<open>signed_drop_bit\<close>. The entropy pool and the fallback counter are
  package variables, a record here; what \<open>rand.Read\<close> returned, bytes or an error, is
  an argument of the functions that call it.
\<close>

unbundle bit_operations_syntax

section \<open>Identifiers\<close>

definition ulidAlphabet :: gostr where
  "ulidAlphabet = ''0123456789ABCDEFGHJKMNPQRSTVWXYZ''"

definition timeLen :: nat where "timeLen = 10"
definition randomLen :: nat where "randomLen = 16"
definition ulidLength :: nat where "ulidLength = 26"

definition ulid_char :: "64 word \<Rightarrow> char" where
  "ulid_char w = ulidAlphabet ! unat (w AND 0x1F)"

text \<open>
  The loops of \<open>encodeTimestamp\<close> and \<open>encodeFallback\<close> fill an array of \<open>n\<close> characters
  from its end, shifting the number right by five bits each time; they differ in the
  shift, signed for an \<open>int64\<close> and unsigned for a \<open>uint64\<close>.
\<close>

primrec base32_chars :: "(64 word \<Rightarrow> 64 word) \<Rightarrow> nat \<Rightarrow> 64 word \<Rightarrow> gostr" where
  "base32_chars shift 0 w = []"
| "base32_chars shift (Suc n) w = base32_chars shift n (shift w) @ [ulid_char w]"

definition encodeTimestamp :: "64 word \<Rightarrow> gostr" where
  "encodeTimestamp ms = base32_chars (signed_drop_bit 5) timeLen ms"

record id_state =
  entropyPool :: "8 word list"
  fallbackCounter :: "64 word"

definition encodeFallback :: "64 word \<Rightarrow> id_state \<Rightarrow> gostr \<times> id_state" where
  "encodeFallback now st =
     (let counter = fallbackCounter st + 1;
          st = st\<lparr>fallbackCounter := counter\<rparr>;
          combined = push_bit 20 now OR (counter AND 0xFFFFF)
      in (base32_chars (drop_bit 5) randomLen combined, st))"

definition encodeRandom :: "8 word list option \<Rightarrow> 64 word \<Rightarrow> id_state \<Rightarrow> gostr \<times> id_state" where
  "encodeRandom entropy now st =
     (let take16 = (\<lambda>st. (map (\<lambda>b. ulidAlphabet ! unat (b AND 0x1F)) (take randomLen (entropyPool st)),
            st\<lparr>entropyPool := drop randomLen (entropyPool st)\<rparr>))
      in if length (entropyPool st) < randomLen
      then (case entropy of
          None \<Rightarrow> encodeFallback now st
        | Some newPool \<Rightarrow> take16 (st\<lparr>entropyPool := newPool\<rparr>))
      else take16 st)"

definition generateEventID :: "8 word list option \<Rightarrow> 64 word \<Rightarrow> id_state \<Rightarrow> gostr \<times> id_state" where
  "generateEventID entropy now st =
     (let timestamp = encodeTimestamp now;
          (random, st) = encodeRandom entropy now st
      in (timestamp @ random, st))"

definition GenerateSubscriptionID ::
  "8 word list option \<Rightarrow> 64 word \<Rightarrow> id_state \<Rightarrow> gostr \<times> id_state" where
  "GenerateSubscriptionID entropy now st =
     (let (i, st) = generateEventID entropy now st in (''sub_'' @ i, st))"

definition GenerateEventID :: "8 word list option \<Rightarrow> 64 word \<Rightarrow> id_state \<Rightarrow> gostr \<times> id_state" where
  "GenerateEventID entropy now st = generateEventID entropy now st"

section \<open>Parsing\<close>

definition toUpper :: "nat \<Rightarrow> nat" where
  "toUpper c = (if 97 \<le> c \<and> c \<le> 122 then c - 32 else c)"

fun index_from :: "nat \<Rightarrow> nat \<Rightarrow> gostr \<Rightarrow> int" where
  "index_from i c [] = - 1"
| "index_from i c (a # as) = (if of_char a = c then int i else index_from (Suc i) c as)"

definition indexBase32 :: "nat \<Rightarrow> int" where
  "indexBase32 c = index_from 0 (toUpper c) ulidAlphabet"

text \<open>
  A \<open>range\<close> loop over a string decodes UTF-8: it yields code points, and U+FFFD for one
  byte where the bytes are not the shortest encoding of a code point.
\<close>

definition cont :: "nat \<Rightarrow> bool" where
  "cont b \<longleftrightarrow> 0x80 \<le> b \<and> b < 0xC0"

fun range_runes :: "nat list \<Rightarrow> nat list" where
  "range_runes [] = []"
| "range_runes (a # bs) =
     (if a < 0x80 then a # range_runes bs
      else case bs of
        [] \<Rightarrow> [0xFFFD]
      | b # bs2 \<Rightarrow>
          if 0xC2 \<le> a \<and> a < 0xE0 \<and> cont b
          then ((a - 0xC0) * 64 + (b - 0x80)) # range_runes bs2
          else (case bs2 of
              [] \<Rightarrow> 0xFFFD # range_runes bs
            | c # bs3 \<Rightarrow>
                if 0xE0 \<le> a \<and> a < 0xF0 \<and> cont b \<and> cont c
                   \<and> (a = 0xE0 \<longrightarrow> 0xA0 \<le> b) \<and> (a = 0xED \<longrightarrow> b < 0xA0)
                then ((a - 0xE0) * 4096 + (b - 0x80) * 64 + (c - 0x80)) # range_runes bs3
                else (case bs3 of
                    [] \<Rightarrow> 0xFFFD # range_runes bs
                  | d # bs4 \<Rightarrow>
                      if 0xF0 \<le> a \<and> a < 0xF5 \<and> cont b \<and> cont c \<and> cont d
                         \<and> (a = 0xF0 \<longrightarrow> 0x90 \<le> b) \<and> (a = 0xF4 \<longrightarrow> b < 0x90)
                      then ((a - 0xF0) * 262144 + (b - 0x80) * 4096 + (c - 0x80) * 64 + (d - 0x80))
                             # range_runes bs4
                      else 0xFFFD # range_runes bs)))"

fun parse_ms :: "64 word \<Rightarrow> nat list \<Rightarrow> nat + 64 word" where
  "parse_ms ms [] = Inr ms"
| "parse_ms ms (c # cs) =
     (let idx = indexBase32 (c mod 256) in
      if idx < 0 then Inl c else parse_ms (push_bit 5 ms OR word_of_int idx) cs)"

datatype id_error = IdTooShort | IdBadChar nat

definition unix_milli :: "64 word \<Rightarrow> gtime" where
  "unix_milli ms = 62135596800 * second + sint ms * millisecond"

definition ParseEventID :: "gostr \<Rightarrow> id_error + gtime" where
  "ParseEventID s =
     (if length s < timeLen then Inl IdTooShort
      else case parse_ms 0 (range_runes (map of_char (take timeLen s))) of
          Inl c \<Rightarrow> Inl (IdBadChar c)
        | Inr ms \<Rightarrow> Inr (unix_milli ms))"

section \<open>The sequencer\<close>

type_synonym sequencer = "(gostr, 64 word) gomap"

definition NewEventSequencer :: sequencer where
  "NewEventSequencer = Map.empty"

definition seq_Next :: "gostr \<Rightarrow> sequencer \<Rightarrow> 64 word \<times> sequencer" where
  "seq_Next key s = (let next = map_get 0 s key + 1 in (next, s(key \<mapsto> next)))"

definition seq_GetCurrent :: "gostr \<Rightarrow> sequencer \<Rightarrow> 64 word" where
  "seq_GetCurrent key s = map_get 0 s key"

definition seq_Reset :: "sequencer \<Rightarrow> sequencer" where
  "seq_Reset s = Map.empty"

definition seq_ResetKey :: "gostr \<Rightarrow> sequencer \<Rightarrow> sequencer" where
  "seq_ResetKey key s = s(key := None)"

fun consecutive :: "64 word \<Rightarrow> 64 word list \<Rightarrow> bool" where
  "consecutive expected [] = True"
| "consecutive expected (q # qs) = (if q \<noteq> expected then False else consecutive (expected + 1) qs)"

definition seq_IsOrdered :: "gostr \<Rightarrow> 64 word list \<Rightarrow> sequencer \<Rightarrow> bool" where
  "seq_IsOrdered key ns s =
     (if length ns < 2 then True
      else consecutive (seq_GetCurrent key s - word_of_nat (length ns - 1)) ns)"

section \<open>Base 32\<close>

lemma ulid_index_all:
  "\<forall>k \<in> set [0..<32]. indexBase32 (of_char (ulidAlphabet ! k)) = int k
     \<and> (of_char (ulidAlphabet ! k) :: nat) < 128"
  by code_simp

lemma ulid_increasing_all:
  "\<forall>k \<in> set [0..<31]. (of_char (ulidAlphabet ! k) :: nat) < of_char (ulidAlphabet ! Suc k)"
  by code_simp

lemma low5: "unat (w AND 0x1F :: 64 word) < 32"
proof -
  have "w AND 0x1F = take_bit 5 w" by (simp add: take_bit_eq_mask mask_eq_exp_minus_1)
  moreover have "unat (take_bit 5 w) < 2 ^ 5"
    unfolding unsigned_take_bit_eq by (rule take_bit_nat_less_exp)
  ultimately show ?thesis by simp
qed

lemma ulid_char_index: "indexBase32 (of_char (ulid_char w)) = int (unat (w AND 0x1F))"
  using ulid_index_all low5 [of w] by (simp add: ulid_char_def)

lemma ulid_char_ascii: "(of_char (ulid_char w) :: nat) < 128"
  using ulid_index_all low5 [of w] by (simp add: ulid_char_def)

lemma range_runes_ascii: "\<forall>b \<in> set bs. b < 128 \<Longrightarrow> range_runes bs = bs"
  by (induction bs) auto

lemma base32_ascii: "b \<in> set (map of_char (base32_chars shift n w)) \<Longrightarrow> b < (128 :: nat)"
  by (induction n arbitrary: w) (auto simp: ulid_char_ascii)

lemma length_base32 [simp]: "length (base32_chars shift n w) = n"
  by (induction n arbitrary: w) auto

lemma parse_ms_append:
  "parse_ms acc (xs @ ys) = (case parse_ms acc xs of Inl c \<Rightarrow> Inl c | Inr m \<Rightarrow> parse_ms m ys)"
  by (induction xs arbitrary: acc) (auto simp: Let_def)

text \<open>A shift that moves the bits below position 60 down by five.\<close>

definition shift5 :: "(64 word \<Rightarrow> 64 word) \<Rightarrow> bool" where
  "shift5 f \<longleftrightarrow> (\<forall>w i. i < 59 \<longrightarrow> bit (f w) i = bit w (i + 5))"

lemma shift5_signed: "shift5 (signed_drop_bit 5)"
  by (auto simp: shift5_def bit_signed_drop_bit_iff add.commute)

lemma shift5_drop: "shift5 (drop_bit 5)"
  by (auto simp: shift5_def bit_drop_bit_eq add.commute)

lemma join5:
  assumes "shift5 f" "n \<le> 11"
  shows "push_bit 5 (push_bit (5 * n) acc OR take_bit (5 * n) (f w)) OR (w AND 0x1F)
    = push_bit (5 * Suc n) acc OR take_bit (5 * Suc n) (w :: 64 word)"
proof -
  have mask: "w AND 0x1F = take_bit 5 w" by (simp add: take_bit_eq_mask mask_eq_exp_minus_1)
  show ?thesis
    unfolding mask
    by (rule bit_eqI)
      (use assms in \<open>auto simp: bit_simps shift5_def not_less\<close>)
qed

lemma parse_base32:
  assumes "shift5 f" "n \<le> 12"
  shows "parse_ms acc (map of_char (base32_chars f n w))
    = Inr (push_bit (5 * n) acc OR take_bit (5 * n) w)"
  using assms(2)
proof (induction n arbitrary: w)
  case 0
  then show ?case by simp
next
  case (Suc n)
  have "indexBase32 (of_char (ulid_char w) mod 256) = int (unat (w AND 0x1F))"
    using ulid_char_ascii [of w] ulid_char_index [of w] by simp
  moreover have "word_of_int (int (unat (w AND 0x1F))) = w AND 0x1F" by simp
  ultimately show ?case
    using Suc join5 [OF assms(1), of n acc w]
    by (simp add: parse_ms_append Let_def del: push_bit_or)
qed

lemma take_bit_below: "unat (w :: 64 word) < 2 ^ n \<Longrightarrow> take_bit n w = w"
  by (metis take_bit_nat_eq_self_iff unsigned_take_bit_eq word_unat_eq_iff)

lemma parse_timestamp:
  assumes "unat ms < 2 ^ 50"
  shows "ParseEventID (encodeTimestamp ms @ r) = Inr (unix_milli ms)"
proof -
  have "range_runes (map of_char (encodeTimestamp ms)) = map of_char (encodeTimestamp ms)"
    unfolding encodeTimestamp_def using base32_ascii by (intro range_runes_ascii) blast
  moreover have "parse_ms 0 (map of_char (encodeTimestamp ms)) = Inr ms"
    using parse_base32 [OF shift5_signed, of timeLen 0 ms] take_bit_below [OF assms]
    by (simp add: encodeTimestamp_def timeLen_def)
  ultimately show ?thesis
    by (simp add: ParseEventID_def encodeTimestamp_def)
qed

section \<open>Order\<close>

lemma ulid_char_less: "unat (v AND 0x1F) < unat (w AND 0x1F) \<Longrightarrow>
  (of_char (ulid_char v) :: nat) < of_char (ulid_char w)"
proof -
  have step: "(of_char (ulidAlphabet ! k) :: nat) < of_char (ulidAlphabet ! Suc k)" if "k < 31" for k
    using ulid_increasing_all that by simp
  have "(of_char (ulidAlphabet ! i) :: nat) < of_char (ulidAlphabet ! j)" if "i < j" "j < 32" for i j
    using that
  proof (induction j)
    case 0
    then show ?case by simp
  next
    case (Suc j)
    then show ?case using step [of j] by (cases "i = j") auto
  qed
  then show "unat (v AND 0x1F) < unat (w AND 0x1F) \<Longrightarrow>
    (of_char (ulid_char v) :: nat) < of_char (ulid_char w)"
    using low5 by (simp add: ulid_char_def)
qed

lemma low5_mod: "unat (w AND 0x1F :: 64 word) = unat w mod 32"
proof -
  have "w AND 0x1F = take_bit 5 w" by (simp add: take_bit_eq_mask mask_eq_exp_minus_1)
  then show ?thesis by (simp only: unsigned_take_bit_eq) (simp add: take_bit_eq_mod)
qed

lemma shift5_unat:
  assumes "shift5 f" "m \<le> 59"
  shows "unat (f w) mod 2 ^ m = (unat w div 32) mod 2 ^ m"
proof -
  have "take_bit m (f w) = take_bit m (drop_bit 5 w)"
    by (rule bit_eqI) (use assms in \<open>auto simp: bit_simps shift5_def add.commute\<close>)
  then have "unat (take_bit m (f w)) = unat (take_bit m (drop_bit 5 w))" by simp
  then have "take_bit m (unat (f w)) = take_bit m (drop_bit 5 (unat w))"
    by (simp only: unsigned_take_bit_eq unat_drop_bit_eq)
  then show ?thesis by (simp add: take_bit_eq_mod drop_bit_eq_div)
qed

lemma ulid_char_mod: "unat v mod 32 = unat w mod 32 \<Longrightarrow> ulid_char v = ulid_char w"
  by (simp add: ulid_char_def low5_mod)

lemma digits5: "x mod 2 ^ (5 * Suc n) = 32 * (x div 32 mod 2 ^ (5 * n)) + x mod (32 :: nat)"
  using mod_mult2_eq [of x 32 "2 ^ (5 * n)"] by (simp add: power_add)

lemma digits5_eq:
  "x mod 2 ^ (5 * Suc n) = y mod 2 ^ (5 * Suc n) \<longleftrightarrow>
     x div 32 mod 2 ^ (5 * n) = y div 32 mod 2 ^ (5 * n) \<and> x mod 32 = y mod (32 :: nat)"
proof -
  have "32 * a + r = 32 * b + q \<longleftrightarrow> a = b \<and> r = q" if "r < 32" "q < 32" for a b r q :: nat
    using that by presburger
  from this [of "x mod 32" "y mod 32"] show ?thesis unfolding digits5 by simp
qed

lemma digits5_less:
  "x mod 2 ^ (5 * Suc n) < y mod 2 ^ (5 * Suc n) \<Longrightarrow>
     x div 32 mod 2 ^ (5 * n) < y div 32 mod 2 ^ (5 * n)
     \<or> x div 32 mod 2 ^ (5 * n) = y div 32 mod 2 ^ (5 * n) \<and> x mod 32 < y mod (32 :: nat)"
  unfolding digits5
  using mod_less_divisor [of 32 x, simplified] mod_less_divisor [of 32 y, simplified] by linarith

lemma base32_cong:
  assumes "shift5 f" "n \<le> 11" "unat v mod 2 ^ (5 * n) = unat w mod 2 ^ (5 * n)"
  shows "base32_chars f n v = base32_chars f n w"
  using assms(2,3)
proof (induction n arbitrary: v w)
  case 0
  then show ?case by simp
next
  case (Suc n)
  have shifted: "unat (f x) mod 2 ^ (5 * n) = unat x div 32 mod 2 ^ (5 * n)" for x
    using Suc.prems(1) by (intro shift5_unat [OF assms(1)]) simp
  have "base32_chars f n (f v) = base32_chars f n (f w)"
  proof (rule Suc.IH)
    show "n \<le> 11" using Suc.prems(1) by simp
    show "unat (f v) mod 2 ^ (5 * n) = unat (f w) mod 2 ^ (5 * n)"
      using Suc.prems(2) unfolding shifted digits5_eq ..
  qed
  moreover have "ulid_char v = ulid_char w"
    using Suc.prems(2) unfolding digits5_eq by (intro ulid_char_mod) simp
  ultimately show ?case by simp
qed

lemma base32_mono:
  assumes "shift5 f" "n \<le> 11" "unat v mod 2 ^ (5 * n) < unat w mod 2 ^ (5 * n)"
  shows "str_less (base32_chars f n v) (base32_chars f n w)"
  using assms(2,3)
proof (induction n arbitrary: v w)
  case 0
  then show ?case by simp
next
  case (Suc n)
  have shifted: "unat (f x) mod 2 ^ (5 * n) = unat x div 32 mod 2 ^ (5 * n)" for x
    using Suc.prems(1) by (intro shift5_unat [OF assms(1)]) simp
  from digits5_less [OF Suc.prems(2)] show ?case
  proof
    assume "unat v div 32 mod 2 ^ (5 * n) < unat w div 32 mod 2 ^ (5 * n)"
    then have "str_less (base32_chars f n (f v)) (base32_chars f n (f w))"
      using Suc.prems(1) by (intro Suc.IH) (simp_all only: shifted)
    then show ?thesis by (simp add: str_less_append)
  next
    assume low: "unat v div 32 mod 2 ^ (5 * n) = unat w div 32 mod 2 ^ (5 * n)
      \<and> unat v mod 32 < unat w mod 32"
    then have "base32_chars f n (f v) = base32_chars f n (f w)"
      using Suc.prems(1) by (intro base32_cong [OF assms(1)]) (simp_all only: shifted)
    with low show ?thesis
      using str_less_last [OF ulid_char_less, of v w _ "[]" "[]"] by (simp add: low5_mod)
  qed
qed

section \<open>Runs of the sequencer\<close>

lemma seq_Next_iff: "seq_Next k s = (n, s') \<longleftrightarrow> n = map_get 0 s k + 1 \<and> s' = s(k \<mapsto> n)"
  by (auto simp: seq_Next_def Let_def)

primrec seq_run :: "gostr list \<Rightarrow> sequencer \<Rightarrow> (gostr \<times> 64 word) list \<times> sequencer" where
  "seq_run [] s = ([], s)"
| "seq_run (k # ks) s =
     (let (n, s') = seq_Next k s; (ns, s'') = seq_run ks s' in ((k, n) # ns, s''))"

definition numbers_of :: "gostr \<Rightarrow> (gostr \<times> 64 word) list \<Rightarrow> 64 word list" where
  "numbers_of k ns = map snd (filter (\<lambda>x. fst x = k) ns)"

definition count_from :: "64 word \<Rightarrow> nat \<Rightarrow> 64 word list" where
  "count_from a n = map (\<lambda>i. a + word_of_nat i) [0..<n]"

lemma count_from_Suc [simp]: "count_from a (Suc n) = a # count_from (a + 1) n"
proof -
  have "[0..<Suc n] = 0 # map Suc [0..<n]" by (simp add: map_Suc_upt upt_conv_Cons del: upt_Suc)
  then show ?thesis by (simp add: count_from_def algebra_simps del: upt_Suc)
qed

lemma count_from_0 [simp]: "count_from a 0 = []"
  by (simp add: count_from_def)

lemma consecutive_iff: "consecutive e ns \<longleftrightarrow> ns = count_from e (length ns)"
  by (induction ns arbitrary: e) auto

lemma seq_run_Cons:
  "fst (seq_run (k # ks) s) = (k, map_get 0 s k + 1) # fst (seq_run ks (s(k \<mapsto> map_get 0 s k + 1)))"
  "snd (seq_run (k # ks) s) = snd (seq_run ks (s(k \<mapsto> map_get 0 s k + 1)))"
  by (simp_all add: seq_Next_def Let_def split: prod.splits)

declare seq_run.simps(2) [simp del]

lemma seq_run_numbers:
  "numbers_of k (fst (seq_run ks s)) = count_from (seq_GetCurrent k s + 1) (count_list ks k)
   \<and> seq_GetCurrent k (snd (seq_run ks s)) = seq_GetCurrent k s + word_of_nat (count_list ks k)"
proof (induction ks arbitrary: s)
  case Nil
  then show ?case by (simp add: numbers_of_def)
next
  case (Cons x ks)
  then show ?case
    by (auto simp: seq_run_Cons numbers_of_def seq_GetCurrent_def algebra_simps)
qed

section \<open>Properties\<close>

lemma length_encodeTimestamp [simp]: "length (encodeTimestamp ms) = 10"
  by (simp add: encodeTimestamp_def timeLen_def)

lemma generateEventID_fst:
  "fst (generateEventID entropy now st) = encodeTimestamp now @ fst (encodeRandom entropy now st)"
  by (simp add: generateEventID_def case_prod_beta)

text \<open>C33: an event identifier carries its creation time. Parsing an identifier generated at
  any millisecond that fits 50 bits (until the year 37648) gives back that instant,
  whatever the entropy, the fallback included.\<close>

theorem event_id_roundtrip:
  assumes "unat now < 2 ^ 50"
  shows "ParseEventID (fst (generateEventID entropy now st)) = Inr (unix_milli now)"
  unfolding generateEventID_fst by (rule parse_timestamp [OF assms])

theorem event_id_roundtrip_witness:
  "ParseEventID (fst (generateEventID None 1700000000000 \<lparr>entropyPool = [], fallbackCounter = 3\<rparr>))
     = Inr (unix_milli 1700000000000)"
  by (rule event_id_roundtrip) simp

text \<open>Event identifiers sort by creation time. Of two identifiers generated at
  different milliseconds the earlier one is the smaller string, whatever their random
  parts.\<close>

theorem event_id_sorted:
  assumes "unat t < unat t'" "unat t' < 2 ^ 50"
  shows "str_less (fst (generateEventID entropy t st)) (fst (generateEventID entropy' t' st'))"
proof -
  have "str_less (encodeTimestamp t) (encodeTimestamp t')"
    unfolding encodeTimestamp_def timeLen_def
    using assms by (intro base32_mono [OF shift5_signed]) simp_all
  then show ?thesis unfolding generateEventID_fst by (simp add: str_less_append)
qed

theorem event_id_sorted_witness:
  "str_less (fst (generateEventID (Some (replicate 32 0xFF)) 5 \<lparr>entropyPool = [], fallbackCounter = 3\<rparr>))
     (fst (generateEventID None 6 \<lparr>entropyPool = [], fallbackCounter = 0\<rparr>))"
  by (rule event_id_sorted) simp_all

lemma low5_byte: "unat (b AND 0x1F :: 8 word) < 32"
proof -
  have "b AND 0x1F = take_bit 5 b" by (simp add: take_bit_eq_mask mask_eq_exp_minus_1)
  moreover have "unat (take_bit 5 b) < 2 ^ 5"
    unfolding unsigned_take_bit_eq by (rule take_bit_nat_less_exp)
  ultimately show ?thesis by simp
qed

lemma alphabet_nth: "k < 32 \<Longrightarrow> ulidAlphabet ! k \<in> set ulidAlphabet"
  by (rule nth_mem) (simp add: ulidAlphabet_def)

lemma base32_alphabet: "set (base32_chars f n w) \<subseteq> set ulidAlphabet"
  by (induction n arbitrary: w) (auto simp: ulid_char_def low5 alphabet_nth)

text \<open>The shape of an event identifier. When the entropy source delivers either an
  error or 32 bytes, every identifier has 26 characters, all of the alphabet, and the
  entropy pool never hands out the same bytes twice: what is left of it is a proper
  suffix of what it was, or of the fresh bytes.\<close>

theorem event_id_shape:
  assumes "entropy = None \<or> (\<exists>bs. entropy = Some bs \<and> length bs = 32)"
    and "(i, st') = generateEventID entropy now st"
  shows "length i = ulidLength \<and> set i \<subseteq> set ulidAlphabet
    \<and> (entropyPool st' = drop 16 (entropyPool st) \<and> 16 \<le> length (entropyPool st)
       \<or> entropy = None \<and> entropyPool st' = entropyPool st
         \<and> fallbackCounter st' = fallbackCounter st + 1
       \<or> entropy \<noteq> None \<and> entropyPool st' = drop 16 (the entropy))"
proof -
  have t: "set (encodeTimestamp now) \<subseteq> set ulidAlphabet"
    unfolding encodeTimestamp_def by (rule base32_alphabet)
  have f: "set (base32_chars (drop_bit 5) 16 w) \<subseteq> set ulidAlphabet" for w
    by (rule base32_alphabet)
  show ?thesis
    using assms t f
    by (auto simp: generateEventID_def encodeRandom_def encodeFallback_def Let_def ulidLength_def
        randomLen_def low5_byte alphabet_nth split: if_splits option.splits)
qed

theorem event_id_shape_witness:
  "length (fst (generateEventID None 7 \<lparr>entropyPool = replicate 32 9, fallbackCounter = 0\<rparr>)) = 26"
  using event_id_shape [of None _ _ 7 "\<lparr>entropyPool = replicate 32 9, fallbackCounter = 0\<rparr>",
      OF _ prod.collapse]
  by (simp add: ulidLength_def)

text \<open>Sequence numbers have no gaps. In any interleaving of requests for any
  partition keys, the numbers a key receives are consecutive, starting after its current
  one, and \<open>IsOrdered\<close> accepts a list of two or more numbers of the key exactly when it
  is the list of the last numbers issued, in order.\<close>

theorem sequencer_gap_free:
  "numbers_of k (fst (seq_run ks s)) = count_from (seq_GetCurrent k s + 1) (count_list ks k)
   \<and> seq_IsOrdered k (numbers_of k (fst (seq_run ks s))) (snd (seq_run ks s))
   \<and> (seq_IsOrdered k ns s \<longleftrightarrow>
        length ns < 2 \<or> ns = count_from (seq_GetCurrent k s + 1 - word_of_nat (length ns)) (length ns))"
proof -
  have last: "c - word_of_nat (n - 1) = c + 1 - word_of_nat n" if "1 \<le> n" for c :: "64 word" and n
    using that by (cases n) simp_all
  let ?n = "count_list ks k"
  have "length (count_from a n) = n" for a n by (simp add: count_from_def)
  with seq_run_numbers [of k ks s] last [of ?n "seq_GetCurrent k s + word_of_nat ?n"]
    last [of "length ns" "seq_GetCurrent k s"]
  show ?thesis by (simp add: seq_IsOrdered_def consecutive_iff diff_diff_eq2)
qed

text \<open>Parsing looks at the low byte of a code point only. An identifier that holds a
  character outside the alphabet whose code point ends in the byte of a digit is accepted:
  five letters U+0130 (two bytes each) parse as five zeros.\<close>

theorem event_id_parse_truncates:
  "ParseEventID (concat (replicate 5 [CHR 0xC4, CHR 0xB0])) = Inr (unix_milli 0)"
  by code_simp

end
