(* ===== verification/Event_Types.thy ===== *)
theory Event_Types
  imports Event_Id
begin

text \<open>
  \<open>internal/eventbus/types.go\<close>: events, subscriptions and dead-letter entries. A builder
  method that mutates its receiver and returns it is a function on the record. Metadata
  values have the Go type \<open>interface{}\<close>; \<open>dyn\<close> has the dynamic types JSON produces
  (with integers for its numbers), and comparing two values of an uncomparable dynamic
  type panics, which is \<open>None\<close>. Encoding and decoding of JSON is an argument of the
  functions that use it.
\<close>

definition PriorityLow :: int where "PriorityLow = 0"
definition PriorityMedium :: int where "PriorityMedium = 1"
definition PriorityHigh :: int where "PriorityHigh = 2"

definition EventTypeIntent :: gostr where "EventTypeIntent = ''agent.intent''"
definition EventTypeDecision :: gostr where "EventTypeDecision = ''agent.decision''"
definition EventTypeApproval :: gostr where "EventTypeApproval = ''agent.approval''"
definition EventTypeRejection :: gostr where "EventTypeRejection = ''agent.rejection''"
definition EventTypeError :: gostr where "EventTypeError = ''agent.error''"

datatype dyn = DNil | DString gostr | DBool bool | DInt int | DList "dyn list"
  | DObject "(gostr \<times> dyn) list"

fun dyn_eq :: "dyn \<Rightarrow> dyn \<Rightarrow> bool option" where
  "dyn_eq (DList _) (DList _) = None"
| "dyn_eq (DObject _) (DObject _) = None"
| "dyn_eq x y = Some (x = y)"

record event =
  ev_ID :: gostr
  ev_Type :: gostr
  ev_Priority :: int
  ev_SourceAgent :: gostr
  ev_TargetAgent :: gostr
  ev_CorrelationID :: gostr
  ev_Payload :: gostr
  ev_Metadata :: "(gostr, dyn) gomap"
  ev_Timestamp :: gtime
  ev_SequenceNumber :: "64 word"
  ev_TTL :: duration

text \<open>\<open>Time.UnixMilli\<close> of an instant, as the identifier generator reads it.\<close>

definition unix_ms :: "gtime \<Rightarrow> 64 word" where
  "unix_ms now = word_of_int ((now - 62135596800 * second) div millisecond)"

definition NewEvent :: "(gostr + gostr) \<Rightarrow> 8 word list option \<Rightarrow> gtime \<Rightarrow> gostr \<Rightarrow> gostr \<Rightarrow> int
    \<Rightarrow> id_state \<Rightarrow> (gostr + event) \<times> id_state" where
  "NewEvent payload entropy now eventType sourceAgent priority st = (case payload of
     Inl err \<Rightarrow> (Inl (''failed to marshal event payload: '' @ err), st)
   | Inr payloadBytes \<Rightarrow>
       let (i, st) = generateEventID entropy (unix_ms now) st
       in (Inr \<lparr>ev_ID = i, ev_Type = eventType, ev_Priority = priority,
            ev_SourceAgent = sourceAgent, ev_TargetAgent = '''', ev_CorrelationID = '''',
            ev_Payload = payloadBytes, ev_Metadata = Map.empty, ev_Timestamp = now,
            ev_SequenceNumber = 0, ev_TTL = 0\<rparr>, st))"

definition ev_WithTarget :: "gostr \<Rightarrow> event \<Rightarrow> event" where
  "ev_WithTarget targetAgent e = e\<lparr>ev_TargetAgent := targetAgent\<rparr>"

definition ev_WithCorrelationID :: "gostr \<Rightarrow> event \<Rightarrow> event" where
  "ev_WithCorrelationID correlationID e = e\<lparr>ev_CorrelationID := correlationID\<rparr>"

definition ev_WithMetadata :: "gostr \<Rightarrow> dyn \<Rightarrow> event \<Rightarrow> event" where
  "ev_WithMetadata key v e = e\<lparr>ev_Metadata := (ev_Metadata e)(key \<mapsto> v)\<rparr>"

definition ev_WithTTL :: "duration \<Rightarrow> event \<Rightarrow> event" where
  "ev_WithTTL ttl e = e\<lparr>ev_TTL := ttl\<rparr>"

definition ev_WithSequenceNumber :: "64 word \<Rightarrow> event \<Rightarrow> event" where
  "ev_WithSequenceNumber seq e = e\<lparr>ev_SequenceNumber := seq\<rparr>"

definition ev_GetPriority :: "event \<Rightarrow> int" where
  "ev_GetPriority e = ev_Priority e"

definition ev_IsExpired :: "gtime \<Rightarrow> event \<Rightarrow> bool" where
  "ev_IsExpired now e = (if ev_TTL e = 0 then False else time_sub now (ev_Timestamp e) > ev_TTL e)"

record sub_filter =
  f_SourceAgents :: "gostr list"
  f_PriorityThreshold :: int
  f_MetadataFilters :: "(gostr, dyn) gomap"

record subscription =
  sub_ID :: gostr
  sub_ClientID :: gostr
  sub_EventTypes :: "gostr list"
  sub_TargetAgent :: gostr
  sub_Filter :: "sub_filter option"
  sub_CreatedAt :: gtime
  sub_Active :: bool

section \<open>Dead letters\<close>

datatype dlq_status = DLQStatusPending | DLQStatusRetrying | DLQStatusDead | DLQStatusProcessed

record dlq_entry =
  dq_ID :: gostr
  dq_Event :: event
  dq_Error :: gostr
  dq_RetryCount :: int
  dq_MaxRetries :: int
  dq_FirstFailedAt :: gtime
  dq_LastFailedAt :: gtime
  dq_NextRetryAt :: gtime
  dq_Status :: dlq_status

definition NewDLQEntry :: "8 word list option \<Rightarrow> gtime \<Rightarrow> event \<Rightarrow> gostr \<Rightarrow> int \<Rightarrow> id_state
    \<Rightarrow> dlq_entry \<times> id_state" where
  "NewDLQEntry entropy now e err maxRetries st =
     (let (i, st) = generateEventID entropy (unix_ms now) st
      in (\<lparr>dq_ID = i, dq_Event = e, dq_Error = err, dq_RetryCount = 0, dq_MaxRetries = maxRetries,
           dq_FirstFailedAt = now, dq_LastFailedAt = now, dq_NextRetryAt = zero_time,
           dq_Status = DLQStatusPending\<rparr>, st))"

definition dq_ShouldRetry :: "dlq_entry \<Rightarrow> bool" where
  "dq_ShouldRetry d \<longleftrightarrow> dq_RetryCount d < dq_MaxRetries d \<and> dq_Status d \<noteq> DLQStatusDead"

text \<open>
  \<open>1 << n\<close> at type \<open>int\<close>, 64 bits wide: the bit leaves the word when \<open>n\<close> reaches 64.
\<close>

definition shift_one :: "nat \<Rightarrow> int" where
  "shift_one n = sint (push_bit n 1 :: 64 word)"

definition dq_backoff :: "int \<Rightarrow> int" where
  "dq_backoff retryCount =
     (let backoffSeconds = shift_one (nat retryCount)
      in if backoffSeconds > 300 then 300 else backoffSeconds)"

definition dq_RecordRetry :: "gtime \<Rightarrow> dlq_entry \<Rightarrow> dlq_entry" where
  "dq_RecordRetry now d =
     (let d = d\<lparr>dq_RetryCount := dq_RetryCount d + 1, dq_LastFailedAt := now,
               dq_Status := DLQStatusRetrying\<rparr>
      in d\<lparr>dq_NextRetryAt := time_add now (dq_backoff (dq_RetryCount d) * second)\<rparr>)"

definition dq_MarkDead :: "dlq_entry \<Rightarrow> dlq_entry" where
  "dq_MarkDead d = d\<lparr>dq_Status := DLQStatusDead, dq_NextRetryAt := zero_time\<rparr>"

definition dq_MarkProcessed :: "dlq_entry \<Rightarrow> dlq_entry" where
  "dq_MarkProcessed d = d\<lparr>dq_Status := DLQStatusProcessed, dq_NextRetryAt := zero_time\<rparr>"

record bus_config =
  bc_Provider :: gostr
  bc_DLQMaxRetries :: int
  bc_DefaultTTL :: duration
  bc_EnableOrdering :: bool
  bc_OrderingKeyField :: gostr

section \<open>Backoff\<close>

lemma shift_one_below: "n < 63 \<Longrightarrow> shift_one n = 2 ^ n"
proof -
  assume n: "n < 63"
  then have "(2 :: int) ^ n < 2 ^ 63" by (intro power_strict_increasing) simp_all
  then have "signed_take_bit 63 (2 ^ n) = (2 :: int) ^ n"
    by (intro signed_take_bit_int_eq_self) (simp_all add: order.trans [of _ 0])
  moreover have "(push_bit n 1 :: 64 word) = word_of_int (2 ^ n)"
    by (simp add: push_bit_eq_mult)
  ultimately show ?thesis
    unfolding shift_one_def by (simp only: sint_sbintrunc') simp
qed

text \<open>Retry backoff. The k-th retry of a dead letter (k from 1 to 62) is scheduled
  two to the k seconds after it is recorded, at most 300: the delays are 2, 4, 8, ...
  seconds, not 1, 2, 4, ... as the comment in the code says.\<close>

theorem dq_backoff_schedule:
  assumes "0 \<le> dq_RetryCount d" "dq_RetryCount d < 62"
  shows "dq_NextRetryAt (dq_RecordRetry now d)
      = now + min (2 ^ nat (dq_RetryCount d + 1)) 300 * second
    \<and> dq_LastFailedAt (dq_RecordRetry now d) = now
    \<and> dq_RetryCount (dq_RecordRetry now d) = dq_RetryCount d + 1"
proof -
  have "nat (dq_RetryCount d + 1) < 63" using assms by linarith
  then have "dq_backoff (dq_RetryCount d + 1) = min (2 ^ nat (dq_RetryCount d + 1)) 300"
    by (simp add: dq_backoff_def shift_one_below min_def)
  then show ?thesis by (simp add: dq_RecordRetry_def)
qed

definition example_event :: event where
  "example_event = \<lparr>ev_ID = ''e1'', ev_Type = ''agent.intent'', ev_Priority = 1,
     ev_SourceAgent = ''planner'', ev_TargetAgent = ''executor'', ev_CorrelationID = '''',
     ev_Payload = ''{}'', ev_Metadata = Map.empty, ev_Timestamp = 5, ev_SequenceNumber = 0,
     ev_TTL = 0\<rparr>"

theorem dq_backoff_schedule_witness:
  "dq_NextRetryAt (dq_RecordRetry 5 (fst (NewDLQEntry None 5 example_event ''boom'' 3
     \<lparr>entropyPool = [], fallbackCounter = 0\<rparr>))) = 5 + 2 * second"
  using dq_backoff_schedule [of "fst (NewDLQEntry None 5 example_event ''boom'' 3
      \<lparr>entropyPool = [], fallbackCounter = 0\<rparr>)" 5]
  by (simp add: NewDLQEntry_def case_prod_beta)

end
