(* ===== verification/Event_Bus.thy ===== *)
theory Event_Bus
  imports Event_Types
begin

text \<open>
  \<open>internal/eventbus/bus.go\<close>: the in-memory event bus. \<open>Publish\<close> finds the
  subscriptions of an event and starts one goroutine per delivery; the goroutines that
  have not run yet are the field \<open>b_pending\<close>, and \<open>bus_deliver\<close> is the body of one of
  them, which may run at any later point and in any order. The identifier state of
  \<open>id.go\<close>, a package variable, is the field \<open>b_ids\<close>. Logging, the delivery timeout and
  the callback \<open>OnDLQError\<close> do not touch the bus and are left out. The orders in which
  Go ranges over maps are arguments.
\<close>

type_synonym handler = "event \<Rightarrow> gostr option"

record delivery =
  dl_subID :: gostr
  dl_handler :: handler
  dl_event :: event
  dl_data :: gostr

record event_bus =
  b_config :: bus_config
  b_Handler :: "handler option"
  b_subs :: "(gostr, subscription) gomap"
  b_subTopics :: "(gostr, (gostr, bool) gomap) gomap"
  b_handlers :: "(gostr, handler) gomap"
  b_dlq :: "(gostr, dlq_entry) gomap"
  b_eventOrder :: sequencer
  b_closed :: bool
  b_pending :: "delivery list"
  b_ids :: id_state

datatype bus_error = ErrNilEvent | ErrEventExpired | ErrSerialize gostr | ErrNilSubscription
  | ErrClientIDRequired | ErrEventTypeRequired | ErrSubscriptionNotFound gostr
  | ErrDLQEntryNotFound gostr | ErrExceededMaxRetries int | ErrShuttingDown | BusPanic

definition DefaultBusConfig :: bus_config where
  "DefaultBusConfig = \<lparr>bc_Provider = ''memory'', bc_DLQMaxRetries = 3, bc_DefaultTTL = 24 * hour,
     bc_EnableOrdering = True, bc_OrderingKeyField = ''correlation_id''\<rparr>"

definition NewBus :: "bus_config \<Rightarrow> handler option \<Rightarrow> id_state \<Rightarrow> event_bus" where
  "NewBus cfg h ids =
     \<lparr>b_config = cfg, b_Handler = h, b_subs = Map.empty,
      b_subTopics = [EventTypeIntent \<mapsto> Map.empty, EventTypeDecision \<mapsto> Map.empty,
        EventTypeApproval \<mapsto> Map.empty, EventTypeRejection \<mapsto> Map.empty,
        EventTypeError \<mapsto> Map.empty],
      b_handlers = Map.empty, b_dlq = Map.empty, b_eventOrder = NewEventSequencer,
      b_closed = False, b_pending = [], b_ids = ids\<rparr>"

section \<open>Matching\<close>

record range_orders =
  ro_topic :: "gostr list"
  ro_wildcard :: "gostr list"
  ro_subs :: "gostr list"
  ro_metadata :: "gostr \<Rightarrow> gostr list"

definition topic :: "gostr \<Rightarrow> event_bus \<Rightarrow> (gostr, bool) gomap" where
  "topic t b = map_get Map.empty (b_subTopics b) t"

definition targets :: "event \<Rightarrow> subscription \<Rightarrow> bool" where
  "targets e sub \<longleftrightarrow> sub_TargetAgent sub = ev_TargetAgent e
     \<and> list_ex (\<lambda>et. et = ev_Type e \<or> et = '''') (sub_EventTypes sub)"

definition findSubscribers :: "range_orders \<Rightarrow> event \<Rightarrow> event_bus \<Rightarrow> gostr list" where
  "findSubscribers ro e b =
     map fst (range_of (ro_topic ro) (topic (ev_Type e) b))
     @ map fst (range_of (ro_wildcard ro) (topic '''' b))
     @ (if ev_TargetAgent e \<noteq> ''''
        then map (sub_ID \<circ> snd) (filter (targets e \<circ> snd) (range_of (ro_subs ro) (b_subs b)))
        else [])"

primrec metadata_ok :: "event \<Rightarrow> (gostr \<times> dyn) list \<Rightarrow> bool option" where
  "metadata_ok e [] = Some True"
| "metadata_ok e (kv # kvs) = (case ev_Metadata e (fst kv) of
     None \<Rightarrow> Some False
   | Some actual \<Rightarrow> (case dyn_eq actual (snd kv) of
       None \<Rightarrow> None
     | Some eq \<Rightarrow> if \<not> eq then Some False else metadata_ok e kvs))"

definition matchesFilter :: "gostr list \<Rightarrow> event \<Rightarrow> sub_filter option \<Rightarrow> bool option" where
  "matchesFilter order e filt = (case filt of
     None \<Rightarrow> Some True
   | Some f \<Rightarrow>
       if f_SourceAgents f \<noteq> [] \<and> \<not> list_ex (\<lambda>a. a = ev_SourceAgent e) (f_SourceAgents f)
       then Some False
       else if f_PriorityThreshold f > 0 \<and> ev_Priority e < f_PriorityThreshold f
       then Some False
       else metadata_ok e (range_of order (f_MetadataFilters f)))"

section \<open>Publishing and delivery\<close>

text \<open>
  One round of the loop of \<open>Publish\<close> over the subscribers it found: the handler and the subscription are
  read under the read lock, and a goroutine is started for the delivery. The first component tells
  whether the round panicked, on an uncomparable metadata value or a missing subscription.
\<close>

definition publish_offer :: "range_orders \<Rightarrow> event \<Rightarrow> gostr \<Rightarrow> gostr \<Rightarrow> event_bus \<Rightarrow> bool \<times> event_bus" where
  "publish_offer ro e data subID b = (case b_handlers b subID of
     None \<Rightarrow> (False, b)
   | Some h \<Rightarrow> (case b_subs b subID of
       None \<Rightarrow> (True, b)
     | Some sub \<Rightarrow>
         if \<not> sub_Active sub then (False, b)
         else (case matchesFilter (ro_metadata ro subID) e (sub_Filter sub) of
             None \<Rightarrow> (True, b)
           | Some False \<Rightarrow> (False, b)
           | Some True \<Rightarrow> (False, b\<lparr>b_pending := b_pending b @
               [\<lparr>dl_subID = subID, dl_handler = h, dl_event = e, dl_data = data\<rparr>]\<rparr>))))"

text \<open>
  The loop holds no lock between its rounds: \<open>f k\<close> is what the rest of the program does to the bus before
  round \<open>k\<close>.
\<close>

type_synonym interference = "nat \<Rightarrow> event_bus \<Rightarrow> event_bus"

fun dispatch :: "interference \<Rightarrow> range_orders \<Rightarrow> event \<Rightarrow> gostr \<Rightarrow> gostr list \<Rightarrow> event_bus \<Rightarrow> bool \<times> event_bus" where
  "dispatch f ro e data [] b = (False, b)"
| "dispatch f ro e data (subID # ids) b = (case publish_offer ro e data subID (f 0 b) of
     (True, b) \<Rightarrow> (True, b)
   | (False, b) \<Rightarrow> dispatch (\<lambda>k. f (Suc k)) ro e data ids b)"

definition partition_key :: "event \<Rightarrow> gostr" where
  "partition_key e = (if ev_CorrelationID e = '''' then ev_SourceAgent e else ev_CorrelationID e)"

text \<open>
  \<open>Publish\<close> first completes the identifier and the timestamp of the event, which the
  caller's event keeps; then, under the lock, numbers it within its partition.
\<close>

definition publish_stamp ::
  "8 word list option \<Rightarrow> gtime \<Rightarrow> event \<Rightarrow> event_bus \<Rightarrow> event \<times> event_bus" where
  "publish_stamp entropy now e b =
     (let (i, ids) = (if ev_ID e = [] then generateEventID entropy (unix_ms now) (b_ids b)
                      else (ev_ID e, b_ids b))
      in (e\<lparr>ev_ID := i, ev_Timestamp := (if ev_Timestamp e = zero_time then now else ev_Timestamp e)\<rparr>,
          b\<lparr>b_ids := ids\<rparr>))"

definition publish_sequence :: "event \<Rightarrow> event_bus \<Rightarrow> event \<times> event_bus" where
  "publish_sequence e b =
     (if bc_EnableOrdering (b_config b)
      then let (n, s) = seq_Next (partition_key e) (b_eventOrder b)
           in (e\<lparr>ev_SequenceNumber := n\<rparr>, b\<lparr>b_eventOrder := s\<rparr>)
      else (e, b))"

text \<open>
  \<open>Publish\<close> up to its loop: the checks, the critical section that numbers the event and finds its
  subscribers, and the serialisation; then the whole of it.
\<close>

definition publish_begin :: "(event \<Rightarrow> gostr + gostr) \<Rightarrow> 8 word list option \<Rightarrow> range_orders \<Rightarrow> gtime
    \<Rightarrow> event option \<Rightarrow> event_bus \<Rightarrow> (bus_error + gostr \<times> gostr list) \<times> event option \<times> event_bus" where
  "publish_begin toJSON entropy ro now ev b = (case ev of
     None \<Rightarrow> (Inl ErrNilEvent, None, b)
   | Some e \<Rightarrow>
       let (e, b) = publish_stamp entropy now e b
       in if ev_IsExpired now e then (Inl ErrEventExpired, Some e, b)
       else
         let (e, b) = publish_sequence e b;
             subscribers = findSubscribers ro e b
         in (case toJSON e of
               Inl err \<Rightarrow> (Inl (ErrSerialize err), Some e, b)
             | Inr data \<Rightarrow> (Inr (data, subscribers), Some e, b)))"

definition bus_Publish :: "(event \<Rightarrow> gostr + gostr) \<Rightarrow> 8 word list option \<Rightarrow> range_orders \<Rightarrow> gtime \<Rightarrow> interference
    \<Rightarrow> event option \<Rightarrow> event_bus \<Rightarrow> bus_error option \<times> event option \<times> event_bus" where
  "bus_Publish toJSON entropy ro now f ev b = (case publish_begin toJSON entropy ro now ev b of
     (Inr (data, subscribers), Some e, b) \<Rightarrow>
       let (panic, b) = dispatch f ro e data subscribers b
       in (if panic then Some BusPanic else None, Some e, b)
   | (r, ev, b) \<Rightarrow> (case r of Inl err \<Rightarrow> Some err | Inr _ \<Rightarrow> None, ev, b))"

definition bus_sendToDLQ ::
  "8 word list option \<Rightarrow> gtime \<Rightarrow> event \<Rightarrow> gostr \<Rightarrow> event_bus \<Rightarrow> event_bus" where
  "bus_sendToDLQ entropy now e err b =
     (let (entry, ids) = NewDLQEntry entropy now e err (bc_DLQMaxRetries (b_config b)) (b_ids b)
      in b\<lparr>b_dlq := (b_dlq b)(dq_ID entry \<mapsto> entry), b_ids := ids\<rparr>)"

text \<open>The goroutine of the delivery at position \<open>i\<close> of the pending ones runs.\<close>

definition bus_deliver :: "(gostr \<Rightarrow> gostr + event) \<Rightarrow> 8 word list option \<Rightarrow> gtime \<Rightarrow> nat
    \<Rightarrow> event_bus \<Rightarrow> event_bus" where
  "bus_deliver parseEvent entropy now i b =
     (if i < length (b_pending b) then
        let d = b_pending b ! i;
            b = b\<lparr>b_pending := take i (b_pending b) @ drop (Suc i) (b_pending b)\<rparr>
        in (case parseEvent (dl_data d) of
              Inl err \<Rightarrow> bus_sendToDLQ entropy now (dl_event d) (''failed to parse event: '' @ err) b
            | Inr parsed \<Rightarrow> (case dl_handler d parsed of
                None \<Rightarrow> b
              | Some err \<Rightarrow> bus_sendToDLQ entropy now (dl_event d) err b))
      else b)"

section \<open>Subscriptions and dead letters\<close>

text \<open>The critical section of \<open>Subscribe\<close>.\<close>

definition bus_register :: "subscription \<Rightarrow> event_bus \<Rightarrow> event_bus" where
  "bus_register sub b =
     (let b = b\<lparr>b_subs := (b_subs b)(sub_ID sub \<mapsto> sub),
            b_subTopics := fold (\<lambda>t m. m(t \<mapsto> (map_get Map.empty m t)(sub_ID sub \<mapsto> True)))
              (sub_EventTypes sub) (b_subTopics b)\<rparr>
      in case b_Handler b of
           None \<Rightarrow> b
         | Some h \<Rightarrow> b\<lparr>b_handlers := (b_handlers b)(sub_ID sub \<mapsto> h)\<rparr>)"

definition bus_Subscribe :: "8 word list option \<Rightarrow> gtime \<Rightarrow> subscription option \<Rightarrow> event_bus
    \<Rightarrow> bus_error option \<times> event_bus" where
  "bus_Subscribe entropy now s b = (case s of
     None \<Rightarrow> (Some ErrNilSubscription, b)
   | Some sub \<Rightarrow>
       let (i, ids) = (if sub_ID sub = [] then GenerateSubscriptionID entropy (unix_ms now) (b_ids b)
                       else (sub_ID sub, b_ids b));
           sub = sub\<lparr>sub_ID := i\<rparr>;
           b = b\<lparr>b_ids := ids\<rparr>
       in if sub_ClientID sub = [] then (Some ErrClientIDRequired, b)
       else if sub_EventTypes sub = [] then (Some ErrEventTypeRequired, b)
       else (None, bus_register (sub\<lparr>sub_CreatedAt := now, sub_Active := True\<rparr>) b))"

definition bus_Unsubscribe :: "gostr \<Rightarrow> event_bus \<Rightarrow> bus_error option \<times> event_bus" where
  "bus_Unsubscribe subscriptionID b = (case b_subs b subscriptionID of
     None \<Rightarrow> (Some (ErrSubscriptionNotFound subscriptionID), b)
   | Some sub \<Rightarrow>
       (None, b\<lparr>b_subTopics := fold
            (\<lambda>t m. case m t of None \<Rightarrow> m | Some ids \<Rightarrow> m(t \<mapsto> ids(subscriptionID := None)))
            (sub_EventTypes sub) (b_subTopics b),
          b_handlers := (b_handlers b)(subscriptionID := None),
          b_subs := (b_subs b)(subscriptionID \<mapsto> sub\<lparr>sub_Active := False\<rparr>)\<rparr>))"

definition bus_GetSubscriptions :: "gostr list \<Rightarrow> gostr \<Rightarrow> event_bus \<Rightarrow> subscription list" where
  "bus_GetSubscriptions order clientID b =
     filter (\<lambda>sub. sub_ClientID sub = clientID) (map snd (range_of order (b_subs b)))"

definition bus_GetDLQEntries ::
  "gostr list \<Rightarrow> dlq_status option \<Rightarrow> int \<Rightarrow> event_bus \<Rightarrow> dlq_entry list" where
  "bus_GetDLQEntries order status limit b =
     (let entries = filter (\<lambda>d. case status of None \<Rightarrow> True | Some st \<Rightarrow> dq_Status d = st)
            (map snd (range_of order (b_dlq b)))
      in if limit > 0 then take (nat limit) entries else entries)"

definition bus_RetryDLQEntry :: "gtime \<Rightarrow> gostr \<Rightarrow> event_bus \<Rightarrow> bus_error option \<times> event_bus" where
  "bus_RetryDLQEntry now entryID b = (case b_dlq b entryID of
     None \<Rightarrow> (Some (ErrDLQEntryNotFound entryID), b)
   | Some entry \<Rightarrow>
       if \<not> dq_ShouldRetry entry then (Some (ErrExceededMaxRetries (dq_MaxRetries entry)), b)
       else let entry = dq_RecordRetry now entry;
                b = b\<lparr>b_dlq := (b_dlq b)(entryID \<mapsto> entry)\<rparr>
            in (None, b\<lparr>b_dlq := (b_dlq b)(entryID := None)\<rparr>))"

definition bus_PurgeDLQEntry :: "gostr \<Rightarrow> event_bus \<Rightarrow> bus_error option \<times> event_bus" where
  "bus_PurgeDLQEntry entryID b = (case b_dlq b entryID of
     None \<Rightarrow> (Some (ErrDLQEntryNotFound entryID), b)
   | Some _ \<Rightarrow> (None, b\<lparr>b_dlq := (b_dlq b)(entryID := None)\<rparr>))"

definition bus_HealthCheck :: "event_bus \<Rightarrow> bus_error option" where
  "bus_HealthCheck b = (if b_closed b then Some ErrShuttingDown else None)"

definition bus_Close :: "event_bus \<Rightarrow> event_bus" where
  "bus_Close b = b\<lparr>b_closed := True\<rparr>"

section \<open>The subscription index\<close>

lemma topics_subscribe:
  "map_get Map.empty (fold (\<lambda>t m. m(t \<mapsto> (map_get Map.empty m t)(i \<mapsto> True))) ts m) t
     = (if t \<in> set ts then (map_get Map.empty m t)(i \<mapsto> True) else map_get Map.empty m t)"
  by (induction ts arbitrary: m) auto

lemma topics_unsubscribe:
  "map_get Map.empty (fold (\<lambda>t m. case m t of None \<Rightarrow> m | Some ids \<Rightarrow> m(t \<mapsto> ids(i := None))) ts m) t
     = (if t \<in> set ts then (map_get Map.empty m t)(i := None) else map_get Map.empty m t)"
proof (induction ts arbitrary: m)
  case Nil
  then show ?case by simp
next
  case (Cons a ts)
  then show ?case by (cases "m a") (auto simp: map_get_def)
qed

text \<open>
  The index is consistent: a subscription is stored under its identifier, a handler
  belongs to an active subscription, a topic lists known subscriptions only, and an
  active subscription is listed under each of its event types.
\<close>

definition bus_inv :: "event_bus \<Rightarrow> bool" where
  "bus_inv b \<longleftrightarrow>
     (\<forall>i s. b_subs b i = Some s \<longrightarrow> sub_ID s = i)
     \<and> (\<forall>i h. b_handlers b i = Some h \<longrightarrow> (\<exists>s. b_subs b i = Some s \<and> sub_Active s))
     \<and> (\<forall>t i. topic t b i \<noteq> None \<longrightarrow> b_subs b i \<noteq> None)
     \<and> (\<forall>i s. b_subs b i = Some s \<longrightarrow> sub_Active s \<longrightarrow>
          (\<forall>t \<in> set (sub_EventTypes s). topic t b i \<noteq> None))"

inductive bus_step :: "event_bus \<Rightarrow> event_bus \<Rightarrow> bool" where
  publish_begin: "publish_begin toJSON entropy ro now ev b = (r, ev', b') \<Longrightarrow> bus_step b b'"
| publish_offer: "bus_step b (snd (publish_offer ro e data i b))"
| deliver: "bus_step b (bus_deliver parseEvent entropy now i b)"
| subscribe: "bus_Subscribe entropy now s b = (r, b') \<Longrightarrow> bus_step b b'"
| unsubscribe: "bus_Unsubscribe i b = (r, b') \<Longrightarrow> bus_step b b'"
| retry: "bus_RetryDLQEntry now i b = (r, b') \<Longrightarrow> bus_step b b'"
| purge: "bus_PurgeDLQEntry i b = (r, b') \<Longrightarrow> bus_step b b'"
| close: "bus_step b (bus_Close b)"

text \<open>The fields the index consists of; most operations leave them alone.\<close>

definition same_index :: "event_bus \<Rightarrow> event_bus \<Rightarrow> bool" where
  "same_index b b' \<longleftrightarrow> b_subs b' = b_subs b \<and> b_subTopics b' = b_subTopics b
     \<and> b_handlers b' = b_handlers b \<and> b_Handler b' = b_Handler b \<and> b_config b' = b_config b"

lemma same_index_refl [simp]: "same_index b b"
  by (simp add: same_index_def)

lemma same_index_trans: "same_index a b \<Longrightarrow> same_index b c \<Longrightarrow> same_index a c"
  by (simp add: same_index_def)

lemma same_index_inv: "same_index b b' \<Longrightarrow> bus_inv b \<Longrightarrow> bus_inv b'"
  by (simp add: same_index_def bus_inv_def topic_def)

lemma findSubscribers_same: "same_index b b' \<Longrightarrow> findSubscribers ro e b' = findSubscribers ro e b"
  by (simp add: same_index_def findSubscribers_def topic_def)

lemma offer_same_index: "same_index b (snd (publish_offer ro e data i b))"
  by (auto simp: publish_offer_def same_index_def split: option.splits bool.splits)

lemma stamp_same_index: "same_index b (snd (publish_stamp entropy now e b))"
  by (simp add: publish_stamp_def same_index_def case_prod_beta)

lemma sequence_same_index: "same_index b (snd (publish_sequence e b))"
  by (simp add: publish_sequence_def same_index_def case_prod_beta)

lemma publish_begin_cases:
  assumes "publish_begin toJSON entropy ro now ev b = (r, ev', b')"
  obtains (nil) "ev = None" "r = Inl ErrNilEvent" "ev' = None" "b' = b"
  | (expired) e e0 where "ev = Some e" "publish_stamp entropy now e b = (e0, b')"
      "ev_IsExpired now e0" "r = Inl ErrEventExpired" "ev' = Some e0"
  | (numbered) e e0 b0 e1 where "ev = Some e" "publish_stamp entropy now e b = (e0, b0)"
      "\<not> ev_IsExpired now e0" "publish_sequence e0 b0 = (e1, b')" "ev' = Some e1"
      "r = (case toJSON e1 of Inl err \<Rightarrow> Inl (ErrSerialize err) | Inr data \<Rightarrow> Inr (data, findSubscribers ro e1 b'))"
  using assms unfolding publish_begin_def
  by (auto simp: Let_def split: option.splits prod.splits if_splits sum.splits)

lemma publish_begin_same_index:
  assumes "publish_begin toJSON entropy ro now ev b = (r, ev', b')"
  shows "same_index b b'"
  using assms
proof (cases rule: publish_begin_cases)
  case nil
  then show ?thesis by simp
next
  case (expired e e0)
  then show ?thesis using stamp_same_index [of b entropy now e] by simp
next
  case (numbered e e0 b0 e1)
  then show ?thesis
    using stamp_same_index [of b entropy now e] sequence_same_index [of b0 e0]
    by (auto intro: same_index_trans)
qed

text \<open>A publication that returns without an error.\<close>

lemma publish_accepted:
  assumes "bus_Publish toJSON entropy ro now f ev b = (None, Some e, b')"
  obtains data ids b0 where "publish_begin toJSON entropy ro now ev b = (Inr (data, ids), Some e, b0)"
    "dispatch f ro e data ids b0 = (False, b')"
  using assms unfolding bus_Publish_def
  by (auto simp: Let_def split: prod.splits sum.splits option.splits if_splits)

lemma sendToDLQ_same_index: "same_index b (bus_sendToDLQ entropy now e err b)"
  by (simp add: bus_sendToDLQ_def same_index_def case_prod_beta)

lemma deliver_same_index: "same_index b (bus_deliver parseEvent entropy now i b)"
proof -
  let ?b = "b\<lparr>b_pending := take i (b_pending b) @ drop (Suc i) (b_pending b)\<rparr>"
  have "same_index b ?b" by (simp add: same_index_def)
  moreover have "same_index b (bus_sendToDLQ entropy now e err ?b)" for e err
    using \<open>same_index b ?b\<close> sendToDLQ_same_index by (rule same_index_trans)
  ultimately show ?thesis by (auto simp: bus_deliver_def Let_def split: sum.splits option.splits)
qed

lemma register_inv:
  assumes "bus_inv b" "sub_Active sub"
  shows "bus_inv (bus_register sub b)"
proof -
  let ?i = "sub_ID sub" and ?b = "bus_register sub b"
  have b': "b_subs ?b = (b_subs b)(?i \<mapsto> sub)"
    "b_subTopics ?b = fold (\<lambda>t m. m(t \<mapsto> (map_get Map.empty m t)(?i \<mapsto> True)))
       (sub_EventTypes sub) (b_subTopics b)"
    "b_handlers ?b = (case b_Handler b of None \<Rightarrow> b_handlers b | Some h \<Rightarrow> (b_handlers b)(?i \<mapsto> h))"
    by (simp_all add: bus_register_def Let_def split: option.splits)
  have topic: "topic t ?b = (if t \<in> set (sub_EventTypes sub) then (topic t b)(?i \<mapsto> True) else topic t b)" for t
    unfolding topic_def b'(2) by (rule topics_subscribe)
  show ?thesis
    using assms unfolding bus_inv_def topic b'(1,3)
    by (cases "b_Handler b") (auto split: if_splits)
qed

lemma subscribe_cases:
  assumes "bus_Subscribe entropy now s b = (r, b')"
  obtains (refused) "r \<noteq> None" "same_index b b'"
  | (accepted) sub b0 where "r = None" "same_index b b0" "sub_Active sub" "b' = bus_register sub b0"
proof (cases "r = None")
  case False
  with assms have "same_index b b'"
    by (auto simp: bus_Subscribe_def same_index_def Let_def case_prod_beta
        split: option.splits if_splits)
  with False show ?thesis by (rule refused)
next
  case True
  have "\<exists>sub b0. b' = bus_register sub b0 \<and> sub_Active sub \<and> same_index b b0"
  proof (cases s)
    case None
    with assms True show ?thesis by (simp add: bus_Subscribe_def)
  next
    case (Some sub)
    let ?g = "if sub_ID sub = [] then GenerateSubscriptionID entropy (unix_ms now) (b_ids b)
      else (sub_ID sub, b_ids b)"
    have "b' = bus_register (sub\<lparr>sub_ID := fst ?g, sub_CreatedAt := now, sub_Active := True\<rparr>)
        (b\<lparr>b_ids := snd ?g\<rparr>)"
      using assms True Some by (auto simp: bus_Subscribe_def Let_def case_prod_beta split: if_splits)
    moreover have "same_index b (b\<lparr>b_ids := snd ?g\<rparr>)" by (simp add: same_index_def)
    ultimately show ?thesis by (metis (no_types, lifting) subscription.select_convs(7)
        subscription.surjective subscription.update_convs(7))
  qed
  with True show ?thesis by (auto intro: accepted)
qed

lemma subscribe_inv:
  assumes "bus_Subscribe entropy now s b = (r, b')" "bus_inv b"
  shows "bus_inv b'"
  using assms(1)
proof (cases rule: subscribe_cases)
  case refused
  with assms(2) show ?thesis by (blast intro: same_index_inv)
next
  case (accepted sub b0)
  with assms(2) show ?thesis by (auto intro: register_inv same_index_inv)
qed

lemma unsubscribe_inv:
  assumes "bus_Unsubscribe i b = (r, b')" "bus_inv b"
  shows "bus_inv b'"
proof (cases "b_subs b i")
  case None
  with assms show ?thesis by (simp add: bus_Unsubscribe_def)
next
  case (Some sub)
  then have b': "b_subs b' = (b_subs b)(i \<mapsto> sub\<lparr>sub_Active := False\<rparr>)"
    "b_handlers b' = (b_handlers b)(i := None)"
    "b_subTopics b' = fold (\<lambda>t m. case m t of None \<Rightarrow> m | Some ids \<Rightarrow> m(t \<mapsto> ids(i := None)))
       (sub_EventTypes sub) (b_subTopics b)"
    using assms(1) by (auto simp: bus_Unsubscribe_def)
  have topic: "topic t b' = (if t \<in> set (sub_EventTypes sub) then (topic t b)(i := None) else topic t b)" for t
    unfolding topic_def b'(3) by (rule topics_unsubscribe)
  show ?thesis
    using assms(2) Some unfolding bus_inv_def topic b'(1,2) by (auto split: if_splits)
qed

lemma bus_step_inv: "bus_step b b' \<Longrightarrow> bus_inv b \<Longrightarrow> bus_inv b'"
proof (induction rule: bus_step.induct)
  case (publish_begin toJSON entropy ro now ev b r ev' b')
  then show ?case using publish_begin_same_index same_index_inv by blast
next
  case (publish_offer b ro e data i)
  then show ?case using offer_same_index same_index_inv by blast
next
  case (deliver b parseEvent entropy now i)
  then show ?case using deliver_same_index same_index_inv by blast
next
  case (retry now i b r b')
  then have "same_index b b'"
    by (auto simp: bus_RetryDLQEntry_def same_index_def Let_def split: option.splits if_splits)
  then show ?case using retry.prems by (rule same_index_inv)
next
  case (purge i b r b')
  then have "same_index b b'"
    by (auto simp: bus_PurgeDLQEntry_def same_index_def split: option.splits)
  then show ?case using purge.prems by (rule same_index_inv)
next
  case (close b)
  then show ?case by (rule same_index_inv [rotated]) (simp add: bus_Close_def same_index_def)
qed (auto intro: subscribe_inv unsubscribe_inv)

lemma NewBus_inv: "bus_inv (NewBus cfg h ids)"
  by (simp add: bus_inv_def NewBus_def topic_def map_get_def)

lemma bus_reachable_inv: "bus_step\<^sup>*\<^sup>* (NewBus cfg h ids) b \<Longrightarrow> bus_inv b"
  by (induction rule: rtranclp_induct) (auto intro: NewBus_inv bus_step_inv)

section \<open>Deliveries\<close>

text \<open>Whether a subscription is delivered an event that it is offered, and how many deliveries to it are under way.\<close>

definition delivers :: "range_orders \<Rightarrow> event \<Rightarrow> event_bus \<Rightarrow> gostr \<Rightarrow> bool" where
  "delivers ro e b i = (case b_handlers b i of
     None \<Rightarrow> False
   | Some _ \<Rightarrow> (case b_subs b i of
       None \<Rightarrow> False
     | Some sub \<Rightarrow> sub_Active sub \<and> matchesFilter (ro_metadata ro i) e (sub_Filter sub) = Some True))"

definition started :: "event_bus \<Rightarrow> gostr \<Rightarrow> nat" where
  "started b i = count_list (map dl_subID (b_pending b)) i"

definition leaves_alone :: "gostr \<Rightarrow> interference \<Rightarrow> bool" where
  "leaves_alone i f \<longleftrightarrow> (\<forall>k b. b_handlers (f k b) i = b_handlers b i \<and> b_subs (f k b) i = b_subs b i \<and> started (f k b) i = started b i)"

lemma delivers_cong:
  "b_handlers b' i = b_handlers b i \<Longrightarrow> b_subs b' i = b_subs b i \<Longrightarrow> delivers ro e b' i = delivers ro e b i"
  by (auto simp: delivers_def split: option.splits)

lemma delivers_same: "same_index b b' \<Longrightarrow> delivers ro e b' i = delivers ro e b i"
  by (rule delivers_cong) (simp_all add: same_index_def)

lemma started_append [simp]: "started (b\<lparr>b_pending := b_pending b @ ds\<rparr>) i = started b i + count_list (map dl_subID ds) i"
  by (simp add: started_def)

lemma publish_offer_started:
  assumes "publish_offer ro e data j b = (False, b')"
  shows "started b' i = started b i + of_bool (j = i \<and> delivers ro e b i)"
  using assms by (auto simp: publish_offer_def delivers_def split: option.splits if_splits bool.splits)

lemma dispatch_started:
  assumes "leaves_alone i f" "dispatch f ro e data ids b = (False, b')"
  shows "started b' i = started b i + (if delivers ro e b i then count_list ids i else 0)"
  using assms
proof (induction ids arbitrary: f b)
  case (Cons j ids)
  obtain b1 where b1: "publish_offer ro e data j (f 0 b) = (False, b1)" "dispatch (\<lambda>k. f (Suc k)) ro e data ids b1 = (False, b')"
    using Cons.prems(2) by (auto split: prod.splits bool.splits)
  have f: "b_handlers (f 0 b) i = b_handlers b i" "b_subs (f 0 b) i = b_subs b i" "started (f 0 b) i = started b i"
    using Cons.prems(1) by (auto simp: leaves_alone_def)
  have d: "delivers ro e (f 0 b) i = delivers ro e b i" by (rule delivers_cong) (fact f)+
  moreover have "delivers ro e b1 i = delivers ro e (f 0 b) i"
    using offer_same_index [of "f 0 b" ro e data j] b1(1) by (simp add: delivers_same)
  moreover have "started b' i = started b1 i + (if delivers ro e b1 i then count_list ids i else 0)"
    by (rule Cons.IH [OF _ b1(2)]) (use Cons.prems(1) in \<open>simp add: leaves_alone_def\<close>)
  ultimately show ?case using publish_offer_started [OF b1(1), of i] f(3) by simp
qed simp

lemma range_of_keys: "enumerates ks m \<Longrightarrow> map fst (range_of ks m) = ks"
proof -
  have "set ks \<subseteq> dom m \<Longrightarrow> map fst (range_of ks m) = ks"
    by (induction ks) (auto split: option.splits)
  then show "enumerates ks m \<Longrightarrow> map fst (range_of ks m) = ks" by (simp add: enumerates_def)
qed

lemma count_distinct: "distinct xs \<Longrightarrow> count_list xs x = (if x \<in> set xs then 1 else 0)"
  by (induction xs) auto

lemma count_enumerates: "enumerates ks m \<Longrightarrow> count_list ks k = of_bool (m k \<noteq> None)"
  by (auto simp: enumerates_def count_distinct)

definition targeted :: "event \<Rightarrow> event_bus \<Rightarrow> gostr \<Rightarrow> bool" where
  "targeted e b i = (case b_subs b i of None \<Rightarrow> False | Some sub \<Rightarrow> targets e sub)"

lemma target_keys:
  assumes "\<forall>i s. m i = Some s \<longrightarrow> sub_ID s = i"
  shows "map (sub_ID \<circ> snd) (filter (P \<circ> snd) (range_of ks m))
    = filter (\<lambda>i. case m i of None \<Rightarrow> False | Some s \<Rightarrow> P s) ks"
  using assms by (induction ks) (auto split: option.splits)

lemma count_list_filter: "count_list (filter P xs) x = (if P x then count_list xs x else 0)"
  by (induction xs) auto

text \<open>The range orders of a publication are enumerations of the maps it ranges over.\<close>

definition orders_ok :: "range_orders \<Rightarrow> event \<Rightarrow> event_bus \<Rightarrow> bool" where
  "orders_ok ro e b \<longleftrightarrow> enumerates (ro_topic ro) (topic (ev_Type e) b)
     \<and> enumerates (ro_wildcard ro) (topic [] b) \<and> enumerates (ro_subs ro) (b_subs b)"

definition copies :: "event \<Rightarrow> event_bus \<Rightarrow> gostr \<Rightarrow> nat" where
  "copies e b i = of_bool (topic (ev_Type e) b i \<noteq> None) + of_bool (topic [] b i \<noteq> None)
     + of_bool (ev_TargetAgent e \<noteq> [] \<and> targeted e b i)"

lemma findSubscribers_count:
  assumes "bus_inv b" "orders_ok ro e b"
  shows "count_list (findSubscribers ro e b) i = copies e b i"
proof -
  have "map (sub_ID \<circ> snd) (filter (targets e \<circ> snd) (range_of (ro_subs ro) (b_subs b)))
      = filter (targeted e b) (ro_subs ro)"
    unfolding targeted_def using assms(1) by (intro target_keys) (auto simp: bus_inv_def)
  moreover have "targeted e b i \<Longrightarrow> b_subs b i \<noteq> None" by (auto simp: targeted_def split: option.splits)
  ultimately show ?thesis
    using assms(2)
    by (auto simp: findSubscribers_def copies_def orders_ok_def range_of_keys count_list_filter
        count_enumerates)
qed

text \<open>
  What an event asks for, read off the subscription alone: a delivery when the subscription lists the type of
  the event, one when it lists the wildcard, and one when it names the target agent of the event and lists
  either.
\<close>

definition wanted :: "event \<Rightarrow> subscription \<Rightarrow> nat" where
  "wanted e s = of_bool (ev_Type e \<in> set (sub_EventTypes s)) + of_bool ([] \<in> set (sub_EventTypes s))
     + of_bool (ev_TargetAgent e \<noteq> [] \<and> sub_TargetAgent s = ev_TargetAgent e
         \<and> (ev_Type e \<in> set (sub_EventTypes s) \<or> [] \<in> set (sub_EventTypes s)))"

text \<open>
  As long as no step replaces a subscription by another of the same identifier, the topics list exactly the
  active subscriptions under their event types, and exactly these have the handler of the bus.
\<close>

definition index_exact :: "handler option \<Rightarrow> event_bus \<Rightarrow> bool" where
  "index_exact h b \<longleftrightarrow> b_Handler b = h
     \<and> (\<forall>t i. topic t b i \<noteq> None \<longleftrightarrow> (\<exists>s. b_subs b i = Some s \<and> sub_Active s \<and> t \<in> set (sub_EventTypes s)))
     \<and> (\<forall>i. b_handlers b i = (case b_subs b i of Some s \<Rightarrow> if sub_Active s then h else None | None \<Rightarrow> None))"

definition keeps_subscriptions :: "event_bus \<Rightarrow> event_bus \<Rightarrow> bool" where
  "keeps_subscriptions b b' \<longleftrightarrow> (\<forall>i s. b_subs b i = Some s \<longrightarrow> (\<exists>s'. b_subs b' i = Some s' \<and> (s' = s \<or> s' = s\<lparr>sub_Active := False\<rparr>)))"

definition fresh_step :: "event_bus \<Rightarrow> event_bus \<Rightarrow> bool" where
  "fresh_step b b' \<longleftrightarrow> bus_step b b' \<and> keeps_subscriptions b b'"

lemma same_index_exact: "same_index b b' \<Longrightarrow> index_exact h b \<Longrightarrow> index_exact h b'"
  by (simp add: same_index_def index_exact_def topic_def)

lemma register_exact:
  assumes "index_exact h b" "sub_Active sub" "\<forall>s. b_subs b (sub_ID sub) = Some s \<longrightarrow> sub = s"
  shows "index_exact h (bus_register sub b)"
proof -
  let ?i = "sub_ID sub" and ?b = "bus_register sub b"
  have b': "b_subs ?b = (b_subs b)(?i \<mapsto> sub)" "b_Handler ?b = b_Handler b"
    "b_subTopics ?b = fold (\<lambda>t m. m(t \<mapsto> (map_get Map.empty m t)(?i \<mapsto> True)))
       (sub_EventTypes sub) (b_subTopics b)"
    "b_handlers ?b = (case b_Handler b of None \<Rightarrow> b_handlers b | Some h \<Rightarrow> (b_handlers b)(?i \<mapsto> h))"
    by (simp_all add: bus_register_def Let_def split: option.splits)
  have topic: "topic t ?b = (if t \<in> set (sub_EventTypes sub) then (topic t b)(?i \<mapsto> True) else topic t b)" for t
    unfolding topic_def b'(3) by (rule topics_subscribe)
  have t: "topic t ?b j \<noteq> None \<longleftrightarrow> (\<exists>s. b_subs ?b j = Some s \<and> sub_Active s \<and> t \<in> set (sub_EventTypes s))" for t j
  proof -
    have "topic t b j \<noteq> None \<longleftrightarrow> (\<exists>s. b_subs b j = Some s \<and> sub_Active s \<and> t \<in> set (sub_EventTypes s))"
      using assms(1) unfolding index_exact_def by blast
    then show ?thesis using assms(2,3) unfolding topic b'(1) by (cases "j = ?i") auto
  qed
  have "b_handlers ?b j = (case b_subs ?b j of Some s \<Rightarrow> if sub_Active s then h else None | None \<Rightarrow> None)" for j
  proof -
    have "b_handlers b j = (case b_subs b j of Some s \<Rightarrow> if sub_Active s then h else None | None \<Rightarrow> None)" "b_Handler b = h"
      using assms(1) by (auto simp: index_exact_def)
    then show ?thesis unfolding b'(1,4) using assms(2) by (cases h) (auto split: option.splits)
  qed
  then show ?thesis using t assms(1) b'(2) by (simp add: index_exact_def)
qed

lemma unsubscribe_exact:
  assumes "bus_Unsubscribe i b = (r, b')" "index_exact h b"
  shows "index_exact h b'"
proof (cases "b_subs b i")
  case None
  with assms show ?thesis by (simp add: bus_Unsubscribe_def)
next
  case (Some sub)
  then have b': "b_subs b' = (b_subs b)(i \<mapsto> sub\<lparr>sub_Active := False\<rparr>)" "b_Handler b' = b_Handler b"
    "b_handlers b' = (b_handlers b)(i := None)"
    "b_subTopics b' = fold (\<lambda>t m. case m t of None \<Rightarrow> m | Some ids \<Rightarrow> m(t \<mapsto> ids(i := None)))
       (sub_EventTypes sub) (b_subTopics b)"
    using assms(1) by (auto simp: bus_Unsubscribe_def)
  have topic: "topic t b' = (if t \<in> set (sub_EventTypes sub) then (topic t b)(i := None) else topic t b)" for t
    unfolding topic_def b'(4) by (rule topics_unsubscribe)
  have "topic t b' j \<noteq> None \<longleftrightarrow> (\<exists>s. b_subs b' j = Some s \<and> sub_Active s \<and> t \<in> set (sub_EventTypes s))" for t j
  proof -
    have "topic t b j \<noteq> None \<longleftrightarrow> (\<exists>s. b_subs b j = Some s \<and> sub_Active s \<and> t \<in> set (sub_EventTypes s))"
      using assms(2) unfolding index_exact_def by blast
    then show ?thesis using Some unfolding topic b'(1) by (cases "j = i") auto
  qed
  then show ?thesis using assms(2) unfolding index_exact_def b'(1-3) by simp
qed

lemma fresh_step_exact: "fresh_step b b' \<Longrightarrow> index_exact h b \<Longrightarrow> index_exact h b'"
proof -
  assume s: "fresh_step b b'" and e: "index_exact h b"
  then have "bus_step b b'" and k: "keeps_subscriptions b b'" by (simp_all add: fresh_step_def)
  then show ?thesis using e
  proof cases
    case (subscribe entropy now s r)
    from this(1) show ?thesis
    proof (cases rule: subscribe_cases)
      case refused
      then show ?thesis using e same_index_exact by blast
    next
      case (accepted sub b0)
      have "\<forall>s. b_subs b0 (sub_ID sub) = Some s \<longrightarrow> sub = s"
      proof (intro allI impI)
        fix s assume "b_subs b0 (sub_ID sub) = Some s"
        then obtain s' where "b_subs b' (sub_ID sub) = Some s'" "s' = s \<or> s' = s\<lparr>sub_Active := False\<rparr>"
          using k accepted(2) by (auto simp: keeps_subscriptions_def same_index_def)
        moreover have "b_subs b' (sub_ID sub) = Some sub" unfolding accepted(4) by (simp add: bus_register_def Let_def split: option.split)
        ultimately show "sub = s" using accepted(3) by auto
      qed
      then show ?thesis unfolding accepted(4) using accepted(2,3) e by (intro register_exact) (auto intro: same_index_exact)
    qed
  next
    case (retry now i r)
    then have "same_index b b'" by (auto simp: bus_RetryDLQEntry_def same_index_def Let_def split: option.splits if_splits)
    then show ?thesis using e by (rule same_index_exact)
  next
    case (purge i r)
    then have "same_index b b'" by (auto simp: bus_PurgeDLQEntry_def same_index_def split: option.splits)
    then show ?thesis using e by (rule same_index_exact)
  next
    case close
    then have "same_index b b'" by (simp add: bus_Close_def same_index_def)
    then show ?thesis using e by (rule same_index_exact)
  next
    case (publish_begin toJSON entropy ro now ev r ev')
    from publish_begin_same_index [OF this] show ?thesis using e by (rule same_index_exact)
  next
    case (publish_offer ro e' data i)
    then show ?thesis using e same_index_exact [OF offer_same_index] by simp
  next
    case (deliver parseEvent entropy now i)
    then show ?thesis using e same_index_exact [OF deliver_same_index] by simp
  next
    case (unsubscribe i r)
    then show ?thesis using e by (rule unsubscribe_exact)
  qed
qed

lemma fresh_reach:
  "fresh_step\<^sup>*\<^sup>* (NewBus cfg h ids) b \<Longrightarrow> bus_inv b \<and> index_exact h b"
proof (induction rule: rtranclp_induct)
  case base
  then show ?case using NewBus_inv by (simp add: index_exact_def NewBus_def topic_def map_get_def)
next
  case (step b b')
  then show ?case using fresh_step_exact bus_step_inv by (auto simp: fresh_step_def)
qed

lemma exact_handlers:
  "index_exact h b \<Longrightarrow> b_handlers b i = (case b_subs b i of Some s \<Rightarrow> if sub_Active s then h else None | None \<Rightarrow> None)"
  unfolding index_exact_def by blast

lemma exact_copies:
  "index_exact h b \<Longrightarrow> b_subs b i = Some s \<Longrightarrow> sub_Active s \<Longrightarrow> copies e b i = wanted e s"
  by (auto simp: index_exact_def copies_def wanted_def targeted_def targets_def list_ex_iff)

lemma stamp_fields:
  assumes "publish_stamp entropy now e b = (e0, b0)"
  shows "ev_Type e0 = ev_Type e" "ev_TargetAgent e0 = ev_TargetAgent e"
    "b_pending b0 = b_pending b" "b_eventOrder b0 = b_eventOrder b" "b_config b0 = b_config b"
    "partition_key e0 = partition_key e"
  using assms by (auto simp: publish_stamp_def partition_key_def split: prod.splits if_splits)

lemma sequence_fields:
  assumes "publish_sequence e b = (e1, b1)"
  shows "ev_Type e1 = ev_Type e" "ev_TargetAgent e1 = ev_TargetAgent e"
    "b_pending b1 = b_pending b" "partition_key e1 = partition_key e"
  using assms by (auto simp: publish_sequence_def partition_key_def split: prod.splits if_splits)

section \<open>Runs of publications\<close>

text \<open>
  The events that a sequence of publications numbers, in the order in which they enter the critical
  section: partition key, number and whether the publication is accepted. An expired event is refused before it
  gets a number; one that cannot be serialised is refused after it.
\<close>

type_synonym publication = "8 word list option \<times> range_orders \<times> gtime \<times> event"

primrec publish_log :: "(event \<Rightarrow> gostr + gostr) \<Rightarrow> publication list \<Rightarrow> event_bus
    \<Rightarrow> ((gostr \<times> 64 word) \<times> bool) list" where
  "publish_log toJSON [] b = []"
| "publish_log toJSON (p # ps) b =
     (case p of (entropy, ro, now, e) \<Rightarrow>
       (case publish_begin toJSON entropy ro now (Some e) b of (r, ev', b') \<Rightarrow>
          (if r = Inl ErrEventExpired then []
           else map (\<lambda>e'. ((partition_key e', ev_SequenceNumber e'), \<not> isl r)) (case ev' of None \<Rightarrow> [] | Some e' \<Rightarrow> [e']))
          @ publish_log toJSON ps b'))"

lemma publish_numbers:
  assumes "publish_begin toJSON entropy ro now (Some e) b = (r, ev', b')" "bc_EnableOrdering (b_config b)"
  obtains (expired) "r = Inl ErrEventExpired" "b_eventOrder b' = b_eventOrder b"
  | (numbered) e' where "r \<noteq> Inl ErrEventExpired" "ev' = Some e'" "isl r = isl (toJSON e')"
      "seq_Next (partition_key e') (b_eventOrder b) = (ev_SequenceNumber e', b_eventOrder b')"
  using assms(1)
proof (cases rule: publish_begin_cases)
  case nil
  then show ?thesis by simp
next
  case (expired e1 e0)
  with that(1) show ?thesis using stamp_fields [OF expired(2)] by simp
next
  case (numbered e2 e0 b0 e1)
  have "seq_Next (partition_key e1) (b_eventOrder b) = (ev_SequenceNumber e1, b_eventOrder b')"
    using stamp_fields [OF numbered(2)] sequence_fields [OF numbered(4)] numbered(4) assms(2)
    by (auto simp: publish_sequence_def split: prod.splits)
  then show ?thesis using that(2) [of e1] numbered(5,6) by (simp split: sum.splits)
qed

lemma publish_log_numbers:
  assumes "bc_EnableOrdering (b_config b)"
  shows "numbers_of k (map fst (publish_log toJSON ps b))
    = count_from (seq_GetCurrent k (b_eventOrder b) + 1) (length (numbers_of k (map fst (publish_log toJSON ps b))))"
  using assms
proof (induction ps arbitrary: b)
  case Nil
  then show ?case by (simp add: numbers_of_def)
next
  case (Cons p ps)
  obtain entropy ro now e where p: "p = (entropy, ro, now, e)" by (cases p) auto
  obtain r ev' b' where pub: "publish_begin toJSON entropy ro now (Some e) b = (r, ev', b')"
    by (metis prod_cases3)
  have "bc_EnableOrdering (b_config b')"
    using publish_begin_same_index [OF pub] Cons.prems by (simp add: same_index_def)
  note IH = Cons.IH [OF this]
  from pub Cons.prems show ?case
  proof (cases rule: publish_numbers)
    case expired
    with IH show ?thesis by (simp add: p pub)
  next
    case (numbered e')
    then have "ev_SequenceNumber e' = seq_GetCurrent (partition_key e') (b_eventOrder b) + 1"
      "seq_GetCurrent k (b_eventOrder b') = (if partition_key e' = k
         then seq_GetCurrent k (b_eventOrder b) + 1 else seq_GetCurrent k (b_eventOrder b))"
      by (auto simp: seq_Next_iff seq_GetCurrent_def)
    with IH numbered show ?thesis by (auto simp: p pub numbers_of_def)
  qed
qed

text \<open>When every event can be serialised, the numbered events are the accepted ones.\<close>

lemma publish_log_accepted:
  assumes "bc_EnableOrdering (b_config b)" "\<forall>e. \<not> isl (toJSON e)"
  shows "filter snd (publish_log toJSON ps b) = publish_log toJSON ps b"
  using assms(1)
proof (induction ps arbitrary: b)
  case (Cons p ps)
  obtain entropy ro now e where p: "p = (entropy, ro, now, e)" by (cases p) auto
  obtain r ev' b' where pub: "publish_begin toJSON entropy ro now (Some e) b = (r, ev', b')"
    by (metis prod_cases3)
  have "bc_EnableOrdering (b_config b')"
    using publish_begin_same_index [OF pub] Cons.prems by (simp add: same_index_def)
  note IH = Cons.IH [OF this]
  from pub Cons.prems show ?case
  proof (cases rule: publish_numbers)
    case expired
    with IH show ?thesis by (simp add: p pub)
  next
    case (numbered e')
    with IH assms(2) show ?thesis by (simp add: p pub)
  qed
qed simp

section \<open>Properties\<close>

text \<open>C13: what a publication delivers. On every bus reached without re-using the identifier of a
  subscription, a successful \<open>Publish\<close> starts for each known subscription that the rest of the program leaves
  alone meanwhile, whatever else it does between the rounds of the loop, exactly the deliveries that the
  subscription asks for: none when it is inactive, the bus has no handler or its filter rejects the event, and
  otherwise one for listing the type of the event, one for listing the wildcard, and one for naming the
  event's target agent beside either of these. A subscription is delivered an event by its type whatever agent
  the event is meant for.\<close>

theorem bus_publish_deliveries:
  assumes "fresh_step\<^sup>*\<^sup>* (NewBus cfg h ids) b" "leaves_alone i f" "b_subs b i = Some s"
    and "bus_Publish toJSON entropy ro now f ev b = (None, Some e, b')" "orders_ok ro e b"
  shows "started b' i = started b i
    + (if sub_Active s \<and> h \<noteq> None \<and> matchesFilter (ro_metadata ro i) e (sub_Filter s) = Some True then wanted e s else 0)"
proof -
  obtain data xs b0 where p: "publish_begin toJSON entropy ro now ev b = (Inr (data, xs), Some e, b0)"
    and d: "dispatch f ro e data xs b0 = (False, b')" using assms(4) by (rule publish_accepted)
  have si: "same_index b b0" by (rule publish_begin_same_index [OF p])
  have inv: "bus_inv b" "index_exact h b" using fresh_reach [OF assms(1)] by simp_all
  from p have "xs = findSubscribers ro e b0 \<and> started b0 i = started b i"
  proof (cases rule: publish_begin_cases)
    case (numbered e2 e0 b1 e1)
    then show ?thesis using stamp_fields(3) [OF numbered(2)] sequence_fields(3) [OF numbered(4)]
      by (auto simp: started_def split: sum.splits)
  qed simp_all
  then have xs: "count_list xs i = copies e b i" "started b0 i = started b i"
    using findSubscribers_count [OF inv(1) assms(5)] si by (simp_all add: findSubscribers_same)
  have "b_handlers b i = (if sub_Active s then h else None)" using exact_handlers [OF inv(2), of i] assms(3) by simp
  then have "delivers ro e b i \<longleftrightarrow> sub_Active s \<and> h \<noteq> None \<and> matchesFilter (ro_metadata ro i) e (sub_Filter s) = Some True"
    using assms(3) by (auto simp: delivers_def split: option.splits)
  then have "delivers ro e b0 i \<longleftrightarrow> sub_Active s \<and> h \<noteq> None \<and> matchesFilter (ro_metadata ro i) e (sub_Filter s) = Some True"
    by (simp only: delivers_same [OF si])
  then show ?thesis
    using dispatch_started [OF assms(2) d] xs exact_copies [OF inv(2) assms(3)] by auto
qed

definition example_sub :: subscription where
  "example_sub = \<lparr>sub_ID = ''s1'', sub_ClientID = ''c'', sub_EventTypes = [''agent.intent''],
     sub_TargetAgent = ''executor'', sub_Filter = None, sub_CreatedAt = 0, sub_Active = False\<rparr>"

definition example_bus :: event_bus where
  "example_bus = snd (bus_Subscribe None 1 (Some example_sub)
     (NewBus DefaultBusConfig (Some (\<lambda>_. None)) \<lparr>entropyPool = [], fallbackCounter = 0\<rparr>))"

definition example_orders :: range_orders where
  "example_orders = \<lparr>ro_topic = [''s1''], ro_wildcard = [], ro_subs = [''s1''], ro_metadata = (\<lambda>_. [])\<rparr>"

lemma example_bus_reachable:
  "fresh_step\<^sup>*\<^sup>* (NewBus DefaultBusConfig (Some (\<lambda>_. None)) \<lparr>entropyPool = [], fallbackCounter = 0\<rparr>)
     example_bus"
  unfolding example_bus_def
  by (rule r_into_rtranclp, unfold fresh_step_def, rule conjI, rule bus_step.subscribe, rule prod.collapse [symmetric])
    (simp add: keeps_subscriptions_def NewBus_def)

lemma example_bus_fields:
  "b_subs example_bus = [''s1'' \<mapsto> example_sub\<lparr>sub_CreatedAt := 1, sub_Active := True\<rparr>]"
  "b_handlers example_bus = [''s1'' \<mapsto> (\<lambda>_. None)]"
  "topic ''agent.intent'' example_bus = [''s1'' \<mapsto> True]" "topic [] example_bus = Map.empty"
  "b_pending example_bus = []"
  by (simp_all add: example_bus_def bus_Subscribe_def bus_register_def example_sub_def NewBus_def
      topic_def map_get_def EventTypeIntent_def EventTypeDecision_def EventTypeApproval_def
      EventTypeRejection_def EventTypeError_def)

lemma example_delivers:
  "orders_ok example_orders (e\<lparr>ev_Type := ''agent.intent''\<rparr>) example_bus"
  by (simp add: orders_ok_def enumerates_def example_bus_fields example_orders_def)

abbreviation example_json :: "event \<Rightarrow> gostr + gostr" where
  "example_json \<equiv> \<lambda>e. Inr (ev_ID e)"

lemma example_publish:
  "bus_Publish example_json None example_orders 5 (\<lambda>_. bus_Close) (Some example_event) example_bus
     = (None, Some (example_event\<lparr>ev_SequenceNumber := 1\<rparr>),
        snd (snd (bus_Publish example_json None example_orders 5 (\<lambda>_. bus_Close) (Some example_event) example_bus)))"
  by (simp add: bus_Publish_def publish_begin_def publish_offer_def bus_Close_def publish_stamp_def publish_sequence_def example_event_def
      ev_IsExpired_def zero_time_def seq_Next_def partition_key_def example_bus_def
      bus_Subscribe_def bus_register_def example_sub_def NewBus_def NewEventSequencer_def
      findSubscribers_def example_orders_def topic_def targets_def matchesFilter_def
      DefaultBusConfig_def EventTypeIntent_def EventTypeDecision_def EventTypeApproval_def
      EventTypeRejection_def EventTypeError_def)

theorem bus_publish_deliveries_witness:
  "started (snd (snd (bus_Publish example_json None example_orders 5 (\<lambda>_. bus_Close) (Some example_event) example_bus))) ''s1'' = 2"
proof -
  have l: "leaves_alone ''s1'' (\<lambda>_. bus_Close)" by (simp add: leaves_alone_def bus_Close_def started_def)
  have s: "b_subs example_bus ''s1'' = Some (example_sub\<lparr>sub_CreatedAt := 1, sub_Active := True\<rparr>)" by (simp add: example_bus_fields)
  show ?thesis
    using bus_publish_deliveries [OF example_bus_reachable l s example_publish]
      example_delivers [of "example_event\<lparr>ev_SequenceNumber := 1\<rparr>"]
    by (simp add: example_event_def wanted_def example_sub_def started_def example_bus_fields matchesFilter_def)
qed

text \<open>A targeted event is delivered twice. An active subscription with a handler that
  lists the event's type and the event's target agent gets every such event at least two
  times, once through its topic and once through its target.\<close>

theorem bus_duplicate_delivery:
  assumes "bus_step\<^sup>*\<^sup>* (NewBus cfg h ids) b" "orders_ok ro e b"
    and "b_subs b i = Some sub" "sub_Active sub"
    and "ev_Type e \<in> set (sub_EventTypes sub)" "ev_TargetAgent e = sub_TargetAgent sub"
      "sub_TargetAgent sub \<noteq> []"
  shows "2 \<le> count_list (findSubscribers ro e b) i"
proof -
  have inv: "bus_inv b" using assms(1) by (rule bus_reachable_inv)
  have "topic (ev_Type e) b i \<noteq> None"
    using inv assms(3-5) by (auto simp: bus_inv_def)
  moreover have "targeted e b i"
    using assms(3,5,6) by (auto simp: targeted_def targets_def list_ex_iff)
  ultimately show ?thesis
    using findSubscribers_count [OF inv assms(2)] assms(6,7) by (simp add: copies_def)
qed

text \<open>An event for one agent reaches the others. An active subscription that lists the type of an event is
  among its subscribers although it names another agent than the event's target.\<close>

theorem bus_target_not_exclusive:
  assumes "bus_step\<^sup>*\<^sup>* (NewBus cfg h ids) b" "orders_ok ro e b" "b_subs b i = Some sub" "sub_Active sub"
    and "ev_Type e \<in> set (sub_EventTypes sub)" "ev_TargetAgent e \<noteq> []" "sub_TargetAgent sub \<noteq> ev_TargetAgent e"
  shows "i \<in> set (findSubscribers ro e b)"
proof -
  have inv: "bus_inv b" using assms(1) by (rule bus_reachable_inv)
  then have "topic (ev_Type e) b i \<noteq> None" using assms(3-5) by (auto simp: bus_inv_def)
  then have "0 < count_list (findSubscribers ro e b) i" using findSubscribers_count [OF inv assms(2)] by (simp add: copies_def)
  then show ?thesis by (metis count_list_0_iff less_irrefl)
qed

text \<open>Subscribing again under the same identifier with other event types leaves the old ones in the index: the
  subscription keeps receiving them.\<close>

theorem bus_resubscribe_stale:
  "i \<in> set (findSubscribers (example_orders\<lparr>ro_topic := [i]\<rparr>) e (bus_register s' (bus_register s b)))"
  if "sub_ID s = i" "sub_ID s' = i" "ev_Type e \<in> set (sub_EventTypes s)" "ev_Type e \<notin> set (sub_EventTypes s')"
proof -
  have "topic t (bus_register s b) = (if t \<in> set (sub_EventTypes s) then (topic t b)(sub_ID s \<mapsto> True) else topic t b)" for t s b
    unfolding topic_def bus_register_def by (simp add: topics_subscribe Let_def split: option.split)
  then show ?thesis using that by (simp add: findSubscribers_def)
qed

text \<open>Publishing does not crash. On every reachable bus an offer panics only when
  the subscription's metadata filter compares values of an uncomparable type: no delivery
  ever refers to a subscription the bus does not know.\<close>

theorem bus_publish_panics:
  assumes "bus_step\<^sup>*\<^sup>* (NewBus cfg h ids) b" "fst (publish_offer ro e data i b)"
  shows "\<exists>sub. b_subs b i = Some sub \<and> matchesFilter (ro_metadata ro i) e (sub_Filter sub) = None"
  using assms(2) bus_reachable_inv [OF assms(1)]
  by (auto simp: publish_offer_def bus_inv_def split: option.splits if_splits bool.splits)

text \<open>An unsubscribed client gets nothing more. After a successful \<open>Unsubscribe\<close> no
  publication starts a delivery to that subscription while it is left alone.\<close>

theorem bus_unsubscribed_silent:
  assumes "bus_Unsubscribe i b = (None, b')" "leaves_alone i f"
    and "bus_Publish toJSON entropy ro now f ev b' = (None, Some e, b'')"
  shows "started b'' i = started b' i"
proof -
  obtain data xs b0 where p: "publish_begin toJSON entropy ro now ev b' = (Inr (data, xs), Some e, b0)"
    and d: "dispatch f ro e data xs b0 = (False, b'')" using assms(3) by (rule publish_accepted)
  have "\<not> delivers ro e b' i"
    using assms(1) by (auto simp: bus_Unsubscribe_def delivers_def split: option.splits)
  then have "\<not> delivers ro e b0 i" using publish_begin_same_index [OF p] by (simp add: delivers_same)
  moreover from p have "started b0 i = started b' i"
  proof (cases rule: publish_begin_cases)
    case (numbered e2 e0 b1 e1)
    then show ?thesis using stamp_fields(3) [OF numbered(2)] sequence_fields(3) [OF numbered(4)] by (simp add: started_def)
  qed simp_all
  ultimately show ?thesis using dispatch_started [OF assms(2) d] by simp
qed

text \<open>C14: events are numbered without gaps. With ordering enabled, the events of a partition that a sequence
  of publications numbers, in the order of their critical sections, carry consecutive numbers starting after
  the current one; an expired event takes no number. When every event can be serialised these are the events
  that are accepted, so that the accepted events of a partition have no gaps; an event that cannot be
  serialised takes its number with it.\<close>

theorem bus_sequence_gap_free:
  assumes "bc_EnableOrdering (b_config b)"
  shows "numbers_of k (map fst (publish_log toJSON ps b))
      = count_from (seq_GetCurrent k (b_eventOrder b) + 1) (length (numbers_of k (map fst (publish_log toJSON ps b))))
    \<and> ((\<forall>e. \<not> isl (toJSON e)) \<longrightarrow>
        numbers_of k (map fst (filter snd (publish_log toJSON ps b)))
          = count_from (seq_GetCurrent k (b_eventOrder b) + 1) (length (numbers_of k (map fst (filter snd (publish_log toJSON ps b))))))"
  using publish_log_numbers [OF assms] publish_log_accepted [OF assms] by simp

theorem bus_sequence_gap_free_witness:
  "numbers_of ''planner'' (map fst (filter snd (publish_log example_json
     [(None, example_orders, 5, example_event), (None, example_orders, 6, example_event)] example_bus)))
   = count_from 1 (length (numbers_of ''planner'' (map fst (filter snd (publish_log example_json
     [(None, example_orders, 5, example_event), (None, example_orders, 6, example_event)] example_bus)))))"
proof -
  have e: "bc_EnableOrdering (b_config example_bus)" "seq_GetCurrent ''planner'' (b_eventOrder example_bus) = 0"
    by (simp_all add: example_bus_def bus_Subscribe_def bus_register_def example_sub_def NewBus_def
        DefaultBusConfig_def NewEventSequencer_def seq_GetCurrent_def)
  show ?thesis
    using bus_sequence_gap_free [OF e(1), of "''planner''" example_json
        "[(None, example_orders, 5, example_event), (None, example_orders, 6, example_event)]"]
    by (simp only: e(2) add_0 sum.disc not_False_eq_True simp_thms)
qed

text \<open>An event that cannot be serialised leaves a gap: the accepted event after it has the number 2.\<close>

theorem bus_sequence_gap:
  "filter snd (publish_log (\<lambda>e. if ev_Priority e = 9 then Inl ''bad'' else Inr (ev_ID e))
     [(None, example_orders, 5, example_event\<lparr>ev_Priority := 9\<rparr>), (None, example_orders, 6, example_event)] example_bus)
   = [((''planner'', 2), True)]"
  by (simp add: publish_begin_def publish_stamp_def publish_sequence_def example_event_def
      ev_IsExpired_def zero_time_def seq_Next_def partition_key_def example_bus_def
      bus_Subscribe_def bus_register_def example_sub_def NewBus_def NewEventSequencer_def
      findSubscribers_def example_orders_def topic_def targets_def
      DefaultBusConfig_def EventTypeIntent_def EventTypeDecision_def EventTypeApproval_def
      EventTypeRejection_def EventTypeError_def)

text \<open>A failed delivery reaches the dead letter queue. When the goroutine of a pending
  delivery runs and its handler fails, the queue holds an entry with the event and the
  error, not yet retried; when the handler accepts, the queue is unchanged. Either way
  the delivery is no longer pending.\<close>

theorem bus_deliver_outcome:
  assumes "i < length (b_pending b)" "d = b_pending b ! i" "parseEvent (dl_data d) = Inr parsed"
    and "b' = bus_deliver parseEvent entropy now i b"
  shows "b_pending b' = take i (b_pending b) @ drop (Suc i) (b_pending b)
    \<and> (case dl_handler d parsed of
        None \<Rightarrow> b_dlq b' = b_dlq b
      | Some err \<Rightarrow> \<exists>entry. b_dlq b' = (b_dlq b)(dq_ID entry \<mapsto> entry)
          \<and> dq_Event entry = dl_event d \<and> dq_Error entry = err \<and> dq_RetryCount entry = 0
          \<and> dq_Status entry = DLQStatusPending)"
proof -
  have dlq: "\<exists>entry. b_dlq (bus_sendToDLQ entropy now e err b) = (b_dlq b)(dq_ID entry \<mapsto> entry)
      \<and> dq_Event entry = e \<and> dq_Error entry = err \<and> dq_RetryCount entry = 0
      \<and> dq_Status entry = DLQStatusPending" for e err and b :: event_bus
    by (rule exI [of _ "fst (NewDLQEntry entropy now e err (bc_DLQMaxRetries (b_config b)) (b_ids b))"])
      (simp add: bus_sendToDLQ_def NewDLQEntry_def case_prod_beta)
  have pending: "b_pending (bus_sendToDLQ entropy now e err b) = b_pending b" for e err b
    by (simp add: bus_sendToDLQ_def case_prod_beta)
  let ?b = "b\<lparr>b_pending := take i (b_pending b) @ drop (Suc i) (b_pending b)\<rparr>"
  have "b' = (case dl_handler d parsed of None \<Rightarrow> ?b
      | Some err \<Rightarrow> bus_sendToDLQ entropy now (dl_event d) err ?b)"
    using assms(1,3) unfolding assms(2,4) by (simp add: bus_deliver_def Let_def)
  then show ?thesis
    using dlq [of "dl_event d" _ ?b] by (simp add: pending split: option.splits)
qed

theorem bus_deliver_outcome_witness:
  "b_pending (bus_deliver (\<lambda>_. Inr example_event) None 9 0 (example_bus\<lparr>b_pending :=
     [\<lparr>dl_subID = ''s1'', dl_handler = (\<lambda>_. Some ''boom''), dl_event = example_event, dl_data = []\<rparr>]\<rparr>)) = []"
  using bus_deliver_outcome [of 0 "example_bus\<lparr>b_pending := [\<lparr>dl_subID = ''s1'',
      dl_handler = (\<lambda>_. Some ''boom''), dl_event = example_event, dl_data = []\<rparr>]\<rparr>" _
      "\<lambda>_. Inr example_event" example_event _ None 9, OF _ refl _ refl]
  by simp

text \<open>Retrying a dead letter drops it. A successful \<open>RetryDLQEntry\<close> leaves the bus in
  exactly the state \<open>PurgeDLQEntry\<close> leaves it in: the entry is gone and no delivery of its
  event is pending.\<close>

theorem bus_retry_is_purge:
  assumes "fst (bus_RetryDLQEntry now i b) = None"
  shows "bus_RetryDLQEntry now i b = bus_PurgeDLQEntry i b
    \<and> b_pending (snd (bus_RetryDLQEntry now i b)) = b_pending b"
  using assms
  by (auto simp: bus_RetryDLQEntry_def bus_PurgeDLQEntry_def Let_def split: option.splits if_splits)

theorem bus_retry_is_purge_witness:
  "b_pending (snd (bus_RetryDLQEntry 9 ''k'' (example_bus\<lparr>b_dlq := [''k'' \<mapsto>
     fst (NewDLQEntry None 5 example_event ''boom'' 3 \<lparr>entropyPool = [], fallbackCounter = 0\<rparr>)]\<rparr>))) = []"
  using bus_retry_is_purge [of 9 "''k''" "example_bus\<lparr>b_dlq := [''k'' \<mapsto>
      fst (NewDLQEntry None 5 example_event ''boom'' 3 \<lparr>entropyPool = [], fallbackCounter = 0\<rparr>)]\<rparr>"]
  by (simp add: bus_RetryDLQEntry_def bus_PurgeDLQEntry_def dq_ShouldRetry_def NewDLQEntry_def
      case_prod_beta example_bus_fields)

lemma bus_GetSubscriptions_inactive:
  assumes "bus_Unsubscribe i b = (None, b')" "i \<in> set order" "b_subs b i = Some sub"
  shows "sub\<lparr>sub_Active := False\<rparr> \<in> set (bus_GetSubscriptions order (sub_ClientID sub) b')"
proof -
  have "b_subs b' i = Some (sub\<lparr>sub_Active := False\<rparr>)"
    using assms(1,3) by (auto simp: bus_Unsubscribe_def)
  with assms(2) have "(i, sub\<lparr>sub_Active := False\<rparr>) \<in> set (range_of order (b_subs b'))"
    by (simp add: set_range_of)
  then show ?thesis by (force simp: bus_GetSubscriptions_def)
qed

end
