(* ===== verification/Go_Float.thy ===== *)
theory Go_Float
  imports Gw_Prelude "HOL-Library.Log_Nat"
begin

text \<open>
  Arithmetic on \<open>float64\<close>. A finite double is the rational number it denotes; an
  operation computes the exact result and rounds it to the nearest double, ties to even,
  which is \<open>fl\<close>. Results stay far below \<open>2\<^sup>1\<^sup>0\<^sup>2\<^sup>4\<close> in the modelled code unless its theory
  says otherwise, and a division is guarded or by a constant; where the code divides a positive
  number by one that can be zero the result is a \<open>go_float\<close>, a finite double or positive infinity. Each
  operation rounds on its own, as Go does on amd64; the sign of zero is not kept.
\<close>

section \<open>Rounding\<close>

definition rne :: "rat \<Rightarrow> int" where
  "rne y = (let f = \<lfloor>y\<rfloor>; r = y - of_int f in
     if r < 1 / 2 then f else if r > 1 / 2 then f + 1 else if even f then f else f + 1)"

definition log2_floor :: "rat \<Rightarrow> int" where
  "log2_floor x = (if x \<ge> 1 then bitlen \<lfloor>x\<rfloor> - 1 else - bitlen (\<lceil>1 / x\<rceil> - 1))"

definition grid_exp :: "rat \<Rightarrow> int" where
  "grid_exp x = max (log2_floor x - 52) (- 1074)"

definition fl_pos :: "rat \<Rightarrow> rat" where
  "fl_pos x = (let q = 2 powi (grid_exp x) in of_int (rne (x / q)) * q)"

definition fl :: "rat \<Rightarrow> float64" where
  "fl x = (if x = 0 then 0 else if x < 0 then - fl_pos (- x) else fl_pos x)"

definition fadd :: "float64 \<Rightarrow> float64 \<Rightarrow> float64" where "fadd x y = fl (x + y)"
definition fsub :: "float64 \<Rightarrow> float64 \<Rightarrow> float64" where "fsub x y = fl (x - y)"
definition fmul :: "float64 \<Rightarrow> float64 \<Rightarrow> float64" where "fmul x y = fl (x * y)"
definition fdiv :: "float64 \<Rightarrow> float64 \<Rightarrow> float64" where "fdiv x y = fl (x / y)"
definition float_of_int :: "int \<Rightarrow> float64" where "float_of_int n = fl (of_int n)"

text \<open>Conversion to an integer truncates towards zero.\<close>

definition int_of_float :: "float64 \<Rightarrow> int" where
  "int_of_float x = (if x < 0 then - \<lfloor>- x\<rfloor> else \<lfloor>x\<rfloor>)"

lemmas float_ops = fadd_def fsub_def fmul_def fdiv_def float_of_int_def

subsection \<open>Positive infinity\<close>

datatype go_float = Fin float64 | PosInf

instantiation go_float :: linorder
begin

fun less_eq_go_float :: "go_float \<Rightarrow> go_float \<Rightarrow> bool" where
  "less_eq_go_float _ PosInf = True"
| "less_eq_go_float PosInf (Fin y) = False"
| "less_eq_go_float (Fin x) (Fin y) = (x \<le> y)"

definition less_go_float :: "go_float \<Rightarrow> go_float \<Rightarrow> bool" where
  "less_go_float x y \<longleftrightarrow> \<not> y \<le> x"

instance
proof
  fix x y z :: go_float
  show "x < y \<longleftrightarrow> x \<le> y \<and> \<not> y \<le> x" by (cases x; cases y) (auto simp: less_go_float_def)
  show "x \<le> x" by (cases x) simp_all
  show "x \<le> y \<Longrightarrow> y \<le> z \<Longrightarrow> x \<le> z" by (cases x; cases y; cases z) simp_all
  show "x \<le> y \<Longrightarrow> y \<le> x \<Longrightarrow> x = y" by (cases x; cases y) simp_all
  show "x \<le> y \<or> y \<le> x" by (cases x; cases y) auto
qed

end

lemma less_go_float_simps [simp]:
  "Fin x < PosInf" "\<not> PosInf < y" "Fin x < Fin y' \<longleftrightarrow> x < y'"
  by (cases y) (auto simp: less_go_float_def)

text \<open>The reciprocal of a divisor that may be (positive) zero, and a product with a positive factor.\<close>

definition frecip :: "float64 \<Rightarrow> go_float" where
  "frecip y = (if y = 0 then PosInf else Fin (fdiv 1 y))"

fun gadd :: "go_float \<Rightarrow> go_float \<Rightarrow> go_float" where
  "gadd (Fin x) (Fin y) = Fin (fadd x y)"
| "gadd _ _ = PosInf"

fun gscale :: "float64 \<Rightarrow> go_float \<Rightarrow> go_float" where
  "gscale w (Fin x) = Fin (fmul w x)"
| "gscale w PosInf = PosInf"

text \<open>The order of falling values, as a key that rises.\<close>

fun falling :: "go_float \<Rightarrow> nat \<times> rat" where
  "falling PosInf = (0, 0)"
| "falling (Fin x) = (1, - x)"

section \<open>Rounding to integers\<close>

lemma rne_of_int [simp]: "rne (of_int n) = n"
  by (simp add: rne_def)

lemma rne_bounds: "of_int (rne y) \<ge> y - 1 / 2" "of_int (rne y) \<le> y + 1 / 2"
  by (auto simp: rne_def Let_def) linarith+

lemma rne_floor: "\<lfloor>y\<rfloor> \<le> rne y" "rne y \<le> \<lfloor>y\<rfloor> + 1"
  by (auto simp: rne_def Let_def)

lemma rne_mono:
  assumes "x \<le> y" shows "rne x \<le> rne y"
proof (cases "\<lfloor>x\<rfloor> = \<lfloor>y\<rfloor>")
  case True
  then show ?thesis using assms by (auto simp: rne_def Let_def)
next
  case False
  with assms have "\<lfloor>x\<rfloor> + 1 \<le> \<lfloor>y\<rfloor>" using floor_mono [OF assms] by linarith
  with rne_floor [of x] rne_floor [of y] show ?thesis by linarith
qed

section \<open>The binade of a number\<close>


lemma log2_floor_bounds:
  assumes "0 < x"
  shows "2 powi log2_floor x \<le> x" "x < 2 powi (log2_floor x + 1)"
proof -
  have "2 powi log2_floor x \<le> x \<and> x < 2 powi (log2_floor x + 1)"
  proof (cases "x \<ge> 1")
    case True
    let ?n = "\<lfloor>x\<rfloor>" and ?b = "bitlen \<lfloor>x\<rfloor>"
    from True have n: "0 < ?n" by simp
    from bitlen_bounds [OF n] have b: "2 ^ nat (?b - 1) \<le> ?n" "?n < 2 ^ nat ?b" by simp_all
    from n have "1 \<le> ?b" using bitlen_nonneg [of ?n] bitlen_eq_zero_iff [of ?n] by linarith
    then have e: "2 powi (?b - 1) = (of_int (2 ^ nat (?b - 1)) :: rat)"
      "2 powi ?b = (of_int (2 ^ nat ?b) :: rat)"
      by (simp_all add: power_int_nonneg_exp)
    from b(2) have "x < of_int (2 ^ nat ?b)" by (simp only: floor_less_iff)
    moreover from b(1) have "of_int (2 ^ nat (?b - 1)) \<le> x" by (simp only: le_floor_iff)
    ultimately show ?thesis using True by (simp add: log2_floor_def e)
  next
    case False
    let ?m = "\<lceil>1 / x\<rceil>" and ?b = "bitlen (\<lceil>1 / x\<rceil> - 1)"
    from False assms have "1 < 1 / x" by (simp add: field_simps)
    then have n: "0 < ?m - 1" by simp
    from bitlen_bounds [OF n] have b: "2 ^ nat (?b - 1) < ?m" "?m \<le> 2 ^ nat ?b" by simp_all
    from n have "1 \<le> ?b" using bitlen_nonneg [of "?m - 1"] bitlen_eq_zero_iff [of "?m - 1"] by linarith
    then have e: "2 powi (- ?b) = (1 / of_int (2 ^ nat ?b) :: rat)"
      "2 powi (1 - ?b) = (1 / of_int (2 ^ nat (?b - 1)) :: rat)"
      using power_int_minus_divide [of "2 :: rat" "?b - 1"]
      by (simp_all add: power_int_nonneg_exp power_int_minus_divide)
    from b(2) have "1 / x \<le> of_int (2 ^ nat ?b)" by (simp only: ceiling_le_iff)
    moreover from b(1) have "of_int (2 ^ nat (?b - 1)) < 1 / x" by (simp only: less_ceiling_iff)
    ultimately have "2 powi (- ?b) \<le> x" "x < 2 powi (1 - ?b)"
      unfolding e using assms by (simp_all add: field_simps)
    then show ?thesis using False by (simp add: log2_floor_def)
  qed
  then show "2 powi log2_floor x \<le> x" "x < 2 powi (log2_floor x + 1)" by simp_all
qed

lemma pow2_less_iff: "(2 :: rat) powi a < 2 powi b \<longleftrightarrow> a < b"
  by (meson linorder_not_less one_less_numeral_iff power_int_increasing power_int_strict_increasing
      semiring_norm(76) order.strict_implies_order)

lemma pow2_not_neg [simp]: "\<not> (2 :: rat) powi j < 0"
  by (simp add: not_less)

lemma pow2_le_iff: "(2 :: rat) powi a \<le> 2 powi b \<longleftrightarrow> a \<le> b"
  using pow2_less_iff [of b a] by linarith

lemma log2_floor_less:
  assumes "0 < x" "x < 2 powi j" shows "log2_floor x < j"
  using log2_floor_bounds(1) [OF assms(1)] assms(2) pow2_less_iff [of "log2_floor x" j] by simp

lemma log2_floor_mono:
  assumes "0 < x" "x \<le> y" shows "log2_floor x \<le> log2_floor y"
  using log2_floor_less [OF assms(1), of "log2_floor y + 1"] log2_floor_bounds(2) [of y] assms
  by simp

section \<open>Rounding on a grid\<close>

definition on_grid :: "int \<Rightarrow> rat \<Rightarrow> rat" where
  "on_grid k x = of_int (rne (x / 2 powi k)) * 2 powi k"

lemma fl_pos_grid: "fl_pos x = on_grid (grid_exp x) x"
  by (simp add: fl_pos_def on_grid_def Let_def)

lemma on_grid_mono: "x \<le> y \<Longrightarrow> on_grid k x \<le> on_grid k y"
  by (simp add: on_grid_def divide_right_mono rne_mono mult_right_mono)

lemma on_grid_fixed:
  assumes "k \<le> j" shows "on_grid k (of_int m * 2 powi j) = of_int m * 2 powi j"
proof -
  have "(2 :: rat) powi j = of_int (2 ^ nat (j - k)) * 2 powi k"
    using assms power_int_add [of "2 :: rat" "j - k" k] by (simp add: power_int_nonneg_exp)
  then have "of_int m * 2 powi j / 2 powi k = (of_int (m * 2 ^ nat (j - k)) :: rat)" by simp
  then show ?thesis
    unfolding on_grid_def using \<open>(2 :: rat) powi j = _\<close> by (simp only: rne_of_int) simp
qed

lemma on_grid_pow2: "k \<le> j \<Longrightarrow> on_grid k (2 powi j) = 2 powi j"
  using on_grid_fixed [of k j 1] by simp

lemma fl_pos_mono:
  assumes "0 < x" "x \<le> y" shows "fl_pos x \<le> fl_pos y"
proof (cases "grid_exp x = grid_exp y")
  case True
  with assms show ?thesis by (simp add: fl_pos_grid on_grid_mono)
next
  case False
  let ?p = "2 powi log2_floor y :: rat"
  from log2_floor_mono [OF assms] False have k: "grid_exp x < log2_floor y - 52"
    "grid_exp y = log2_floor y - 52" "log2_floor x < log2_floor y"
    by (auto simp: grid_exp_def)
  have "x \<le> ?p"
    using log2_floor_bounds(2) [OF assms(1)] k(3) pow2_le_iff [of "log2_floor x + 1" "log2_floor y"]
    by linarith
  then have "fl_pos x \<le> on_grid (grid_exp x) ?p" by (simp add: fl_pos_grid on_grid_mono)
  also have "\<dots> = on_grid (grid_exp y) ?p" using k by (simp add: on_grid_pow2)
  also have "\<dots> \<le> fl_pos y"
    using log2_floor_bounds(1) [of y] assms by (simp add: fl_pos_grid on_grid_mono)
  finally show ?thesis .
qed

lemma fl_pos_exact:
  assumes "0 < m" "m \<le> 2 ^ 53" "- 1074 \<le> j"
  shows "fl_pos (of_int m * 2 powi j) = of_int m * 2 powi j"
proof -
  have exact: "fl_pos (of_int m * 2 powi j) = of_int m * 2 powi j"
    if m: "0 < m" "m < 2 ^ 53" and j: "- 1074 \<le> j" for m j
  proof -
    have "of_int m * 2 powi j < (2 powi 53 * 2 powi j :: rat)"
      using m(2) of_int_less_iff [of m "2 ^ 53", where ?'a = rat] by simp
    also have "\<dots> = 2 powi (53 + j)" by (simp add: power_int_add)
    finally have "log2_floor (of_int m * 2 powi j) < 53 + j"
      using m(1) by (intro log2_floor_less) simp_all
    with j have "grid_exp (of_int m * 2 powi j) \<le> j" by (simp add: grid_exp_def)
    then show ?thesis by (simp add: fl_pos_grid on_grid_fixed)
  qed
  show ?thesis
  proof (cases "m = 2 ^ 53")
    case True
    have "(2 :: rat) powi (53 + j) = 2 ^ 53 * 2 powi j"
      using power_int_add [of "2 :: rat" 53 j] by simp
    with True exact [of 1 "53 + j"] assms(3) show ?thesis by simp
  qed (use exact assms in simp)
qed

section \<open>Rounding of all numbers\<close>

lemma fl_0 [simp]: "fl 0 = 0"
  by (simp add: fl_def)

lemma fl_pos_nonneg: "0 < x \<Longrightarrow> 0 \<le> fl_pos x"
  unfolding fl_pos_grid on_grid_def using rne_mono [of 0 "x / 2 powi grid_exp x"] rne_of_int [of 0]
  by simp

theorem fl_mono: "x \<le> y \<Longrightarrow> fl x \<le> fl y"
  using fl_pos_mono [of x y] fl_pos_mono [of "- y" "- x"] fl_pos_nonneg [of y] fl_pos_nonneg [of "- x"]
  by (auto simp: fl_def)

lemma fl_uminus: "fl (- x) = - fl x"
  by (simp add: fl_def)

lemma fl_exact:
  assumes "\<bar>m\<bar> \<le> 2 ^ 53" "- 1074 \<le> j"
  shows "fl (of_int m * 2 powi j) = of_int m * 2 powi j"
proof -
  consider "m = 0" | "0 < m" | "m < 0" by linarith
  then show ?thesis
  proof cases
    case 2
    then show ?thesis using fl_pos_exact [of m j] assms by (simp add: fl_def mult_less_0_iff not_less)
  next
    case 3
    then have "of_int m * (2 powi j :: rat) < 0" by (simp add: mult_neg_pos)
    with 3 show ?thesis using fl_pos_exact [of "- m" j] assms by (simp add: fl_def)
  qed simp
qed

lemma fl_of_int [simp]: "\<bar>m\<bar> \<le> 2 ^ 53 \<Longrightarrow> fl (of_int m) = of_int m"
  using fl_exact [of m 0] by simp

lemma fl_1 [simp]: "fl 1 = 1"
  using fl_of_int [of 1] by simp

lemma fl_nonneg: "0 \<le> x \<Longrightarrow> 0 \<le> fl x"
  using fl_mono [of 0 x] by simp

lemma fl_nonpos: "x \<le> 0 \<Longrightarrow> fl x \<le> 0"
  using fl_mono [of x 0] by simp

lemma fl_le_int: "x \<le> of_int n \<Longrightarrow> \<bar>n\<bar> \<le> 2 ^ 53 \<Longrightarrow> fl x \<le> of_int n"
  using fl_mono [of x "of_int n"] by simp

lemma fl_ge_int: "of_int n \<le> x \<Longrightarrow> \<bar>n\<bar> \<le> 2 ^ 53 \<Longrightarrow> of_int n \<le> fl x"
  using fl_mono [of "of_int n" x] by simp

text \<open>Below two in magnitude, rounding moves a number by at most half a unit in the last place of one.\<close>

lemma fl_pos_err: "0 < x \<Longrightarrow> x < 2 \<Longrightarrow> \<bar>fl_pos x - x\<bar> \<le> 1 / 2 ^ 53"
proof -
  assume x: "0 < x" "x < 2"
  let ?q = "2 powi grid_exp x :: rat"
  have "log2_floor x < 1" using x by (intro log2_floor_less) simp_all
  then have "grid_exp x \<le> - 52" by (simp add: grid_exp_def)
  then have "?q \<le> 2 powi (- 52)" by (simp only: pow2_le_iff)
  then have q: "?q \<le> 1 / 2 ^ 52" by (simp add: power_int_minus)
  have "\<bar>of_int (rne (x / ?q)) - x / ?q\<bar> \<le> 1 / 2" using rne_bounds [of "x / ?q"] by linarith
  then have "\<bar>of_int (rne (x / ?q)) - x / ?q\<bar> * ?q \<le> 1 / 2 * ?q" by (intro mult_right_mono) simp_all
  also have "\<dots> \<le> 1 / 2 ^ 53" using q by simp
  also have "\<bar>of_int (rne (x / ?q)) - x / ?q\<bar> * ?q = \<bar>fl_pos x - x\<bar>"
  proof -
    have "fl_pos x - x = (of_int (rne (x / ?q)) - x / ?q) * ?q" by (simp add: fl_pos_def Let_def left_diff_distrib)
    then show ?thesis by (simp add: abs_mult)
  qed
  finally show ?thesis .
qed

lemma fl_err: "\<bar>x\<bar> < 2 \<Longrightarrow> \<bar>fl x - x\<bar> \<le> 1 / 2 ^ 53"
proof -
  assume x: "\<bar>x\<bar> < 2"
  consider "x = 0" | "0 < x" | "x < 0" by linarith
  then show ?thesis
  proof cases
    case 3
    then have "\<bar>fl_pos (- x) - (- x)\<bar> \<le> 1 / 2 ^ 53" using x by (intro fl_pos_err) simp_all
    moreover have "fl x - x = - (fl_pos (- x) - (- x))" using 3 by (simp add: fl_def)
    ultimately show ?thesis by (simp only: abs_minus_cancel)
  qed (use x fl_pos_err [of x] in \<open>simp_all add: fl_def\<close>)
qed

text \<open>
  Doubles are the numbers that rounding leaves alone. They are multiples of the least
  subnormal, so two different ones have a difference that does not round to zero.
\<close>

definition is_float64 :: "rat \<Rightarrow> bool" where
  "is_float64 x \<longleftrightarrow> fl x = x"

lemma fl_pos_multiple: "\<exists>n :: int. fl_pos x = of_int n * 2 powi (- 1074)"
proof -
  have "(2 :: rat) powi grid_exp x = of_int (2 ^ nat (grid_exp x + 1074)) * 2 powi (- 1074)"
    using power_int_add [of "2 :: rat" "grid_exp x + 1074" "- 1074"]
    by (simp add: power_int_nonneg_exp grid_exp_def)
  then have "fl_pos x = of_int (rne (x / 2 powi grid_exp x) * 2 ^ nat (grid_exp x + 1074)) * 2 powi (- 1074)"
    by (simp add: fl_pos_def Let_def)
  then show ?thesis by blast
qed

lemma fl_multiple: "\<exists>n :: int. fl x = of_int n * 2 powi (- 1074)"
proof -
  obtain n m :: int where "fl_pos x = of_int n * 2 powi (- 1074)" "fl_pos (- x) = of_int m * 2 powi (- 1074)"
    using fl_pos_multiple by metis
  then show ?thesis by (cases "x = 0"; cases "x < 0") (auto simp: fl_def intro: exI [of _ 0] exI [of _ "- m"])
qed

lemma fl_diff_pos:
  assumes "is_float64 x" "is_float64 y" "y < x" shows "0 < fl (x - y)"
proof -
  obtain n m :: int where nm: "x = of_int n * 2 powi (- 1074)" "y = of_int m * 2 powi (- 1074)"
    using assms(1,2) fl_multiple [of x] fl_multiple [of y] unfolding is_float64_def by auto
  then have "m < n" using assms(3) by (simp add: mult_less_cancel_right)
  then have "(of_int (m + 1) :: rat) \<le> of_int n" by (simp only: of_int_le_iff zless_imp_add1_zle)
  then have "of_int (m + 1) * 2 powi (- 1074) \<le> (of_int n * 2 powi (- 1074) :: rat)" by (rule mult_right_mono) simp
  then have "2 powi (- 1074) \<le> x - y" by (simp add: nm distrib_right)
  moreover have "fl (2 powi (- 1074)) = 2 powi (- 1074)" using fl_exact [of 1 "- 1074"] by simp
  ultimately have "2 powi (- 1074) \<le> fl (x - y)" using fl_mono [of "2 powi (- 1074)" "x - y"] by simp
  then show ?thesis using less_le_trans [of 0 "2 powi (- 1074)" "fl (x - y)"] by simp
qed

lemma fsub_nonpos_iff: "is_float64 x \<Longrightarrow> is_float64 y \<Longrightarrow> fsub x y \<le> 0 \<longleftrightarrow> x \<le> y"
  unfolding fsub_def using fl_diff_pos [of x y] fl_nonpos [of "x - y"] by fastforce

lemma fl_pos_float: "0 < x \<Longrightarrow> fl (fl_pos x) = fl_pos x"
proof -
  assume x: "0 < x"
  let ?q = "2 powi grid_exp x :: rat" and ?n = "rne (x / 2 powi grid_exp x)"
  have "x < 2 powi (log2_floor x + 1)" by (rule log2_floor_bounds(2) [OF x])
  also have "\<dots> \<le> 2 powi (grid_exp x + 53)" by (simp only: pow2_le_iff) (simp add: grid_exp_def)
  also have "\<dots> = of_int (2 ^ 53) * ?q" by (simp add: power_int_add)
  finally have "x / ?q \<le> of_int (2 ^ 53)" by (simp add: divide_le_eq)
  then have "?n \<le> 2 ^ 53" using rne_mono [of "x / ?q" "of_int (2 ^ 53)"] by (simp only: rne_of_int)
  moreover have "0 \<le> ?n" using rne_mono [of 0 "x / ?q"] rne_of_int [of 0] x by simp
  moreover have "- 1074 \<le> grid_exp x" by (simp add: grid_exp_def)
  ultimately have "fl (of_int ?n * ?q) = of_int ?n * ?q" by (intro fl_exact) simp_all
  then show ?thesis by (simp add: fl_pos_def Let_def)
qed

lemma is_float64_fl [simp]: "is_float64 (fl x)"
  using fl_pos_float [of x] fl_pos_float [of "- x"] fl_uminus [of "fl_pos (- x)"]
  by (auto simp: is_float64_def fl_def [of x])

lemma is_float64_ops [simp]: "is_float64 (fadd x y)" "is_float64 (fsub x y)" "is_float64 (fmul x y)"
  "is_float64 (fdiv x y)" "is_float64 (float_of_int n)" "is_float64 0"
  unfolding float_ops by (simp_all, simp add: is_float64_def)

text \<open>A share of a positive whole lies between 0 and 1.\<close>

lemma unit_fl: "0 \<le> x \<Longrightarrow> x \<le> 1 \<Longrightarrow> 0 \<le> fl x \<and> fl x \<le> 1"
  using fl_nonneg [of x] fl_mono [of x 1] by simp

lemma ratio_le_one: "a \<le> b \<Longrightarrow> 0 < b \<Longrightarrow> fdiv (float_of_int a) (float_of_int b) \<le> 1"
proof -
  assume ab: "a \<le> b" "0 < b"
  then have "float_of_int a \<le> float_of_int b" unfolding float_of_int_def by (intro fl_mono) simp
  moreover have "1 \<le> float_of_int b" using fl_mono [of 1 "of_int b"] ab(2) by (simp add: float_of_int_def)
  ultimately have "float_of_int a / float_of_int b \<le> 1" by (simp add: divide_le_eq)
  then show ?thesis using fl_mono [of "float_of_int a / float_of_int b" 1] by (simp add: fdiv_def)
qed

lemma ratio_unit: "0 \<le> a \<Longrightarrow> a \<le> b \<Longrightarrow> 0 < b \<Longrightarrow> 0 \<le> fdiv (float_of_int a) (float_of_int b) \<and> fdiv (float_of_int a) (float_of_int b) \<le> 1"
  using ratio_le_one [of a b] by (simp add: fdiv_def float_of_int_def fl_nonneg)

end
