(* ===== verification/Provider_Health.thy ===== *)
theory Provider_Health
  imports Breaker_Contract Go_Float
begin

text \<open>
  \<open>internal/provider/health.go\<close> and the data of \<open>internal/provider/models.go\<close>: providers, the
  circuit breaker of the health checker, the checker's maps and one health check. The
  HTTP probe is the argument \<open>probe\<close>; a check takes the lock of the breaker and that of
  the checker separately, so it is cut into the steps between which other checks may
  run: \<open>hc_check_begin\<close> up to the probe, \<open>hc_check_end\<close> after it. The scheduler, which
  starts a check per enabled provider at every tick, is a sequence of such steps.
\<close>

section \<open>Providers\<close>

record prov =
  pv_ID :: gostr
  pv_Name :: gostr
  pv_Type :: gostr
  pv_Endpoint :: gostr
  pv_Credentials :: gostr
  pv_Status :: gostr
  pv_Priority :: int
  pv_Enabled :: bool
  pv_HealthCheckURL :: gostr
  pv_CreatedAt :: gtime
  pv_UpdatedAt :: gtime

record prov_response =
  pr_ID :: gostr
  pr_Name :: gostr
  pr_Type :: gostr
  pr_Endpoint :: gostr
  pr_Status :: gostr
  pr_Priority :: int
  pr_Enabled :: bool
  pr_HealthCheckURL :: gostr
  pr_Credentials :: gostr
  pr_CreatedAt :: gtime
  pr_UpdatedAt :: gtime

definition prov_ToResponse :: "prov \<Rightarrow> prov_response" where
  "prov_ToResponse p = \<lparr>pr_ID = pv_ID p, pr_Name = pv_Name p, pr_Type = pv_Type p,
     pr_Endpoint = pv_Endpoint p, pr_Status = pv_Status p, pr_Priority = pv_Priority p,
     pr_Enabled = pv_Enabled p, pr_HealthCheckURL = pv_HealthCheckURL p,
     pr_Credentials = (if pv_Credentials p \<noteq> '''' then ''***'' else ''''),
     pr_CreatedAt = pv_CreatedAt p, pr_UpdatedAt = pv_UpdatedAt p\<rparr>"

datatype prov_error = ErrProviderNameRequired | ErrProviderTypeRequired | ErrProviderEndpointRequired
  | ErrProviderNotFound | ErrProviderInactive | ErrNoHealthyProvider

definition prov_Validate :: "prov \<Rightarrow> prov_error option" where
  "prov_Validate p =
     (if pv_Name p = '''' then Some ErrProviderNameRequired
      else if pv_Type p = '''' then Some ErrProviderTypeRequired
      else if pv_Endpoint p = '''' then Some ErrProviderEndpointRequired
      else None)"

section \<open>The circuit breaker of the health checker\<close>

datatype hcb_state = HcClosed | HcOpen | HcHalfOpen

fun hcb_state_String :: "hcb_state \<Rightarrow> gostr" where
  "hcb_state_String HcClosed = ''closed''"
| "hcb_state_String HcOpen = ''open''"
| "hcb_state_String HcHalfOpen = ''half-open''"

record hcb =
  hcb_st :: hcb_state
  hcb_failureCount :: int
  hcb_successCount :: int
  hcb_failureThreshold :: int
  hcb_successThreshold :: int
  hcb_timeout :: duration
  hcb_lastFailureTime :: gtime

definition NewHealthBreaker :: "int \<Rightarrow> int \<Rightarrow> duration \<Rightarrow> hcb" where
  "NewHealthBreaker failureThreshold successThreshold timeout =
     \<lparr>hcb_st = HcClosed, hcb_failureCount = 0, hcb_successCount = 0,
      hcb_failureThreshold = failureThreshold, hcb_successThreshold = successThreshold,
      hcb_timeout = timeout, hcb_lastFailureTime = zero_time\<rparr>"

definition hcb_Allow :: "gtime \<Rightarrow> hcb \<Rightarrow> bool \<times> hcb" where
  "hcb_Allow now cb = (case hcb_st cb of
     HcClosed \<Rightarrow> (True, cb)
   | HcOpen \<Rightarrow>
       if time_sub now (hcb_lastFailureTime cb) > hcb_timeout cb
       then (True, cb\<lparr>hcb_st := HcHalfOpen, hcb_successCount := 0, hcb_failureCount := 0\<rparr>)
       else (False, cb)
   | HcHalfOpen \<Rightarrow> (True, cb))"

definition hcb_RecordSuccess :: "hcb \<Rightarrow> hcb" where
  "hcb_RecordSuccess cb = (case hcb_st cb of
     HcClosed \<Rightarrow> cb\<lparr>hcb_failureCount := 0\<rparr>
   | HcHalfOpen \<Rightarrow>
       let cb = cb\<lparr>hcb_successCount := hcb_successCount cb + 1\<rparr> in
       if hcb_successCount cb \<ge> hcb_successThreshold cb
       then cb\<lparr>hcb_st := HcClosed, hcb_failureCount := 0, hcb_successCount := 0\<rparr>
       else cb
   | HcOpen \<Rightarrow> cb)"

definition hcb_RecordFailure :: "gtime \<Rightarrow> hcb \<Rightarrow> hcb" where
  "hcb_RecordFailure now cb =
     (let cb = cb\<lparr>hcb_lastFailureTime := now\<rparr> in
      case hcb_st cb of
        HcClosed \<Rightarrow>
          let cb = cb\<lparr>hcb_failureCount := hcb_failureCount cb + 1\<rparr> in
          if hcb_failureCount cb \<ge> hcb_failureThreshold cb then cb\<lparr>hcb_st := HcOpen\<rparr> else cb
      | HcHalfOpen \<Rightarrow> cb\<lparr>hcb_st := HcOpen, hcb_failureCount := 1\<rparr>
      | HcOpen \<Rightarrow> cb)"

definition hcb_State :: "hcb \<Rightarrow> hcb_state" where
  "hcb_State cb = hcb_st cb"

lemmas hcb_ops = hcb_Allow_def hcb_RecordSuccess_def hcb_RecordFailure_def hcb_State_def

subsection \<open>It is a circuit breaker\<close>

definition hcb_inv :: "hcb \<Rightarrow> bool" where
  "hcb_inv cb \<longleftrightarrow> is_duration (hcb_timeout cb)"

definition hcb_ready :: "gtime \<Rightarrow> hcb \<Rightarrow> bool" where
  "hcb_ready now cb \<longleftrightarrow> time_sub now (hcb_lastFailureTime cb) > hcb_timeout cb"

definition hcb_slack :: "hcb \<Rightarrow> nat" where
  "hcb_slack cb = (case hcb_st cb of
     HcClosed \<Rightarrow> nat (hcb_failureThreshold cb - hcb_failureCount cb)
   | HcHalfOpen \<Rightarrow> 1
   | HcOpen \<Rightarrow> 0)"

abbreviation hcb_is_open :: "hcb \<Rightarrow> bool" where
  "hcb_is_open cb \<equiv> hcb_st cb = HcOpen"

interpretation hcb: latching_breaker hcb_Allow "\<lambda>_. hcb_RecordSuccess" hcb_RecordFailure
  hcb_is_open hcb_ready hcb_slack hcb_inv hcb_timeout
  by unfold_locales
    (auto simp: hcb_ops hcb_inv_def hcb_ready_def hcb_slack_def Let_def
      split: hcb_state.splits if_splits dest: time_sub_gtD)

section \<open>The health checker\<close>

record health_config =
  hcc_Interval :: duration
  hcc_Timeout :: duration
  hcc_Retries :: int
  hcc_FailureThreshold :: int
  hcc_SuccessThreshold :: int
  hcc_CircuitTimeout :: duration

definition DefaultHealthCheckConfig :: health_config where
  "DefaultHealthCheckConfig = \<lparr>hcc_Interval = 30 * second, hcc_Timeout = 10 * second,
     hcc_Retries = 2, hcc_FailureThreshold = 5, hcc_SuccessThreshold = 3,
     hcc_CircuitTimeout = 30 * second\<rparr>"

record health_status =
  hs_ProviderID :: gostr
  hs_IsHealthy :: bool
  hs_LastCheck :: gtime
  hs_LatencyMs :: int
  hs_ErrorRate :: float64
  hs_SuccessRate :: float64
  hs_CircuitState :: gostr
  hs_FailureCount :: int
  hs_NextCheck :: gtime

record check_result =
  cr_ProviderID :: gostr
  cr_Success :: bool
  cr_Latency :: duration
  cr_Error :: "gostr option"
  cr_Timestamp :: gtime

record health_metrics =
  hm_ProviderID :: gostr
  hm_TotalChecks :: int
  hm_SuccessfulChecks :: int
  hm_FailedChecks :: int
  hm_AvgLatencyMs :: float64
  hm_MinLatencyMs :: int
  hm_MaxLatencyMs :: int
  hm_P99LatencyMs :: int
  hm_SuccessRate :: float64
  hm_ErrorRate :: float64
  hm_CurrentState :: gostr
  hm_LastError :: gostr

record health_checker =
  hc_config :: health_config
  hc_circuitBreakers :: "(gostr, hcb) gomap"
  hc_healthStatus :: "(gostr, health_status) gomap"
  hc_metrics :: "(gostr, health_metrics) gomap"

definition NewHealthChecker :: "health_config option \<Rightarrow> health_checker" where
  "NewHealthChecker config = \<lparr>hc_config =
       (case config of None \<Rightarrow> DefaultHealthCheckConfig | Some c \<Rightarrow> c),
     hc_circuitBreakers = Map.empty, hc_healthStatus = Map.empty, hc_metrics = Map.empty\<rparr>"

definition config_breaker :: "health_config \<Rightarrow> hcb" where
  "config_breaker c = NewHealthBreaker (hcc_FailureThreshold c) (hcc_SuccessThreshold c)
     (hcc_CircuitTimeout c)"

definition getOrCreateCircuitBreaker :: "gostr \<Rightarrow> health_checker \<Rightarrow> hcb \<times> health_checker" where
  "getOrCreateCircuitBreaker providerID hc =
     (let (cb, m) = get_or_create (config_breaker (hc_config hc)) (hc_circuitBreakers hc) providerID
      in (cb, hc\<lparr>hc_circuitBreakers := m\<rparr>))"

definition zero_status :: "gostr \<Rightarrow> health_status" where
  "zero_status i = \<lparr>hs_ProviderID = i, hs_IsHealthy = False, hs_LastCheck = zero_time,
     hs_LatencyMs = 0, hs_ErrorRate = 0, hs_SuccessRate = 0, hs_CircuitState = '''',
     hs_FailureCount = 0, hs_NextCheck = zero_time\<rparr>"

definition zero_metrics :: "gostr \<Rightarrow> health_metrics" where
  "zero_metrics i = \<lparr>hm_ProviderID = i, hm_TotalChecks = 0, hm_SuccessfulChecks = 0,
     hm_FailedChecks = 0, hm_AvgLatencyMs = 0, hm_MinLatencyMs = 0, hm_MaxLatencyMs = 0,
     hm_P99LatencyMs = 0, hm_SuccessRate = 0, hm_ErrorRate = 0, hm_CurrentState = '''',
     hm_LastError = ''''\<rparr>"

text \<open>The counters and rates of the metrics, then the latencies, as one check updates them.\<close>

definition count_check :: "check_result \<Rightarrow> health_metrics \<Rightarrow> health_metrics" where
  "count_check result m =
     (let m = m\<lparr>hm_TotalChecks := hm_TotalChecks m + 1\<rparr>;
          m = (if cr_Success result then m\<lparr>hm_SuccessfulChecks := hm_SuccessfulChecks m + 1\<rparr>
               else m\<lparr>hm_FailedChecks := hm_FailedChecks m + 1,
                      hm_LastError := (case cr_Error result of None \<Rightarrow> '''' | Some e \<Rightarrow> e)\<rparr>)
      in if hm_TotalChecks m > 0
         then m\<lparr>hm_SuccessRate :=
                  fdiv (float_of_int (hm_SuccessfulChecks m)) (float_of_int (hm_TotalChecks m)),
                hm_ErrorRate :=
                  fdiv (float_of_int (hm_FailedChecks m)) (float_of_int (hm_TotalChecks m))\<rparr>
         else m)"

definition roll_latency :: "int \<Rightarrow> health_metrics \<Rightarrow> health_metrics" where
  "roll_latency ms m =
     (if hm_TotalChecks m = 1
      then m\<lparr>hm_AvgLatencyMs := float_of_int ms, hm_MinLatencyMs := ms, hm_MaxLatencyMs := ms\<rparr>
      else m\<lparr>hm_AvgLatencyMs :=
               fdiv (fadd (fmul (hm_AvgLatencyMs m) (float_of_int (hm_TotalChecks m - 1)))
                          (float_of_int ms))
                    (float_of_int (hm_TotalChecks m)),
             hm_MinLatencyMs := (if ms < hm_MinLatencyMs m then ms else hm_MinLatencyMs m),
             hm_MaxLatencyMs := (if ms > hm_MaxLatencyMs m then ms else hm_MaxLatencyMs m)\<rparr>)"

definition updateHealthStatus :: "gtime \<Rightarrow> gostr \<Rightarrow> check_result \<Rightarrow> health_checker \<Rightarrow> health_checker" where
  "updateHealthStatus now providerID result hc =
     (let status = map_get (zero_status providerID) (hc_healthStatus hc) providerID;
          ms = to_milliseconds (cr_Latency result);
          status = status\<lparr>hs_LastCheck := cr_Timestamp result, hs_LatencyMs := ms\<rparr>;
          metrics = roll_latency ms (count_check result
            (map_get (zero_metrics providerID) (hc_metrics hc) providerID));
          status = (case hc_circuitBreakers hc providerID of
            Some cb \<Rightarrow> status\<lparr>hs_CircuitState := hcb_state_String (hcb_State cb),
              hs_FailureCount := hcb_failureCount cb, hs_IsHealthy := hcb_State cb \<noteq> HcOpen,
              hs_SuccessRate := hm_SuccessRate metrics, hs_ErrorRate := hm_ErrorRate metrics\<rparr>
          | None \<Rightarrow> status\<lparr>hs_IsHealthy := cr_Success result, hs_CircuitState := ''unknown''\<rparr>);
          status = status\<lparr>hs_NextCheck := time_add now (hcc_Interval (hc_config hc))\<rparr>;
          metrics = metrics\<lparr>hm_CurrentState := hs_CircuitState status,
            hm_P99LatencyMs :=
              int_of_float (fmul (float_of_int (hm_MaxLatencyMs metrics)) (fl (99 / 100)))\<rparr>
      in hc\<lparr>hc_healthStatus := (hc_healthStatus hc)(providerID \<mapsto> status),
            hc_metrics := (hc_metrics hc)(providerID \<mapsto> metrics)\<rparr>)"

section \<open>A health check\<close>

text \<open>
  What the probe of a provider's endpoint does: the request cannot be built, the call
  fails, or a response comes back with a status code.
\<close>

datatype probe = BadRequest gostr | CallFailed gostr duration | Responded int duration

definition update_breaker :: "gostr \<Rightarrow> (hcb \<Rightarrow> hcb) \<Rightarrow> health_checker \<Rightarrow> health_checker" where
  "update_breaker i f hc =
     (let (cb, hc) = getOrCreateCircuitBreaker i hc
      in hc\<lparr>hc_circuitBreakers := (hc_circuitBreakers hc)(i \<mapsto> f cb)\<rparr>)"

definition hc_check_begin :: "gtime \<Rightarrow> prov \<Rightarrow> health_checker \<Rightarrow> bool \<times> health_checker" where
  "hc_check_begin now p hc =
     (let (cb, hc) = getOrCreateCircuitBreaker (pv_ID p) hc;
          (ok, cb) = hcb_Allow now cb
      in (ok, hc\<lparr>hc_circuitBreakers := (hc_circuitBreakers hc)(pv_ID p \<mapsto> cb)\<rparr>))"

fun probe_result :: "gostr \<Rightarrow> gtime \<Rightarrow> probe \<Rightarrow> check_result" where
  "probe_result i ts (BadRequest e) = \<lparr>cr_ProviderID = i, cr_Success = False, cr_Latency = 0,
     cr_Error = Some (''failed to create request: '' @ e), cr_Timestamp = ts\<rparr>"
| "probe_result i ts (CallFailed e d) = \<lparr>cr_ProviderID = i, cr_Success = False, cr_Latency = d,
     cr_Error = Some (''health check failed: '' @ e), cr_Timestamp = ts\<rparr>"
| "probe_result i ts (Responded code d) =
     (if code \<ge> 200 \<and> code < 400
      then \<lparr>cr_ProviderID = i, cr_Success = True, cr_Latency = d, cr_Error = None, cr_Timestamp = ts\<rparr>
      else \<lparr>cr_ProviderID = i, cr_Success = False, cr_Latency = d,
             cr_Error = Some (''health check returned status '' @ itoa code), cr_Timestamp = ts\<rparr>)"

definition blocked_result :: "gostr \<Rightarrow> gtime \<Rightarrow> check_result" where
  "blocked_result i ts = \<lparr>cr_ProviderID = i, cr_Success = False, cr_Latency = 0,
     cr_Error = Some ''circuit breaker is open'', cr_Timestamp = ts\<rparr>"

definition hc_check_end :: "gtime \<Rightarrow> gtime \<Rightarrow> prov \<Rightarrow> probe \<Rightarrow> health_checker
    \<Rightarrow> check_result \<times> health_checker" where
  "hc_check_end ts now p pr hc =
     (let result = probe_result (pv_ID p) ts pr;
          hc = update_breaker (pv_ID p)
            (if cr_Success result then hcb_RecordSuccess else hcb_RecordFailure now) hc
      in (result, updateHealthStatus now (pv_ID p) result hc))"

definition hc_CheckProvider :: "gtime \<Rightarrow> gtime \<Rightarrow> prov \<Rightarrow> probe \<Rightarrow> health_checker
    \<Rightarrow> check_result \<times> health_checker" where
  "hc_CheckProvider ts now p pr hc =
     (let (ok, hc) = hc_check_begin ts p hc in
      if \<not> ok
      then let result = blocked_result (pv_ID p) ts
           in (result, updateHealthStatus ts (pv_ID p) result hc)
      else hc_check_end ts now p pr hc)"

definition checkAllProviders :: "prov list \<Rightarrow> prov list" where
  "checkAllProviders providers = filter pv_Enabled providers"

definition IsProviderHealthy :: "gostr \<Rightarrow> health_checker \<Rightarrow> bool \<times> health_checker" where
  "IsProviderHealthy providerID hc =
     (let (cb, hc) = getOrCreateCircuitBreaker providerID hc in (hcb_State cb \<noteq> HcOpen, hc))"

definition GetHealthStatus :: "gostr \<Rightarrow> health_checker \<Rightarrow> health_status option" where
  "GetHealthStatus providerID hc = hc_healthStatus hc providerID"

definition GetMetrics :: "gostr \<Rightarrow> health_checker \<Rightarrow> health_metrics option" where
  "GetMetrics providerID hc = hc_metrics hc providerID"

definition GetAllHealthStatus :: "health_checker \<Rightarrow> (gostr, health_status) gomap" where
  "GetAllHealthStatus hc = hc_healthStatus hc"

definition GetAllMetrics :: "health_checker \<Rightarrow> (gostr, health_metrics) gomap" where
  "GetAllMetrics hc = hc_metrics hc"

section \<open>Interleaved health checks\<close>

text \<open>
  The steps of concurrent checks of any providers: the admission of a check, the end of
  an admitted one, a refused one, and a query by a selector, which may create a breaker.
  Latencies come from the monotonic clock and are not negative.
\<close>

fun probe_latency :: "probe \<Rightarrow> duration" where
  "probe_latency (BadRequest e) = 0"
| "probe_latency (CallFailed e d) = d"
| "probe_latency (Responded c d) = d"

inductive hc_step :: "health_checker \<Rightarrow> health_checker \<Rightarrow> bool" where
  hc_begin: "hc_step hc (snd (hc_check_begin now p hc))"
| hc_end: "probe_latency pr \<ge> 0 \<Longrightarrow> hc_step hc (snd (hc_check_end ts now p pr hc))"
| hc_blocked: "hc_step hc (updateHealthStatus ts i (blocked_result i ts) hc)"
| hc_query: "hc_step hc (snd (IsProviderHealthy i hc))"

definition rates_ok :: "health_metrics \<Rightarrow> bool" where
  "rates_ok m \<longleftrightarrow> hm_TotalChecks m = hm_SuccessfulChecks m + hm_FailedChecks m
     \<and> 0 \<le> hm_SuccessfulChecks m \<and> 0 \<le> hm_FailedChecks m \<and> 0 < hm_TotalChecks m
     \<and> 0 \<le> hm_SuccessRate m \<and> hm_SuccessRate m \<le> 1 \<and> 0 \<le> hm_ErrorRate m \<and> hm_ErrorRate m \<le> 1"

definition latency_ok :: "health_metrics \<Rightarrow> bool" where
  "latency_ok m \<longleftrightarrow> 0 \<le> hm_MinLatencyMs m \<and> hm_MinLatencyMs m \<le> hm_MaxLatencyMs m
     \<and> (hm_TotalChecks m \<le> 2 ^ 53 \<and> hm_MaxLatencyMs m * hm_TotalChecks m \<le> 2 ^ 53 \<longrightarrow>
        of_int (hm_MinLatencyMs m) \<le> hm_AvgLatencyMs m
        \<and> hm_AvgLatencyMs m \<le> of_int (hm_MaxLatencyMs m))"

definition metrics_inv :: "health_checker \<Rightarrow> bool" where
  "metrics_inv hc \<longleftrightarrow> (\<forall>i m. hc_metrics hc i = Some m \<longrightarrow> rates_ok m \<and> latency_ok m)"

lemma fl_ratio:
  assumes "0 \<le> x" "x \<le> y" shows "0 \<le> fl (x / y)" "fl (x / y) \<le> 1"
  using assms fl_nonneg [of "x / y"] fl_mono [of "x / y" 1] by (auto simp: divide_le_eq)

lemma count_check_rates:
  assumes "m = zero_metrics i \<or> rates_ok m" shows "rates_ok (count_check r m)"
  using assms
  by (auto simp: rates_ok_def count_check_def zero_metrics_def float_ops Let_def
      intro!: fl_ratio fl_nonneg fl_mono divide_nonneg_nonneg)

text \<open>The rolling average stays between the extremes, rounding included.\<close>

lemma rolling_average:
  fixes a :: rat and lo hi ms n :: int
  assumes "of_int lo \<le> a" "a \<le> of_int hi" "lo \<le> ms" "ms \<le> hi" "0 \<le> lo"
    and "1 < n" "n \<le> 2 ^ 53" "hi * n \<le> 2 ^ 53"
  shows "of_int lo \<le> fdiv (fadd (fmul a (float_of_int (n - 1))) (float_of_int ms)) (float_of_int n)"
    and "fdiv (fadd (fmul a (float_of_int (n - 1))) (float_of_int ms)) (float_of_int n) \<le> of_int hi"
proof -
  have "hi \<le> hi * n" using assms by (simp add: mult_le_cancel_left1)
  then have hi: "hi \<le> 2 ^ 53" using assms(8) by linarith
  have bound: "0 \<le> x * k" "x * k \<le> 2 ^ 53" if "0 \<le> x" "x \<le> hi" "0 \<le> k" "k \<le> n" for x k :: int
    using that mult_mono [of x hi k n] assms(8) by auto
  have "lo \<le> hi" using assms by linarith
  have n: "float_of_int n = of_int n" "float_of_int (n - 1) = of_int (n - 1)" "float_of_int ms = of_int ms"
    using fl_of_int [of n] fl_of_int [of "n - 1"] fl_of_int [of ms] assms hi
    by (simp_all add: float_of_int_def)
  have ab: "\<bar>lo * (n - 1)\<bar> \<le> 2 ^ 53" "\<bar>hi * (n - 1)\<bar> \<le> 2 ^ 53" "\<bar>lo * n\<bar> \<le> 2 ^ 53" "\<bar>hi * n\<bar> \<le> 2 ^ 53"
    using bound [of lo "n - 1"] bound [of hi "n - 1"] bound [of lo n] bound [of hi n] assms \<open>lo \<le> hi\<close>
    by simp_all
  let ?a = "fmul a (of_int (n - 1))"
  have "of_int (lo * (n - 1)) \<le> a * of_int (n - 1)" "a * of_int (n - 1) \<le> of_int (hi * (n - 1))"
    using assms by (simp_all add: mult_right_mono)
  then have mul: "of_int (lo * (n - 1)) \<le> ?a" "?a \<le> of_int (hi * (n - 1))"
    unfolding fmul_def using ab(1,2) by (blast intro: fl_ge_int fl_le_int)+
  have "of_int (lo * (n - 1) + ms) \<le> ?a + of_int ms" "?a + of_int ms \<le> of_int (hi * (n - 1) + ms)"
    using mul by simp_all
  moreover have "lo * n \<le> lo * (n - 1) + ms" "hi * (n - 1) + ms \<le> hi * n"
    using assms by (simp_all add: algebra_simps)
  ultimately have "of_int (lo * n) \<le> ?a + of_int ms" "?a + of_int ms \<le> of_int (hi * n)"
    by (meson of_int_le_iff order_trans)+
  then have add: "of_int (lo * n) \<le> fadd ?a (of_int ms)" "fadd ?a (of_int ms) \<le> of_int (hi * n)"
    unfolding fadd_def using ab(3,4) by (blast intro: fl_ge_int fl_le_int)+
  show "of_int lo \<le> fdiv (fadd (fmul a (float_of_int (n - 1))) (float_of_int ms)) (float_of_int n)"
    unfolding fdiv_def n using add(1) assms hi \<open>lo \<le> hi\<close>
    by (intro fl_ge_int) (auto simp: le_divide_eq)
  show "fdiv (fadd (fmul a (float_of_int (n - 1))) (float_of_int ms)) (float_of_int n) \<le> of_int hi"
    unfolding fdiv_def n using add(2) assms hi \<open>lo \<le> hi\<close>
    by (intro fl_le_int) (auto simp: divide_le_eq)
qed

lemma roll_latency_ok:
  assumes "m = count_check r m0" "m0 = zero_metrics i \<or> (rates_ok m0 \<and> latency_ok m0)" "0 \<le> ms"
  shows "latency_ok (roll_latency ms m)"
proof (cases "hm_TotalChecks m = 1")
  case True
  then show ?thesis using assms(3) by (auto simp: latency_ok_def roll_latency_def float_of_int_def)
next
  case False
  let ?lo = "min ms (hm_MinLatencyMs m)" and ?hi = "max ms (hm_MaxLatencyMs m)"
  from False assms(1,2) have m0: "rates_ok m0" "latency_ok m0"
    by (auto simp: count_check_def zero_metrics_def Let_def split: if_splits)
  have eq: "hm_TotalChecks m = hm_TotalChecks m0 + 1" "hm_MinLatencyMs m = hm_MinLatencyMs m0"
    "hm_MaxLatencyMs m = hm_MaxLatencyMs m0" "hm_AvgLatencyMs m = hm_AvgLatencyMs m0"
    by (simp_all add: assms(1) count_check_def Let_def)
  have n: "1 < hm_TotalChecks m" using m0(1) by (simp add: eq rates_ok_def)
  have lo: "0 \<le> hm_MinLatencyMs m" "hm_MinLatencyMs m \<le> hm_MaxLatencyMs m"
    using m0(2) by (simp_all add: eq latency_ok_def)
  have new: "roll_latency ms m = m\<lparr>hm_AvgLatencyMs := fdiv (fadd (fmul (hm_AvgLatencyMs m)
      (float_of_int (hm_TotalChecks m - 1))) (float_of_int ms)) (float_of_int (hm_TotalChecks m)),
      hm_MinLatencyMs := ?lo, hm_MaxLatencyMs := ?hi\<rparr>"
    using False by (simp add: roll_latency_def min_def max_def)
  have avg: "of_int ?lo \<le> hm_AvgLatencyMs m" "hm_AvgLatencyMs m \<le> of_int ?hi"
    if "hm_TotalChecks m \<le> 2 ^ 53" "?hi * hm_TotalChecks m \<le> 2 ^ 53"
  proof -
    have "hm_MaxLatencyMs m * hm_TotalChecks m0 \<le> ?hi * hm_TotalChecks m"
      using lo n eq by (intro mult_mono) auto
    with that m0(2) have "of_int (hm_MinLatencyMs m) \<le> hm_AvgLatencyMs m"
      "hm_AvgLatencyMs m \<le> of_int (hm_MaxLatencyMs m)"
      by (auto simp: latency_ok_def eq)
    moreover have "of_int ?lo \<le> (of_int (hm_MinLatencyMs m) :: rat)" "of_int (hm_MaxLatencyMs m) \<le> (of_int ?hi :: rat)"
      by (simp_all only: of_int_le_iff min.cobounded2 max.cobounded2)
    ultimately show "of_int ?lo \<le> hm_AvgLatencyMs m" "hm_AvgLatencyMs m \<le> of_int ?hi" by linarith+
  qed
  have "0 \<le> ?lo" "?lo \<le> ?hi" "?lo \<le> ms" "ms \<le> ?hi" using lo assms(3) by auto
  with avg n rolling_average [of ?lo "hm_AvgLatencyMs m" ?hi ms "hm_TotalChecks m"]
  show ?thesis unfolding new latency_ok_def by (simp del: of_int_min of_int_max)
qed

lemma updateHealthStatus_metrics:
  "\<exists>s l. hc_metrics (updateHealthStatus now i r hc) = (hc_metrics hc)(i \<mapsto>
     (roll_latency (to_milliseconds (cr_Latency r)) (count_check r
        (map_get (zero_metrics i) (hc_metrics hc) i)))\<lparr>hm_CurrentState := s, hm_P99LatencyMs := l\<rparr>)"
  by (auto simp: updateHealthStatus_def Let_def)

lemma metrics_ok_state [simp]:
  "rates_ok (m\<lparr>hm_CurrentState := s, hm_P99LatencyMs := l\<rparr>) = rates_ok m"
  "latency_ok (m\<lparr>hm_CurrentState := s, hm_P99LatencyMs := l\<rparr>) = latency_ok m"
  by (simp_all add: rates_ok_def latency_ok_def)

lemma metrics_inv_update:
  assumes "metrics_inv hc" "0 \<le> cr_Latency r"
  shows "metrics_inv (updateHealthStatus now i r hc)"
proof -
  let ?m0 = "map_get (zero_metrics i) (hc_metrics hc) i"
  have m0: "?m0 = zero_metrics i \<or> (rates_ok ?m0 \<and> latency_ok ?m0)"
    using assms(1) by (auto simp: metrics_inv_def map_get_def split: option.splits)
  have ms: "0 \<le> to_milliseconds (cr_Latency r)" using assms(2) by (simp add: to_milliseconds_def)
  have "rates_ok (roll_latency ms (count_check r ?m0))" for ms
    using count_check_rates [of ?m0 i r] m0 by (auto simp: rates_ok_def roll_latency_def)
  moreover have "latency_ok (roll_latency (to_milliseconds (cr_Latency r)) (count_check r ?m0))"
    using roll_latency_ok [OF refl m0 ms] .
  ultimately show ?thesis
    using assms(1) updateHealthStatus_metrics [of now i r hc]
    by (auto simp: metrics_inv_def split: if_splits)
qed

lemma metrics_unchanged [simp]:
  "hc_metrics (snd (getOrCreateCircuitBreaker i hc)) = hc_metrics hc"
  "hc_metrics (snd (hc_check_begin now p hc)) = hc_metrics hc"
  "hc_metrics (snd (IsProviderHealthy i hc)) = hc_metrics hc"
  "hc_metrics (update_breaker i f hc) = hc_metrics hc"
  by (simp_all add: getOrCreateCircuitBreaker_def hc_check_begin_def IsProviderHealthy_def
      update_breaker_def split_beta Let_def)

lemma metrics_inv_unchanged [simp]:
  "metrics_inv (snd (hc_check_begin now p hc)) = metrics_inv hc"
  "metrics_inv (snd (IsProviderHealthy i hc)) = metrics_inv hc"
  "metrics_inv (update_breaker i f hc) = metrics_inv hc"
  by (simp_all add: metrics_inv_def)

lemma probe_result_latency: "cr_Latency (probe_result i ts pr) = probe_latency pr"
  by (cases pr) auto

lemma metrics_inv_step: "hc_step hc hc' \<Longrightarrow> metrics_inv hc \<Longrightarrow> metrics_inv hc'"
  by (induction rule: hc_step.induct)
    (auto simp: hc_check_end_def Let_def probe_result_latency blocked_result_def
      intro!: metrics_inv_update)

text \<open>C39: Whatever checks of whatever providers have run, interleaved in any way, the metrics of
  a provider are consistent: its counts add up, its rates lie between 0 and 1, its least
  latency is at most its greatest and, as long as the latencies seen could be added up
  exactly (below \<open>2\<^sup>5\<^sup>3\<close>), the rolling average computed in floating point lies between them.\<close>

theorem health_metrics_bounds:
  assumes "hc_step\<^sup>*\<^sup>* (NewHealthChecker config) hc" "hc_metrics hc i = Some m"
  shows "hm_TotalChecks m = hm_SuccessfulChecks m + hm_FailedChecks m
    \<and> 0 \<le> hm_SuccessRate m \<and> hm_SuccessRate m \<le> 1 \<and> 0 \<le> hm_ErrorRate m \<and> hm_ErrorRate m \<le> 1
    \<and> hm_MinLatencyMs m \<le> hm_MaxLatencyMs m
    \<and> (hm_TotalChecks m \<le> 2 ^ 53 \<and> hm_MaxLatencyMs m * hm_TotalChecks m \<le> 2 ^ 53 \<longrightarrow>
      of_int (hm_MinLatencyMs m) \<le> hm_AvgLatencyMs m \<and> hm_AvgLatencyMs m \<le> of_int (hm_MaxLatencyMs m))"
proof -
  from assms(1) have "metrics_inv hc"
    by (induction rule: rtranclp_induct)
      (simp add: metrics_inv_def NewHealthChecker_def, blast intro: metrics_inv_step)
  with assms(2) have "rates_ok m" "latency_ok m" by (auto simp: metrics_inv_def)
  then show ?thesis by (auto simp: rates_ok_def latency_ok_def)
qed

definition example_prov :: prov where
  "example_prov = \<lparr>pv_ID = ''p1'', pv_Name = ''one'', pv_Type = ''openai'', pv_Endpoint = ''http://one'',
     pv_Credentials = '''', pv_Status = ''active'', pv_Priority = 1, pv_Enabled = True,
     pv_HealthCheckURL = '''', pv_CreatedAt = 1, pv_UpdatedAt = 1\<rparr>"

definition checked_once :: health_checker where
  "checked_once = snd (hc_check_end 5 6 example_prov (Responded 200 (7 * millisecond)) (NewHealthChecker None))"

definition checked_twice :: health_checker where
  "checked_twice = snd (hc_check_end 8 9 example_prov (Responded 500 (10 * millisecond)) checked_once)"

lemma checked_twice_metrics:
  "map_option (\<lambda>m. (hm_TotalChecks m, hm_MaxLatencyMs m)) (hc_metrics checked_twice ''p1'') = Some (2, 10)"
  by code_simp

theorem health_metrics_bounds_witness:
  "\<exists>m. hc_metrics checked_twice ''p1'' = Some m \<and> hm_TotalChecks m = 2
     \<and> hm_TotalChecks m = hm_SuccessfulChecks m + hm_FailedChecks m
     \<and> of_int (hm_MinLatencyMs m) \<le> hm_AvgLatencyMs m \<and> hm_AvgLatencyMs m \<le> of_int (hm_MaxLatencyMs m)"
proof -
  have "hc_step (NewHealthChecker None) checked_once"
    unfolding checked_once_def by (rule hc_step.hc_end) (simp add: millisecond_def)
  moreover have "hc_step checked_once checked_twice"
    unfolding checked_twice_def by (rule hc_step.hc_end) (simp add: millisecond_def)
  ultimately have run: "hc_step\<^sup>*\<^sup>* (NewHealthChecker None) checked_twice" by simp
  obtain m where m: "hc_metrics checked_twice ''p1'' = Some m" "hm_TotalChecks m = 2"
    "hm_MaxLatencyMs m = 10" using checked_twice_metrics by auto
  from health_metrics_bounds [OF run m(1)] m(2,3) have
    "hm_TotalChecks m = hm_SuccessfulChecks m + hm_FailedChecks m"
    "of_int (hm_MinLatencyMs m) \<le> hm_AvgLatencyMs m \<and> hm_AvgLatencyMs m \<le> of_int (hm_MaxLatencyMs m)"
    by simp_all
  with m show ?thesis by blast
qed

section \<open>Failing providers\<close>

definition breaker_of :: "gostr \<Rightarrow> health_checker \<Rightarrow> hcb" where
  "breaker_of i hc = map_get (config_breaker (hc_config hc)) (hc_circuitBreakers hc) i"

lemma getOrCreate_simps [simp]:
  "fst (getOrCreateCircuitBreaker i hc) = breaker_of i hc"
  "hc_config (snd (getOrCreateCircuitBreaker i hc)) = hc_config hc"
  "breaker_of j (snd (getOrCreateCircuitBreaker i hc)) = breaker_of j hc"
  by (simp_all add: getOrCreateCircuitBreaker_def breaker_of_def split_beta Let_def get_or_create_snd)

lemma check_begin_simps [simp]:
  "fst (hc_check_begin now p hc) = fst (hcb_Allow now (breaker_of (pv_ID p) hc))"
  "breaker_of (pv_ID p) (snd (hc_check_begin now p hc)) = snd (hcb_Allow now (breaker_of (pv_ID p) hc))"
  "hc_config (snd (hc_check_begin now p hc)) = hc_config hc"
  by (simp_all add: hc_check_begin_def split_beta Let_def, simp_all add: breaker_of_def)

lemma update_status_simps [simp]:
  "hc_config (updateHealthStatus now i r hc) = hc_config hc"
  "breaker_of j (updateHealthStatus now i r hc) = breaker_of j hc"
  by (simp_all add: updateHealthStatus_def Let_def breaker_of_def)

lemma update_breaker_simps [simp]:
  "hc_config (update_breaker i f hc) = hc_config hc"
  "breaker_of i (update_breaker i f hc) = f (breaker_of i hc)"
  by (simp_all add: update_breaker_def split_beta Let_def) (simp_all add: breaker_of_def)

abbreviation probe_fails :: "probe \<Rightarrow> bool" where
  "probe_fails pr \<equiv> \<not> cr_Success (probe_result '''' 0 pr)"

lemma probe_result_success: "cr_Success (probe_result i ts pr) = cr_Success (probe_result '''' 0 pr)"
  by (cases pr) auto

lemma failing_check:
  assumes "hcb_st (breaker_of (pv_ID p) hc) = HcClosed" "probe_fails pr"
  shows "breaker_of (pv_ID p) (snd (hc_CheckProvider ts now p pr hc))
    = hcb_RecordFailure now (breaker_of (pv_ID p) hc)"
proof -
  have "hcb_Allow t (breaker_of (pv_ID p) hc) = (True, breaker_of (pv_ID p) hc)" for t
    using assms(1) by (simp add: hcb_Allow_def)
  then show ?thesis
    using assms(2) by (simp add: hc_CheckProvider_def hc_check_end_def split_beta Let_def
        probe_result_success [of "pv_ID p" ts])
qed

type_synonym timed_probe = "gtime \<times> gtime \<times> probe"

definition run_checks :: "prov \<Rightarrow> timed_probe list \<Rightarrow> health_checker \<Rightarrow> health_checker" where
  "run_checks p = fold (\<lambda>(ts, now, pr) hc. snd (hc_CheckProvider ts now p pr hc))"

lemma run_checks_breaker:
  assumes "hcb_st (breaker_of (pv_ID p) hc) = HcClosed" "int (length cs) \<le> hcb_failureThreshold (breaker_of (pv_ID p) hc)
      - hcb_failureCount (breaker_of (pv_ID p) hc)"
    and "\<forall>c \<in> set cs. probe_fails (snd (snd c))"
  shows "breaker_of (pv_ID p) (run_checks p cs hc)
    = fold hcb_RecordFailure (map (fst \<circ> snd) cs) (breaker_of (pv_ID p) hc)"
  using assms
proof (induction cs arbitrary: hc)
  case Nil
  then show ?case by (simp add: run_checks_def)
next
  case (Cons c cs)
  obtain ts now pr where c: "c = (ts, now, pr)" by (cases c) auto
  let ?b = "breaker_of (pv_ID p) hc" and ?hc = "snd (hc_CheckProvider ts now p pr hc)"
  have b: "breaker_of (pv_ID p) ?hc = hcb_RecordFailure now ?b"
    using Cons.prems by (intro failing_check) (auto simp: c)
  show ?case
  proof (cases "cs = []")
    case True
    then show ?thesis using b by (simp add: run_checks_def c)
  next
    case False
    then have "1 \<le> int (length cs)" by (simp add: Suc_leI)
    with Cons.prems(1,2) have "hcb_st (hcb_RecordFailure now ?b) = HcClosed"
      "int (length cs) \<le> hcb_failureThreshold (hcb_RecordFailure now ?b)
        - hcb_failureCount (hcb_RecordFailure now ?b)"
      by (simp_all add: hcb_RecordFailure_def Let_def del: of_nat_le_iff One_nat_def)
    with Cons.IH [of ?hc] Cons.prems(3) b show ?thesis by (simp add: run_checks_def c)
  qed
qed

text \<open>A failing provider is taken out. Once five health checks of a provider have failed, the
  last one ending at \<open>t0\<close>, the provider counts as unhealthy and every check that starts
  within the next thirty seconds is refused without probing it.\<close>

theorem health_fail_fast:
  assumes "length cs = 4" "probe_fails pr" "\<forall>c \<in> set cs. probe_fails (snd (snd c))"
    and "hc = run_checks p (cs @ [(ts, t0, pr)]) (NewHealthChecker None)"
    and "now < t0 + 30 * second"
  shows "\<not> fst (IsProviderHealthy (pv_ID p) hc)
    \<and> fst (hc_CheckProvider now end p pr' hc) = blocked_result (pv_ID p) now"
proof -
  let ?b = "config_breaker DefaultHealthCheckConfig"
  have new: "breaker_of (pv_ID p) (NewHealthChecker None) = ?b"
    by (simp add: breaker_of_def NewHealthChecker_def)
  have b: "breaker_of (pv_ID p) hc = fold hcb_RecordFailure (map (fst \<circ> snd) cs @ [t0]) ?b"
    using run_checks_breaker [of p "NewHealthChecker None" "cs @ [(ts, t0, pr)]"] assms(1-4) new
    by (simp add: config_breaker_def NewHealthBreaker_def DefaultHealthCheckConfig_def comp_def)
  have inv: "hcb_inv ?b" "hcb_slack ?b \<le> Suc (length (map (fst \<circ> snd) cs))"
    using assms(1) by (simp_all add: hcb_inv_def hcb_slack_def config_breaker_def NewHealthBreaker_def
        DefaultHealthCheckConfig_def is_duration_def min_duration_def max_duration_def second_def)
  have "hcb_timeout ?b = 30 * second"
    by (simp add: config_breaker_def NewHealthBreaker_def DefaultHealthCheckConfig_def)
  with hcb.fail_fast [OF inv, of "[now]" t0] assms(5) have blocked: "\<not> fst (hcb_Allow now (breaker_of (pv_ID p) hc))"
    by (simp add: b prod_eq_iff del: fold_append)
  have "hcb_is_open (breaker_of (pv_ID p) hc)"
    using hcb.failures_open [OF inv(1), of "map (fst \<circ> snd) cs @ [t0]"] inv(2) by (simp only: b) simp
  with blocked show ?thesis
    by (simp add: IsProviderHealthy_def hc_CheckProvider_def split_beta Let_def hcb_State_def)
qed

theorem health_fail_fast_witness:
  "fst (hc_CheckProvider 20 21 example_prov (Responded 200 1) (run_checks example_prov
     ([(1, 2, CallFailed ''e'' 1), (3, 4, Responded 503 1), (5, 6, BadRequest ''u''), (7, 8, Responded 404 2)]
        @ [(9, 10, CallFailed ''e'' 1)]) (NewHealthChecker None))) = blocked_result ''p1'' 20"
  using health_fail_fast [of "[(1, 2, CallFailed ''e'' 1), (3, 4, Responded 503 1), (5, 6, BadRequest ''u''),
      (7, 8, Responded 404 2)]" "CallFailed ''e'' 1" _ example_prov 9 10 20 21 "Responded 200 1", OF _ _ _ refl]
  by (simp add: second_def example_prov_def)

end
