(* ===== verification/Provider_Selector.thy ===== *)
theory Provider_Selector
  imports Provider_Health "HOL-Library.Multiset"
begin

text \<open>
  \<open>internal/provider/rotation.go\<close>: the selector over the health checker. The checker is
  optional (a nil pointer); a strategy that dereferences a nil checker panics. The
  weighted strategy reads the clock as its source of randomness, which is the argument
  \<open>nanos\<close>; it computes in floating point and panics when the weights are so small that
  the modulus it draws with is zero.
\<close>

datatype rotation_strategy = PriorityBased | RoundRobin | LeastLoaded | WeightedRandom | OtherStrategy int

fun rotation_String :: "rotation_strategy \<Rightarrow> gostr" where
  "rotation_String PriorityBased = ''priority''"
| "rotation_String RoundRobin = ''round_robin''"
| "rotation_String LeastLoaded = ''least_loaded''"
| "rotation_String WeightedRandom = ''weighted_random''"
| "rotation_String (OtherStrategy _) = ''unknown''"

record selector =
  ps_healthChecker :: "health_checker option"
  ps_strategy :: rotation_strategy
  ps_providers :: "prov list"
  ps_index :: nat

definition NewProviderSelector :: "health_checker option \<Rightarrow> rotation_strategy \<Rightarrow> prov list \<Rightarrow> selector" where
  "NewProviderSelector hc strategy providers = \<lparr>ps_healthChecker = hc, ps_strategy = strategy,
     ps_providers = providers, ps_index = 0\<rparr>"

text \<open>A selection returns a provider (possibly nil), an error, or panics.\<close>

datatype selection = Selected "prov option" | ErrNoHealthyProviders | SelectPanic

text \<open>The loop of \<open>SelectProvider\<close> and of \<open>GetHealthyProviders\<close> over the providers.\<close>

fun filter_healthy :: "prov list \<Rightarrow> health_checker option \<Rightarrow> prov list \<times> health_checker option" where
  "filter_healthy [] h = ([], h)"
| "filter_healthy (p # ps) h =
     (if \<not> pv_Enabled p then filter_healthy ps h
      else case h of
        None \<Rightarrow> (let (cs, h) = filter_healthy ps h in (p # cs, h))
      | Some hc \<Rightarrow>
          (let (ok, hc) = IsProviderHealthy (pv_ID p) hc;
               (cs, h) = filter_healthy ps (Some hc)
           in (if ok then p # cs else cs, h)))"

definition by_priority_step :: "prov \<Rightarrow> prov option \<times> int \<Rightarrow> prov option \<times> int" where
  "by_priority_step p best =
     (if pv_Priority p > snd best then (Some p, pv_Priority p) else best)"

definition selectByPriority :: "prov list \<Rightarrow> prov option" where
  "selectByPriority candidates = fst (fold by_priority_step candidates (None, - 1))"

definition selectRoundRobin :: "prov list \<Rightarrow> selector \<Rightarrow> prov option \<times> selector" where
  "selectRoundRobin candidates ps =
     (if candidates = [] then (None, ps)
      else (Some (candidates ! (ps_index ps mod length candidates)),
            ps\<lparr>ps_index := ps_index ps + 1\<rparr>))"

definition max_int :: int where "max_int = 2 ^ 63 - 1"

definition by_latency_step :: "health_checker \<Rightarrow> prov \<Rightarrow> prov option \<times> int \<Rightarrow> prov option \<times> int" where
  "by_latency_step hc p best = (case GetHealthStatus (pv_ID p) hc of
     None \<Rightarrow> if fst best = None then (Some p, snd best) else best
   | Some status \<Rightarrow>
       if hs_LatencyMs status < snd best then (Some p, hs_LatencyMs status) else best)"

definition selectByLatency :: "prov list \<Rightarrow> health_checker option \<Rightarrow> selection" where
  "selectByLatency candidates h = (case h of
     None \<Rightarrow> if candidates = [] then Selected None else SelectPanic
   | Some hc \<Rightarrow> Selected (fst (fold (by_latency_step hc) candidates (None, max_int))))"

definition provider_weight :: "health_checker option \<Rightarrow> prov \<Rightarrow> float64" where
  "provider_weight h p =
     (let weight = float_of_int (pv_Priority p + 1);
          weight = (case h of None \<Rightarrow> weight
            | Some hc \<Rightarrow> (case GetMetrics (pv_ID p) hc of None \<Rightarrow> weight
                | Some m \<Rightarrow>
                    let weight = fmul weight (hm_SuccessRate m)
                    in if hm_AvgLatencyMs m > 0 then fdiv weight (fdiv (hm_AvgLatencyMs m) 100)
                       else weight))
      in if weight \<le> 0 then fl (1 / 100) else weight)"

fun pick_weighted :: "float64 \<Rightarrow> float64 \<Rightarrow> (prov \<times> float64) list \<Rightarrow> prov option" where
  "pick_weighted target cumulative [] = None"
| "pick_weighted target cumulative ((p, w) # ws) =
     (let cumulative = fadd cumulative w in
      if cumulative \<ge> target then Some p else pick_weighted target cumulative ws)"

definition selectWeightedRandom :: "int \<Rightarrow> prov list \<Rightarrow> health_checker option \<Rightarrow> selection" where
  "selectWeightedRandom nanos candidates h =
     (case candidates of [] \<Rightarrow> Selected None
      | first # _ \<Rightarrow>
          let weighted = map (\<lambda>p. (p, provider_weight h p)) candidates;
              totalWeight = fold (\<lambda>pw t. fadd t (snd pw)) weighted 0
          in if totalWeight \<le> 0 then Selected (Some first)
             else let n = int_of_float (fmul totalWeight 1000000)
                  in if n = 0 then SelectPanic
                     else let target = fdiv (float_of_int (nanos mod n)) 1000000
                          in (case pick_weighted target 0 weighted of
                                Some p \<Rightarrow> Selected (Some p) | None \<Rightarrow> Selected (Some first)))"

definition SelectProvider :: "int \<Rightarrow> selector \<Rightarrow> selection \<times> selector" where
  "SelectProvider nanos ps =
     (let (candidates, h) = filter_healthy (ps_providers ps) (ps_healthChecker ps);
          ps = ps\<lparr>ps_healthChecker := h\<rparr>
      in if candidates = [] then (ErrNoHealthyProviders, ps)
         else case ps_strategy ps of
           PriorityBased \<Rightarrow> (Selected (selectByPriority candidates), ps)
         | RoundRobin \<Rightarrow> (let (p, ps) = selectRoundRobin candidates ps in (Selected p, ps))
         | LeastLoaded \<Rightarrow> (selectByLatency candidates h, ps)
         | WeightedRandom \<Rightarrow> (selectWeightedRandom nanos candidates h, ps)
         | OtherStrategy _ \<Rightarrow> (Selected (selectByPriority candidates), ps))"

definition GetHealthyProviders :: "selector \<Rightarrow> prov list \<times> selector" where
  "GetHealthyProviders ps =
     (let (cs, h) = filter_healthy (ps_providers ps) (ps_healthChecker ps)
      in (cs, ps\<lparr>ps_healthChecker := h\<rparr>))"

record provider_status =
  pst_Provider :: prov
  pst_IsEnabled :: bool
  pst_IsHealthy :: bool
  pst_CircuitState :: gostr
  pst_LatencyMs :: int
  pst_SuccessRate :: float64
  pst_ErrorRate :: float64
  pst_LastCheck :: gtime
  pst_NextCheck :: gtime
  pst_TotalChecks :: int
  pst_SuccessfulChecks :: int
  pst_FailedChecks :: int
  pst_AvgLatencyMs :: int
  pst_P99LatencyMs :: int

definition provider_status_of :: "health_checker option \<Rightarrow> prov \<Rightarrow> provider_status" where
  "provider_status_of h p =
     (let s = \<lparr>pst_Provider = p, pst_IsEnabled = pv_Enabled p, pst_IsHealthy = True,
            pst_CircuitState = ''closed'', pst_LatencyMs = 0, pst_SuccessRate = 0, pst_ErrorRate = 0,
            pst_LastCheck = zero_time, pst_NextCheck = zero_time, pst_TotalChecks = 0,
            pst_SuccessfulChecks = 0, pst_FailedChecks = 0, pst_AvgLatencyMs = 0, pst_P99LatencyMs = 0\<rparr>
      in case h of None \<Rightarrow> s
       | Some hc \<Rightarrow>
          (let s = (case GetHealthStatus (pv_ID p) hc of None \<Rightarrow> s
             | Some hs \<Rightarrow> s\<lparr>pst_IsHealthy := hs_IsHealthy hs, pst_LatencyMs := hs_LatencyMs hs,
                 pst_SuccessRate := hs_SuccessRate hs, pst_ErrorRate := hs_ErrorRate hs,
                 pst_CircuitState := hs_CircuitState hs, pst_LastCheck := hs_LastCheck hs,
                 pst_NextCheck := hs_NextCheck hs\<rparr>)
           in case GetMetrics (pv_ID p) hc of None \<Rightarrow> s
             | Some m \<Rightarrow> s\<lparr>pst_TotalChecks := hm_TotalChecks m,
                 pst_SuccessfulChecks := hm_SuccessfulChecks m, pst_FailedChecks := hm_FailedChecks m,
                 pst_AvgLatencyMs := int_of_float (hm_AvgLatencyMs m),
                 pst_P99LatencyMs := hm_P99LatencyMs m\<rparr>))"

definition GetProviderStatus :: "selector \<Rightarrow> provider_status list" where
  "GetProviderStatus ps = map (provider_status_of (ps_healthChecker ps)) (ps_providers ps)"

section \<open>Candidates\<close>

definition usable :: "health_checker option \<Rightarrow> prov \<Rightarrow> bool" where
  "usable h p \<longleftrightarrow> pv_Enabled p
     \<and> (case h of None \<Rightarrow> True | Some hc \<Rightarrow> hcb_st (breaker_of (pv_ID p) hc) \<noteq> HcOpen)"

lemma IsProviderHealthy_simps [simp]:
  "fst (IsProviderHealthy i hc) = (hcb_st (breaker_of i hc) \<noteq> HcOpen)"
  "breaker_of j (snd (IsProviderHealthy i hc)) = breaker_of j hc"
  by (simp_all add: IsProviderHealthy_def split_beta Let_def hcb_State_def)

lemma usable_query [simp]: "usable (Some (snd (IsProviderHealthy i hc))) p = usable (Some hc) p"
  by (simp add: usable_def)

lemma filter_healthy_usable:
  "fst (filter_healthy ps h) = filter (usable h) ps"
  "usable (snd (filter_healthy ps h)) = usable h"
proof -
  have "fst (filter_healthy ps h) = filter (usable h) ps \<and> usable (snd (filter_healthy ps h)) = usable h"
  proof (induction ps arbitrary: h)
    case Nil
    then show ?case by simp
  next
    case (Cons p ps)
    have query: "usable (Some (snd (IsProviderHealthy i hc))) = usable (Some hc)" for i hc
      by (simp add: fun_eq_iff)
    show ?case
      by (cases h) (auto simp: Cons split_beta Let_def query, auto simp: usable_def)
  qed
  then show "fst (filter_healthy ps h) = filter (usable h) ps"
    "usable (snd (filter_healthy ps h)) = usable h" by simp_all
qed

section \<open>Strategies\<close>

lemma by_priority_inv:
  fixes best :: "prov option \<times> int"
  assumes "case fst best of None \<Rightarrow> True | Some p \<Rightarrow> snd best = pv_Priority p"
  shows "case fst (fold by_priority_step cs best) of
      None \<Rightarrow> fst best = None \<and> (\<forall>c \<in> set cs. pv_Priority c \<le> snd best)
    | Some p \<Rightarrow> (Some p = fst best \<or> p \<in> set cs) \<and> snd best \<le> pv_Priority p
        \<and> (\<forall>c \<in> set cs. pv_Priority c \<le> pv_Priority p)"
  using assms
proof (induction cs arbitrary: best)
  case Nil
  then show ?case by (auto split: option.splits)
next
  case (Cons c cs)
  have "case fst (by_priority_step c best) of None \<Rightarrow> True
      | Some p \<Rightarrow> snd (by_priority_step c best) = pv_Priority p"
    using Cons.prems by (auto simp: by_priority_step_def split: option.splits)
  from Cons.IH [OF this] show ?case
    by (auto simp: by_priority_step_def split: option.splits if_splits)
qed

lemma by_priority_strict:
  assumes "fst best = None \<or> b < snd best" "b \<le> snd best"
    and "case fst best of None \<Rightarrow> True | Some p \<Rightarrow> snd best = pv_Priority p"
  shows "case fst (fold by_priority_step cs best) of None \<Rightarrow> True | Some p \<Rightarrow> b < pv_Priority p"
  using assms
proof (induction cs arbitrary: best)
  case (Cons c cs)
  have "fst (by_priority_step c best) = None \<or> b < snd (by_priority_step c best)"
    "b \<le> snd (by_priority_step c best)"
    "case fst (by_priority_step c best) of None \<Rightarrow> True
      | Some p \<Rightarrow> snd (by_priority_step c best) = pv_Priority p"
    using Cons.prems by (auto simp: by_priority_step_def split: option.splits)
  from Cons.IH [OF this] show ?case by simp
qed (auto split: option.splits)

lemma by_latency_some:
  assumes "fold (by_latency_step hc) cs best = r"
  shows "fst r = fst best \<or> (\<exists>c \<in> set cs. fst r = Some c)"
  using assms
proof (induction cs arbitrary: best)
  case Nil
  then show ?case by simp
next
  case (Cons c cs)
  then have "fst r = fst (by_latency_step hc c best) \<or> (\<exists>c \<in> set cs. fst r = Some c)"
    by simp
  then show ?case by (auto simp: by_latency_step_def split: option.splits if_splits)
qed

lemma pick_weighted_in: "pick_weighted t c ws = Some p \<Longrightarrow> p \<in> fst ` set ws"
  by (induction t c ws rule: pick_weighted.induct) (auto simp: Let_def split: if_splits)

lemma selectWeightedRandom_in:
  assumes "cs \<noteq> []"
  shows "selectWeightedRandom n cs h = SelectPanic \<or> (\<exists>p \<in> set cs. selectWeightedRandom n cs h = Selected (Some p))"
  using assms
  by (cases cs) (auto simp: selectWeightedRandom_def Let_def image_iff split: option.splits
      dest!: pick_weighted_in)

section \<open>Properties\<close>

text \<open>A selected provider is usable. Under every strategy, a provider that \<open>SelectProvider\<close>
  returns is one of the configured ones, enabled, and its circuit is not open; the error
  is returned exactly when there is no such provider; the circuits are left as they are.\<close>

theorem selector_sound:
  "(case SelectProvider nanos ps of
      (Selected (Some p), ps') \<Rightarrow> p \<in> set (ps_providers ps) \<and> usable (ps_healthChecker ps) p
    | _ \<Rightarrow> True)
    \<and> (fst (SelectProvider nanos ps) = ErrNoHealthyProviders
       \<longleftrightarrow> filter (usable (ps_healthChecker ps)) (ps_providers ps) = [])
    \<and> usable (ps_healthChecker (snd (SelectProvider nanos ps))) = usable (ps_healthChecker ps)"
proof -
  let ?h = "ps_healthChecker ps" and ?cs = "filter (usable (ps_healthChecker ps)) (ps_providers ps)"
  obtain cs h where f: "filter_healthy (ps_providers ps) ?h = (cs, h)" by force
  with filter_healthy_usable [of "ps_providers ps" ?h] have cs: "cs = ?cs" "usable h = usable ?h" by simp_all
  have pri: "p \<in> set cs" if "selectByPriority cs = Some p" for p
    using by_priority_inv [of "(None, - 1)" cs] that by (simp add: selectByPriority_def)
  have rr: "cs ! (i mod length cs) \<in> set cs" if "cs \<noteq> []" for i using that by simp
  have lat: "p \<in> set cs" if "selectByLatency cs h = Selected (Some p)" for p
  proof (cases h)
    case (Some hc)
    with that by_latency_some [OF refl, of hc cs "(None, max_int)"] show ?thesis
      by (auto simp: selectByLatency_def)
  qed (use that in \<open>auto simp: selectByLatency_def split: if_splits\<close>)
  have lat2: "selectByLatency cs h \<noteq> ErrNoHealthyProviders"
    by (auto simp: selectByLatency_def split: option.splits)
  have wr: "p \<in> set cs" if "selectWeightedRandom nanos cs h = Selected (Some p)" "cs \<noteq> []" for p
    using that selectWeightedRandom_in [of cs nanos h] by auto
  have wr2: "selectWeightedRandom nanos cs h \<noteq> ErrNoHealthyProviders" if "cs \<noteq> []"
    using that selectWeightedRandom_in [of cs nanos h] by auto
  have empty: "cs = [] \<longleftrightarrow> ?cs = []" by (simp only: cs(1))
  have member: "p \<in> set cs \<Longrightarrow> p \<in> set (ps_providers ps) \<and> usable ?h p" for p by (simp add: cs(1))
  show ?thesis
  proof (cases "cs = []")
    case True
    then show ?thesis using f empty cs(2) by (simp add: SelectProvider_def)
  next
    case False
    then show ?thesis
      using f empty cs(2) pri rr lat lat2 wr wr2 member
      by (cases "ps_strategy ps")
        (auto simp: SelectProvider_def selectRoundRobin_def split: selection.splits option.splits)
  qed
qed

text \<open>The priority strategy returns a usable provider of the greatest priority, provided that
  some usable provider has a priority of at least 0; otherwise it returns nil without an
  error.\<close>

theorem selector_priority_max:
  assumes "ps_strategy ps = PriorityBased" "cs = filter (usable (ps_healthChecker ps)) (ps_providers ps)"
    and "cs \<noteq> []"
  shows "if \<exists>p \<in> set cs. 0 \<le> pv_Priority p
    then \<exists>p \<in> set cs. fst (SelectProvider nanos ps) = Selected (Some p)
      \<and> pv_Priority p = Max (pv_Priority ` set cs)
    else fst (SelectProvider nanos ps) = Selected None"
proof -
  have sel: "fst (SelectProvider nanos ps) = Selected (selectByPriority cs)"
    using assms filter_healthy_usable(1) [of "ps_providers ps" "ps_healthChecker ps"]
    by (simp add: SelectProvider_def split_beta Let_def)
  from by_priority_inv [of "(None, - 1)" cs] have
    best: "case selectByPriority cs of None \<Rightarrow> \<forall>c \<in> set cs. pv_Priority c \<le> - 1
      | Some p \<Rightarrow> p \<in> set cs \<and> - 1 \<le> pv_Priority p \<and> (\<forall>c \<in> set cs. pv_Priority c \<le> pv_Priority p)"
    by (simp add: selectByPriority_def split: option.splits)
  show ?thesis
  proof (cases "selectByPriority cs")
    case None
    with best have "\<forall>c \<in> set cs. pv_Priority c \<le> - 1" by simp
    with None sel show ?thesis by fastforce
  next
    case (Some p)
    with best have p: "p \<in> set cs" "\<forall>c \<in> set cs. pv_Priority c \<le> pv_Priority p" by simp_all
    then have "pv_Priority p = Max (pv_Priority ` set cs)" by (intro Max_eqI [symmetric]) auto
    moreover have "0 \<le> pv_Priority p"
      using Some by_priority_strict [of "(None, - 1)" "- 1" cs] by (simp add: selectByPriority_def)
    ultimately show ?thesis using Some sel p(1) by (metis (no_types, lifting))
  qed
qed

theorem selector_priority_max_witness:
  "\<exists>p \<in> set [example_prov, example_prov\<lparr>pv_Priority := 7\<rparr>].
     fst (SelectProvider 0 (NewProviderSelector None PriorityBased [example_prov, example_prov\<lparr>pv_Priority := 7\<rparr>]))
       = Selected (Some p) \<and> pv_Priority p = 7"
  using selector_priority_max [of "NewProviderSelector None PriorityBased [example_prov, example_prov\<lparr>pv_Priority := 7\<rparr>]"
      "[example_prov, example_prov\<lparr>pv_Priority := 7\<rparr>]" 0]
  by (simp add: NewProviderSelector_def usable_def example_prov_def)

primrec select_run :: "nat \<Rightarrow> int \<Rightarrow> selector \<Rightarrow> selection list" where
  "select_run 0 nanos ps = []"
| "select_run (Suc n) nanos ps =
     (let (r, ps) = SelectProvider nanos ps in r # select_run n nanos ps)"

lemma round_robin_step:
  assumes "ps_strategy ps = RoundRobin" "cs = filter (usable (ps_healthChecker ps)) (ps_providers ps)" "cs \<noteq> []"
  obtains ps' where "SelectProvider nanos ps = (Selected (Some (cs ! (ps_index ps mod length cs))), ps')"
    "ps_strategy ps' = RoundRobin" "cs = filter (usable (ps_healthChecker ps')) (ps_providers ps')"
    "ps_index ps' = Suc (ps_index ps)"
proof -
  obtain c h where f: "filter_healthy (ps_providers ps) (ps_healthChecker ps) = (c, h)" by force
  with filter_healthy_usable [of "ps_providers ps" "ps_healthChecker ps"] assms(2)
  have "c = cs" "usable h = usable (ps_healthChecker ps)" by simp_all
  with assms f show ?thesis
    by (intro that [of "ps\<lparr>ps_healthChecker := h, ps_index := Suc (ps_index ps)\<rparr>"])
      (simp_all add: SelectProvider_def selectRoundRobin_def)
qed

lemma round_robin_run:
  assumes "ps_strategy ps = RoundRobin" "cs = filter (usable (ps_healthChecker ps)) (ps_providers ps)" "cs \<noteq> []"
  shows "select_run n nanos ps = map (\<lambda>j. Selected (Some (cs ! ((ps_index ps + j) mod length cs)))) [0..<n]"
  using assms
proof (induction n arbitrary: ps)
  case (Suc n)
  from round_robin_step [OF Suc.prems, of nanos] obtain ps' where s:
    "SelectProvider nanos ps = (Selected (Some (cs ! (ps_index ps mod length cs))), ps')"
    "ps_strategy ps' = RoundRobin" "cs = filter (usable (ps_healthChecker ps')) (ps_providers ps')"
    "ps_index ps' = Suc (ps_index ps)" .
  have "[0..<Suc n] = 0 # map Suc [0..<n]" by (simp add: map_Suc_upt upt_conv_Cons del: upt_Suc)
  with s(1) Suc.IH [OF s(2,3) assms(3)] s(4) show ?case by (simp add: comp_def del: upt_Suc)
qed simp

lemma mset_window: "mset (map (\<lambda>j. xs ! ((i + j) mod length xs)) [0..<length xs]) = mset xs"
proof -
  have "map (\<lambda>j. xs ! ((i + j) mod length xs)) [0..<length xs] = rotate i xs"
    by (rule nth_equalityI) (simp_all add: nth_rotate)
  moreover have "mset (rotate i xs) = mset xs"
    by (metis append_take_drop_id mset_append rotate_drop_take union_commute)
  ultimately show ?thesis by simp
qed

text \<open>Round robin is fair. With \<open>n\<close> usable providers that stay usable, any \<open>k * n\<close>
  consecutive selections pick every one of them exactly \<open>k\<close> times.\<close>

theorem selector_round_robin_fair:
  assumes "ps_strategy ps = RoundRobin" "cs = filter (usable (ps_healthChecker ps)) (ps_providers ps)" "cs \<noteq> []"
  shows "mset (select_run (k * length cs) nanos ps)
    = repeat_mset k (mset (map (\<lambda>p. Selected (Some p)) cs))"
proof -
  let ?g = "\<lambda>i. Selected (Some (cs ! (i mod length cs)))"
  have "mset (map (\<lambda>j. ?g (i + j)) [0..<k * length cs]) = repeat_mset k (mset (map (\<lambda>p. Selected (Some p)) cs))" for i
  proof (induction k)
    case (Suc k)
    have "[0..<Suc k * length cs] = [0..<k * length cs] @ map ((+) (k * length cs)) [0..<length cs]"
      using upt_add_eq_append [of 0 "k * length cs" "length cs"]
      by (simp add: add.commute map_add_upt [symmetric])
    then have "mset (map (\<lambda>j. ?g (i + j)) [0..<Suc k * length cs])
        = mset (map (\<lambda>j. ?g (i + j)) [0..<k * length cs]) + mset (map (\<lambda>j. ?g (i + (k * length cs + j))) [0..<length cs])"
      by (simp only: map_append mset_append map_map comp_def)
    also have "map (\<lambda>j. ?g (i + (k * length cs + j))) [0..<length cs]
        = map (\<lambda>p. Selected (Some p)) (map (\<lambda>j. cs ! ((i + j) mod length cs)) [0..<length cs])"
      by (simp add: add.left_commute [of i])
    also have "mset \<dots> = mset (map (\<lambda>p. Selected (Some p)) cs)"
      unfolding mset_map [of _ "map _ _"] mset_window [of cs i] by simp
    finally show ?case using Suc.IH by simp
  qed simp
  from this [of "ps_index ps"] show ?thesis using round_robin_run [OF assms] by simp
qed

theorem selector_round_robin_fair_witness:
  "mset (select_run (3 * 2) 0 (NewProviderSelector None RoundRobin [example_prov, example_prov\<lparr>pv_ID := ''p2''\<rparr>]))
    = repeat_mset 3 {# Selected (Some example_prov), Selected (Some (example_prov\<lparr>pv_ID := ''p2''\<rparr>)) #}"
  using selector_round_robin_fair [of "NewProviderSelector None RoundRobin [example_prov, example_prov\<lparr>pv_ID := ''p2''\<rparr>]"
      "[example_prov, example_prov\<lparr>pv_ID := ''p2''\<rparr>]" 3 0]
  by (simp add: NewProviderSelector_def usable_def example_prov_def)

text \<open>Two ways to crash the selector: no health checker with the latency strategy, and
  weights that add up to less than a millionth.\<close>

lemma least_loaded_panics:
  assumes "pv_Enabled p"
  shows "fst (SelectProvider nanos (NewProviderSelector None LeastLoaded [p])) = SelectPanic"
  using assms by (simp add: SelectProvider_def NewProviderSelector_def selectByLatency_def)

definition starved_checker :: health_checker where
  "starved_checker = (NewHealthChecker None)\<lparr>hc_metrics := [''p1'' \<mapsto> (zero_metrics ''p1'')\<lparr>
     hm_TotalChecks := 100000, hm_SuccessfulChecks := 1, hm_FailedChecks := 99999,
     hm_SuccessRate := fdiv 1 100000, hm_AvgLatencyMs := 10000\<rparr>]\<rparr>"

lemma weighted_panics:
  "selectWeightedRandom 12345 [example_prov\<lparr>pv_Priority := 0\<rparr>] (Some starved_checker) = SelectPanic"
  by code_simp

end
