(* ===== verification/Token_Group.thy ===== *)
theory Token_Group
  imports Go_Float
begin

text \<open>
  \<open>internal/token\<close>: token groups with hourly, daily and monthly quotas (\<open>group.go\<close>), the
  table \<open>token_groups\<close> as the statements of \<open>repo.go\<close> read and write it, and the service
  (\<open>service.go\<close>). The table is a map from ids to rows; the column of the allowed models
  holds their list, since \<open>encoding/json\<close> reads back the strings it wrote. A statement
  that the database refuses is the argument \<open>Some err\<close>; an update whose sum leaves the
  range of \<open>bigint\<close> is refused by the database itself. Quantities are \<open>int64\<close>: sums in Go
  wrap around, which is \<open>wrap64\<close>.
\<close>

section \<open>Groups\<close>

record token_group =
  tg_ID :: int
  tg_Name :: gostr
  tg_AllowedModels :: "gostr list"
  tg_DailyQuota :: int
  tg_HourlyQuota :: int
  tg_MonthlyQuota :: int
  tg_UsedToday :: int
  tg_UsedThisHour :: int
  tg_UsedThisMonth :: int
  tg_IsActive :: bool
  tg_Priority :: int
  tg_CreatedAt :: gtime
  tg_UpdatedAt :: gtime

datatype token_error = ErrTokenGroupNameRequired | ErrInvalidQuota | ErrTokenGroupNotFound
  | ErrQuotaExceeded | ErrDB gostr | ErrValidation token_error | ErrInvalidPeriod gostr

definition tg_IsModelAllowed :: "gostr \<Rightarrow> token_group \<Rightarrow> bool" where
  "tg_IsModelAllowed model tg \<longleftrightarrow> tg_AllowedModels tg = []
     \<or> list_ex (\<lambda>m. m = model \<or> m = ''*'') (tg_AllowedModels tg)"

definition tg_CanConsume :: "int \<Rightarrow> token_group \<Rightarrow> bool" where
  "tg_CanConsume tokens tg =
     (if \<not> tg_IsActive tg then False
      else if tg_HourlyQuota tg > 0 \<and> wrap64 (tg_UsedThisHour tg + tokens) > tg_HourlyQuota tg then False
      else if tg_DailyQuota tg > 0 \<and> wrap64 (tg_UsedToday tg + tokens) > tg_DailyQuota tg then False
      else if tg_MonthlyQuota tg > 0 \<and> wrap64 (tg_UsedThisMonth tg + tokens) > tg_MonthlyQuota tg then False
      else True)"

text \<open>One of the three blocks of \<open>RemainingQuota\<close>; \<open>-1\<close> stands for no limit so far.\<close>

definition narrow :: "int \<Rightarrow> int \<Rightarrow> int \<Rightarrow> int" where
  "narrow quota used remaining =
     (if quota > 0
      then let r = wrap64 (quota - used) in if remaining = - 1 \<or> r < remaining then r else remaining
      else remaining)"

definition tg_RemainingQuota :: "token_group \<Rightarrow> int" where
  "tg_RemainingQuota tg =
     narrow (tg_MonthlyQuota tg) (tg_UsedThisMonth tg)
       (narrow (tg_DailyQuota tg) (tg_UsedToday tg)
         (narrow (tg_HourlyQuota tg) (tg_UsedThisHour tg) (- 1)))"

definition tg_Validate :: "token_group \<Rightarrow> token_error option" where
  "tg_Validate tg =
     (if tg_Name tg = '''' then Some ErrTokenGroupNameRequired
      else if tg_HourlyQuota tg < 0 \<or> tg_DailyQuota tg < 0 \<or> tg_MonthlyQuota tg < 0
      then Some ErrInvalidQuota else None)"

section \<open>The table\<close>

type_synonym tg_table = "(int, token_group) gomap"

record tg_stats =
  ts_GroupID :: int
  ts_Name :: gostr
  ts_DailyQuota :: int
  ts_DailyUsed :: int
  ts_DailyRemaining :: int
  ts_DailyUsagePercent :: float64
  ts_HourlyQuota :: int
  ts_HourlyUsed :: int
  ts_HourlyRemaining :: int
  ts_MonthlyQuota :: int
  ts_MonthlyUsed :: int
  ts_MonthlyRemaining :: int
  ts_TotalRequests :: int
  ts_AvgTokensPerReq :: float64

text \<open>\<open>newid\<close> is the id the database gives the row, one that is not in use.\<close>

definition tgr_Create :: "gostr option \<Rightarrow> gtime \<Rightarrow> int \<Rightarrow> token_group \<Rightarrow> tg_table
    \<Rightarrow> (token_error + token_group) \<times> tg_table" where
  "tgr_Create err now newid tg t = (case err of
     Some e \<Rightarrow> (Inl (ErrDB (''failed to create token group: '' @ e)), t)
   | None \<Rightarrow> let tg = tg\<lparr>tg_ID := newid, tg_CreatedAt := now, tg_UpdatedAt := now\<rparr>
             in (Inr tg, t(newid \<mapsto> tg)))"

definition tgr_Update :: "gostr option \<Rightarrow> gtime \<Rightarrow> token_group \<Rightarrow> tg_table
    \<Rightarrow> token_error option \<times> tg_table" where
  "tgr_Update err now tg t = (case err of
     Some e \<Rightarrow> (Some (ErrDB (''failed to update token group: '' @ e)), t)
   | None \<Rightarrow> (case t (tg_ID tg) of
       None \<Rightarrow> (Some ErrTokenGroupNotFound, t)
     | Some row \<Rightarrow> (None, t(tg_ID tg \<mapsto> tg\<lparr>tg_CreatedAt := tg_CreatedAt row, tg_UpdatedAt := now\<rparr>))))"


definition tgr_GetByID :: "gostr option \<Rightarrow> int \<Rightarrow> tg_table \<Rightarrow> token_error + token_group" where
  "tgr_GetByID err i t = (case err of
     Some e \<Rightarrow> Inl (ErrDB (''failed to get token group: '' @ e))
   | None \<Rightarrow> (case t i of None \<Rightarrow> Inl ErrTokenGroupNotFound | Some tg \<Rightarrow> Inr tg))"

definition tgr_IncrementUsage :: "gostr option \<Rightarrow> gtime \<Rightarrow> int \<Rightarrow> int \<Rightarrow> int \<Rightarrow> tg_table
    \<Rightarrow> token_error option \<times> tg_table" where
  "tgr_IncrementUsage err now i inputTokens outputTokens t =
     (let d = wrap64 (inputTokens + outputTokens) in
      case err of
        Some e \<Rightarrow> (Some (ErrDB (''failed to increment usage: '' @ e)), t)
      | None \<Rightarrow> (case t i of
          None \<Rightarrow> (None, t)
        | Some row \<Rightarrow>
            if is_int64 (tg_UsedToday row + d) \<and> is_int64 (tg_UsedThisHour row + d)
              \<and> is_int64 (tg_UsedThisMonth row + d)
            then (None, t(i \<mapsto> row\<lparr>tg_UsedToday := tg_UsedToday row + d,
                   tg_UsedThisHour := tg_UsedThisHour row + d,
                   tg_UsedThisMonth := tg_UsedThisMonth row + d, tg_UpdatedAt := now\<rparr>))
            else (Some (ErrDB ''failed to increment usage: bigint out of range''), t)))"





definition tgr_GetStats :: "gostr option \<Rightarrow> int \<Rightarrow> tg_table \<Rightarrow> token_error + tg_stats" where
  "tgr_GetStats err i t = (case tgr_GetByID err i t of
     Inl e \<Rightarrow> Inl e
   | Inr tg \<Rightarrow>
       let st = \<lparr>ts_GroupID = tg_ID tg, ts_Name = tg_Name tg,
             ts_DailyQuota = tg_DailyQuota tg, ts_DailyUsed = tg_UsedToday tg,
             ts_DailyRemaining = tg_UsedToday tg, ts_DailyUsagePercent = 0,
             ts_HourlyQuota = tg_HourlyQuota tg, ts_HourlyUsed = tg_UsedThisHour tg,
             ts_HourlyRemaining = tg_UsedThisHour tg,
             ts_MonthlyQuota = tg_MonthlyQuota tg, ts_MonthlyUsed = tg_UsedThisMonth tg,
             ts_MonthlyRemaining = tg_UsedThisMonth tg, ts_TotalRequests = 0, ts_AvgTokensPerReq = 0\<rparr>;
           st = (if tg_DailyQuota tg > 0
                 then st\<lparr>ts_DailyRemaining := wrap64 (tg_DailyQuota tg - tg_UsedToday tg),
                        ts_DailyUsagePercent := fmul (fdiv (float_of_int (tg_UsedToday tg))
                          (float_of_int (tg_DailyQuota tg))) 100\<rparr>
                 else st);
           st = (if tg_HourlyQuota tg > 0
                 then st\<lparr>ts_HourlyRemaining := wrap64 (tg_HourlyQuota tg - tg_UsedThisHour tg)\<rparr> else st);
           st = (if tg_MonthlyQuota tg > 0
                 then st\<lparr>ts_MonthlyRemaining := wrap64 (tg_MonthlyQuota tg - tg_UsedThisMonth tg)\<rparr> else st)
       in Inr st)"

section \<open>The service\<close>

definition tgs_Create :: "gostr option \<Rightarrow> gtime \<Rightarrow> int \<Rightarrow> token_group \<Rightarrow> tg_table
    \<Rightarrow> (token_error + token_group) \<times> tg_table" where
  "tgs_Create err now newid tg t = (case tg_Validate tg of
     Some e \<Rightarrow> (Inl (ErrValidation e), t)
   | None \<Rightarrow>
       let tg = (if \<not> tg_IsActive tg then tg\<lparr>tg_IsActive := True\<rparr> else tg);
           tg = (if tg_Priority tg = 0 then tg\<lparr>tg_Priority := 1\<rparr> else tg)
       in tgr_Create err now newid tg t)"

definition tgs_Update :: "gostr option \<Rightarrow> gtime \<Rightarrow> token_group \<Rightarrow> tg_table \<Rightarrow> token_error option \<times> tg_table" where
  "tgs_Update err now tg t = (case tg_Validate tg of
     Some e \<Rightarrow> (Some (ErrValidation e), t)
   | None \<Rightarrow> tgr_Update err now tg t)"

definition tgs_CheckQuota :: "gostr option \<Rightarrow> int \<Rightarrow> int \<Rightarrow> tg_table \<Rightarrow> token_error + bool" where
  "tgs_CheckQuota err i tokens t = (case tgr_GetByID err i t of
     Inl e \<Rightarrow> Inl e
   | Inr tg \<Rightarrow> if \<not> tg_CanConsume tokens tg then Inl ErrQuotaExceeded else Inr True)"

text \<open>
  \<open>ConsumeTokens\<close> runs two statements, between which other requests may run: \<open>tgs_admit\<close>
  is the first one with the decision, the second is \<open>IncrementUsage\<close>.
\<close>

definition tgs_admit :: "gostr option \<Rightarrow> int \<Rightarrow> int \<Rightarrow> int \<Rightarrow> tg_table \<Rightarrow> token_error option" where
  "tgs_admit err i inputTokens outputTokens t = (case tgr_GetByID err i t of
     Inl e \<Rightarrow> Some e
   | Inr tg \<Rightarrow> if \<not> tg_CanConsume (wrap64 (inputTokens + outputTokens)) tg
       then Some ErrQuotaExceeded else None)"







section \<open>Quotas\<close>

definition tg_limits :: "token_group \<Rightarrow> (int \<times> int) list" where
  "tg_limits tg = [(tg_HourlyQuota tg, tg_UsedThisHour tg), (tg_DailyQuota tg, tg_UsedToday tg),
     (tg_MonthlyQuota tg, tg_UsedThisMonth tg)]"

definition tg_wf :: "token_group \<Rightarrow> bool" where
  "tg_wf tg \<longleftrightarrow> list_all (\<lambda>(quota, used). is_int64 quota \<and> 0 \<le> used \<and> is_int64 used) (tg_limits tg)"

definition tg_within :: "token_group \<Rightarrow> bool" where
  "tg_within tg \<longleftrightarrow> tg_wf tg \<and> list_all (\<lambda>(quota, used). quota > 0 \<longrightarrow> used \<le> quota) (tg_limits tg)"

lemma wrap64_above: "2 ^ 63 \<le> x \<Longrightarrow> x < 2 ^ 64 \<Longrightarrow> wrap64 x = x - 2 ^ 64"
  using mod_pos_pos_trivial [of "x + 2 ^ 63 - 2 ^ 64" "2 ^ 64"] minus_mod_self2 [of "x + 2 ^ 63" "2 ^ 64"]
  by (simp add: wrap64_def)

lemma wrap64_sum_le:
  assumes "0 \<le> u" "is_int64 u" "0 \<le> n" "is_int64 n" "0 < q" "is_int64 q"
  shows "wrap64 (u + n) \<le> q \<longleftrightarrow> u + n \<le> q \<or> 2 ^ 63 \<le> u + n"
proof (cases "is_int64 (u + n)")
  case True
  with assms show ?thesis by (auto simp: is_int64_def)
next
  case False
  with assms have "2 ^ 63 \<le> u + n" "u + n < 2 ^ 64" by (auto simp: is_int64_def)
  with assms show ?thesis by (simp add: wrap64_above is_int64_def)
qed

text \<open>What a quota check decides, wrap-around included. With non-negative 64-bit usage and
  tokens, an active group may consume exactly when every limit that is set either holds
  after the consumption or is so close to the end of the range that the sum overflows:
  an overflowing request is not refused.\<close>

theorem token_can_consume_exact:
  assumes "tg_wf tg" "0 \<le> tokens" "is_int64 tokens"
  shows "tg_CanConsume tokens tg \<longleftrightarrow> tg_IsActive tg \<and>
    list_all (\<lambda>(quota, used). quota \<le> 0 \<or> used + tokens \<le> quota \<or> 2 ^ 63 \<le> used + tokens) (tg_limits tg)"
proof -
  have limit: "\<not> (q > 0 \<and> wrap64 (u + tokens) > q) \<longleftrightarrow> q \<le> 0 \<or> u + tokens \<le> q \<or> 2 ^ 63 \<le> u + tokens"
    if "(q, u) \<in> set (tg_limits tg)" for q u
    using that assms wrap64_sum_le [of u tokens q] by (fastforce simp: tg_wf_def list_all_iff)
  have mem: "(tg_HourlyQuota tg, tg_UsedThisHour tg) \<in> set (tg_limits tg)"
    "(tg_DailyQuota tg, tg_UsedToday tg) \<in> set (tg_limits tg)"
    "(tg_MonthlyQuota tg, tg_UsedThisMonth tg) \<in> set (tg_limits tg)"
    by (simp_all add: tg_limits_def)
  have "tg_CanConsume tokens tg \<longleftrightarrow> tg_IsActive tg
      \<and> \<not> (tg_HourlyQuota tg > 0 \<and> wrap64 (tg_UsedThisHour tg + tokens) > tg_HourlyQuota tg)
      \<and> \<not> (tg_DailyQuota tg > 0 \<and> wrap64 (tg_UsedToday tg + tokens) > tg_DailyQuota tg)
      \<and> \<not> (tg_MonthlyQuota tg > 0 \<and> wrap64 (tg_UsedThisMonth tg + tokens) > tg_MonthlyQuota tg)"
    by (simp add: tg_CanConsume_def)
  then show ?thesis unfolding limit [OF mem(1)] limit [OF mem(2)] limit [OF mem(3)]
    by (simp add: tg_limits_def)
qed

definition example_group :: token_group where
  "example_group = \<lparr>tg_ID = 1, tg_Name = ''g'', tg_AllowedModels = [], tg_DailyQuota = 100,
     tg_HourlyQuota = 40, tg_MonthlyQuota = 0, tg_UsedToday = 70, tg_UsedThisHour = 15,
     tg_UsedThisMonth = 900, tg_IsActive = True, tg_Priority = 1, tg_CreatedAt = 0, tg_UpdatedAt = 0\<rparr>"

theorem token_can_consume_exact_witness:
  "\<not> tg_CanConsume 26 example_group \<and> tg_CanConsume (2 ^ 63 - 1) example_group"
  using token_can_consume_exact [of example_group 26] token_can_consume_exact [of example_group "2 ^ 63 - 1"]
  by (simp add: example_group_def tg_wf_def tg_limits_def is_int64_def)

definition room :: "int \<Rightarrow> int \<Rightarrow> bool" where
  "room tokens remaining \<longleftrightarrow> remaining = - 1 \<or> tokens \<le> remaining"

definition over :: "int \<Rightarrow> int \<Rightarrow> int \<Rightarrow> bool" where
  "over tokens quota used \<longleftrightarrow> quota > 0 \<and> quota < used + tokens"

definition remainder :: "int \<Rightarrow> bool" where
  "remainder r \<longleftrightarrow> - 1 \<le> r"

lemma narrow_room:
  assumes "quota > 0 \<Longrightarrow> used \<le> quota" "is_int64 quota" "0 \<le> used" "is_int64 used" "0 \<le> tokens" "remainder r"
  shows "room tokens (narrow quota used r) \<longleftrightarrow> room tokens r \<and> \<not> over tokens quota used"
    and "remainder (narrow quota used r)"
proof -
  have "wrap64 (quota - used) = quota - used" if "quota > 0"
    using assms that by (intro wrap64_id) (auto simp: is_int64_def)
  with assms show "room tokens (narrow quota used r) \<longleftrightarrow> room tokens r \<and> \<not> over tokens quota used"
    "remainder (narrow quota used r)"
    by (auto simp: room_def over_def remainder_def narrow_def Let_def split: if_splits)
qed

text \<open>The reported remainder agrees with the check. For a group within its quotas, the
  remaining quota is the least one of the limits that are set, \<open>-1\<close> if none is, and the
  group can consume exactly the token counts up to it.\<close>

theorem token_remaining_agrees:
  assumes "tg_within tg" "0 \<le> tokens" "tokens < 2 ^ 62" "tg_UsedToday tg < 2 ^ 62"
    "tg_UsedThisHour tg < 2 ^ 62" "tg_UsedThisMonth tg < 2 ^ 62"
  shows "tg_CanConsume tokens tg
    \<longleftrightarrow> tg_IsActive tg \<and> (tg_RemainingQuota tg = - 1 \<or> tokens \<le> tg_RemainingQuota tg)"
proof -
  let ?h = "narrow (tg_HourlyQuota tg) (tg_UsedThisHour tg) (- 1)"
  let ?d = "narrow (tg_DailyQuota tg) (tg_UsedToday tg) ?h"
  note wf = assms(1) [unfolded tg_within_def tg_wf_def tg_limits_def, simplified]
  have h: "room tokens ?h \<longleftrightarrow> \<not> over tokens (tg_HourlyQuota tg) (tg_UsedThisHour tg)" "remainder ?h"
    using narrow_room [of "tg_HourlyQuota tg" "tg_UsedThisHour tg" tokens "- 1"] wf assms
    by (simp_all add: room_def remainder_def)
  have d: "room tokens ?d \<longleftrightarrow> room tokens ?h \<and> \<not> over tokens (tg_DailyQuota tg) (tg_UsedToday tg)" "remainder ?d"
    using narrow_room [of "tg_DailyQuota tg" "tg_UsedToday tg" tokens ?h] wf assms h(2) by simp_all
  have m: "room tokens (tg_RemainingQuota tg)
      \<longleftrightarrow> room tokens ?d \<and> \<not> over tokens (tg_MonthlyQuota tg) (tg_UsedThisMonth tg)"
    unfolding tg_RemainingQuota_def
    using narrow_room [of "tg_MonthlyQuota tg" "tg_UsedThisMonth tg" tokens ?d] wf assms d(2) by simp
  have sum: "wrap64 (u + tokens) = u + tokens" if "0 \<le> u" "u < 2 ^ 62" for u
    using that assms by (intro wrap64_id) (simp add: is_int64_def)
  have "tg_CanConsume tokens tg \<longleftrightarrow> tg_IsActive tg \<and> \<not> over tokens (tg_HourlyQuota tg) (tg_UsedThisHour tg)
      \<and> \<not> over tokens (tg_DailyQuota tg) (tg_UsedToday tg) \<and> \<not> over tokens (tg_MonthlyQuota tg) (tg_UsedThisMonth tg)"
    using wf assms by (simp add: tg_CanConsume_def over_def sum)
  with h(1) d(1) m show ?thesis by (auto simp: room_def)
qed

theorem token_remaining_agrees_witness:
  "tg_RemainingQuota example_group = 25
   \<and> tg_CanConsume 25 example_group \<and> \<not> tg_CanConsume 26 example_group"
proof -
  have "tg_RemainingQuota example_group = 25" by code_simp
  with token_remaining_agrees [of example_group 25] token_remaining_agrees [of example_group 26]
  show ?thesis
    by (simp add: example_group_def tg_within_def tg_wf_def tg_limits_def is_int64_def)
qed

text \<open>A limit exceeded by exactly one token reads as the mark for no limit, and the next limit
  replaces it.\<close>

lemma token_remaining_sentinel:
  "tg_RemainingQuota (example_group\<lparr>tg_UsedThisHour := 41\<rparr>) = 30"
  "\<not> tg_CanConsume 1 (example_group\<lparr>tg_UsedThisHour := 41\<rparr>)"
  by code_simp+

lemma token_stats_unlimited:
  "t i = Some tg \<Longrightarrow> tg_MonthlyQuota tg \<le> 0 \<Longrightarrow>
     \<exists>s. tgr_GetStats None i t = Inr s \<and> ts_MonthlyRemaining s = tg_UsedThisMonth tg"
  by (simp add: tgr_GetStats_def tgr_GetByID_def Let_def)

section \<open>The life of a group\<close>










text \<open>Overlapping consumptions can overrun a quota. Two requests for \<open>n\<close> tokens that are both
  admitted before either is counted take the group over its daily quota whenever there is
  room for one of them only.\<close>

theorem token_quota_race:
  assumes "t i = Some tg" "tg_IsActive tg" "tg_HourlyQuota tg = 0" "tg_MonthlyQuota tg = 0"
    and "0 \<le> tg_UsedToday tg" "0 \<le> tg_UsedThisHour tg" "0 \<le> tg_UsedThisMonth tg" "0 \<le> n"
    and "tg_UsedToday tg + 2 * n < 2 ^ 63" "tg_UsedThisHour tg + 2 * n < 2 ^ 63"
    "tg_UsedThisMonth tg + 2 * n < 2 ^ 63"
    and "tg_UsedToday tg + n \<le> tg_DailyQuota tg" "tg_DailyQuota tg < tg_UsedToday tg + 2 * n"
  shows "tgs_admit None i n 0 t = None
    \<and> (\<exists>tg'. snd (tgr_IncrementUsage None now' i n 0 (snd (tgr_IncrementUsage None now i n 0 t))) i = Some tg'
         \<and> tg_UsedToday tg' > tg_DailyQuota tg')"
proof -
  have n: "wrap64 n = n" "wrap64 (tg_UsedToday tg + n) = tg_UsedToday tg + n"
    using assms by (simp_all add: is_int64_def)
  show ?thesis
    using assms by (simp add: tgs_admit_def tgr_GetByID_def tgr_IncrementUsage_def n tg_CanConsume_def
        is_int64_def Let_def)
qed

theorem token_quota_race_witness:
  "tgs_admit None 1 20 0 [1 \<mapsto> example_group\<lparr>tg_HourlyQuota := 0\<rparr>] = None"
  using token_quota_race [of "[1 \<mapsto> example_group\<lparr>tg_HourlyQuota := 0\<rparr>]" 1 "example_group\<lparr>tg_HourlyQuota := 0\<rparr>" 20 0 0]
  by (simp add: example_group_def)

end
