(* ===== verification/Retry_Loop.thy ===== *)
theory Retry_Loop
  imports Go_Float
begin

text \<open>
  \<open>internal/retry/retry.go\<close>: retrying a call with exponential backoff. What the call returns in
  an attempt, whether the context has ended before it or during the wait after it, and the
  random number drawn for it are arguments, indexed by the attempt. \<open>math.Pow(2, n)\<close> is
  \<open>2 ^ n\<close> up to the largest finite exponent 1023 and infinity beyond, and a product that exceeds the
  largest double is an infinity too. A float that is no \<open>int64\<close> becomes the least one, as on amd64.
\<close>

record retry_config =
  rc_MaxRetries :: int
  rc_BaseDelay :: duration
  rc_MaxDelay :: duration
  rc_Jitter :: bool
  rc_RetryableCodes :: "int list"

definition DefaultRetryConfig :: retry_config where
  "DefaultRetryConfig = \<lparr>rc_MaxRetries = 3, rc_BaseDelay = 100 * millisecond, rc_MaxDelay = 5 * second,
     rc_Jitter = True, rc_RetryableCodes = [408, 429, 500, 502, 503, 504]\<rparr>"

definition IsRetryable :: "retry_config \<Rightarrow> int \<Rightarrow> gostr option \<Rightarrow> bool" where
  "IsRetryable c statusCode err = (if list_ex (\<lambda>code. statusCode = code) (rc_RetryableCodes c) then True else err \<noteq> None)"

datatype backoff = Backoff float64 | BackoffPosInf | BackoffNegInf | BackoffNaN

definition pow_backoff :: "duration \<Rightarrow> nat \<Rightarrow> backoff" where
  "pow_backoff base attempt = (let b = float_of_int base in
     if attempt \<ge> 1024 \<or> \<bar>b * 2 ^ attempt\<bar> \<ge> 2 ^ 1024
     then if b > 0 then BackoffPosInf else if b < 0 then BackoffNegInf else BackoffNaN
     else Backoff (fmul b (2 ^ attempt)))"

definition duration_of_float :: "float64 \<Rightarrow> duration" where
  "duration_of_float x = (if is_int64 (int_of_float x) then int_of_float x else - (2 ^ 63))"

text \<open>
  Positive infinity exceeds the cap. Negative infinity and NaN do not, and the jitter turns them into one another
  at most; they are \<open>None\<close> here and no \<open>int64\<close> at the end.
\<close>

definition CalculateDelay :: "float64 \<Rightarrow> nat \<Rightarrow> retry_config \<Rightarrow> duration" where
  "CalculateDelay rand attempt c =
     (let cap = float_of_int (rc_MaxDelay c);
          delay = (case pow_backoff (rc_BaseDelay c) attempt of
              Backoff d \<Rightarrow> Some (if d > cap then cap else d)
            | BackoffPosInf \<Rightarrow> Some cap
            | BackoffNegInf \<Rightarrow> None
            | BackoffNaN \<Rightarrow> None);
          delay = (if rc_Jitter c
                   then map_option (\<lambda>d. let jitter = fmul (fmul d (1 / 4)) rand in fadd d jitter) delay else delay)
      in case delay of Some d \<Rightarrow> duration_of_float d | None \<Rightarrow> - (2 ^ 63))"

text \<open>\<open>rv_fn\<close> gives the result and the error of an attempt, both of which the last return passes on.\<close>

record 'r retry_env =
  rv_fn :: "nat \<Rightarrow> 'r option \<times> gostr option"
  rv_ctx :: "nat \<Rightarrow> gostr option"
  rv_wait :: "nat \<Rightarrow> gostr option"
  rv_rand :: "nat \<Rightarrow> float64"

text \<open>
  The loop from an attempt on, with the result and error so far. It returns the result, the error
  and the delays it waited for.
\<close>

function retry_loop :: "'r retry_env \<Rightarrow> retry_config \<Rightarrow> nat \<Rightarrow> 'r option \<Rightarrow> gostr option \<Rightarrow> duration list
    \<Rightarrow> 'r option \<times> gostr option \<times> duration list" where
  "retry_loop env c attempt result lastErr delays =
     (if int attempt > rc_MaxRetries c then (result, lastErr, delays)
      else case rv_ctx env attempt of
        Some e \<Rightarrow> (None, Some e, delays)
      | None \<Rightarrow>
          let (result, lastErr) = rv_fn env attempt
          in if lastErr = None then (result, None, delays)
             else if int attempt = rc_MaxRetries c then (result, lastErr, delays)
             else let delay = CalculateDelay (rv_rand env attempt) attempt c
                  in case rv_wait env attempt of
                       Some e \<Rightarrow> (None, Some e, delays @ [delay])
                     | None \<Rightarrow> retry_loop env c (Suc attempt) result lastErr (delays @ [delay]))"
  by pat_completeness auto
termination
  by (relation "measure (\<lambda>(env, c, attempt, _). nat (rc_MaxRetries c + 1 - int attempt))") auto

declare retry_loop.simps [simp del]

definition Retry :: "'r retry_env \<Rightarrow> retry_config \<Rightarrow> 'r option \<times> gostr option \<times> duration list" where
  "Retry env c = retry_loop env c 0 None None []"

definition ErrCircuitOpen :: gostr where
  "ErrCircuitOpen = ''circuit breaker is open''"

section \<open>Delays\<close>

lemma int_of_float_bounds: "0 \<le> x \<Longrightarrow> x \<le> of_int n \<Longrightarrow> 0 \<le> int_of_float x \<and> int_of_float x \<le> n"
  by (simp add: int_of_float_def) (metis floor_mono floor_of_int)

lemma floor_quarter: "\<lfloor>of_int m * (5 / 4 :: rat)\<rfloor> = m + m div 4"
proof -
  have "of_int m * (5 / 4 :: rat) = of_int (5 * m) / of_int 4" by simp
  then have "\<lfloor>of_int m * (5 / 4 :: rat)\<rfloor> = (5 * m) div 4" by (simp only: floor_divide_of_int_eq)
  then show ?thesis by simp
qed

lemma fl_quarters: "\<bar>m\<bar> \<le> 2 ^ 53 \<Longrightarrow> fl (of_int m / 4) = of_int m / 4"
proof -
  have "(of_int m / 4 :: rat) = of_int m * 2 powi - 2" by (simp add: power_int_def power2_eq_square)
  then show "\<bar>m\<bar> \<le> 2 ^ 53 \<Longrightarrow> fl (of_int m / 4) = of_int m / 4" using fl_exact [of m "- 2"] by simp
qed

lemma capped_delay:
  assumes "0 \<le> base" "base \<le> 2 ^ 53" "0 \<le> cap" "cap \<le> 2 ^ 50" "0 < base \<or> n < 1024"
  shows "(case pow_backoff base n of Backoff d \<Rightarrow> Some (if d > float_of_int cap then float_of_int cap else d)
      | BackoffPosInf \<Rightarrow> Some (float_of_int cap) | BackoffNegInf \<Rightarrow> None | BackoffNaN \<Rightarrow> None)
    = Some (of_int (min (base * 2 ^ n) cap))"
proof -
  have f: "float_of_int cap = of_int cap" "float_of_int base = of_int base" using assms by (simp_all add: float_ops)
  have p: "(of_int base * 2 ^ n :: rat) = of_int (base * 2 ^ n)" by simp
  have q: "\<bar>of_int (base * 2 ^ n) :: rat\<bar> \<ge> 2 ^ 1024 \<longleftrightarrow> base * 2 ^ n \<ge> 2 ^ 1024"
  proof -
    have "\<bar>of_int (base * 2 ^ n) :: rat\<bar> = of_int (base * 2 ^ n)" using assms(1) by simp
    then show ?thesis by (metis of_int_le_iff of_int_numeral of_int_power)
  qed
  show ?thesis
  proof (cases "n \<ge> 1024 \<or> base * 2 ^ n \<ge> 2 ^ 1024")
    case True
    have "0 < base"
    proof (rule ccontr)
      assume "\<not> 0 < base"
      then have "base = 0" using assms(1) by simp
      then show False using True assms(5) by simp
    qed
    have "(2 :: int) ^ 1024 \<le> base * 2 ^ n"
    proof (cases "n \<ge> 1024")
      case n: True
      then have "(2 :: int) ^ 1024 \<le> 2 ^ n" by (intro power_increasing) simp_all
      also have "\<dots> \<le> base * 2 ^ n" using \<open>0 < base\<close> by simp
      finally show ?thesis .
    qed (use True in blast)
    moreover have "cap \<le> 2 ^ 1024"
    proof (rule order_trans [OF assms(4)])
      show "(2 :: int) ^ 50 \<le> 2 ^ 1024" by (rule power_increasing) simp_all
    qed
    ultimately have "min (base * 2 ^ n) cap = cap" by (intro min_absorb2) (rule order_trans)
    moreover have "pow_backoff base n = BackoffPosInf"
      unfolding pow_backoff_def Let_def f p q using True \<open>0 < base\<close> by (simp only: if_True of_int_0_less_iff)
    ultimately show ?thesis by (simp only: f) simp
  next
    case False
    have "fl (of_int base * 2 powi int n) = of_int base * 2 powi int n"
      using assms(1,2) by (intro fl_exact) auto
    then have "fmul (of_int base) (2 ^ n) = of_int (base * 2 ^ n)" by (simp add: fmul_def)
    then have "pow_backoff base n = Backoff (of_int (base * 2 ^ n))"
      unfolding pow_backoff_def Let_def f p q using False by (simp only: if_False)
    then show ?thesis unfolding f by (simp add: min_def del: of_int_mult)
  qed
qed

lemma jittered_bounds:
  assumes "0 \<le> d" "d \<le> cap" "cap \<le> 2 ^ 50" "0 \<le> r" "r \<le> 1"
  shows "of_int d \<le> fadd (of_int d) (fmul (fmul (of_int d) (1 / 4)) r) \<and>
    fadd (of_int d) (fmul (fmul (of_int d) (1 / 4)) r) \<le> of_int cap * (5 / 4)"
proof -
  have q: "fmul (of_int d) (1 / 4) = of_int d / 4" using fl_quarters [of d] assms by (simp add: float_ops)
  have "of_int d / 4 * r \<le> of_int d / 4" using assms by (intro mult_left_le) auto
  then have "fmul (of_int d / 4) r \<le> of_int d / 4"
    using fl_mono [of "of_int d / 4 * r" "of_int d / 4"] fl_quarters [of d] assms by (simp add: float_ops)
  moreover have j: "0 \<le> fmul (of_int d / 4) r" using assms by (simp add: float_ops fl_nonneg)
  ultimately have s: "of_int d \<le> of_int d + fmul (of_int d / 4) r"
    "of_int d + fmul (of_int d / 4) r \<le> of_int (5 * d) / 4" by simp_all
  have "of_int d \<le> fadd (of_int d) (fmul (of_int d / 4) r)"
    using fl_ge_int [OF s(1)] assms by (simp add: fadd_def)
  moreover have "fadd (of_int d) (fmul (of_int d / 4) r) \<le> of_int (5 * d) / 4"
    using fl_mono [OF s(2)] fl_quarters [of "5 * d"] assms by (simp add: fadd_def)
  moreover have "(of_int (5 * d) / 4 :: rat) \<le> of_int cap * (5 / 4)" using assms(2) by simp
  ultimately show ?thesis unfolding q by linarith
qed

lemma duration_of_float_id: "0 \<le> x \<Longrightarrow> x \<le> of_int n \<Longrightarrow> n < 2 ^ 63 \<Longrightarrow> duration_of_float x = \<lfloor>x\<rfloor>"
proof -
  assume a: "0 \<le> x" "x \<le> of_int n" "n < 2 ^ 63"
  then have "is_int64 (int_of_float x)" using int_of_float_bounds [of x n] by (simp add: is_int64_def)
  then show ?thesis using a(1) by (simp add: duration_of_float_def int_of_float_def)
qed

text \<open>C35: bounds on the backoff. With a base delay and a cap in the range that floats represent exactly
  (the cap up to some 13 days), a random number between 0 and 1, and either a positive base delay or an attempt
  below 1024, the delay is at least the
  exponential backoff capped, and at most the cap and a quarter: the jitter is added after the cap.\<close>

theorem retry_delay_bounds:
  assumes "0 \<le> rc_BaseDelay c" "rc_BaseDelay c \<le> 2 ^ 53" "0 \<le> rc_MaxDelay c" "rc_MaxDelay c \<le> 2 ^ 50"
    "0 < rc_BaseDelay c \<or> attempt < 1024" "0 \<le> rand" "rand \<le> 1"
  shows "min (rc_BaseDelay c * 2 ^ attempt) (rc_MaxDelay c) \<le> CalculateDelay rand attempt c \<and>
    CalculateDelay rand attempt c \<le> rc_MaxDelay c + rc_MaxDelay c div 4"
proof -
  let ?d = "min (rc_BaseDelay c * 2 ^ attempt) (rc_MaxDelay c)"
  let ?x = "if rc_Jitter c then fadd (of_int ?d) (fmul (fmul (of_int ?d) (1 / 4)) rand) else of_int ?d"
  have e: "CalculateDelay rand attempt c = duration_of_float ?x"
    using capped_delay [OF assms(1-5)] by (simp only: CalculateDelay_def Let_def) (simp only: option.case option.map split: if_split, simp)
  have d: "0 \<le> ?d" "?d \<le> rc_MaxDelay c" using assms(1,3) by auto
  have "of_int ?d \<le> (of_int (rc_MaxDelay c) :: rat)" using d(2) by (simp only: of_int_le_iff)
  then have "of_int ?d \<le> (of_int (rc_MaxDelay c) * (5 / 4) :: rat)" using assms(3) by simp
  then have x: "of_int ?d \<le> ?x" "?x \<le> of_int (rc_MaxDelay c) * (5 / 4)"
    using jittered_bounds [OF d assms(4,6,7)] by auto
  have "(0 :: rat) \<le> of_int ?d" using d(1) by (simp only: of_int_0_le_iff)
  then have "0 \<le> ?x" using x(1) by linarith
  moreover have "?x \<le> of_int (2 * rc_MaxDelay c)" using x(2) assms(3) by (simp del: of_int_min)
  ultimately have i: "duration_of_float ?x = \<lfloor>?x\<rfloor>" by (rule duration_of_float_id) (use assms(4) in simp)
  show ?thesis
    unfolding e i using floor_mono [OF x(1)] floor_mono [OF x(2)] unfolding floor_quarter floor_of_int by blast
qed

theorem retry_delay_bounds_witness:
  "5 * second \<le> CalculateDelay (1 / 2) 10 DefaultRetryConfig \<and> CalculateDelay (1 / 2) 10 DefaultRetryConfig \<le> 6250000000"
  using retry_delay_bounds [of DefaultRetryConfig 10 "1 / 2"] by (simp add: DefaultRetryConfig_def unit_defs)

text \<open>
  Without a base delay the backoff is zero, until the power of the attempt is infinite: the product is then
  not a number and the delay the least integer.
\<close>

theorem retry_delay_not_a_number:
  assumes "rc_BaseDelay c = 0" "1024 \<le> attempt"
  shows "CalculateDelay rand attempt c = - (2 ^ 63)"
  using assms by (simp add: CalculateDelay_def pow_backoff_def float_of_int_def)

text \<open>With the default configuration the jitter takes a late delay past the maximum.\<close>

lemma retry_delay_over_cap: "CalculateDelay (1 / 2) 10 DefaultRetryConfig > rc_MaxDelay DefaultRetryConfig"
  by code_simp

section \<open>Attempts\<close>

definition tries_on :: "'r retry_env \<Rightarrow> nat \<Rightarrow> bool" where
  "tries_on env i \<longleftrightarrow> rv_ctx env i = None \<and> snd (rv_fn env i) \<noteq> None \<and> rv_wait env i = None"

lemma retry_loop_step:
  assumes "tries_on env n" "int n < rc_MaxRetries c"
  shows "retry_loop env c n r e ds = retry_loop env c (Suc n) (fst (rv_fn env n)) (snd (rv_fn env n))
    (ds @ [CalculateDelay (rv_rand env n) n c])"
  using assms by (subst retry_loop.simps) (auto simp: tries_on_def Let_def split: prod.split)

lemma retry_loop_steps:
  assumes "\<forall>i<k. tries_on env (n + i)" "int (n + k) \<le> rc_MaxRetries c"
  shows "\<exists>r' e'. retry_loop env c n r e ds =
    retry_loop env c (n + k) r' e' (ds @ map (\<lambda>i. CalculateDelay (rv_rand env i) i c) [n..<n + k])"
  using assms
proof (induction k arbitrary: n r e ds)
  case (Suc k)
  have "tries_on env n" "int n < rc_MaxRetries c" using Suc.prems by force+
  from retry_loop_step [OF this] have s: "retry_loop env c n r e ds = retry_loop env c (Suc n)
      (fst (rv_fn env n)) (snd (rv_fn env n)) (ds @ [CalculateDelay (rv_rand env n) n c])" .
  have "\<forall>i<k. tries_on env (Suc n + i)" using Suc.prems(1) by force
  moreover have "[n..<n + Suc k] = n # [Suc n..<Suc n + k]" by (simp add: upt_conv_Cons del: upt_Suc)
  ultimately show ?case
    unfolding s using Suc.IH [of "Suc n" "fst (rv_fn env n)" "snd (rv_fn env n)" "ds @ [CalculateDelay (rv_rand env n) n c]"]
      Suc.prems(2) by (simp del: upt_Suc)
qed (auto intro!: exI)

text \<open>A call that keeps failing is retried until it succeeds or the retries are used up: if every
  attempt before \<open>k\<close> fails while the context lives, and attempt \<open>k\<close> succeeds or is the last one
  allowed, \<open>Retry\<close> returns exactly the result and the error of attempt \<open>k\<close>, having waited the
  calculated delay once before each attempt but the first.\<close>

theorem retry_until:
  assumes "int k \<le> rc_MaxRetries c" "\<forall>i<k. tries_on env i" "rv_ctx env k = None"
    "snd (rv_fn env k) = None \<or> int k = rc_MaxRetries c"
  shows "Retry env c = (fst (rv_fn env k), snd (rv_fn env k), map (\<lambda>i. CalculateDelay (rv_rand env i) i c) [0..<k])"
proof -
  obtain r' e' where "Retry env c = retry_loop env c k r' e' (map (\<lambda>i. CalculateDelay (rv_rand env i) i c) [0..<k])"
    using retry_loop_steps [of k env 0 c None None "[]"] assms(1,2) by (auto simp: Retry_def)
  then show ?thesis using assms(1,3,4)
    by (subst (asm) retry_loop.simps) (auto simp: Let_def split: prod.splits)
qed

definition demo_retry_env :: "nat retry_env" where
  "demo_retry_env = \<lparr>rv_fn = (\<lambda>n. if n < 2 then (None, Some ''busy'') else (Some n, None)),
     rv_ctx = (\<lambda>_. None), rv_wait = (\<lambda>_. None), rv_rand = (\<lambda>_. 0)\<rparr>"

theorem retry_until_witness:
  "Retry demo_retry_env DefaultRetryConfig = (Some 2, None, map (\<lambda>i. CalculateDelay 0 i DefaultRetryConfig) [0, 1])"
  using retry_until [of 2 DefaultRetryConfig demo_retry_env]
  by (simp add: demo_retry_env_def DefaultRetryConfig_def tries_on_def less_Suc_eq numeral_2_eq_2)

lemma retry_loop_waits:
  "length (snd (snd (retry_loop env c n r e ds))) \<le> length ds + nat (rc_MaxRetries c - int n)"
proof (induction "nat (rc_MaxRetries c - int n)" arbitrary: n r e ds)
  case 0
  then show ?case by (subst retry_loop.simps) (auto simp: Let_def split: prod.split option.split)
next
  case (Suc m)
  then have "m = nat (rc_MaxRetries c - int (Suc n))" "int n < rc_MaxRetries c" by linarith+
  then have "length (snd (snd (retry_loop env c (Suc n) r' e' (ds @ [d])))) \<le> length ds + nat (rc_MaxRetries c - int n)" for r' e' d
    using Suc.hyps(1) [of "Suc n" r' e' "ds @ [d]"] Suc.hyps(2) by simp
  then show ?case using \<open>int n < rc_MaxRetries c\<close>
    by (subst retry_loop.simps) (auto simp: Let_def split: prod.split option.split)
qed

text \<open>A negative number of retries reports success without making the call at all.\<close>

lemma retry_negative: "rc_MaxRetries c < 0 \<Longrightarrow> Retry env c = (None, None, [])"
  unfolding Retry_def by (subst retry_loop.simps) simp

end
