(* ===== verification/Chain_Exec.thy ===== *)
theory Chain_Exec
  imports Event_Types "HOL-Library.Sublist"
begin

text \<open>
  \<open>internal/orchestration/orchestrator.go\<close>: chains of steps run through an executor, and the
  execution context they share. The executor, the clock and the order in which a map of
  results is ranged over are arguments indexed by the position of the step; so is a
  \<open>CancelChain\<close> that another goroutine makes while the chain runs, since \<open>Execute\<close> holds
  the lock of the chain only for its own updates. Nil steps are kept: ranging over one
  dereferences it and panics.
\<close>

section \<open>The execution context\<close>

record exec_context =
  ec_data :: "(gostr, dyn) gomap"
  ec_muvis :: "gostr list"

definition NewExecutionContext :: exec_context where
  "NewExecutionContext = \<lparr>ec_data = Map.empty, ec_muvis = []\<rparr>"

definition ec_Set :: "gostr \<Rightarrow> dyn \<Rightarrow> exec_context \<Rightarrow> exec_context" where
  "ec_Set key value ec =
     (if list_ex (\<lambda>im. im = key) (ec_muvis ec) then ec
      else ec\<lparr>ec_data := (ec_data ec)(key \<mapsto> value)\<rparr>)"

definition ec_Get :: "gostr \<Rightarrow> exec_context \<Rightarrow> dyn option" where
  "ec_Get key ec = ec_data ec key"

definition ec_MarkImmutable :: "gostr \<Rightarrow> exec_context \<Rightarrow> exec_context" where
  "ec_MarkImmutable key ec = ec\<lparr>ec_muvis := ec_muvis ec @ [key]\<rparr>"

section \<open>Chains\<close>

record chain_step =
  cs_ID :: gostr
  cs_Name :: gostr
  cs_InputKeys :: "gostr list"
  cs_Model :: gostr
  cs_Prompt :: gostr
  cs_SkillName :: gostr
  cs_DependsOn :: "gostr list"
  cs_Timeout :: duration
  cs_Optional :: bool

record step_result =
  sr_StepID :: gostr
  sr_Output :: gostr
  sr_Error :: "gostr option"
  sr_Duration :: duration
  sr_ModelUsed :: gostr
  sr_TokensUsed :: int
  sr_StartedAt :: gtime
  sr_CompletedAt :: gtime

datatype chain_status = ChainStatusPending | ChainStatusRunning | ChainStatusCompleted
  | ChainStatusFailed | ChainStatusCanceled

record chain =
  cn_ID :: gostr
  cn_Name :: gostr
  cn_Steps :: "chain_step option list"
  cn_Results :: "step_result list"
  cn_Context :: exec_context
  cn_Status :: chain_status
  cn_CreatedAt :: gtime
  cn_CompletedAt :: "gtime option"

record chain_result =
  cres_ChainID :: gostr
  cres_StepResults :: "step_result list"
  cres_Success :: bool
  cres_Error :: "gostr option"

definition NewChain :: "gtime \<Rightarrow> gostr \<Rightarrow> gostr \<Rightarrow> chain" where
  "NewChain now i name = \<lparr>cn_ID = i, cn_Name = name, cn_Steps = [], cn_Results = [],
     cn_Context = NewExecutionContext, cn_Status = ChainStatusPending, cn_CreatedAt = now,
     cn_CompletedAt = None\<rparr>"

definition AddStep :: "chain_step option \<Rightarrow> chain \<Rightarrow> chain" where
  "AddStep s c = c\<lparr>cn_Steps := cn_Steps c @ [s]\<rparr>"

text \<open>What the executor returns: an error, or text, model and token count.\<close>

record step_response =
  xr_Text :: gostr
  xr_ModelUsed :: gostr
  xr_TokensUsed :: int

record chain_env =
  xe_exec :: "nat \<Rightarrow> gostr \<Rightarrow> gostr + step_response"
  xe_start :: "nat \<Rightarrow> gtime"
  xe_stop :: "nat \<Rightarrow> gtime"
  xe_order :: "nat \<Rightarrow> gostr list"
  xe_cancel :: "nat \<Rightarrow> gtime option"
  xe_end :: gtime

definition areDependenciesMet :: "chain_step \<Rightarrow> (gostr, step_result) gomap \<Rightarrow> bool" where
  "areDependenciesMet s results = list_all (\<lambda>d. case results d of
     None \<Rightarrow> False | Some r \<Rightarrow> sr_Error r = None) (cs_DependsOn s)"

definition buildStepInput :: "gostr list \<Rightarrow> (gostr, step_result) gomap \<Rightarrow> gostr" where
  "buildStepInput order results = concat (map (\<lambda>(i, r).
     if sr_Output r \<noteq> '''' then [CHR 0x0A] @ ''--- '' @ i @ '' ---'' @ [CHR 0x0A] @ sr_Output r else '''')
     (range_of order results))"

definition first_step_id :: "chain \<Rightarrow> gostr" where
  "first_step_id c = (case find (\<lambda>s. s \<noteq> None) (cn_Steps c) of Some (Some s) \<Rightarrow> cs_ID s | _ \<Rightarrow> '''')"

definition executeStep :: "chain_env \<Rightarrow> nat \<Rightarrow> chain \<Rightarrow> (gostr, step_result) gomap \<Rightarrow> step_result" where
  "executeStep env n c results =
     (let r = \<lparr>sr_StepID = first_step_id c, sr_Output = '''', sr_Error = None,
            sr_Duration = time_sub (xe_stop env n) (xe_start env n), sr_ModelUsed = '''', sr_TokensUsed = 0,
            sr_StartedAt = xe_start env n, sr_CompletedAt = xe_stop env n\<rparr>
      in case xe_exec env n (buildStepInput (xe_order env n) results) of
           Inl err \<Rightarrow> r\<lparr>sr_Error := Some err\<rparr>
         | Inr out \<Rightarrow> r\<lparr>sr_Output := xr_Text out, sr_ModelUsed := xr_ModelUsed out,
                       sr_TokensUsed := xr_TokensUsed out\<rparr>)"

definition chain_fail :: "gtime \<Rightarrow> chain \<Rightarrow> chain" where
  "chain_fail now c = c\<lparr>cn_Status := ChainStatusFailed, cn_CompletedAt := Some now\<rparr>"

datatype cancel_error = ChainNotFound gostr | ChainNotRunning gostr

definition chain_cancel :: "gtime \<Rightarrow> chain \<Rightarrow> cancel_error option \<times> chain" where
  "chain_cancel now c =
     (if cn_Status c \<noteq> ChainStatusPending \<and> cn_Status c \<noteq> ChainStatusRunning
      then (Some (ChainNotRunning (cn_ID c)), c)
      else (None, c\<lparr>cn_Status := ChainStatusCanceled, cn_CompletedAt := Some now\<rparr>))"

definition maybe_cancel :: "gtime option \<Rightarrow> chain \<Rightarrow> chain" where
  "maybe_cancel t c = (case t of None \<Rightarrow> c | Some now \<Rightarrow> snd (chain_cancel now c))"

datatype execute_outcome = AlreadyExecuted | ChainDone chain_result | ChainPanic

text \<open>The loop of \<open>Execute\<close> from position \<open>n\<close> on, with the steps still to come.\<close>

fun run_steps :: "chain_env \<Rightarrow> nat \<Rightarrow> chain_step option list \<Rightarrow> (gostr, step_result) gomap \<Rightarrow> chain_result
    \<Rightarrow> chain \<Rightarrow> execute_outcome \<times> chain" where
  "run_steps env n [] results res c =
     (ChainDone res, (maybe_cancel (xe_cancel env n) c)\<lparr>cn_Status := ChainStatusCompleted,
        cn_CompletedAt := Some (xe_end env)\<rparr>)"
| "run_steps env n (None # steps) results res c = (ChainPanic, maybe_cancel (xe_cancel env n) c)"
| "run_steps env n (Some s # steps) results res c =
     (let c = maybe_cancel (xe_cancel env n) c in
      if \<not> areDependenciesMet s results
      then if \<not> cs_Optional s
           then let err = ''step '' @ cs_ID s @ '' dependencies not met''
                in (ChainDone (res\<lparr>cres_Success := False, cres_Error := Some err\<rparr>),
                    chain_fail (xe_stop env n) c)
           else run_steps env (Suc n) steps results res c
      else let r = executeStep env n c results;
               c = c\<lparr>cn_Results := cn_Results c @ [r]\<rparr>;
               res = res\<lparr>cres_StepResults := cres_StepResults res @ [r]\<rparr>;
               results = results(cs_ID s \<mapsto> r);
               c = c\<lparr>cn_Context := ec_MarkImmutable (cs_ID s) (cn_Context c)\<rparr>
           in case sr_Error r of
                Some err \<Rightarrow>
                  if \<not> cs_Optional s
                  then (ChainDone (res\<lparr>cres_Success := False, cres_Error := Some err\<rparr>),
                        chain_fail (xe_stop env n) c)
                  else run_steps env (Suc n) steps results res c
              | None \<Rightarrow> run_steps env (Suc n) steps results res c)"

definition chain_Execute :: "chain_env \<Rightarrow> chain \<Rightarrow> execute_outcome \<times> chain" where
  "chain_Execute env c =
     (if cn_Status c \<noteq> ChainStatusPending then (AlreadyExecuted, c)
      else let c = c\<lparr>cn_Status := ChainStatusRunning\<rparr>
           in run_steps env 0 (cn_Steps c) Map.empty
                \<lparr>cres_ChainID = cn_ID c, cres_StepResults = [], cres_Success = True, cres_Error = None\<rparr> c)"

definition AggregateResults :: "step_result list \<Rightarrow> gostr" where
  "AggregateResults rs = concat (map (\<lambda>r. case sr_Error r of
     Some e \<Rightarrow> [CHR 0x0A] @ ''[ERROR: '' @ e @ '']'' | None \<Rightarrow> sr_Output r) rs)"

section \<open>The orchestrator\<close>

record orchestrator =
  or_chains :: "(gostr, chain) gomap"
  or_maxDepth :: int
  or_timeout :: duration

definition NewOrchestrator :: orchestrator where
  "NewOrchestrator = \<lparr>or_chains = Map.empty, or_maxDepth = 10, or_timeout = 5 * minute\<rparr>"

definition or_NewChain :: "gtime \<Rightarrow> gostr \<Rightarrow> gostr \<Rightarrow> orchestrator \<Rightarrow> chain \<times> orchestrator" where
  "or_NewChain now i name o1 =
     (let c = NewChain now i name in (c, o1\<lparr>or_chains := (or_chains o1)(i \<mapsto> c)\<rparr>))"

definition or_GetChain :: "gostr \<Rightarrow> orchestrator \<Rightarrow> chain option" where
  "or_GetChain i o1 = or_chains o1 i"

definition or_ListChains :: "gostr list \<Rightarrow> orchestrator \<Rightarrow> chain list" where
  "or_ListChains order o1 = map snd (range_of order (or_chains o1))"

definition or_CancelChain :: "gtime \<Rightarrow> gostr \<Rightarrow> orchestrator \<Rightarrow> cancel_error option \<times> orchestrator" where
  "or_CancelChain now i o1 = (case or_chains o1 i of
     None \<Rightarrow> (Some (ChainNotFound i), o1)
   | Some c \<Rightarrow> (let (e, c) = chain_cancel now c in (e, o1\<lparr>or_chains := (or_chains o1)(i \<mapsto> c)\<rparr>)))"

section \<open>Correctness of a run\<close>

text \<open>
  \<open>deps_ok tr rs\<close>: the steps \<open>tr\<close>, with their results \<open>rs\<close>, were run in an order in which
  everything a step depends on ran before it and without an error.
\<close>

definition deps_ok :: "chain_step list \<Rightarrow> step_result list \<Rightarrow> bool" where
  "deps_ok tr rs \<longleftrightarrow> length tr = length rs \<and>
     (\<forall>i<length tr. \<forall>d\<in>set (cs_DependsOn (tr ! i)).
        \<exists>j<i. cs_ID (tr ! j) = d \<and> sr_Error (rs ! j) = None)"

definition recorded :: "chain_step list \<Rightarrow> step_result list \<Rightarrow> (gostr, step_result) gomap \<Rightarrow> bool" where
  "recorded tr rs results \<longleftrightarrow> (\<forall>d r. results d = Some r \<longrightarrow> (\<exists>j<length tr. cs_ID (tr ! j) = d \<and> rs ! j = r))"

lemma deps_ok_snoc:
  assumes "deps_ok tr rs" "recorded tr rs results" "areDependenciesMet s results"
  shows "deps_ok (tr @ [s]) (rs @ [r])"
proof -
  have len: "length tr = length rs" using assms(1) by (simp add: deps_ok_def)
  have "\<exists>j<length tr. cs_ID (tr ! j) = d \<and> sr_Error (rs ! j) = None" if "d \<in> set (cs_DependsOn s)" for d
    using assms(2,3) that unfolding areDependenciesMet_def recorded_def list_all_iff
    by (fastforce split: option.splits)
  then show ?thesis
    using assms(1) len unfolding deps_ok_def
    by (auto simp: nth_append less_Suc_eq) (metis dual_order.strict_trans)+
qed

lemma recorded_snoc:
  assumes "recorded tr rs results" "length tr = length rs"
  shows "recorded (tr @ [s]) (rs @ [r]) (results(cs_ID s \<mapsto> r))"
  using assms unfolding recorded_def by (fastforce simp: nth_append split: if_splits)

lemma recorded_empty [simp]: "recorded [] [] Map.empty"
  by (simp add: recorded_def)

lemma deps_ok_Nil [simp]: "deps_ok [] []"
  by (simp add: deps_ok_def)

definition step_done :: "chain_env \<Rightarrow> nat \<Rightarrow> chain_step \<Rightarrow> (gostr, step_result) gomap \<Rightarrow> chain \<Rightarrow> chain" where
  "step_done env n s results c = (let c = maybe_cancel (xe_cancel env n) c
     in c\<lparr>cn_Results := cn_Results c @ [executeStep env n c results],
          cn_Context := ec_MarkImmutable (cs_ID s) (cn_Context c)\<rparr>)"

lemma run_steps_skip:
  assumes "\<not> areDependenciesMet s results" "cs_Optional s"
  shows "run_steps env n (Some s # steps) results res c =
    run_steps env (Suc n) steps results res (maybe_cancel (xe_cancel env n) c)"
  using assms by (simp add: Let_def)

lemma run_steps_miss:
  assumes "\<not> areDependenciesMet s results" "\<not> cs_Optional s"
  shows "run_steps env n (Some s # steps) results res c =
    (ChainDone (res\<lparr>cres_Success := False, cres_Error := Some (''step '' @ cs_ID s @ '' dependencies not met'')\<rparr>),
     chain_fail (xe_stop env n) (maybe_cancel (xe_cancel env n) c))"
  using assms by (simp add: Let_def)

lemma run_steps_stop:
  assumes "areDependenciesMet s results" "\<not> cs_Optional s"
    "sr_Error (executeStep env n (maybe_cancel (xe_cancel env n) c) results) = Some err"
  shows "run_steps env n (Some s # steps) results res c =
    (ChainDone (res\<lparr>cres_StepResults := cres_StepResults res @ [executeStep env n (maybe_cancel (xe_cancel env n) c) results],
       cres_Success := False, cres_Error := Some err\<rparr>),
     chain_fail (xe_stop env n) (step_done env n s results c))"
  using assms by (simp add: Let_def step_done_def)

lemma run_steps_go:
  assumes "areDependenciesMet s results"
    "sr_Error (executeStep env n (maybe_cancel (xe_cancel env n) c) results) = None \<or> cs_Optional s"
  shows "run_steps env n (Some s # steps) results res c =
    run_steps env (Suc n) steps
      (results(cs_ID s \<mapsto> executeStep env n (maybe_cancel (xe_cancel env n) c) results))
      (res\<lparr>cres_StepResults := cres_StepResults res @ [executeStep env n (maybe_cancel (xe_cancel env n) c) results]\<rparr>)
      (step_done env n s results c)"
  using assms by (auto simp: Let_def step_done_def split: option.splits)

lemma step_cases:
  obtains (skip) "\<not> areDependenciesMet s results" "cs_Optional s"
    | (miss) "\<not> areDependenciesMet s results" "\<not> cs_Optional s"
    | (stop) err where "areDependenciesMet s results" "\<not> cs_Optional s"
        "sr_Error (executeStep env n (maybe_cancel (xe_cancel env n) c) results) = Some err"
    | (go) "areDependenciesMet s results"
        "sr_Error (executeStep env n (maybe_cancel (xe_cancel env n) c) results) = None \<or> cs_Optional s"
  by (cases "areDependenciesMet s results"; cases "cs_Optional s";
      cases "sr_Error (executeStep env n (maybe_cancel (xe_cancel env n) c) results)") auto

declare run_steps.simps(3) [simp del]

lemma run_steps_deps:
  assumes "run_steps env n steps results res c = (ChainDone res', c')"
    "deps_ok tr (cres_StepResults res)" "recorded tr (cres_StepResults res) results"
  shows "\<exists>more. subseq more (map the steps) \<and> deps_ok (tr @ more) (cres_StepResults res')"
  using assms
proof (induction steps arbitrary: n results res c tr)
  case Nil
  then show ?case by (auto intro!: exI [of _ "[]"])
next
  case (Cons x steps)
  show ?case
  proof (cases x)
    case None
    then show ?thesis using Cons.prems by simp
  next
    case (Some s)
    have len: "length tr = length (cres_StepResults res)" using Cons.prems(2) by (simp add: deps_ok_def)
    show ?thesis
    proof (cases rule: step_cases [where s = s and results = results and env = env and n = n and c = c])
      case skip
      have "run_steps env (Suc n) steps results res (maybe_cancel (xe_cancel env n) c) = (ChainDone res', c')"
        using Cons.prems(1) skip Some by (simp add: run_steps_skip)
      from Cons.IH [OF this Cons.prems(2,3)] show ?thesis by auto
    next
      case miss
      then show ?thesis using Cons.prems Some by (auto simp: run_steps_miss intro!: exI [of _ "[]"])
    next
      case stop
      then show ?thesis using deps_ok_snoc [OF Cons.prems(2,3) stop(1)] Cons.prems(1) Some run_steps_stop [OF stop]
        by (auto intro!: exI [of _ "[s]"])
    next
      case go
      let ?r = "executeStep env n (maybe_cancel (xe_cancel env n) c) results"
      have "run_steps env (Suc n) steps (results(cs_ID s \<mapsto> ?r))
          (res\<lparr>cres_StepResults := cres_StepResults res @ [?r]\<rparr>) (step_done env n s results c) = (ChainDone res', c')"
        using Cons.prems(1) go Some by (simp add: run_steps_go)
      from Cons.IH [OF this, of "tr @ [s]"]
      obtain more where "subseq more (map the steps)" "deps_ok ((tr @ [s]) @ more) (cres_StepResults res')"
        using deps_ok_snoc [OF Cons.prems(2,3) go(1), of ?r] recorded_snoc [OF Cons.prems(3) len, of s ?r]
        by (auto simp del: fun_upd_apply)
      then show ?thesis using Some by (auto intro!: exI [of _ "s # more"])
    qed
  qed
qed

text \<open>C15: the steps that a chain runs are a subsequence of its steps, one result each, and every
  step on which a step depends ran before it and returned no error.\<close>

theorem chain_dependencies_first:
  assumes "chain_Execute env c = (ChainDone res, c')"
  shows "\<exists>tr. subseq tr (map the (cn_Steps c)) \<and> deps_ok tr (cres_StepResults res)"
  using run_steps_deps [of env 0 "cn_Steps c" Map.empty _ _ res c' "[]"] assms
  by (auto simp: chain_Execute_def Let_def split: if_splits)

text \<open>A chain of two steps, the second of which depends on the first.\<close>

definition demo_step :: "gostr \<Rightarrow> gostr list \<Rightarrow> chain_step" where
  "demo_step i deps = \<lparr>cs_ID = i, cs_Name = i, cs_InputKeys = [], cs_Model = '''', cs_Prompt = '''',
     cs_SkillName = '''', cs_DependsOn = deps, cs_Timeout = second, cs_Optional = False\<rparr>"

definition demo_env :: chain_env where
  "demo_env = \<lparr>xe_exec = (\<lambda>n input. Inr \<lparr>xr_Text = ''ok'', xr_ModelUsed = ''m'', xr_TokensUsed = 1\<rparr>),
     xe_start = (\<lambda>n. int n), xe_stop = (\<lambda>n. int n + 1), xe_order = (\<lambda>n. [''a'', ''b'']),
     xe_cancel = (\<lambda>n. None), xe_end = 9\<rparr>"

definition demo_chain :: chain where
  "demo_chain = AddStep (Some (demo_step ''b'' [''a''])) (AddStep (Some (demo_step ''a'' []))
     (NewChain 0 ''c'' ''demo''))"

lemmas demo_chain_defs = demo_chain_def demo_env_def demo_step_def chain_Execute_def NewChain_def
  AddStep_def run_steps.simps maybe_cancel_def areDependenciesMet_def executeStep_def

theorem chain_dependencies_first_witness:
  "\<exists>tr. subseq tr [demo_step ''a'' [], demo_step ''b'' [''a'']] \<and>
     deps_ok tr (case fst (chain_Execute demo_env demo_chain) of ChainDone res \<Rightarrow> cres_StepResults res)"
proof -
  obtain res c' where r: "chain_Execute demo_env demo_chain = (ChainDone res, c')"
    by (simp add: demo_chain_defs Let_def)
  show ?thesis
    using chain_dependencies_first [OF r] r by (simp add: demo_chain_def AddStep_def NewChain_def)
qed

lemma run_steps_ends:
  assumes "None \<notin> set steps" "cres_Success res" "cres_Error res = None"
  shows "\<exists>res' c'. run_steps env n steps results res c = (ChainDone res', c') \<and>
    cn_CompletedAt c' \<noteq> None \<and> (cres_Error res' = None \<longleftrightarrow> cres_Success res') \<and>
    cn_Status c' = (if cres_Success res' then ChainStatusCompleted else ChainStatusFailed)"
  using assms
proof (induction steps arbitrary: n results res c)
  case Nil
  then show ?case by simp
next
  case (Cons x steps)
  then obtain s where x: "x = Some s" by (cases x) auto
  show ?case
    using Cons x
    by (cases rule: step_cases [where s = s and results = results and env = env and n = n and c = c])
      (simp_all add: run_steps_skip run_steps_miss run_steps_stop run_steps_go chain_fail_def)
qed

text \<open>Executing a pending chain whose steps are not nil always returns; its status is then
  \<open>completed\<close> exactly when the result reports success, \<open>failed\<close> otherwise, whatever cancellation
  another goroutine made meanwhile; an error is set exactly when it failed; and executing or
  cancelling the same chain again is refused and changes nothing.\<close>

theorem chain_runs_once:
  assumes "cn_Status c = ChainStatusPending" "None \<notin> set (cn_Steps c)"
  shows "\<exists>res c'. chain_Execute env c = (ChainDone res, c') \<and>
    cn_CompletedAt c' \<noteq> None \<and> (cres_Error res = None \<longleftrightarrow> cres_Success res) \<and>
    cn_Status c' = (if cres_Success res then ChainStatusCompleted else ChainStatusFailed) \<and>
    chain_Execute env' c' = (AlreadyExecuted, c') \<and>
    chain_cancel now c' = (Some (ChainNotRunning (cn_ID c')), c')"
proof -
  let ?res = "\<lparr>cres_ChainID = cn_ID c, cres_StepResults = [], cres_Success = True, cres_Error = None\<rparr>"
  obtain res c' where "run_steps env 0 (cn_Steps c) Map.empty ?res (c\<lparr>cn_Status := ChainStatusRunning\<rparr>) = (ChainDone res, c')"
    "cn_CompletedAt c' \<noteq> None" "cres_Error res = None \<longleftrightarrow> cres_Success res"
    "cn_Status c' = (if cres_Success res then ChainStatusCompleted else ChainStatusFailed)"
    using run_steps_ends [OF assms(2), of ?res env 0 Map.empty "c\<lparr>cn_Status := ChainStatusRunning\<rparr>"] by auto
  then show ?thesis using assms(1) by (simp add: chain_Execute_def chain_cancel_def)
qed

theorem chain_runs_once_witness:
  "\<exists>res c'. chain_Execute demo_env demo_chain = (ChainDone res, c') \<and>
    chain_Execute demo_env c' = (AlreadyExecuted, c')"
  using chain_runs_once [of demo_chain demo_env demo_env 0]
  by (auto simp: demo_chain_def AddStep_def NewChain_def)

lemma first_step_id_cong: "cn_Steps c = cn_Steps c' \<Longrightarrow> first_step_id c = first_step_id c'"
  by (simp add: first_step_id_def)

lemma maybe_cancel_steps [simp]: "cn_Steps (maybe_cancel t c) = cn_Steps c"
  by (simp add: maybe_cancel_def chain_cancel_def split: option.splits)

lemma step_done_steps [simp]: "cn_Steps (step_done env n s results c) = cn_Steps c"
  by (simp add: step_done_def Let_def)

lemma executeStep_id: "sr_StepID (executeStep env n c results) = first_step_id c"
  by (simp add: executeStep_def Let_def split: sum.splits)

lemma run_steps_ids:
  assumes "run_steps env n steps results res c = (ChainDone res', c')" "first_step_id c = i"
    "list_all (\<lambda>r. sr_StepID r = i) (cres_StepResults res)"
  shows "list_all (\<lambda>r. sr_StepID r = i) (cres_StepResults res')"
  using assms
proof (induction steps arbitrary: n results res c)
  case Nil
  then show ?case by auto
next
  case (Cons x steps)
  show ?case
  proof (cases x)
    case None
    then show ?thesis using Cons.prems by simp
  next
    case (Some s)
    note id = executeStep_id [of env n "maybe_cancel (xe_cancel env n) c" results]
      first_step_id_cong [OF maybe_cancel_steps, of "xe_cancel env n" c] first_step_id_cong [OF step_done_steps, of env n s results c]
    show ?thesis
      using Cons Some id
      by (cases rule: step_cases [where s = s and results = results and env = env and n = n and c = c])
        (auto simp: run_steps_skip run_steps_miss run_steps_stop run_steps_go)
  qed
qed

text \<open>
  Every result of a run carries the identifier of the first step of the chain, whichever step
  produced it.
\<close>

theorem chain_results_first_id:
  assumes "chain_Execute env c = (ChainDone res, c')" "r \<in> set (cres_StepResults res)"
  shows "sr_StepID r = first_step_id c"
proof -
  have "first_step_id (c\<lparr>cn_Status := ChainStatusRunning\<rparr>) = first_step_id c"
    by (simp add: first_step_id_def)
  then have "list_all (\<lambda>r. sr_StepID r = first_step_id c) (cres_StepResults res)"
    using run_steps_ids [of env 0 "cn_Steps c" Map.empty _ "c\<lparr>cn_Status := ChainStatusRunning\<rparr>" res c'] assms(1)
    by (auto simp: chain_Execute_def Let_def split: if_splits)
  then show ?thesis using assms(2) by (simp add: list_all_iff)
qed

section \<open>The shared context\<close>

lemma ec_Get_Set:
  "ec_Get k (ec_Set key v ec) = (if k = key \<and> key \<notin> set (ec_muvis ec) then Some v else ec_Get k ec)"
  by (auto simp: ec_Get_def ec_Set_def list_ex_iff)

lemma ec_frozen: "ec_Get k (fold (\<lambda>(key, v). ec_Set key v) kvs (ec_MarkImmutable k ec)) = ec_Get k ec"
proof -
  have "k \<in> set (ec_muvis ec) \<Longrightarrow> ec_Get k (fold (\<lambda>(key, v). ec_Set key v) kvs ec) = ec_Get k ec" for ec
  proof (induction kvs arbitrary: ec)
    case (Cons kv kvs)
    obtain key v where kv: "kv = (key, v)" by fastforce
    have "ec_muvis (ec_Set key v ec) = ec_muvis ec" by (simp add: ec_Set_def)
    then show ?case using Cons kv ec_Get_Set [of k key v ec] by auto
  qed simp
  then show ?thesis by (simp add: ec_MarkImmutable_def ec_Get_def)
qed

end
