(* ===== verification/Session_Context.thy ===== *)
theory Session_Context
  imports Event_Types
begin

text \<open>
  \<open>internal/orchestration/context.go\<close>: conversation sessions and the context a chain carries.
  The readings of the clock in one call are one instant, an argument. JSON encoding and
  decoding are arguments of the two functions that use them; what decoding returns is a map
  of dynamic values (the empty one for \<open>null\<close>). The order in which \<open>Cleanup\<close> ranges over
  the sessions is an argument as well.
\<close>

section \<open>Sessions\<close>

record message =
  ms_ID :: gostr
  ms_Role :: gostr
  ms_Content :: gostr
  ms_Model :: gostr
  ms_Tokens :: int
  ms_Timestamp :: gtime
  ms_Metadata :: "(gostr, dyn) gomap"

record session =
  se_ID :: gostr
  se_TenantID :: gostr
  se_UserID :: gostr
  se_Messages :: "message list"
  se_Metadata :: "(gostr, dyn) gomap"
  se_CreatedAt :: gtime
  se_UpdatedAt :: gtime
  se_ExpiresAt :: gtime
  se_IsActive :: bool

record context_manager =
  cm_sessions :: "(gostr, session) gomap"
  cm_maxHistory :: nat
  cm_ttl :: duration
  cm_cleanupTick :: duration

definition NewContextManager :: context_manager where
  "NewContextManager = \<lparr>cm_sessions = Map.empty, cm_maxHistory = 50, cm_ttl = 24 * hour, cm_cleanupTick = hour\<rparr>"

definition put_session :: "gostr \<Rightarrow> session \<Rightarrow> context_manager \<Rightarrow> context_manager" where
  "put_session i s cm = cm\<lparr>cm_sessions := (cm_sessions cm)(i \<mapsto> s)\<rparr>"

definition CreateSession :: "gtime \<Rightarrow> gostr \<Rightarrow> gostr \<Rightarrow> gostr \<Rightarrow> context_manager \<Rightarrow> session \<times> context_manager" where
  "CreateSession now sessionID tenantID userID cm =
     (let s = \<lparr>se_ID = sessionID, se_TenantID = tenantID, se_UserID = userID, se_Messages = [],
           se_Metadata = Map.empty, se_CreatedAt = now, se_UpdatedAt = now,
           se_ExpiresAt = time_add now (cm_ttl cm), se_IsActive = True\<rparr>
      in (s, put_session sessionID s cm))"

definition GetSession :: "gtime \<Rightarrow> gostr \<Rightarrow> context_manager \<Rightarrow> session option" where
  "GetSession now sessionID cm = (case cm_sessions cm sessionID of
     None \<Rightarrow> None
   | Some s \<Rightarrow> if time_after now (se_ExpiresAt s) then None else Some s)"

datatype session_error = SessionNotFound gostr | SerializeFailed gostr | DeserializeFailed gostr

definition cm_AddMessage :: "gtime \<Rightarrow> gostr \<Rightarrow> message \<Rightarrow> context_manager \<Rightarrow> session_error option \<times> context_manager" where
  "cm_AddMessage now sessionID msg cm = (case cm_sessions cm sessionID of
     None \<Rightarrow> (Some (SessionNotFound sessionID), cm)
   | Some s \<Rightarrow>
       let msg = msg\<lparr>ms_ID := ''msg-'' @ itoa (int (length (se_Messages s)) + 1), ms_Timestamp := now\<rparr>;
           s = s\<lparr>se_Messages := se_Messages s @ [msg], se_UpdatedAt := now,
                 se_ExpiresAt := time_add now (cm_ttl cm)\<rparr>;
           s = (if length (se_Messages s) > cm_maxHistory cm
                then s\<lparr>se_Messages := drop (length (se_Messages s) - cm_maxHistory cm) (se_Messages s)\<rparr>
                else s)
       in (None, put_session sessionID s cm))"

definition GetMessages :: "gtime \<Rightarrow> gostr \<Rightarrow> context_manager \<Rightarrow> session_error + message list" where
  "GetMessages now sessionID cm = (case GetSession now sessionID cm of
     None \<Rightarrow> Inl (SessionNotFound sessionID)
   | Some s \<Rightarrow> Inr (se_Messages s))"

text \<open>The loop of \<open>GetContextForLLM\<close>: the whole slice, and the messages still to be ranged over.\<close>

fun llm_loop :: "int \<Rightarrow> message list \<Rightarrow> int \<Rightarrow> message list \<Rightarrow> message list \<times> int" where
  "llm_loop maxTokens messages totalTokens [] = (messages, totalTokens)"
| "llm_loop maxTokens messages totalTokens (msg # rest) =
     (let msgTokens = int (length (ms_Content msg)) div 4
      in if totalTokens + msgTokens > maxTokens then (drop (length messages) messages, totalTokens)
         else llm_loop maxTokens messages (totalTokens + msgTokens) rest)"

definition GetContextForLLM :: "gtime \<Rightarrow> gostr \<Rightarrow> int \<Rightarrow> context_manager \<Rightarrow> session_error + message list \<times> int" where
  "GetContextForLLM now sessionID maxTokens cm = (case GetSession now sessionID cm of
     None \<Rightarrow> Inl (SessionNotFound sessionID)
   | Some s \<Rightarrow> Inr (llm_loop maxTokens (se_Messages s) 0 (se_Messages s)))"

definition ClearSession :: "gtime \<Rightarrow> gostr \<Rightarrow> context_manager \<Rightarrow> session_error option \<times> context_manager" where
  "ClearSession now sessionID cm = (case cm_sessions cm sessionID of
     None \<Rightarrow> (Some (SessionNotFound sessionID), cm)
   | Some s \<Rightarrow> (None, put_session sessionID (s\<lparr>se_Messages := [], se_UpdatedAt := now\<rparr>) cm))"

definition DeleteSession :: "gostr \<Rightarrow> context_manager \<Rightarrow> session_error option \<times> context_manager" where
  "DeleteSession sessionID cm = (case cm_sessions cm sessionID of
     None \<Rightarrow> (Some (SessionNotFound sessionID), cm)
   | Some s \<Rightarrow> (None, cm\<lparr>cm_sessions := (cm_sessions cm)(sessionID := None)\<rparr>))"

definition SetSessionMetadata :: "gtime \<Rightarrow> gostr \<Rightarrow> gostr \<Rightarrow> dyn \<Rightarrow> context_manager
    \<Rightarrow> session_error option \<times> context_manager" where
  "SetSessionMetadata now sessionID key v cm = (case cm_sessions cm sessionID of
     None \<Rightarrow> (Some (SessionNotFound sessionID), cm)
   | Some s \<Rightarrow> (None, put_session sessionID
       (s\<lparr>se_Metadata := (se_Metadata s)(key \<mapsto> v), se_UpdatedAt := now\<rparr>) cm))"

definition GetSessionMetadata :: "gtime \<Rightarrow> gostr \<Rightarrow> gostr \<Rightarrow> context_manager \<Rightarrow> dyn option" where
  "GetSessionMetadata now sessionID key cm = (case GetSession now sessionID cm of
     None \<Rightarrow> None
   | Some s \<Rightarrow> se_Metadata s key)"

fun cleanup_loop :: "gtime \<Rightarrow> (gostr \<times> session) list \<Rightarrow> int \<Rightarrow> (gostr, session) gomap \<Rightarrow> int \<times> (gostr, session) gomap" where
  "cleanup_loop now [] removed m = (removed, m)"
| "cleanup_loop now ((i, s) # rest) removed m =
     (if time_after now (se_ExpiresAt s) then cleanup_loop now rest (removed + 1) (m(i := None))
      else cleanup_loop now rest removed m)"

definition Cleanup :: "gtime \<Rightarrow> gostr list \<Rightarrow> context_manager \<Rightarrow> int \<times> context_manager" where
  "Cleanup now order cm =
     (let (removed, m) = cleanup_loop now (range_of order (cm_sessions cm)) 0 (cm_sessions cm)
      in (removed, cm\<lparr>cm_sessions := m\<rparr>))"

definition SessionCount :: "gostr list \<Rightarrow> context_manager \<Rightarrow> int" where
  "SessionCount order cm = int (length (range_of order (cm_sessions cm)))"

record context_data =
  cd_session_id :: gostr
  cd_tenant_id :: gostr
  cd_user_id :: gostr
  cd_messages :: "message list"
  cd_metadata :: "(gostr, dyn) gomap"
  cd_created_at :: gtime
  cd_updated_at :: gtime

definition SerializeContext :: "(context_data \<Rightarrow> gostr + gostr) \<Rightarrow> gtime \<Rightarrow> gostr \<Rightarrow> context_manager
    \<Rightarrow> session_error + gostr" where
  "SerializeContext marshal now sessionID cm = (case GetSession now sessionID cm of
     None \<Rightarrow> Inl (SessionNotFound sessionID)
   | Some s \<Rightarrow> (case marshal \<lparr>cd_session_id = se_ID s, cd_tenant_id = se_TenantID s,
         cd_user_id = se_UserID s, cd_messages = se_Messages s, cd_metadata = se_Metadata s,
         cd_created_at = se_CreatedAt s, cd_updated_at = se_UpdatedAt s\<rparr> of
       Inl err \<Rightarrow> Inl (SerializeFailed err)
     | Inr bytes \<Rightarrow> Inr bytes))"

definition restore_tenant :: "(gostr, dyn) gomap \<Rightarrow> session \<Rightarrow> session" where
  "restore_tenant ctx s = (case ctx ''tenant_id'' of Some (DString t) \<Rightarrow> s\<lparr>se_TenantID := t\<rparr> | _ \<Rightarrow> s)"

definition restore_user :: "(gostr, dyn) gomap \<Rightarrow> session \<Rightarrow> session" where
  "restore_user ctx s = (case ctx ''user_id'' of Some (DString u) \<Rightarrow> s\<lparr>se_UserID := u\<rparr> | _ \<Rightarrow> s)"

definition restore_metadata :: "(gostr, dyn) gomap \<Rightarrow> session \<Rightarrow> session" where
  "restore_metadata ctx s = (case ctx ''metadata'' of
     Some (DObject kvs) \<Rightarrow> s\<lparr>se_Metadata := map_of kvs\<rparr> | _ \<Rightarrow> s)"

definition DeserializeContext :: "(gostr \<Rightarrow> gostr + (gostr, dyn) gomap) \<Rightarrow> gostr \<Rightarrow> gostr \<Rightarrow> context_manager
    \<Rightarrow> session_error option \<times> context_manager" where
  "DeserializeContext unmarshal sessionID data cm = (case unmarshal data of
     Inl err \<Rightarrow> (Some (DeserializeFailed err), cm)
   | Inr ctx \<Rightarrow>
       let s = \<lparr>se_ID = sessionID, se_TenantID = '''', se_UserID = '''', se_Messages = [],
             se_Metadata = Map.empty, se_CreatedAt = zero_time, se_UpdatedAt = zero_time,
             se_ExpiresAt = zero_time, se_IsActive = True\<rparr>
       in (None, put_session sessionID (restore_metadata ctx (restore_user ctx (restore_tenant ctx s))) cm))"

section \<open>The context of a chain\<close>

record chain_context =
  cx_TenantID :: gostr
  cx_UserID :: gostr
  cx_SessionID :: gostr
  cx_ChainID :: gostr
  cx_StepID :: gostr
  cx_InputContext :: "(gostr, dyn) gomap"
  cx_OutputData :: "(gostr, dyn) gomap"
  cx_Metadata :: "(gostr, gostr) gomap"

definition NewChainContext :: "gostr \<Rightarrow> gostr \<Rightarrow> chain_context" where
  "NewChainContext tenantID userID = \<lparr>cx_TenantID = tenantID, cx_UserID = userID, cx_SessionID = '''',
     cx_ChainID = '''', cx_StepID = '''', cx_InputContext = Map.empty, cx_OutputData = Map.empty,
     cx_Metadata = Map.empty\<rparr>"

definition cx_SetInput :: "gostr \<Rightarrow> dyn \<Rightarrow> chain_context \<Rightarrow> chain_context" where
  "cx_SetInput key v cc = cc\<lparr>cx_InputContext := (cx_InputContext cc)(key \<mapsto> v)\<rparr>"

definition cx_GetInput :: "gostr \<Rightarrow> chain_context \<Rightarrow> dyn option" where
  "cx_GetInput key cc = cx_InputContext cc key"

definition cx_SetOutput :: "gostr \<Rightarrow> dyn \<Rightarrow> chain_context \<Rightarrow> chain_context" where
  "cx_SetOutput key v cc = cc\<lparr>cx_OutputData := (cx_OutputData cc)(key \<mapsto> v)\<rparr>"

definition cx_GetOutput :: "gostr \<Rightarrow> chain_context \<Rightarrow> dyn option" where
  "cx_GetOutput key cc = cx_OutputData cc key"

definition cx_SetMetadata :: "gostr \<Rightarrow> gostr \<Rightarrow> chain_context \<Rightarrow> chain_context" where
  "cx_SetMetadata key v cc = cc\<lparr>cx_Metadata := (cx_Metadata cc)(key \<mapsto> v)\<rparr>"

definition cx_GetMetadata :: "gostr \<Rightarrow> chain_context \<Rightarrow> gostr option" where
  "cx_GetMetadata key cc = cx_Metadata cc key"

section \<open>Histories stay short\<close>

lemma restore_simps [simp]:
  "se_ID (restore_tenant ctx s) = se_ID s" "se_ID (restore_user ctx s) = se_ID s" "se_ID (restore_metadata ctx s) = se_ID s"
  "se_Messages (restore_tenant ctx s) = se_Messages s" "se_Messages (restore_user ctx s) = se_Messages s"
  "se_Messages (restore_metadata ctx s) = se_Messages s"
  "se_ExpiresAt (restore_tenant ctx s) = se_ExpiresAt s" "se_ExpiresAt (restore_user ctx s) = se_ExpiresAt s"
  "se_ExpiresAt (restore_metadata ctx s) = se_ExpiresAt s"
  by (simp_all add: restore_tenant_def restore_user_def restore_metadata_def split: option.split dyn.split)

text \<open>One call of the manager that may change it.\<close>

inductive cm_step :: "context_manager \<Rightarrow> context_manager \<Rightarrow> bool" where
  cm_create: "cm_step cm (snd (CreateSession now i t u cm))"
| cm_add: "cm_step cm (snd (cm_AddMessage now i msg cm))"
| cm_clear: "cm_step cm (snd (ClearSession now i cm))"
| cm_delete: "cm_step cm (snd (DeleteSession i cm))"
| cm_meta: "cm_step cm (snd (SetSessionMetadata now i k v cm))"
| cm_cleanup: "cm_step cm (snd (Cleanup now order cm))"
| cm_restore: "cm_step cm (snd (DeserializeContext unmarshal i data cm))"

definition cm_ok :: "context_manager \<Rightarrow> bool" where
  "cm_ok cm \<longleftrightarrow> cm_maxHistory cm = 50 \<and> cm_ttl cm = 24 * hour \<and>
     (\<forall>i s. cm_sessions cm i = Some s \<longrightarrow> se_ID s = i \<and> length (se_Messages s) \<le> 50)"

lemma cm_ok_put:
  "cm_ok cm \<Longrightarrow> se_ID s = i \<Longrightarrow> length (se_Messages s) \<le> 50 \<Longrightarrow> cm_ok (put_session i s cm)"
  by (simp add: cm_ok_def put_session_def)

lemma cleanup_loop_sub: "snd (cleanup_loop now xs r m) \<subseteq>\<^sub>m m"
proof (induction now xs r m rule: cleanup_loop.induct)
  case (2 now i s rest removed m)
  have le: "m(i := None) \<subseteq>\<^sub>m m" by (simp add: map_le_def)
  then show ?case using 2 map_le_trans [OF _ le] by (simp del: fun_upd_apply)
qed simp

lemma cm_step_ok:
  assumes "cm_step cm cm'" "cm_ok cm"
  shows "cm_ok cm'"
  using assms
proof (cases rule: cm_step.cases)
  case (cm_create now i t u)
  then show ?thesis using assms(2) by (auto simp: CreateSession_def Let_def intro!: cm_ok_put)
next
  case (cm_add now i msg)
  then show ?thesis using assms(2)
    by (auto simp: cm_AddMessage_def Let_def cm_ok_def put_session_def split: option.splits if_splits)
next
  case (cm_clear now i)
  then show ?thesis using assms(2)
    by (auto simp: ClearSession_def cm_ok_def put_session_def split: option.splits)
next
  case (cm_delete i)
  then show ?thesis using assms(2) by (auto simp: DeleteSession_def cm_ok_def split: option.splits if_splits)
next
  case (cm_meta now i k v)
  then show ?thesis using assms(2)
    by (auto simp: SetSessionMetadata_def cm_ok_def put_session_def split: option.splits)
next
  case (cm_cleanup now order)
  let ?m = "snd (cleanup_loop now (range_of order (cm_sessions cm)) 0 (cm_sessions cm))"
  have "cm_sessions cm i = Some s" if "?m i = Some s" for i s
    using cleanup_loop_sub [of now "range_of order (cm_sessions cm)" 0 "cm_sessions cm"] that
    by (metis domI map_le_def)
  then show ?thesis using assms(2) cm_cleanup by (auto simp: Cleanup_def cm_ok_def split: prod.splits)
next
  case (cm_restore unmarshal i data)
  then show ?thesis using assms(2)
    by (auto simp: DeserializeContext_def Let_def intro!: cm_ok_put split: sum.splits)
qed

text \<open>In every state a context manager reaches, whatever the order of its calls and the
  instants at which they are made, every session is stored under its own identifier and keeps
  at most 50 messages.\<close>

theorem session_history_bounded:
  assumes "cm_step\<^sup>*\<^sup>* NewContextManager cm"
  shows "cm_ok cm"
  using assms
proof (induction rule: rtranclp_induct)
  case base
  show ?case by (simp add: cm_ok_def NewContextManager_def)
next
  case (step y z)
  then show ?case by (blast intro: cm_step_ok)
qed

theorem session_history_bounded_witness:
  "cm_ok (snd (CreateSession 0 ''s'' ''t'' ''u'' NewContextManager))"
  using session_history_bounded [OF r_into_rtranclp [of cm_step, OF cm_create]] .

section \<open>What the manager returns\<close>

lemma cm_AddMessage_functional:
  assumes "cm_sessions cm i = Some s"
  shows "\<exists>s' m. cm_AddMessage now i msg cm = (None, put_session i s' cm) \<and>
    ms_Content m = ms_Content msg \<and> ms_Timestamp m = now \<and>
    se_Messages s' = drop (Suc (length (se_Messages s)) - cm_maxHistory cm) (se_Messages s @ [m]) \<and>
    se_ExpiresAt s' = now + cm_ttl cm"
proof -
  let ?m = "msg\<lparr>ms_ID := ''msg-'' @ itoa (int (length (se_Messages s)) + 1), ms_Timestamp := now\<rparr>"
  let ?s = "s\<lparr>se_Messages := drop (Suc (length (se_Messages s)) - cm_maxHistory cm) (se_Messages s @ [?m]),
    se_UpdatedAt := now, se_ExpiresAt := time_add now (cm_ttl cm)\<rparr>"
  have "cm_AddMessage now i msg cm = (None, put_session i ?s cm)"
    using assms by (cases s) (simp add: cm_AddMessage_def Let_def)
  then show ?thesis by (intro exI [of _ ?s] exI [of _ ?m]) simp
qed

lemma itoa_51: "itoa 51 = ''51''"
  by code_simp

text \<open>
  Once a session has 50 messages the identifier of every further message is \<open>msg-51\<close>: the
  identifiers of a trimmed history are not unique.
\<close>

theorem session_ids_repeat:
  assumes "cm_ok cm" "cm_sessions cm i = Some s" "length (se_Messages s) = 50"
  shows "\<exists>s' ms. cm_sessions (snd (cm_AddMessage t2 i m2 (snd (cm_AddMessage t1 i m1 cm)))) i = Some s' \<and>
    se_Messages s' = ms @ [m1\<lparr>ms_ID := ''msg-51'', ms_Timestamp := t1\<rparr>, m2\<lparr>ms_ID := ''msg-51'', ms_Timestamp := t2\<rparr>]"
  using assms
  by (auto simp: cm_AddMessage_def Let_def cm_ok_def put_session_def itoa_51 split: option.splits)

definition message_tokens :: "message list \<Rightarrow> int" where
  "message_tokens ms = (\<Sum>m\<leftarrow>ms. int (length (ms_Content m)) div 4)"

lemma message_tokens_nonneg: "0 \<le> message_tokens ms"
  unfolding message_tokens_def by (induction ms) auto

lemma llm_loop_fits:
  "rest = [] \<or> tot + message_tokens rest \<le> mx \<Longrightarrow> llm_loop mx ms tot rest = (ms, tot + message_tokens rest)"
proof (induction mx ms tot rest rule: llm_loop.induct)
  case (2 mx ms tot msg rest)
  then show ?case using message_tokens_nonneg [of rest]
    by (auto simp: message_tokens_def Let_def add.assoc)
qed (simp add: message_tokens_def)

lemma llm_loop_over:
  "rest \<noteq> [] \<Longrightarrow> mx < tot + message_tokens rest \<Longrightarrow> tot \<le> mx \<Longrightarrow>
    fst (llm_loop mx ms tot rest) = [] \<and> snd (llm_loop mx ms tot rest) \<in> {tot .. mx}"
proof (induction mx ms tot rest rule: llm_loop.induct)
  case (2 mx ms tot msg rest)
  show ?case
  proof (cases "tot + int (length (ms_Content msg)) div 4 > mx")
    case False
    then have "rest \<noteq> []" using "2.prems" by (auto simp: message_tokens_def)
    then show ?thesis using False 2 by (auto simp: message_tokens_def Let_def add.assoc)
  qed (use 2 in simp)
qed simp

text \<open>The context for a model is all or nothing. For a live session and a budget that is not
  negative, \<open>GetContextForLLM\<close> returns the whole history and its size when that fits, and
  otherwise no message at all, with a count within the budget; it never keeps the most recent
  messages that would fit.\<close>

theorem llm_context_all_or_nothing:
  assumes "GetSession now i cm = Some s" "0 \<le> maxTokens"
  shows "\<exists>ms n. GetContextForLLM now i maxTokens cm = Inr (ms, n) \<and> 0 \<le> n \<and> n \<le> maxTokens \<and>
    (if message_tokens (se_Messages s) \<le> maxTokens
     then ms = se_Messages s \<and> n = message_tokens (se_Messages s) else ms = [])"
proof (cases "message_tokens (se_Messages s) \<le> maxTokens")
  case True
  then show ?thesis
    using assms message_tokens_nonneg by (simp add: GetContextForLLM_def llm_loop_fits)
next
  case False
  then have "se_Messages s \<noteq> []" using assms(2) by (auto simp: message_tokens_def)
  then have "fst (llm_loop maxTokens (se_Messages s) 0 (se_Messages s)) = [] \<and>
      snd (llm_loop maxTokens (se_Messages s) 0 (se_Messages s)) \<in> {0 .. maxTokens}"
    using False assms(2) by (intro llm_loop_over) auto
  then show ?thesis using False assms(1)
    by (cases "llm_loop maxTokens (se_Messages s) 0 (se_Messages s)") (auto simp: GetContextForLLM_def)
qed

definition demo_message :: "gostr \<Rightarrow> message" where
  "demo_message content = \<lparr>ms_ID = '''', ms_Role = ''user'', ms_Content = content, ms_Model = '''',
     ms_Tokens = 0, ms_Timestamp = 0, ms_Metadata = Map.empty\<rparr>"

definition demo_manager :: context_manager where
  "demo_manager = snd (cm_AddMessage 2 ''s'' (demo_message ''short'') (snd (cm_AddMessage 1 ''s''
     (demo_message ''a much longer message'') (snd (CreateSession 0 ''s'' ''t'' ''u'' NewContextManager)))))"

lemmas demo_manager_defs = demo_manager_def demo_message_def cm_AddMessage_def CreateSession_def
  NewContextManager_def put_session_def GetSession_def unit_defs

theorem llm_context_all_or_nothing_witness:
  "\<exists>n. GetContextForLLM 3 ''s'' 4 demo_manager = Inr ([], n) \<and> 0 \<le> n \<and> n \<le> 4"
proof -
  obtain s where s: "GetSession 3 ''s'' demo_manager = Some s"
    "map ms_Content (se_Messages s) = [''a much longer message'', ''short'']"
    by (simp add: demo_manager_defs Let_def)
  have "message_tokens (se_Messages s) = (\<Sum>c\<leftarrow>map ms_Content (se_Messages s). int (length c) div 4)"
    by (simp add: message_tokens_def comp_def)
  then have "message_tokens (se_Messages s) = 6" using s(2) by simp
  then show ?thesis using llm_context_all_or_nothing [OF s(1), of 4] by auto
qed

section \<open>Expiry\<close>

lemma cleanup_loop_spec:
  "snd (cleanup_loop now xs r m) i = (if (\<exists>s. (i, s) \<in> set xs \<and> se_ExpiresAt s < now) then None else m i)"
  by (induction xs arbitrary: r m) auto

lemma cleanup_loop_count:
  "fst (cleanup_loop now xs r m) = r + int (length (filter (\<lambda>(i, s). se_ExpiresAt s < now) xs))"
  by (induction xs arbitrary: r m) auto

lemma distinct_range_of: "distinct ks \<Longrightarrow> distinct (map fst (range_of ks m))"
proof (induction ks)
  case (Cons k ks)
  then show ?case by (auto simp: range_of_def List.map_filter_simps set_range_of [unfolded range_of_def] split: option.splits)
qed simp

definition expired_sessions :: "gtime \<Rightarrow> context_manager \<Rightarrow> gostr set" where
  "expired_sessions now cm = {i. \<exists>s. cm_sessions cm i = Some s \<and> se_ExpiresAt s < now}"

text \<open>C36: cleaning up removes exactly the expired sessions, in whatever order the sessions are ranged over, and
  reports how many these are; readers do not notice: every lookup at the instant of the cleanup or
  later returns what it returned before.\<close>

theorem session_cleanup_invisible:
  assumes "enumerates order (cm_sessions cm)" "now \<le> later"
  shows "snd (Cleanup now order cm) = cm\<lparr>cm_sessions := cm_sessions cm |` (- expired_sessions now cm)\<rparr>
    \<and> fst (Cleanup now order cm) = int (card (expired_sessions now cm))
    \<and> GetSession later i (snd (Cleanup now order cm)) = GetSession later i cm"
proof -
  let ?r = "range_of order (cm_sessions cm)"
  let ?l = "cleanup_loop now ?r 0 (cm_sessions cm)" and ?x = "filter (\<lambda>(i, s). se_ExpiresAt s < now) (range_of order (cm_sessions cm))"
  have s: "snd (Cleanup now order cm) = cm\<lparr>cm_sessions := snd ?l\<rparr>" "fst (Cleanup now order cm) = fst ?l"
    by (simp_all add: Cleanup_def split: prod.split)
  have m: "snd ?l = cm_sessions cm |` (- expired_sessions now cm)"
    by (auto simp: fun_eq_iff cleanup_loop_spec range_of_enumerates [OF assms(1)] expired_sessions_def restrict_map_def)
  have "distinct (map fst ?x)"
    using distinct_range_of [of order "cm_sessions cm"] assms(1) by (simp add: enumerates_def distinct_map_filter)
  moreover have "set (map fst ?x) = expired_sessions now cm"
    by (force simp: expired_sessions_def range_of_enumerates [OF assms(1)])
  ultimately have "length ?x = card (expired_sessions now cm)"
    using distinct_card [of "map fst ?x"] by simp
  moreover have "GetSession later i (cm\<lparr>cm_sessions := cm_sessions cm |` (- expired_sessions now cm)\<rparr>) = GetSession later i cm"
    using assms(2) by (auto simp: GetSession_def restrict_map_def expired_sessions_def split: option.splits)
  ultimately show ?thesis unfolding s m cleanup_loop_count by simp
qed

theorem session_cleanup_invisible_witness:
  "let cm = snd (CreateSession (24 * hour) ''t'' ''t'' ''u'' demo_manager); cleaned = Cleanup (24 * hour + 5) [''t'', ''s''] cm
   in fst cleaned = 1 \<and> cm_sessions (snd cleaned) ''s'' = None \<and> cm_sessions (snd cleaned) ''t'' = cm_sessions cm ''t''"
proof -
  let ?cm = "snd (CreateSession (24 * hour) ''t'' ''t'' ''u'' demo_manager)"
  have e: "enumerates [''t'', ''s''] (cm_sessions ?cm)" by (auto simp: enumerates_def demo_manager_defs Let_def)
  have x: "expired_sessions (24 * hour + 5) ?cm = {''s''}"
    by (auto simp: expired_sessions_def demo_manager_defs Let_def split: if_splits)
  have "''t'' \<notin> {''s''}" by simp
  then show ?thesis
    using session_cleanup_invisible [OF e, of "24 * hour + 5" "24 * hour + 5"] unfolding x by (simp add: Let_def)
qed

text \<open>A session restored from JSON is expired from the start, so that no lookup finds it.\<close>

theorem session_restored_expired:
  assumes "unmarshal data = Inr ctx" "zero_time < now"
  shows "GetSession now i (snd (DeserializeContext unmarshal i data cm)) = None"
  using assms by (simp add: DeserializeContext_def GetSession_def put_session_def)

text \<open>Adding a message to an expired session that has not been cleaned up makes it live again.\<close>

theorem session_expired_revived:
  assumes "cm_ok cm" "cm_sessions cm i = Some s"
  shows "GetSession now i (snd (cm_AddMessage now i msg cm)) \<noteq> None"
  using cm_AddMessage_functional [OF assms(2), of now msg] assms(1)
  by (auto simp: GetSession_def put_session_def cm_ok_def unit_defs)

end
