(* ===== verification/Go_Sort.thy ===== *)
theory Go_Sort
  imports Gw_Prelude "HOL-Library.Product_Lexorder" "HOL-Library.Multiset"
begin

text \<open>
  The package \<open>sort\<close>. Short slices are sorted by insertion, which is stable and agrees with sorting
  by a key of the library; of the sorting of longer slices, which is not stable, only the
  documented contract is used.
\<close>

section \<open>Sorting\<close>

text \<open>
  \<open>sort.Slice\<close>: slices of at most 12 elements are sorted by insertion, which moves an element
  to the left past the larger ones; how longer slices are sorted is the argument \<open>big\<close>.
\<close>

definition insert_left :: "('a \<Rightarrow> 'a \<Rightarrow> bool) \<Rightarrow> 'a list \<Rightarrow> 'a \<Rightarrow> 'a list" where
  "insert_left lt acc x = rev (dropWhile (lt x) (rev acc)) @ [x] @ rev (takeWhile (lt x) (rev acc))"

definition insertion_sort :: "('a \<Rightarrow> 'a \<Rightarrow> bool) \<Rightarrow> 'a list \<Rightarrow> 'a list" where
  "insertion_sort lt xs = foldl (insert_left lt) [] xs"

definition sort_Slice :: "(('a \<Rightarrow> 'a \<Rightarrow> bool) \<Rightarrow> 'a list \<Rightarrow> 'a list) \<Rightarrow> ('a \<Rightarrow> 'a \<Rightarrow> bool) \<Rightarrow> 'a list \<Rightarrow> 'a list" where
  "sort_Slice big lt xs = (if length xs \<le> 12 then insertion_sort lt xs else big lt xs)"

section \<open>Insertion sort is a stable sort\<close>

lemma mset_insert_left: "mset (insert_left lt acc x) = add_mset x (mset acc)"
proof -
  have "mset (dropWhile (lt x) (rev acc)) + mset (takeWhile (lt x) (rev acc)) = mset (rev acc)"
    by (metis mset_append takeWhile_dropWhile_id union_commute)
  then show ?thesis by (simp add: insert_left_def)
qed

lemma mset_insertion_sort: "mset (insertion_sort lt xs) = mset xs"
proof -
  have "mset (foldl (insert_left lt) acc xs) = mset acc + mset xs" for acc
    by (induction xs arbitrary: acc) (simp_all add: mset_insert_left)
  then show ?thesis by (simp add: insertion_sort_def)
qed

lemma insert_left_parts:
  assumes "sorted (map k acc)"
  shows "insert_left (\<lambda>a b. k a < k b) acc x = filter (\<lambda>b. k b \<le> k x) acc @ [x] @ filter (\<lambda>b. k x < k b) acc"
  using assms
proof (induction acc rule: rev_induct)
  case (snoc y acc)
  have le: "\<forall>b\<in>set acc. k b \<le> k y" using snoc.prems by (auto simp: sorted_append)
  show ?case
  proof (cases "k x < k y")
    case True
    then show ?thesis using snoc by (auto simp: insert_left_def sorted_append)
  next
    case False
    then have "filter (\<lambda>b. k b \<le> k x) acc = acc" "filter (\<lambda>b. k x < k b) acc = []"
      using le by (auto simp: filter_empty_conv filter_id_conv)
    then show ?thesis using False by (simp add: insert_left_def)
  qed
qed (simp add: insert_left_def)

lemma insertion_sort_key:
  fixes k :: "'a \<Rightarrow> 'b::linorder"
  shows "insertion_sort (\<lambda>a b. k a < k b) xs = sort_key k xs"
proof (induction xs rule: rev_induct)
  case Nil
  show ?case by (simp add: insertion_sort_def)
next
  case (snoc x xs)
  let ?s = "sort_key k xs"
  let ?r = "filter (\<lambda>b. k b \<le> k x) ?s @ [x] @ filter (\<lambda>b. k x < k b) ?s"
  have "insertion_sort (\<lambda>a b. k a < k b) (xs @ [x]) = insert_left (\<lambda>a b. k a < k b) ?s x"
    using snoc by (simp add: insertion_sort_def)
  also have "\<dots> = ?r" by (rule insert_left_parts) simp
  also have "\<dots> = sort_key k (xs @ [x])"
  proof (rule properties_for_sort_key [symmetric])
    show "mset ?r = mset (xs @ [x])"
      by (simp add: multiset_eq_iff)
        (metis (no_types, lifting) add.commute add.left_neutral linorder_not_le)
    show "filter (\<lambda>y. k z = k y) ?r = filter (\<lambda>y. k z = k y) (xs @ [x])" for z
    proof -
      have st: "filter (\<lambda>y. k z = k y) ?s = filter (\<lambda>y. k z = k y) xs"
        using sort_key_stable [of k "k z" xs] by (simp add: eq_commute)
      show ?thesis
      proof (cases "k z \<le> k x")
        case True
        then have "filter (\<lambda>y. k z = k y) (filter (\<lambda>b. k x < k b) ?s) = []"
          "filter (\<lambda>y. k z = k y) (filter (\<lambda>b. k b \<le> k x) ?s) = filter (\<lambda>y. k z = k y) ?s"
          by (auto simp: filter_empty_conv intro!: filter_cong)
        then show ?thesis using st by (auto simp: filter_append)
      next
        case False
        then have "filter (\<lambda>y. k z = k y) (filter (\<lambda>b. k b \<le> k x) ?s) = []"
          "filter (\<lambda>y. k z = k y) (filter (\<lambda>b. k x < k b) ?s) = filter (\<lambda>y. k z = k y) ?s"
          by (auto simp: filter_empty_conv intro!: filter_cong)
        then show ?thesis using st False by (auto simp: filter_append)
      qed
    qed
    show "sorted (map k ?r)"
      by (auto simp: sorted_append sorted_filter)
  qed
  finally show ?case .
qed

lemma insertion_sort_cong:
  assumes "\<And>a b. a \<in> set xs \<Longrightarrow> b \<in> set xs \<Longrightarrow> lt a b = lt' a b"
  shows "insertion_sort lt xs = insertion_sort lt' xs"
  using assms
proof (induction xs rule: rev_induct)
  case (snoc x xs)
  have "set (insertion_sort lt' xs) = set xs" using mset_insertion_sort [of lt' xs] by (metis set_mset_mset)
  then have "takeWhile (lt x) (rev (insertion_sort lt' xs)) = takeWhile (lt' x) (rev (insertion_sort lt' xs))"
    "dropWhile (lt x) (rev (insertion_sort lt' xs)) = dropWhile (lt' x) (rev (insertion_sort lt' xs))"
    using snoc.prems by (auto intro!: takeWhile_cong dropWhile_cong)
  moreover have "insertion_sort lt xs = insertion_sort lt' xs" using snoc by simp
  ultimately show ?case by (simp add: insertion_sort_def insert_left_def)
qed (simp add: insertion_sort_def)

section \<open>The contract of sorting\<close>

definition sort_contract :: "(('a \<Rightarrow> 'a \<Rightarrow> bool) \<Rightarrow> 'a list \<Rightarrow> 'a list) \<Rightarrow> ('a \<Rightarrow> 'a \<Rightarrow> bool) \<Rightarrow> bool" where
  "sort_contract big lt \<longleftrightarrow> (\<forall>xs. mset (big lt xs) = mset xs \<and> sorted_wrt (\<lambda>a b. \<not> lt b a) (big lt xs))"

lemma insertion_sort_contract:
  fixes k :: "'a \<Rightarrow> 'b :: linorder"
  assumes "\<And>a b. lt a b \<longleftrightarrow> k a < k b"
  shows "sort_contract insertion_sort lt"
proof -
  have "lt = (\<lambda>a b. k a < k b)" using assms by (simp add: fun_eq_iff)
  moreover have "sorted_wrt (\<lambda>a b. k a \<le> k b) (sort_key k xs)" for xs
    using sorted_sort_key [of k xs] unfolding sorted_map .
  ultimately show ?thesis by (simp add: sort_contract_def mset_insertion_sort insertion_sort_key not_less)
qed

lemma sort_Slice_contract:
  fixes k :: "'a \<Rightarrow> 'b :: linorder"
  assumes "sort_contract big lt" "\<And>a b. lt a b \<longleftrightarrow> k a < k b"
  shows "mset (sort_Slice big lt xs) = mset xs" "sorted_wrt (\<lambda>a b. k a \<le> k b) (sort_Slice big lt xs)"
  using assms insertion_sort_contract [of lt k] unfolding sort_contract_def sort_Slice_def by (simp_all add: not_less)

lemma sort_Slice_set:
  fixes k :: "'a \<Rightarrow> 'b :: linorder"
  assumes "sort_contract big lt" "\<And>a b. lt a b \<longleftrightarrow> k a < k b"
  shows "set (sort_Slice big lt xs) = set xs"
  by (rule mset_eq_setD [OF sort_Slice_contract(1) [OF assms]])

text \<open>The first element that satisfies a condition has the least key of all that do.\<close>

lemma sort_Slice_find:
  fixes k :: "'a \<Rightarrow> 'b :: linorder"
  assumes "sort_contract big lt" "\<And>a b. lt a b \<longleftrightarrow> k a < k b" "find P (sort_Slice big lt xs) = Some x"
  shows "x \<in> set xs" "P x" "\<And>y. y \<in> set xs \<Longrightarrow> P y \<Longrightarrow> k x \<le> k y"
proof -
  let ?s = "sort_Slice big lt xs"
  note c = sort_Slice_contract(2) [OF assms(1,2), of xs] and st = sort_Slice_set [OF assms(1,2), of xs]
  obtain i where i: "i < length ?s" "P (?s ! i)" "x = ?s ! i" "\<forall>j < i. \<not> P (?s ! j)"
    using assms(3) by (auto simp: find_Some_iff)
  show "P x" using i by simp
  show "x \<in> set xs" using i(1,3) nth_mem [OF i(1)] by (simp add: st)
  show "k x \<le> k y" if "y \<in> set xs" "P y" for y
  proof -
    have "y \<in> set ?s" using that(1) st by simp
    then obtain j where j: "j < length ?s" "y = ?s ! j" by (auto simp: in_set_conv_nth)
    then have "i \<le> j" using i(4) that(2) not_le by blast
    then show ?thesis using sorted_wrt_nth_less [OF c, of i j] i(3) j by (cases "i = j") simp_all
  qed
qed

end
