(* ===== verification/Task_Plan.thy ===== *)
theory Task_Plan
  imports Go_Strings Go_Float Go_Sort
begin

text \<open>
  \<open>internal/agent/planner\<close>: goals and tasks (\<open>types.go\<close>), the decomposer and the prioritizer
  (\<open>decomposer.go\<close>) and the plan adaptor (\<open>executor.go\<close>). What a \<open>NewTask\<close> reads from the
  clock is an argument of type \<open>fresh\<close>: the instant, its text in the layout
  \<open>20060102150405\<close> and the nanosecond readings of \<open>randomString\<close>. A nil metadata map is
  \<open>None\<close>; writing to it panics, which is \<open>None\<close> again. The metadata of a task is the last
  field of its record, so that \<open>task_core\<close> is a task without it.
\<close>

section \<open>Goals and tasks\<close>

datatype goal_status = GoalStatusPending | GoalStatusActive | GoalStatusCompleted | GoalStatusFailed
  | GoalStatusCancelled

datatype constraint_type = ConstraintTypeTime | ConstraintTypeQuality | ConstraintTypeCost | ConstraintTypeRisk

datatype task_status = TaskStatusPending | TaskStatusReady | TaskStatusRunning | TaskStatusCompleted
  | TaskStatusFailed | TaskStatusRetrying | TaskStatusSkipped

datatype feedback_type = FeedbackTypeSuccess | FeedbackTypeFailure | FeedbackTypeSlow
  | FeedbackTypeQualityIssue | FeedbackTypeUserInput

datatype planner_error = ErrGoalNotFound | ErrTaskNotFound | ErrInvalidGoal | ErrInvalidTask
  | ErrMaxRetriesExceeded | ErrDeadlineMissed | ErrText gostr | ErrCtx gostr

record goal_constraint =
  gc_Type :: constraint_type
  gc_Weight :: rat
  gc_Priority :: int

record objective =
  ob_ID :: gostr
  ob_Description :: gostr
  ob_Completed :: bool
  ob_Priority :: int
  ob_DependsOn :: "gostr list"

record goal =
  g_ID :: gostr
  g_Description :: gostr
  g_Constraints :: "goal_constraint list"
  g_Objectives :: "objective list"
  g_Status :: goal_status
  g_CreatedAt :: gtime
  g_Deadline :: "gtime option"
  g_Metadata :: "(gostr, pval) gomap option"

record task_result =
  tr_Success :: bool
  tr_Output :: "pval option"
  tr_Error :: gostr
  tr_Metrics :: "(gostr, float64) gomap option"

record task_core =
  t_ID :: gostr
  t_GoalID :: gostr
  t_Description :: gostr
  t_Status :: task_status
  t_Priority :: int
  t_Dependencies :: "gostr list"
  t_RetryCount :: int
  t_MaxRetries :: int
  t_Timeout :: duration
  t_Result :: "task_result option"
  t_CreatedAt :: gtime
  t_StartedAt :: "gtime option"
  t_CompletedAt :: "gtime option"

record task = task_core +
  t_Metadata :: "(gostr, pval) gomap option"

record feedback =
  fb_Type :: feedback_type
  fb_Message :: gostr
  fb_Metrics :: "(gostr, float64) gomap option"

record fresh =
  fr_now :: gtime
  fr_stamp :: gostr
  fr_nanos :: "nat \<Rightarrow> nat"

definition id_charset :: gostr where "id_charset = ''abcdefghijklmnopqrstuvwxyz0123456789''"

definition randomString :: "(nat \<Rightarrow> nat) \<Rightarrow> nat \<Rightarrow> gostr" where
  "randomString nanos len = map (\<lambda>i. id_charset ! (nanos i mod length id_charset)) [0..<len]"

definition generateGoalID :: "fresh \<Rightarrow> gostr" where
  "generateGoalID fr = ''goal-'' @ fr_stamp fr @ ''-'' @ randomString (fr_nanos fr) 6"

definition generateObjectiveID :: "fresh \<Rightarrow> gostr" where
  "generateObjectiveID fr = ''obj-'' @ fr_stamp fr @ ''-'' @ randomString (fr_nanos fr) 6"

definition generateTaskID :: "fresh \<Rightarrow> gostr" where
  "generateTaskID fr = ''task-'' @ fr_stamp fr @ ''-'' @ randomString (fr_nanos fr) 6"

definition NewGoal :: "fresh \<Rightarrow> gostr \<Rightarrow> goal" where
  "NewGoal fr description = \<lparr>g_ID = generateGoalID fr, g_Description = description, g_Constraints = [],
     g_Objectives = [], g_Status = GoalStatusPending, g_CreatedAt = fr_now fr, g_Deadline = None,
     g_Metadata = Some Map.empty\<rparr>"

definition g_WithConstraint :: "constraint_type \<Rightarrow> rat \<Rightarrow> goal \<Rightarrow> goal" where
  "g_WithConstraint ty weight g =
     g\<lparr>g_Constraints := g_Constraints g @ [\<lparr>gc_Type = ty, gc_Weight = weight, gc_Priority = 0\<rparr>]\<rparr>"

definition g_WithObjective :: "fresh \<Rightarrow> gostr \<Rightarrow> int \<Rightarrow> goal \<Rightarrow> goal" where
  "g_WithObjective fr description priority g = g\<lparr>g_Objectives := g_Objectives g @
     [\<lparr>ob_ID = generateObjectiveID fr, ob_Description = description, ob_Completed = False,
       ob_Priority = priority, ob_DependsOn = []\<rparr>]\<rparr>"

definition g_WithDeadline :: "gtime \<Rightarrow> goal \<Rightarrow> goal" where
  "g_WithDeadline deadline g = g\<lparr>g_Deadline := Some deadline\<rparr>"

definition g_AddMetadata :: "gostr \<Rightarrow> pval \<Rightarrow> goal \<Rightarrow> goal option" where
  "g_AddMetadata key v g = map_option (\<lambda>m. g\<lparr>g_Metadata := Some (m(key \<mapsto> v))\<rparr>) (g_Metadata g)"

definition NewTask :: "fresh \<Rightarrow> gostr \<Rightarrow> gostr \<Rightarrow> task" where
  "NewTask fr goalID description = \<lparr>t_ID = generateTaskID fr, t_GoalID = goalID, t_Description = description,
     t_Status = TaskStatusPending, t_Priority = 0, t_Dependencies = [], t_RetryCount = 0, t_MaxRetries = 3,
     t_Timeout = 5 * minute, t_Result = None, t_CreatedAt = fr_now fr, t_StartedAt = None,
     t_CompletedAt = None, t_Metadata = Some Map.empty\<rparr>"

definition t_WithPriority :: "int \<Rightarrow> task \<Rightarrow> task" where
  "t_WithPriority priority t = t\<lparr>t_Priority := priority\<rparr>"

definition t_WithDependencies :: "gostr list \<Rightarrow> task \<Rightarrow> task" where
  "t_WithDependencies deps t = t\<lparr>t_Dependencies := t_Dependencies t @ deps\<rparr>"

definition t_WithTimeout :: "duration \<Rightarrow> task \<Rightarrow> task" where
  "t_WithTimeout timeout t = t\<lparr>t_Timeout := timeout\<rparr>"

definition t_WithMaxRetries :: "int \<Rightarrow> task \<Rightarrow> task" where
  "t_WithMaxRetries maxRetries t = t\<lparr>t_MaxRetries := maxRetries\<rparr>"

definition t_AddMetadata :: "gostr \<Rightarrow> pval \<Rightarrow> task \<Rightarrow> task option" where
  "t_AddMetadata key v t = map_option (\<lambda>m. t\<lparr>t_Metadata := Some (m(key \<mapsto> v))\<rparr>) (t_Metadata t)"

definition CanExecute :: "(gostr, bool) gomap \<Rightarrow> task \<Rightarrow> bool" where
  "CanExecute completedTasks t = list_all (\<lambda>dep. map_get False completedTasks dep) (t_Dependencies t)"

definition IsDeadlineMissed :: "gtime \<Rightarrow> goal \<Rightarrow> bool" where
  "IsDeadlineMissed now g = (case g_Deadline g of None \<Rightarrow> False | Some d \<Rightarrow> time_after now d)"

definition IsComplete :: "goal \<Rightarrow> bool" where
  "IsComplete g = list_all ob_Completed (g_Objectives g)"

section \<open>The decomposer\<close>

record decomposer =
  d_maxSubtasks :: int

definition NewDecomposer :: "int \<Rightarrow> decomposer" where
  "NewDecomposer maxSubtasks = \<lparr>d_maxSubtasks = (if maxSubtasks \<le> 0 then 10 else maxSubtasks)\<rparr>"

definition findTaskID :: "gostr \<Rightarrow> gostr \<Rightarrow> gostr" where
  "findTaskID goalID phase = goalID @ ''-'' @ phase"

definition containsAny :: "gostr \<Rightarrow> gostr list \<Rightarrow> bool" where
  "containsAny s substrings = list_ex (\<lambda>sub. str_contains (to_lower s) sub) substrings"

text \<open>\<open>AddMetadata\<close> on a task that \<open>NewTask\<close> has just made, whose map is never nil.\<close>

definition add_meta :: "gostr \<Rightarrow> gostr \<Rightarrow> task \<Rightarrow> task" where
  "add_meta key v t = (case t_AddMetadata key (PString v) t of Some t' \<Rightarrow> t' | None \<Rightarrow> t)"

definition createAnalysisTask :: "fresh \<Rightarrow> goal \<Rightarrow> task" where
  "createAnalysisTask fr goal = add_meta ''phase'' ''analysis'' (t_WithPriority 100
     (NewTask fr (g_ID goal) (''Analyze goal: '' @ g_Description goal)))"

definition createPlanningTask :: "fresh \<Rightarrow> goal \<Rightarrow> task" where
  "createPlanningTask fr goal = add_meta ''phase'' ''planning''
     (t_WithDependencies [findTaskID (g_ID goal) ''analysis''] (t_WithPriority 90
     (NewTask fr (g_ID goal) (''Create plan for: '' @ g_Description goal))))"

text \<open>The eight \<open>create...Task\<close> methods of the execution phase set the same fields.\<close>

definition exec_task :: "gostr \<Rightarrow> int \<Rightarrow> gostr \<Rightarrow> duration \<Rightarrow> gostr \<Rightarrow> fresh \<Rightarrow> goal \<Rightarrow> task" where
  "exec_task description priority dep timeout ty fr goal =
     add_meta ''type'' ty (add_meta ''phase'' ''execution'' (t_WithTimeout timeout
       (t_WithDependencies [findTaskID (g_ID goal) dep] (t_WithPriority priority
       (NewTask fr (g_ID goal) description)))))"

definition createRetrievalTask :: "fresh \<Rightarrow> goal \<Rightarrow> task" where
  "createRetrievalTask = exec_task ''Retrieve relevant information'' 80 ''planning'' (2 * minute) ''retrieval''"

definition createGenerationTask :: "fresh \<Rightarrow> goal \<Rightarrow> task" where
  "createGenerationTask = exec_task ''Generate output based on retrieved information'' 70 ''execution''
     (3 * minute) ''generation''"

definition createModificationTask :: "fresh \<Rightarrow> goal \<Rightarrow> task" where
  "createModificationTask = exec_task ''Modify existing content'' 75 ''planning'' (2 * minute) ''modification''"

definition createDeletionTask :: "fresh \<Rightarrow> goal \<Rightarrow> task" where
  "createDeletionTask = exec_task ''Remove target content'' 60 ''planning'' (1 * minute) ''deletion''"

definition createAnalysisSubtask :: "fresh \<Rightarrow> goal \<Rightarrow> task" where
  "createAnalysisSubtask = exec_task ''Perform detailed analysis'' 70 ''planning'' (3 * minute) ''analysis''"

definition createComparisonTask :: "fresh \<Rightarrow> goal \<Rightarrow> task" where
  "createComparisonTask = exec_task ''Compare and contrast elements'' 70 ''planning'' (3 * minute) ''comparison''"

definition createSummaryTask :: "fresh \<Rightarrow> goal \<Rightarrow> task" where
  "createSummaryTask = exec_task ''Generate summary'' 65 ''planning'' (2 * minute) ''summary''"

definition createExplanationTask :: "fresh \<Rightarrow> goal \<Rightarrow> task" where
  "createExplanationTask = exec_task ''Provide explanation'' 65 ''planning'' (2 * minute) ''explanation''"

definition createGenericExecutionTask :: "fresh \<Rightarrow> goal \<Rightarrow> task" where
  "createGenericExecutionTask = exec_task ''Execute main task'' 70 ''planning'' (5 * minute) ''generic''"

definition createValidationTask :: "fresh \<Rightarrow> goal \<Rightarrow> task" where
  "createValidationTask fr goal = add_meta ''phase'' ''validation'' (t_WithTimeout (1 * minute)
     (t_WithPriority 50 (NewTask fr (g_ID goal) ''Validate results against constraints'')))"

definition createRecoveryTask :: "fresh \<Rightarrow> goal \<Rightarrow> task" where
  "createRecoveryTask fr goal = add_meta ''reason'' ''deadline_missed'' (add_meta ''phase'' ''recovery''
     (t_WithPriority 200 (NewTask fr (g_ID goal) ''Recovery from deadline miss'')))"

text \<open>
  Which execution tasks a description asks for, in the order of the code; the \<open>n\<close>-th task
  made reads the clock as \<open>fr n\<close>.
\<close>

definition execution_makers :: "gostr \<Rightarrow> (fresh \<Rightarrow> goal \<Rightarrow> task) list" where
  "execution_makers description =
     (if containsAny description [''search'', ''find'', ''retrieve'', ''fetch''] then [createRetrievalTask] else [])
   @ (if containsAny description [''create'', ''generate'', ''build'', ''make''] then [createGenerationTask] else [])
   @ (if containsAny description [''update'', ''modify'', ''change'', ''edit''] then [createModificationTask] else [])
   @ (if containsAny description [''delete'', ''remove'', ''clear''] then [createDeletionTask] else [])
   @ (if containsAny description [''analyze'', ''evaluate'', ''assess''] then [createAnalysisSubtask] else [])
   @ (if containsAny description [''compare'', ''contrast'', ''differentiate''] then [createComparisonTask] else [])
   @ (if containsAny description [''summarize'', ''summarise'', ''condense''] then [createSummaryTask] else [])
   @ (if containsAny description [''explain'', ''describe'', ''clarify''] then [createExplanationTask] else [])"

definition createExecutionTasks :: "(nat \<Rightarrow> fresh) \<Rightarrow> nat \<Rightarrow> goal \<Rightarrow> task list" where
  "createExecutionTasks fr n goal =
     (let makers = execution_makers (to_lower (g_Description goal));
          makers = (case makers of [] \<Rightarrow> [createGenericExecutionTask] | _ \<Rightarrow> makers)
      in map (\<lambda>(i, mk). mk (fr i) goal) (enumerate n makers))"

section \<open>The prioritizer\<close>

definition compareTasks :: "task \<Rightarrow> task \<Rightarrow> int" where
  "compareTasks a b =
     (if t_Priority a \<noteq> t_Priority b then wrap64 (t_Priority b - t_Priority a)
      else if length (t_Dependencies a) \<noteq> length (t_Dependencies b)
      then int (length (t_Dependencies a)) - int (length (t_Dependencies b)) else 0)"

definition getCompletedTasksMap :: "task list \<Rightarrow> (gostr, bool) gomap" where
  "getCompletedTasksMap ts =
     foldl (\<lambda>m t. if t_Status t = TaskStatusCompleted then m(t_ID t \<mapsto> True) else m) Map.empty ts"

fun mark_ready :: "task list \<Rightarrow> task list \<Rightarrow> task list" where
  "mark_ready pre [] = pre"
| "mark_ready pre (t # ts) = mark_ready
     (pre @ [if CanExecute (getCompletedTasksMap pre) t then t\<lparr>t_Status := TaskStatusReady\<rparr> else t]) ts"

definition PrioritizeTasks :: "((task \<Rightarrow> task \<Rightarrow> bool) \<Rightarrow> task list \<Rightarrow> task list) \<Rightarrow> task list \<Rightarrow> task list" where
  "PrioritizeTasks big tasks = mark_ready [] (sort_Slice big (\<lambda>a b. compareTasks a b < 0) tasks)"

definition DecomposeGoal :: "((task \<Rightarrow> task \<Rightarrow> bool) \<Rightarrow> task list \<Rightarrow> task list) \<Rightarrow> gtime \<Rightarrow> (nat \<Rightarrow> fresh)
    \<Rightarrow> goal \<Rightarrow> planner_error + task list" where
  "DecomposeGoal big now fr goal =
     (if g_Description goal = '''' then Inl ErrInvalidGoal
      else let tasks = [createAnalysisTask (fr 0) goal, createPlanningTask (fr 1) goal];
               tasks = tasks @ createExecutionTasks fr 2 goal;
               tasks = tasks @ [createValidationTask (fr (length tasks)) goal];
               tasks = (if IsDeadlineMissed now goal
                        then tasks @ [createRecoveryTask (fr (length tasks)) goal] else tasks)
           in Inr (PrioritizeTasks big tasks))"

section \<open>The plan adaptor\<close>

definition handleFailureAdaptation :: "(nat \<Rightarrow> fresh) \<Rightarrow> goal \<Rightarrow> feedback \<Rightarrow> task list" where
  "handleFailureAdaptation fr goal fb =
     (let recoveryTask = add_meta ''reason'' ''failure'' (add_meta ''phase'' ''recovery'' (t_WithPriority 150
            (NewTask (fr 0) (g_ID goal) (''Recovery from failure: '' @ fb_Message fb))));
          recoveryTask = (case t_AddMetadata ''metrics'' (PMetrics (fb_Metrics fb)) recoveryTask of
            Some t \<Rightarrow> t | None \<Rightarrow> recoveryTask);
          analysisTask = add_meta ''phase'' ''analysis'' (t_WithDependencies [t_ID recoveryTask]
            (t_WithPriority 140 (NewTask (fr 1) (g_ID goal) ''Analyze failure root cause'')))
      in [recoveryTask, analysisTask])"

definition handleSlowAdaptation :: "(nat \<Rightarrow> fresh) \<Rightarrow> goal \<Rightarrow> feedback \<Rightarrow> task list" where
  "handleSlowAdaptation fr goal fb = [add_meta ''reason'' ''performance'' (add_meta ''phase'' ''optimization''
     (t_WithPriority 120 (NewTask (fr 0) (g_ID goal) ''Optimize slow task'')))]"

definition handleQualityAdaptation :: "(nat \<Rightarrow> fresh) \<Rightarrow> goal \<Rightarrow> feedback \<Rightarrow> task list" where
  "handleQualityAdaptation fr goal fb =
     [add_meta ''reason'' ''quality'' (add_meta ''phase'' ''revision'' (t_WithPriority 130
        (NewTask (fr 0) (g_ID goal) (''Revise output for quality: '' @ fb_Message fb)))),
      add_meta ''reason'' ''quality'' (add_meta ''phase'' ''validation'' (t_WithPriority 125
        (NewTask (fr 1) (g_ID goal) ''Enhanced validation'')))]"

definition handleUserInputAdaptation :: "(nat \<Rightarrow> fresh) \<Rightarrow> goal \<Rightarrow> feedback \<Rightarrow> task list" where
  "handleUserInputAdaptation fr goal fb = [add_meta ''reason'' ''user_input'' (add_meta ''phase'' ''incorporation''
     (t_WithPriority 160 (NewTask (fr 0) (g_ID goal) (''Incorporate user feedback: '' @ fb_Message fb))))]"

definition AdaptPlan :: "(nat \<Rightarrow> fresh) \<Rightarrow> goal \<Rightarrow> feedback \<Rightarrow> planner_error + task list" where
  "AdaptPlan fr goal fb = (case fb_Type fb of
     FeedbackTypeFailure \<Rightarrow> Inr (handleFailureAdaptation fr goal fb)
   | FeedbackTypeSlow \<Rightarrow> Inr (handleSlowAdaptation fr goal fb)
   | FeedbackTypeQualityIssue \<Rightarrow> Inr (handleQualityAdaptation fr goal fb)
   | FeedbackTypeUserInput \<Rightarrow> Inr (handleUserInputAdaptation fr goal fb)
   | FeedbackTypeSuccess \<Rightarrow> Inl (ErrText ''unknown feedback type: success''))"

section \<open>The prioritizer sorts and marks\<close>

definition task_key :: "task \<Rightarrow> int \<times> nat" where
  "task_key t = (- t_Priority t, length (t_Dependencies t))"

definition small_priority :: "task \<Rightarrow> bool" where
  "small_priority t \<longleftrightarrow> \<bar>t_Priority t\<bar> < 2 ^ 62"

lemma compareTasks_key:
  assumes "small_priority a" "small_priority b"
  shows "compareTasks a b < 0 \<longleftrightarrow> task_key a < task_key b"
proof -
  have "is_int64 (t_Priority b - t_Priority a)" using assms by (auto simp: small_priority_def is_int64_def)
  then show ?thesis by (auto simp: compareTasks_def task_key_def)
qed

lemma sort_Slice_tasks:
  assumes "length ts \<le> 12" "\<forall>t\<in>set ts. small_priority t"
  shows "sort_Slice big (\<lambda>a b. compareTasks a b < 0) ts = sort_key task_key ts"
proof -
  have "insertion_sort (\<lambda>a b. compareTasks a b < 0) ts = insertion_sort (\<lambda>a b. task_key a < task_key b) ts"
    using assms(2) by (intro insertion_sort_cong) (simp add: compareTasks_key)
  then show ?thesis using assms(1) by (simp add: sort_Slice_def insertion_sort_key)
qed

lemma getCompletedTasksMap_iff:
  "getCompletedTasksMap ts i = (if \<exists>t\<in>set ts. t_ID t = i \<and> t_Status t = TaskStatusCompleted then Some True else None)"
  unfolding getCompletedTasksMap_def by (induction ts rule: rev_induct) auto

lemma CanExecute_completed:
  "CanExecute (getCompletedTasksMap ts) t \<longleftrightarrow>
     (\<forall>d\<in>set (t_Dependencies t). \<exists>u\<in>set ts. t_ID u = d \<and> t_Status u = TaskStatusCompleted)"
  by (auto simp: CanExecute_def list_all_iff map_get_def getCompletedTasksMap_iff split: if_splits)

lemma mark_ready_take: "\<exists>us. mark_ready pre ts = pre @ us \<and> length us = length ts"
proof (induction pre ts rule: mark_ready.induct)
  case (2 pre t ts)
  then show ?case by (metis append.assoc append_Cons append_Nil length_Cons mark_ready.simps(2))
qed simp

lemma mark_ready_nth:
  "length pre \<le> i \<Longrightarrow> i < length pre + length ts \<Longrightarrow> mark_ready pre ts ! i =
     (if CanExecute (getCompletedTasksMap (take i (mark_ready pre ts))) (ts ! (i - length pre))
      then (ts ! (i - length pre))\<lparr>t_Status := TaskStatusReady\<rparr> else ts ! (i - length pre))"
proof (induction pre ts rule: mark_ready.induct)
  case (2 pre t ts)
  show ?case
  proof (cases "i = length pre")
    case True
    let ?u = "if CanExecute (getCompletedTasksMap pre) t then t\<lparr>t_Status := TaskStatusReady\<rparr> else t"
    obtain us where "mark_ready (pre @ [?u]) ts = (pre @ [?u]) @ us" using mark_ready_take by blast
    then show ?thesis using True by (simp add: nth_append)
  next
    case False
    have "i - length pre = Suc (i - Suc (length pre))" using False "2.prems" by simp
    then show ?thesis using 2 False by simp
  qed
qed simp

lemma length_mark_ready [simp]: "length (mark_ready pre ts) = length pre + length ts"
  using mark_ready_take [of pre ts] by auto

lemma plan_prioritized_nth:
  assumes "length ts \<le> 12" "\<forall>t\<in>set ts. small_priority t" "i < length ts"
  shows "length (PrioritizeTasks big ts) = length ts \<and>
    PrioritizeTasks big ts ! i =
      (let t = sort_key task_key ts ! i
       in if \<forall>d\<in>set (t_Dependencies t). \<exists>j<i. t_ID (PrioritizeTasks big ts ! j) = d \<and>
               t_Status (PrioritizeTasks big ts ! j) = TaskStatusCompleted
          then t\<lparr>t_Status := TaskStatusReady\<rparr> else t)"
proof -
  let ?s = "sort_key task_key ts"
  have p: "PrioritizeTasks big ts = mark_ready [] ?s"
    using sort_Slice_tasks [OF assms(1,2)] by (simp add: PrioritizeTasks_def)
  let ?m = "mark_ready [] ?s"
  have "(\<exists>u\<in>set (take i ?m). t_ID u = d \<and> t_Status u = TaskStatusCompleted) \<longleftrightarrow>
      (\<exists>j<i. t_ID (?m ! j) = d \<and> t_Status (?m ! j) = TaskStatusCompleted)" for d
    using assms(3) by (force simp: set_conv_nth)
  then have e: "CanExecute (getCompletedTasksMap (take i ?m)) t \<longleftrightarrow> (\<forall>d\<in>set (t_Dependencies t).
      \<exists>j<i. t_ID (?m ! j) = d \<and> t_Status (?m ! j) = TaskStatusCompleted)" for t
    by (simp add: CanExecute_completed)
  have "?m ! i = (if CanExecute (getCompletedTasksMap (take i ?m)) (?s ! i)
      then (?s ! i)\<lparr>t_Status := TaskStatusReady\<rparr> else ?s ! i)"
    using mark_ready_nth [of "[]" i ?s] assms(3) by simp
  then show ?thesis unfolding p Let_def e by (simp split del: if_split)
qed

text \<open>C37: on at most twelve tasks, which \<open>sort.Slice\<close> sorts by insertion, with priorities between \<open>- 2\<^sup>6\<^sup>2\<close> and
  \<open>2\<^sup>6\<^sup>2\<close>, which do not overflow when subtracted, the
  prioritizer agrees with a stable sort by falling priority and then by number of dependencies,
  after which a task is marked ready exactly when everything it depends on is completed earlier
  in the result; nothing else of a task changes.\<close>

theorem plan_prioritized:
  assumes "length ts \<le> 12" "\<forall>t\<in>set ts. small_priority t" "i < length ts"
  shows "length (PrioritizeTasks big ts) = length ts \<and>
    PrioritizeTasks big ts ! i =
      (let t = sort_key task_key ts ! i
       in if \<forall>d\<in>set (t_Dependencies t). \<exists>j<i. t_ID (PrioritizeTasks big ts ! j) = d \<and>
               t_Status (PrioritizeTasks big ts ! j) = TaskStatusCompleted
          then t\<lparr>t_Status := TaskStatusReady\<rparr> else t)"
  using assms by (rule plan_prioritized_nth)

text \<open>
  A task without dependencies that was completed is handed out again as ready, and a task that
  depends on it does not become ready: the loop overwrites the status it looks at later.
\<close>

lemma mark_ready_forgets:
  assumes "i < length ts" "t_Dependencies (ts ! i) = []"
  shows "t_Status (mark_ready [] ts ! i) = TaskStatusReady"
  using mark_ready_nth [of "[]" i ts] assms by (simp add: CanExecute_def)

section \<open>Plans\<close>

definition plan_tasks :: "gtime \<Rightarrow> (nat \<Rightarrow> fresh) \<Rightarrow> goal \<Rightarrow> task list" where
  "plan_tasks now fr goal =
     (let ts = createExecutionTasks fr 2 goal
      in [createAnalysisTask (fr 0) goal, createPlanningTask (fr 1) goal] @ ts
         @ [createValidationTask (fr (2 + length ts)) goal]
         @ (if IsDeadlineMissed now goal then [createRecoveryTask (fr (3 + length ts)) goal] else []))"

lemma DecomposeGoal_plan:
  "g_Description goal \<noteq> [] \<Longrightarrow> DecomposeGoal big now fr goal = Inr (PrioritizeTasks big (plan_tasks now fr goal))"
  by (simp add: DecomposeGoal_def plan_tasks_def Let_def eval_nat_numeral)

definition planned :: "goal \<Rightarrow> task \<Rightarrow> bool" where
  "planned goal t \<longleftrightarrow> (\<exists>fr. t_ID t = generateTaskID fr) \<and> t_GoalID t = g_ID goal \<and>
     t_Status t = TaskStatusPending \<and> 50 \<le> t_Priority t \<and> t_Priority t \<le> 200 \<and>
     set (t_Dependencies t) \<subseteq> range (findTaskID (g_ID goal))"

lemmas task_builders = NewTask_def t_WithPriority_def t_WithDependencies_def t_WithTimeout_def add_meta_def
  t_AddMetadata_def

lemma planned_exec_task: "50 \<le> p \<Longrightarrow> p \<le> 200 \<Longrightarrow> planned goal (exec_task desc p dep to ty fr goal)"
  by (auto simp: planned_def exec_task_def task_builders)

lemmas makers = createRetrievalTask_def createGenerationTask_def createModificationTask_def
  createDeletionTask_def createAnalysisSubtask_def createComparisonTask_def createSummaryTask_def
  createExplanationTask_def createGenericExecutionTask_def

lemma execution_makers_planned: "mk \<in> set (execution_makers d) \<Longrightarrow> planned goal (mk fr goal)"
  unfolding execution_makers_def makers by (auto simp: planned_exec_task split: if_splits)

lemma execution_makers_length: "length (execution_makers d) \<le> 8"
  by (simp add: execution_makers_def)

lemma createExecutionTasks_planned: "t \<in> set (createExecutionTasks fr n goal) \<Longrightarrow> planned goal t"
  by (auto simp: createExecutionTasks_def Let_def enumerate_eq_zip execution_makers_planned makers
      planned_exec_task dest!: set_zip_rightD split: list.splits)
    (metis execution_makers_planned list.set_intros)+

lemma createExecutionTasks_length:
  "1 \<le> length (createExecutionTasks fr n goal) \<and> length (createExecutionTasks fr n goal) \<le> 8"
  using execution_makers_length [of "to_lower (g_Description goal)"]
  by (auto simp: createExecutionTasks_def Let_def split: list.splits)

lemma plan_tasks_planned: "t \<in> set (plan_tasks now fr goal) \<Longrightarrow> planned goal t"
proof -
  have "planned goal (createAnalysisTask f goal)" "planned goal (createPlanningTask f goal)"
    "planned goal (createValidationTask f goal)" "planned goal (createRecoveryTask f goal)" for f
    by (auto simp: planned_def createAnalysisTask_def createPlanningTask_def createValidationTask_def
        createRecoveryTask_def task_builders)
  then show "t \<in> set (plan_tasks now fr goal) \<Longrightarrow> planned goal t"
    by (auto simp: plan_tasks_def Let_def createExecutionTasks_planned split: if_splits)
qed

lemma plan_tasks_length: "4 \<le> length (plan_tasks now fr goal) \<and> length (plan_tasks now fr goal) \<le> 12"
  using createExecutionTasks_length [of fr 2 goal] by (simp add: plan_tasks_def Let_def)

lemma plan_tasks_small: "\<forall>t\<in>set (plan_tasks now fr goal). small_priority t"
  using plan_tasks_planned by (fastforce simp: planned_def small_priority_def)

lemma sorted_map_fst: "sorted (xs :: (int \<times> nat) list) \<Longrightarrow> sorted (map fst xs)"
  by (induction xs) (auto simp: less_eq_prod_def)

lemma planned_pending: "planned goal t \<Longrightarrow> t_Status t = TaskStatusPending"
  by (simp add: planned_def)

lemma decompose_nth:
  assumes "i < length (plan_tasks now fr goal)"
  shows "planned goal (sort_key task_key (plan_tasks now fr goal) ! i) \<and>
    PrioritizeTasks big (plan_tasks now fr goal) ! i =
      (let t = sort_key task_key (plan_tasks now fr goal) ! i
       in if t_Dependencies t = [] then t\<lparr>t_Status := TaskStatusReady\<rparr> else t)"
  using assms unfolding Let_def
proof (induction i rule: less_induct)
  case (less i)
  let ?s = "sort_key task_key (plan_tasks now fr goal)"
  let ?p = "PrioritizeTasks big (plan_tasks now fr goal)"
  have pl: "planned goal (?s ! j)" if "j < length (plan_tasks now fr goal)" for j
    using plan_tasks_planned that by (metis length_sort nth_mem set_sort)
  have "t_Status (?p ! j) \<noteq> TaskStatusCompleted" if "j < i" for j
  proof -
    have "j < length (plan_tasks now fr goal)" using that less.prems by simp
    then show ?thesis using less.IH [OF that] planned_pending [OF pl, of j] by auto
  qed
  then have "(\<forall>d\<in>set (t_Dependencies (?s ! i)). \<exists>j<i. t_ID (?p ! j) = d \<and> t_Status (?p ! j) = TaskStatusCompleted)
      \<longleftrightarrow> t_Dependencies (?s ! i) = []"
    by (metis empty_iff list.set(1) list.set_intros(1) neq_Nil_conv)
  then show ?case
    using plan_prioritized_nth [of "plan_tasks now fr goal" i big] plan_tasks_length [of now fr goal]
      plan_tasks_small less.prems pl [OF less.prems] by (simp add: Let_def)
qed

text \<open>C38: decomposing a goal with a description returns between four and twelve tasks of that goal,
  in order of falling priority, and exactly the tasks without dependencies are ready, the others
  pending.\<close>

theorem plan_shape:
  assumes "g_Description goal \<noteq> []"
  shows "\<exists>ts. DecomposeGoal big now fr goal = Inr ts \<and> 4 \<le> length ts \<and> length ts \<le> 12 \<and>
    sorted (map (\<lambda>t. - t_Priority t) ts) \<and>
    (\<forall>t\<in>set ts. t_GoalID t = g_ID goal \<and>
       t_Status t = (if t_Dependencies t = [] then TaskStatusReady else TaskStatusPending))"
proof -
  let ?l = "plan_tasks now fr goal"
  let ?p = "PrioritizeTasks big ?l"
  have len: "length ?p = length ?l"
    using plan_tasks_length plan_tasks_small by (simp add: PrioritizeTasks_def sort_Slice_tasks)
  have nth: "t_GoalID (?p ! i) = g_ID goal \<and>
      t_Status (?p ! i) = (if t_Dependencies (?p ! i) = [] then TaskStatusReady else TaskStatusPending) \<and>
      t_Priority (?p ! i) = t_Priority (sort_key task_key ?l ! i)" if "i < length ?l" for i
    using decompose_nth [OF that, of big] by (auto simp: planned_def Let_def)
  have "sorted (map task_key (sort_key task_key ?l))" by simp
  then have "sorted (map fst (map task_key (sort_key task_key ?l)))"
    by (rule sorted_map_fst)
  moreover have "map (\<lambda>t. - t_Priority t) ?p = map fst (map task_key (sort_key task_key ?l))"
    by (rule nth_equalityI) (use nth len in \<open>simp_all add: task_key_def\<close>)
  ultimately have "sorted (map (\<lambda>t. - t_Priority t) ?p)" by simp
  moreover have "t_GoalID t = g_ID goal \<and> t_Status t = (if t_Dependencies t = [] then TaskStatusReady else TaskStatusPending)"
    if t: "t \<in> set ?p" for t
  proof -
    obtain i where "i < length ?p" "t = ?p ! i" using t by (auto simp: in_set_conv_nth)
    then show ?thesis using nth [of i] len by auto
  qed
  ultimately show ?thesis
    using DecomposeGoal_plan [OF assms, of big now fr] plan_tasks_length [of now fr goal] len by simp
qed

definition demo_fresh :: "nat \<Rightarrow> fresh" where
  "demo_fresh n = \<lparr>fr_now = int n, fr_stamp = ''20260101000000'', fr_nanos = (\<lambda>i. 7 * n + i)\<rparr>"

definition demo_goal :: goal where
  "demo_goal = NewGoal (demo_fresh 0) ''Compare two reports''"

theorem plan_shape_witness:
  "\<exists>ts. DecomposeGoal (\<lambda>_. id) 0 demo_fresh demo_goal = Inr ts \<and> 4 \<le> length ts \<and>
     sorted (map (\<lambda>t. - t_Priority t) ts)"
  using plan_shape [of demo_goal "\<lambda>_. id" 0 demo_fresh] by (auto simp: demo_goal_def NewGoal_def)

text \<open>The dependencies of a plan name no task of it. For a goal that \<open>NewGoal\<close> made, whatever
  set of tasks of the plan has been completed, no task with dependencies can be executed: the
  identifiers it waits for are built from the goal, those of tasks from the clock.\<close>

theorem plan_dependencies_dangling:
  assumes "has_prefix (g_ID goal) ''goal-''" "DecomposeGoal big now fr goal = Inr ts"
    "t \<in> set ts" "t_Dependencies t \<noteq> []" "dom completed \<subseteq> t_ID ` set ts"
  shows "\<not> CanExecute completed t"
proof -
  let ?l = "plan_tasks now fr goal"
  have ne: "g_Description goal \<noteq> []" using assms(2) by (auto simp: DecomposeGoal_def)
  then have ts: "ts = PrioritizeTasks big ?l" using DecomposeGoal_plan assms(2) by simp
  have len: "length ts = length ?l"
    unfolding ts using plan_tasks_length plan_tasks_small by (simp add: PrioritizeTasks_def sort_Slice_tasks)
  have pl: "(\<exists>fr. t_ID u = generateTaskID fr) \<and> set (t_Dependencies u) \<subseteq> range (findTaskID (g_ID goal))"
    if u: "u \<in> set ts" for u
  proof -
    obtain i where "i < length ?l" "u = ts ! i" using u len by (metis in_set_conv_nth)
    then show ?thesis using decompose_nth [of i now fr goal big] ts by (auto simp: planned_def Let_def)
  qed
  obtain d where d: "d \<in> set (t_Dependencies t)" using assms(4) by (cases "t_Dependencies t") auto
  obtain ph where "d = findTaskID (g_ID goal) ph" using pl [OF assms(3)] d by auto
  then obtain x where "d = ''goal-'' @ x" using assms(1) by (auto simp: findTaskID_def has_prefix_def prefix_def)
  then have "t_ID u \<noteq> d" if "u \<in> set ts" for u using pl [OF that] by (auto simp: generateTaskID_def)
  then have "completed d = None" using assms(5) by (metis domIff image_iff subsetD)
  then show ?thesis using d by (auto simp: CanExecute_def list_all_iff map_get_def intro!: bexI [of _ d])
qed

theorem plan_dependencies_dangling_witness:
  "\<exists>ts t. DecomposeGoal (\<lambda>_. id) 0 demo_fresh demo_goal = Inr ts \<and> t \<in> set ts \<and> t_Dependencies t \<noteq> [] \<and>
     \<not> CanExecute (\<lambda>i. if i \<in> t_ID ` set ts then Some True else None) t"
proof -
  let ?l = "plan_tasks 0 demo_fresh demo_goal"
  let ?ts = "PrioritizeTasks (\<lambda>_. id) ?l"
  have D: "DecomposeGoal (\<lambda>_. id) 0 demo_fresh demo_goal = Inr ?ts"
    by (rule DecomposeGoal_plan) (simp add: demo_goal_def NewGoal_def)
  have "createPlanningTask (demo_fresh 1) demo_goal \<in> set ?l" by (simp add: plan_tasks_def Let_def)
  then obtain i where i: "i < length ?l" "sort_key task_key ?l ! i = createPlanningTask (demo_fresh 1) demo_goal"
    by (metis in_set_conv_nth length_sort set_sort)
  then have t: "?ts ! i = createPlanningTask (demo_fresh 1) demo_goal"
    using decompose_nth [OF i(1), of "\<lambda>_. id"] by (simp add: createPlanningTask_def task_builders)
  have "length ?ts = length ?l"
    using plan_tasks_length plan_tasks_small by (simp add: PrioritizeTasks_def sort_Slice_tasks)
  then have m: "createPlanningTask (demo_fresh 1) demo_goal \<in> set ?ts" using i(1) t by (metis nth_mem)
  have "t_Dependencies (createPlanningTask (demo_fresh 1) demo_goal) \<noteq> []"
    by (simp add: createPlanningTask_def task_builders)
  moreover have "has_prefix (g_ID demo_goal) ''goal-''"
    by (simp add: demo_goal_def NewGoal_def generateGoalID_def has_prefix_def)
  moreover have "\<not> CanExecute (\<lambda>i. if i \<in> t_ID ` set ?ts then Some True else None)
      (createPlanningTask (demo_fresh 1) demo_goal)"
    using calculation by (intro plan_dependencies_dangling [OF _ D m]) (auto simp: dom_def)
  ultimately show ?thesis using D m by metis
qed

definition demo_pair :: "task list" where
  "demo_pair = [createValidationTask (demo_fresh 0) demo_goal, createAnalysisTask (demo_fresh 1) demo_goal]"

theorem plan_prioritized_witness:
  "PrioritizeTasks (\<lambda>_. id) demo_pair ! 0 = (createAnalysisTask (demo_fresh 1) demo_goal)\<lparr>t_Status := TaskStatusReady\<rparr>"
proof -
  have "sort_key task_key demo_pair ! 0 = createAnalysisTask (demo_fresh 1) demo_goal"
    by (simp add: demo_pair_def createValidationTask_def createAnalysisTask_def task_builders task_key_def)
  moreover have "t_Dependencies (createAnalysisTask (demo_fresh 1) demo_goal) = []"
    by (simp add: createAnalysisTask_def task_builders)
  moreover have "\<forall>t\<in>set demo_pair. small_priority t"
    by (simp add: demo_pair_def createValidationTask_def createAnalysisTask_def task_builders small_priority_def)
  ultimately show ?thesis
    using plan_prioritized [of demo_pair 0 "\<lambda>_. id"] by (simp add: demo_pair_def Let_def)
qed

end
