(* ===== verification/Task_Executor.thy ===== *)
theory Task_Executor
  imports Task_Plan
begin

text \<open>
  \<open>internal/agent/planner\<close>, continued: the execution monitor (\<open>decomposer.go\<close>), the
  self-corrector (\<open>self_corrector.go\<close>) and the task executor (\<open>executor.go\<close>). The monitor and
  the executor hold the same task by a pointer; in the model the executor writes its task back
  to the monitor after each change. The copies of a task in the correction history share its
  metadata map, so they are kept without it. What \<open>select\<close> takes in an attempt, the errors of
  the context, the clock and the orders in which maps are ranged over are arguments, indexed
  by the attempt.
\<close>

section \<open>The monitor\<close>

record execution_metrics =
  em_TotalTasks :: int
  em_CompletedTasks :: int
  em_FailedTasks :: int
  em_AverageDuration :: duration
  em_TaskDurations :: "(gostr, float64) gomap"

record execution_monitor =
  mo_tasks :: "(gostr, task) gomap"
  mo_metrics :: execution_metrics

definition NewExecutionMonitor :: execution_monitor where
  "NewExecutionMonitor = \<lparr>mo_tasks = Map.empty, mo_metrics = \<lparr>em_TotalTasks = 0, em_CompletedTasks = 0,
     em_FailedTasks = 0, em_AverageDuration = 0, em_TaskDurations = Map.empty\<rparr>\<rparr>"

definition mo_put :: "task \<Rightarrow> execution_monitor \<Rightarrow> execution_monitor" where
  "mo_put t m = m\<lparr>mo_tasks := (mo_tasks m)(t_ID t \<mapsto> t)\<rparr>"

definition RegisterTask :: "task \<Rightarrow> execution_monitor \<Rightarrow> execution_monitor" where
  "RegisterTask t m = (let m = mo_put t m
     in m\<lparr>mo_metrics := (mo_metrics m)\<lparr>em_TotalTasks := em_TotalTasks (mo_metrics m) + 1\<rparr>\<rparr>)"

definition StartTask :: "gtime \<Rightarrow> gostr \<Rightarrow> execution_monitor \<Rightarrow> planner_error option \<times> execution_monitor" where
  "StartTask now taskID m = (case mo_tasks m taskID of
     None \<Rightarrow> (Some ErrTaskNotFound, m)
   | Some t \<Rightarrow> (None, m\<lparr>mo_tasks := (mo_tasks m)(taskID \<mapsto> t\<lparr>t_Status := TaskStatusRunning, t_StartedAt := Some now\<rparr>)\<rparr>))"

text \<open>\<open>Duration.Seconds\<close>, and the conversion of a float to a duration.\<close>

definition dur_Seconds :: "duration \<Rightarrow> float64" where
  "dur_Seconds d = (let s = (if d < 0 then - ((- d) div second) else d div second); n = d - s * second
     in fadd (float_of_int s) (fdiv (float_of_int n) 1000000000))"

definition updateAverageDuration :: "gostr list \<Rightarrow> execution_metrics \<Rightarrow> execution_metrics" where
  "updateAverageDuration order mt =
     (if em_CompletedTasks mt = 0 then mt
      else let totalDuration = foldl (\<lambda>acc (_, d). fadd acc d) 0 (range_of order (em_TaskDurations mt));
               completedCount = float_of_int (em_CompletedTasks mt)
           in mt\<lparr>em_AverageDuration := wrap64 (int_of_float (fdiv totalDuration completedCount) * second)\<rparr>)"

definition record_duration :: "gostr list \<Rightarrow> gtime \<Rightarrow> gostr \<Rightarrow> task \<Rightarrow> execution_metrics \<Rightarrow> execution_metrics" where
  "record_duration order now taskID t mt = (case t_StartedAt t of
     None \<Rightarrow> mt
   | Some s \<Rightarrow> updateAverageDuration order
       (mt\<lparr>em_TaskDurations := (em_TaskDurations mt)(taskID \<mapsto> dur_Seconds (time_sub now s))\<rparr>))"

definition CompleteTask :: "gostr list \<Rightarrow> gtime \<Rightarrow> gostr \<Rightarrow> task_result \<Rightarrow> execution_monitor
    \<Rightarrow> planner_error option \<times> execution_monitor" where
  "CompleteTask order now taskID result m = (case mo_tasks m taskID of
     None \<Rightarrow> (Some ErrTaskNotFound, m)
   | Some t \<Rightarrow>
       let t = t\<lparr>t_Status := TaskStatusCompleted, t_CompletedAt := Some now, t_Result := Some result\<rparr>;
           mt = (mo_metrics m)\<lparr>em_CompletedTasks := em_CompletedTasks (mo_metrics m) + 1\<rparr>
       in (None, \<lparr>mo_tasks = (mo_tasks m)(taskID \<mapsto> t), mo_metrics = record_duration order now taskID t mt\<rparr>))"

text \<open>\<open>FailTask\<close> calls \<open>err.Error()\<close>, which panics on a nil error: the first component is \<open>None\<close>.\<close>

definition FailTask :: "gostr list \<Rightarrow> gtime \<Rightarrow> gostr \<Rightarrow> gostr option \<Rightarrow> execution_monitor
    \<Rightarrow> planner_error option option \<times> execution_monitor" where
  "FailTask order now taskID err m = (case mo_tasks m taskID of
     None \<Rightarrow> (Some (Some ErrTaskNotFound), m)
   | Some t \<Rightarrow>
       let t = t\<lparr>t_Status := TaskStatusFailed, t_CompletedAt := Some now\<rparr>
       in case err of
            None \<Rightarrow> (None, m\<lparr>mo_tasks := (mo_tasks m)(taskID \<mapsto> t)\<rparr>)
          | Some e \<Rightarrow>
              let t = t\<lparr>t_Result := Some \<lparr>tr_Success = False, tr_Output = None, tr_Error = e, tr_Metrics = None\<rparr>\<rparr>;
                  mt = (mo_metrics m)\<lparr>em_FailedTasks := em_FailedTasks (mo_metrics m) + 1\<rparr>
              in (Some None, \<lparr>mo_tasks = (mo_tasks m)(taskID \<mapsto> t),
                    mo_metrics = record_duration order now taskID t mt\<rparr>))"

definition GetTaskStatus :: "gostr \<Rightarrow> execution_monitor \<Rightarrow> planner_error + task_status" where
  "GetTaskStatus taskID m = (case mo_tasks m taskID of None \<Rightarrow> Inl ErrTaskNotFound | Some t \<Rightarrow> Inr (t_Status t))"

definition mo_GetMetrics :: "execution_monitor \<Rightarrow> execution_metrics" where
  "mo_GetMetrics m = mo_metrics m"

section \<open>The self-corrector\<close>

text \<open>\<open>Apply\<close> of a strategy returns the corrected task, or panics when the metadata map is nil.\<close>

record correction_strategy =
  sy_Name :: gostr
  sy_Apply :: "task \<Rightarrow> feedback \<Rightarrow> task option"
  sy_Priority :: int
  sy_ApplicableTo :: "feedback_type list"

record correction_record =
  cr_TaskID :: gostr
  cr_FeedbackType :: feedback_type
  cr_OriginalTask :: task_core
  cr_CorrectedTask :: task_core
  cr_Timestamp :: gtime

record self_corrector =
  sc_strategies :: "(gostr, correction_strategy) gomap"
  sc_history :: "correction_record list"
  sc_maxHistory :: nat

definition applyTimeoutCorrection :: "task \<Rightarrow> feedback \<Rightarrow> task option" where
  "applyTimeoutCorrection t fb =
     (let n = t\<lparr>t_Description := ''Retry: '' @ t_Description t, t_Timeout := wrap64 (t_Timeout t * 2),
                t_MaxRetries := wrap64 (t_MaxRetries t + 1)\<rparr>
      in Option.bind (t_AddMetadata ''correction'' (PString ''timeout'') n)
           (t_AddMetadata ''original_timeout'' (PString (dur_String (t_Timeout t)))))"

text \<open>
  The other strategies prefix the description and write metadata; their test for a nil map
  comes after the first write to it.
\<close>

definition apply_meta :: "gostr \<Rightarrow> gostr \<Rightarrow> (gostr \<times> pval) list \<Rightarrow> task \<Rightarrow> task option" where
  "apply_meta pre correction kvs t =
     foldl (\<lambda>r (k, v). Option.bind r (t_AddMetadata k v))
       (t_AddMetadata ''correction'' (PString correction) (t\<lparr>t_Description := pre @ t_Description t\<rparr>)) kvs"

definition applyResourceCorrection :: "task \<Rightarrow> feedback \<Rightarrow> task option" where
  "applyResourceCorrection t fb = apply_meta ''Optimized: '' ''resource_optimization''
     [(''resource_level'', PString ''high'')] t"

definition applyQualityCorrection :: "task \<Rightarrow> feedback \<Rightarrow> task option" where
  "applyQualityCorrection t fb = apply_meta ''Refined: '' ''quality_improvement''
     [(''quality_mode'', PString ''enhanced''), (''validation_level'', PString ''strict'')] t"

definition applySimplifyCorrection :: "task \<Rightarrow> feedback \<Rightarrow> task option" where
  "applySimplifyCorrection t fb = apply_meta ''Simplified: '' ''simplification''
     [(''complexity'', PString ''reduced'')] t"

definition applyDecomposeCorrection :: "task \<Rightarrow> feedback \<Rightarrow> task option" where
  "applyDecomposeCorrection t fb = apply_meta ''Split: '' ''decomposition''
     [(''subtasks'', PBool True), (''batch_size'', PInt 5)] t"

definition applyUserFeedbackCorrection :: "task \<Rightarrow> feedback \<Rightarrow> task option" where
  "applyUserFeedbackCorrection t fb = apply_meta ''User revised: '' ''user_feedback''
     [(''user_message'', PString (fb_Message fb))] t"

definition registerStrategies :: "(gostr, correction_strategy) gomap" where
  "registerStrategies = [
     ''retry_timeout'' \<mapsto> \<lparr>sy_Name = ''retry_timeout'', sy_Apply = applyTimeoutCorrection, sy_Priority = 1,
        sy_ApplicableTo = [FeedbackTypeFailure, FeedbackTypeSlow]\<rparr>,
     ''resource_increase'' \<mapsto> \<lparr>sy_Name = ''resource_increase'', sy_Apply = applyResourceCorrection, sy_Priority = 2,
        sy_ApplicableTo = [FeedbackTypeSlow]\<rparr>,
     ''quality_improve'' \<mapsto> \<lparr>sy_Name = ''quality_improve'', sy_Apply = applyQualityCorrection, sy_Priority = 3,
        sy_ApplicableTo = [FeedbackTypeQualityIssue]\<rparr>,
     ''simplify'' \<mapsto> \<lparr>sy_Name = ''simplify'', sy_Apply = applySimplifyCorrection, sy_Priority = 4,
        sy_ApplicableTo = [FeedbackTypeFailure]\<rparr>,
     ''decompose'' \<mapsto> \<lparr>sy_Name = ''decompose'', sy_Apply = applyDecomposeCorrection, sy_Priority = 5,
        sy_ApplicableTo = [FeedbackTypeQualityIssue, FeedbackTypeSlow]\<rparr>,
     ''user_feedback'' \<mapsto> \<lparr>sy_Name = ''user_feedback'', sy_Apply = applyUserFeedbackCorrection, sy_Priority = 1,
        sy_ApplicableTo = [FeedbackTypeUserInput]\<rparr>]"

definition NewSelfCorrector :: self_corrector where
  "NewSelfCorrector = \<lparr>sc_strategies = registerStrategies, sc_history = [], sc_maxHistory = 100\<rparr>"

definition isApplicable :: "correction_strategy \<Rightarrow> feedback_type \<Rightarrow> bool" where
  "isApplicable s ty = list_ex (\<lambda>ft. ft = ty) (sy_ApplicableTo s)"

definition resultToFeedback :: "task_result \<Rightarrow> feedback" where
  "resultToFeedback result =
     (let (ty, message) =
        (if \<not> tr_Success result
         then if str_contains (tr_Error result) ''timeout'' then (FeedbackTypeSlow, ''Task timed out'')
              else (FeedbackTypeFailure, tr_Error result)
         else case tr_Metrics result of
                None \<Rightarrow> (FeedbackTypeSuccess, ''Task completed successfully'')
              | Some metrics \<Rightarrow>
                  if (case metrics ''execution_time_ms'' of None \<Rightarrow> False | Some timeMs \<Rightarrow> timeMs > 5000)
                  then (FeedbackTypeSlow, ''Task execution was slow'')
                  else if (case metrics ''quality_score'' of None \<Rightarrow> False | Some quality \<Rightarrow> quality < fl (7 / 10))
                  then (FeedbackTypeQualityIssue, ''Task quality below threshold'')
                  else (FeedbackTypeSuccess, ''Task completed successfully''))
      in \<lparr>fb_Type = ty, fb_Message = message, fb_Metrics = tr_Metrics result\<rparr>)"

definition core_of :: "task \<Rightarrow> task_core" where
  "core_of t = task_core.truncate t"

definition recordCorrection :: "gtime \<Rightarrow> task \<Rightarrow> feedback \<Rightarrow> task \<Rightarrow> self_corrector \<Rightarrow> self_corrector" where
  "recordCorrection now t fb corrected sc =
     (let h = sc_history sc @ [\<lparr>cr_TaskID = t_ID t, cr_FeedbackType = fb_Type fb, cr_OriginalTask = core_of t,
            cr_CorrectedTask = core_of corrected, cr_Timestamp = now\<rparr>]
      in sc\<lparr>sc_history := if length h > sc_maxHistory sc then drop (length h - sc_maxHistory sc) h else h\<rparr>)"

text \<open>The first applicable strategy in the order in which the map is ranged over; \<open>None\<close> is a panic.\<close>

definition Correct :: "gostr list \<Rightarrow> gtime \<Rightarrow> task \<Rightarrow> task_result \<Rightarrow> self_corrector
    \<Rightarrow> (task option \<times> self_corrector) option" where
  "Correct order now t result sc =
     (let fb = resultToFeedback result
      in case find (\<lambda>(_, s). isApplicable s (fb_Type fb)) (range_of order (sc_strategies sc)) of
           None \<Rightarrow> Some (None, sc)
         | Some (_, s) \<Rightarrow> (case sy_Apply s t fb of
             None \<Rightarrow> None
           | Some corrected \<Rightarrow> Some (Some corrected, recordCorrection now t fb corrected sc)))"

definition sc_GetHistory :: "self_corrector \<Rightarrow> correction_record list" where
  "sc_GetHistory sc = sc_history sc"

definition feedback_text :: "feedback_type \<Rightarrow> gostr" where
  "feedback_text ty = (case ty of FeedbackTypeSuccess \<Rightarrow> ''success'' | FeedbackTypeFailure \<Rightarrow> ''failure''
     | FeedbackTypeSlow \<Rightarrow> ''slow'' | FeedbackTypeQualityIssue \<Rightarrow> ''quality_issue''
     | FeedbackTypeUserInput \<Rightarrow> ''user_input'')"

definition sc_GetStatistics :: "self_corrector \<Rightarrow> int \<times> (gostr, int) gomap" where
  "sc_GetStatistics sc = (int (length (sc_history sc)),
     foldl (\<lambda>m r. m(feedback_text (cr_FeedbackType r) \<mapsto> map_get 0 m (feedback_text (cr_FeedbackType r)) + 1))
       Map.empty (sc_history sc))"

section \<open>The executor\<close>

record task_executor =
  te_monitor :: execution_monitor
  te_selfCorrector :: self_corrector
  te_maxRetries :: int
  te_executionTimeout :: duration

definition NewTaskExecutor :: "int \<Rightarrow> duration \<Rightarrow> task_executor" where
  "NewTaskExecutor maxRetries executionTimeout = \<lparr>te_monitor = NewExecutionMonitor,
     te_selfCorrector = NewSelfCorrector, te_maxRetries = maxRetries, te_executionTimeout = executionTimeout\<rparr>"

definition done_result :: "(gostr \<times> pval) list \<Rightarrow> gostr \<Rightarrow> float64 \<Rightarrow> task_result" where
  "done_result out metric v = \<lparr>tr_Success = True, tr_Output = Some (PObject out), tr_Error = '''',
     tr_Metrics = Some [metric \<mapsto> v]\<rparr>"

definition executeRetrievalTask :: task_result where
  "executeRetrievalTask = done_result [(''retrieved'', PBool True), (''count'', PInt 10)] ''retrieval_time_ms'' 150"

definition executeGenerationTask :: task_result where
  "executeGenerationTask = done_result [(''generated'', PBool True), (''tokens'', PInt 500)] ''generation_time_ms'' 2000"

definition executeModificationTask :: task_result where
  "executeModificationTask = done_result [(''modified'', PBool True), (''changes'', PInt 5)] ''modification_time_ms'' 500"

definition executeDeletionTask :: task_result where
  "executeDeletionTask = done_result [(''deleted'', PBool True)] ''deletion_time_ms'' 100"

definition executeAnalysisTask :: task_result where
  "executeAnalysisTask = done_result [(''analyzed'', PBool True), (''insights'', PInt 3)] ''analysis_time_ms'' 1500"

definition executeComparisonTask :: task_result where
  "executeComparisonTask = done_result [(''compared'', PBool True), (''differences'', PInt 7)] ''comparison_time_ms'' 800"

definition executeSummaryTask :: task_result where
  "executeSummaryTask = done_result [(''summarized'', PBool True), (''word_count'', PInt 150)] ''summary_time_ms'' 600"

definition executeExplanationTask :: task_result where
  "executeExplanationTask = done_result [(''explained'', PBool True), (''clarity_score'', PFloat (fl (9 / 10)))]
     ''explanation_time_ms'' 400"

definition executeGenericTask :: task_result where
  "executeGenericTask = done_result [(''executed'', PBool True)] ''execution_time_ms'' 1000"

definition performTask :: "task \<Rightarrow> task_result" where
  "performTask t =
     (let taskType = (case Option.bind (t_Metadata t) (\<lambda>m. m ''type'') of Some (PString ty) \<Rightarrow> ty | _ \<Rightarrow> ''generic'')
      in if taskType = ''retrieval'' then executeRetrievalTask
         else if taskType = ''generation'' then executeGenerationTask
         else if taskType = ''modification'' then executeModificationTask
         else if taskType = ''deletion'' then executeDeletionTask
         else if taskType = ''analysis'' then executeAnalysisTask
         else if taskType = ''comparison'' then executeComparisonTask
         else if taskType = ''summary'' then executeSummaryTask
         else if taskType = ''explanation'' then executeExplanationTask
         else executeGenericTask)"

definition executeTask :: "bool \<Rightarrow> task \<Rightarrow> task_result" where
  "executeTask expired t =
     (if expired then \<lparr>tr_Success = False, tr_Output = None, tr_Error = ''task timed out after '' @ dur_String (t_Timeout t),
        tr_Metrics = None\<rparr>
      else performTask t)"

definition shouldRetry :: "task_result \<Rightarrow> task \<Rightarrow> bool \<times> task" where
  "shouldRetry result t =
     (if tr_Success result then (False, t)
      else if t_RetryCount t \<ge> t_MaxRetries t then (False, t)
      else (True, t\<lparr>t_RetryCount := t_RetryCount t + 1\<rparr>))"

text \<open>
  What the surroundings of one call do: \<open>ee_ctx\<close> the error of the context when an attempt
  starts, \<open>ee_expired\<close> whether the select of an attempt takes the expired context,
  \<open>ee_order\<close> and \<open>ee_durations\<close> the orders of the ranges over strategies and durations.
\<close>

record exec_env =
  ee_ctx :: "nat \<Rightarrow> gostr option"
  ee_expired :: "nat \<Rightarrow> bool"
  ee_order :: "nat \<Rightarrow> gostr list"
  ee_durations :: "gostr list"
  ee_start :: gtime
  ee_now :: "nat \<Rightarrow> gtime"

datatype exec_outcome = EDone task_result "planner_error option" | EPanic

definition zero_result :: task_result where
  "zero_result = \<lparr>tr_Success = False, tr_Output = None, tr_Error = '''', tr_Metrics = None\<rparr>"

definition fail_with :: "exec_env \<Rightarrow> nat \<Rightarrow> task \<Rightarrow> gostr option \<Rightarrow> task_result \<Rightarrow> task_result \<Rightarrow> planner_error
    \<Rightarrow> task_executor \<Rightarrow> exec_outcome \<times> task_executor" where
  "fail_with env n t err onerr result e te =
     (let (r, m) = FailTask (ee_durations env) (ee_now env n) (t_ID t) err (mo_put t (te_monitor te));
          te = te\<lparr>te_monitor := m\<rparr>
      in case r of None \<Rightarrow> (EPanic, te)
                 | Some (Some x) \<Rightarrow> (EDone onerr (Some x), te)
                 | Some None \<Rightarrow> (EDone result (Some e), te))"

text \<open>The loop, with a bound \<open>fuel\<close> on the number of times its condition is tested.\<close>

fun attempts :: "nat \<Rightarrow> exec_env \<Rightarrow> nat \<Rightarrow> gostr option \<Rightarrow> task \<Rightarrow> task_executor \<Rightarrow> (exec_outcome \<times> task_executor) option" where
  "attempts 0 env attempt lastErr t te = None"
| "attempts (Suc fuel) env attempt lastErr t te =
     (if int attempt > t_MaxRetries t
      then Some (fail_with env attempt t lastErr zero_result
             (case lastErr of None \<Rightarrow> zero_result | Some e \<Rightarrow> zero_result\<lparr>tr_Error := e\<rparr>) ErrMaxRetriesExceeded te)
      else case ee_ctx env attempt of
        Some e \<Rightarrow> Some (EDone zero_result (Some (ErrCtx e)), te\<lparr>te_monitor := mo_put t (te_monitor te)\<rparr>)
      | None \<Rightarrow>
          let t = (if attempt > 0 then t\<lparr>t_Status := TaskStatusRetrying\<rparr> else t);
              result = executeTask (ee_expired env attempt) t
          in if tr_Success result
             then let (e, m) = CompleteTask (ee_durations env) (ee_now env attempt) (t_ID t) result (mo_put t (te_monitor te))
                  in Some (EDone result e, te\<lparr>te_monitor := m\<rparr>)
             else case shouldRetry result t of
                 (False, t) \<Rightarrow> Some (fail_with env attempt t (Some (tr_Error result)) result result (ErrText (tr_Error result)) te)
               | (True, t) \<Rightarrow>
                   (case Correct (ee_order env attempt) (ee_now env attempt) t result (te_selfCorrector te) of
                      None \<Rightarrow> Some (EPanic, te\<lparr>te_monitor := mo_put t (te_monitor te)\<rparr>)
                    | Some (c, sc) \<Rightarrow>
                        let t = (case c of None \<Rightarrow> t | Some corrected \<Rightarrow> corrected);
                            te = te\<lparr>te_selfCorrector := sc, te_monitor := mo_put t (te_monitor te)\<rparr>
                        in attempts fuel env (Suc attempt) (Some (tr_Error result)) t te))"

definition ExecuteWithCorrection :: "nat \<Rightarrow> exec_env \<Rightarrow> task \<Rightarrow> task_executor \<Rightarrow> (exec_outcome \<times> task_executor) option" where
  "ExecuteWithCorrection fuel env t te =
     (let te = te\<lparr>te_monitor := RegisterTask t (te_monitor te)\<rparr>;
          (e, m) = StartTask (ee_start env) (t_ID t) (te_monitor te);
          te = te\<lparr>te_monitor := m\<rparr>
      in case e of
           Some x \<Rightarrow> Some (EDone zero_result (Some x), te)
         | None \<Rightarrow> attempts fuel env 0 None (t\<lparr>t_Status := TaskStatusRunning, t_StartedAt := Some (ee_start env)\<rparr>) te)"

definition MonitorExecution :: "gostr \<Rightarrow> task_executor \<Rightarrow> planner_error + task_status" where
  "MonitorExecution taskID te = GetTaskStatus taskID (te_monitor te)"

definition te_GetMetrics :: "task_executor \<Rightarrow> execution_metrics" where
  "te_GetMetrics te = mo_GetMetrics (te_monitor te)"

section \<open>When the attempts end\<close>

lemma timed_out_no_timeout: "\<not> str_contains (''task timed out after '' @ dur_String d) ''timeout''"
proof -
  have "\<not> str_contains (dur_String d) ''timeout''"
    using t_not_dur_String [of d] by (auto simp: str_contains_iff)
  then show ?thesis by simp
qed

lemma expired_feedback: "fb_Type (resultToFeedback (executeTask True t)) = FeedbackTypeFailure"
  using timed_out_no_timeout [of "t_Timeout t"] by (simp add: resultToFeedback_def executeTask_def)

text \<open>
  Whether the timeout strategy comes before the only other one for failures in an order of the
  strategies: map iteration decides at random.
\<close>

definition timeout_first :: "gostr list \<Rightarrow> bool" where
  "timeout_first order \<longleftrightarrow> find (\<lambda>k. k = ''retry_timeout'' \<or> k = ''simplify'') order = Some ''retry_timeout''"

definition raised :: "exec_env \<Rightarrow> nat \<Rightarrow> int" where
  "raised env n = int (length (filter (\<lambda>i. timeout_first (ee_order env i)) [0..<n]))"

lemma raised_0 [simp]: "raised env 0 = 0"
  by (simp add: raised_def)

lemma raised_Suc: "raised env (Suc n) = raised env n + (if timeout_first (ee_order env n) then 1 else 0)"
  by (simp add: raised_def)

lemma raised_bounds: "0 \<le> raised env n \<and> raised env n \<le> int n"
  unfolding raised_def by (simp add: le_trans [OF length_filter_le])

lemma failure_strategies:
  "find (\<lambda>(_, s). isApplicable s FeedbackTypeFailure) (range_of order registerStrategies) =
     map_option (\<lambda>k. (k, the (registerStrategies k))) (find (\<lambda>k. k = ''retry_timeout'' \<or> k = ''simplify'') order)"
  by (induction order) (simp_all add: registerStrategies_def isApplicable_def)

lemma strategy_apply:
  "sy_Apply (the (registerStrategies ''retry_timeout'')) = applyTimeoutCorrection"
  "sy_Apply (the (registerStrategies ''simplify'')) = applySimplifyCorrection"
  by (simp_all add: registerStrategies_def)

lemma Correct_failure:
  assumes "sc_strategies sc = registerStrategies" "''simplify'' \<in> set order" "t_Metadata t \<noteq> None"
  shows "\<exists>t' sc'. Correct order now t (executeTask True t0) sc = Some (Some t', sc') \<and>
    sc_strategies sc' = registerStrategies \<and> t_Metadata t' \<noteq> None \<and> t_RetryCount t' = t_RetryCount t \<and>
    t_ID t' = t_ID t \<and>
    t_MaxRetries t' = (if timeout_first order then wrap64 (t_MaxRetries t + 1) else t_MaxRetries t)"
proof -
  obtain m where m: "t_Metadata t = Some m" using assms(3) by auto
  obtain k where k: "find (\<lambda>k. k = ''retry_timeout'' \<or> k = ''simplify'') order = Some k"
    using assms(2) by (cases "find (\<lambda>k. k = ''retry_timeout'' \<or> k = ''simplify'') order") (auto simp: find_None_iff)
  then have "k = ''retry_timeout'' \<or> k = ''simplify''" by (auto simp: find_Some_iff)
  then show ?thesis
  proof
    assume "k = ''retry_timeout''"
    then show ?thesis using assms(1) k m
      by (simp add: Correct_def Let_def expired_feedback failure_strategies timeout_first_def strategy_apply
          applyTimeoutCorrection_def t_AddMetadata_def recordCorrection_def)
  next
    assume "k = ''simplify''"
    then show ?thesis using assms(1) k m
      by (simp add: Correct_def Let_def expired_feedback failure_strategies timeout_first_def strategy_apply
          applySimplifyCorrection_def apply_meta_def t_AddMetadata_def recordCorrection_def)
  qed
qed

lemma performTask_success: "tr_Success (performTask t)"
  by (simp add: performTask_def Let_def done_result_def executeRetrievalTask_def executeGenerationTask_def
      executeModificationTask_def executeDeletionTask_def executeAnalysisTask_def executeComparisonTask_def
      executeSummaryTask_def executeExplanationTask_def executeGenericTask_def)

lemma executeTask_success: "tr_Success (executeTask expired t) \<longleftrightarrow> \<not> expired"
  by (simp add: executeTask_def performTask_success)

lemma attempts_stop:
  assumes "t_MaxRetries t < int n \<or> ee_ctx env n \<noteq> None \<or> \<not> ee_expired env n \<or> t_MaxRetries t \<le> t_RetryCount t"
  shows "attempts (Suc fuel) env n lastErr t te \<noteq> None"
  using assms
  by (auto simp: Let_def executeTask_success shouldRetry_def split: option.splits prod.splits)

lemma attempts_step:
  assumes "int n \<le> t_MaxRetries t" "ee_ctx env n = None" "ee_expired env n" "t_RetryCount t < t_MaxRetries t"
    "''simplify'' \<in> set (ee_order env n)" "t_Metadata t \<noteq> None"
    "sc_strategies (te_selfCorrector te) = registerStrategies"
  obtains e t' te' where "attempts (Suc fuel) env n lastErr t te = attempts fuel env (Suc n) (Some e) t' te'"
    "t_MaxRetries t' = (if timeout_first (ee_order env n) then wrap64 (t_MaxRetries t + 1) else t_MaxRetries t)"
    "t_RetryCount t' = t_RetryCount t + 1" "t_Metadata t' \<noteq> None"
    "sc_strategies (te_selfCorrector te') = registerStrategies"
proof -
  obtain u where u: "(if n > 0 then t\<lparr>t_Status := TaskStatusRetrying\<rparr> else t) = u"
    "t_MaxRetries u = t_MaxRetries t" "t_RetryCount u = t_RetryCount t" "t_Metadata u = t_Metadata t"
    by (cases "n > 0") auto
  let ?r = "executeTask True u"
  let ?v = "u\<lparr>t_RetryCount := t_RetryCount u + 1\<rparr>"
  have f: "\<not> tr_Success ?r" by (simp add: executeTask_success)
  have s: "shouldRetry ?r u = (True, ?v)" using f assms(4) u by (simp add: shouldRetry_def)
  obtain t' sc' where c: "Correct (ee_order env n) (ee_now env n) ?v ?r (te_selfCorrector te) = Some (Some t', sc')"
    "sc_strategies sc' = registerStrategies" "t_Metadata t' \<noteq> None" "t_RetryCount t' = t_RetryCount t + 1"
    "t_MaxRetries t' = (if timeout_first (ee_order env n) then wrap64 (t_MaxRetries t + 1) else t_MaxRetries t)"
    using Correct_failure [OF assms(7,5), of ?v "ee_now env n" u] assms(6) u by auto
  have "attempts (Suc fuel) env n lastErr t te = attempts fuel env (Suc n) (Some (tr_Error ?r)) t'
      (te\<lparr>te_selfCorrector := sc', te_monitor := mo_put t' (te_monitor te)\<rparr>)"
    using assms(1-3) f s c(1) by (simp add: Let_def u(1))
  then show thesis using that c(2-5) by simp
qed

declare attempts.simps(2) [simp del]

definition keeps_going :: "exec_env \<Rightarrow> int \<Rightarrow> int \<Rightarrow> nat \<Rightarrow> bool" where
  "keeps_going env r m k \<longleftrightarrow> ee_ctx env k = None \<and> ee_expired env k \<and> r + int k < m + raised env k"

lemma attempts_None_iff:
  assumes "0 \<le> r" "m + int n + int fuel < 2 ^ 63" "- (2 ^ 63) \<le> m"
    "\<forall>k. ''simplify'' \<in> set (ee_order env k)" "t_Metadata t \<noteq> None"
    "sc_strategies (te_selfCorrector te) = registerStrategies"
    "t_RetryCount t = r + int n" "t_MaxRetries t = m + raised env n"
  shows "attempts fuel env n lastErr t te = None \<longleftrightarrow> (\<forall>k. n \<le> k \<longrightarrow> k < n + fuel \<longrightarrow> keeps_going env r m k)"
  using assms(2,5-)
proof (induction fuel arbitrary: n lastErr t te)
  case (Suc fuel)
  show ?case
  proof (cases "keeps_going env r m n")
    case True
    then have g: "ee_ctx env n = None" "ee_expired env n" "r + int n < m + raised env n"
      by (auto simp: keeps_going_def)
    obtain e t' te' where st: "attempts (Suc fuel) env n lastErr t te = attempts fuel env (Suc n) (Some e) t' te'"
      "t_MaxRetries t' = (if timeout_first (ee_order env n) then wrap64 (t_MaxRetries t + 1) else t_MaxRetries t)"
      "t_RetryCount t' = t_RetryCount t + 1" "t_Metadata t' \<noteq> None"
      "sc_strategies (te_selfCorrector te') = registerStrategies"
      using attempts_step [of n t env te fuel lastErr] g Suc.prems assms(1,4) by auto
    have "is_int64 (m + raised env n + 1)"
      using raised_bounds [of env n] Suc.prems(1) assms(3) by (auto simp: is_int64_def)
    then have "t_MaxRetries t' = m + raised env (Suc n)" using st(2) Suc.prems(5) by (simp add: raised_Suc)
    then have "attempts (Suc fuel) env n lastErr t te = None \<longleftrightarrow>
        (\<forall>k. Suc n \<le> k \<longrightarrow> k < Suc n + fuel \<longrightarrow> keeps_going env r m k)"
      using Suc.IH [of "Suc n" t' te' "Some e"] st Suc.prems by auto
    also have "\<dots> \<longleftrightarrow> (\<forall>k. n \<le> k \<longrightarrow> k < n + Suc fuel \<longrightarrow> keeps_going env r m k)"
      using True by (auto simp: Suc_le_eq) (metis le_neq_implies_less)
    finally show ?thesis .
  next
    case False
    then have "attempts (Suc fuel) env n lastErr t te \<noteq> None"
      using attempts_stop [of t n env fuel lastErr te] Suc.prems(4,5) by (auto simp: keeps_going_def)
    then show ?thesis using False by auto
  qed
qed simp

text \<open>C16: when the executor returns. For a task whose counters and metadata are as \<open>NewTask\<close> makes
  them (not negative, not nil), and whatever order the strategies are ranged over in, it is still
  running after testing the condition of its loop \<open>fuel\<close> times exactly when in each attempt the
  context was live, the attempt timed out, and the retries so far are fewer than the allowance
  including the one each timeout correction adds. So it returns as soon as an attempt ends in time,
  the context ends, or enough corrections were not timeout corrections.\<close>

theorem exec_returns_iff:
  assumes "0 \<le> t_RetryCount t" "- (2 ^ 63) \<le> t_MaxRetries t" "t_MaxRetries t + int fuel < 2 ^ 63"
    "t_Metadata t \<noteq> None" "sc_strategies (te_selfCorrector te) = registerStrategies"
    "\<forall>k. enumerates (ee_order env k) registerStrategies"
  shows "ExecuteWithCorrection fuel env t te = None \<longleftrightarrow>
    (\<forall>k<fuel. ee_ctx env k = None \<and> ee_expired env k \<and> t_RetryCount t + int k < t_MaxRetries t + raised env k)"
proof -
  have o: "\<forall>k. ''simplify'' \<in> set (ee_order env k)"
    using assms(6) by (auto simp: enumerates_def registerStrategies_def)
  let ?t = "t\<lparr>t_Status := TaskStatusRunning, t_StartedAt := Some (ee_start env)\<rparr>"
  obtain te' where e: "ExecuteWithCorrection fuel env t te = attempts fuel env 0 None ?t te'"
    "sc_strategies (te_selfCorrector te') = registerStrategies"
    using assms(5) by (simp add: ExecuteWithCorrection_def RegisterTask_def StartTask_def mo_put_def Let_def)
  show ?thesis
    unfolding e(1) using attempts_None_iff [of "t_RetryCount t" "t_MaxRetries t" 0 fuel env ?t te' None] assms o e(2)
    by (simp add: keeps_going_def)
qed

definition demo_exec_env :: exec_env where
  "demo_exec_env = \<lparr>ee_ctx = (\<lambda>_. None), ee_expired = (\<lambda>_. True),
     ee_order = (\<lambda>_. [''retry_timeout'', ''resource_increase'', ''quality_improve'', ''simplify'', ''decompose'', ''user_feedback'']),
     ee_durations = [], ee_start = 0, ee_now = int\<rparr>"

text \<open>The allowance of three retries does not stop a task that times out from being tried a thousand times.\<close>

theorem exec_returns_iff_witness:
  "ExecuteWithCorrection 1000 demo_exec_env (createValidationTask (demo_fresh 0) demo_goal)
     (NewTaskExecutor 3 minute) = None"
proof -
  let ?t = "createValidationTask (demo_fresh 0) demo_goal"
  have r: "raised demo_exec_env k = int k" for k
    by (simp add: raised_def demo_exec_env_def timeout_first_def)
  have o: "\<forall>k. enumerates (ee_order demo_exec_env k) registerStrategies"
    by (auto simp: enumerates_def demo_exec_env_def registerStrategies_def)
  have t: "t_RetryCount ?t = 0" "t_MaxRetries ?t = 3" "t_Metadata ?t \<noteq> None"
    by (simp_all add: createValidationTask_def task_builders)
  have e: "ee_ctx demo_exec_env k = None" "ee_expired demo_exec_env k" for k by (simp_all add: demo_exec_env_def)
  show ?thesis
    using exec_returns_iff [of ?t 1000 "NewTaskExecutor 3 minute" demo_exec_env] r o t e
    by (simp add: NewTaskExecutor_def NewSelfCorrector_def)
qed

section \<open>What an execution records\<close>

definition sc_ok :: "self_corrector \<Rightarrow> bool" where
  "sc_ok sc \<longleftrightarrow> sc_strategies sc = registerStrategies \<and> sc_maxHistory sc = 100 \<and> length (sc_history sc) \<le> 100"

lemma recordCorrection_ok: "sc_ok sc \<Longrightarrow> sc_ok (recordCorrection now t fb c sc)"
  by (auto simp: sc_ok_def recordCorrection_def Let_def)

lemma Correct_keeps:
  assumes "sc_ok sc" "Correct order now t (executeTask True t0) sc = Some (c, sc')"
  shows "sc_ok sc' \<and> (\<forall>t'. c = Some t' \<longrightarrow> t_ID t' = t_ID t)"
proof (cases "find (\<lambda>k. k = ''retry_timeout'' \<or> k = ''simplify'') order")
  case None
  then show ?thesis using assms
    by (simp add: Correct_def Let_def expired_feedback failure_strategies sc_ok_def)
next
  case (Some k)
  then have "k = ''retry_timeout'' \<or> k = ''simplify''" by (auto simp: find_Some_iff)
  then have "t_ID t' = t_ID t" if "sy_Apply (the (registerStrategies k)) t fb = Some t'" for t' fb
    using that by (auto simp: strategy_apply applyTimeoutCorrection_def applySimplifyCorrection_def apply_meta_def
        t_AddMetadata_def bind_eq_Some_conv)
  then show ?thesis using assms Some recordCorrection_ok [OF assms(1)]
    by (auto simp: Correct_def Let_def expired_feedback failure_strategies sc_ok_def split: option.splits)
qed

lemma record_duration_counts [simp]:
  "em_TotalTasks (record_duration order now i t mt) = em_TotalTasks mt"
  "em_CompletedTasks (record_duration order now i t mt) = em_CompletedTasks mt"
  "em_FailedTasks (record_duration order now i t mt) = em_FailedTasks mt"
  by (simp_all add: record_duration_def updateAverageDuration_def Let_def split: option.split)

text \<open>
  What a call records about the task \<open>i\<close>: success, and the task completed and counted once; the
  end of the context, and nothing counted; any other error, and the task failed and counted once.
\<close>

definition accounted :: "gostr \<Rightarrow> execution_monitor \<Rightarrow> task_result \<Rightarrow> planner_error option \<Rightarrow> execution_monitor \<Rightarrow> bool" where
  "accounted i m r e m' \<longleftrightarrow>
     em_TotalTasks (mo_metrics m') = em_TotalTasks (mo_metrics m) \<and> (tr_Success r \<longleftrightarrow> e = None) \<and>
     (case e of
        None \<Rightarrow> GetTaskStatus i m' = Inr TaskStatusCompleted \<and>
          em_CompletedTasks (mo_metrics m') = em_CompletedTasks (mo_metrics m) + 1 \<and>
          em_FailedTasks (mo_metrics m') = em_FailedTasks (mo_metrics m)
      | Some (ErrCtx _) \<Rightarrow>
          em_CompletedTasks (mo_metrics m') = em_CompletedTasks (mo_metrics m) \<and>
          em_FailedTasks (mo_metrics m') = em_FailedTasks (mo_metrics m)
      | Some _ \<Rightarrow> GetTaskStatus i m' = Inr TaskStatusFailed \<and>
          em_CompletedTasks (mo_metrics m') = em_CompletedTasks (mo_metrics m) \<and>
          em_FailedTasks (mo_metrics m') = em_FailedTasks (mo_metrics m) + 1)"

lemma accounted_mono: "accounted i (m\<lparr>mo_tasks := ts\<rparr>) r e m' = accounted i m r e m'"
  by (simp add: accounted_def split: option.split planner_error.split)

lemma accounted_fail:
  assumes "fail_with env n t err onerr result e te = (EDone r x, te')" "\<not> tr_Success result" "\<forall>c. e \<noteq> ErrCtx c"
  shows "accounted (t_ID t) (te_monitor te) r x (te_monitor te') \<and> te_selfCorrector te' = te_selfCorrector te"
  using assms
  by (auto simp: fail_with_def FailTask_def mo_put_def accounted_def Let_def GetTaskStatus_def
      split: option.splits planner_error.splits)

lemma attempts_accounted:
  assumes "attempts fuel env n lastErr t te = Some (EDone r e, te')" "sc_ok (te_selfCorrector te)"
  shows "accounted (t_ID t) (te_monitor te) r e (te_monitor te') \<and> sc_ok (te_selfCorrector te')"
  using assms
proof (induction fuel arbitrary: n lastErr t te)
  case (Suc fuel)
  obtain u where u: "(if n > 0 then t\<lparr>t_Status := TaskStatusRetrying\<rparr> else t) = u" "t_ID u = t_ID t"
    by (cases "n > 0") auto
  let ?r = "executeTask True u"
  have f: "\<not> tr_Success ?r" by (simp add: executeTask_success)
  consider (over) "t_MaxRetries t < int n"
    | (ctx) c where "int n \<le> t_MaxRetries t" "ee_ctx env n = Some c"
    | (ok) "int n \<le> t_MaxRetries t" "ee_ctx env n = None" "\<not> ee_expired env n"
    | (fail) "int n \<le> t_MaxRetries t" "ee_ctx env n = None" "ee_expired env n" "t_MaxRetries u \<le> t_RetryCount u"
    | (retry) "int n \<le> t_MaxRetries t" "ee_ctx env n = None" "ee_expired env n" "t_RetryCount u < t_MaxRetries u"
    by (meson not_le not_Some_eq)
  then show ?case
  proof cases
    case over
    let ?res = "case lastErr of None \<Rightarrow> zero_result | Some e \<Rightarrow> zero_result\<lparr>tr_Error := e\<rparr>"
    have "fail_with env n t lastErr zero_result ?res ErrMaxRetriesExceeded te = (EDone r e, te')"
      using Suc.prems(1) over by (simp add: attempts.simps)
    then show ?thesis using Suc.prems(2) by (auto dest!: accounted_fail simp: zero_result_def split: option.splits)
  next
    case ctx
    then show ?thesis using Suc.prems
      by (auto simp: attempts.simps accounted_def mo_put_def zero_result_def)
  next
    case ok
    then show ?thesis using Suc.prems u(2)
      by (auto simp: attempts.simps Let_def u(1) executeTask_success CompleteTask_def mo_put_def accounted_def GetTaskStatus_def)
  next
    case fail
    then have "fail_with env n u (Some (tr_Error ?r)) ?r ?r (ErrText (tr_Error ?r)) te = (EDone r e, te')"
      using Suc.prems f by (simp add: attempts.simps Let_def u(1) shouldRetry_def)
    then show ?thesis using f u(2) Suc.prems(2) by (auto dest!: accounted_fail)
  next
    case retry
    let ?v = "u\<lparr>t_RetryCount := t_RetryCount u + 1\<rparr>"
    have "Correct (ee_order env n) (ee_now env n) ?v ?r (te_selfCorrector te) \<noteq> None"
      using retry Suc.prems(1) f by (intro notI) (simp add: attempts.simps Let_def u(1) shouldRetry_def)
    then obtain c sc where c: "Correct (ee_order env n) (ee_now env n) ?v ?r (te_selfCorrector te) = Some (c, sc)"
      by force
    obtain w where w: "(case c of None \<Rightarrow> ?v | Some corrected \<Rightarrow> corrected) = w" by blast
    have r: "shouldRetry ?r u = (True, ?v)" using f retry(4) by (simp add: shouldRetry_def)
    have "attempts (Suc fuel) env n lastErr t te = attempts fuel env (Suc n) (Some (tr_Error ?r)) w
        (te\<lparr>te_selfCorrector := sc, te_monitor := mo_put w (te_monitor te)\<rparr>)"
      unfolding w [symmetric] using retry(1-3) f r c by (cases c) (simp_all add: attempts.simps(2) Let_def u(1))
    then have "attempts fuel env (Suc n) (Some (tr_Error ?r)) w
        (te\<lparr>te_selfCorrector := sc, te_monitor := mo_put w (te_monitor te)\<rparr>) = Some (EDone r e, te')"
      using Suc.prems(1) by simp
    moreover have "sc_ok sc" using Correct_keeps [OF Suc.prems(2) c] by blast
    moreover have "t_ID w = t_ID t"
    proof (cases c)
      case None
      show ?thesis unfolding w [symmetric] None using u(2) by simp
    next
      case (Some x)
      then have "t_ID x = t_ID ?v" using Correct_keeps [OF Suc.prems(2) c] by blast
      then show ?thesis unfolding w [symmetric] Some using u(2) by simp
    qed
    ultimately show ?thesis
      using Suc.IH [of "Suc n" "Some (tr_Error ?r)" w
          "te\<lparr>te_selfCorrector := sc, te_monitor := mo_put w (te_monitor te)\<rparr>"]
      by (simp add: mo_put_def accounted_mono)
  qed
qed simp

text \<open>Whenever an execution returns, the caller gets an error exactly when the result reports
  failure, the monitor has counted one more task, and one more completed or failed one, with
  the status to match (neither when the context ended); the correction history stays within its
  hundred records.\<close>

theorem exec_accounted:
  assumes "ExecuteWithCorrection fuel env t te = Some (EDone r e, te')" "sc_ok (te_selfCorrector te)"
  shows "accounted (t_ID t) (RegisterTask t (te_monitor te)) r e (te_monitor te') \<and> sc_ok (te_selfCorrector te')"
proof -
  let ?m = "RegisterTask t (te_monitor te)"
  let ?t = "t\<lparr>t_Status := TaskStatusRunning, t_StartedAt := Some (ee_start env)\<rparr>"
  have "attempts fuel env 0 None ?t (te\<lparr>te_monitor := ?m\<lparr>mo_tasks := (mo_tasks ?m)(t_ID t \<mapsto> ?t)\<rparr>\<rparr>) = Some (EDone r e, te')"
    using assms(1) by (simp add: ExecuteWithCorrection_def RegisterTask_def StartTask_def mo_put_def Let_def)
  from attempts_accounted [OF this] show ?thesis using assms(2) by (simp add: accounted_mono)
qed

theorem exec_accounted_witness:
  "\<exists>r te'. ExecuteWithCorrection 1 (demo_exec_env\<lparr>ee_expired := (\<lambda>_. False)\<rparr>)
      (createValidationTask (demo_fresh 0) demo_goal) (NewTaskExecutor 3 minute) = Some (EDone r None, te') \<and>
     em_CompletedTasks (mo_metrics (te_monitor te')) = 1"
proof -
  let ?env = "demo_exec_env\<lparr>ee_expired := (\<lambda>_. False)\<rparr>"
  let ?t = "createValidationTask (demo_fresh 0) demo_goal"
  obtain r te' where r: "ExecuteWithCorrection 1 ?env ?t (NewTaskExecutor 3 minute) = Some (EDone r None, te')"
    by (simp add: ExecuteWithCorrection_def RegisterTask_def StartTask_def mo_put_def attempts.simps
        Let_def CompleteTask_def executeTask_success demo_exec_env_def createValidationTask_def task_builders)
  then have "accounted (t_ID ?t) (RegisterTask ?t NewExecutionMonitor) r None (te_monitor te')"
    using exec_accounted [OF r] by (simp add: NewTaskExecutor_def sc_ok_def NewSelfCorrector_def)
  then show ?thesis using r
    by (auto simp: accounted_def RegisterTask_def mo_put_def NewExecutionMonitor_def Let_def)
qed

end
