(* ===== verification/Pipeline.thy ===== *)
theory Pipeline
  imports Rl_Middleware Event_Types
begin

text \<open>
  \<open>internal/runtime\<close>: the request pipeline (\<open>pipeline.go\<close>) and the context it carries
  (\<open>context.go\<close>). The services behind its interfaces (authenticator, tenant resolver, knowledge,
  skills and model platform clients) and the redaction of the privacy engine are functions; a
  service is given the runtime context as it stands when it is called. The calls made are
  returned in order beside the result. The random bytes of identifiers are arguments; a nil map
  of metadata reads like an empty one. Logging is left out.
\<close>

record rt_context =
  rt_RequestID :: gostr
  rt_TenantID :: gostr
  rt_UserIdentity :: gostr
  rt_TraceID :: gostr
  rt_Metadata :: "(gostr, dyn) gomap"

definition rt_NewContext :: "gostr \<Rightarrow> gostr \<Rightarrow> gostr \<Rightarrow> gostr \<Rightarrow> (gostr, dyn) gomap option \<Rightarrow> rt_context" where
  "rt_NewContext requestID tenantID userIdentity traceID metadata =
     \<lparr>rt_RequestID = requestID, rt_TenantID = tenantID, rt_UserIdentity = userIdentity, rt_TraceID = traceID,
      rt_Metadata = (case metadata of None \<Rightarrow> Map.empty | Some m \<Rightarrow> m)\<rparr>"

record pipeline_request =
  pq_Message :: gostr
  pq_Tenant :: gostr
  pq_AuthToken :: gostr
  pq_Metadata :: "(gostr, dyn) gomap option"

record usage_info =
  us_PromptTokens :: int
  us_CompletionTokens :: int
  us_TotalTokens :: int

record pipeline_response =
  ps_Answer :: gostr
  ps_TraceID :: gostr
  ps_Usage :: usage_info

record user_identity =
  ui_ID :: gostr
  ui_TenantID :: gostr
  ui_Roles :: "gostr list"
  ui_Permissions :: "gostr list"

record skill_request =
  sq_SkillName :: gostr
  sq_Input :: gostr

record route_request =
  rq_ModelName :: gostr
  rq_Prompt :: gostr
  rq_TenantID :: gostr
  rq_Metadata :: "(gostr, dyn) gomap"

record route_response =
  rr_ProviderID :: gostr
  rr_ModelName :: gostr
  rr_URL :: gostr

record pipeline_executor =
  pe_Authenticate :: "rt_context \<Rightarrow> gostr \<Rightarrow> gostr + user_identity"
  pe_Resolve :: "rt_context \<Rightarrow> gostr \<Rightarrow> gostr + tenant"
  pe_Redact :: "gostr \<Rightarrow> gostr"
  pe_Retrieve :: "rt_context \<Rightarrow> gostr \<Rightarrow> gostr + gostr"
  pe_Skill :: "rt_context \<Rightarrow> skill_request \<Rightarrow> gostr + gostr"
  pe_Route :: "rt_context \<Rightarrow> route_request \<Rightarrow> gostr + route_response"

datatype pipeline_error = AuthenticationFailed gostr | TenantResolutionFailed gostr | ModelRoutingFailed gostr
  | SkillExecutionFailed gostr

datatype pipeline_call = CallAuthenticate rt_context gostr | CallResolve rt_context gostr
  | CallRetrieve rt_context gostr | CallRoute rt_context route_request | CallSkill rt_context skill_request

definition hex_digit :: "nat \<Rightarrow> char" where
  "hex_digit d = (if d < 10 then char_of (48 + d) else char_of (87 + d))"

definition generateID :: "gostr \<Rightarrow> nat list \<Rightarrow> gostr" where
  "generateID pre bytes = pre @ ''-'' @ concat (map (\<lambda>b. [hex_digit (b div 16 mod 16), hex_digit (b mod 16)]) bytes)"

definition string_entry :: "(gostr, dyn) gomap option \<Rightarrow> gostr \<Rightarrow> gostr" where
  "string_entry m key = (case Option.bind m (\<lambda>m. m key) of Some (DString s) \<Rightarrow> s | _ \<Rightarrow> '''')"

definition with_context :: "gostr \<Rightarrow> gostr \<Rightarrow> gostr" where
  "with_context knowledge message =
     (if knowledge \<noteq> '''' then ''Context:'' @ [CHR 0x0A] @ knowledge @ [CHR 0x0A, CHR 0x0A] @ ''Query: '' @ message
      else message)"

text \<open>Steps 7 and 8: the skill or the plain completion, and the response.\<close>

definition run_provider :: "pipeline_executor \<Rightarrow> rt_context \<Rightarrow> gostr \<Rightarrow> gostr \<Rightarrow> route_response \<Rightarrow> pipeline_call list
    \<Rightarrow> (pipeline_error + pipeline_response) \<times> pipeline_call list" where
  "run_provider pe rt prompt skillName route calls =
     (let respond = (\<lambda>answer. let p = int (length prompt) div 4; c = int (length answer) div 4
            in \<lparr>ps_Answer = answer, ps_TraceID = rt_TraceID rt,
                 ps_Usage = \<lparr>us_PromptTokens = p, us_CompletionTokens = c, us_TotalTokens = p + c\<rparr>\<rparr>)
      in if skillName \<noteq> ''''
         then let q = \<lparr>sq_SkillName = skillName, sq_Input = prompt\<rparr>; calls = calls @ [CallSkill rt q]
              in case pe_Skill pe rt q of
                   Inl err \<Rightarrow> (Inl (SkillExecutionFailed err), calls)
                 | Inr out \<Rightarrow> (Inr (respond out), calls)
         else (Inr (respond (''[Model Platform Response ('' @ rr_ProviderID route @ ''/'' @ rr_ModelName route
                 @ '')] processed query successfully.'')), calls))"

text \<open>Steps 4 to 6: redaction, knowledge and the route.\<close>

definition run_resolved :: "pipeline_executor \<Rightarrow> rt_context \<Rightarrow> pipeline_request \<Rightarrow> pipeline_call list
    \<Rightarrow> (pipeline_error + pipeline_response) \<times> pipeline_call list" where
  "run_resolved pe rt req calls =
     (let sanitizedMessage = pe_Redact pe (pq_Message req);
          calls = calls @ [CallRetrieve rt sanitizedMessage];
          knowledge = (case pe_Retrieve pe rt sanitizedMessage of Inl err \<Rightarrow> '''' | Inr k \<Rightarrow> k);
          prompt = with_context knowledge sanitizedMessage;
          q = \<lparr>rq_ModelName = ''gpt-4'', rq_Prompt = prompt, rq_TenantID = rt_TenantID rt, rq_Metadata = rt_Metadata rt\<rparr>;
          calls = calls @ [CallRoute rt q]
      in case pe_Route pe rt q of
           Inl err \<Rightarrow> (Inl (ModelRoutingFailed err), calls)
         | Inr route \<Rightarrow> run_provider pe rt prompt (string_entry (pq_Metadata req) ''skill'') route calls)"

definition pipeline_Execute :: "nat list \<Rightarrow> nat list \<Rightarrow> pipeline_executor \<Rightarrow> pipeline_request
    \<Rightarrow> (pipeline_error + pipeline_response) \<times> pipeline_call list" where
  "pipeline_Execute reqBytes trcBytes pe req =
     (let requestID = generateID ''req'' reqBytes;
          traceID = generateID ''trc'' trcBytes;
          traceID = (let m = string_entry (pq_Metadata req) ''trace_id'' in if m \<noteq> '''' then m else traceID);
          rt = rt_NewContext requestID '''' '''' traceID (pq_Metadata req);
          calls = [CallAuthenticate rt (pq_AuthToken req)]
      in case pe_Authenticate pe rt (pq_AuthToken req) of
           Inl err \<Rightarrow> (Inl (AuthenticationFailed err), calls)
         | Inr user \<Rightarrow>
             let rt = rt\<lparr>rt_UserIdentity := ui_ID user\<rparr>;
                 tenantIdent = (if pq_Tenant req = '''' then ui_TenantID user else pq_Tenant req);
                 calls = calls @ [CallResolve rt tenantIdent]
             in case pe_Resolve pe rt tenantIdent of
                  Inl err \<Rightarrow> (Inl (TenantResolutionFailed err), calls)
                | Inr tn \<Rightarrow> run_resolved pe (rt\<lparr>rt_TenantID := tn_ID tn\<rparr>) req calls)"

section \<open>Confidentiality of the message\<close>

lemma message_fields:
  "pq_Message (req\<lparr>pq_Message := m\<rparr>) = m" "pq_Tenant (req\<lparr>pq_Message := m\<rparr>) = pq_Tenant req"
  "pq_AuthToken (req\<lparr>pq_Message := m\<rparr>) = pq_AuthToken req" "pq_Metadata (req\<lparr>pq_Message := m\<rparr>) = pq_Metadata req"
  by simp_all

lemma run_resolved_redacted:
  "pe_Redact pe m = pe_Redact pe m' \<Longrightarrow>
    run_resolved pe rt (req\<lparr>pq_Message := m\<rparr>) calls = run_resolved pe rt (req\<lparr>pq_Message := m'\<rparr>) calls"
  unfolding run_resolved_def message_fields by simp

text \<open>C18: the message reaches no service but through the redaction. Two requests that differ in the
  message only, and whose messages redact to the same text, give the same calls with the same
  arguments and the same answer, whatever the services do.\<close>

theorem pipeline_message_confidential:
  assumes "pe_Redact pe m = pe_Redact pe m'"
  shows "pipeline_Execute rb tb pe (req\<lparr>pq_Message := m\<rparr>) = pipeline_Execute rb tb pe (req\<lparr>pq_Message := m'\<rparr>)"
  unfolding pipeline_Execute_def run_resolved_redacted [OF assms] message_fields by (rule refl)

text \<open>A redaction that blanks every digit.\<close>

definition demo_pipeline :: pipeline_executor where
  "demo_pipeline = \<lparr>pe_Authenticate = (\<lambda>_ tok. if tok = ''secret''
       then Inr \<lparr>ui_ID = ''u'', ui_TenantID = ''t'', ui_Roles = [], ui_Permissions = []\<rparr> else Inl ''bad token''),
     pe_Resolve = (\<lambda>_ i. Inr (fst (DefaultResolve i))),
     pe_Redact = map (\<lambda>c. if c \<in> set ''0123456789'' then CHR ''#'' else c),
     pe_Retrieve = (\<lambda>_ q. Inr []), pe_Skill = (\<lambda>_ q. Inr (sq_Input q)),
     pe_Route = (\<lambda>_ q. Inr \<lparr>rr_ProviderID = ''p'', rr_ModelName = rq_ModelName q, rr_URL = []\<rparr>)\<rparr>"

definition demo_request :: pipeline_request where
  "demo_request = \<lparr>pq_Message = [], pq_Tenant = [], pq_AuthToken = ''secret'', pq_Metadata = Some [''skill'' \<mapsto> DString ''echo'']\<rparr>"

theorem pipeline_message_confidential_witness:
  "pipeline_Execute [1] [2] demo_pipeline (demo_request\<lparr>pq_Message := ''pin 1234''\<rparr>) =
     pipeline_Execute [1] [2] demo_pipeline (demo_request\<lparr>pq_Message := ''pin 9876''\<rparr>)"
  by (rule pipeline_message_confidential) (simp add: demo_pipeline_def)

section \<open>Gating\<close>

text \<open>
  \<open>cleared\<close>: a call that carries the message is made in a context whose user the authenticator
  returned for the token of the request and whose tenant the resolver returned.
\<close>

definition cleared :: "pipeline_executor \<Rightarrow> pipeline_request \<Rightarrow> rt_context \<Rightarrow> bool" where
  "cleared pe req rt \<longleftrightarrow> (\<exists>rt0 user rt1 ident tn. pe_Authenticate pe rt0 (pq_AuthToken req) = Inr user \<and>
     rt_UserIdentity rt = ui_ID user \<and> pe_Resolve pe rt1 ident = Inr tn \<and> rt_TenantID rt = tn_ID tn \<and>
     (ident = pq_Tenant req \<or> ident = ui_TenantID user))"

fun call_cleared :: "pipeline_executor \<Rightarrow> pipeline_request \<Rightarrow> pipeline_call \<Rightarrow> bool" where
  "call_cleared pe req (CallAuthenticate rt tok) = True"
| "call_cleared pe req (CallResolve rt i) = (\<exists>rt0 user. pe_Authenticate pe rt0 (pq_AuthToken req) = Inr user \<and> rt_UserIdentity rt = ui_ID user)"
| "call_cleared pe req (CallRetrieve rt q) = cleared pe req rt"
| "call_cleared pe req (CallRoute rt q) = (cleared pe req rt \<and> rq_TenantID q = rt_TenantID rt)"
| "call_cleared pe req (CallSkill rt q) = cleared pe req rt"

lemma run_resolved_cleared:
  assumes "cleared pe req rt" "\<forall>c\<in>set calls. call_cleared pe req c"
  shows "\<forall>c\<in>set (snd (run_resolved pe rt req calls)). call_cleared pe req c"
  using assms by (auto simp: run_resolved_def run_provider_def Let_def split: sum.splits if_splits)

text \<open>C19: no service sees a request before it is cleared: every call to the resolver names the user the
  authenticator returned for the token, and every call to the knowledge, model and skills services
  is made for that user and for the tenant the resolver returned.\<close>

theorem pipeline_gated:
  "list_all (call_cleared pe req) (snd (pipeline_Execute rb tb pe req))"
proof -
  let ?tr = "let m = string_entry (pq_Metadata req) ''trace_id'' in if m \<noteq> '''' then m else generateID ''trc'' tb"
  let ?rt = "rt_NewContext (generateID ''req'' rb) '''' '''' ?tr (pq_Metadata req)"
  show ?thesis
  proof (cases "pe_Authenticate pe ?rt (pq_AuthToken req)")
    case (Inl err)
    then show ?thesis by (simp add: pipeline_Execute_def Let_def)
  next
    case (Inr user)
    let ?rt1 = "?rt\<lparr>rt_UserIdentity := ui_ID user\<rparr>"
    let ?ident = "if pq_Tenant req = '''' then ui_TenantID user else pq_Tenant req"
    let ?calls = "[CallAuthenticate ?rt (pq_AuthToken req), CallResolve ?rt1 ?ident]"
    have u: "\<forall>c\<in>set ?calls. call_cleared pe req c" using Inr by auto
    show ?thesis
    proof (cases "pe_Resolve pe ?rt1 ?ident")
      case (Inl err)
      then show ?thesis using Inr u by (simp add: pipeline_Execute_def Let_def)
    next
      case tn: (Inr tn)
      have "cleared pe req (?rt1\<lparr>rt_TenantID := tn_ID tn\<rparr>)"
        unfolding cleared_def using Inr tn by (intro exI conjI) (assumption | simp | auto)+
      then have "\<forall>c\<in>set (snd (run_resolved pe (?rt1\<lparr>rt_TenantID := tn_ID tn\<rparr>) req ?calls)). call_cleared pe req c"
        using run_resolved_cleared u by blast
      then show ?thesis using Inr tn by (simp add: pipeline_Execute_def Let_def list_all_iff)
    qed
  qed
qed

text \<open>The tenant of a request is resolved as asked, without regard to the tenant of the user.\<close>

lemma pipeline_tenant_override:
  assumes "pq_Tenant req \<noteq> []" "\<And>rt. pe_Authenticate pe rt (pq_AuthToken req) = Inr user"
    "\<And>rt. pe_Resolve pe rt (pq_Tenant req) = Inr tn" "CallRoute rt q \<in> set (snd (pipeline_Execute rb tb pe req))"
  shows "rq_TenantID q = tn_ID tn"
  using assms
  by (auto simp: pipeline_Execute_def run_resolved_def run_provider_def Let_def split: sum.splits if_splits)

end
