(* ===== verification/A2A_Server.thy ===== *)
theory A2A_Server
  imports Go_Float
begin

text \<open>
  \<open>internal/protocol/a2a\<close>: the agent-to-agent server (\<open>server.go\<close>) and its extension with agents,
  sessions, a message queue and event streams (\<open>extended.go\<close>). Tasks and channels are objects in a
  store, since a goroutine that runs a task and a publisher that has looked up a channel keep their
  reference whatever happens to the maps; the goroutines under way are part of the state. A channel
  is its buffered events and whether it is closed. Fresh identifiers, the clock and the order of
  ranges over maps are arguments, and so is the JSON conversion of an agent card. Logging is
  left out.
\<close>

section \<open>Tasks, agents, sessions\<close>

datatype a2a_status = TaskSubmitted | TaskWorking | TaskCompleted | TaskFailed | TaskCancelled

definition a2a_status_String :: "a2a_status \<Rightarrow> gostr" where
  "a2a_status_String s = (case s of TaskSubmitted \<Rightarrow> ''submitted'' | TaskWorking \<Rightarrow> ''working''
     | TaskCompleted \<Rightarrow> ''completed'' | TaskFailed \<Rightarrow> ''failed'' | TaskCancelled \<Rightarrow> ''cancelled'')"

record agent_auth =
  aa_Type :: gostr
  aa_Scopes :: "gostr list"
  aa_Required :: bool

record agent_card =
  ac_AgentID :: gostr
  ac_Name :: gostr
  ac_Description :: gostr
  ac_Version :: gostr
  ac_Capabilities :: "gostr list"
  ac_Skills :: "gostr list"
  ac_Endpoints :: "(gostr, gostr) gomap"
  ac_Auth :: agent_auth
  ac_Metadata :: "(gostr, pval) gomap"
  ac_Timestamp :: gtime

datatype aval = AVal pval | ACard agent_card | ACards "agent_card list"

type_synonym a2a_output = "(gostr, aval) gomap option"

record a2a_task =
  at_ID :: gostr
  at_Status :: a2a_status
  at_AgentID :: gostr
  at_Input :: "(gostr, pval) gomap"
  at_Output :: a2a_output
  at_Error :: gostr
  at_CreatedAt :: gtime
  at_UpdatedAt :: gtime
  at_CompletedAt :: "gtime option"

record a2a_skill =
  ak_Name :: gostr
  ak_Description :: gostr
  ak_Category :: gostr
  ak_Parameters :: "gostr list"

record a2a_session =
  as_ID :: gostr
  as_AgentID :: gostr
  as_CreatedAt :: gtime
  as_LastActive :: gtime
  as_State :: "(gostr, pval) gomap"

record a2a_message =
  am_ID :: gostr
  am_Type :: gostr
  am_From :: gostr
  am_To :: gostr
  am_SessionID :: gostr
  am_TaskID :: gostr
  am_Payload :: "(gostr, pval) gomap"
  am_Metadata :: "(gostr, gostr) gomap"
  am_Timestamp :: gtime

record stream_event =
  se_Type :: gostr
  se_TaskID :: gostr
  se_SessionID :: gostr
  se_Data :: "(gostr, pval) gomap"
  se_Timestamp :: gtime

record a2a_chan =
  ch_buf :: "stream_event list"
  ch_closed :: bool

text \<open>
  The built-in handlers, and one registered by a user: it may change the task in place and
  returns an error, no task, or the output of a task.
\<close>

datatype a2a_handler = HSmartRouting | HQuotaManagement | HProviderDiscovery | HCostAnalysis | HHealthReport
  | HAgentDiscovery | HAgentRegister | HAgentCard
  | HCustom "a2a_task \<Rightarrow> a2a_task \<times> (gostr + a2a_output option)"

record a2a =
  a2_tasks :: "(gostr, nat) gomap"
  a2_heap :: "nat \<Rightarrow> a2a_task option"
  a2_next :: nat
  a2_skills :: "(gostr, a2a_skill) gomap"
  a2_handlers :: "(gostr, a2a_handler) gomap"
  a2_agents :: "(gostr, agent_card) gomap"
  a2_sessions :: "(gostr, a2a_session) gomap"
  a2_queue :: "a2a_message list"
  a2_streams :: "(gostr, nat) gomap"
  a2_chans :: "nat \<Rightarrow> a2a_chan option"
  a2_nextchan :: nat
  a2_running :: "(gostr \<times> nat) list"
  a2_returned :: "(gostr \<times> (gostr + a2a_output)) list"
  a2_publishing :: "(nat \<times> stream_event) list"

definition builtin_skill :: "gostr \<Rightarrow> gostr \<Rightarrow> gostr \<Rightarrow> gostr list \<Rightarrow> a2a_skill" where
  "builtin_skill name description category params =
     \<lparr>ak_Name = name, ak_Description = description, ak_Category = category, ak_Parameters = params\<rparr>"

definition registerBuiltInSkills :: "(gostr, a2a_skill) gomap" where
  "registerBuiltInSkills = [
     ''smartRouting'' \<mapsto> builtin_skill ''smartRouting'' ''Intelligent routing based on context'' ''routing'' [''request'', ''context''],
     ''quotaManagement'' \<mapsto> builtin_skill ''quotaManagement'' ''Manage quota and budgets'' ''budget'' [''action'', ''params''],
     ''providerDiscovery'' \<mapsto> builtin_skill ''providerDiscovery'' ''Discover available providers'' ''provider'' [''criteria''],
     ''costAnalysis'' \<mapsto> builtin_skill ''costAnalysis'' ''Analyze cost patterns'' ''budget'' [''period'', ''dimensions''],
     ''healthReport'' \<mapsto> builtin_skill ''healthReport'' ''Generate health reports'' ''system'' [''format'', ''components'']]"

definition registerBuiltInHandlers :: "(gostr, a2a_handler) gomap" where
  "registerBuiltInHandlers = [''smartRouting'' \<mapsto> HSmartRouting, ''quotaManagement'' \<mapsto> HQuotaManagement,
     ''providerDiscovery'' \<mapsto> HProviderDiscovery, ''costAnalysis'' \<mapsto> HCostAnalysis, ''healthReport'' \<mapsto> HHealthReport]"

definition registerExtendedHandlers :: "(gostr, a2a_handler) gomap \<Rightarrow> (gostr, a2a_handler) gomap" where
  "registerExtendedHandlers m = m(''agent/discovery'' \<mapsto> HAgentDiscovery, ''agent/register'' \<mapsto> HAgentRegister,
     ''agent/card'' \<mapsto> HAgentCard)"

definition NewExtendedServer :: a2a where
  "NewExtendedServer = \<lparr>a2_tasks = Map.empty, a2_heap = Map.empty, a2_next = 0, a2_skills = registerBuiltInSkills,
     a2_handlers = registerExtendedHandlers registerBuiltInHandlers, a2_agents = Map.empty,
     a2_sessions = Map.empty, a2_queue = [], a2_streams = Map.empty, a2_chans = Map.empty, a2_nextchan = 0,
     a2_running = [], a2_returned = [], a2_publishing = []\<rparr>"

section \<open>Tasks\<close>

definition a2a_CreateTask :: "gtime \<Rightarrow> int \<Rightarrow> gostr \<Rightarrow> (gostr, pval) gomap \<Rightarrow> a2a \<Rightarrow> a2a_task \<times> a2a" where
  "a2a_CreateTask now nanos agentID input s =
     (let t = \<lparr>at_ID = ''task-'' @ itoa nanos, at_Status = TaskSubmitted, at_AgentID = agentID, at_Input = input,
            at_Output = None, at_Error = '''', at_CreatedAt = now, at_UpdatedAt = now, at_CompletedAt = None\<rparr>
      in (t, s\<lparr>a2_tasks := (a2_tasks s)(at_ID t \<mapsto> a2_next s), a2_heap := (a2_heap s)(a2_next s \<mapsto> t),
               a2_next := Suc (a2_next s)\<rparr>))"

definition a2a_GetTask :: "gostr \<Rightarrow> a2a \<Rightarrow> a2a_task option" where
  "a2a_GetTask taskID s = Option.bind (a2_tasks s taskID) (a2_heap s)"

text \<open>An update of the task an identifier names, under the lock; \<open>Some\<close> is the error.\<close>

definition on_task :: "(a2a_task \<Rightarrow> a2a_task) \<Rightarrow> gostr \<Rightarrow> a2a \<Rightarrow> gostr option \<times> a2a" where
  "on_task f taskID s = (case a2_tasks s taskID of
     None \<Rightarrow> (Some (''task not found: '' @ taskID), s)
   | Some r \<Rightarrow> (None, s\<lparr>a2_heap := (a2_heap s)(r := map_option f (a2_heap s r))\<rparr>))"

definition terminal :: "a2a_status \<Rightarrow> bool" where
  "terminal st \<longleftrightarrow> st = TaskCompleted \<or> st = TaskFailed \<or> st = TaskCancelled"

definition UpdateTaskStatus :: "gtime \<Rightarrow> gostr \<Rightarrow> a2a_status \<Rightarrow> a2a \<Rightarrow> gostr option \<times> a2a" where
  "UpdateTaskStatus now taskID status = on_task (\<lambda>t.
     let t = t\<lparr>at_Status := status, at_UpdatedAt := now\<rparr>
     in if terminal status then t\<lparr>at_CompletedAt := Some now\<rparr> else t) taskID"

definition SetTaskOutput :: "gtime \<Rightarrow> gostr \<Rightarrow> a2a_output \<Rightarrow> a2a \<Rightarrow> gostr option \<times> a2a" where
  "SetTaskOutput now taskID out = on_task (\<lambda>t. t\<lparr>at_Output := out, at_Status := TaskCompleted,
     at_UpdatedAt := now, at_CompletedAt := Some now\<rparr>) taskID"

definition SetTaskError :: "gtime \<Rightarrow> gostr \<Rightarrow> gostr \<Rightarrow> a2a \<Rightarrow> gostr option \<times> a2a" where
  "SetTaskError now taskID errMsg = on_task (\<lambda>t. t\<lparr>at_Error := errMsg, at_Status := TaskFailed,
     at_UpdatedAt := now, at_CompletedAt := Some now\<rparr>) taskID"

definition ListTasks :: "gostr list \<Rightarrow> a2a_status option \<Rightarrow> a2a \<Rightarrow> a2a_task list" where
  "ListTasks order status s = filter (\<lambda>t. status = None \<or> status = Some (at_Status t))
     (List.map_filter (\<lambda>(i, r). a2_heap s r) (range_of order (a2_tasks s)))"

definition CancelTask :: "gtime \<Rightarrow> gostr \<Rightarrow> a2a \<Rightarrow> gostr option \<times> a2a" where
  "CancelTask now taskID = UpdateTaskStatus now taskID TaskCancelled"

definition DeleteTask :: "gostr \<Rightarrow> a2a \<Rightarrow> gostr option \<times> a2a" where
  "DeleteTask taskID s = (case a2_tasks s taskID of
     None \<Rightarrow> (Some (''task not found: '' @ taskID), s)
   | Some _ \<Rightarrow> (None, s\<lparr>a2_tasks := (a2_tasks s)(taskID := None)\<rparr>))"

definition RegisterHandler :: "gostr \<Rightarrow> a2a_handler \<Rightarrow> a2a \<Rightarrow> a2a" where
  "RegisterHandler skillName h s = s\<lparr>a2_handlers := (a2_handlers s)(skillName \<mapsto> h)\<rparr>"

text \<open>\<open>ExecuteTask\<close> marks the task and starts a goroutine that keeps the task's reference.\<close>

definition a2a_ExecuteTask :: "gtime \<Rightarrow> gostr \<Rightarrow> a2a \<Rightarrow> gostr option \<times> a2a" where
  "a2a_ExecuteTask now taskID s = (case a2_tasks s taskID of
     None \<Rightarrow> (Some (''task not found: '' @ taskID), s)
   | Some r \<Rightarrow> (None, (snd (on_task (\<lambda>t. t\<lparr>at_Status := TaskWorking, at_UpdatedAt := now\<rparr>) taskID s))
       \<lparr>a2_running := a2_running s @ [(taskID, r)]\<rparr>))"

definition ListSkills :: "gostr list \<Rightarrow> a2a \<Rightarrow> a2a_skill list" where
  "ListSkills order s = map snd (range_of order (a2_skills s))"

definition GetSkill :: "gostr \<Rightarrow> a2a \<Rightarrow> a2a_skill option" where
  "GetSkill name s = a2_skills s name"

section \<open>Agents\<close>

definition RegisterAgent :: "gtime \<Rightarrow> gostr \<Rightarrow> agent_card \<Rightarrow> a2a \<Rightarrow> agent_card \<times> a2a" where
  "RegisterAgent now uuid crd s =
     (let crd = (if ac_AgentID crd = '''' then crd\<lparr>ac_AgentID := uuid\<rparr> else crd)\<lparr>ac_Timestamp := now\<rparr>
      in (crd, s\<lparr>a2_agents := (a2_agents s)(ac_AgentID crd \<mapsto> crd)\<rparr>))"

definition GetAgent :: "gostr \<Rightarrow> a2a \<Rightarrow> agent_card option" where
  "GetAgent agentID s = a2_agents s agentID"

definition ListAgents :: "gostr list \<Rightarrow> gostr list \<Rightarrow> a2a \<Rightarrow> agent_card list" where
  "ListAgents order capabilities s = filter (\<lambda>a. capabilities = [] \<or>
       list_all (\<lambda>c. list_ex (\<lambda>x. x = c) (ac_Capabilities a)) capabilities)
     (map snd (range_of order (a2_agents s)))"

section \<open>Handlers\<close>

record handler_env =
  he_now :: gtime
  he_uuid :: gostr
  he_order :: "gostr list"
  he_card :: "pval \<Rightarrow> agent_card"

definition empty_card :: agent_card where
  "empty_card = \<lparr>ac_AgentID = '''', ac_Name = '''', ac_Description = '''', ac_Version = '''', ac_Capabilities = [],
     ac_Skills = [], ac_Endpoints = Map.empty, ac_Auth = \<lparr>aa_Type = '''', aa_Scopes = [], aa_Required = False\<rparr>,
     ac_Metadata = Map.empty, ac_Timestamp = zero_time\<rparr>"

definition out_of :: "(gostr \<times> aval) list \<Rightarrow> a2a_output" where
  "out_of kvs = Some (map_of kvs)"

definition handleSmartRouting :: "a2a_task \<Rightarrow> a2a_task" where
  "handleSmartRouting t = t\<lparr>at_Output := out_of [(''provider'', AVal (PString ''openai'')), (''model'', AVal (PString ''gpt-4o'')),
     (''confidence'', AVal (PFloat (fl (95 / 100)))), (''reasoning'', AVal (PString ''Optimal for request type''))]\<rparr>"

definition handleQuotaManagement :: "a2a_task \<Rightarrow> a2a_task" where
  "handleQuotaManagement t = t\<lparr>at_Output := out_of [(''used'', AVal (PInt 50000)), (''limit'', AVal (PInt 100000)),
     (''remaining'', AVal (PInt 50000))]\<rparr>"

definition handleProviderDiscovery :: "a2a_task \<Rightarrow> a2a_task" where
  "handleProviderDiscovery t = t\<lparr>at_Output := out_of [(''providers'', AVal (PList [
     PObject [(''id'', PString ''openai''), (''name'', PString ''OpenAI'')],
     PObject [(''id'', PString ''anthropic''), (''name'', PString ''Anthropic'')],
     PObject [(''id'', PString ''google''), (''name'', PString ''Google AI'')]]))]\<rparr>"

definition handleCostAnalysis :: "a2a_task \<Rightarrow> a2a_task" where
  "handleCostAnalysis t = t\<lparr>at_Output := out_of [(''total_cost'', AVal (PFloat (12505 / 10))), (''period'', AVal (PString ''30d'')),
     (''cost_by_model'', AVal (PObject [(''gpt-4o'', PFloat 500), (''claude-3-5'', PFloat (4505 / 10)), (''gemini-2'', PFloat 300)]))]\<rparr>"

definition handleHealthReport :: "a2a_task \<Rightarrow> a2a_task" where
  "handleHealthReport t = t\<lparr>at_Output := out_of [(''healthy'', AVal (PBool True)), (''uptime'', AVal (PString ''99.9%'')),
     (''components'', AVal (PObject [(''api'', PString ''healthy''), (''database'', PString ''healthy''), (''providers'', PString ''healthy'')]))]\<rparr>"

definition handleAgentDiscovery :: "handler_env \<Rightarrow> a2a \<Rightarrow> a2a_task \<Rightarrow> a2a_task" where
  "handleAgentDiscovery env s t = (let result = ListAgents (he_order env) [] s
     in t\<lparr>at_Output := out_of [(''agents'', ACards result), (''count'', AVal (PInt (int (length result))))]\<rparr>)"

definition handleAgentRegister :: "handler_env \<Rightarrow> a2a \<Rightarrow> a2a_task \<Rightarrow> a2a_task \<times> a2a" where
  "handleAgentRegister env s t =
     (let crd = (case at_Input t ''agent_card'' of None \<Rightarrow> empty_card | Some d \<Rightarrow> he_card env d);
          (crd, s) = RegisterAgent (he_now env) (he_uuid env) crd s
      in (t\<lparr>at_Output := out_of [(''agent_id'', AVal (PString (ac_AgentID crd))), (''status'', AVal (PString ''registered''))]\<rparr>, s))"

definition handleAgentCard :: "a2a \<Rightarrow> a2a_task \<Rightarrow> a2a_task" where
  "handleAgentCard s t =
     (let agentID = (case at_Input t ''agent_id'' of Some (PString i) \<Rightarrow> i | _ \<Rightarrow> '''')
      in case GetAgent agentID s of
           None \<Rightarrow> t\<lparr>at_Error := ''agent not found: '' @ agentID, at_Status := TaskFailed\<rparr>
         | Some crd \<Rightarrow> t\<lparr>at_Output := out_of [(''agent_card'', ACard crd)]\<rparr>)"

text \<open>A handler run: the task it leaves behind, what it returns, and the server.\<close>

definition run_handler :: "handler_env \<Rightarrow> a2a_handler \<Rightarrow> a2a_task \<Rightarrow> a2a \<Rightarrow> a2a_task \<times> (gostr + a2a_output option) \<times> a2a" where
  "run_handler env h t s =
     (let same = (\<lambda>t s. (t, Inr (Some (at_Output t)), s))
      in case h of
           HSmartRouting \<Rightarrow> same (handleSmartRouting t) s
         | HQuotaManagement \<Rightarrow> same (handleQuotaManagement t) s
         | HProviderDiscovery \<Rightarrow> same (handleProviderDiscovery t) s
         | HCostAnalysis \<Rightarrow> same (handleCostAnalysis t) s
         | HHealthReport \<Rightarrow> same (handleHealthReport t) s
         | HAgentDiscovery \<Rightarrow> same (handleAgentDiscovery env s t) s
         | HAgentRegister \<Rightarrow> (let (t, s) = handleAgentRegister env s t in same t s)
         | HAgentCard \<Rightarrow> same (handleAgentCard s t) s
         | HCustom f \<Rightarrow> (let (t, r) = f t in (t, r, s)))"

text \<open>
  The goroutine of an execution: the handler runs on the object, then its result is recorded under
  the identifier of the task. A handler that returns neither an error nor a task records nothing.
\<close>

definition task_runs :: "handler_env \<Rightarrow> gostr \<times> nat \<Rightarrow> a2a \<Rightarrow> a2a" where
  "task_runs env g s =
     (let (taskID, r) = g; s = s\<lparr>a2_running := remove1 g (a2_running s)\<rparr>
      in case a2_heap s r of
           None \<Rightarrow> s
         | Some t \<Rightarrow> (case a2_handlers s (at_AgentID t) of
             None \<Rightarrow> s\<lparr>a2_returned := a2_returned s @ [(taskID,
                 Inr (out_of [(''result'', AVal (PString ''Task executed'')), (''task_id'', AVal (PString taskID))]))]\<rparr>
           | Some h \<Rightarrow>
               let (t, res, s) = run_handler env h t s;
                   s = s\<lparr>a2_heap := (a2_heap s)(r \<mapsto> t)\<rparr>
               in case res of
                    Inl e \<Rightarrow> s\<lparr>a2_returned := a2_returned s @ [(taskID, Inl e)]\<rparr>
                  | Inr None \<Rightarrow> s
                  | Inr (Some out) \<Rightarrow> s\<lparr>a2_returned := a2_returned s @ [(taskID, Inr out)]\<rparr>))"

definition task_records :: "gtime \<Rightarrow> gostr \<times> (gostr + a2a_output) \<Rightarrow> a2a \<Rightarrow> a2a" where
  "task_records now g s =
     (let s = s\<lparr>a2_returned := remove1 g (a2_returned s)\<rparr>
      in case snd g of Inl e \<Rightarrow> snd (SetTaskError now (fst g) e s) | Inr out \<Rightarrow> snd (SetTaskOutput now (fst g) out s))"

section \<open>Sessions, messages and streams\<close>

definition new_chan :: a2a_chan where
  "new_chan = \<lparr>ch_buf = [], ch_closed = False\<rparr>"

definition open_stream :: "gostr \<Rightarrow> a2a \<Rightarrow> a2a" where
  "open_stream sid s = s\<lparr>a2_streams := (a2_streams s)(sid \<mapsto> a2_nextchan s),
     a2_chans := (a2_chans s)(a2_nextchan s \<mapsto> new_chan), a2_nextchan := Suc (a2_nextchan s)\<rparr>"

definition a2a_CreateSession :: "gtime \<Rightarrow> gostr \<Rightarrow> gostr \<Rightarrow> a2a \<Rightarrow> a2a_session \<times> a2a" where
  "a2a_CreateSession now uuid agentID s =
     (let se = \<lparr>as_ID = uuid, as_AgentID = agentID, as_CreatedAt = now, as_LastActive = now, as_State = Map.empty\<rparr>
      in (se, open_stream uuid (s\<lparr>a2_sessions := (a2_sessions s)(uuid \<mapsto> se)\<rparr>)))"

definition a2a_GetSession :: "gostr \<Rightarrow> a2a \<Rightarrow> a2a_session option" where
  "a2a_GetSession sessionID s = a2_sessions s sessionID"

definition UpdateSessionState :: "gtime \<Rightarrow> gostr \<Rightarrow> (gostr, pval) gomap \<Rightarrow> a2a \<Rightarrow> gostr option \<times> a2a" where
  "UpdateSessionState now sessionID state s = (case a2_sessions s sessionID of
     None \<Rightarrow> (Some (''session not found: '' @ sessionID), s)
   | Some se \<Rightarrow> (None, s\<lparr>a2_sessions := (a2_sessions s)(sessionID \<mapsto> se\<lparr>as_LastActive := now, as_State := state\<rparr>)\<rparr>))"

definition SubscribeSession :: "gostr \<Rightarrow> a2a \<Rightarrow> (gostr + nat) \<times> a2a" where
  "SubscribeSession sessionID s = (case a2_sessions s sessionID of
     None \<Rightarrow> (Inl (''session not found: '' @ sessionID), s)
   | Some _ \<Rightarrow> (Inr (a2_nextchan s), open_stream sessionID s))"

definition UnsubscribeSession :: "gostr \<Rightarrow> a2a \<Rightarrow> a2a" where
  "UnsubscribeSession sessionID s = (case a2_streams s sessionID of
     None \<Rightarrow> s
   | Some c \<Rightarrow> s\<lparr>a2_chans := (a2_chans s)(c := map_option (\<lambda>ch. ch\<lparr>ch_closed := True\<rparr>) (a2_chans s c)),
       a2_streams := (a2_streams s)(sessionID := None)\<rparr>)"

definition SendMessage :: "gtime \<Rightarrow> gostr \<Rightarrow> a2a_message \<Rightarrow> a2a \<Rightarrow> gostr option \<times> a2a_message \<times> a2a" where
  "SendMessage now uuid msg s =
     (let msg = (if am_ID msg = '''' then msg\<lparr>am_ID := uuid\<rparr> else msg);
          msg = (if am_Timestamp msg = zero_time then msg\<lparr>am_Timestamp := now\<rparr> else msg)
      in if length (a2_queue s) < 1000 then (None, msg, s\<lparr>a2_queue := a2_queue s @ [msg]\<rparr>)
         else (Some ''message queue full'', msg, s))"

text \<open>The goroutine of the queue takes a message and does nothing with it but log.\<close>

definition processMessage :: "a2a \<Rightarrow> a2a" where
  "processMessage s = s\<lparr>a2_queue := tl (a2_queue s)\<rparr>"

text \<open>What the select of \<open>SendMessageSync\<close> takes: an event of the channel, the context, or the timeout.\<close>

datatype sync_wait = WaitEvent | WaitCtx gostr | WaitTimeout

definition SendMessageSync :: "gtime \<Rightarrow> gostr \<Rightarrow> gostr \<Rightarrow> sync_wait \<Rightarrow> stream_event list \<Rightarrow> a2a_message \<Rightarrow> a2a
    \<Rightarrow> (gostr + a2a_message) \<times> a2a" where
  "SendMessageSync now uuid uuid2 wait arrived msg s =
     (let sessionID = (if am_SessionID msg = '''' then uuid else am_SessionID msg)
      in case SubscribeSession sessionID s of
           (Inl e, s) \<Rightarrow> (Inl e, s)
         | (Inr c, s) \<Rightarrow>
             (case SendMessage now uuid2 msg s of
                (Some e, _, s) \<Rightarrow> (Inl e, UnsubscribeSession sessionID s)
              | (None, _, s) \<Rightarrow>
                  let r = (case wait of
                       WaitEvent \<Rightarrow> (case arrived of
                           [] \<Rightarrow> Inl ''timeout waiting for response''
                         | ev # _ \<Rightarrow> Inr \<lparr>am_ID = se_TaskID ev, am_Type = ''task/submit'', am_From = '''', am_To = '''',
                             am_SessionID = '''', am_TaskID = '''', am_Payload = se_Data ev, am_Metadata = Map.empty,
                             am_Timestamp = se_Timestamp ev\<rparr>)
                     | WaitCtx e \<Rightarrow> Inl e
                     | WaitTimeout \<Rightarrow> Inl ''timeout waiting for response'')
                  in (r, UnsubscribeSession sessionID s)))"

definition StreamTask :: "gtime \<Rightarrow> gostr \<Rightarrow> gostr \<Rightarrow> a2a \<Rightarrow> (gostr + nat) \<times> a2a" where
  "StreamTask now uuid taskID s = (case a2_sessions s taskID of
     Some se \<Rightarrow> SubscribeSession (as_ID se) s
   | None \<Rightarrow> (let (se, s) = a2a_CreateSession now uuid taskID s in SubscribeSession (as_ID se) s))"

text \<open>
  \<open>PublishEvent\<close> looks the channel up under the lock and sends after releasing it: two steps. A send
  on a closed channel panics (\<open>None\<close>), also in a select with a default.
\<close>

definition publish_lookup :: "gostr \<Rightarrow> stream_event \<Rightarrow> a2a \<Rightarrow> a2a" where
  "publish_lookup sessionID ev s = (case a2_streams s sessionID of
     None \<Rightarrow> s
   | Some c \<Rightarrow> s\<lparr>a2_publishing := a2_publishing s @ [(c, ev)]\<rparr>)"

definition publish_send :: "nat \<times> stream_event \<Rightarrow> a2a \<Rightarrow> a2a option" where
  "publish_send p s = (case a2_chans s (fst p) of
     None \<Rightarrow> None
   | Some ch \<Rightarrow>
       if ch_closed ch then None
       else let s = s\<lparr>a2_publishing := remove1 p (a2_publishing s)\<rparr>
            in if length (ch_buf ch) < 100
               then Some (s\<lparr>a2_chans := (a2_chans s)(fst p \<mapsto> ch\<lparr>ch_buf := ch_buf ch @ [snd p]\<rparr>)\<rparr>)
               else Some s)"

definition chan_receive :: "nat \<Rightarrow> a2a \<Rightarrow> a2a" where
  "chan_receive c s = s\<lparr>a2_chans := (a2_chans s)(c := map_option (\<lambda>ch. ch\<lparr>ch_buf := tl (ch_buf ch)\<rparr>) (a2_chans s c))\<rparr>"

record a2a_stats =
  st_TotalAgents :: nat
  st_TotalSessions :: nat
  st_TotalTasks :: nat
  st_MessageQueueSize :: nat
  st_ActiveStreams :: nat

definition a2a_GetStats :: "a2a \<Rightarrow> a2a_stats" where
  "a2a_GetStats s = \<lparr>st_TotalAgents = card (dom (a2_agents s)), st_TotalSessions = card (dom (a2_sessions s)),
     st_TotalTasks = card (dom (a2_tasks s)), st_MessageQueueSize = length (a2_queue s),
     st_ActiveStreams = card (dom (a2_streams s))\<rparr>"

section \<open>Building messages\<close>

definition NewMessage :: "gtime \<Rightarrow> gostr \<Rightarrow> gostr \<Rightarrow> gostr \<Rightarrow> gostr \<Rightarrow> a2a_message" where
  "NewMessage now uuid msgType from to = \<lparr>am_ID = uuid, am_Type = msgType, am_From = from, am_To = to,
     am_SessionID = '''', am_TaskID = '''', am_Payload = Map.empty, am_Metadata = Map.empty, am_Timestamp = now\<rparr>"

definition am_WithSession :: "gostr \<Rightarrow> a2a_message \<Rightarrow> a2a_message" where
  "am_WithSession sessionID m = m\<lparr>am_SessionID := sessionID\<rparr>"

definition am_WithTask :: "gostr \<Rightarrow> a2a_message \<Rightarrow> a2a_message" where
  "am_WithTask taskID m = m\<lparr>am_TaskID := taskID\<rparr>"

definition am_WithPayload :: "gostr \<Rightarrow> pval \<Rightarrow> a2a_message \<Rightarrow> a2a_message" where
  "am_WithPayload key v m = m\<lparr>am_Payload := (am_Payload m)(key \<mapsto> v)\<rparr>"

definition am_WithMetadata :: "gostr \<Rightarrow> gostr \<Rightarrow> a2a_message \<Rightarrow> a2a_message" where
  "am_WithMetadata key v m = m\<lparr>am_Metadata := (am_Metadata m)(key \<mapsto> v)\<rparr>"

section \<open>Reachable servers\<close>

text \<open>
  One step of the server: a call of a client, a goroutine that moves on, or a subscriber that
  receives. The steps of calls that take the lock more than once are separate.
\<close>

inductive a2a_step :: "a2a \<Rightarrow> a2a \<Rightarrow> bool" where
  a2_create: "a2a_step s (snd (a2a_CreateTask now nanos agent input s))"
| a2_update: "a2a_step s (snd (UpdateTaskStatus now i st s))"
| a2_delete: "a2a_step s (snd (DeleteTask i s))"
| a2_execute: "a2a_step s (snd (a2a_ExecuteTask now i s))"
| a2_runs: "g \<in> set (a2_running s) \<Longrightarrow> a2a_step s (task_runs env g s)"
| a2_records: "q \<in> set (a2_returned s) \<Longrightarrow> a2a_step s (task_records now q s)"
| a2_handler: "a2a_step s (RegisterHandler name h s)"
| a2_agent: "a2a_step s (snd (RegisterAgent now uuid crd s))"
| a2_session: "a2_sessions s uuid = None \<Longrightarrow> a2a_step s (snd (a2a_CreateSession now uuid agent s))"
| a2_state: "a2a_step s (snd (UpdateSessionState now i state s))"
| a2_subscribe: "a2a_step s (snd (SubscribeSession i s))"
| a2_unsubscribe: "a2a_step s (UnsubscribeSession i s)"
| a2_send: "a2a_step s (snd (snd (SendMessage now uuid msg s)))"
| a2_process: "a2a_step s (processMessage s)"
| a2_lookup: "a2a_step s (publish_lookup i ev s)"
| a2_publish: "p \<in> set (a2_publishing s) \<Longrightarrow> publish_send p s = Some s' \<Longrightarrow> a2a_step s s'"
| a2_receive: "a2a_step s (chan_receive c s)"

text \<open>
  The invariant, in a part about streams and a part about tasks: buffers within their capacities,
  every stream an open channel of its own; and every task a live object.
\<close>

definition streams_ok :: "a2a \<Rightarrow> bool" where
  "streams_ok s \<longleftrightarrow>
     (\<forall>c ch. a2_chans s c = Some ch \<longrightarrow> length (ch_buf ch) \<le> 100 \<and> c < a2_nextchan s) \<and>
     (\<forall>i c. a2_streams s i = Some c \<longrightarrow> i \<in> dom (a2_sessions s) \<and> (\<exists>ch. a2_chans s c = Some ch \<and> \<not> ch_closed ch)) \<and>
     (\<forall>i j c. a2_streams s i = Some c \<longrightarrow> a2_streams s j = Some c \<longrightarrow> i = j) \<and>
     (\<forall>p\<in>set (a2_publishing s). a2_chans s (fst p) \<noteq> None)"

definition tasks_ok :: "a2a \<Rightarrow> bool" where
  "tasks_ok s \<longleftrightarrow>
     (\<forall>r t. a2_heap s r = Some t \<longrightarrow> r < a2_next s) \<and>
     (\<forall>i r. a2_tasks s i = Some r \<longrightarrow> a2_heap s r \<noteq> None) \<and>
     (\<forall>i j r. a2_tasks s i = Some r \<longrightarrow> a2_tasks s j = Some r \<longrightarrow> i = j) \<and>
     (\<forall>g\<in>set (a2_running s). a2_heap s (snd g) \<noteq> None)"

definition a2a_ok :: "a2a \<Rightarrow> bool" where
  "a2a_ok s \<longleftrightarrow> length (a2_queue s) \<le> 1000 \<and> streams_ok s \<and> tasks_ok s"

lemma streams_ok_cong:
  "a2_chans s = a2_chans s' \<Longrightarrow> a2_streams s = a2_streams s' \<Longrightarrow> a2_nextchan s = a2_nextchan s' \<Longrightarrow>
   a2_publishing s = a2_publishing s' \<Longrightarrow> dom (a2_sessions s) = dom (a2_sessions s') \<Longrightarrow> streams_ok s = streams_ok s'"
  by (simp add: streams_ok_def)

lemma tasks_ok_cong:
  "a2_heap s = a2_heap s' \<Longrightarrow> a2_tasks s = a2_tasks s' \<Longrightarrow> a2_next s = a2_next s' \<Longrightarrow>
   a2_running s = a2_running s' \<Longrightarrow> tasks_ok s = tasks_ok s'"
  by (simp add: tasks_ok_def)

text \<open>The parts of the state an operation leaves alone.\<close>

definition same_streams :: "a2a \<Rightarrow> a2a \<Rightarrow> bool" where
  "same_streams s s' \<longleftrightarrow> a2_chans s' = a2_chans s \<and> a2_streams s' = a2_streams s \<and> a2_nextchan s' = a2_nextchan s \<and>
     a2_publishing s' = a2_publishing s \<and> dom (a2_sessions s') = dom (a2_sessions s) \<and> a2_queue s' = a2_queue s"

definition same_tasks :: "a2a \<Rightarrow> a2a \<Rightarrow> bool" where
  "same_tasks s s' \<longleftrightarrow> a2_heap s' = a2_heap s \<and> a2_tasks s' = a2_tasks s \<and> a2_next s' = a2_next s \<and>
     a2_running s' = a2_running s"

lemma ok_by_tasks: "same_streams s s' \<Longrightarrow> a2a_ok s \<Longrightarrow> tasks_ok s' \<Longrightarrow> a2a_ok s'"
  using streams_ok_cong [of s s'] by (simp add: a2a_ok_def same_streams_def)

lemma ok_by_streams:
  "same_tasks s s' \<Longrightarrow> a2a_ok s \<Longrightarrow> length (a2_queue s') \<le> 1000 \<Longrightarrow> streams_ok s' \<Longrightarrow> a2a_ok s'"
  using tasks_ok_cong [of s s'] by (simp add: a2a_ok_def same_tasks_def)

lemma on_task_ok: "a2a_ok s \<Longrightarrow> a2a_ok (snd (on_task f i s))"
proof (rule ok_by_tasks)
  show "same_streams s (snd (on_task f i s))" by (simp add: same_streams_def on_task_def split: option.split)
  show "a2a_ok s \<Longrightarrow> tasks_ok (snd (on_task f i s))"
    by (auto simp: a2a_ok_def tasks_ok_def on_task_def split: option.splits if_splits)
qed

lemma run_handler_frame:
  "same_streams s (snd (snd (run_handler env h t s))) \<and> same_tasks s (snd (snd (run_handler env h t s)))"
  by (simp add: same_streams_def same_tasks_def run_handler_def handleAgentRegister_def RegisterAgent_def Let_def
      split: a2a_handler.split prod.split)

lemma task_runs_ok:
  assumes "a2a_ok s" "g \<in> set (a2_running s)" shows "a2a_ok (task_runs env g s)"
proof -
  obtain i r where g: "g = (i, r)" by fastforce
  let ?s = "s\<lparr>a2_running := remove1 g (a2_running s)\<rparr>"
  have s: "tasks_ok ?s" "same_streams s ?s"
    using assms by (auto simp: a2a_ok_def tasks_ok_def same_streams_def dest: set_mp [OF set_remove1_subset])
  have "tasks_ok (task_runs env g s) \<and> same_streams s (task_runs env g s)"
  proof (cases "a2_heap s r")
    case None
    then show ?thesis using s by (simp add: task_runs_def Let_def g)
  next
    case (Some t)
    show ?thesis
    proof (cases "a2_handlers s (at_AgentID t)")
      case None
      then show ?thesis using s Some
        by (simp add: task_runs_def Let_def tasks_ok_def same_streams_def g)
    next
      case h: (Some h)
      obtain t' res s' where rh: "run_handler env h t ?s = (t', res, s')" by (metis prod_cases3)
      then have fr: "same_streams ?s s'" "same_tasks ?s s'" using run_handler_frame [of ?s env h t] by auto
      have "tasks_ok (s'\<lparr>a2_heap := (a2_heap s')(r \<mapsto> t')\<rparr>)"
        using fr(2) s(1) Some by (auto simp: tasks_ok_def same_tasks_def)
      then show ?thesis using fr s(2) Some h rh
        by (auto simp: task_runs_def Let_def same_streams_def tasks_ok_def g split: sum.splits option.splits)
    qed
  qed
  then show ?thesis using ok_by_tasks assms(1) by blast
qed

lemma open_stream_ok:
  assumes "streams_ok s" "i \<in> dom (a2_sessions s)" shows "streams_ok (open_stream i s)"
  using assms by (fastforce simp: streams_ok_def open_stream_def new_chan_def split: if_splits)

lemma streams_ok_buffer:
  assumes "streams_ok s" "a2_chans s c = Some ch" "length b \<le> 100"
  shows "streams_ok (s\<lparr>a2_chans := (a2_chans s)(c \<mapsto> ch\<lparr>ch_buf := b\<rparr>)\<rparr>)"
proof -
  have "\<exists>ch'. ((a2_chans s)(c \<mapsto> ch\<lparr>ch_buf := b\<rparr>)) x = Some ch' \<and> \<not> ch_closed ch'"
    if "\<exists>ch'. a2_chans s x = Some ch' \<and> \<not> ch_closed ch'" for x
    using that assms(2) by (cases "x = c") auto
  then show ?thesis using assms unfolding streams_ok_def by (simp del: fun_upd_apply) auto
qed

lemma chan_receive_ok: "streams_ok s \<Longrightarrow> streams_ok (chan_receive c s)"
proof (cases "a2_chans s c")
  case None
  then show "streams_ok s \<Longrightarrow> ?thesis" by (simp add: chan_receive_def fun_upd_idem)
next
  case (Some ch)
  assume o: "streams_ok s"
  then have "length (ch_buf ch) \<le> 100" using Some unfolding streams_ok_def by blast
  then show ?thesis using streams_ok_buffer [OF o Some, of "tl (ch_buf ch)"] Some by (simp add: chan_receive_def)
qed

lemma publish_send_ok:
  assumes "streams_ok s" "publish_send p s = Some s'" shows "streams_ok s'"
proof -
  obtain ch where ch: "a2_chans s (fst p) = Some ch" "\<not> ch_closed ch"
    using assms(2) by (auto simp: publish_send_def split: option.splits if_splits)
  let ?s = "s\<lparr>a2_publishing := remove1 p (a2_publishing s)\<rparr>"
  have "streams_ok ?s"
    using assms(1) unfolding streams_ok_def by (auto dest: set_mp [OF set_remove1_subset])
  then show ?thesis
    using streams_ok_buffer [of ?s "fst p" ch "ch_buf ch @ [snd p]"] ch assms(2)
    by (auto simp: publish_send_def Let_def split: if_splits)
qed

lemma a2a_step_ok:
  assumes "a2a_step s s'" "a2a_ok s" shows "a2a_ok s'"
  using assms
proof (cases rule: a2a_step.cases)
  case (a2_create now nanos agent input)
  then show ?thesis using assms(2)
    by (intro ok_by_tasks [OF _ assms(2)])
      (fastforce simp: same_streams_def a2a_CreateTask_def Let_def a2a_ok_def tasks_ok_def split: if_splits)+
next
  case (a2_update now i st)
  then show ?thesis using assms(2) by (simp add: UpdateTaskStatus_def on_task_ok)
next
  case (a2_delete i)
  then show ?thesis
    by (intro ok_by_tasks [OF _ assms(2)])
      (use assms(2) in \<open>auto simp: same_streams_def DeleteTask_def a2a_ok_def tasks_ok_def split: option.splits if_splits\<close>)
next
  case (a2_execute now i)
  show ?thesis
  proof (cases "a2_tasks s i")
    case None
    then show ?thesis using a2_execute assms(2) by (simp add: a2a_ExecuteTask_def)
  next
    case (Some r)
    let ?o = "snd (on_task (\<lambda>t. t\<lparr>at_Status := TaskWorking, at_UpdatedAt := now\<rparr>) i s)"
    have o: "a2a_ok ?o" using assms(2) by (rule on_task_ok)
    have "tasks_ok (?o\<lparr>a2_running := a2_running s @ [(i, r)]\<rparr>)"
      using assms(2) Some by (auto simp: on_task_def a2a_ok_def tasks_ok_def split: if_splits)
    moreover have "s' = ?o\<lparr>a2_running := a2_running s @ [(i, r)]\<rparr>"
      using a2_execute Some by (simp add: a2a_ExecuteTask_def)
    ultimately show ?thesis using o by (intro ok_by_tasks [OF _ o]) (simp_all add: same_streams_def)
  qed
next
  case (a2_runs g env)
  then show ?thesis using task_runs_ok assms(2) by blast
next
  case (a2_records q now)
  have "a2a_ok (s\<lparr>a2_returned := remove1 q (a2_returned s)\<rparr>)"
    using assms(2) by (intro ok_by_tasks [OF _ assms(2)]) (auto simp: same_streams_def a2a_ok_def tasks_ok_def)
  then show ?thesis
    using a2_records by (auto simp: task_records_def Let_def SetTaskError_def SetTaskOutput_def on_task_ok split: sum.splits)
next
  case (a2_handler name h)
  then show ?thesis using assms(2)
    by (intro ok_by_tasks [OF _ assms(2)]) (auto simp: same_streams_def RegisterHandler_def a2a_ok_def tasks_ok_def)
next
  case (a2_agent now uuid crd)
  then show ?thesis using assms(2)
    by (intro ok_by_tasks [OF _ assms(2)]) (auto simp: same_streams_def RegisterAgent_def Let_def a2a_ok_def tasks_ok_def)
next
  case (a2_session uuid now agent)
  let ?s = "s\<lparr>a2_sessions := (a2_sessions s)(uuid \<mapsto> fst (a2a_CreateSession now uuid agent s))\<rparr>"
  have e: "s' = open_stream uuid ?s" using a2_session by (simp add: a2a_CreateSession_def Let_def)
  have "streams_ok ?s" using assms(2) by (auto simp: a2a_ok_def streams_ok_def)
  then have "streams_ok s'" unfolding e by (intro open_stream_ok) auto
  then show ?thesis using assms(2) e
    by (intro ok_by_streams [OF _ assms(2)]) (simp_all add: same_tasks_def open_stream_def a2a_ok_def)
next
  case (a2_state now i state)
  then show ?thesis using assms(2)
    by (intro ok_by_tasks [OF _ assms(2)])
      (auto simp: same_streams_def UpdateSessionState_def a2a_ok_def tasks_ok_def split: option.splits)
next
  case (a2_subscribe i)
  then show ?thesis using assms(2)
    by (intro ok_by_streams [OF _ assms(2)])
      (auto simp: same_tasks_def SubscribeSession_def a2a_ok_def open_stream_ok open_stream_def split: option.splits
        intro!: open_stream_ok [unfolded open_stream_def])
next
  case (a2_unsubscribe i)
  have "streams_ok (UnsubscribeSession i s)"
  proof (cases "a2_streams s i")
    case (Some c)
    have o: "streams_ok s" using assms(2) by (simp add: a2a_ok_def)
    have "a2_streams s j \<noteq> Some c" if "j \<noteq> i" for j using o Some that by (auto simp: streams_ok_def)
    then show ?thesis using o Some
      unfolding streams_ok_def UnsubscribeSession_def by (auto split: if_splits)
  qed (use assms(2) in \<open>simp add: UnsubscribeSession_def a2a_ok_def\<close>)
  then show ?thesis using a2_unsubscribe assms(2)
    by (intro ok_by_streams [OF _ assms(2)]) (auto simp: same_tasks_def UnsubscribeSession_def a2a_ok_def split: option.splits)
next
  case (a2_send now uuid msg)
  then show ?thesis using assms(2)
    by (intro ok_by_streams [OF _ assms(2)])
      (auto simp: same_tasks_def SendMessage_def Let_def a2a_ok_def streams_ok_def split: if_splits)
next
  case a2_process
  then show ?thesis using assms(2)
    by (intro ok_by_streams [OF _ assms(2)]) (auto simp: same_tasks_def processMessage_def a2a_ok_def streams_ok_def)
next
  case (a2_lookup i ev)
  then show ?thesis using assms(2)
    by (intro ok_by_streams [OF _ assms(2)])
      (fastforce simp: same_tasks_def publish_lookup_def a2a_ok_def streams_ok_def split: option.splits)+
next
  case (a2_publish p)
  have "streams_ok s'" using publish_send_ok a2_publish assms(2) unfolding a2a_ok_def by blast
  moreover have "same_tasks s s'" "length (a2_queue s') \<le> 1000" using a2_publish assms(2)
    by (auto simp: same_tasks_def publish_send_def Let_def a2a_ok_def split: option.splits if_splits)
  ultimately show ?thesis by (intro ok_by_streams [OF _ assms(2)])
next
  case (a2_receive c)
  then show ?thesis using assms(2) chan_receive_ok
    by (intro ok_by_streams [OF _ assms(2)]) (simp_all add: same_tasks_def chan_receive_def a2a_ok_def)
qed

text \<open>C17: in every state the server reaches, through any interleaving of calls, task goroutines,
  publishers and subscribers, the message queue holds at most 1000 messages and each stream buffer
  at most 100 events; the streams of different sessions are different channels, open as long as they
  are registered; and every identifier names a task object of its own.\<close>

theorem a2a_reachable_ok:
  assumes "a2a_step\<^sup>*\<^sup>* NewExtendedServer s"
  shows "a2a_ok s"
  using assms
proof (induction rule: rtranclp_induct)
  case base
  show ?case by (simp add: a2a_ok_def streams_ok_def tasks_ok_def NewExtendedServer_def)
next
  case (step y z)
  then show ?case by (blast intro: a2a_step_ok)
qed

definition demo_event :: stream_event where
  "demo_event = \<lparr>se_Type = ''ping'', se_TaskID = [], se_SessionID = ''s'', se_Data = Map.empty, se_Timestamp = 0\<rparr>"

definition demo_streaming :: a2a where
  "demo_streaming = publish_lookup ''s'' demo_event (snd (a2a_CreateSession 0 ''s'' ''agent'' NewExtendedServer))"

lemma demo_streaming_reachable: "a2a_step\<^sup>*\<^sup>* NewExtendedServer demo_streaming"
proof -
  have "a2a_step NewExtendedServer (snd (a2a_CreateSession 0 ''s'' ''agent'' NewExtendedServer))"
    by (rule a2_session) (simp add: NewExtendedServer_def)
  then show ?thesis
    unfolding demo_streaming_def by (blast intro: rtranclp.rtrancl_into_rtrancl a2_lookup)
qed

theorem a2a_reachable_ok_witness:
  "a2a_ok demo_streaming"
  by (rule a2a_reachable_ok [OF demo_streaming_reachable])

text \<open>C40: publishing can crash the server. From a reachable state in which a publisher has looked up the
  channel of a session, unsubscribing that session closes the channel, and the send that follows
  panics; without the unsubscription it succeeds.\<close>

theorem a2a_publish_panics:
  assumes "a2a_step\<^sup>*\<^sup>* NewExtendedServer s" "a2_streams s i = Some c"
  shows "publish_send (c, ev) s \<noteq> None \<and> publish_send (c, ev) (UnsubscribeSession i (publish_lookup i ev s)) = None"
proof -
  have "a2a_ok s" using assms(1)
  proof (induction rule: rtranclp_induct)
    case base
    show ?case by (simp add: a2a_ok_def streams_ok_def tasks_ok_def NewExtendedServer_def)
  qed (blast intro: a2a_step_ok)
  then obtain ch where "a2_chans s c = Some ch" "\<not> ch_closed ch"
    using assms(2) unfolding a2a_ok_def streams_ok_def by blast
  then show ?thesis using assms(2)
    by (simp add: publish_send_def publish_lookup_def UnsubscribeSession_def Let_def)
qed

theorem a2a_publish_panics_witness:
  "publish_send (0, demo_event) (UnsubscribeSession ''s'' (publish_lookup ''s'' demo_event demo_streaming)) = None"
proof -
  have "a2_streams demo_streaming ''s'' = Some 0"
    by (simp add: demo_streaming_def publish_lookup_def a2a_CreateSession_def open_stream_def NewExtendedServer_def Let_def)
  then show ?thesis using a2a_publish_panics [OF demo_streaming_reachable, of "''s''" 0 demo_event] by simp
qed

section \<open>What becomes of a task\<close>

lemma on_task_GetTask:
  "a2a_GetTask i (snd (on_task f i s)) = map_option f (a2a_GetTask i s)"
  by (simp add: a2a_GetTask_def on_task_def split: option.split)

lemma GetTask_CreateTask: "a2a_GetTask (at_ID t) s' = Some t" if "a2a_CreateTask now nanos agent input s = (t, s')"
  using that by (auto simp: a2a_CreateTask_def a2a_GetTask_def Let_def)

lemma updates_terminal:
  "a2a_GetTask i (snd (SetTaskOutput now i out s)) = Some t \<Longrightarrow> terminal (at_Status t) \<and> at_CompletedAt t = Some now"
  "a2a_GetTask i (snd (SetTaskError now i e s)) = Some t \<Longrightarrow> terminal (at_Status t) \<and> at_CompletedAt t = Some now"
  by (auto simp: SetTaskOutput_def SetTaskError_def on_task_GetTask terminal_def)

text \<open>Cancelling a task does not stop it. Whenever the handler of an executing task has returned a
  result that is not yet recorded, a task cancelled meanwhile is recorded as completed all the same,
  with its output.\<close>

theorem a2a_cancel_overridden:
  assumes "(i, Inr out) \<in> set (a2_returned s)" "a2a_GetTask i s \<noteq> None"
  shows "\<exists>t t'. a2a_GetTask i (snd (CancelTask now i s)) = Some t \<and> at_Status t = TaskCancelled \<and>
    a2a_GetTask i (task_records later (i, Inr out) (snd (CancelTask now i s))) = Some t' \<and>
    at_Status t' = TaskCompleted \<and> at_Output t' = out"
proof -
  let ?c = "snd (CancelTask now i s)"
  obtain t0 where t0: "a2a_GetTask i s = Some t0" using assms(2) by auto
  then have c: "a2a_GetTask i ?c = Some (t0\<lparr>at_Status := TaskCancelled, at_UpdatedAt := now, at_CompletedAt := Some now\<rparr>)"
    by (simp add: CancelTask_def UpdateTaskStatus_def on_task_GetTask terminal_def Let_def)
  have "a2a_GetTask i (?c\<lparr>a2_returned := x\<rparr>) = a2a_GetTask i ?c" for x by (simp add: a2a_GetTask_def)
  then show ?thesis
    using c by (simp add: task_records_def SetTaskOutput_def on_task_GetTask Let_def)
qed

definition demo_returned :: a2a where
  "demo_returned = (let (t, s) = a2a_CreateTask 0 7 ''smartRouting'' Map.empty NewExtendedServer
     in s\<lparr>a2_returned := [(at_ID t, Inr None)]\<rparr>)"

theorem a2a_cancel_overridden_witness:
  "\<exists>t'. a2a_GetTask ''task-7'' (task_records 2 (''task-7'', Inr None) (snd (CancelTask 1 ''task-7'' demo_returned))) = Some t' \<and>
     at_Status t' = TaskCompleted"
proof -
  have i: "itoa 7 = ''7''" by code_simp
  have "(''task-7'', Inr None) \<in> set (a2_returned demo_returned)" "a2a_GetTask ''task-7'' demo_returned \<noteq> None"
    by (simp_all add: demo_returned_def a2a_CreateTask_def a2a_GetTask_def i Let_def)
  from a2a_cancel_overridden [OF this, of 1 2] show ?thesis by auto
qed

text \<open>
  A lookup of an agent that is not registered leaves a task that is completed, with the text of the
  error: the status the handler set is overwritten.
\<close>

lemma a2a_card_failure_completed:
  assumes "a2a_GetTask i s = Some t" "a2_tasks s i = Some r" "a2_handlers s (at_AgentID t) = Some HAgentCard"
    "at_Input t ''agent_id'' = Some (PString a)" "a2_agents s a = None"
  shows "\<exists>t'. a2a_GetTask i (task_records now (i, Inr (at_Output t)) (task_runs env (i, r) s)) = Some t' \<and>
    at_Status t' = TaskCompleted \<and> at_Error t' = ''agent not found: '' @ a"
proof -
  have h: "a2_heap s r = Some t" using assms(1,2) by (simp add: a2a_GetTask_def)
  have "a2a_GetTask i (task_runs env (i, r) s) = Some (t\<lparr>at_Error := ''agent not found: '' @ a, at_Status := TaskFailed\<rparr>)"
    using assms h by (simp add: task_runs_def run_handler_def handleAgentCard_def GetAgent_def a2a_GetTask_def Let_def)
  moreover have "a2a_GetTask i (s'\<lparr>a2_returned := x\<rparr>) = a2a_GetTask i s'" for s' x by (simp add: a2a_GetTask_def)
  ultimately show ?thesis by (simp add: task_records_def SetTaskOutput_def on_task_GetTask Let_def)
qed

text \<open>
  Streaming the events of a task creates a session under a fresh identifier, so that events published
  for the task reach nobody.
\<close>

lemma StreamTask_not_for_task:
  assumes "a2_sessions s i = None" "a2_streams s i = None" "uuid \<noteq> i"
  shows "publish_lookup i ev (snd (StreamTask now uuid i s)) = snd (StreamTask now uuid i s)"
  using assms
  by (simp add: StreamTask_def a2a_CreateSession_def SubscribeSession_def open_stream_def publish_lookup_def Let_def)

text \<open>Without a session identifier a synchronous message is always refused.\<close>

lemma SendMessageSync_no_session:
  assumes "am_SessionID msg = []" "a2_sessions s uuid = None"
  shows "SendMessageSync now uuid uuid2 w evs msg s = (Inl (''session not found: '' @ uuid), s)"
  using assms by (simp add: SendMessageSync_def SubscribeSession_def)

end
