(* ===== verification/Model_Router.thy ===== *)
theory Model_Router
  imports Go_Float
begin

text \<open>
  The model router of \<open>internal/routing/engine.go\<close> and the failover table of
  \<open>internal/routing/routing.go\<close>. Every router made by \<open>NewModelRouter\<close> refers to the one
  catalog \<open>DefaultModels\<close> of the package, which its methods update in place, so the state is
  the shared catalog together with the tenant strategies of each router. The iteration order
  of the catalog is an argument; prices are doubles and are added with rounding.
\<close>

section \<open>Models and requests\<close>

type_synonym strategy = gostr

definition StrategyCostOptimized :: strategy where "StrategyCostOptimized = ''cost_optimized''"
definition StrategyLatencyOptimized :: strategy where "StrategyLatencyOptimized = ''latency_optimized''"
definition StrategyCapabilityOptimized :: strategy where "StrategyCapabilityOptimized = ''capability_optimized''"

lemmas strategy_defs = StrategyCostOptimized_def StrategyLatencyOptimized_def StrategyCapabilityOptimized_def

record ModelInfo =
  mi_Name :: gostr
  mi_Provider :: gostr
  mi_CostPer1KInput :: float64
  mi_CostPer1KOutput :: float64
  mi_MaxTokens :: int
  mi_Capabilities :: "gostr list"
  mi_AvgLatencyMs :: int
  mi_Priority :: int
  mi_IsActive :: bool

type_synonym catalog = "(gostr, ModelInfo) gomap"

definition model_entry ::
  "gostr \<Rightarrow> gostr \<Rightarrow> rat \<Rightarrow> rat \<Rightarrow> int \<Rightarrow> gostr list \<Rightarrow> int \<Rightarrow> int \<Rightarrow> gostr \<times> ModelInfo" where
  "model_entry name provider cin cout maxt caps lat prio =
     (name, \<lparr>mi_Name = name, mi_Provider = provider, mi_CostPer1KInput = fl cin, mi_CostPer1KOutput = fl cout,
       mi_MaxTokens = maxt, mi_Capabilities = caps, mi_AvgLatencyMs = lat, mi_Priority = prio, mi_IsActive = True\<rparr>)"

definition DefaultModels :: catalog where
  "DefaultModels = map_of
     [model_entry ''gpt-4o'' ''openai'' (5 / 1000) (15 / 1000) 128000
        [''vision'', ''function_calling'', ''streaming''] 1000 1,
      model_entry ''gpt-4o-mini'' ''openai'' (15 / 100000) (6 / 10000) 128000
        [''function_calling'', ''streaming''] 500 2,
      model_entry ''gpt-4-turbo'' ''openai'' (1 / 100) (3 / 100) 128000
        [''vision'', ''function_calling'', ''streaming''] 1500 3,
      model_entry ''claude-3-5-sonnet'' ''anthropic'' (3 / 1000) (15 / 1000) 200000
        [''vision'', ''function_calling'', ''streaming''] 1200 1,
      model_entry ''claude-3-5-haiku'' ''anthropic'' (8 / 10000) (4 / 1000) 200000
        [''function_calling'', ''streaming''] 400 2,
      model_entry ''gemini-1.5-pro'' ''google'' (125 / 100000) (5 / 1000) 1000000
        [''vision'', ''function_calling'', ''streaming'', ''long_context''] 800 1,
      model_entry ''gemini-1.5-flash'' ''google'' (75 / 1000000) (3 / 10000) 1000000
        [''function_calling'', ''streaming'', ''long_context''] 300 2]"

record RouteTarget =
  rt_ProviderID :: gostr
  rt_ModelName :: gostr
  rt_Weight :: int
  rt_Priority :: int

record RoutingRequest =
  rr_RequestedModel :: gostr
  rr_TenantID :: gostr
  rr_Strategy :: strategy
  rr_RequiredCapabilities :: "gostr list"
  rr_PromptTokens :: int
  rr_MaxLatencyMs :: int
  rr_MaxCost :: float64

datatype routing_error = ErrNoModelAvailable

record routing_state =
  rs_models :: catalog
  rs_strategies :: "(nat, (gostr, strategy) gomap) gomap"
  rs_next :: nat

definition package_init :: routing_state where
  "package_init = \<lparr>rs_models = DefaultModels, rs_strategies = Map.empty, rs_next = 0\<rparr>"

definition NewModelRouter :: "routing_state \<Rightarrow> nat \<times> routing_state" where
  "NewModelRouter s = (rs_next s, s\<lparr>rs_strategies := (rs_strategies s)(rs_next s \<mapsto> Map.empty), rs_next := rs_next s + 1\<rparr>)"

section \<open>Selection\<close>

definition hasCapabilities :: "ModelInfo \<Rightarrow> gostr list \<Rightarrow> bool" where
  "hasCapabilities model required =
     (if length required = 0 then True else list_all (\<lambda>req. list_ex (\<lambda>cap. cap = req) (mi_Capabilities model)) required)"

definition mr_findCandidates :: "gostr list \<Rightarrow> catalog \<Rightarrow> RoutingRequest \<Rightarrow> ModelInfo list" where
  "mr_findCandidates order models req =
     (if rr_RequestedModel req \<noteq> [] then
        (case models (rr_RequestedModel req) of
           Some model \<Rightarrow> if mi_IsActive model then [model] else []
         | None \<Rightarrow> [])
      else concat (map (\<lambda>(_, model).
        if \<not> mi_IsActive model then []
        else if hasCapabilities model (rr_RequiredCapabilities req) then
          (if 0 < rr_MaxLatencyMs req \<and> rr_MaxLatencyMs req < mi_AvgLatencyMs model then [] else [model])
        else []) (range_of order models)))"

definition model_cost :: "ModelInfo \<Rightarrow> float64" where
  "model_cost model = fadd (mi_CostPer1KInput model) (mi_CostPer1KOutput model)"

fun cheapest_loop :: "ModelInfo list \<Rightarrow> float64 \<Rightarrow> ModelInfo option \<Rightarrow> ModelInfo option" where
  "cheapest_loop [] minCost fallback = fallback"
| "cheapest_loop (model # ms) minCost fallback =
     (if \<not> mi_IsActive model then cheapest_loop ms minCost fallback
      else let cost = model_cost model in
        if minCost < 0 \<or> cost < minCost then cheapest_loop ms cost (Some model)
        else cheapest_loop ms minCost fallback)"

definition findFallback :: "gostr list \<Rightarrow> catalog \<Rightarrow> ModelInfo option" where
  "findFallback order models =
     (case models ''gpt-4o-mini'' of
        Some model \<Rightarrow> if mi_IsActive model then Some model
          else cheapest_loop (map snd (range_of order models)) (- 1) None
      | None \<Rightarrow> cheapest_loop (map snd (range_of order models)) (- 1) None)"

text \<open>
  The three selections keep the best candidate so far and its key, and replace both when a
  later candidate is strictly better.
\<close>

fun selectByCost_loop :: "ModelInfo list \<Rightarrow> ModelInfo \<Rightarrow> float64 \<Rightarrow> ModelInfo" where
  "selectByCost_loop [] best minCost = best"
| "selectByCost_loop (c # cs) best minCost =
     (let cost = model_cost c in
      if cost < minCost then selectByCost_loop cs c cost else selectByCost_loop cs best minCost)"

definition selectByCost :: "ModelInfo list \<Rightarrow> ModelInfo" where
  "selectByCost cs = selectByCost_loop (tl cs) (hd cs) (model_cost (hd cs))"

fun mr_selectByLatency_loop :: "ModelInfo list \<Rightarrow> ModelInfo \<Rightarrow> int \<Rightarrow> ModelInfo" where
  "mr_selectByLatency_loop [] best minLatency = best"
| "mr_selectByLatency_loop (c # cs) best minLatency =
     (if mi_AvgLatencyMs c < minLatency then mr_selectByLatency_loop cs c (mi_AvgLatencyMs c)
      else mr_selectByLatency_loop cs best minLatency)"

definition mr_selectByLatency :: "ModelInfo list \<Rightarrow> ModelInfo" where
  "mr_selectByLatency cs = mr_selectByLatency_loop (tl cs) (hd cs) (mi_AvgLatencyMs (hd cs))"

fun selectByCapability_loop :: "ModelInfo list \<Rightarrow> ModelInfo \<Rightarrow> nat \<Rightarrow> int \<Rightarrow> ModelInfo" where
  "selectByCapability_loop [] best maxCaps maxPriority = best"
| "selectByCapability_loop (c # cs) best maxCaps maxPriority =
     (let caps = length (mi_Capabilities c) in
      if maxCaps < caps \<or> caps = maxCaps \<and> mi_Priority c < maxPriority
      then selectByCapability_loop cs c caps (mi_Priority c)
      else selectByCapability_loop cs best maxCaps maxPriority)"

definition selectByCapability :: "ModelInfo list \<Rightarrow> ModelInfo" where
  "selectByCapability cs =
     selectByCapability_loop (tl cs) (hd cs) (length (mi_Capabilities (hd cs))) (mi_Priority (hd cs))"

definition selectBest :: "ModelInfo list \<Rightarrow> strategy \<Rightarrow> ModelInfo option" where
  "selectBest candidates strategy =
     (if length candidates = 0 then None
      else if length candidates = 1 then Some (candidates ! 0)
      else if strategy = StrategyCostOptimized then Some (selectByCost candidates)
      else if strategy = StrategyLatencyOptimized then Some (mr_selectByLatency candidates)
      else if strategy = StrategyCapabilityOptimized then Some (selectByCapability candidates)
      else Some (selectByCost candidates))"

definition mr_getStrategy :: "(gostr, strategy) gomap \<Rightarrow> gostr \<Rightarrow> strategy \<Rightarrow> strategy" where
  "mr_getStrategy strategies tenantID preferred =
     (if preferred \<noteq> [] then preferred
      else case strategies tenantID of Some st \<Rightarrow> st | None \<Rightarrow> StrategyCostOptimized)"

definition target_of :: "ModelInfo \<Rightarrow> RouteTarget" where
  "target_of model = \<lparr>rt_ProviderID = mi_Provider model, rt_ModelName = mi_Name model, rt_Weight = 100,
     rt_Priority = mi_Priority model\<rparr>"

text \<open>A nil selection would be dereferenced; it does not occur, the candidates being non-empty there.\<close>

definition mr_Route :: "gostr list \<Rightarrow> nat \<Rightarrow> routing_state \<Rightarrow> RoutingRequest \<Rightarrow> routing_error + RouteTarget" where
  "mr_Route order r s req =
     (let strategy = mr_getStrategy (map_get Map.empty (rs_strategies s) r) (rr_TenantID req) (rr_Strategy req);
          candidates = mr_findCandidates order (rs_models s) req
      in if length candidates = 0 then
           (if rr_RequestedModel req \<noteq> [] then
              (case findFallback order (rs_models s) of
                 Some fallback \<Rightarrow> Inr (target_of fallback)
               | None \<Rightarrow> Inl ErrNoModelAvailable)
            else Inl ErrNoModelAvailable)
         else (case selectBest candidates strategy of
                 Some selected \<Rightarrow> Inr (target_of selected)
               | None \<Rightarrow> Inl ErrNoModelAvailable))"

section \<open>The other operations\<close>

definition mr_SetTenantStrategy :: "nat \<Rightarrow> gostr \<Rightarrow> strategy \<Rightarrow> routing_state \<Rightarrow> routing_state" where
  "mr_SetTenantStrategy r tenantID strategy s =
     s\<lparr>rs_strategies := (rs_strategies s)(r \<mapsto> (map_get Map.empty (rs_strategies s) r)(tenantID \<mapsto> strategy))\<rparr>"

definition AddModel :: "ModelInfo \<Rightarrow> routing_state \<Rightarrow> routing_state" where
  "AddModel model s = s\<lparr>rs_models := (rs_models s)(mi_Name model \<mapsto> model)\<rparr>"

definition mr_GetModel :: "gostr \<Rightarrow> routing_state \<Rightarrow> ModelInfo option" where
  "mr_GetModel name s = rs_models s name"

definition mr_ListModels :: "gostr list \<Rightarrow> routing_state \<Rightarrow> ModelInfo list" where
  "mr_ListModels order s = map snd (range_of order (rs_models s))"

definition latency_ema :: "int \<Rightarrow> int \<Rightarrow> int" where
  "latency_ema avg latencyMs =
     int_of_float (fadd (fmul (float_of_int avg) (fl (9 / 10))) (fmul (float_of_int latencyMs) (fl (1 / 10))))"

definition mr_RecordLatency :: "gostr \<Rightarrow> int \<Rightarrow> routing_state \<Rightarrow> routing_state" where
  "mr_RecordLatency modelName latencyMs s =
     (case rs_models s modelName of
        Some model \<Rightarrow> s\<lparr>rs_models := (rs_models s)(modelName \<mapsto>
          model\<lparr>mi_AvgLatencyMs := latency_ema (mi_AvgLatencyMs model) latencyMs\<rparr>)\<rparr>
      | None \<Rightarrow> s)"

definition DeactivateModel :: "gostr \<Rightarrow> routing_state \<Rightarrow> routing_state" where
  "DeactivateModel modelName s =
     (case rs_models s modelName of
        Some model \<Rightarrow> s\<lparr>rs_models := (rs_models s)(modelName \<mapsto> model\<lparr>mi_IsActive := False\<rparr>)\<rparr>
      | None \<Rightarrow> s)"

section \<open>The failover table\<close>

definition failover_targets :: "(gostr, RouteTarget list) gomap" where
  "failover_targets = map_of
     [(''gpt-4'', [\<lparr>rt_ProviderID = ''openai'', rt_ModelName = ''gpt-4o'', rt_Weight = 100, rt_Priority = 1\<rparr>,
         \<lparr>rt_ProviderID = ''azure-openai'', rt_ModelName = ''gpt-4-turbo'', rt_Weight = 0, rt_Priority = 2\<rparr>]),
      (''claude-3-opus'', [\<lparr>rt_ProviderID = ''anthropic'', rt_ModelName = ''claude-3-5-sonnet'', rt_Weight = 100, rt_Priority = 1\<rparr>,
         \<lparr>rt_ProviderID = ''aws-bedrock'', rt_ModelName = ''anthropic.claude-v3'', rt_Weight = 0, rt_Priority = 2\<rparr>])]"

definition failover_Route :: "gostr \<Rightarrow> RouteTarget" where
  "failover_Route requestedModel =
     (case failover_targets requestedModel of
        None \<Rightarrow> \<lparr>rt_ProviderID = ''openai'', rt_ModelName = ''gpt-4o-mini'', rt_Weight = 100, rt_Priority = 1\<rparr>
      | Some targets \<Rightarrow>
          if length targets = 0
          then \<lparr>rt_ProviderID = ''openai'', rt_ModelName = ''gpt-4o-mini'', rt_Weight = 100, rt_Priority = 1\<rparr>
          else targets ! 0)"

section \<open>Scanning for a best element\<close>

text \<open>
  The loops share a scan that replaces the current element by a strictly better one. Where
  better is a strict weak order, no element is better than the result.
\<close>

fun scan :: "('a \<Rightarrow> 'a \<Rightarrow> bool) \<Rightarrow> 'a \<Rightarrow> 'a list \<Rightarrow> 'a" where
  "scan better best [] = best"
| "scan better best (c # cs) = scan better (if better c best then c else best) cs"

lemma scan_in: "scan better best cs \<in> set (best # cs)"
  by (induction cs arbitrary: best) auto

locale preference =
  fixes better :: "'a \<Rightarrow> 'a \<Rightarrow> bool"
  assumes not_self: "\<not> better a a"
    and not_trans: "\<not> better a b \<Longrightarrow> \<not> better b c \<Longrightarrow> \<not> better a c"
    and asym: "better a b \<Longrightarrow> \<not> better b a"
begin

lemma scan_best: "c \<in> set (best # cs) \<Longrightarrow> \<not> better c (scan better best cs)"
proof (induction cs arbitrary: best c)
  case Nil
  then show ?case by (simp add: not_self)
next
  case (Cons d cs)
  let ?b = "if better d best then d else best"
  have b: "\<not> better ?b (scan better ?b cs)" by (rule Cons.IH) simp
  from Cons.prems consider "c = best" | "c = d" | "c \<in> set cs" by auto
  then show ?case
  proof cases
    case 1
    then have "\<not> better c ?b" by (auto simp: not_self dest: asym)
    then show ?thesis using not_trans [OF _ b] by simp
  next
    case 2
    then have "\<not> better c ?b" by (auto simp: not_self)
    then show ?thesis using not_trans [OF _ b] by simp
  next
    case 3
    then show ?thesis using Cons.IH [of c ?b] by simp
  qed
qed

end

definition cheaper :: "ModelInfo \<Rightarrow> ModelInfo \<Rightarrow> bool" where
  "cheaper a b \<longleftrightarrow> model_cost a < model_cost b"

definition faster :: "ModelInfo \<Rightarrow> ModelInfo \<Rightarrow> bool" where
  "faster a b \<longleftrightarrow> mi_AvgLatencyMs a < mi_AvgLatencyMs b"

definition more_capable :: "ModelInfo \<Rightarrow> ModelInfo \<Rightarrow> bool" where
  "more_capable a b \<longleftrightarrow> length (mi_Capabilities b) < length (mi_Capabilities a)
     \<or> length (mi_Capabilities a) = length (mi_Capabilities b) \<and> mi_Priority a < mi_Priority b"

interpretation cheaper: preference cheaper
  by unfold_locales (auto simp: cheaper_def)

interpretation faster: preference faster
  by unfold_locales (auto simp: faster_def)

interpretation more_capable: preference more_capable
  by unfold_locales (auto simp: more_capable_def)

lemma selectByCost_scan: "cs \<noteq> [] \<Longrightarrow> selectByCost cs = scan cheaper (hd cs) (tl cs)"
proof -
  have "selectByCost_loop cs b (model_cost b) = scan cheaper b cs" for cs b
    by (induction cs arbitrary: b) (auto simp: cheaper_def Let_def)
  then show ?thesis by (simp add: selectByCost_def)
qed

lemma mr_selectByLatency_scan: "cs \<noteq> [] \<Longrightarrow> mr_selectByLatency cs = scan faster (hd cs) (tl cs)"
proof -
  have "mr_selectByLatency_loop cs b (mi_AvgLatencyMs b) = scan faster b cs" for cs b
    by (induction cs arbitrary: b) (auto simp: faster_def)
  then show ?thesis by (simp add: mr_selectByLatency_def)
qed

lemma selectByCapability_scan: "cs \<noteq> [] \<Longrightarrow> selectByCapability cs = scan more_capable (hd cs) (tl cs)"
proof -
  have "selectByCapability_loop cs b (length (mi_Capabilities b)) (mi_Priority b) = scan more_capable b cs" for cs b
    by (induction cs arbitrary: b) (auto simp: more_capable_def Let_def)
  then show ?thesis by (simp add: selectByCapability_def)
qed

text \<open>The order a strategy selects by; an unknown strategy selects by cost.\<close>

definition preferred :: "strategy \<Rightarrow> ModelInfo \<Rightarrow> ModelInfo \<Rightarrow> bool" where
  "preferred st = (if st = StrategyLatencyOptimized then faster
     else if st = StrategyCapabilityOptimized then more_capable else cheaper)"

lemma selectBest_scan:
  "cs \<noteq> [] \<Longrightarrow> selectBest cs st = Some (scan (preferred st) (hd cs) (tl cs))"
proof (cases "length cs = 1")
  case True
  then obtain c where "cs = [c]" by (cases cs) auto
  then show ?thesis by (simp add: selectBest_def)
next
  case False
  assume "cs \<noteq> []"
  then show ?thesis using False
    by (auto simp: selectBest_def preferred_def strategy_defs selectByCost_scan mr_selectByLatency_scan selectByCapability_scan)
qed

lemma preferred_preference: "preference (preferred st)"
  using cheaper.preference_axioms faster.preference_axioms more_capable.preference_axioms
  by (simp add: preferred_def)

lemma selectBest_best:
  assumes "cs \<noteq> []"
  obtains m where "selectBest cs st = Some m" "m \<in> set cs" "\<forall>c \<in> set cs. \<not> preferred st c m"
proof -
  have "c \<in> set cs \<Longrightarrow> \<not> preferred st c (scan (preferred st) (hd cs) (tl cs))" for c
    using preference.scan_best [OF preferred_preference, of c "hd cs" "tl cs" st] assms by (cases cs) auto
  moreover have "scan (preferred st) (hd cs) (tl cs) \<in> set cs"
    using scan_in [of "preferred st" "hd cs" "tl cs"] assms by (cases cs) auto
  ultimately show thesis using that selectBest_scan [OF assms] by blast
qed

section \<open>What routing promises\<close>

definition eligible :: "catalog \<Rightarrow> RoutingRequest \<Rightarrow> ModelInfo \<Rightarrow> bool" where
  "eligible models req m \<longleftrightarrow> m \<in> ran models \<and> mi_IsActive m
     \<and> set (rr_RequiredCapabilities req) \<subseteq> set (mi_Capabilities m)
     \<and> (0 < rr_MaxLatencyMs req \<longrightarrow> mi_AvgLatencyMs m \<le> rr_MaxLatencyMs req)"

lemma hasCapabilities_iff: "hasCapabilities m required \<longleftrightarrow> set required \<subseteq> set (mi_Capabilities m)"
  by (auto simp: hasCapabilities_def list_all_iff list_ex_iff)

lemma mr_findCandidates_set:
  assumes "enumerates order models" "rr_RequestedModel req = []"
  shows "set (mr_findCandidates order models req) = {m. eligible models req m}"
proof -
  let ?ok = "\<lambda>m. mi_IsActive m \<and> hasCapabilities m (rr_RequiredCapabilities req)
    \<and> \<not> (0 < rr_MaxLatencyMs req \<and> rr_MaxLatencyMs req < mi_AvgLatencyMs m)"
  have "mr_findCandidates order models req = concat (map (\<lambda>(_, m). if ?ok m then [m] else []) (range_of order models))"
    using assms(2) by (auto simp: mr_findCandidates_def intro!: arg_cong [where f = concat])
  moreover have "set (range_of order models) = {(k, m). models k = Some m}"
    using range_of_enumerates [OF assms(1)] by auto
  ultimately have "set (mr_findCandidates order models req) = {m. (\<exists>k. models k = Some m) \<and> ?ok m}" by auto
  then show ?thesis by (auto simp: eligible_def hasCapabilities_iff ran_def)
qed

definition router_strategy :: "nat \<Rightarrow> routing_state \<Rightarrow> RoutingRequest \<Rightarrow> strategy" where
  "router_strategy r s req = mr_getStrategy (map_get Map.empty (rs_strategies s) r) (rr_TenantID req) (rr_Strategy req)"

text \<open>C24: Without a requested model, routing fails exactly when no active model has the required capabilities
  within the latency bound; otherwise it returns such a model that no other beats under the strategy of the
  request, the tenant or the default, whatever order the catalog is visited in.\<close>

theorem mr_route_optimal:
  assumes "enumerates order (rs_models s)" "rr_RequestedModel req = []"
  shows "case mr_Route order r s req of
      Inl _ \<Rightarrow> \<not> (\<exists>m. eligible (rs_models s) req m)
    | Inr t \<Rightarrow> \<exists>m. eligible (rs_models s) req m \<and> t = target_of m
        \<and> (\<forall>m'. eligible (rs_models s) req m' \<longrightarrow> \<not> preferred (router_strategy r s req) m' m)"
proof (cases "mr_findCandidates order (rs_models s) req = []")
  case True
  then show ?thesis using mr_findCandidates_set [OF assms] assms(2) by (auto simp: mr_Route_def)
next
  case False
  then obtain m where "selectBest (mr_findCandidates order (rs_models s) req) (router_strategy r s req) = Some m"
    "m \<in> set (mr_findCandidates order (rs_models s) req)"
    "\<forall>c \<in> set (mr_findCandidates order (rs_models s) req). \<not> preferred (router_strategy r s req) c m"
    by (rule selectBest_best)
  then show ?thesis using False mr_findCandidates_set [OF assms]
    by (auto simp: mr_Route_def router_strategy_def Let_def)
qed

lemma DefaultModels_named: "DefaultModels k = Some m \<Longrightarrow> mi_Name m = k"
  by (auto simp: DefaultModels_def model_entry_def split: if_splits)

text \<open>A request that one model of a small catalog serves.\<close>

definition demo_model :: "gostr \<Rightarrow> rat \<Rightarrow> ModelInfo" where
  "demo_model name cost = snd (model_entry name ''openai'' cost cost 1000 [''streaming''] 100 1)"

definition demo_state :: routing_state where
  "demo_state = \<lparr>rs_models = [''a'' \<mapsto> demo_model ''a'' 1, ''b'' \<mapsto> demo_model ''b'' 2], rs_strategies = Map.empty, rs_next = 0\<rparr>"

definition route_demo :: RoutingRequest where
  "route_demo = \<lparr>rr_RequestedModel = [], rr_TenantID = ''t'', rr_Strategy = [], rr_RequiredCapabilities = [''streaming''],
     rr_PromptTokens = 0, rr_MaxLatencyMs = 0, rr_MaxCost = 0\<rparr>"

lemma demo_enumerates: "enumerates [''b'', ''a''] (rs_models demo_state)"
  by (auto simp: enumerates_def demo_state_def split: if_splits)

theorem mr_route_optimal_witness:
  "\<exists>m. eligible (rs_models demo_state) route_demo m \<and> mr_Route [''b'', ''a''] 0 demo_state route_demo = Inr (target_of m)
     \<and> (\<forall>m'. eligible (rs_models demo_state) route_demo m'
          \<longrightarrow> \<not> preferred (router_strategy 0 demo_state route_demo) m' m)"
proof -
  have "rr_RequestedModel route_demo = []" by (simp add: route_demo_def)
  note opt = mr_route_optimal [OF demo_enumerates this, of 0]
  have "eligible (rs_models demo_state) route_demo (demo_model ''a'' 1)"
    by (simp add: eligible_def demo_state_def route_demo_def demo_model_def model_entry_def ran_def)
  then show ?thesis using opt by (cases "mr_Route [''b'', ''a''] 0 demo_state route_demo") auto
qed

section \<open>Requested models\<close>

lemma cheapest_loop_some:
  assumes "\<forall>m \<in> set ms. 0 \<le> model_cost m" "0 \<le> model_cost b"
  shows "cheapest_loop ms (model_cost b) (Some b) = Some (scan cheaper b (filter mi_IsActive ms))"
  using assms
proof (induction ms arbitrary: b)
  case (Cons m ms)
  then show ?case by (auto simp: Let_def cheaper_def)
qed simp

lemma cheapest_loop_none:
  assumes "\<forall>m \<in> set ms. 0 \<le> model_cost m"
  shows "cheapest_loop ms (- 1) None = (case filter mi_IsActive ms of [] \<Rightarrow> None | m # r \<Rightarrow> Some (scan cheaper m r))"
  using assms
proof (induction ms)
  case (Cons m ms)
  then show ?case using cheapest_loop_some [of ms m] by (auto simp: Let_def)
qed simp

definition active_in :: "catalog \<Rightarrow> gostr \<Rightarrow> bool" where
  "active_in models name \<longleftrightarrow> (\<exists>m. models name = Some m \<and> mi_IsActive m)"

lemma set_active:
  "enumerates order models \<Longrightarrow> set (filter mi_IsActive (map snd (range_of order models))) = {m \<in> ran models. mi_IsActive m}"
proof -
  assume e: "enumerates order models"
  have "snd ` set (range_of order models) = ran models"
    using range_of_enumerates [OF e] by (force simp: ran_def image_iff)
  then show ?thesis by auto
qed

text \<open>For a requested model, routing returns it when it is active, else gpt-4o-mini when that is active, else
  an active model of least cost, provided no cost is negative; it fails exactly when no model is active.\<close>

theorem mr_route_requested:
  assumes "enumerates order (rs_models s)" "rr_RequestedModel req \<noteq> []" "\<forall>m \<in> ran (rs_models s). 0 \<le> model_cost m"
  defines "models \<equiv> rs_models s"
  shows "case mr_Route order r s req of
      Inl _ \<Rightarrow> \<not> (\<exists>m \<in> ran models. mi_IsActive m)
    | Inr t \<Rightarrow> \<exists>m \<in> ran models. mi_IsActive m \<and> t = target_of m \<and>
        (if active_in models (rr_RequestedModel req) then models (rr_RequestedModel req) = Some m
         else if active_in models ''gpt-4o-mini'' then models ''gpt-4o-mini'' = Some m
         else \<forall>m' \<in> ran models. mi_IsActive m' \<longrightarrow> model_cost m \<le> model_cost m')"
proof (cases "active_in models (rr_RequestedModel req)")
  case True
  then obtain m where "models (rr_RequestedModel req) = Some m" "mi_IsActive m" by (auto simp: active_in_def)
  then show ?thesis using True assms(2)
    by (auto simp: mr_Route_def mr_findCandidates_def selectBest_def models_def Let_def intro!: ranI)
next
  case no_req: False
  then have "mr_findCandidates order models req = []"
    using assms(2) by (auto simp: mr_findCandidates_def active_in_def split: option.split)
  then have route: "mr_Route order r s req =
      (case findFallback order models of Some m \<Rightarrow> Inr (target_of m) | None \<Rightarrow> Inl ErrNoModelAvailable)"
    using assms(2) by (simp add: mr_Route_def models_def)
  show ?thesis
  proof (cases "active_in models ''gpt-4o-mini''")
    case True
    then obtain m where "models ''gpt-4o-mini'' = Some m" "mi_IsActive m" by (auto simp: active_in_def)
    then show ?thesis using no_req True by (auto simp: route findFallback_def intro!: ranI)
  next
    case False
    let ?ms = "map snd (range_of order models)"
    have active: "set (filter mi_IsActive ?ms) = {m \<in> ran models. mi_IsActive m}"
      using assms(1) unfolding models_def by (rule set_active)
    have "set ?ms \<subseteq> ran models" by (auto simp: set_range_of ran_def)
    then have "findFallback order models = (case filter mi_IsActive ?ms of [] \<Rightarrow> None | m # r \<Rightarrow> Some (scan cheaper m r))"
      using False assms(3) cheapest_loop_none [of ?ms]
      by (auto simp: findFallback_def active_in_def models_def split: option.split)
    then show ?thesis
    proof (cases "filter mi_IsActive ?ms")
      case Nil
      then have "findFallback order models = None" using \<open>findFallback order models = _\<close> by (simp only: list.case)
      then show ?thesis using active Nil by (auto simp: route)
    next
      case (Cons b bs)
      let ?m = "scan cheaper b bs"
      have "findFallback order models = Some ?m" using \<open>findFallback order models = _\<close> Cons by (simp only: list.case)
      moreover have "?m \<in> {m \<in> ran models. mi_IsActive m}"
        unfolding active [symmetric] Cons by (rule scan_in)
      moreover have "\<forall>m' \<in> ran models. mi_IsActive m' \<longrightarrow> model_cost ?m \<le> model_cost m'"
      proof (intro ballI impI)
        fix m' assume "m' \<in> ran models" "mi_IsActive m'"
        then have "m' \<in> set (b # bs)" using active Cons by simp
        then show "model_cost ?m \<le> model_cost m'" using cheaper.scan_best [of m' b bs] by (simp add: cheaper_def)
      qed
      ultimately show ?thesis using no_req False by (auto simp: route)
    qed
  qed
qed

theorem mr_route_requested_witness:
  "\<exists>m \<in> ran (rs_models demo_state). mi_IsActive m
     \<and> mr_Route [''b'', ''a''] 0 demo_state (route_demo\<lparr>rr_RequestedModel := ''gone''\<rparr>) = Inr (target_of m)
     \<and> (\<forall>m' \<in> ran (rs_models demo_state). mi_IsActive m' \<longrightarrow> model_cost m \<le> model_cost m')"
proof -
  let ?req = "route_demo\<lparr>rr_RequestedModel := ''gone''\<rparr>"
  have ran: "ran (rs_models demo_state) = {demo_model ''a'' 1, demo_model ''b'' 2}"
    by (simp add: demo_state_def ran_map_upd insert_commute)
  have "\<forall>m \<in> ran (rs_models demo_state). 0 \<le> model_cost m"
    unfolding ran by (auto simp: demo_model_def model_entry_def model_cost_def fadd_def intro!: fl_nonneg add_nonneg_nonneg)
  moreover have ne: "rr_RequestedModel ?req \<noteq> []" by simp
  ultimately have r: "case mr_Route [''b'', ''a''] 0 demo_state ?req of
      Inl _ \<Rightarrow> \<not> (\<exists>m \<in> ran (rs_models demo_state). mi_IsActive m)
    | Inr t \<Rightarrow> \<exists>m \<in> ran (rs_models demo_state). mi_IsActive m \<and> t = target_of m \<and>
        (if active_in (rs_models demo_state) (rr_RequestedModel ?req) then rs_models demo_state (rr_RequestedModel ?req) = Some m
         else if active_in (rs_models demo_state) ''gpt-4o-mini'' then rs_models demo_state ''gpt-4o-mini'' = Some m
         else \<forall>m' \<in> ran (rs_models demo_state). mi_IsActive m' \<longrightarrow> model_cost m \<le> model_cost m')"
    by (intro mr_route_requested [OF demo_enumerates])
  have "\<not> active_in (rs_models demo_state) (rr_RequestedModel ?req)" "\<not> active_in (rs_models demo_state) ''gpt-4o-mini''"
    by (simp_all add: active_in_def demo_state_def)
  moreover have "mi_IsActive (demo_model ''a'' 1)" by (simp add: demo_model_def model_entry_def)
  then have "\<exists>m \<in> ran (rs_models demo_state). mi_IsActive m" unfolding ran by blast
  ultimately show ?thesis using r
    by (cases "mr_Route [''b'', ''a''] 0 demo_state ?req") (simp_all only: sum.case if_False, blast+)
qed

section \<open>Deactivation\<close>

text \<open>The calls on any of the routers that change the shared state.\<close>

datatype route_op = OpNewRouter | OpSetStrategy nat gostr strategy | OpAddModel ModelInfo
  | OpRecordLatency gostr int | OpDeactivate gostr

fun route_exec :: "route_op \<Rightarrow> routing_state \<Rightarrow> routing_state" where
  "route_exec OpNewRouter s = snd (NewModelRouter s)"
| "route_exec (OpSetStrategy r t st) s = mr_SetTenantStrategy r t st s"
| "route_exec (OpAddModel m) s = AddModel m s"
| "route_exec (OpRecordLatency n l) s = mr_RecordLatency n l s"
| "route_exec (OpDeactivate n) s = DeactivateModel n s"

definition catalog_named :: "routing_state \<Rightarrow> bool" where
  "catalog_named s \<longleftrightarrow> (\<forall>k m. rs_models s k = Some m \<longrightarrow> mi_Name m = k)"

lemma catalog_named_init [simp]: "catalog_named package_init"
  by (simp add: catalog_named_def package_init_def DefaultModels_named)

lemma catalog_named_exec: "catalog_named s \<Longrightarrow> catalog_named (route_exec op s)"
  by (cases op) (auto simp: catalog_named_def NewModelRouter_def mr_SetTenantStrategy_def AddModel_def
      mr_RecordLatency_def DeactivateModel_def split: option.splits)

lemma not_active_exec:
  "\<not> active_in (rs_models s) n \<Longrightarrow> (\<forall>m. op = OpAddModel m \<longrightarrow> mi_Name m \<noteq> n) \<Longrightarrow>
   \<not> active_in (rs_models (route_exec op s)) n"
  by (cases op) (auto simp: active_in_def NewModelRouter_def mr_SetTenantStrategy_def AddModel_def
      mr_RecordLatency_def DeactivateModel_def split: option.splits if_splits)

lemma cheapest_loop_active:
  "cheapest_loop ms c fb = Some m \<Longrightarrow> fb = Some m \<or> m \<in> set ms \<and> mi_IsActive m"
  by (induction ms c fb rule: cheapest_loop.induct) (auto simp: Let_def split: if_splits)

lemma range_of_active: "m \<in> snd ` set (range_of order models) \<Longrightarrow> m \<in> ran models"
  by (auto simp: set_range_of ran_def)

lemma mr_findCandidates_active:
  "m \<in> set (mr_findCandidates order models req) \<Longrightarrow> m \<in> ran models \<and> mi_IsActive m"
  by (auto simp: mr_findCandidates_def set_range_of ran_def split: if_splits option.splits)

lemma mr_Route_active:
  assumes "mr_Route order r s req = Inr t"
  obtains m where "m \<in> ran (rs_models s)" "mi_IsActive m" "t = target_of m"
proof (cases "mr_findCandidates order (rs_models s) req = []")
  case True
  then obtain m where m: "findFallback order (rs_models s) = Some m" "t = target_of m"
    using assms by (auto simp: mr_Route_def split: if_splits option.splits)
  then have "m \<in> ran (rs_models s) \<and> mi_IsActive m"
    by (auto simp: findFallback_def ranI dest!: cheapest_loop_active intro: range_of_active split: option.splits if_splits)
  then show thesis using m(2) that by blast
next
  case False
  define st where "st = router_strategy r s req"
  obtain m where "selectBest (mr_findCandidates order (rs_models s) req) st = Some m"
    "m \<in> set (mr_findCandidates order (rs_models s) req)" by (rule selectBest_best [OF False])
  then show thesis using that mr_findCandidates_active [of m] assms False
    by (auto simp: mr_Route_def st_def router_strategy_def Let_def)
qed

lemma mr_Route_some:
  assumes "mr_findCandidates order (rs_models s) req \<noteq> []"
  shows "\<exists>t. mr_Route order r s req = Inr t"
  using assms selectBest_scan [OF assms] by (simp add: mr_Route_def Let_def)

text \<open>C26: After a model is deactivated through one router, no router routes to it, however the calls that follow
  are interleaved, until a model of its name is added again.\<close>

theorem mr_deactivated_never_routed:
  assumes "catalog_named s" "\<forall>m. OpAddModel m \<in> set ops \<longrightarrow> mi_Name m \<noteq> n"
    "mr_Route order r (fold route_exec ops (DeactivateModel n s)) req = Inr t"
  shows "rt_ModelName t \<noteq> n"
proof -
  have "catalog_named (fold route_exec ops s') \<and> \<not> active_in (rs_models (fold route_exec ops s')) n"
    if "catalog_named s'" "\<not> active_in (rs_models s') n" for s'
    using that assms(2)
    by (induction ops arbitrary: s') (simp_all add: catalog_named_exec not_active_exec)
  moreover have "catalog_named (DeactivateModel n s)" using catalog_named_exec [OF assms(1), of "OpDeactivate n"] by simp
  moreover have "\<not> active_in (rs_models (DeactivateModel n s)) n"
    by (auto simp: DeactivateModel_def active_in_def split: option.splits)
  ultimately have end_state: "catalog_named (fold route_exec ops (DeactivateModel n s))"
    "\<not> active_in (rs_models (fold route_exec ops (DeactivateModel n s))) n" by blast+
  obtain m where "m \<in> ran (rs_models (fold route_exec ops (DeactivateModel n s)))" "mi_IsActive m" "t = target_of m"
    by (rule mr_Route_active [OF assms(3)])
  with end_state show ?thesis by (auto simp: catalog_named_def active_in_def ran_def target_of_def)
qed

theorem mr_deactivated_never_routed_witness:
  "\<exists>t. mr_Route [''b'', ''a''] 1 (fold route_exec [OpNewRouter, OpRecordLatency ''a'' 5] (DeactivateModel ''a'' demo_state))
      route_demo = Inr t \<and> rt_ModelName t \<noteq> ''a''"
proof -
  let ?ops = "[OpNewRouter, OpRecordLatency ''a'' 5]"
  have named: "catalog_named demo_state"
    by (auto simp: catalog_named_def demo_state_def demo_model_def model_entry_def)
  have b: "rs_models (fold route_exec ?ops (DeactivateModel ''a'' demo_state)) ''b'' = Some (demo_model ''b'' 2)"
    by (simp add: DeactivateModel_def demo_state_def NewModelRouter_def mr_RecordLatency_def)
  have "demo_model ''b'' 2 \<in> set (mr_findCandidates [''b'', ''a'']
      (rs_models (fold route_exec ?ops (DeactivateModel ''a'' demo_state))) route_demo)"
    using b by (simp add: mr_findCandidates_def route_demo_def demo_model_def model_entry_def hasCapabilities_iff)
  then have "mr_findCandidates [''b'', ''a''] (rs_models (fold route_exec ?ops (DeactivateModel ''a'' demo_state))) route_demo \<noteq> []"
    by auto
  then obtain t where t: "mr_Route [''b'', ''a''] 1 (fold route_exec ?ops (DeactivateModel ''a'' demo_state)) route_demo = Inr t"
    using mr_Route_some by blast
  moreover have "rt_ModelName t \<noteq> ''a''"
    by (rule mr_deactivated_never_routed [OF named _ t]) simp
  ultimately show ?thesis by blast
qed

end
