(* ===== verification/Ext_Router.thy ===== *)
theory Ext_Router
  imports Model_Router "HOL-Library.Multiset"
begin

text \<open>
  The extended model router of \<open>internal/routing/extended_router.go\<close>: candidates are filtered,
  scored by nine weighted factors in rounded floating point and sorted by score, and the
  latency tracker keeps a window of samples per model. The iteration order of the catalog is
  an argument. Products and sums round one by one, from left to right.
\<close>

section \<open>Weights\<close>

record ScoringWeights =
  w_Latency :: float64
  w_Cost :: float64
  w_Quality :: float64
  w_Reliability :: float64
  w_Capabilities :: float64
  w_Throughput :: float64
  w_Compliance :: float64
  w_Security :: float64
  w_Geographic :: float64

text \<open>Weights written as decimal literals with two digits.\<close>

definition weights :: "rat \<Rightarrow> rat \<Rightarrow> rat \<Rightarrow> rat \<Rightarrow> rat \<Rightarrow> rat \<Rightarrow> rat \<Rightarrow> rat \<Rightarrow> rat \<Rightarrow> ScoringWeights" where
  "weights lat cost qual rel cap thr cmpl sec geo =
     \<lparr>w_Latency = fl (lat / 100), w_Cost = fl (cost / 100), w_Quality = fl (qual / 100),
      w_Reliability = fl (rel / 100), w_Capabilities = fl (cap / 100), w_Throughput = fl (thr / 100),
      w_Compliance = fl (cmpl / 100), w_Security = fl (sec / 100), w_Geographic = fl (geo / 100)\<rparr>"

definition DefaultScoringWeights :: ScoringWeights where
  "DefaultScoringWeights = weights 22 17 17 13 8 8 5 5 5"

definition weights_sum :: "ScoringWeights \<Rightarrow> float64" where
  "weights_sum w = fadd (fadd (fadd (fadd (fadd (fadd (fadd (fadd (w_Latency w) (w_Cost w)) (w_Quality w))
     (w_Reliability w)) (w_Capabilities w)) (w_Throughput w)) (w_Compliance w)) (w_Security w)) (w_Geographic w)"

definition weights_Validate :: "ScoringWeights \<Rightarrow> bool" where
  "weights_Validate w \<longleftrightarrow> \<bar>fsub (weights_sum w) 1\<bar> < fl (1 / 1000)"

record ModePack =
  mp_Name :: gostr
  mp_Weights :: ScoringWeights
  mp_Strategy :: strategy

definition ModePacks :: "(gostr \<times> ModePack) list" where
  "ModePacks =
     [(''ship_fast'', \<lparr>mp_Name = ''ship_fast'', mp_Weights = weights 35 15 10 10 10 10 3 2 5,
        mp_Strategy = ''least_latency''\<rparr>),
      (''cost_saver'', \<lparr>mp_Name = ''cost_saver'', mp_Weights = weights 10 40 10 10 10 5 5 5 5,
        mp_Strategy = ''cheapest''\<rparr>),
      (''quality_first'', \<lparr>mp_Name = ''quality_first'', mp_Weights = weights 10 10 35 15 10 5 5 5 5,
        mp_Strategy = ''quality_first''\<rparr>),
      (''offline_friendly'', \<lparr>mp_Name = ''offline_friendly'', mp_Weights = weights 15 20 15 20 10 5 5 5 5,
        mp_Strategy = ''offline_friendly''\<rparr>),
      (''balanced'', \<lparr>mp_Name = ''balanced'', mp_Weights = weights 15 15 15 15 12 10 6 6 6,
        mp_Strategy = ''balanced''\<rparr>)]"

section \<open>Models, requests and the router\<close>

record ExtendedModelInfo =
  em_Name :: gostr
  em_Provider :: gostr
  em_CostPer1KInput :: float64
  em_CostPer1KOutput :: float64
  em_MaxTokens :: int
  em_Capabilities :: "gostr list"
  em_AvgLatencyMs :: int
  em_Priority :: int
  em_IsActive :: bool
  em_SuccessRate :: float64
  em_RequestsPerMin :: int
  em_Region :: gostr
  em_ComplianceScore :: float64
  em_SecurityLevel :: gostr
  em_ContextWindow :: int
  em_LastHealthCheck :: int

record ScoringFactors =
  f_Latency :: float64
  f_Cost :: float64
  f_Quality :: float64
  f_Reliability :: float64
  f_Capabilities :: float64
  f_Throughput :: float64
  f_Compliance :: float64
  f_Security :: float64
  f_Geographic :: float64

record ScoringResult =
  sr_ModelName :: gostr
  sr_ProviderID :: gostr
  sr_TotalScore :: float64
  sr_Factors :: ScoringFactors
  sr_Breakdown :: "(gostr \<times> float64) list"
  sr_Rank :: int

record LatencyTracker =
  lt_latencies :: "(gostr, int list) gomap"
  lt_window :: int

record ext_router =
  er_models :: "(gostr, ExtendedModelInfo) gomap"
  er_strategies :: "(gostr, strategy) gomap"
  er_customWeights :: "(gostr, ScoringWeights) gomap"
  er_modePacks :: "(gostr, ModePack) gomap"
  er_requestCounts :: "(gostr, int) gomap"
  er_latencyTracker :: LatencyTracker

record ExtendedRoutingRequest = RoutingRequest +
  rx_ModePack :: gostr
  rx_CustomWeights :: ScoringWeights
  rx_PreferredRegion :: gostr
  rx_MinSuccessRate :: float64
  rx_RequiredSecurity :: gostr

section \<open>The latency tracker\<close>

definition NewLatencyTracker :: "int \<Rightarrow> LatencyTracker" where
  "NewLatencyTracker window = \<lparr>lt_latencies = Map.empty, lt_window = (if window \<le> 0 then 100 else window)\<rparr>"

definition lt_RecordLatency :: "gostr \<Rightarrow> int \<Rightarrow> LatencyTracker \<Rightarrow> LatencyTracker" where
  "lt_RecordLatency modelName latencyMs t =
     (let samples = map_get [] (lt_latencies t) modelName @ [latencyMs];
          samples = (if lt_window t < int (length samples)
                     then drop (length samples - nat (lt_window t)) samples else samples)
      in t\<lparr>lt_latencies := (lt_latencies t)(modelName \<mapsto> samples)\<rparr>)"

text \<open>The division of \<open>int64\<close> truncates towards zero.\<close>

definition go_quot :: "int \<Rightarrow> int \<Rightarrow> int" where
  "go_quot a n = (if a < 0 then - ((- a) div n) else a div n)"

definition GetAverageLatency :: "gostr \<Rightarrow> LatencyTracker \<Rightarrow> int" where
  "GetAverageLatency modelName t =
     (let samples = map_get [] (lt_latencies t) modelName in
      if length samples = 0 then 0
      else go_quot (foldl (\<lambda>sum s. wrap64 (sum + s)) 0 samples) (int (length samples)))"

definition swap_at :: "nat \<Rightarrow> nat \<Rightarrow> 'a list \<Rightarrow> 'a list" where
  "swap_at i j xs = xs[i := xs ! j, j := xs ! i]"

text \<open>
  The copy is rearranged by swapping opposite elements. An index below zero panics, which is
  \<open>None\<close>.
\<close>

definition swap_halves :: "'a list \<Rightarrow> 'a list" where
  "swap_halves xs = fold (\<lambda>i ys. swap_at i (length ys - 1 - i) ys) [0..<length xs div 2] xs"

definition GetPercentileLatency :: "gostr \<Rightarrow> float64 \<Rightarrow> LatencyTracker \<Rightarrow> int option" where
  "GetPercentileLatency modelName percentile t =
     (let samples = map_get [] (lt_latencies t) modelName in
      if length samples = 0 then Some 0
      else let arranged = swap_halves samples;
               idx = int_of_float (fdiv (fmul (float_of_int (int (length arranged))) percentile) 100);
               idx = (if int (length arranged) \<le> idx then int (length arranged) - 1 else idx)
        in if idx < 0 then None else Some (arranged ! nat idx))"

section \<open>Registration and preferences\<close>

definition NewExtendedModelRouter :: ext_router where
  "NewExtendedModelRouter = \<lparr>er_models = Map.empty, er_strategies = Map.empty, er_customWeights = Map.empty,
     er_modePacks = map_of ModePacks, er_requestCounts = Map.empty, er_latencyTracker = NewLatencyTracker 100\<rparr>"

definition RegisterModel :: "ExtendedModelInfo \<Rightarrow> ext_router \<Rightarrow> ext_router" where
  "RegisterModel model r = r\<lparr>er_models := (er_models r)(em_Name model \<mapsto> model)\<rparr>"

definition RegisterModelFromInfo :: "ModelInfo \<Rightarrow> ext_router \<Rightarrow> ext_router" where
  "RegisterModelFromInfo model r = RegisterModel
     \<lparr>em_Name = mi_Name model, em_Provider = mi_Provider model, em_CostPer1KInput = mi_CostPer1KInput model,
      em_CostPer1KOutput = mi_CostPer1KOutput model, em_MaxTokens = mi_MaxTokens model,
      em_Capabilities = mi_Capabilities model, em_AvgLatencyMs = mi_AvgLatencyMs model,
      em_Priority = mi_Priority model, em_IsActive = mi_IsActive model, em_SuccessRate = 99,
      em_RequestsPerMin = 1000, em_Region = ''us-east'', em_ComplianceScore = fl (9 / 10),
      em_SecurityLevel = ''standard'', em_ContextWindow = mi_MaxTokens model, em_LastHealthCheck = 0\<rparr> r"

definition er_SetTenantStrategy :: "gostr \<Rightarrow> strategy \<Rightarrow> ext_router \<Rightarrow> ext_router" where
  "er_SetTenantStrategy tenantID st r = r\<lparr>er_strategies := (er_strategies r)(tenantID \<mapsto> st)\<rparr>"

definition SetTenantWeights :: "gostr \<Rightarrow> ScoringWeights \<Rightarrow> ext_router \<Rightarrow> ext_router" where
  "SetTenantWeights tenantID w r = r\<lparr>er_customWeights := (er_customWeights r)(tenantID \<mapsto> w)\<rparr>"

definition er_getStrategy :: "ext_router \<Rightarrow> gostr \<Rightarrow> strategy \<Rightarrow> strategy" where
  "er_getStrategy r tenantID prefd =
     (if prefd \<noteq> [] then prefd
      else case er_strategies r tenantID of Some st \<Rightarrow> st | None \<Rightarrow> ''balanced'')"

definition strategy_weights :: "strategy \<Rightarrow> ScoringWeights" where
  "strategy_weights st =
     (if st = ''least_latency'' then weights 40 15 15 10 5 5 3 2 5
      else if st = ''cheapest'' then weights 10 45 10 10 5 5 5 5 5
      else if st = ''quality_first'' then weights 10 10 40 15 10 5 3 2 5
      else if st = ''balanced'' then DefaultScoringWeights
      else if st = ''cost_aware'' then weights 15 35 15 10 8 5 5 2 5
      else if st = ''throughput'' then weights 15 15 10 10 10 30 3 2 5
      else if st = ''reliability'' then weights 10 10 10 40 8 8 5 4 5
      else if st = ''compliance'' then weights 8 8 10 10 8 5 40 6 5
      else if st = ''security_first'' then weights 5 5 10 15 10 5 10 35 5
      else if st = ''geographic'' then weights 15 10 10 10 8 5 5 5 32
      else if st = ''offline_friendly'' then weights 15 20 15 25 8 5 3 4 5
      else if st = ''load_balanced'' then weights 12 12 12 12 12 25 5 5 5
      else DefaultScoringWeights)"

definition getWeights :: "ext_router \<Rightarrow> gostr \<Rightarrow> gostr \<Rightarrow> strategy \<Rightarrow> ScoringWeights" where
  "getWeights r tenantID modePack st =
     (case er_customWeights r tenantID of
        Some w \<Rightarrow> w
      | None \<Rightarrow>
          (if modePack \<noteq> [] then
             (case er_modePacks r modePack of Some pack \<Rightarrow> mp_Weights pack | None \<Rightarrow> strategy_weights st)
           else strategy_weights st))"

section \<open>Candidates\<close>

definition security_levels :: "(gostr, int) gomap" where
  "security_levels = map_of [(''standard'', 1), (''enhanced'', 2), (''high'', 3), (''maximum'', 4)]"

definition securitySatisfies :: "gostr \<Rightarrow> gostr \<Rightarrow> bool" where
  "securitySatisfies actual required =
     (case (security_levels actual, security_levels required) of
        (Some a, Some q) \<Rightarrow> q \<le> a
      | _ \<Rightarrow> actual = required)"

definition er_hasCapabilities :: "ExtendedModelInfo \<Rightarrow> gostr list \<Rightarrow> bool" where
  "er_hasCapabilities model required =
     (if length required = 0 then True
      else list_all (\<lambda>req. req \<in> set (em_Capabilities model)) required)"

definition er_accepts :: "'a ExtendedRoutingRequest_scheme \<Rightarrow> ExtendedModelInfo \<Rightarrow> bool" where
  "er_accepts req model \<longleftrightarrow>
     (if \<not> em_IsActive model then False
      else if 0 < length (rr_RequiredCapabilities req) \<and> \<not> er_hasCapabilities model (rr_RequiredCapabilities req) then False
      else if 0 < rr_MaxLatencyMs req \<and> rr_MaxLatencyMs req < em_AvgLatencyMs model then False
      else if 0 < rx_MinSuccessRate req \<and> em_SuccessRate model < rx_MinSuccessRate req then False
      else if rx_RequiredSecurity req \<noteq> [] \<and> em_SecurityLevel model \<noteq> rx_RequiredSecurity req
        \<and> \<not> securitySatisfies (em_SecurityLevel model) (rx_RequiredSecurity req) then False
      else True)"

definition er_findCandidates :: "gostr list \<Rightarrow> ext_router \<Rightarrow> ExtendedRoutingRequest \<Rightarrow> ExtendedModelInfo list" where
  "er_findCandidates order r req =
     (if rr_RequestedModel req \<noteq> [] then
        (case er_models r (rr_RequestedModel req) of
           Some model \<Rightarrow> if em_IsActive model then [model] else []
         | None \<Rightarrow> [])
      else filter (er_accepts req) (map snd (range_of order (er_models r))))"

section \<open>Scores\<close>

definition MaxFloat64 :: float64 where
  "MaxFloat64 = 2 ^ 1024 - 2 ^ 971"

definition getMinMax :: "ExtendedModelInfo list \<Rightarrow> (ExtendedModelInfo \<Rightarrow> float64) \<Rightarrow> float64 \<times> float64" where
  "getMinMax candidates extractor =
     (let (mn, mx) = foldl (\<lambda>(mn, mx) c. let val = extractor c in
            (if val < mn then val else mn, if mx < val then val else mx)) (MaxFloat64, - MaxFloat64) candidates
      in (if mn = mx then 0 else mn, mx))"

definition normalizeLatency :: "float64 \<Rightarrow> float64 \<Rightarrow> float64 \<Rightarrow> float64" where
  "normalizeLatency value mn mx = (if mx \<le> mn then 1 else fsub 1 (fdiv (fsub value mn) (fsub mx mn)))"

definition normalizeCost :: "float64 \<Rightarrow> float64 \<Rightarrow> float64 \<Rightarrow> float64" where
  "normalizeCost value mn mx = (if mx \<le> mn then 1 else fsub 1 (fdiv (fsub value mn) (fsub mx mn)))"

definition normalizeQuality :: "float64 \<Rightarrow> float64 \<Rightarrow> float64 \<Rightarrow> float64" where
  "normalizeQuality value mn mx = (if mx \<le> mn then 1 else fdiv (fsub value mn) (fsub mx mn))"

definition securityToScore :: "gostr \<Rightarrow> float64" where
  "securityToScore level =
     (if level = ''maximum'' then 1 else if level = ''high'' then fl (85 / 100)
      else if level = ''enhanced'' then fl (7 / 10) else if level = ''standard'' then fl (5 / 10) else fl (5 / 10))"

text \<open>
  The groups are visited in the order of a map; they are disjoint, so the outcome is whether
  some group holds both regions.
\<close>

definition regionGroups :: "gostr list list" where
  "regionGroups = [[''us-east'', ''us-west'', ''us-central''], [''eu-west'', ''eu-central''], [''asia-east'', ''asia-west'']]"

definition geographicScore :: "gostr \<Rightarrow> gostr \<Rightarrow> float64" where
  "geographicScore modelRegion preferredRegion =
     (if preferredRegion = [] then fl (5 / 10)
      else if modelRegion = preferredRegion then 1
      else if list_ex (\<lambda>regions. preferredRegion \<in> set regions \<and> modelRegion \<in> set regions) regionGroups then fl (7 / 10)
      else fl (3 / 10))"

definition em_cost :: "ExtendedModelInfo \<Rightarrow> float64" where
  "em_cost m = fadd (em_CostPer1KInput m) (em_CostPer1KOutput m)"

definition score_factors ::
  "ExtendedModelInfo list \<Rightarrow> ExtendedRoutingRequest \<Rightarrow> ExtendedModelInfo \<Rightarrow> ScoringFactors" where
  "score_factors candidates req model =
     (let (latencyMin, latencyMax) = getMinMax candidates (\<lambda>m. float_of_int (em_AvgLatencyMs m));
          (costMin, costMax) = getMinMax candidates em_cost;
          (qualityMin, qualityMax) = getMinMax candidates (\<lambda>m. float_of_int (em_ContextWindow m))
      in \<lparr>f_Latency = normalizeLatency (float_of_int (em_AvgLatencyMs model)) latencyMin latencyMax,
          f_Cost = normalizeCost (em_cost model) costMin costMax,
          f_Quality = normalizeQuality (float_of_int (em_ContextWindow model)) qualityMin qualityMax,
          f_Reliability = fdiv (em_SuccessRate model) 100,
          f_Capabilities = fdiv (float_of_int (int (length (em_Capabilities model)))) 10,
          f_Throughput = fdiv (float_of_int (em_RequestsPerMin model)) 10000,
          f_Compliance = em_ComplianceScore model,
          f_Security = securityToScore (em_SecurityLevel model),
          f_Geographic = geographicScore (em_Region model) (rx_PreferredRegion req)\<rparr>)"

definition score_breakdown :: "ScoringFactors \<Rightarrow> ScoringWeights \<Rightarrow> (gostr \<times> float64) list" where
  "score_breakdown f w =
     [(''latency'', fmul (f_Latency f) (w_Latency w)), (''cost'', fmul (f_Cost f) (w_Cost w)),
      (''quality'', fmul (f_Quality f) (w_Quality w)), (''reliability'', fmul (f_Reliability f) (w_Reliability w)),
      (''capabilities'', fmul (f_Capabilities f) (w_Capabilities w)),
      (''throughput'', fmul (f_Throughput f) (w_Throughput w)),
      (''compliance'', fmul (f_Compliance f) (w_Compliance w)), (''security'', fmul (f_Security f) (w_Security w)),
      (''geographic'', fmul (f_Geographic f) (w_Geographic w))]"

definition total_score :: "ScoringFactors \<Rightarrow> ScoringWeights \<Rightarrow> float64" where
  "total_score f w =
     fadd (fadd (fadd (fadd (fadd (fadd (fadd (fadd
       (fmul (f_Latency f) (w_Latency w)) (fmul (f_Cost f) (w_Cost w)))
       (fmul (f_Quality f) (w_Quality w))) (fmul (f_Reliability f) (w_Reliability w)))
       (fmul (f_Capabilities f) (w_Capabilities w))) (fmul (f_Throughput f) (w_Throughput w)))
       (fmul (f_Compliance f) (w_Compliance w))) (fmul (f_Security f) (w_Security w)))
       (fmul (f_Geographic f) (w_Geographic w))"

definition score_of ::
  "ExtendedModelInfo list \<Rightarrow> ScoringWeights \<Rightarrow> ExtendedRoutingRequest \<Rightarrow> ExtendedModelInfo \<Rightarrow> ScoringResult" where
  "score_of candidates w req model =
     (let factors = score_factors candidates req model in
      \<lparr>sr_ModelName = em_Name model, sr_ProviderID = em_Provider model, sr_TotalScore = total_score factors w,
       sr_Factors = factors, sr_Breakdown = score_breakdown factors w, sr_Rank = 0\<rparr>)"

definition scoreAllCandidates ::
  "ExtendedModelInfo list \<Rightarrow> ScoringWeights \<Rightarrow> ExtendedRoutingRequest \<Rightarrow> ScoringResult list" where
  "scoreAllCandidates candidates w req = map (score_of candidates w req) candidates"

text \<open>The sort compares every later element with the current one and swaps the larger to the front.\<close>

definition exchange_if :: "('a \<Rightarrow> 'b :: linorder) \<Rightarrow> nat \<Rightarrow> nat \<Rightarrow> 'a list \<Rightarrow> 'a list" where
  "exchange_if key i j xs = (if key (xs ! i) < key (xs ! j) then swap_at i j xs else xs)"

definition exchange_sort :: "('a \<Rightarrow> 'b :: linorder) \<Rightarrow> 'a list \<Rightarrow> 'a list" where
  "exchange_sort key xs =
     fold (\<lambda>i. fold (exchange_if key i) [i + 1..<length xs]) [0..<length xs - 1] xs"

definition sortByScore :: "ScoringResult list \<Rightarrow> ScoringResult list" where
  "sortByScore results = exchange_sort sr_TotalScore results"

definition assign_ranks :: "ScoringResult list \<Rightarrow> ScoringResult list" where
  "assign_ranks results = map (\<lambda>(i, res). res\<lparr>sr_Rank := int i + 1\<rparr>) (enumerate 0 results)"

definition RouteExtended ::
  "gostr list \<Rightarrow> ExtendedRoutingRequest \<Rightarrow> ext_router \<Rightarrow> (routing_error + ScoringResult) \<times> ext_router" where
  "RouteExtended order req r =
     (let st = er_getStrategy r (rr_TenantID req) (rr_Strategy req);
          w = getWeights r (rr_TenantID req) (rx_ModePack req) st;
          candidates = er_findCandidates order r req
      in if length candidates = 0 then (Inl ErrNoModelAvailable, r)
         else let results = assign_ranks (sortByScore (scoreAllCandidates candidates w req));
                  modelName = sr_ModelName (results ! 0)
           in (Inr (results ! 0), r\<lparr>er_requestCounts := (er_requestCounts r)(modelName \<mapsto>
                 wrap64 (map_get 0 (er_requestCounts r) modelName + 1))\<rparr>))"

section \<open>The remaining operations\<close>

definition er_ListModels :: "gostr list \<Rightarrow> ext_router \<Rightarrow> ExtendedModelInfo list" where
  "er_ListModels order r = map snd (range_of order (er_models r))"

definition er_GetModel :: "gostr \<Rightarrow> ext_router \<Rightarrow> ExtendedModelInfo option" where
  "er_GetModel name r = er_models r name"

fun least_used :: "(gostr, int) gomap \<Rightarrow> ExtendedModelInfo list \<Rightarrow> int \<Rightarrow> ExtendedModelInfo option \<Rightarrow> ExtendedModelInfo option" where
  "least_used counts [] minCount best = best"
| "least_used counts (c # cs) minCount best =
     (let count = map_get 0 counts (em_Name c) in
      if count < minCount then least_used counts cs count (Some c) else least_used counts cs minCount best)"

definition GetLoadBalancedModel :: "ext_router \<Rightarrow> ExtendedModelInfo list \<Rightarrow> ExtendedModelInfo option" where
  "GetLoadBalancedModel r candidates =
     (if length candidates = 0 then None else least_used (er_requestCounts r) candidates (2 ^ 63 - 1) None)"

definition er_RecordLatency :: "gostr \<Rightarrow> int \<Rightarrow> ext_router \<Rightarrow> ext_router" where
  "er_RecordLatency modelName latencyMs r0 =
     (let r = r0\<lparr>er_latencyTracker := lt_RecordLatency modelName latencyMs (er_latencyTracker r0)\<rparr> in
      case er_models r modelName of
        Some model \<Rightarrow> r\<lparr>er_models := (er_models r)(modelName \<mapsto>
          model\<lparr>em_AvgLatencyMs := latency_ema (em_AvgLatencyMs model) latencyMs\<rparr>)\<rparr>
      | None \<Rightarrow> r)"

section \<open>The exchange sort\<close>

lemma length_exchange [simp]: "length (exchange_if key i j xs) = length xs"
  by (simp add: exchange_if_def swap_at_def)

lemma mset_exchange: "i < length xs \<Longrightarrow> j < length xs \<Longrightarrow> mset (exchange_if key i j xs) = mset xs"
  by (simp add: exchange_if_def swap_at_def mset_swap)

text \<open>One pass: the prefix stays, and the current position ends up with a largest key of the rest.\<close>

lemma exchange_pass:
  fixes key :: "'a \<Rightarrow> 'b :: linorder"
  assumes "i < length xs" "i < m" "m \<le> length xs"
  defines "ys \<equiv> fold (exchange_if key i) [i + 1..<m] xs"
  shows "length ys = length xs \<and> mset ys = mset xs \<and> take i ys = take i xs
    \<and> (\<forall>j. i < j \<and> j < m \<longrightarrow> key (ys ! j) \<le> key (ys ! i))"
  using assms(2,3) unfolding ys_def
proof (induction m)
  case (Suc m)
  show ?case
  proof (cases "i = m")
    case False
    then have im: "i < m" using Suc.prems by simp
    define zs where "zs = fold (exchange_if key i) [i + 1..<m] xs"
    have IH: "length zs = length xs" "mset zs = mset xs" "take i zs = take i xs"
      "\<And>j. i < j \<Longrightarrow> j < m \<Longrightarrow> key (zs ! j) \<le> key (zs ! i)"
      using Suc.IH [OF im] Suc.prems by (simp_all add: zs_def)
    have eq: "fold (exchange_if key i) [i + 1..<Suc m] xs = exchange_if key i m zs"
      using im by (simp add: zs_def)
    have "mset (exchange_if key i m zs) = mset xs"
      using mset_exchange [of i zs m key] IH(1,2) Suc.prems im by simp
    moreover have "take i (exchange_if key i m zs) = take i xs"
      using IH(3) im by (simp add: exchange_if_def swap_at_def)
    moreover have "key (exchange_if key i m zs ! j) \<le> key (exchange_if key i m zs ! i)" if "i < j" "j < Suc m" for j
      using IH(1) IH(4) [of j] that im Suc.prems
      by (auto simp: exchange_if_def swap_at_def nth_list_update less_Suc_eq)
    ultimately show ?thesis unfolding eq using IH(1) by simp
  qed auto
qed simp

lemma exchange_passes:
  fixes key :: "'a \<Rightarrow> 'b :: linorder"
  assumes "k \<le> length xs - 1"
  defines "ys \<equiv> fold (\<lambda>i. fold (exchange_if key i) [i + 1..<length xs]) [0..<k] xs"
  shows "length ys = length xs \<and> mset ys = mset xs \<and> (\<forall>a b. a < k \<and> a < b \<and> b < length xs \<longrightarrow> key (ys ! b) \<le> key (ys ! a))"
  using assms(1) unfolding ys_def
proof (induction k)
  case (Suc k)
  define zs where "zs = fold (\<lambda>i. fold (exchange_if key i) [i + 1..<length xs]) [0..<k] xs"
  define us where "us = fold (exchange_if key k) [k + 1..<length zs] zs"
  have IH: "length zs = length xs" "mset zs = mset xs"
    "\<And>a b. a < k \<Longrightarrow> a < b \<Longrightarrow> b < length xs \<Longrightarrow> key (zs ! b) \<le> key (zs ! a)"
    using Suc by (simp_all add: zs_def)
  have k: "k < length zs" using Suc.prems IH(1) by simp
  from exchange_pass [of k zs "length zs" key] k
  have pass: "length us = length zs" "mset us = mset zs" "take k us = take k zs"
    "\<And>j. k < j \<Longrightarrow> j < length zs \<Longrightarrow> key (us ! j) \<le> key (us ! k)" by (simp_all add: us_def)
  have nth_take: "us ! a = zs ! a" if "a < k" for a using that arg_cong [OF pass(3), of "\<lambda>ys. ys ! a"] by simp
  have "mset (take k us) + mset (drop k us) = mset (take k zs) + mset (drop k zs)"
    using pass(2) by (simp flip: mset_append)
  then have "mset (drop k us) = mset (drop k zs)" by (simp only: pass(3) add_left_cancel)
  then have rest: "set (drop k us) = set (drop k zs)" by (rule mset_eq_setD)
  have "key (us ! b) \<le> key (us ! a)" if "a < Suc k" "a < b" "b < length xs" for a b
  proof (cases "a = k")
    case True
    then show ?thesis using pass(4) that IH(1) by simp
  next
    case False
    then have ak: "a < k" using that by simp
    show ?thesis
    proof (cases "b < k")
      case True
      then show ?thesis using IH(3) [of a b] ak that nth_take by simp
    next
      case False
      then have "us ! b \<in> set (drop k us)"
        using that IH(1) pass(1) by (auto simp: in_set_conv_nth intro!: exI [of _ "b - k"])
      then have "us ! b \<in> set (drop k zs)" by (simp only: rest)
      then obtain c where "c < length zs - k" "us ! b = zs ! (k + c)" by (auto simp: in_set_conv_nth)
      then show ?thesis using IH(3) [of a "k + c"] ak nth_take IH(1) by simp
    qed
  qed
  moreover have "fold (\<lambda>i. fold (exchange_if key i) [i + 1..<length xs]) [0..<Suc k] xs = us"
    unfolding us_def IH(1) by (simp add: zs_def)
  ultimately show ?case using pass(1,2) IH(1,2) by simp
qed simp

lemma exchange_sort_sorted:
  "mset (exchange_sort key xs) = mset xs \<and> sorted_wrt (\<lambda>x y. key y \<le> key x) (exchange_sort key xs)"
proof -
  note p = exchange_passes [OF order.refl, of key xs, folded exchange_sort_def]
  then have "key (exchange_sort key xs ! b) \<le> key (exchange_sort key xs ! a)" if "a < b" "b < length xs" for a b
    using that by (cases "length xs") auto
  with p show ?thesis by (auto simp: sorted_wrt_iff_nth_less)
qed

section \<open>What extended routing promises\<close>

definition er_eligible :: "ext_router \<Rightarrow> ExtendedRoutingRequest \<Rightarrow> ExtendedModelInfo \<Rightarrow> bool" where
  "er_eligible r req m \<longleftrightarrow>
     (if rr_RequestedModel req \<noteq> [] then er_models r (rr_RequestedModel req) = Some m \<and> em_IsActive m
      else m \<in> ran (er_models r) \<and> em_IsActive m \<and> set (rr_RequiredCapabilities req) \<subseteq> set (em_Capabilities m)
        \<and> (0 < rr_MaxLatencyMs req \<longrightarrow> em_AvgLatencyMs m \<le> rr_MaxLatencyMs req)
        \<and> (0 < rx_MinSuccessRate req \<longrightarrow> rx_MinSuccessRate req \<le> em_SuccessRate m)
        \<and> (rx_RequiredSecurity req \<noteq> [] \<longrightarrow> securitySatisfies (em_SecurityLevel m) (rx_RequiredSecurity req)))"

lemma securitySatisfies_refl [simp]: "securitySatisfies l l"
  by (simp add: securitySatisfies_def split: option.split)

lemma er_accepts_iff:
  "er_accepts req m \<longleftrightarrow> em_IsActive m \<and> set (rr_RequiredCapabilities req) \<subseteq> set (em_Capabilities m)
     \<and> (0 < rr_MaxLatencyMs req \<longrightarrow> em_AvgLatencyMs m \<le> rr_MaxLatencyMs req)
     \<and> (0 < rx_MinSuccessRate req \<longrightarrow> rx_MinSuccessRate req \<le> em_SuccessRate m)
     \<and> (rx_RequiredSecurity req \<noteq> [] \<longrightarrow> securitySatisfies (em_SecurityLevel m) (rx_RequiredSecurity req))"
proof -
  have "er_hasCapabilities m cs \<longleftrightarrow> set cs \<subseteq> set (em_Capabilities m)" for cs
    by (auto simp: er_hasCapabilities_def list_all_iff)
  then show ?thesis by (auto simp: er_accepts_def)
qed

lemma range_of_snd: "enumerates order m \<Longrightarrow> snd ` set (range_of order m) = ran m"
  using range_of_enumerates [of order m] by (force simp: ran_def image_iff)

lemma er_findCandidates_set:
  assumes "enumerates order (er_models r)"
  shows "set (er_findCandidates order r req) = {m. er_eligible r req m}"
proof (cases "rr_RequestedModel req = []")
  case True
  then have "set (er_findCandidates order r req) = {m \<in> snd ` set (range_of order (er_models r)). er_accepts req m}"
    by (auto simp: er_findCandidates_def)
  then show ?thesis using True by (auto simp: range_of_snd [OF assms] er_accepts_iff er_eligible_def)
next
  case False
  then show ?thesis by (auto simp: er_findCandidates_def er_eligible_def split: option.split)
qed

definition er_weights :: "ext_router \<Rightarrow> ExtendedRoutingRequest \<Rightarrow> ScoringWeights" where
  "er_weights r req = getWeights r (rr_TenantID req) (rx_ModePack req) (er_getStrategy r (rr_TenantID req) (rr_Strategy req))"

lemma sortByScore_hd:
  assumes "xs \<noteq> []"
  shows "sortByScore xs \<noteq> []" "sortByScore xs ! 0 \<in> set xs" "\<forall>x \<in> set xs. sr_TotalScore x \<le> sr_TotalScore (sortByScore xs ! 0)"
proof -
  note s = exchange_sort_sorted [of sr_TotalScore xs, folded sortByScore_def]
  have set: "set (sortByScore xs) = set xs" using s by (metis mset_eq_setD)
  then show ne: "sortByScore xs \<noteq> []" using assms by auto
  then obtain y ys where ys: "sortByScore xs = y # ys" by (cases "sortByScore xs") auto
  then show "sortByScore xs ! 0 \<in> set xs" using set by auto
  show "\<forall>x \<in> set xs. sr_TotalScore x \<le> sr_TotalScore (sortByScore xs ! 0)"
    using s unfolding set [symmetric] by (auto simp: ys)
qed

lemma assign_ranks_0: "xs \<noteq> [] \<Longrightarrow> assign_ranks xs ! 0 = (xs ! 0)\<lparr>sr_Rank := 1\<rparr>"
  by (cases xs) (simp_all add: assign_ranks_def)

text \<open>C25: Extended routing fails, leaving the router as it was, exactly when no model is eligible; otherwise it
  returns an eligible model whose total score no eligible model exceeds, with rank 1, and counts the request
  for that model and changes nothing else.\<close>

theorem er_route_best:
  assumes "enumerates order (er_models r)"
  shows "case RouteExtended order req r of
      (Inl _, r') \<Rightarrow> r' = r \<and> \<not> (\<exists>m. er_eligible r req m)
    | (Inr res, r') \<Rightarrow> \<exists>m. er_eligible r req m \<and>
        res = (score_of (er_findCandidates order r req) (er_weights r req) req m)\<lparr>sr_Rank := 1\<rparr> \<and>
        (\<forall>m'. er_eligible r req m' \<longrightarrow>
           sr_TotalScore (score_of (er_findCandidates order r req) (er_weights r req) req m') \<le> sr_TotalScore res) \<and>
        r' = r\<lparr>er_requestCounts := (er_requestCounts r)(em_Name m \<mapsto> wrap64 (map_get 0 (er_requestCounts r) (em_Name m) + 1))\<rparr>"
proof (cases "er_findCandidates order r req = []")
  case True
  then show ?thesis using er_findCandidates_set [OF assms, of req] by (auto simp: RouteExtended_def)
next
  case False
  let ?cs = "er_findCandidates order r req" and ?w = "er_weights r req"
  let ?scores = "scoreAllCandidates ?cs ?w req"
  have ne: "?scores \<noteq> []" using False by (simp add: scoreAllCandidates_def)
  obtain m where m: "m \<in> set ?cs" "sortByScore ?scores ! 0 = score_of ?cs ?w req m"
    using sortByScore_hd(2) [OF ne] by (auto simp: scoreAllCandidates_def)
  have best: "assign_ranks (sortByScore ?scores) ! 0 = (score_of ?cs ?w req m)\<lparr>sr_Rank := 1\<rparr>"
    using assign_ranks_0 [OF sortByScore_hd(1) [OF ne]] m(2) by simp
  have "RouteExtended order req r = (Inr ((score_of ?cs ?w req m)\<lparr>sr_Rank := 1\<rparr>),
      r\<lparr>er_requestCounts := (er_requestCounts r)(em_Name m \<mapsto> wrap64 (map_get 0 (er_requestCounts r) (em_Name m) + 1))\<rparr>)"
    using False best by (simp add: RouteExtended_def Let_def er_weights_def score_of_def)
  moreover have "sr_TotalScore (score_of ?cs ?w req m') \<le> sr_TotalScore (score_of ?cs ?w req m)" if "m' \<in> set ?cs" for m'
    using sortByScore_hd(3) [OF ne] that m(2) by (auto simp: scoreAllCandidates_def)
  ultimately show ?thesis using m(1) er_findCandidates_set [OF assms, of req] by auto
qed

theorem er_route_best_witness:
  "\<exists>res r'. RouteExtended [''a''] (RoutingRequest.extend route_demo
       (ExtendedRoutingRequest.fields ''ship_fast'' DefaultScoringWeights ''us-west'' 0 ''standard''))
     (RegisterModelFromInfo (demo_model ''a'' 1) NewExtendedModelRouter) = (Inr res, r')
     \<and> sr_ModelName res = ''a'' \<and> map_get 0 (er_requestCounts r') ''a'' = 1"
proof -
  let ?r = "RegisterModelFromInfo (demo_model ''a'' 1) NewExtendedModelRouter"
  let ?req = "RoutingRequest.extend route_demo
    (ExtendedRoutingRequest.fields ''ship_fast'' DefaultScoringWeights ''us-west'' 0 ''standard'')"
  have "dom (er_models ?r) = {''a''}"
    by (simp add: RegisterModelFromInfo_def RegisterModel_def NewExtendedModelRouter_def demo_model_def model_entry_def)
  then have enum: "enumerates [''a''] (er_models ?r)" by (simp add: enumerates_def)
  have elig: "er_eligible ?r ?req (the (er_models ?r ''a''))"
    by (simp add: er_eligible_def route_demo_def RoutingRequest.defs ExtendedRoutingRequest.defs RegisterModelFromInfo_def
        RegisterModel_def NewExtendedModelRouter_def demo_model_def model_entry_def)
  have name: "em_Name m = ''a''" if "er_eligible ?r ?req m" for m
    using that by (simp add: er_eligible_def route_demo_def RoutingRequest.defs ExtendedRoutingRequest.defs RegisterModelFromInfo_def
        RegisterModel_def NewExtendedModelRouter_def demo_model_def model_entry_def)
  have counts: "er_requestCounts ?r = Map.empty"
    by (simp add: RegisterModelFromInfo_def RegisterModel_def NewExtendedModelRouter_def)
  note best = er_route_best [OF enum, of ?req]
  then obtain res r' where rr: "RouteExtended [''a''] ?req ?r = (Inr res, r')"
    using elig by (cases "RouteExtended [''a''] ?req ?r"; cases "fst (RouteExtended [''a''] ?req ?r)") auto
  with best obtain m where m: "er_eligible ?r ?req m" "sr_ModelName res = em_Name m"
    "er_requestCounts r' = (er_requestCounts ?r)(em_Name m \<mapsto> wrap64 (map_get 0 (er_requestCounts ?r) (em_Name m) + 1))"
    by (auto simp: score_of_def Let_def)
  then have "map_get 0 (er_requestCounts r') ''a'' = 1"
    using name [OF m(1)] by (simp add: counts wrap64_def)
  then show ?thesis using rr m(2) name [OF m(1)] by (intro exI [of _ res] exI [of _ r']) simp
qed

section \<open>The built-in weights sum to one\<close>

definition ulp :: rat where "ulp = 1 / 2 ^ 53"

lemma ulp_small: "0 < ulp" "ulp * 100000 \<le> 1"
  by (simp_all add: ulp_def)

lemma fl_close: "\<bar>x\<bar> < 2 \<Longrightarrow> \<bar>fl x - x\<bar> \<le> ulp"
  unfolding ulp_def by (rule fl_err)

lemma add_close:
  assumes "\<bar>x - a\<bar> \<le> d" "d \<le> 1 / 2" "\<bar>y - b\<bar> \<le> ulp" "0 \<le> a" "0 \<le> b" "a + b \<le> 1"
  shows "\<bar>fadd x y - (a + b)\<bar> \<le> d + 2 * ulp"
proof -
  have "\<bar>x + y\<bar> < 2" using assms ulp_small by linarith
  then have "\<bar>fadd x y - (x + y)\<bar> \<le> ulp" unfolding fadd_def by (rule fl_close)
  then show ?thesis using assms(1,3) by linarith
qed

lemma sum_close:
  assumes "\<bar>x - a\<bar> \<le> d" "d + 2 * of_nat (length bs) * ulp \<le> 1 / 2" "0 \<le> a" "list_all (\<lambda>b. 0 \<le> b) bs"
    "a + sum_list (map (\<lambda>b. b / 100) bs) \<le> 1"
  shows "\<bar>foldl (\<lambda>s b. fadd s (fl (b / 100))) x bs - (a + sum_list (map (\<lambda>b. b / 100) bs))\<bar>
    \<le> d + 2 * of_nat (length bs) * ulp"
  using assms
proof (induction bs arbitrary: x a d)
  case (Cons b bs)
  have rest: "0 \<le> sum_list (map (\<lambda>b. b / 100) bs)" using Cons.prems(4) by (intro sum_list_nonneg) (auto simp: list_all_iff)
  have "0 \<le> 2 * of_nat (length (b # bs)) * ulp" using ulp_small by simp
  then have d: "d \<le> 1 / 2" using Cons.prems(2) by linarith
  have b: "0 \<le> b / 100" "b / 100 \<le> 1" using Cons.prems rest by simp_all
  then have "\<bar>fl (b / 100) - b / 100\<bar> \<le> ulp" by (intro fl_close) simp
  then have "\<bar>fadd x (fl (b / 100)) - (a + b / 100)\<bar> \<le> d + 2 * ulp"
    using Cons.prems(1,3,5) d b rest by (intro add_close) simp_all
  from Cons.IH [OF this] show ?case using Cons.prems b by (simp add: algebra_simps)
qed simp

lemma weights_valid:
  assumes "list_all (\<lambda>x. 0 \<le> x) [a, b, c, d, e, f, g, h, i]" "a + b + c + d + e + f + g + h + i = 100"
  shows "weights_Validate (weights a b c d e f g h i)"
proof -
  let ?s = "weights_sum (weights a b c d e f g h i)" and ?bs = "[b, c, d, e, f, g, h, i]"
  have s: "?s = foldl (\<lambda>s b. fadd s (fl (b / 100))) (fl (a / 100)) ?bs" by (simp add: weights_sum_def weights_def)
  have one: "a / 100 + sum_list (map (\<lambda>b. b / 100) ?bs) = 1" using assms(2) by (simp flip: add_divide_distrib)
  have "0 \<le> a" "a \<le> 100" using assms by simp_all
  then have "\<bar>fl (a / 100) - a / 100\<bar> \<le> ulp" by (intro fl_close) simp
  from sum_close [OF this, of ?bs] have sum: "\<bar>?s - 1\<bar> \<le> 17 * ulp"
    using assms(1) one ulp_small unfolding s by simp
  then have "\<bar>?s - 1\<bar> < 2" using ulp_small by linarith
  then have "\<bar>fsub ?s 1 - (?s - 1)\<bar> \<le> ulp" unfolding fsub_def by (rule fl_close)
  moreover have "\<bar>fl (1 / 1000) - 1 / 1000\<bar> \<le> ulp" by (rule fl_close) simp
  ultimately show ?thesis using sum ulp_small unfolding weights_Validate_def by linarith
qed

text \<open>The weights that scoring uses pass their own validation, whichever mode pack or strategy a request
  names, known or unknown, as long as the weights that tenants have set pass it: setting them does not check.\<close>

theorem er_weights_validated:
  assumes "\<forall>w \<in> ran (er_customWeights r). weights_Validate w" "er_modePacks r = map_of ModePacks"
  shows "weights_Validate (er_weights r req)"
proof -
  have default: "weights_Validate DefaultScoringWeights" unfolding DefaultScoringWeights_def by (rule weights_valid) simp_all
  have strategies: "weights_Validate (strategy_weights st)" for st
    unfolding strategy_weights_def by (simp add: default weights_valid)
  have "list_all (\<lambda>(n, p). weights_Validate (mp_Weights p)) ModePacks"
    unfolding ModePacks_def by (simp add: weights_valid)
  then have packs: "weights_Validate (mp_Weights p)" if "map_of ModePacks n = Some p" for n p
    using map_of_SomeD [OF that] by (auto simp: list_all_iff)
  show ?thesis using assms strategies packs
    by (auto simp: er_weights_def getWeights_def ran_def split: option.split)
qed

theorem er_weights_validated_witness:
  "weights_Validate (er_weights NewExtendedModelRouter (RoutingRequest.extend route_demo
     (ExtendedRoutingRequest.fields ''cost_saver'' (weights 0 0 0 0 0 0 0 0 0) [] 0 [])))"
  by (rule er_weights_validated) (simp_all add: NewExtendedModelRouter_def)

section \<open>Latency samples\<close>

definition latest :: "nat \<Rightarrow> 'a list \<Rightarrow> 'a list" where
  "latest m xs = drop (length xs - m) xs"

lemma latest_snoc: "latest m (latest m xs @ [l]) = latest m (xs @ [l])"
proof (cases "length xs \<le> m")
  case False
  then have "length (latest m xs) = m" by (simp add: latest_def)
  then show ?thesis using False by (cases m) (auto simp: latest_def Suc_diff_le intro!: arg_cong [where f = "\<lambda>k. drop k xs"])
qed (simp add: latest_def)

lemma lt_RecordLatency_window [simp]: "lt_window (lt_RecordLatency n l t) = lt_window t"
  by (simp add: lt_RecordLatency_def Let_def)

lemma lt_RecordLatency_samples:
  "map_get [] (lt_latencies (lt_RecordLatency n l t)) k =
     (if k = n then latest (nat (lt_window t)) (map_get [] (lt_latencies t) n @ [l]) else map_get [] (lt_latencies t) k)"
  by (auto simp: lt_RecordLatency_def Let_def latest_def)

text \<open>After any sequence of recordings for any models, the samples kept for a model are its latest ones in
  order of arrival, as many as the window allows.\<close>

theorem lt_keeps_window:
  "map_get [] (lt_latencies (fold (\<lambda>(n, l). lt_RecordLatency n l) ps (NewLatencyTracker w))) n =
   latest (nat (if w \<le> 0 then 100 else w)) (map snd (filter (\<lambda>p. fst p = n) ps))"
proof -
  let ?w = "if w \<le> 0 then 100 else w" and ?own = "\<lambda>ps. map snd (filter (\<lambda>p. fst p = n) ps)"
  let ?t = "\<lambda>ps. fold (\<lambda>(n, l). lt_RecordLatency n l) ps (NewLatencyTracker w)"
  have "lt_window (?t ps) = ?w \<and> map_get [] (lt_latencies (?t ps)) n = latest (nat ?w) (?own ps)"
  proof (induction ps rule: rev_induct)
    case Nil
    then show ?case by (simp add: NewLatencyTracker_def latest_def)
  next
    case (snoc p ps)
    obtain k l where p: "p = (k, l)" by (cases p)
    have "?t (ps @ [p]) = lt_RecordLatency k l (?t ps)" by (simp add: p)
    moreover have "?own (ps @ [p]) = (if k = n then ?own ps @ [l] else ?own ps)" by (simp add: p)
    ultimately show ?case using snoc by (auto simp: p lt_RecordLatency_samples latest_snoc)
  qed
  then show ?thesis by blast
qed

text \<open>
  The percentile indexes the samples in reverse order of arrival, which the code takes for
  sorted: the 99th percentile of 1, 1 and 100 is 1.
\<close>

lemma er_percentile_unsorted:
  "GetPercentileLatency ''m'' 99 (fold (lt_RecordLatency ''m'') [1, 1, 100] (NewLatencyTracker 10)) = Some 1"
  "GetPercentileLatency ''m'' 99 (fold (lt_RecordLatency ''m'') [100, 1, 1] (NewLatencyTracker 10)) = Some 100"
  "GetPercentileLatency ''m'' (- 50) (fold (lt_RecordLatency ''m'') [100, 1, 1] (NewLatencyTracker 10)) = None"
  by code_simp+

end
