(* ===== verification/Rtk_Lexer.thy ===== *)
theory Rtk_Lexer
  imports Go_Strings
begin

text \<open>
  The command lexer of \<open>rtk/filter_engine.go\<close>. The lexer walks the bytes of the trimmed
  command with an index; a byte ends a word when \<open>unicode.IsSpace\<close> accepts it as a
  character of its own, which besides ASCII white space are the bytes 0x85 and 0xA0. The
  lexer never reports an error, so its methods return their tokens only. The lemmas relate
  the index-walking loops to a plain splitting into words.
\<close>

section \<open>Joining and splitting\<close>

text \<open>\<open>strings.Join\<close>, and \<open>strings.Split\<close> and \<open>strings.SplitN(s, c, 2)\<close> for one byte \<open>c\<close>.\<close>

fun str_join :: "gostr \<Rightarrow> gostr list \<Rightarrow> gostr" where
  "str_join sep [] = []"
| "str_join sep [x] = x"
| "str_join sep (x # y # xs) = x @ sep @ str_join sep (y # xs)"

fun str_split :: "char \<Rightarrow> gostr \<Rightarrow> gostr list" where
  "str_split c [] = [[]]"
| "str_split c (x # xs) =
     (if x = c then [] # str_split c xs
      else case str_split c xs of [] \<Rightarrow> [[x]] | w # ws \<Rightarrow> (x # w) # ws)"

definition str_splitN2 :: "char \<Rightarrow> gostr \<Rightarrow> gostr list" where
  "str_splitN2 c s = (if c \<in> set s
     then [takeWhile (\<lambda>x. x \<noteq> c) s, tl (dropWhile (\<lambda>x. x \<noteq> c) s)] else [s])"

lemma str_join_append:
  "xs \<noteq> [] \<Longrightarrow> ys \<noteq> [] \<Longrightarrow> str_join sep (xs @ ys) = str_join sep xs @ sep @ str_join sep ys"
proof (induction xs)
  case (Cons x xs)
  then show ?case by (cases xs; cases ys) auto
qed simp

lemma str_join_Cons: "xs \<noteq> [] \<Longrightarrow> str_join sep (x # xs) = x @ sep @ str_join sep xs"
  by (cases xs) auto

lemma str_split_not_empty [simp]: "str_split c s \<noteq> []"
  by (cases s) (auto split: list.split)

lemma str_join_split: "str_join [c] (str_split c s) = s"
proof (induction s)
  case (Cons x s)
  then show ?case
    by (cases "str_split c s"; cases "tl (str_split c s)") auto
qed simp

lemma hd_str_split: "hd (str_split c s) = before_first c s"
proof (induction s)
  case (Cons x s)
  then show ?case
    by (cases "str_split c s") (auto simp: before_first_def)
qed (simp add: before_first_def)

section \<open>Tokens and the lexer\<close>

definition is_space_byte :: "char \<Rightarrow> bool" where
  "is_space_byte c \<longleftrightarrow> of_char c \<in> {9, 10, 11, 12, 13, 32, 133, 160 :: nat}"

datatype TokenType = TokenCommand | TokenFlag | TokenArgument | TokenSubcommand

record Token =
  tk_Type :: TokenType
  tk_Value :: gostr

record Lexer =
  lx_input :: gostr
  lx_pos :: nat

definition NewLexer :: "gostr \<Rightarrow> Lexer" where
  "NewLexer input = \<lparr>lx_input = trim_space input, lx_pos = 0\<rparr>"

text \<open>The loops advance the index while it is inside the input and the byte satisfies a test.\<close>

function advance :: "(char \<Rightarrow> bool) \<Rightarrow> gostr \<Rightarrow> nat \<Rightarrow> nat" where
  "advance P s p = (if p < length s \<and> P (s ! p) then advance P s (Suc p) else p)"
  by pat_completeness auto
termination by (relation "measure (\<lambda>(P, s, p). length s - p)") auto

declare advance.simps [simp del]

definition skipWhitespace :: "Lexer \<Rightarrow> Lexer" where
  "skipWhitespace l = l\<lparr>lx_pos := advance is_space_byte (lx_input l) (lx_pos l)\<rparr>"

definition go_slice :: "gostr \<Rightarrow> nat \<Rightarrow> nat \<Rightarrow> gostr" where
  "go_slice s a b = drop a (take b s)"

definition scanFlag :: "Lexer \<Rightarrow> Token \<times> Lexer" where
  "scanFlag l =
     (let start = lx_pos l; p = start + 1;
          p = (if p < length (lx_input l) \<and> lx_input l ! p = CHR ''-'' then p + 1 else p);
          p = advance (\<lambda>c. \<not> is_space_byte c) (lx_input l) p
      in (\<lparr>tk_Type = TokenFlag, tk_Value = go_slice (lx_input l) start p\<rparr>, l\<lparr>lx_pos := p\<rparr>))"

definition scanToken :: "Lexer \<Rightarrow> Token \<times> Lexer" where
  "scanToken l =
     (let start = lx_pos l;
          p = advance (\<lambda>c. \<not> is_space_byte c) (lx_input l) start;
          value = go_slice (lx_input l) start p;
          tokenType = (if start = 0 then TokenCommand else TokenArgument)
      in (\<lparr>tk_Type = tokenType, tk_Value = value\<rparr>, l\<lparr>lx_pos := p\<rparr>))"

definition NextToken :: "Lexer \<Rightarrow> Token option \<times> Lexer" where
  "NextToken l0 =
     (let l = skipWhitespace l0 in
      if length (lx_input l) \<le> lx_pos l then (None, l)
      else if lx_pos l < length (lx_input l) \<and> lx_input l ! lx_pos l = CHR ''-''
      then (let (t, l') = scanFlag l in (Some t, l'))
      else (let (t, l') = scanToken l in (Some t, l')))"

section \<open>The index and the rest of the input\<close>

lemma advance_length:
  "p \<le> length s \<Longrightarrow> advance P s p = p + length (takeWhile P (drop p s))"
proof (induction P s p rule: advance.induct)
  case (1 P s p)
  show ?case
  proof (cases "p < length s \<and> P (s ! p)")
    case True
    then have "takeWhile P (drop p s) = s ! p # takeWhile P (drop (Suc p) s)"
      by (metis Cons_nth_drop_Suc takeWhile.simps(2))
    then show ?thesis using 1 True by (subst advance.simps) simp
  next
    case False
    then have "takeWhile P (drop p s) = []"
      using 1(2) by (metis drop_all hd_drop_conv_nth linorder_not_le list.collapse takeWhile.simps)
    with False show ?thesis by (subst advance.simps) auto
  qed
qed

lemma drop_advance: "p \<le> length s \<Longrightarrow> drop (advance P s p) s = dropWhile P (drop p s)"
  by (simp add: advance_length dropWhile_eq_drop add.commute)

lemma slice_advance: "p \<le> length s \<Longrightarrow> go_slice s p (advance P s p) = takeWhile P (drop p s)"
  by (simp add: advance_length go_slice_def drop_take takeWhile_eq_take [symmetric])

lemma advance_bounds: "p \<le> length s \<Longrightarrow> p \<le> advance P s p \<and> advance P s p \<le> length s"
  using length_takeWhile_le [of P "drop p s"] by (simp add: advance_length)

abbreviation word_of :: "gostr \<Rightarrow> gostr" where
  "word_of \<equiv> takeWhile (\<lambda>c. \<not> is_space_byte c)"

text \<open>What is left of the input, and what \<open>NextToken\<close> takes from it.\<close>

definition lx_rest :: "Lexer \<Rightarrow> gostr" where
  "lx_rest l = drop (lx_pos l) (lx_input l)"

definition token_type :: "nat \<Rightarrow> gostr \<Rightarrow> TokenType" where
  "token_type start w = (if w \<noteq> [] \<and> hd w = CHR ''-'' then TokenFlag
     else if start = 0 then TokenCommand else TokenArgument)"

lemma space_minus [simp]: "\<not> is_space_byte CHR ''-''"
  by code_simp

lemma scanFlag_eq:
  assumes "lx_pos l < length (lx_input l)" "lx_input l ! lx_pos l = CHR ''-''"
  shows "scanFlag l = (\<lparr>tk_Type = TokenFlag, tk_Value = word_of (lx_rest l)\<rparr>,
    l\<lparr>lx_pos := advance (\<lambda>c. \<not> is_space_byte c) (lx_input l) (lx_pos l)\<rparr>)"
proof -
  let ?s = "lx_input l" and ?p = "lx_pos l"
  let ?a = "advance (\<lambda>c. \<not> is_space_byte c) ?s"
  have e1: "?a (Suc ?p) = ?a ?p" using assms by (subst (2) advance.simps) simp
  have e2: "?a (Suc (Suc ?p)) = ?a ?p" if "Suc ?p < length ?s" "?s ! Suc ?p = CHR ''-''"
    using that e1 by (subst (asm) advance.simps) simp
  show ?thesis
    using slice_advance [of ?p ?s "\<lambda>c. \<not> is_space_byte c"] assms(1)
    by (simp add: scanFlag_def lx_rest_def Let_def e1 e2)
qed

lemma NextToken_None: "fst (NextToken l) = None \<longleftrightarrow> list_all is_space_byte (lx_rest l)"
proof (cases "lx_pos l \<le> length (lx_input l)")
  case True
  have "list_all is_space_byte (lx_rest l) \<longleftrightarrow> dropWhile is_space_byte (lx_rest l) = []"
    by (simp add: list_all_iff)
  also have "\<dots> \<longleftrightarrow> length (lx_input l) \<le> advance is_space_byte (lx_input l) (lx_pos l)"
    using drop_advance [OF True, of is_space_byte] unfolding lx_rest_def by (metis drop_eq_Nil)
  finally show ?thesis by (simp add: NextToken_def skipWhitespace_def Let_def split: prod.split)
next
  case False
  then have "advance is_space_byte (lx_input l) (lx_pos l) = lx_pos l" by (subst advance.simps) simp
  with False show ?thesis by (simp add: NextToken_def skipWhitespace_def lx_rest_def Let_def)
qed

lemma NextToken_Some:
  assumes "NextToken l = (Some t, l')"
  shows "lx_input l' = lx_input l" "lx_pos l < lx_pos l'" "lx_pos l' \<le> length (lx_input l)"
    "tk_Value t = word_of (dropWhile is_space_byte (lx_rest l))" "tk_Value t \<noteq> []"
    "lx_rest l' = drop (length (tk_Value t)) (dropWhile is_space_byte (lx_rest l))"
    "tk_Type t = token_type (advance is_space_byte (lx_input l) (lx_pos l)) (tk_Value t)"
proof -
  let ?s = "lx_input l" and ?q = "advance is_space_byte (lx_input l) (lx_pos l)"
  let ?N = "\<lambda>c. \<not> is_space_byte c" and ?l1 = "skipWhitespace l"
  have lt: "?q < length ?s" using assms
    by (auto simp: NextToken_def skipWhitespace_def Let_def split: if_splits prod.splits)
  have l1: "lx_input ?l1 = ?s" "lx_pos ?l1 = ?q" by (simp_all add: skipWhitespace_def)
  have le: "lx_pos l \<le> length ?s"
    using lt by (subst (asm) advance.simps) (auto split: if_splits)
  have rest: "drop ?q ?s = dropWhile is_space_byte (lx_rest l)"
    by (simp add: drop_advance [OF le] lx_rest_def)
  have ns: "?N (?s ! ?q)"
    using lt rest hd_dropWhile [of is_space_byte "lx_rest l"] by (metis drop_eq_Nil hd_drop_conv_nth linorder_not_less)
  let ?w = "word_of (drop ?q ?s)"
  have w: "?w = ?s ! ?q # word_of (drop (Suc ?q) ?s)"
    using lt ns by (metis (mono_tags, lifting) Cons_nth_drop_Suc takeWhile.simps(2))
  have adv: "advance ?N ?s ?q = ?q + length ?w" using lt by (simp add: advance_length)
  have "(t, l') = (\<lparr>tk_Type = token_type ?q ?w, tk_Value = ?w\<rparr>, l\<lparr>lx_pos := advance ?N ?s ?q\<rparr>)"
  proof (cases "?s ! ?q = CHR ''-''")
    case True
    then have "Some t = Some (fst (scanFlag ?l1)) \<and> l' = snd (scanFlag ?l1)"
      using assms lt by (simp add: NextToken_def l1 Let_def split: prod.splits)
    then show ?thesis using True w lt scanFlag_eq [of ?l1]
      by (simp add: l1 lx_rest_def token_type_def skipWhitespace_def)
  next
    case False
    then have "Some t = Some (fst (scanToken ?l1)) \<and> l' = snd (scanToken ?l1)"
      using assms lt by (simp add: NextToken_def l1 Let_def split: prod.splits)
    then show ?thesis using False w lt
      by (simp add: scanToken_def l1 Let_def slice_advance token_type_def skipWhitespace_def)
  qed
  then have t: "t = \<lparr>tk_Type = token_type ?q ?w, tk_Value = ?w\<rparr>" and l': "l' = l\<lparr>lx_pos := ?q + length ?w\<rparr>"
    by (simp_all add: adv)
  have "lx_pos l \<le> ?q" using advance_bounds [OF le] by simp
  moreover have "?q + length ?w \<le> length ?s"
    using length_takeWhile_le [of ?N "drop ?q ?s"] lt by simp
  ultimately show "lx_input l' = lx_input l" "lx_pos l < lx_pos l'" "lx_pos l' \<le> length ?s"
    "tk_Value t = word_of (dropWhile is_space_byte (lx_rest l))" "tk_Value t \<noteq> []"
    "tk_Type t = token_type ?q (tk_Value t)"
    using w by (simp_all add: t l' rest)
  have "lx_rest l' = drop (length ?w) (drop ?q ?s)" by (simp add: l' lx_rest_def add.commute)
  then show "lx_rest l' = drop (length (tk_Value t)) (dropWhile is_space_byte (lx_rest l))"
    by (simp add: t rest)
qed

text \<open>\<open>Tokenize\<close> asks for tokens until there is none; each token moves the index on.\<close>

function Tokenize :: "Lexer \<Rightarrow> Token list" where
  "Tokenize l = (case NextToken l of (None, l') \<Rightarrow> [] | (Some t, l') \<Rightarrow> t # Tokenize l')"
  by pat_completeness auto
termination
proof (relation "measure (\<lambda>l. length (lx_input l) - lx_pos l)")
  fix l x y t
  assume "(x, y) = NextToken l" "x = Some t"
  then show "(y, l) \<in> measure (\<lambda>l. length (lx_input l) - lx_pos l)"
    using NextToken_Some [of l t y] by auto
qed simp

declare Tokenize.simps [simp del]

section \<open>Words\<close>

text \<open>The reference: the maximal runs of bytes that are not white space, from left to right.\<close>

fun byte_words :: "gostr \<Rightarrow> gostr list" where
  "byte_words [] = []"
| "byte_words (c # s) =
     (if is_space_byte c then byte_words s
      else if s = [] \<or> is_space_byte (hd s) then [c] # byte_words s
      else (c # hd (byte_words s)) # tl (byte_words s))"

definition is_word :: "gostr \<Rightarrow> bool" where
  "is_word w \<longleftrightarrow> w \<noteq> [] \<and> list_all (\<lambda>c. \<not> is_space_byte c) w"

lemma byte_words_empty_iff: "byte_words s = [] \<longleftrightarrow> list_all is_space_byte s"
  by (induction s) auto

lemma byte_words_skip: "byte_words (dropWhile is_space_byte s) = byte_words s"
  by (induction s) auto

lemma byte_words_step:
  "s \<noteq> [] \<Longrightarrow> \<not> is_space_byte (hd s) \<Longrightarrow> byte_words s = word_of s # byte_words (drop (length (word_of s)) s)"
proof (induction s)
  case (Cons c s)
  then show ?case by (cases s) auto
qed simp

lemma byte_words_words: "w \<in> set (byte_words s) \<Longrightarrow> is_word w"
proof (induction s arbitrary: w)
  case (Cons c s)
  show ?case
  proof (cases "is_space_byte c \<or> s = [] \<or> is_space_byte (hd s)")
    case True
    then show ?thesis using Cons by (auto simp: is_word_def split: if_splits)
  next
    case False
    then have "byte_words s \<noteq> []" by (cases s) (auto simp: byte_words_empty_iff)
    then show ?thesis using Cons False by (cases "byte_words s") (auto simp: is_word_def)
  qed
qed simp

lemma byte_words_word_Cons: "is_word w \<Longrightarrow> is_space_byte c \<Longrightarrow> byte_words (w @ c # s) = w # byte_words s"
proof (induction w)
  case (Cons x w)
  then show ?case by (cases w) (auto simp: is_word_def)
qed (simp add: is_word_def)

lemma byte_words_word: "is_word w \<Longrightarrow> byte_words w = [w]"
proof (induction w)
  case (Cons x w)
  then show ?case by (cases w) (auto simp: is_word_def)
qed (simp add: is_word_def)

lemma space_blank [simp]: "is_space_byte CHR '' ''"
  by code_simp

lemma byte_words_join: "list_all is_word ws \<Longrightarrow> byte_words (str_join '' '' ws) = ws"
proof (induction ws)
  case (Cons w ws)
  then show ?case by (cases ws) (auto simp: byte_words_word byte_words_word_Cons)
qed simp

lemma Tokenize_words: "map tk_Value (Tokenize l) = byte_words (lx_rest l)"
proof (induction l rule: Tokenize.induct)
  case (1 l)
  show ?case
  proof (cases "NextToken l")
    case (Pair x l')
    show ?thesis
    proof (cases x)
      case None
      then show ?thesis using Pair NextToken_None [of l]
        by (simp add: Tokenize.simps [of l] byte_words_empty_iff [THEN iffD2])
    next
      case (Some t)
      let ?d = "dropWhile is_space_byte (lx_rest l)"
      have nt: "NextToken l = (Some t, l')" using Pair Some by simp
      note n = NextToken_Some [OF nt]
      have "?d \<noteq> []" using n(4,5) by (metis takeWhile.simps(1))
      then have "\<not> is_space_byte (hd ?d)" by (rule hd_dropWhile)
      have "byte_words (lx_rest l) = byte_words ?d" by (simp add: byte_words_skip)
      also have "\<dots> = word_of ?d # byte_words (drop (length (word_of ?d)) ?d)"
        using \<open>?d \<noteq> []\<close> \<open>\<not> is_space_byte (hd ?d)\<close> by (rule byte_words_step)
      also have "\<dots> = tk_Value t # byte_words (lx_rest l')" by (simp only: n(4) n(6))
      finally show ?thesis
        using 1 [OF nt [symmetric] refl] by (simp add: Tokenize.simps [of l] nt)
    qed
  qed
qed

lemma Tokenize_flags:
  "t \<in> set (Tokenize l) \<Longrightarrow> tk_Type t = TokenFlag \<longleftrightarrow> has_prefix (tk_Value t) ''-''"
proof (induction l rule: Tokenize.induct)
  case (1 l)
  show ?case
  proof (cases "NextToken l")
    case (Pair x l')
    then obtain u where nt: "NextToken l = (Some u, l')"
      using 1(2) by (cases x) (auto simp: Tokenize.simps [of l])
    have "tk_Type u = TokenFlag \<longleftrightarrow> has_prefix (tk_Value u) ''-''"
      using NextToken_Some(5,7) [OF nt] by (cases "tk_Value u") (auto simp: token_type_def has_prefix_def)
    then show ?thesis using 1(1) [OF nt [symmetric] refl] 1(2) nt by (auto simp: Tokenize.simps [of l])
  qed
qed

lemma NewLexer_rest [simp]: "lx_rest (NewLexer s) = trim_space s"
  by (simp add: NewLexer_def lx_rest_def)

section \<open>Trimmed commands\<close>

definition trimmed :: "gostr \<Rightarrow> bool" where
  "trimmed s \<longleftrightarrow> (\<forall>p \<in> set utf8_spaces. \<not> prefix p s \<and> \<not> suffix p s)"

lemma trim_left_stops: "p \<in> set ps \<Longrightarrow> p \<noteq> [] \<Longrightarrow> \<not> prefix p (trim_left ps s)"
proof (induction ps s rule: trim_left.induct)
  case (1 ps s)
  show ?case
  proof (cases "find (\<lambda>p. p \<noteq> [] \<and> prefix p s) ps")
    case None
    then have "trim_left ps s = s" by (simp add: trim_left.simps)
    with None show ?thesis using 1(2,3) by (auto simp: find_None_iff)
  next
    case (Some q)
    then show ?thesis using 1 by (subst trim_left.simps) simp
  qed
qed

lemma trim_left_id: "\<forall>p \<in> set ps. p \<noteq> [] \<longrightarrow> \<not> prefix p s \<Longrightarrow> trim_left ps s = s"
proof -
  assume "\<forall>p \<in> set ps. p \<noteq> [] \<longrightarrow> \<not> prefix p s"
  then have "find (\<lambda>p. p \<noteq> [] \<and> prefix p s) ps = None" by (auto simp: find_None_iff)
  then show ?thesis by (subst trim_left.simps) simp
qed

lemma trim_left_suffix: "suffix (trim_left ps s) s"
proof (induction ps s rule: trim_left.induct)
  case (1 ps s)
  show ?case
  proof (cases "find (\<lambda>p. p \<noteq> [] \<and> prefix p s) ps")
    case None
    then show ?thesis by (subst trim_left.simps) simp
  next
    case (Some q)
    then show ?thesis using 1 [OF Some] suffix_drop by (subst trim_left.simps) (auto intro: suffix_order.trans)
  qed
qed

lemma utf8_spaces_not_empty: "p \<in> set utf8_spaces \<Longrightarrow> p \<noteq> []"
  using utf8_spaces_length by (auto simp: list_all_iff)

lemma trim_space_id: "trimmed s \<Longrightarrow> trim_space s = s"
proof -
  assume t: "trimmed s"
  then have "trim_left utf8_spaces s = s" by (intro trim_left_id) (auto simp: trimmed_def)
  moreover have "trim_left (map rev utf8_spaces) (rev s) = rev s"
    using t by (intro trim_left_id) (auto simp: trimmed_def suffix_to_prefix)
  ultimately show ?thesis by (simp add: trim_space_def)
qed

lemma trimmed_trim_space: "trimmed (trim_space s)"
  unfolding trimmed_def
proof (intro ballI conjI)
  fix p assume p: "p \<in> set utf8_spaces"
  let ?a = "trim_left utf8_spaces s" and ?b = "trim_left (map rev utf8_spaces) (rev (trim_left utf8_spaces s))"
  have "prefix (trim_space s) ?a"
    using trim_left_suffix [of "map rev utf8_spaces" "rev ?a"] by (simp add: trim_space_def suffix_to_prefix)
  then show "\<not> prefix p (trim_space s)"
    using trim_left_stops [OF p utf8_spaces_not_empty [OF p]] by (auto dest: prefix_order.trans)
  have "\<not> prefix (rev p) ?b"
    using p utf8_spaces_not_empty [OF p] by (intro trim_left_stops) auto
  then show "\<not> suffix p (trim_space s)" by (simp add: trim_space_def suffix_to_prefix)
qed

lemma trim_space_idem [simp]: "trim_space (trim_space s) = trim_space s"
  by (rule trim_space_id [OF trimmed_trim_space])

text \<open>A word of printable ASCII.\<close>

definition plain :: "gostr \<Rightarrow> bool" where
  "plain w \<longleftrightarrow> w \<noteq> [] \<and> list_all (\<lambda>c. 33 \<le> (of_char c :: nat) \<and> of_char c \<le> (126 :: nat)) w"

lemma plain_is_word: "plain w \<Longrightarrow> is_word w"
  by (auto simp: plain_def is_word_def list_all_iff is_space_byte_def)

lemma utf8_spaces_ends: "list_all (\<lambda>p. (of_char (last p) :: nat) \<le> 32 \<or> 126 < (of_char (last p) :: nat)) utf8_spaces"
  by code_simp

lemma utf8_spaces_blank: "list_all (\<lambda>p. p = '' '' \<or> CHR '' '' \<notin> set p) utf8_spaces"
  by code_simp

text \<open>
  Replacing what follows the first word of a trimmed command by words that end in printable
  ASCII leaves a trimmed command.
\<close>

lemma trimmed_rebuilt:
  assumes "trimmed cmd" "prefix w cmd" "w \<noteq> []" "f \<noteq> []" "plain f"
  shows "trimmed (w @ '' '' @ mid @ f)"
  unfolding trimmed_def
proof (intro ballI conjI notI)
  fix p assume p: "p \<in> set utf8_spaces"
  {
    assume pre: "prefix p (w @ '' '' @ mid @ f)"
    have "\<not> prefix p w" using assms(1,2) p by (auto simp: trimmed_def dest: prefix_order.trans)
    then obtain us where us: "p = w @ us" "us \<noteq> []" "prefix us ('' '' @ mid @ f)"
      using pre by (auto simp: prefix_append)
    then have "CHR '' '' \<in> set p" by (cases us) auto
    then have "p = '' ''" using utf8_spaces_blank p by (auto simp: list_all_iff)
    with us assms(3) show False by (cases w) auto
  }
  assume "suffix p (w @ '' '' @ mid @ f)"
  then obtain zs where "w @ '' '' @ mid @ f = zs @ p" by (auto simp: suffix_def)
  then have "last (w @ '' '' @ mid @ f) = last (zs @ p)" by (rule arg_cong)
  then have "last p = last f" using assms(4) utf8_spaces_not_empty [OF p] by simp
  moreover have "33 \<le> (of_char (last f) :: nat) \<and> (of_char (last f) :: nat) \<le> 126"
    using assms(4,5) by (auto simp: plain_def list_all_iff)
  ultimately show False using utf8_spaces_ends p by (auto simp: list_all_iff)
qed

end
