(* ===== verification/Rtk_Filter.thy ===== *)
theory Rtk_Filter
  imports Rtk_Lexer Go_Float
begin

text \<open>
  The command filter of \<open>rtk/filter_engine.go\<close>: it recognises git, cargo, npm, docker and go
  commands and suggests flags for them. The filters never return an error, so a result stands
  for the pair of a result and a nil error. The receiver carries the configuration, which
  only \<open>Filter\<close> reads. A confidence is the double nearest to the decimal the source writes.
\<close>

section \<open>Configuration\<close>

record FilterConfig =
  GitEnabled :: bool
  CargoEnabled :: bool
  NPMEnabled :: bool
  DockerEnabled :: bool
  GoEnabled :: bool
  MinOutputLines :: int
  MaxCommandAgeDays :: int

definition DefaultFilterConfig :: FilterConfig where
  "DefaultFilterConfig = \<lparr>GitEnabled = True, CargoEnabled = True, NPMEnabled = True,
     DockerEnabled = True, GoEnabled = True, MinOutputLines = 100, MaxCommandAgeDays = 7\<rparr>"

record FilterEngine =
  fe_config :: FilterConfig

definition NewFilterEngine :: FilterEngine where
  "NewFilterEngine = \<lparr>fe_config = DefaultFilterConfig\<rparr>"

definition NewFilterEngineWithConfig :: "FilterConfig \<Rightarrow> FilterEngine" where
  "NewFilterEngineWithConfig config = \<lparr>fe_config = config\<rparr>"

text \<open>
  \<open>strings.Trim\<close> with a cut set of one byte, and \<open>strconv.Atoi\<close>: an optional sign and decimal
  digits, an error (\<open>None\<close>) for anything else and outside the range of \<open>int\<close>.
\<close>

definition trim_byte :: "char \<Rightarrow> gostr \<Rightarrow> gostr" where
  "trim_byte c s = rev (dropWhile (\<lambda>x. x = c) (rev (dropWhile (\<lambda>x. x = c) s)))"

definition is_digit :: "char \<Rightarrow> bool" where
  "is_digit c \<longleftrightarrow> 48 \<le> (of_char c :: nat) \<and> (of_char c :: nat) \<le> 57"

definition atoi :: "gostr \<Rightarrow> int option" where
  "atoi s =
     (let neg = has_prefix s ''-'';
          ds = (if neg \<or> has_prefix s ''+'' then tl s else s);
          v = (if neg then - int (digit_value ds) else int (digit_value ds))
      in if ds \<noteq> [] \<and> list_all is_digit ds \<and> is_int64 v then Some v else None)"

definition parseBool :: "gostr \<Rightarrow> bool" where
  "parseBool s0 = (let s = to_lower (trim_byte (CHR 0x22) s0) in
     s = ''true'' \<or> s = ''yes'' \<or> s = ''1'')"

definition set_config_key :: "gostr \<Rightarrow> gostr \<Rightarrow> FilterConfig \<Rightarrow> FilterConfig" where
  "set_config_key key value cfg =
     (if key = ''git_enabled'' then cfg\<lparr>GitEnabled := parseBool value\<rparr>
      else if key = ''cargo_enabled'' then cfg\<lparr>CargoEnabled := parseBool value\<rparr>
      else if key = ''npm_enabled'' then cfg\<lparr>NPMEnabled := parseBool value\<rparr>
      else if key = ''docker_enabled'' then cfg\<lparr>DockerEnabled := parseBool value\<rparr>
      else if key = ''go_enabled'' then cfg\<lparr>GoEnabled := parseBool value\<rparr>
      else if key = ''min_output_lines'' then
        (case atoi value of None \<Rightarrow> cfg | Some v \<Rightarrow> cfg\<lparr>MinOutputLines := v\<rparr>)
      else if key = ''max_command_age_days'' then
        (case atoi value of None \<Rightarrow> cfg | Some v \<Rightarrow> cfg\<lparr>MaxCommandAgeDays := v\<rparr>)
      else cfg)"

definition parse_config_line :: "FilterConfig \<Rightarrow> gostr \<Rightarrow> FilterConfig" where
  "parse_config_line cfg line0 =
     (let line = trim_space line0 in
      if line = [] \<or> has_prefix line ''#'' then cfg
      else let parts = str_splitN2 (CHR ''='') line in
        if length parts \<noteq> 2 then cfg
        else set_config_key (trim_space (parts ! 0)) (trim_space (parts ! 1)) cfg)"

definition ParseFilterConfig :: "gostr \<Rightarrow> FilterConfig" where
  "ParseFilterConfig data = foldl parse_config_line DefaultFilterConfig (str_split (CHR 0x0A) data)"

section \<open>Results and helpers\<close>

record FilterResult =
  ShouldOptimize :: bool
  OptimizationType :: gostr
  OriginalCommand :: gostr
  OptimizedCommand :: gostr
  EstimatedSavings :: int
  Confidence :: float64

definition rtk_zero :: FilterResult where
  "rtk_zero = \<lparr>ShouldOptimize = False, OptimizationType = [], OriginalCommand = [],
     OptimizedCommand = [], EstimatedSavings = 0, Confidence = 0\<rparr>"

definition hasFlag :: "Token list \<Rightarrow> gostr \<Rightarrow> bool" where
  "hasFlag tokens flag = list_ex (\<lambda>t. tk_Type t = TokenFlag \<and> has_prefix (tk_Value t) flag) tokens"

definition joinTokens :: "Token list \<Rightarrow> gostr" where
  "joinTokens tokens = str_join '' '' (map tk_Value tokens)"

text \<open>
  The body the optimizers share: the result starts from the joined tokens, and when there are
  flags to add, the optimized command is the original one with the flags appended.
\<close>

definition with_flags :: "Token list \<Rightarrow> gostr \<Rightarrow> rat \<Rightarrow> gostr list \<Rightarrow> int \<Rightarrow> FilterResult" where
  "with_flags tokens typ conf optimizations savings =
     (let result = rtk_zero\<lparr>OriginalCommand := joinTokens tokens, OptimizationType := typ, Confidence := fl conf\<rparr>
      in if optimizations \<noteq> []
         then result\<lparr>ShouldOptimize := True,
           OptimizedCommand := OriginalCommand result @ '' '' @ str_join '' '' optimizations,
           EstimatedSavings := savings\<rparr>
         else result\<lparr>ShouldOptimize := False, OptimizedCommand := OriginalCommand result\<rparr>)"

section \<open>git\<close>

definition optimizeClone :: "Token list \<Rightarrow> FilterResult" where
  "optimizeClone tokens = with_flags tokens ''git_clone'' (85 / 100)
     ((if \<not> hasFlag tokens ''--depth'' then [''--depth=1''] else [])
      @ (if \<not> hasFlag tokens ''--single-branch'' then [''--single-branch''] else [])) 50"

text \<open>The push optimizer rebuilds the command from its first two tokens.\<close>

definition optimizePush :: "Token list \<Rightarrow> FilterResult" where
  "optimizePush tokens =
     (let result = rtk_zero\<lparr>OriginalCommand := joinTokens tokens, OptimizationType := ''git_push'',
            Confidence := fl (8 / 10)\<rparr>;
          optimizations = (if \<not> hasFlag tokens ''--quiet'' \<and> \<not> hasFlag tokens ''-q'' then [''--quiet''] else [])
      in if optimizations \<noteq> []
         then result\<lparr>ShouldOptimize := True,
           OptimizedCommand := tk_Value (tokens ! 0) @ '' '' @ tk_Value (tokens ! 1) @ '' '' @ str_join '' '' optimizations,
           EstimatedSavings := 5\<rparr>
         else result\<lparr>ShouldOptimize := False, OptimizedCommand := OriginalCommand result\<rparr>)"

definition optimizePull :: "Token list \<Rightarrow> FilterResult" where
  "optimizePull tokens = with_flags tokens ''git_pull'' (75 / 100)
     (if \<not> hasFlag tokens ''--rebase'' \<and> \<not> hasFlag tokens ''-r'' then [''--rebase''] else []) 3"

definition optimizeLog :: "Token list \<Rightarrow> FilterResult" where
  "optimizeLog tokens = with_flags tokens ''git_log'' (9 / 10)
     (if hasFlag tokens ''-n'' then []
      else if \<not> hasFlag tokens ''--oneline'' then [''--oneline -20''] else []) 80"

definition optimizeStatus :: "Token list \<Rightarrow> FilterResult" where
  "optimizeStatus tokens = with_flags tokens ''git_status'' (95 / 100)
     (if \<not> hasFlag tokens ''-s'' \<and> \<not> hasFlag tokens ''--short'' then [''-s''] else []) 60"

definition optimizeDiff :: "Token list \<Rightarrow> FilterResult" where
  "optimizeDiff tokens = with_flags tokens ''git_diff'' (85 / 100)
     (if \<not> hasFlag tokens ''--stat'' then [''--stat''] else []) 40"

definition FilterGit :: "gostr \<Rightarrow> FilterResult" where
  "FilterGit cmd =
     (let tokens = Tokenize (NewLexer cmd) in
      if tokens = [] then rtk_zero\<lparr>OriginalCommand := cmd, Confidence := 0\<rparr>
      else let result = rtk_zero\<lparr>OriginalCommand := cmd, Confidence := fl (9 / 10)\<rparr>;
               command = to_lower (tk_Value (tokens ! 0));
               subcommand = (if 1 < length tokens then to_lower (tk_Value (tokens ! 1)) else [])
        in if command = ''git'' then
             (if subcommand = ''clone'' then optimizeClone tokens
              else if subcommand = ''push'' then optimizePush tokens
              else if subcommand = ''pull'' then optimizePull tokens
              else if subcommand = ''log'' then optimizeLog tokens
              else if subcommand = ''status'' then optimizeStatus tokens
              else if subcommand = ''diff'' then optimizeDiff tokens
              else result\<lparr>OptimizationType := ''generic_git'', Confidence := fl (5 / 10)\<rparr>)
           else result\<lparr>Confidence := 0\<rparr>)"

section \<open>cargo\<close>

definition optimizeCargoBuild :: "Token list \<Rightarrow> FilterResult" where
  "optimizeCargoBuild tokens = with_flags tokens ''cargo_build'' (9 / 10)
     ((if \<not> hasFlag tokens ''--jobs'' \<and> \<not> hasFlag tokens ''-j'' then [''-j 4''] else [])
      @ (if \<not> hasFlag tokens ''--locked'' then [''--locked''] else [])) 100"

definition optimizeCargoTest :: "Token list \<Rightarrow> FilterResult" where
  "optimizeCargoTest tokens = with_flags tokens ''cargo_test'' (85 / 100)
     (if hasFlag tokens ''--no-fail-fast'' then [] else [''--no-fail-fast'']) 20"

definition optimizeCargoCheck :: "Token list \<Rightarrow> FilterResult" where
  "optimizeCargoCheck tokens = with_flags tokens ''cargo_check'' (95 / 100)
     (if \<not> hasFlag tokens ''--all-targets'' then [''--all-targets''] else []) 30"

definition FilterCargo :: "gostr \<Rightarrow> FilterResult" where
  "FilterCargo cmd =
     (let tokens = Tokenize (NewLexer cmd) in
      if tokens = [] then rtk_zero\<lparr>OriginalCommand := cmd, Confidence := 0\<rparr>
      else let result = rtk_zero\<lparr>OriginalCommand := cmd, Confidence := fl (85 / 100)\<rparr>;
               command = to_lower (tk_Value (tokens ! 0));
               subcommand = (if 1 < length tokens then to_lower (tk_Value (tokens ! 1)) else [])
        in if command = ''cargo'' then
             (if subcommand = ''build'' then optimizeCargoBuild tokens
              else if subcommand = ''test'' then optimizeCargoTest tokens
              else if subcommand = ''check'' then optimizeCargoCheck tokens
              else result\<lparr>OptimizationType := ''generic_cargo'', Confidence := fl (5 / 10)\<rparr>)
           else result\<lparr>Confidence := 0\<rparr>)"

section \<open>npm\<close>

definition optimizeNPMInstall :: "Token list \<Rightarrow> FilterResult" where
  "optimizeNPMInstall tokens = with_flags tokens ''npm_install'' (9 / 10)
     ((if \<not> hasFlag tokens ''--prefer-offline'' then [''--prefer-offline''] else [])
      @ (if hasFlag tokens ''--save-dev'' \<or> hasFlag tokens ''-D''
         then (if \<not> hasFlag tokens ''--ignore-scripts'' then [''--ignore-scripts''] else []) else [])
      @ (if \<not> hasFlag tokens ''--no-audit'' then [''--no-audit''] else [])) 50"

definition optimizeNPMRun :: "Token list \<Rightarrow> FilterResult" where
  "optimizeNPMRun tokens = with_flags tokens ''npm_run'' (8 / 10)
     (if \<not> hasFlag tokens ''--if-present'' then [''--if-present''] else []) 10"

definition optimizeNPMTest :: "Token list \<Rightarrow> FilterResult" where
  "optimizeNPMTest tokens = with_flags tokens ''npm_test'' (85 / 100)
     (if \<not> hasFlag tokens ''--runInBand'' \<and> \<not> hasFlag tokens ''-r'' then [''--runInBand''] else []) 40"

definition optimizeNPMBuild :: "Token list \<Rightarrow> FilterResult" where
  "optimizeNPMBuild tokens = with_flags tokens ''npm_build'' (8 / 10)
     (if \<not> hasFlag tokens ''--ignore-scripts'' then [''--ignore-scripts''] else []) 30"

definition FilterNPM :: "gostr \<Rightarrow> FilterResult" where
  "FilterNPM cmd =
     (let tokens = Tokenize (NewLexer cmd) in
      if tokens = [] then rtk_zero\<lparr>OriginalCommand := cmd, Confidence := 0\<rparr>
      else let result = rtk_zero\<lparr>OriginalCommand := cmd, Confidence := fl (85 / 100)\<rparr>;
               command = to_lower (tk_Value (tokens ! 0))
        in if command = ''npm'' then
             (if 1 < length tokens then
                let subcommand = to_lower (tk_Value (tokens ! 1)) in
                if subcommand = ''install'' then optimizeNPMInstall tokens
                else if subcommand = ''run'' then optimizeNPMRun tokens
                else if subcommand = ''test'' then optimizeNPMTest tokens
                else if subcommand = ''build'' then optimizeNPMBuild tokens
                else result\<lparr>OptimizationType := ''generic_npm'', Confidence := fl (5 / 10)\<rparr>
              else result)
           else result\<lparr>Confidence := 0\<rparr>)"

section \<open>docker\<close>

definition optimizeDockerBuild :: "Token list \<Rightarrow> FilterResult" where
  "optimizeDockerBuild tokens = with_flags tokens ''docker_build'' (9 / 10)
     ((if \<not> hasFlag tokens ''--no-cache'' \<and> \<not> hasFlag tokens ''--pull'' then [''--pull''] else [])
      @ (if \<not> hasFlag tokens ''--compress'' then [''--compress''] else [])) 200"

definition optimizeDockerRun :: "Token list \<Rightarrow> FilterResult" where
  "optimizeDockerRun tokens = with_flags tokens ''docker_run'' (85 / 100)
     ((if \<not> hasFlag tokens ''--rm'' then [''--rm''] else [])
      @ (if \<not> hasFlag tokens ''--network'' then [''--network host''] else [])) 20"

definition optimizeDockerPS :: "Token list \<Rightarrow> FilterResult" where
  "optimizeDockerPS tokens = with_flags tokens ''docker_ps'' (95 / 100)
     (if \<not> hasFlag tokens ''-q'' \<and> \<not> hasFlag tokens ''--quiet'' then [''-q''] else []) 70"

definition optimizeDockerImages :: "Token list \<Rightarrow> FilterResult" where
  "optimizeDockerImages tokens = with_flags tokens ''docker_images'' (95 / 100)
     (if \<not> hasFlag tokens ''-q'' \<and> \<not> hasFlag tokens ''--quiet'' then [''-q''] else []) 60"

definition FilterDocker :: "gostr \<Rightarrow> FilterResult" where
  "FilterDocker cmd =
     (let tokens = Tokenize (NewLexer cmd) in
      if tokens = [] then rtk_zero\<lparr>OriginalCommand := cmd, Confidence := 0\<rparr>
      else let result = rtk_zero\<lparr>OriginalCommand := cmd, Confidence := fl (85 / 100)\<rparr>;
               command = to_lower (tk_Value (tokens ! 0));
               subcommand = (if 1 < length tokens then to_lower (tk_Value (tokens ! 1)) else [])
        in if command = ''docker'' then
             (if subcommand = ''build'' then optimizeDockerBuild tokens
              else if subcommand = ''run'' then optimizeDockerRun tokens
              else if subcommand = ''ps'' then optimizeDockerPS tokens
              else if subcommand = ''images'' then optimizeDockerImages tokens
              else result\<lparr>OptimizationType := ''generic_docker'', Confidence := fl (5 / 10)\<rparr>)
           else result\<lparr>Confidence := 0\<rparr>)"

section \<open>go\<close>

definition optimizeGoBuild :: "Token list \<Rightarrow> FilterResult" where
  "optimizeGoBuild tokens =
     (if hasFlag tokens ''-v'' \<and> \<not> hasFlag tokens ''-vv''
      then with_flags tokens ''go_build'' (9 / 10) [''-v''] 50
      else if \<not> hasFlag tokens ''-v'' then with_flags tokens ''go_build'' (9 / 10) [''-v''] 30
      else with_flags tokens ''go_build'' (9 / 10) [] 0)"

definition optimizeGoTest :: "Token list \<Rightarrow> FilterResult" where
  "optimizeGoTest tokens = with_flags tokens ''go_test'' (9 / 10)
     ((if \<not> hasFlag tokens ''-short'' then [''-short''] else [])
      @ (if \<not> hasFlag tokens ''-count=1'' then [''-count=1''] else [])) 40"

definition optimizeGoFmt :: "Token list \<Rightarrow> FilterResult" where
  "optimizeGoFmt tokens = with_flags tokens ''go_fmt'' (95 / 100)
     (if \<not> hasFlag tokens ''-l'' then [''-l''] else []) 20"

definition optimizeGoVet :: "Token list \<Rightarrow> FilterResult" where
  "optimizeGoVet tokens = with_flags tokens ''go_vet'' (9 / 10)
     (if \<not> hasFlag tokens ''-v'' then [''-v''] else []) 25"

definition FilterGo :: "gostr \<Rightarrow> FilterResult" where
  "FilterGo cmd =
     (let tokens = Tokenize (NewLexer cmd) in
      if tokens = [] then rtk_zero\<lparr>OriginalCommand := cmd, Confidence := 0\<rparr>
      else let result = rtk_zero\<lparr>OriginalCommand := cmd, Confidence := fl (85 / 100)\<rparr>;
               command = to_lower (tk_Value (tokens ! 0))
        in if command = ''go'' then
             (if 1 < length tokens then
                let subcommand = to_lower (tk_Value (tokens ! 1)) in
                if subcommand = ''build'' then optimizeGoBuild tokens
                else if subcommand = ''test'' then optimizeGoTest tokens
                else if subcommand = ''fmt'' then optimizeGoFmt tokens
                else if subcommand = ''vet'' then optimizeGoVet tokens
                else result\<lparr>OptimizationType := ''generic_go'', Confidence := fl (5 / 10)\<rparr>
              else result)
           else result\<lparr>Confidence := 0\<rparr>)"

section \<open>The dispatcher\<close>

definition rtk_Filter :: "FilterEngine \<Rightarrow> gostr \<Rightarrow> FilterResult" where
  "rtk_Filter e cmd0 =
     (let cmd = trim_space cmd0 in
      if cmd = [] then rtk_zero\<lparr>OriginalCommand := cmd, Confidence := 0\<rparr>
      else let firstWord = to_lower (str_split (CHR '' '') cmd ! 0) in
        if firstWord = ''git'' \<and> GitEnabled (fe_config e) then FilterGit cmd
        else if firstWord = ''cargo'' \<and> CargoEnabled (fe_config e) then FilterCargo cmd
        else if firstWord = ''npm'' \<and> NPMEnabled (fe_config e) then FilterNPM cmd
        else if firstWord = ''docker'' \<and> DockerEnabled (fe_config e) then FilterDocker cmd
        else if firstWord = ''go'' \<and> GoEnabled (fe_config e) then FilterGo cmd
        else rtk_zero\<lparr>OriginalCommand := cmd, OptimizationType := ''generic_shell'',
          Confidence := fl (3 / 10), ShouldOptimize := False\<rparr>)"

section \<open>Command types, patterns and reports\<close>

definition commandMap :: "(gostr \<times> (gostr \<times> gostr) list) list" where
  "commandMap =
     [(''git'', [(''clone'', ''git_clone''), (''push'', ''git_push''), (''pull'', ''git_pull''),
        (''commit'', ''git_commit''), (''branch'', ''git_branch''), (''merge'', ''git_merge''),
        (''log'', ''git_log''), (''diff'', ''git_diff''), (''status'', ''git_status''),
        (''fetch'', ''git_fetch''), (''checkout'', ''git_checkout''), (''rebase'', ''git_rebase''),
        (''stash'', ''git_stash'')]),
      (''cargo'', [(''build'', ''cargo_build''), (''test'', ''cargo_test''), (''run'', ''cargo_run''),
        (''clippy'', ''cargo_clippy''), (''check'', ''cargo_check''), (''fmt'', ''cargo_fmt''),
        (''publish'', ''cargo_publish'')]),
      (''npm'', [(''install'', ''npm_install''), (''run'', ''npm_run''), (''test'', ''npm_test''),
        (''build'', ''npm_build''), (''start'', ''npm_start''), (''stop'', ''npm_stop'')]),
      (''docker'', [(''build'', ''docker_build''), (''run'', ''docker_run''), (''ps'', ''docker_ps''),
        (''images'', ''docker_images''), (''pull'', ''docker_pull''), (''push'', ''docker_push''),
        (''exec'', ''docker_exec''), (''logs'', ''docker_logs'')]),
      (''go'', [(''build'', ''go_build''), (''test'', ''go_test''), (''run'', ''go_run''),
        (''fmt'', ''go_fmt''), (''vet'', ''go_vet''), (''get'', ''go_get''), (''mod'', ''go_mod'')])]"

text \<open>\<open>SplitN\<close> never returns an empty slice here, so the guard for one is not taken.\<close>

definition DetectCommandType :: "gostr \<Rightarrow> gostr" where
  "DetectCommandType cmd0 =
     (let cmd = trim_space cmd0; parts = str_splitN2 (CHR '' '') cmd in
      if parts = [] then ''unknown''
      else let first = to_lower (parts ! 0);
               second = (if 1 < length parts then to_lower (str_splitN2 (CHR '' '') (parts ! 1) ! 0) else [])
        in case map_of commandMap first of
             Some subCommands \<Rightarrow>
               (case map_of subCommands second of
                  Some subCmd \<Rightarrow> subCmd
                | None \<Rightarrow> if second = [] then first @ ''_base'' else first)
           | None \<Rightarrow> ''generic'')"

text \<open>Each pattern is an alternation of literals, which matches where one of them occurs.\<close>

definition optimizationPatterns :: "(gostr \<times> gostr list) list" where
  "optimizationPatterns =
     [(''verbose_output'', [''-v'', ''--verbose'', ''--debug'', ''--trace'']),
      (''no_cache'', [''--no-cache'', ''--no-cache-dir'']),
      (''force_flag'', [''-f'', ''--force'', ''-y'', ''--yes'', ''--assume-yes''])]"

definition AnalyzeCommandPattern :: "gostr \<Rightarrow> (gostr, bool) gomap" where
  "AnalyzeCommandPattern cmd =
     map_of (map (\<lambda>(name, alts). (name, list_ex (str_contains cmd) alts)) optimizationPatterns)"

definition suggestions :: "(gostr \<times> gostr list) list" where
  "suggestions =
     [(''git_clone'', [''Use --depth=1 for shallow clones'', ''Use --single-branch to clone only one branch'',
         ''Consider --jobs=N for parallel fetching'']),
      (''git_push'', [''Use --quiet to reduce output'', ''Consider --atomic for atomic pushes'']),
      (''git_pull'', [''Use --rebase for cleaner history'', ''Consider --ff-only for fast-forward only'']),
      (''git_log'', [''Use --oneline for concise output'', ''Use -n to limit commit count'',
         ''Consider --graph for visual history'']),
      (''git_status'', [''Use -s for short format'', ''Consider --short for compact output'']),
      (''git_diff'', [''Use --stat for summary'', ''Consider --name-only for file list only'']),
      (''cargo_build'', [''Use --release for optimized builds'', ''Consider --jobs=N for parallel compilation'',
         ''Use --locked for reproducible builds'']),
      (''cargo_test'', [''Use --release for faster tests'', ''Consider --no-fail-fast to run all tests'']),
      (''cargo_check'', [''Use --all-targets to check all targets'',
         ''Consider --message-format=json for machine parsing'']),
      (''npm_install'', [''Use --prefer-offline for faster installs'', ''Consider --no-audit to skip security audit'']),
      (''npm_run'', [''Use --if-present to avoid errors'', ''Consider --silent for less output'']),
      (''npm_test'', [''Use --runInBand for sequential tests'', ''Consider --coverage for test coverage'']),
      (''docker_build'', [''Use --pull for fresh base images'', ''Consider --compress for smaller context'',
         ''Use --no-cache when not needed'']),
      (''docker_run'', [''Use --rm for automatic cleanup'', ''Consider --network host for host networking'']),
      (''docker_ps'', [''Use -q for quiet mode (IDs only)'', ''Consider -a for all containers'']),
      (''docker_images'', [''Use -q for quiet mode (IDs only)'', ''Consider --format for custom output'']),
      (''go_build'', [''Use -ldflags for build info injection'', ''Consider -s -w for binary size reduction'']),
      (''go_test'', [''Use -short for shorter test runs'', ''Consider -count=1 to disable test caching'',
         ''Use -race for race detection'']),
      (''go_fmt'', [''Use -l to list unformatted files'', ''Consider -w to write changes'']),
      (''go_vet'', [''Use -v for verbose output'', ''Consider running with go build first''])]"

definition GetOptimizationSuggestions :: "gostr \<Rightarrow> gostr list" where
  "GetOptimizationSuggestions cmdType =
     (case map_of suggestions cmdType of Some s \<Rightarrow> s
      | None \<Rightarrow> [''Check command documentation for performance flags'',
          ''Consider parallel execution options'', ''Review output verbosity settings''])"

text \<open>The verb \<open>%.0f\<close> rounds to the nearest integer, ties to even.\<close>

definition FormatResult :: "FilterResult \<Rightarrow> gostr" where
  "FormatResult result =
     (if Confidence result = 0 then ''Unknown command: '' @ OriginalCommand result
      else str_join [CHR 0x0A]
        ([''Command: '' @ OriginalCommand result,
          ''Type: '' @ OptimizationType result,
          ''Confidence: '' @ itoa (rne (fmul (Confidence result) 100)) @ ''%'']
         @ (if ShouldOptimize result
            then [''Optimized: '' @ OptimizedCommand result,
                  ''Estimated Savings: '' @ itoa (EstimatedSavings result) @ '' bytes'']
            else [''No optimization suggested''])))"

end
