(* ===== verification/Rtk_Rewrites.thy ===== *)
theory Rtk_Rewrites
  imports Rtk_Filter
begin

text \<open>
  What the filter does to a command. The contract of an optimizer is a locale: which words of
  the command it keeps, that it only appends printable flags, and, in the extension
  \<open>settled_optimizer\<close>, that it has nothing to add to a command it has rewritten. The
  optimizers interpret it, and the properties of \<open>Filter\<close> follow for all of them at once.
\<close>

section \<open>Tokens as words\<close>

abbreviation words_of :: "Token list \<Rightarrow> gostr list" where
  "words_of ts \<equiv> map tk_Value ts"

definition lexed :: "Token list \<Rightarrow> bool" where
  "lexed ts \<longleftrightarrow> (\<forall>t \<in> set ts. is_word (tk_Value t) \<and> (tk_Type t = TokenFlag \<longleftrightarrow> has_prefix (tk_Value t) ''-''))"

lemma lexed_Tokenize [simp]: "lexed (Tokenize l)"
proof -
  have "is_word (tk_Value t)" if "t \<in> set (Tokenize l)" for t
  proof -
    have "tk_Value t \<in> set (map tk_Value (Tokenize l))" using that by simp
    then show ?thesis unfolding Tokenize_words by (rule byte_words_words)
  qed
  then show ?thesis by (auto simp: lexed_def Tokenize_flags)
qed

lemma lexed_words: "lexed ts \<Longrightarrow> list_all is_word (words_of ts)"
  by (auto simp: lexed_def list_all_iff)

lemma byte_words_joinTokens: "lexed ts \<Longrightarrow> byte_words (joinTokens ts) = words_of ts"
  by (simp add: joinTokens_def byte_words_join lexed_words)

definition word_flag :: "gostr list \<Rightarrow> gostr \<Rightarrow> bool" where
  "word_flag ws f \<longleftrightarrow> list_ex (\<lambda>w. has_prefix w f) ws"

lemma hasFlag_words:
  "lexed ts \<Longrightarrow> hasFlag ts (CHR ''-'' # f) \<longleftrightarrow> word_flag (words_of ts) (CHR ''-'' # f)"
  by (fastforce simp: lexed_def hasFlag_def word_flag_def list_ex_iff has_prefix_def prefix_def)

lemma word_flag_append [simp]: "word_flag (xs @ ys) f \<longleftrightarrow> word_flag xs f \<or> word_flag ys f"
  by (simp add: word_flag_def)

text \<open>Flags as the optimizers write them: printable words joined by single blanks.\<close>

definition neat :: "gostr \<Rightarrow> bool" where
  "neat f \<longleftrightarrow> byte_words f \<noteq> [] \<and> list_all plain (byte_words f) \<and> str_join '' '' (byte_words f) = f"

definition flag_words :: "gostr list \<Rightarrow> gostr list" where
  "flag_words fs = concat (map byte_words fs)"

lemma flag_words_join: "list_all neat fs \<Longrightarrow> str_join '' '' (flag_words fs) = str_join '' '' fs"
proof (induction fs)
  case (Cons f fs)
  show ?case
  proof (cases fs)
    case Nil
    then show ?thesis using Cons by (simp add: flag_words_def neat_def)
  next
    case (Cons g gs)
    have f: "neat f" "list_all neat fs" using \<open>list_all neat (f # fs)\<close> by simp_all
    with Cons have "flag_words fs \<noteq> []" by (auto simp: flag_words_def neat_def)
    then have "str_join '' '' (flag_words (f # fs)) = f @ '' '' @ str_join '' '' (flag_words fs)"
      using f(1) by (simp add: flag_words_def neat_def str_join_append)
    then show ?thesis using Cons.IH [OF f(2)] Cons by (simp add: str_join_Cons)
  qed
qed (simp add: flag_words_def)

lemma flag_words_plain: "list_all neat fs \<Longrightarrow> list_all plain (flag_words fs)"
  by (auto simp: flag_words_def neat_def list_all_iff)

lemma flag_words_empty: "list_all neat fs \<Longrightarrow> flag_words fs = [] \<longleftrightarrow> fs = []"
  by (cases fs) (auto simp: flag_words_def neat_def)

lemma with_flags_simps [simp]:
  "OptimizationType (with_flags ts typ conf fs sv) = typ"
  "ShouldOptimize (with_flags ts typ conf fs sv) \<longleftrightarrow> fs \<noteq> []"
  "OriginalCommand (with_flags ts typ conf fs sv) = joinTokens ts"
  by (simp_all add: with_flags_def rtk_zero_def Let_def)

lemma with_flags_idle: "OptimizedCommand (with_flags ts typ conf [] sv) = joinTokens ts"
  by (simp add: with_flags_def Let_def)

lemma with_flags_adds:
  assumes "ts \<noteq> []" "fs \<noteq> []" "list_all neat fs"
  shows "OptimizedCommand (with_flags ts typ conf fs sv) = str_join '' '' (words_of ts @ flag_words fs)"
  using assms by (simp add: with_flags_def Let_def joinTokens_def rtk_zero_def str_join_append
      flag_words_join flag_words_empty)

section \<open>The contract of an optimizer\<close>

locale rtk_optimizer =
  fixes opt :: "Token list \<Rightarrow> FilterResult" and opt_name :: gostr and kept :: "gostr list \<Rightarrow> gostr list"
  assumes opt_type: "OptimizationType (opt ts) = opt_name"
    and opt_idle: "\<not> ShouldOptimize (opt ts) \<Longrightarrow> OptimizedCommand (opt ts) = joinTokens ts"
    and opt_adds: "lexed ts \<Longrightarrow> 1 < length ts \<Longrightarrow> ShouldOptimize (opt ts) \<Longrightarrow>
      \<exists>added. added \<noteq> [] \<and> list_all plain added
        \<and> OptimizedCommand (opt ts) = str_join '' '' (kept (words_of ts) @ added)"
    and kept_start: "1 < length ws \<Longrightarrow> take 2 (kept ws) = take 2 ws"
    and kept_subset: "set (kept ws) \<subseteq> set ws"
begin

lemma rewritten_words:
  assumes "lexed ts" "1 < length ts" "ShouldOptimize (opt ts)"
  obtains added where "added \<noteq> []" "list_all plain added"
    "OptimizedCommand (opt ts) = str_join '' '' (kept (words_of ts) @ added)"
    "byte_words (OptimizedCommand (opt ts)) = kept (words_of ts) @ added"
proof -
  obtain added where a: "added \<noteq> []" "list_all plain added"
    "OptimizedCommand (opt ts) = str_join '' '' (kept (words_of ts) @ added)"
    using opt_adds [OF assms] by blast
  have "list_all is_word (kept (words_of ts) @ added)"
    using kept_subset [of "words_of ts"] lexed_words [OF assms(1)] a(2)
    by (auto simp: list_all_iff plain_is_word)
  then have "byte_words (OptimizedCommand (opt ts)) = kept (words_of ts) @ added"
    by (simp add: a(3) byte_words_join)
  with a show thesis using that by blast
qed

end

locale settled_optimizer = rtk_optimizer +
  assumes opt_settles: "lexed ts \<Longrightarrow> 1 < length ts \<Longrightarrow> ShouldOptimize (opt ts) \<Longrightarrow> lexed ts' \<Longrightarrow>
    words_of ts' = byte_words (OptimizedCommand (opt ts)) \<Longrightarrow> \<not> ShouldOptimize (opt ts')"

lemma flag_optimizerI:
  assumes "\<And>ts. \<exists>conf fs sv. opt ts = with_flags ts typ conf fs sv \<and> list_all neat fs"
  shows "rtk_optimizer opt typ (\<lambda>ws. ws)"
proof (unfold_locales)
  fix ts
  obtain conf fs sv where o: "opt ts = with_flags ts typ conf fs sv" "list_all neat fs" using assms by blast
  show "OptimizationType (opt ts) = typ" by (simp add: o)
  show "OptimizedCommand (opt ts) = joinTokens ts" if "\<not> ShouldOptimize (opt ts)"
    using that by (simp add: o with_flags_idle)
  assume ts: "lexed ts" "1 < length ts" "ShouldOptimize (opt ts)"
  then have "ts \<noteq> []" "fs \<noteq> []" by (auto simp: o)
  then show "\<exists>added. added \<noteq> [] \<and> list_all plain added
        \<and> OptimizedCommand (opt ts) = str_join '' '' (words_of ts @ added)"
    using o with_flags_adds flag_words_plain flag_words_empty by (metis)
qed simp_all

lemma settledI:
  assumes opt: "\<And>ts. opt ts = with_flags ts ty conf (fs ts) sv" and neat: "\<And>ts. list_all neat (fs ts)"
    and settles: "\<And>ts ts'. lexed ts \<Longrightarrow> lexed ts' \<Longrightarrow> words_of ts' = words_of ts @ flag_words (fs ts) \<Longrightarrow> fs ts' = []"
  shows "settled_optimizer opt ty (\<lambda>ws. ws)"
proof (intro settled_optimizer.intro settled_optimizer_axioms.intro)
  show "rtk_optimizer opt ty (\<lambda>ws. ws)" using opt neat by (intro flag_optimizerI) blast
  fix ts ts'
  assume a: "lexed ts" "1 < length ts" "ShouldOptimize (opt ts)" "lexed ts'"
    "words_of ts' = byte_words (OptimizedCommand (opt ts))"
  have "list_all is_word (words_of ts @ flag_words (fs ts))"
    using lexed_words [OF a(1)] flag_words_plain [OF neat] by (auto simp: list_all_iff plain_is_word)
  moreover have "ts \<noteq> []" "fs ts \<noteq> []" using a(2,3) by (auto simp: opt)
  then have "OptimizedCommand (opt ts) = str_join '' '' (words_of ts @ flag_words (fs ts))"
    using with_flags_adds [OF _ _ neat] by (simp add: opt)
  ultimately have w: "words_of ts' = words_of ts @ flag_words (fs ts)"
    using a(5) by (simp add: byte_words_join)
  have "fs ts' = []" by (rule settles [OF a(1,4) w])
  then show "\<not> ShouldOptimize (opt ts')" by (simp add: opt)
qed

declare byte_words.simps [simp del]

section \<open>The optimizers meet the contract\<close>

lemma plain_words [simp]:
  "plain ''--all-targets''"
  "plain ''--compress''"
  "plain ''--depth=1''"
  "plain ''--if-present''"
  "plain ''--ignore-scripts''"
  "plain ''--locked''"
  "plain ''--network''"
  "plain ''--no-audit''"
  "plain ''--no-fail-fast''"
  "plain ''--oneline''"
  "plain ''--prefer-offline''"
  "plain ''--pull''"
  "plain ''--quiet''"
  "plain ''--rebase''"
  "plain ''--rm''"
  "plain ''--runInBand''"
  "plain ''--single-branch''"
  "plain ''--stat''"
  "plain ''-20''"
  "plain ''-count=1''"
  "plain ''-j''"
  "plain ''-l''"
  "plain ''-q''"
  "plain ''-s''"
  "plain ''-short''"
  "plain ''-v''"
  "plain ''4''"
  "plain ''host''"
  by code_simp+

lemma byte_words_flags [simp]:
  "byte_words ''--depth=1'' = [''--depth=1'']"
  "byte_words ''--single-branch'' = [''--single-branch'']"
  "byte_words ''--quiet'' = [''--quiet'']"
  "byte_words ''--rebase'' = [''--rebase'']"
  "byte_words ''--oneline -20'' = [''--oneline'', ''-20'']"
  "byte_words ''-s'' = [''-s'']"
  "byte_words ''--stat'' = [''--stat'']"
  "byte_words ''-j 4'' = [''-j'', ''4'']"
  "byte_words ''--locked'' = [''--locked'']"
  "byte_words ''--no-fail-fast'' = [''--no-fail-fast'']"
  "byte_words ''--all-targets'' = [''--all-targets'']"
  "byte_words ''--prefer-offline'' = [''--prefer-offline'']"
  "byte_words ''--ignore-scripts'' = [''--ignore-scripts'']"
  "byte_words ''--no-audit'' = [''--no-audit'']"
  "byte_words ''--if-present'' = [''--if-present'']"
  "byte_words ''--runInBand'' = [''--runInBand'']"
  "byte_words ''--pull'' = [''--pull'']"
  "byte_words ''--compress'' = [''--compress'']"
  "byte_words ''--rm'' = [''--rm'']"
  "byte_words ''--network host'' = [''--network'', ''host'']"
  "byte_words ''-q'' = [''-q'']"
  "byte_words ''-v'' = [''-v'']"
  "byte_words ''-short'' = [''-short'']"
  "byte_words ''-count=1'' = [''-count=1'']"
  "byte_words ''-l'' = [''-l'']"
  using byte_words_join [of "[''--oneline'', ''-20'']"] byte_words_join [of "[''-j'', ''4'']"]
    byte_words_join [of "[''--network'', ''host'']"]
  by (simp_all add: byte_words_word plain_is_word)

lemma neat_flags [simp]:
  "neat ''--depth=1''"
  "neat ''--single-branch''"
  "neat ''--quiet''"
  "neat ''--rebase''"
  "neat ''--oneline -20''"
  "neat ''-s''"
  "neat ''--stat''"
  "neat ''-j 4''"
  "neat ''--locked''"
  "neat ''--no-fail-fast''"
  "neat ''--all-targets''"
  "neat ''--prefer-offline''"
  "neat ''--ignore-scripts''"
  "neat ''--no-audit''"
  "neat ''--if-present''"
  "neat ''--runInBand''"
  "neat ''--pull''"
  "neat ''--compress''"
  "neat ''--rm''"
  "neat ''--network host''"
  "neat ''-q''"
  "neat ''-v''"
  "neat ''-short''"
  "neat ''-count=1''"
  "neat ''-l''"
  by (simp_all add: neat_def)

lemma flag_words_simps [simp]:
  "flag_words [] = []" "flag_words (f # fs) = byte_words f @ flag_words fs"
  "flag_words (fs @ gs) = flag_words fs @ flag_words gs"
  by (simp_all add: flag_words_def)

lemma word_flag_simps [simp]:
  "word_flag [] f \<longleftrightarrow> False" "word_flag (w # ws) f \<longleftrightarrow> prefix f w \<or> word_flag ws f"
  by (simp_all add: word_flag_def has_prefix_def)

interpretation clone: settled_optimizer optimizeClone "''git_clone''" "\<lambda>ws. ws"
  by (rule settledI [OF optimizeClone_def]) (auto simp: hasFlag_words)

interpretation pull: settled_optimizer optimizePull "''git_pull''" "\<lambda>ws. ws"
  by (rule settledI [OF optimizePull_def]) (auto simp: hasFlag_words)

interpretation log: settled_optimizer optimizeLog "''git_log''" "\<lambda>ws. ws"
  by (rule settledI [OF optimizeLog_def]) (auto simp: hasFlag_words)

interpretation status: settled_optimizer optimizeStatus "''git_status''" "\<lambda>ws. ws"
  by (rule settledI [OF optimizeStatus_def]) (auto simp: hasFlag_words)

interpretation diff: settled_optimizer optimizeDiff "''git_diff''" "\<lambda>ws. ws"
  by (rule settledI [OF optimizeDiff_def]) (auto simp: hasFlag_words)

interpretation cargo_build: settled_optimizer optimizeCargoBuild "''cargo_build''" "\<lambda>ws. ws"
  by (rule settledI [OF optimizeCargoBuild_def]) (auto simp: hasFlag_words)

interpretation cargo_test: settled_optimizer optimizeCargoTest "''cargo_test''" "\<lambda>ws. ws"
  by (rule settledI [OF optimizeCargoTest_def]) (auto simp: hasFlag_words)

interpretation cargo_check: settled_optimizer optimizeCargoCheck "''cargo_check''" "\<lambda>ws. ws"
  by (rule settledI [OF optimizeCargoCheck_def]) (auto simp: hasFlag_words)

interpretation npm_install: settled_optimizer optimizeNPMInstall "''npm_install''" "\<lambda>ws. ws"
  by (rule settledI [OF optimizeNPMInstall_def]) (auto simp: hasFlag_words)

interpretation npm_run: settled_optimizer optimizeNPMRun "''npm_run''" "\<lambda>ws. ws"
  by (rule settledI [OF optimizeNPMRun_def]) (auto simp: hasFlag_words)

interpretation npm_test: settled_optimizer optimizeNPMTest "''npm_test''" "\<lambda>ws. ws"
  by (rule settledI [OF optimizeNPMTest_def]) (auto simp: hasFlag_words)

interpretation npm_build: settled_optimizer optimizeNPMBuild "''npm_build''" "\<lambda>ws. ws"
  by (rule settledI [OF optimizeNPMBuild_def]) (auto simp: hasFlag_words)

interpretation docker_build: settled_optimizer optimizeDockerBuild "''docker_build''" "\<lambda>ws. ws"
  by (rule settledI [OF optimizeDockerBuild_def]) (auto simp: hasFlag_words)

interpretation docker_run: settled_optimizer optimizeDockerRun "''docker_run''" "\<lambda>ws. ws"
  by (rule settledI [OF optimizeDockerRun_def]) (auto simp: hasFlag_words)

interpretation docker_ps: settled_optimizer optimizeDockerPS "''docker_ps''" "\<lambda>ws. ws"
  by (rule settledI [OF optimizeDockerPS_def]) (auto simp: hasFlag_words)

interpretation docker_images: settled_optimizer optimizeDockerImages "''docker_images''" "\<lambda>ws. ws"
  by (rule settledI [OF optimizeDockerImages_def]) (auto simp: hasFlag_words)

interpretation go_test: settled_optimizer optimizeGoTest "''go_test''" "\<lambda>ws. ws"
  by (rule settledI [OF optimizeGoTest_def]) (auto simp: hasFlag_words)

interpretation go_fmt: settled_optimizer optimizeGoFmt "''go_fmt''" "\<lambda>ws. ws"
  by (rule settledI [OF optimizeGoFmt_def]) (auto simp: hasFlag_words)

interpretation go_vet: settled_optimizer optimizeGoVet "''go_vet''" "\<lambda>ws. ws"
  by (rule settledI [OF optimizeGoVet_def]) (auto simp: hasFlag_words)

interpretation push: settled_optimizer optimizePush "''git_push''" "take 2"
proof (unfold_locales)
  fix ts ts'
  let ?r = "optimizePush ts"
  show "OptimizationType ?r = ''git_push''" by (simp add: optimizePush_def Let_def)
  show "OptimizedCommand ?r = joinTokens ts" if "\<not> ShouldOptimize ?r"
    using that by (auto simp: optimizePush_def Let_def split: if_splits)
  assume a: "lexed ts" "1 < length ts" "ShouldOptimize ?r"
  then obtain t u us where ts: "ts = t # u # us" by (cases ts; cases "tl ts") auto
  have o: "OptimizedCommand ?r = str_join '' '' (take 2 (words_of ts) @ [''--quiet''])"
    using a(3) by (auto simp: optimizePush_def Let_def ts rtk_zero_def split: if_splits)
  have "list_all plain [''--quiet'']" by simp
  then show "\<exists>added. added \<noteq> [] \<and> list_all plain added
      \<and> OptimizedCommand ?r = str_join '' '' (take 2 (words_of ts) @ added)"
    using o by blast
  assume b: "lexed ts'" "words_of ts' = byte_words (OptimizedCommand ?r)"
  have "words_of ts' = take 2 (words_of ts) @ [''--quiet'']"
    unfolding b(2) o using lexed_words [OF a(1)] by (intro byte_words_join) (simp add: ts plain_is_word)
  then have "hasFlag ts' ''--quiet''" using b(1) by (simp add: hasFlag_words)
  then show "\<not> ShouldOptimize (optimizePush ts')" by (simp add: optimizePush_def Let_def rtk_zero_def)
next
  show "set (take 2 ws) \<subseteq> set ws" for ws :: "gostr list" by (rule set_take_subset)
qed simp

text \<open>The go build optimizer appends \<open>-v\<close> to a command that has it already, so it does not settle.\<close>

interpretation go_build: rtk_optimizer optimizeGoBuild "''go_build''" "\<lambda>ws. ws"
proof (rule flag_optimizerI)
  fix ts
  have "optimizeGoBuild ts = with_flags ts ''go_build'' (9 / 10) [''-v''] 50
    \<or> optimizeGoBuild ts = with_flags ts ''go_build'' (9 / 10) [''-v''] 30
    \<or> optimizeGoBuild ts = with_flags ts ''go_build'' (9 / 10) [] 0"
    by (simp add: optimizeGoBuild_def)
  moreover have "list_all neat [''-v'']" "list_all neat []" by simp_all
  ultimately show "\<exists>conf fs sv. optimizeGoBuild ts = with_flags ts ''go_build'' conf fs sv \<and> list_all neat fs"
    by blast
qed

section \<open>Dispatch\<close>

definition optimizers :: "((gostr \<times> gostr) \<times> (Token list \<Rightarrow> FilterResult)) list" where
  "optimizers =
     [((''git'', ''clone''), optimizeClone), ((''git'', ''push''), optimizePush), ((''git'', ''pull''), optimizePull), ((''git'', ''log''), optimizeLog), ((''git'', ''status''), optimizeStatus), ((''git'', ''diff''), optimizeDiff),
      ((''cargo'', ''build''), optimizeCargoBuild), ((''cargo'', ''test''), optimizeCargoTest), ((''cargo'', ''check''), optimizeCargoCheck),
      ((''npm'', ''install''), optimizeNPMInstall), ((''npm'', ''run''), optimizeNPMRun), ((''npm'', ''test''), optimizeNPMTest), ((''npm'', ''build''), optimizeNPMBuild),
      ((''docker'', ''build''), optimizeDockerBuild), ((''docker'', ''run''), optimizeDockerRun), ((''docker'', ''ps''), optimizeDockerPS), ((''docker'', ''images''), optimizeDockerImages),
      ((''go'', ''build''), optimizeGoBuild), ((''go'', ''test''), optimizeGoTest), ((''go'', ''fmt''), optimizeGoFmt), ((''go'', ''vet''), optimizeGoVet)]"

definition tool_enabled :: "FilterEngine \<Rightarrow> gostr \<Rightarrow> bool" where
  "tool_enabled e tool = (if tool = ''git'' then GitEnabled (fe_config e)
     else if tool = ''cargo'' then CargoEnabled (fe_config e)
     else if tool = ''npm'' then NPMEnabled (fe_config e)
     else if tool = ''docker'' then DockerEnabled (fe_config e) else GoEnabled (fe_config e))"

lemma to_lower_letters:
  "list_all (\<lambda>c. 97 \<le> (of_char c :: nat) \<and> of_char c \<le> (122 :: nat)) (to_lower s) \<Longrightarrow> list_all (\<lambda>c. \<not> is_space_byte c) s"
proof (induction s rule: to_lower.induct)
  case (2 c s)
  have b: "\<not> is_space_byte (byte 196)" "\<not> is_space_byte (byte 176)" "\<not> is_space_byte (byte 226)"
    "\<not> is_space_byte (byte 132)" "\<not> is_space_byte (byte 170)" by code_simp+
  show ?case
  proof (cases "prefix [byte 196, byte 176] (c # s) \<or> prefix [byte 226, byte 132, byte 170] (c # s)")
    case True
    then show ?thesis using 2 b by (auto simp: prefix_def split: if_splits)
  next
    case False
    then have "to_lower (c # s) = lower_byte c # to_lower s" by auto
    moreover have "\<not> is_space_byte c" if "97 \<le> (of_char (lower_byte c) :: nat)" "of_char (lower_byte c) \<le> (122 :: nat)"
      using that by (auto simp: lower_byte_def is_space_byte_def Let_def split: if_splits)
    ultimately show ?thesis using 2 False by auto
  qed
qed simp

text \<open>The first word of the dispatcher is the first token.\<close>

lemma first_token:
  assumes "to_lower (before_first (CHR '' '') cmd) = tool"
    "list_all (\<lambda>c. 97 \<le> (of_char c :: nat) \<and> of_char c \<le> (122 :: nat)) tool" "tool \<noteq> []"
  obtains ws where "byte_words cmd = before_first (CHR '' '') cmd # ws"
proof -
  let ?w = "before_first (CHR '' '') cmd"
  have w: "is_word ?w" using assms to_lower_letters [of ?w] by (auto simp: is_word_def)
  define r where "r = dropWhile (\<lambda>x. x \<noteq> CHR '' '') cmd"
  have cmd: "cmd = ?w @ r" by (simp add: before_first_def r_def)
  have "byte_words (?w @ r) = ?w # byte_words (tl r)"
  proof (cases r)
    case Nil
    then show ?thesis using byte_words_word [OF w] by (simp add: byte_words.simps)
  next
    case (Cons c s)
    then have "c = CHR '' ''" using hd_dropWhile [of "\<lambda>x. x \<noteq> CHR '' ''" cmd] by (simp add: r_def)
    then show ?thesis using byte_words_word_Cons [OF w space_blank] Cons by simp
  qed
  then show thesis using cmd that by metis
qed

lemma rtk_zero_idle [simp]: "\<not> ShouldOptimize rtk_zero"
  by (simp add: rtk_zero_def)

definition optimizes :: "(gostr \<Rightarrow> FilterResult) \<Rightarrow> gostr \<Rightarrow> bool" where
  "optimizes filt tool \<longleftrightarrow> (\<forall>cmd. let ts = Tokenize (NewLexer cmd) in
     (ShouldOptimize (filt cmd) \<longrightarrow> (\<exists>opt. 1 < length ts
        \<and> ((tool, to_lower (tk_Value (ts ! 1))), opt) \<in> set optimizers \<and> filt cmd = opt ts)) \<and>
     (\<forall>opt. 1 < length ts \<longrightarrow> to_lower (tk_Value (ts ! 0)) = tool \<longrightarrow>
        ((tool, to_lower (tk_Value (ts ! 1))), opt) \<in> set optimizers \<longrightarrow> filt cmd = opt ts))"

lemma optimizers_iff:
  "((''git'', x), opt) \<in> set optimizers \<longleftrightarrow> x = ''clone'' \<and> opt = optimizeClone \<or> x = ''push'' \<and> opt = optimizePush \<or> x = ''pull'' \<and> opt = optimizePull \<or> x = ''log'' \<and> opt = optimizeLog \<or> x = ''status'' \<and> opt = optimizeStatus \<or> x = ''diff'' \<and> opt = optimizeDiff"
  "((''cargo'', x), opt) \<in> set optimizers \<longleftrightarrow> x = ''build'' \<and> opt = optimizeCargoBuild \<or> x = ''test'' \<and> opt = optimizeCargoTest \<or> x = ''check'' \<and> opt = optimizeCargoCheck"
  "((''npm'', x), opt) \<in> set optimizers \<longleftrightarrow> x = ''install'' \<and> opt = optimizeNPMInstall \<or> x = ''run'' \<and> opt = optimizeNPMRun \<or> x = ''test'' \<and> opt = optimizeNPMTest \<or> x = ''build'' \<and> opt = optimizeNPMBuild"
  "((''docker'', x), opt) \<in> set optimizers \<longleftrightarrow> x = ''build'' \<and> opt = optimizeDockerBuild \<or> x = ''run'' \<and> opt = optimizeDockerRun \<or> x = ''ps'' \<and> opt = optimizeDockerPS \<or> x = ''images'' \<and> opt = optimizeDockerImages"
  "((''go'', x), opt) \<in> set optimizers \<longleftrightarrow> x = ''build'' \<and> opt = optimizeGoBuild \<or> x = ''test'' \<and> opt = optimizeGoTest \<or> x = ''fmt'' \<and> opt = optimizeGoFmt \<or> x = ''vet'' \<and> opt = optimizeGoVet"
  by (auto simp: optimizers_def)

lemma optimizesI:
  assumes "\<And>cmd ts. ts = Tokenize (NewLexer cmd) \<Longrightarrow> ShouldOptimize (filt cmd) \<Longrightarrow>
      \<exists>opt. 1 < length ts \<and> ((tool, to_lower (tk_Value (ts ! 1))), opt) \<in> set optimizers \<and> filt cmd = opt ts"
    "\<And>cmd ts opt. ts = Tokenize (NewLexer cmd) \<Longrightarrow> 1 < length ts \<Longrightarrow> to_lower (tk_Value (ts ! 0)) = tool \<Longrightarrow>
      ((tool, to_lower (tk_Value (ts ! 1))), opt) \<in> set optimizers \<Longrightarrow> filt cmd = opt ts"
  shows "optimizes filt tool"
  using assms by (simp add: optimizes_def Let_def)

lemma optimizes_git: "optimizes FilterGit ''git''"
proof (rule optimizesI)
  fix cmd ts opt assume ts: "ts = Tokenize (NewLexer cmd)"
  show "\<exists>opt. 1 < length ts \<and> ((''git'', to_lower (tk_Value (ts ! 1))), opt) \<in> set optimizers \<and> FilterGit cmd = opt ts"
    if "ShouldOptimize (FilterGit cmd)"
    using that unfolding FilterGit_def Let_def ts [symmetric] optimizers_iff
    by (simp split: if_split_asm)
  show "FilterGit cmd = opt ts" if "1 < length ts" "to_lower (tk_Value (ts ! 0)) = ''git''"
    "((''git'', to_lower (tk_Value (ts ! 1))), opt) \<in> set optimizers"
    using that unfolding FilterGit_def Let_def ts [symmetric] optimizers_iff by auto
qed

lemma optimizes_cargo: "optimizes FilterCargo ''cargo''"
proof (rule optimizesI)
  fix cmd ts opt assume ts: "ts = Tokenize (NewLexer cmd)"
  show "\<exists>opt. 1 < length ts \<and> ((''cargo'', to_lower (tk_Value (ts ! 1))), opt) \<in> set optimizers \<and> FilterCargo cmd = opt ts"
    if "ShouldOptimize (FilterCargo cmd)"
    using that unfolding FilterCargo_def Let_def ts [symmetric] optimizers_iff
    by (simp split: if_split_asm)
  show "FilterCargo cmd = opt ts" if "1 < length ts" "to_lower (tk_Value (ts ! 0)) = ''cargo''"
    "((''cargo'', to_lower (tk_Value (ts ! 1))), opt) \<in> set optimizers"
    using that unfolding FilterCargo_def Let_def ts [symmetric] optimizers_iff by auto
qed

lemma optimizes_npm: "optimizes FilterNPM ''npm''"
proof (rule optimizesI)
  fix cmd ts opt assume ts: "ts = Tokenize (NewLexer cmd)"
  show "\<exists>opt. 1 < length ts \<and> ((''npm'', to_lower (tk_Value (ts ! 1))), opt) \<in> set optimizers \<and> FilterNPM cmd = opt ts"
    if "ShouldOptimize (FilterNPM cmd)"
    using that unfolding FilterNPM_def Let_def ts [symmetric] optimizers_iff
    by (simp split: if_split_asm)
  show "FilterNPM cmd = opt ts" if "1 < length ts" "to_lower (tk_Value (ts ! 0)) = ''npm''"
    "((''npm'', to_lower (tk_Value (ts ! 1))), opt) \<in> set optimizers"
    using that unfolding FilterNPM_def Let_def ts [symmetric] optimizers_iff by auto
qed

lemma optimizes_docker: "optimizes FilterDocker ''docker''"
proof (rule optimizesI)
  fix cmd ts opt assume ts: "ts = Tokenize (NewLexer cmd)"
  show "\<exists>opt. 1 < length ts \<and> ((''docker'', to_lower (tk_Value (ts ! 1))), opt) \<in> set optimizers \<and> FilterDocker cmd = opt ts"
    if "ShouldOptimize (FilterDocker cmd)"
    using that unfolding FilterDocker_def Let_def ts [symmetric] optimizers_iff
    by (simp split: if_split_asm)
  show "FilterDocker cmd = opt ts" if "1 < length ts" "to_lower (tk_Value (ts ! 0)) = ''docker''"
    "((''docker'', to_lower (tk_Value (ts ! 1))), opt) \<in> set optimizers"
    using that unfolding FilterDocker_def Let_def ts [symmetric] optimizers_iff by auto
qed

lemma optimizes_go: "optimizes FilterGo ''go''"
proof (rule optimizesI)
  fix cmd ts opt assume ts: "ts = Tokenize (NewLexer cmd)"
  show "\<exists>opt. 1 < length ts \<and> ((''go'', to_lower (tk_Value (ts ! 1))), opt) \<in> set optimizers \<and> FilterGo cmd = opt ts"
    if "ShouldOptimize (FilterGo cmd)"
    using that unfolding FilterGo_def Let_def ts [symmetric] optimizers_iff
    by (simp split: if_split_asm)
  show "FilterGo cmd = opt ts" if "1 < length ts" "to_lower (tk_Value (ts ! 0)) = ''go''"
    "((''go'', to_lower (tk_Value (ts ! 1))), opt) \<in> set optimizers"
    using that unfolding FilterGo_def Let_def ts [symmetric] optimizers_iff by auto
qed

lemma optimizesD1:
  "optimizes filt tool \<Longrightarrow> ShouldOptimize (filt cmd) \<Longrightarrow> \<exists>opt. 1 < length (Tokenize (NewLexer cmd))
     \<and> ((tool, to_lower (tk_Value (Tokenize (NewLexer cmd) ! 1))), opt) \<in> set optimizers
     \<and> filt cmd = opt (Tokenize (NewLexer cmd))"
  unfolding optimizes_def Let_def by blast

lemma optimizesD2:
  "optimizes filt tool \<Longrightarrow> 1 < length (Tokenize (NewLexer cmd)) \<Longrightarrow>
   to_lower (tk_Value (Tokenize (NewLexer cmd) ! 0)) = tool \<Longrightarrow>
   ((tool, to_lower (tk_Value (Tokenize (NewLexer cmd) ! 1))), opt) \<in> set optimizers \<Longrightarrow>
   filt cmd = opt (Tokenize (NewLexer cmd))"
  unfolding optimizes_def Let_def by blast

lemmas optimizes_all = optimizes_git optimizes_cargo optimizes_npm optimizes_docker optimizes_go

abbreviation tools :: "gostr list" where
  "tools \<equiv> [''git'', ''cargo'', ''npm'', ''docker'', ''go'']"

lemma tools_letters:
  "tool \<in> set tools \<Longrightarrow> tool \<noteq> [] \<and> list_all (\<lambda>c. 97 \<le> (of_char c :: nat) \<and> of_char c \<le> (122 :: nat)) tool"
  by auto

lemma optimizers_tools: "((tool, sub), opt) \<in> set optimizers \<Longrightarrow> tool \<in> set tools"
  by (auto simp: optimizers_def)

lemma split_nth_0: "str_split c s ! 0 = before_first c s"
  by (simp add: hd_conv_nth flip: hd_str_split)

lemma before_first_empty [simp]: "before_first c [] = []"
  by (simp add: before_first_def)

lemma Filter_tool:
  assumes "tool \<in> set tools" "tool_enabled e tool" "to_lower (before_first (CHR '' '') (trim_space cmd)) = tool"
  shows "\<exists>filt. optimizes filt tool \<and> rtk_Filter e cmd = filt (trim_space cmd)"
proof -
  have "trim_space cmd \<noteq> []" using assms(1,3) by auto
  then have "rtk_Filter e cmd =
      (if tool = ''git'' then FilterGit else if tool = ''cargo'' then FilterCargo
       else if tool = ''npm'' then FilterNPM else if tool = ''docker'' then FilterDocker else FilterGo) (trim_space cmd)"
    using assms by (auto simp: rtk_Filter_def Let_def split_nth_0 tool_enabled_def)
  moreover have "optimizes
      (if tool = ''git'' then FilterGit else if tool = ''cargo'' then FilterCargo
       else if tool = ''npm'' then FilterNPM else if tool = ''docker'' then FilterDocker else FilterGo) tool"
    using assms(1) by (auto simp: optimizes_all)
  ultimately show ?thesis by blast
qed

lemma Filter_tool_of:
  assumes "ShouldOptimize (rtk_Filter e cmd)" and "tool = to_lower (before_first (CHR '' '') (trim_space cmd))"
  shows "tool \<in> set tools \<and> tool_enabled e tool"
  using assms by (auto simp: rtk_Filter_def Let_def split_nth_0 tool_enabled_def split: if_split_asm)

lemma tokens_words: "words_of (Tokenize (NewLexer s)) = byte_words (trim_space s)"
  by (simp add: Tokenize_words)

text \<open>A suggestion comes from the optimizer of the first two words, and such commands reach it.\<close>

lemma Filter_optimizes:
  assumes "ShouldOptimize (rtk_Filter e cmd)" and ts: "ts = Tokenize (NewLexer (trim_space cmd))"
  obtains opt where "1 < length ts" "((to_lower (tk_Value (ts ! 0)), to_lower (tk_Value (ts ! 1))), opt) \<in> set optimizers"
    "tool_enabled e (to_lower (tk_Value (ts ! 0)))" "rtk_Filter e cmd = opt ts"
    "before_first (CHR '' '') (trim_space cmd) = tk_Value (ts ! 0)"
proof -
  define tool where "tool = to_lower (before_first (CHR '' '') (trim_space cmd))"
  then have t: "tool \<in> set tools" "tool_enabled e tool"
    "to_lower (before_first (CHR '' '') (trim_space cmd)) = tool"
    using Filter_tool_of [OF assms(1)] by simp_all
  obtain filt where f: "optimizes filt tool" "rtk_Filter e cmd = filt (trim_space cmd)"
    using Filter_tool [OF t] by blast
  obtain opt where o: "1 < length ts" "((tool, to_lower (tk_Value (ts ! 1))), opt) \<in> set optimizers"
    "filt (trim_space cmd) = opt ts"
    using optimizesD1 [OF f(1), of "trim_space cmd"] assms(1) unfolding f(2) ts by blast
  obtain ws where "byte_words (trim_space cmd) = before_first (CHR '' '') (trim_space cmd) # ws"
    using first_token [OF t(3)] tools_letters [OF t(1)] by metis
  then have "words_of ts = before_first (CHR '' '') (trim_space cmd) # ws" by (simp add: ts tokens_words)
  then have fw: "before_first (CHR '' '') (trim_space cmd) = tk_Value (ts ! 0)" by (cases ts) auto
  then have tool: "to_lower (tk_Value (ts ! 0)) = tool" using t(3) by simp
  show thesis by (rule that [of opt, unfolded tool]) (use o t(2) f(2) fw in simp_all)
qed

lemma Filter_reaches:
  assumes "ts = Tokenize (NewLexer (trim_space cmd))" "1 < length ts"
    "((to_lower (tk_Value (ts ! 0)), to_lower (tk_Value (ts ! 1))), opt) \<in> set optimizers"
    "tool_enabled e (to_lower (tk_Value (ts ! 0)))" "before_first (CHR '' '') (trim_space cmd) = tk_Value (ts ! 0)"
  shows "rtk_Filter e cmd = opt ts"
proof -
  let ?tool = "to_lower (tk_Value (ts ! 0))"
  obtain filt where f: "optimizes filt ?tool" "rtk_Filter e cmd = filt (trim_space cmd)"
    using Filter_tool [OF optimizers_tools [OF assms(3)] assms(4), of cmd] assms(5) by auto
  then show ?thesis using optimizesD2 [OF f(1), of "trim_space cmd"] assms(1-3) by simp
qed

section \<open>Rewritten commands\<close>

lemma before_first_join:
  "CHR '' '' \<notin> set w \<Longrightarrow> before_first (CHR '' '') (str_join '' '' (w # ws)) = w"
  by (cases ws) (auto simp: before_first_def takeWhile_tail takeWhile_eq_all_conv)

lemma is_word_no_blank: "is_word w \<Longrightarrow> CHR '' '' \<notin> set w"
  using space_blank by (auto simp: is_word_def list_all_iff)

text \<open>
  The words a rewritten command keeps start with the first two of the original, so it is
  trimmed, has the words it was built from and goes to the same optimizer.
\<close>

lemma rewritten_dispatch:
  assumes "trimmed cmd" "byte_words cmd = w1 # w2 # ws" "before_first (CHR '' '') cmd = w1"
    and added: "added \<noteq> []" "list_all plain added" and kws: "list_all is_word kws"
  defines "s \<equiv> str_join '' '' (w1 # w2 # kws @ added)"
  shows "trim_space s = s" "byte_words s = w1 # w2 # kws @ added" "before_first (CHR '' '') s = w1"
proof -
  have "is_word w1" "is_word w2" using byte_words_words [of _ cmd] by (simp_all add: assms(2))
  then have words: "list_all is_word (w1 # w2 # kws @ added)"
    using kws added(2) by (auto simp: list_all_iff plain_is_word)
  then show "byte_words s = w1 # w2 # kws @ added" unfolding s_def by (rule byte_words_join)
  show "before_first (CHR '' '') s = w1" unfolding s_def
    using \<open>is_word w1\<close> by (intro before_first_join is_word_no_blank)
  obtain init f where f: "added = init @ [f]" using added(1) by (cases added rule: rev_cases) auto
  have "prefix w1 cmd" using assms(3) by (metis before_first_def takeWhile_is_prefix)
  have "w1 \<noteq> []" "f \<noteq> []" "plain f"
    using \<open>is_word w1\<close> added(2) by (simp_all add: f is_word_def plain_def)
  have "s = w1 @ '' '' @ (str_join '' '' (w2 # kws @ init) @ '' '') @ f"
    using str_join_append [of "w2 # kws @ init" "[f]" "'' ''"] by (simp add: s_def f)
  moreover have "trimmed (w1 @ '' '' @ (str_join '' '' (w2 # kws @ init) @ '' '') @ f)"
    by (rule trimmed_rebuilt) fact+
  ultimately have "trimmed s" by (simp only:)
  then show "trim_space s = s" by (rule trim_space_id)
qed

lemma optimizers_settle:
  assumes "((tool, sub), opt) \<in> set optimizers" "(tool, sub) \<noteq> (''go'', ''build'')"
  shows "settled_optimizer opt (tool @ ''_'' @ sub) (if sub = ''push'' then take 2 else (\<lambda>ws. ws))"
proof -
  note axioms = clone.settled_optimizer_axioms push.settled_optimizer_axioms pull.settled_optimizer_axioms
    log.settled_optimizer_axioms status.settled_optimizer_axioms diff.settled_optimizer_axioms
    cargo_build.settled_optimizer_axioms cargo_test.settled_optimizer_axioms cargo_check.settled_optimizer_axioms
    npm_install.settled_optimizer_axioms npm_run.settled_optimizer_axioms npm_test.settled_optimizer_axioms
    npm_build.settled_optimizer_axioms docker_build.settled_optimizer_axioms docker_run.settled_optimizer_axioms
    docker_ps.settled_optimizer_axioms docker_images.settled_optimizer_axioms go_test.settled_optimizer_axioms
    go_fmt.settled_optimizer_axioms go_vet.settled_optimizer_axioms
  have "list_all (\<lambda>((tool, sub), opt). (tool, sub) \<noteq> (''go'', ''build'') \<longrightarrow>
      settled_optimizer opt (tool @ ''_'' @ sub) (if sub = ''push'' then take 2 else (\<lambda>ws. ws))) optimizers"
    by (simp add: optimizers_def axioms)
  then show ?thesis using assms by (auto simp only: list_all_iff split: prod.splits)
qed

lemma optimizers_contract:
  assumes "((tool, sub), opt) \<in> set optimizers"
  shows "rtk_optimizer opt (tool @ ''_'' @ sub) (if sub = ''push'' then take 2 else (\<lambda>ws. ws))"
proof (cases "(tool, sub) = (''go'', ''build'')")
  case True
  then have "opt = optimizeGoBuild" using assms by (simp add: optimizers_iff)
  then show ?thesis using True go_build.rtk_optimizer_axioms by simp
next
  case False
  from optimizers_settle [OF assms this] show ?thesis by (rule settled_optimizer.axioms(1))
qed

lemma optimizers_push:
  assumes "((tool, sub), opt) \<in> set optimizers"
  shows "sub = ''push'' \<longleftrightarrow> tool @ ''_'' @ sub = ''git_push''"
    and "(tool, sub) = (''go'', ''build'') \<longleftrightarrow> tool @ ''_'' @ sub = ''go_build''"
proof -
  have "list_all (\<lambda>((tool, sub), opt). (sub = ''push'' \<longleftrightarrow> tool @ ''_'' @ sub = ''git_push'')
      \<and> ((tool, sub) = (''go'', ''build'') \<longleftrightarrow> tool @ ''_'' @ sub = ''go_build'')) optimizers"
    by (simp add: optimizers_def)
  from bspec [OF this [unfolded list_all_iff] assms]
  have "(sub = ''push'' \<longleftrightarrow> tool @ ''_'' @ sub = ''git_push'')
      \<and> ((tool, sub) = (''go'', ''build'') \<longleftrightarrow> tool @ ''_'' @ sub = ''go_build'')" by (simp only: prod.case)
  then show "sub = ''push'' \<longleftrightarrow> tool @ ''_'' @ sub = ''git_push''"
    "(tool, sub) = (''go'', ''build'') \<longleftrightarrow> tool @ ''_'' @ sub = ''go_build''" by simp_all
qed

definition kept_words :: "FilterResult \<Rightarrow> gostr list \<Rightarrow> gostr list" where
  "kept_words r ws = (if OptimizationType r = ''git_push'' then take 2 ws else ws)"

text \<open>Everything there is to know of a rewritten command, for the properties below.\<close>

lemma Filter_rewritten:
  assumes should: "ShouldOptimize (rtk_Filter e cmd)"
  defines "r \<equiv> rtk_Filter e cmd" and "ts \<equiv> Tokenize (NewLexer (trim_space cmd))"
  defines "ts' \<equiv> Tokenize (NewLexer (OptimizedCommand r))"
  obtains tool sub opt added where "((tool, sub), opt) \<in> set optimizers" "OptimizationType r = tool @ ''_'' @ sub"
    "r = opt ts" "1 < length ts" "added \<noteq> []" "list_all plain added"
    "byte_words (OptimizedCommand r) = kept_words r (words_of ts) @ added"
    "words_of ts' = byte_words (OptimizedCommand r)" "rtk_Filter e (OptimizedCommand r) = opt ts'"
proof -
  obtain opt where o: "1 < length ts"
    "((to_lower (tk_Value (ts ! 0)), to_lower (tk_Value (ts ! 1))), opt) \<in> set optimizers"
    "tool_enabled e (to_lower (tk_Value (ts ! 0)))" "r = opt ts"
    "before_first (CHR '' '') (trim_space cmd) = tk_Value (ts ! 0)"
    by (rule Filter_optimizes [OF should ts_def [THEN meta_eq_to_obj_eq]]) (simp add: r_def)
  define tool sub where "tool = to_lower (tk_Value (ts ! 0))" and "sub = to_lower (tk_Value (ts ! 1))"
  note table = o(2) [folded tool_def sub_def]
  let ?kept = "if sub = ''push'' then take 2 else (\<lambda>ws. ws)"
  have contract: "rtk_optimizer opt (tool @ ''_'' @ sub) ?kept" by (rule optimizers_contract [OF table])
  have lexed: "lexed ts" by (simp add: ts_def)
  have should': "ShouldOptimize (opt ts)" using should o(4) by (simp add: r_def)
  have ty: "OptimizationType r = tool @ ''_'' @ sub"
    using rtk_optimizer.opt_type [OF contract] by (simp add: o(4))
  have kept: "kept_words r ws = ?kept ws" for ws
    using optimizers_push(1) [OF table] by (simp add: kept_words_def ty)
  obtain added where a: "added \<noteq> []" "list_all plain added"
    "OptimizedCommand (opt ts) = str_join '' '' (?kept (words_of ts) @ added)"
    "byte_words (OptimizedCommand (opt ts)) = ?kept (words_of ts) @ added"
    by (rule rtk_optimizer.rewritten_words [OF contract lexed o(1) should'])
  note a = a [folded o(4), folded kept]
  obtain t u us where ts: "ts = t # u # us" using o(1) by (cases ts; cases "tl ts") auto
  have wcmd: "byte_words (trim_space cmd) = tk_Value t # tk_Value u # words_of us"
    using tokens_words [of "trim_space cmd"] by (simp add: ts flip: ts_def)
  obtain kws where k: "kept_words r (words_of ts) = tk_Value t # tk_Value u # kws" "set kws \<subseteq> set (words_of us)"
    by (cases "sub = ''push''") (auto simp: kept ts)
  have "list_all is_word kws"
    using k(2) lexed_words [OF lexed] by (auto simp: ts list_all_iff)
  note again = rewritten_dispatch [OF trimmed_trim_space wcmd _ a(1,2) this]
  have s: "OptimizedCommand r = str_join '' '' (tk_Value t # tk_Value u # kws @ added)" using a(3) k(1) by simp
  have fw: "before_first (CHR '' '') (trim_space cmd) = tk_Value t" using o(5) by (simp add: ts)
  note again = again [OF fw, folded s]
  have w': "words_of ts' = byte_words (OptimizedCommand r)"
    using tokens_words [of "OptimizedCommand r"] by (simp add: ts'_def again(1))
  then obtain t' u' us' where ts': "ts' = t' # u' # us'" "tk_Value t' = tk_Value t" "tk_Value u' = tk_Value u"
    using again(2) by (cases ts'; cases "tl ts'") auto
  have "rtk_Filter e (OptimizedCommand r) = opt ts'"
  proof (rule Filter_reaches)
    show "ts' = Tokenize (NewLexer (trim_space (OptimizedCommand r)))" by (simp add: ts'_def again(1))
  qed (use o ts ts' again(1,3) in simp_all)
  then show thesis using that [OF table ty o(4,1) a(1,2,4) w'] by simp
qed

section \<open>Properties\<close>

text \<open>The index-walking lexer of the filter computes the maximal runs of bytes outside white space of the
  trimmed command, in order, and marks as flags exactly the words that start with a dash; it reaches the end
  of every input.\<close>

theorem rtk_lexer_words:
  "map tk_Value (Tokenize (NewLexer cmd)) = byte_words (trim_space cmd) \<and>
   map (\<lambda>t. tk_Type t = TokenFlag) (Tokenize (NewLexer cmd)) = map (\<lambda>w. has_prefix w ''-'') (byte_words (trim_space cmd))"
proof
  show "map tk_Value (Tokenize (NewLexer cmd)) = byte_words (trim_space cmd)" by (simp add: Tokenize_words)
  then have "map (\<lambda>w. has_prefix w ''-'') (byte_words (trim_space cmd))
      = map (\<lambda>t. has_prefix (tk_Value t) ''-'') (Tokenize (NewLexer cmd))"
    by (metis (no_types, lifting) map_eq_conv map_map comp_apply)
  then show "map (\<lambda>t. tk_Type t = TokenFlag) (Tokenize (NewLexer cmd)) = map (\<lambda>w. has_prefix w ''-'') (byte_words (trim_space cmd))"
    using Tokenize_flags by auto
qed

text \<open>A suggested command consists of the words of the original command followed by added flags of printable
  ASCII, except that a suggested git push keeps the first two words only and so loses its remote and refs.\<close>

theorem rtk_keeps_arguments:
  assumes "ShouldOptimize (rtk_Filter e cmd)"
  shows "\<exists>added. added \<noteq> [] \<and> list_all plain added \<and>
    byte_words (OptimizedCommand (rtk_Filter e cmd)) =
      (if OptimizationType (rtk_Filter e cmd) = ''git_push'' then take 2 (byte_words (trim_space cmd))
       else byte_words (trim_space cmd)) @ added"
proof -
  obtain added where "added \<noteq> []" "list_all plain added"
    "byte_words (OptimizedCommand (rtk_Filter e cmd)) =
      kept_words (rtk_Filter e cmd) (words_of (Tokenize (NewLexer (trim_space cmd)))) @ added"
    by (rule Filter_rewritten [OF assms])
  moreover have "words_of (Tokenize (NewLexer (trim_space cmd))) = byte_words (trim_space cmd)"
    by (simp add: tokens_words)
  ultimately show ?thesis unfolding kept_words_def by metis
qed

text \<open>C23: The filter settles: run on a command it suggested itself, it recognises the same kind of command and
  suggests nothing further, for every kind but go build.\<close>

theorem rtk_settles:
  assumes "ShouldOptimize (rtk_Filter e cmd)" "OptimizationType (rtk_Filter e cmd) \<noteq> ''go_build''"
  defines "r \<equiv> rtk_Filter e cmd"
  defines "r' \<equiv> rtk_Filter e (OptimizedCommand r)"
  shows "\<not> ShouldOptimize r' \<and> OptimizationType r' = OptimizationType r"
proof -
  let ?ts = "Tokenize (NewLexer (trim_space cmd))" and ?ts' = "Tokenize (NewLexer (OptimizedCommand r))"
  obtain tool sub opt where o: "((tool, sub), opt) \<in> set optimizers" "OptimizationType r = tool @ ''_'' @ sub"
    "r = opt ?ts" "1 < length ?ts" "words_of ?ts' = byte_words (OptimizedCommand r)" "r' = opt ?ts'"
    by (rule Filter_rewritten [OF assms(1), folded r_def, folded r'_def])
  have "(tool, sub) \<noteq> (''go'', ''build'')"
    using optimizers_push(2) [OF o(1)] assms(2) o(2) by (simp add: r_def)
  note settled = optimizers_settle [OF o(1) this]
  have "\<not> ShouldOptimize (opt ?ts')"
    by (rule settled_optimizer.opt_settles [OF settled, of ?ts]) (use o assms(1) in \<open>simp_all add: r_def\<close>)
  moreover have "OptimizationType (opt ?ts') = tool @ ''_'' @ sub"
    using rtk_optimizer.opt_type [OF settled_optimizer.axioms(1) [OF settled]] .
  ultimately show ?thesis by (simp add: o(2,6))
qed

theorem rtk_settles_witness:
  "ShouldOptimize (rtk_Filter NewFilterEngine ''  git  LOG main'')
   \<and> OptimizationType (rtk_Filter NewFilterEngine ''  git  LOG main'') = ''git_log''
   \<and> \<not> ShouldOptimize (rtk_Filter NewFilterEngine (OptimizedCommand (rtk_Filter NewFilterEngine ''  git  LOG main'')))"
proof -
  have a: "ShouldOptimize (rtk_Filter NewFilterEngine ''  git  LOG main'')"
    "OptimizationType (rtk_Filter NewFilterEngine ''  git  LOG main'') = ''git_log''"
    by code_simp+
  moreover have "OptimizationType (rtk_Filter NewFilterEngine ''  git  LOG main'') \<noteq> ''go_build''"
    by (simp add: a(2))
  ultimately show ?thesis using rtk_settles [of NewFilterEngine "''  git  LOG main''"] by simp
qed

theorem rtk_keeps_arguments_witness:
  "\<exists>added. added \<noteq> [] \<and> list_all plain added
     \<and> byte_words (OptimizedCommand (rtk_Filter NewFilterEngine ''npm install -D left-pad'')) =
        [''npm'', ''install'', ''-D'', ''left-pad''] @ added"
proof -
  have "ShouldOptimize (rtk_Filter NewFilterEngine ''npm install -D left-pad'')"
    "OptimizationType (rtk_Filter NewFilterEngine ''npm install -D left-pad'') = ''npm_install''"
    "trim_space ''npm install -D left-pad'' = ''npm install -D left-pad''"
    "list_all is_word [''npm'', ''install'', ''-D'', ''left-pad'']"
    by code_simp+
  moreover from this(4) have "byte_words ''npm install -D left-pad'' = [''npm'', ''install'', ''-D'', ''left-pad'']"
    by (drule_tac byte_words_join) simp
  ultimately show ?thesis using rtk_keeps_arguments [of NewFilterEngine "''npm install -D left-pad''"] by simp
qed

text \<open>Three commands: an abandoned remote, a suggestion that never settles, and blanks that hide a subcommand.\<close>

lemma rtk_examples:
  "OptimizedCommand (rtk_Filter NewFilterEngine ''git push up'') = ''git push --quiet''"
  "OptimizedCommand (rtk_Filter NewFilterEngine ''go build -v'') = ''go build -v -v''"
  "DetectCommandType ''git  push'' = ''git_base''"
  "OptimizationType (rtk_Filter NewFilterEngine ''git  push'') = ''git_push''"
  "map tk_Value (Tokenize (NewLexer (''ls '' @ [byte 195, byte 160]))) = [''ls'', [byte 195]]"
  by code_simp+

text \<open>The go build optimizer never settles on a command without a flag -vv: the command it suggests gets
  another -v appended, whatever the command was.\<close>

theorem rtk_go_build_grows:
  assumes "ShouldOptimize (rtk_Filter e cmd)" "OptimizationType (rtk_Filter e cmd) = ''go_build''"
    "\<not> word_flag (byte_words (trim_space cmd)) ''-vv''"
  shows "ShouldOptimize (rtk_Filter e (OptimizedCommand (rtk_Filter e cmd)))"
proof -
  let ?r = "rtk_Filter e cmd"
  let ?ts = "Tokenize (NewLexer (trim_space cmd))" and ?ts' = "Tokenize (NewLexer (OptimizedCommand ?r))"
  obtain tool sub opt where o: "((tool, sub), opt) \<in> set optimizers" "OptimizationType ?r = tool @ ''_'' @ sub"
    "?r = opt ?ts" "1 < length ?ts" "words_of ?ts' = byte_words (OptimizedCommand ?r)"
    "rtk_Filter e (OptimizedCommand ?r) = opt ?ts'"
    by (rule Filter_rewritten [OF assms(1)])
  have "(tool, sub) = (''go'', ''build'')" using optimizers_push(2) [OF o(1)] assms(2) o(2) by simp
  then have opt: "opt = optimizeGoBuild" using o(1) by (simp add: optimizers_iff)
  let ?fs = "[''-v'']"
  have ws: "words_of ?ts = byte_words (trim_space cmd)" by (simp add: tokens_words)
  have "?ts \<noteq> []" using o(4) by (cases ?ts) auto
  then have "OptimizedCommand (with_flags ?ts ''go_build'' (9 / 10) ?fs sv) = str_join '' '' (words_of ?ts @ flag_words ?fs)" for sv
    by (intro with_flags_adds) simp_all
  then have "OptimizedCommand ?r = str_join '' '' (words_of ?ts @ flag_words ?fs)"
    using assms(1) unfolding o(3) opt optimizeGoBuild_def by (simp split: if_splits)
  moreover have "list_all is_word (words_of ?ts @ flag_words ?fs)"
    using lexed_words [OF lexed_Tokenize] by (simp add: plain_is_word)
  ultimately have "words_of ?ts' = words_of ?ts @ [''-v'']" using o(5) by (simp add: byte_words_join)
  then have "hasFlag ?ts' ''-v'' \<and> \<not> hasFlag ?ts' ''-vv''"
    using assms(3) by (simp add: hasFlag_words ws)
  then show ?thesis by (simp add: o(6) opt optimizeGoBuild_def)
qed

end
