(* ===== verification/Acp_Registry.thy ===== *)
theory Acp_Registry
  imports Gw_Prelude
begin

text \<open>
  The agent registry and the agent manager of \<open>internal/protocol/acp/registry.go\<close>. A registry
  read from JSON may hold a nil map, in which a lookup finds nothing and an assignment panics;
  a panic is the result \<open>None\<close>. The JSON codec is an argument, as are the iteration order of
  the maps and the clock.
\<close>

section \<open>Adapters and the registry\<close>

record AdapterConfig =
  ac_Timeout :: duration
  ac_RetryCount :: int
  ac_Capabilities :: "gostr list"

record Adapter =
  ad_Name :: gostr
  ad_Binary :: gostr
  ad_VersionCmd :: gostr
  ad_SpawnArgs :: "gostr list"
  ad_Config :: AdapterConfig

record acp_registry =
  ar_adapters :: "(gostr, Adapter) gomap option"

definition adapter :: "gostr \<Rightarrow> gostr \<Rightarrow> gostr \<Rightarrow> int \<Rightarrow> int \<Rightarrow> gostr list \<Rightarrow> Adapter" where
  "adapter name binary versionCmd seconds retries caps =
     \<lparr>ad_Name = name, ad_Binary = binary, ad_VersionCmd = versionCmd, ad_SpawnArgs = [],
      ad_Config = \<lparr>ac_Timeout = seconds * second, ac_RetryCount = retries, ac_Capabilities = caps\<rparr>\<rparr>"

definition BuiltInAgents :: "Adapter list" where
  "BuiltInAgents =
     [
      adapter ''codex'' ''codex'' ''codex --version'' 60 3 [''code'', ''debug'', ''refactor''],
      adapter ''claude'' ''claude'' ''claude --version'' 60 3 [''reasoning'', ''writing'', ''analysis''],
      adapter ''goose'' ''goose'' ''goose --version'' 45 2 [''automation'', ''testing''],
      adapter ''devin'' ''devin'' ''devin --version'' 90 3 [''coding'', ''planning'', ''debugging''],
      adapter ''jules'' ''jules'' ''jules --version'' 60 2 [''code_review'', ''refactoring''],
      adapter ''copilot'' ''copilot'' ''copilot --version'' 30 2 [''completion'', ''suggestion''],
      adapter ''tabnine'' ''tabnine'' ''tabnine --version'' 15 1 [''completion'', ''refactor''],
      adapter ''cursor'' ''cursor'' ''cursor --version'' 60 3 [''coding'', ''reasoning'', ''editing''],
      adapter ''aider'' ''aider'' ''aider --version'' 45 2 [''pair_programming'', ''editing''],
      adapter ''continue'' ''continue'' ''continue --version'' 45 2 [''context_aware'', ''completion''],
      adapter ''replit'' ''replit'' ''replit --version'' 60 3 [''coding'', ''deployment'', ''testing''],
      adapter ''figma'' ''figma-agent'' ''figma-agent --version'' 30 2 [''design'', ''prototyping''],
      adapter ''github-copilot'' ''github-copilot'' ''github-copilot --version'' 30 2 [''completion'', ''suggestion'', ''refactor''],
      adapter ''amazon-codewhisperer'' ''codewhisperer'' ''codewhisperer --version'' 30 2 [''completion'', ''security_scan''],
      adapter ''codestral'' ''codestral'' ''codestral --version'' 45 3 [''coding'', ''completion'', ''refactor''],
      adapter ''mistral-codestral'' ''mistral-codestral'' ''mistral-codestral --version'' 45 3 [''coding'', ''reasoning''],
      adapter ''wizardcoder'' ''wizardcoder'' ''wizardcoder --version'' 60 2 [''coding'', ''instruction_following''],
      adapter ''phind'' ''phind'' ''phind --version'' 30 2 [''search'', ''coding_assistance'']]"

text \<open>Reading a nil map gives nothing.\<close>

definition map_lookup :: "('k, 'v) gomap option \<Rightarrow> 'k \<Rightarrow> 'v option" where
  "map_lookup m k = (case m of None \<Rightarrow> None | Some f \<Rightarrow> f k)"

definition registerBuiltInAdapters :: "(gostr, Adapter) gomap \<Rightarrow> (gostr, Adapter) gomap" where
  "registerBuiltInAdapters m = fold (\<lambda>a m. m(ad_Name a \<mapsto> a)) BuiltInAgents m"

definition NewRegistry :: acp_registry where
  "NewRegistry = \<lparr>ar_adapters = Some (registerBuiltInAdapters Map.empty)\<rparr>"

datatype acp_error = AlreadyRegistered gostr | AdapterNotFound gostr | AgentNotFound gostr | BadJSON gostr

definition acp_Register :: "Adapter \<Rightarrow> acp_registry \<Rightarrow> (acp_error option \<times> acp_registry) option" where
  "acp_Register a r =
     (if map_lookup (ar_adapters r) (ad_Name a) \<noteq> None then Some (Some (AlreadyRegistered (ad_Name a)), r)
      else case ar_adapters r of
             None \<Rightarrow> None
           | Some m \<Rightarrow> Some (None, r\<lparr>ar_adapters := Some (m(ad_Name a \<mapsto> a))\<rparr>))"

definition acp_Get :: "gostr \<Rightarrow> acp_registry \<Rightarrow> Adapter option" where
  "acp_Get name r = map_lookup (ar_adapters r) name"

definition acp_List :: "gostr list \<Rightarrow> acp_registry \<Rightarrow> Adapter list" where
  "acp_List order r = map snd (range_of order (map_lookup (ar_adapters r)))"

definition acp_Unregister :: "gostr \<Rightarrow> acp_registry \<Rightarrow> acp_error option \<times> acp_registry" where
  "acp_Unregister name r =
     (if map_lookup (ar_adapters r) name = None then (Some (AdapterNotFound name), r)
      else (None, r\<lparr>ar_adapters := map_option (\<lambda>m. m(name := None)) (ar_adapters r)\<rparr>))"

definition acp_Count :: "acp_registry \<Rightarrow> nat" where
  "acp_Count r = card (dom (map_lookup (ar_adapters r)))"

definition GetByCapability :: "gostr list \<Rightarrow> gostr \<Rightarrow> acp_registry \<Rightarrow> Adapter list" where
  "GetByCapability order capability r =
     filter (\<lambda>a. list_ex (\<lambda>cap. cap = capability) (ac_Capabilities (ad_Config a))) (acp_List order r)"

definition acp_ToJSON :: "((gostr, Adapter) gomap option \<Rightarrow> gostr + gostr) \<Rightarrow> acp_registry \<Rightarrow> gostr + gostr" where
  "acp_ToJSON marshal r = marshal (ar_adapters r)"

definition acp_FromJSON ::
  "(gostr \<Rightarrow> gostr + (gostr, Adapter) gomap option) \<Rightarrow> gostr \<Rightarrow> acp_error + acp_registry" where
  "acp_FromJSON unmarshal data =
     (case unmarshal data of Inl e \<Rightarrow> Inl (BadJSON e) | Inr m \<Rightarrow> Inr \<lparr>ar_adapters = m\<rparr>)"

section \<open>Running agents\<close>

record AgentInfo =
  ai_ID :: gostr
  ai_Name :: gostr
  ai_Status :: gostr
  ai_StartedAt :: gtime
  ai_TasksCount :: int
  ai_Metadata :: "(gostr, pval) gomap"

text \<open>
  The manager's map holds pointers: terminating an agent also changes the status the caller of
  \<open>Spawn\<close> sees. The agents are kept in a store by spawn number, the map refers to them.
\<close>

record agent_manager =
  am_agents :: "(gostr, nat) gomap"
  am_store :: "AgentInfo list"
  am_adapter :: Adapter

definition NewAgentManager :: "Adapter \<Rightarrow> agent_manager" where
  "NewAgentManager a = \<lparr>am_agents = Map.empty, am_store = [], am_adapter = a\<rparr>"

text \<open>\<open>Time.Unix\<close>: whole seconds since the start of 1970, 62135596800 seconds after the zero time.\<close>

definition acp_unix :: "gtime \<Rightarrow> int" where
  "acp_unix t = t div second - 62135596800"

definition spawn_id :: "gostr \<Rightarrow> gtime \<Rightarrow> gostr" where
  "spawn_id name now = name @ ''-'' @ itoa (acp_unix now)"

definition Spawn :: "gtime \<Rightarrow> agent_manager \<Rightarrow> nat \<times> agent_manager" where
  "Spawn now m =
     (let info = \<lparr>ai_ID = spawn_id (ad_Name (am_adapter m)) now, ai_Name = ad_Name (am_adapter m),
            ai_Status = ''running'', ai_StartedAt = now, ai_TasksCount = 0, ai_Metadata = Map.empty\<rparr>
      in (length (am_store m), m\<lparr>am_agents := (am_agents m)(ai_ID info \<mapsto> length (am_store m)),
            am_store := am_store m @ [info]\<rparr>))"

definition am_Get :: "gostr \<Rightarrow> agent_manager \<Rightarrow> AgentInfo option" where
  "am_Get i m = map_option (\<lambda>n. am_store m ! n) (am_agents m i)"

definition am_List :: "gostr list \<Rightarrow> agent_manager \<Rightarrow> AgentInfo list" where
  "am_List order m = map (\<lambda>(_, n). am_store m ! n) (range_of order (am_agents m))"

definition Terminate :: "gostr \<Rightarrow> agent_manager \<Rightarrow> acp_error option \<times> agent_manager" where
  "Terminate i m =
     (case am_agents m i of
        None \<Rightarrow> (Some (AgentNotFound i), m)
      | Some n \<Rightarrow> (None, m\<lparr>am_store := (am_store m)[n := (am_store m ! n)\<lparr>ai_Status := ''terminated''\<rparr>],
          am_agents := (am_agents m)(i := None)\<rparr>))"

section \<open>Properties of the registry\<close>

text \<open>A registry in use: its map is there and files every adapter under its own name.\<close>

definition acp_ok :: "acp_registry \<Rightarrow> bool" where
  "acp_ok r \<longleftrightarrow> (\<exists>m. ar_adapters r = Some m \<and> finite (dom m) \<and> (\<forall>k a. m k = Some a \<longrightarrow> ad_Name a = k))"

datatype acp_op = AcpRegister Adapter | AcpUnregister gostr

fun acp_exec :: "acp_op \<Rightarrow> acp_registry \<Rightarrow> acp_registry option" where
  "acp_exec (AcpRegister a) r = map_option snd (acp_Register a r)"
| "acp_exec (AcpUnregister n) r = Some (snd (acp_Unregister n r))"

fun acp_run :: "acp_op list \<Rightarrow> acp_registry \<Rightarrow> acp_registry option" where
  "acp_run [] r = Some r"
| "acp_run (op # ops) r = (case acp_exec op r of None \<Rightarrow> None | Some r' \<Rightarrow> acp_run ops r')"

definition named_map :: "(gostr, Adapter) gomap \<Rightarrow> bool" where
  "named_map m \<longleftrightarrow> (\<forall>k a. m k = Some a \<longrightarrow> ad_Name a = k)"

lemma named_map_upd: "named_map m \<Longrightarrow> named_map (m(ad_Name a \<mapsto> a))"
  by (simp add: named_map_def)

lemma fold_names:
  assumes "named_map m"
  shows "named_map (fold (\<lambda>a m. m(ad_Name a \<mapsto> a)) as m)
    \<and> dom (fold (\<lambda>a m. m(ad_Name a \<mapsto> a)) as m) = dom m \<union> ad_Name ` set as"
  using assms
proof (induction as arbitrary: m)
  case (Cons b bs)
  have "dom (m(ad_Name b \<mapsto> b)) = insert (ad_Name b) (dom m)" by auto
  with Cons.IH [OF named_map_upd [OF Cons.prems, of b]] show ?case by (simp only: fold_simps list.set image_insert Un_insert_left Un_insert_right simp_thms)
qed simp

lemma fold_names_empty:
  "named_map (registerBuiltInAdapters Map.empty)" "dom (registerBuiltInAdapters Map.empty) = ad_Name ` set BuiltInAgents"
  using fold_names [of Map.empty BuiltInAgents] by (simp_all add: registerBuiltInAdapters_def named_map_def)

lemma acp_ok_New: "acp_ok NewRegistry"
  using fold_names_empty by (auto simp: acp_ok_def NewRegistry_def named_map_def)

lemma acp_exec_ok: "acp_ok r \<Longrightarrow> \<exists>r'. acp_exec op r = Some r' \<and> acp_ok r'"
  by (cases op) (auto simp: acp_ok_def acp_Register_def acp_Unregister_def map_lookup_def split: if_splits)

text \<open>A registry made by NewRegistry never panics on any sequence of registrations and removals, and keeps
  every adapter under its own name.\<close>

theorem acp_never_panics: "\<exists>r. acp_run ops NewRegistry = Some r \<and> acp_ok r"
proof -
  have "acp_ok r \<Longrightarrow> \<exists>r'. acp_run ops r = Some r' \<and> acp_ok r'" for r
  proof (induction ops arbitrary: r)
    case (Cons op ops)
    then show ?case using acp_exec_ok [OF Cons.prems, of op] by auto
  qed simp
  then show ?thesis using acp_ok_New by blast
qed

text \<open>Registration and removal as updates of a map, with the errors the code reports.\<close>

lemma acp_register_spec:
  assumes "acp_ok r"
  shows "case acp_Get (ad_Name a) r of
      Some _ \<Rightarrow> acp_Register a r = Some (Some (AlreadyRegistered (ad_Name a)), r)
    | None \<Rightarrow> \<exists>r'. acp_Register a r = Some (None, r') \<and> acp_ok r' \<and> acp_Count r' = acp_Count r + 1
        \<and> (\<forall>n. acp_Get n r' = (if n = ad_Name a then Some a else acp_Get n r))"
proof -
  obtain m where m: "ar_adapters r = Some m" "finite (dom m)" "\<forall>k a. m k = Some a \<longrightarrow> ad_Name a = k"
    using assms by (auto simp: acp_ok_def)
  have lookup: "map_lookup (ar_adapters r) = m" by (simp add: map_lookup_def fun_eq_iff m(1))
  show ?thesis
  proof (cases "m (ad_Name a)")
    case None
    let ?m = "m(ad_Name a \<mapsto> a)"
    let ?r = "r\<lparr>ar_adapters := Some ?m\<rparr>"
    have lookup': "map_lookup (ar_adapters ?r) = ?m" by (simp add: map_lookup_def fun_eq_iff)
    have reg: "acp_Register a r = Some (None, ?r)" using None by (simp add: acp_Register_def lookup, simp add: m(1))
    have ok: "acp_ok ?r" using m(2,3) by (auto simp: acp_ok_def)
    have count: "acp_Count ?r = acp_Count r + 1"
      unfolding acp_Count_def lookup lookup' using None m(2) by (simp add: domIff)
    have get: "acp_Get n ?r = (if n = ad_Name a then Some a else acp_Get n r)" for n
      unfolding acp_Get_def lookup lookup' by simp
    have "acp_Get (ad_Name a) r = None" unfolding acp_Get_def lookup by (rule None)
    then show ?thesis using reg ok count get by (simp only: option.case) blast
  next
    case (Some b)
    then show ?thesis by (simp add: acp_Get_def acp_Register_def lookup)
  qed
qed

lemma acp_unregister_spec:
  assumes "acp_Unregister n r = (e, r')"
  shows "(e = None \<longleftrightarrow> acp_Get n r \<noteq> None) \<and> acp_Get n r' = None \<and> (\<forall>k. k \<noteq> n \<longrightarrow> acp_Get k r' = acp_Get k r)"
  using assms by (auto simp: acp_Unregister_def acp_Get_def map_lookup_def split: if_splits option.splits)

text \<open>A lookup by capability returns exactly the registered adapters that have it, whatever the order.\<close>

theorem acp_by_capability:
  assumes "enumerates order (map_lookup (ar_adapters r))"
  shows "a \<in> set (GetByCapability order capability r) \<longleftrightarrow>
    (\<exists>n. acp_Get n r = Some a) \<and> capability \<in> set (ac_Capabilities (ad_Config a))"
proof -
  have "a \<in> set (acp_List order r) \<longleftrightarrow> (\<exists>n. acp_Get n r = Some a)"
    using range_of_enumerates [OF assms] by (force simp: acp_List_def acp_Get_def)
  then show ?thesis by (auto simp: GetByCapability_def list_ex_iff)
qed

lemma BuiltInAgents_names:
  "map ad_Name BuiltInAgents =
     [''codex'', ''claude'', ''goose'', ''devin'', ''jules'', ''copilot'', ''tabnine'', ''cursor'',
      ''aider'', ''continue'', ''replit'', ''figma'', ''github-copilot'', ''amazon-codewhisperer'',
      ''codestral'', ''mistral-codestral'', ''wizardcoder'', ''phind'']"
  by (simp add: BuiltInAgents_def adapter_def)

lemma BuiltInAgents_distinct: "distinct (map ad_Name BuiltInAgents)"
  unfolding BuiltInAgents_names by code_simp

lemma acp_builtin_count: "acp_Count NewRegistry = 18"
proof -
  have "map_lookup (ar_adapters NewRegistry) = registerBuiltInAdapters Map.empty"
    by (simp add: NewRegistry_def map_lookup_def fun_eq_iff)
  then have "acp_Count NewRegistry = card (ad_Name ` set BuiltInAgents)"
    by (simp add: acp_Count_def fold_names_empty)
  also have "\<dots> = card (set (map ad_Name BuiltInAgents))" by simp
  also have "\<dots> = length (map ad_Name BuiltInAgents)" by (rule distinct_card [OF BuiltInAgents_distinct])
  also have "\<dots> = 18" by (simp only: BuiltInAgents_names) simp
  finally show ?thesis .
qed

text \<open>A registry read from the JSON document null has a nil map, and registering in it panics.\<close>

lemma acp_null_registry_panics:
  assumes "unmarshal ''null'' = Inr None"
  shows "\<exists>r. acp_FromJSON unmarshal ''null'' = Inr r \<and> acp_Register a r = None"
  using assms by (simp add: acp_FromJSON_def acp_Register_def map_lookup_def)

section \<open>Agents spawned within one second\<close>

text \<open>Two agents spawned within the same second get the same identifier: the second takes the place of the
  first, and terminating that identifier leaves the first agent running with no identifier that reaches it.\<close>

theorem acp_spawn_orphans:
  assumes "acp_unix t1 = acp_unix t2" "Spawn t1 m0 = (n1, m1)" "Spawn t2 m1 = (n2, m2)"
    "Terminate (spawn_id (ad_Name (am_adapter m0)) t1) m2 = (e, m3)" "\<forall>i n. am_agents m0 i = Some n \<longrightarrow> n < length (am_store m0)"
  shows "e = None \<and> ai_Status (am_store m3 ! n1) = ''running'' \<and> ai_Status (am_store m3 ! n2) = ''terminated''
    \<and> (\<forall>i. am_agents m3 i \<noteq> Some n1)"
proof -
  let ?id = "spawn_id (ad_Name (am_adapter m0)) t1" and ?k = "length (am_store m0)"
  have n: "n1 = ?k" "n2 = ?k + 1" using assms(2,3) by (auto simp: Spawn_def Let_def)
  have agents: "am_agents m2 = (am_agents m0)(?id \<mapsto> n2)"
    using assms(1-3) by (auto simp: Spawn_def Let_def spawn_id_def n)
  have store: "length (am_store m2) = ?k + 2" "ai_Status (am_store m2 ! n1) = ''running''"
    using assms(2,3) by (auto simp: Spawn_def Let_def n nth_append)
  have m3: "e = None" "am_store m3 = (am_store m2)[n2 := (am_store m2 ! n2)\<lparr>ai_Status := ''terminated''\<rparr>]"
    "am_agents m3 = (am_agents m2)(?id := None)"
    using assms(4) by (auto simp: Terminate_def agents)
  have "am_agents m3 i \<noteq> Some n1" for i using assms(5) by (auto simp: m3(3) agents n)
  then show ?thesis using m3 store by (simp add: n)
qed

theorem acp_spawn_orphans_witness:
  "\<exists>n1 n2 (m3 :: agent_manager). ai_Status (am_store m3 ! n1) = ''running'' \<and> ai_Status (am_store m3 ! n2) = ''terminated''
     \<and> (\<forall>i. am_agents m3 i \<noteq> Some n1)
     \<and> n1 = fst (Spawn 0 (NewAgentManager (BuiltInAgents ! 0))) \<and> n1 \<noteq> n2"
proof -
  let ?m0 = "NewAgentManager (BuiltInAgents ! 0)"
  obtain n1 m1 where 1: "Spawn 0 ?m0 = (n1, m1)" by (cases "Spawn 0 ?m0")
  obtain n2 m2 where 2: "Spawn 5 m1 = (n2, m2)" by (cases "Spawn 5 m1")
  obtain e m3 where 3: "Terminate (spawn_id (ad_Name (am_adapter ?m0)) 0) m2 = (e, m3)"
    by (cases "Terminate (spawn_id (ad_Name (am_adapter ?m0)) 0) m2")
  have "acp_unix 0 = acp_unix 5" by (simp add: acp_unix_def second_def)
  from acp_spawn_orphans [OF this 1 2 3] have
    "ai_Status (am_store m3 ! n1) = ''running'' \<and> ai_Status (am_store m3 ! n2) = ''terminated'' \<and> (\<forall>i. am_agents m3 i \<noteq> Some n1)"
    by (simp add: NewAgentManager_def)
  moreover from this have "n1 \<noteq> n2" by (intro notI) auto
  moreover have "n1 = fst (Spawn 0 ?m0)" by (simp add: 1)
  ultimately show ?thesis by (intro exI [of _ n1] exI [of _ n2] exI [of _ m3]) (simp only: simp_thms)
qed

end
