(* ===== verification/Go_Calendar.thy ===== *)
theory Go_Calendar
  imports Gw_Prelude
begin

text \<open>
  The proleptic Gregorian calendar as the package \<open>time\<close> computes it. Days are counted from
  the first of January of year 1, a Monday, which is the zero instant. A location is a
  function: the offset of its clocks from UTC at an instant, which changes where summer time begins and ends.
\<close>

section \<open>Years, months and days\<close>

definition leap_year :: "int \<Rightarrow> bool" where
  "leap_year y \<longleftrightarrow> y mod 4 = 0 \<and> (y mod 100 \<noteq> 0 \<or> y mod 400 = 0)"

definition days_before_year :: "int \<Rightarrow> int" where
  "days_before_year y = (let n = y - 1 in 365 * n + n div 4 - n div 100 + n div 400)"

definition month_starts :: "int list" where
  "month_starts = [0, 31, 59, 90, 120, 151, 181, 212, 243, 273, 304, 334]"

definition days_before_month :: "bool \<Rightarrow> nat \<Rightarrow> int" where
  "days_before_month leap m = month_starts ! m + (if leap \<and> 2 \<le> m then 1 else 0)"

text \<open>
  The year of a day: cycles of 400 years, then centuries, four-year cycles and years, where
  the last century of a cycle and the last year of four have one more day.
\<close>

definition year_day :: "int \<Rightarrow> int \<times> int" where
  "year_day d0 =
     (let c400 = d0 div 146097; d1 = d0 - 146097 * c400;
          n100 = d1 div 36524; c100 = n100 - n100 div 4; d2 = d1 - 36524 * c100;
          c4 = d2 div 1461; d3 = d2 - 1461 * c4;
          n1 = d3 div 365; c1 = n1 - n1 div 4; d4 = d3 - 365 * c1
      in (400 * c400 + 100 * c100 + 4 * c4 + c1 + 1, d4))"

definition month_index :: "bool \<Rightarrow> int \<Rightarrow> nat" where
  "month_index leap yday = length (filter (\<lambda>m. days_before_month leap m \<le> yday) [1..<12])"

text \<open>\<open>Time.Date\<close> of a day: year, month from 1 to 12 and day of the month.\<close>

definition civil :: "int \<Rightarrow> int \<times> int \<times> int" where
  "civil d = (let (y, yday) = year_day d; m = month_index (leap_year y) yday
     in (y, int m + 1, yday - days_before_month (leap_year y) m + 1))"

text \<open>\<open>time.Date\<close> at midnight: the month is brought into range first, days may overflow.\<close>

definition day_number :: "int \<Rightarrow> int \<Rightarrow> int \<Rightarrow> int" where
  "day_number y0 m0 d =
     (let y = y0 + (m0 - 1) div 12; m = nat ((m0 - 1) mod 12)
      in days_before_year y + days_before_month (leap_year y) m + d - 1)"

definition weekday :: "int \<Rightarrow> int" where
  "weekday d = (d + 1) mod 7"

section \<open>The calendar is consistent\<close>

lemma div_by: "a = b * q + r \<Longrightarrow> 0 \<le> r \<Longrightarrow> r < b \<Longrightarrow> a div b = q" for a b q r :: int
  by (rule int_div_pos_eq)

text \<open>A year is 400a + 100b + 4c + e years after year 1.\<close>

lemma days_before_split:
  assumes "0 \<le> b" "b \<le> 3" "0 \<le> c" "c \<le> 24" "0 \<le> e" "e \<le> 3"
  shows "days_before_year (400 * a + 100 * b + 4 * c + e + 1) = 146097 * a + 36524 * b + 1461 * c + 365 * e"
proof -
  let ?n = "400 * a + 100 * b + 4 * c + e"
  have "?n div 4 = 100 * a + 25 * b + c" by (rule div_by [of _ _ _ e]) (use assms in simp_all)
  moreover have "?n div 100 = 4 * a + b" by (rule div_by [of _ _ _ "4 * c + e"]) (use assms in simp_all)
  moreover have "?n div 400 = a" by (rule div_by [of _ _ _ "100 * b + 4 * c + e"]) (use assms in simp_all)
  ultimately show ?thesis by (simp add: days_before_year_def)
qed

lemma leap_split:
  assumes "0 \<le> b" "b \<le> 3" "0 \<le> c" "c \<le> 24" "c < 24 \<or> b = 3"
  shows "leap_year (400 * a + 100 * b + 4 * c + 4)"
proof -
  let ?y = "400 * a + 100 * b + 4 * c + 4"
  have "?y mod 4 = 0" by presburger
  moreover have "?y mod 100 \<noteq> 0 \<or> ?y mod 400 = 0"
  proof (cases "c < 24")
    case True
    then have "?y div 100 = 4 * a + b" by (intro div_by [of _ _ _ "4 * c + 4"]) (use assms in simp_all)
    then have "?y mod 100 = 4 * c + 4" using div_mult_mod_eq [of ?y 100] by simp
    then show ?thesis using assms by simp
  next
    case False
    then have y: "?y = 400 * (a + 1)" using assms by simp
    show ?thesis unfolding y by simp
  qed
  ultimately show ?thesis by (simp add: leap_year_def)
qed

lemma year_day_parts:
  obtains a b c e yday where "year_day d = (400 * a + 100 * b + 4 * c + e + 1, yday)"
    "d = 146097 * a + 36524 * b + 1461 * c + 365 * e + yday"
    "0 \<le> b" "b \<le> 3" "0 \<le> c" "c \<le> 24" "0 \<le> e" "e \<le> 3" "0 \<le> yday"
    "yday < 365 \<or> yday = 365 \<and> e = 3 \<and> (c < 24 \<or> b = 3)"
proof -
  define a where "a = d div 146097"
  define d1 where "d1 = d - 146097 * a"
  define n100 where "n100 = d1 div 36524"
  define b where "b = n100 - n100 div 4"
  define d2 where "d2 = d1 - 36524 * b"
  define c where "c = d2 div 1461"
  define d3 where "d3 = d2 - 1461 * c"
  define n1 where "n1 = d3 div 365"
  define e where "e = n1 - n1 div 4"
  define yday where "yday = d3 - 365 * e"
  have d1: "0 \<le> d1" "d1 < 146097" by (simp_all add: d1_def a_def minus_mult_div_eq_mod)
  have "36524 * n100 \<le> d1" "d1 < 36524 * n100 + 36524" unfolding n100_def by presburger+
  then have "0 \<le> n100" "n100 \<le> 4" using d1 by linarith+
  then have b: "0 \<le> b" "b \<le> 3" "b = n100 \<or> n100 = 4 \<and> b = 3" unfolding b_def by presburger+
  have d2: "0 \<le> d2" "d2 < 36524 \<or> d2 = 36524 \<and> b = 3"
    using b d1 \<open>36524 * n100 \<le> d1\<close> \<open>d1 < 36524 * n100 + 36524\<close> unfolding d2_def by auto
  have c': "1461 * c \<le> d2" "d2 < 1461 * c + 1461" unfolding c_def by presburger+
  then have c: "0 \<le> c" "c \<le> 24" using d2 by auto
  have d3: "0 \<le> d3" "d3 < 1461" "d3 < 1460 \<or> c < 24 \<or> b = 3" using c' d2 c unfolding d3_def by auto
  have n': "365 * n1 \<le> d3" "d3 < 365 * n1 + 365" unfolding n1_def by presburger+
  then have "0 \<le> n1" "n1 \<le> 4" using d3 by linarith+
  then have e: "0 \<le> e" "e \<le> 3" "e = n1 \<or> n1 = 4 \<and> e = 3" unfolding e_def by presburger+
  have "0 \<le> yday" "yday < 365 \<or> yday = 365 \<and> e = 3 \<and> (c < 24 \<or> b = 3)"
    using e n' d3 unfolding yday_def by auto
  moreover have "year_day d = (400 * a + 100 * b + 4 * c + e + 1, yday)"
    by (simp add: year_day_def Let_def yday_def e_def n1_def d3_def c_def d2_def b_def n100_def d1_def a_def)
  moreover have "d = 146097 * a + 36524 * b + 1461 * c + 365 * e + yday"
    by (simp add: yday_def d3_def d2_def d1_def)
  ultimately show thesis using that b(1,2) c e(1,2) by blast
qed

lemma year_day_bounds:
  assumes "year_day d = (y, yday)"
  shows "d = days_before_year y + yday" "0 \<le> yday" "yday < 365 \<or> yday = 365 \<and> leap_year y"
proof -
  obtain a b c e yd where p: "year_day d = (400 * a + 100 * b + 4 * c + e + 1, yd)"
    "d = 146097 * a + 36524 * b + 1461 * c + 365 * e + yd"
    "0 \<le> b" "b \<le> 3" "0 \<le> c" "c \<le> 24" "0 \<le> e" "e \<le> 3" "0 \<le> yd"
    "yd < 365 \<or> yd = 365 \<and> e = 3 \<and> (c < 24 \<or> b = 3)"
    by (rule year_day_parts)
  have y: "y = 400 * a + 100 * b + 4 * c + e + 1" "yday = yd" using p(1) assms by simp_all
  show "d = days_before_year y + yday" using days_before_split [of b c e a] p by (simp add: y)
  show "0 \<le> yday" using p by (simp_all add: y)
  show "yday < 365 \<or> yday = 365 \<and> leap_year y"
  proof (cases "yd < 365")
    case False
    then have "yd = 365" "e = 3" "c < 24 \<or> b = 3" using p(10) by simp_all
    then show ?thesis using leap_split [of b c a] p(3-6) by (simp add: y algebra_simps)
  qed (simp add: y)
qed

lemma count_at_most:
  fixes f :: "nat \<Rightarrow> int"
  assumes "\<And>i j. i < j \<Longrightarrow> j < n \<Longrightarrow> f i < f j" "0 < n" "f 0 \<le> x"
  defines "m \<equiv> length (filter (\<lambda>i. f i \<le> x) [1..<n])"
  shows "m < n \<and> f m \<le> x \<and> (\<forall>i. m < i \<and> i < n \<longrightarrow> x < f i)"
  using assms(1,2) unfolding m_def
proof (induction n)
  case (Suc n)
  show ?case
  proof (cases "n = 0")
    case True
    then show ?thesis using assms(3) by simp
  next
    case n: False
    show ?thesis
    proof (cases "f n \<le> x")
      case True
      have "f i \<le> x" if "i < n" for i using Suc.prems(1) [of i n] that True by simp
      then have "filter (\<lambda>i. f i \<le> x) [1..<Suc n] = [1..<Suc n]" using True n by (auto simp: filter_id_conv)
      then show ?thesis using True n by simp
    next
      case False
      then have "filter (\<lambda>i. f i \<le> x) [1..<Suc n] = filter (\<lambda>i. f i \<le> x) [1..<n]" using n by simp
      then show ?thesis using Suc.IH Suc.prems(1) n False by (auto simp: less_Suc_eq)
    qed
  qed
qed simp

lemma days_before_month_mono: "i < j \<Longrightarrow> j < 12 \<Longrightarrow> days_before_month leap i < days_before_month leap j"
proof -
  have "list_all (\<lambda>j. list_all (\<lambda>i. month_starts ! i + 1 < month_starts ! j) [0..<j]) [0..<12]" by code_simp
  moreover assume "i < j" "j < 12"
  ultimately have "month_starts ! i + 1 < month_starts ! j" by (simp only: list_all_iff set_upt) simp
  then show ?thesis by (auto simp: days_before_month_def)
qed

lemma month_index_bounds:
  assumes "0 \<le> yday"
  shows "month_index leap yday < 12" "days_before_month leap (month_index leap yday) \<le> yday"
    "month_index leap yday < 11 \<Longrightarrow> yday < days_before_month leap (Suc (month_index leap yday))"
proof -
  have "days_before_month leap 0 \<le> yday" using assms by (simp add: days_before_month_def month_starts_def)
  with days_before_month_mono
  have "month_index leap yday < 12 \<and> days_before_month leap (month_index leap yday) \<le> yday
    \<and> (\<forall>i. month_index leap yday < i \<and> i < 12 \<longrightarrow> yday < days_before_month leap i)"
    unfolding month_index_def by (intro count_at_most) simp_all
  then show "month_index leap yday < 12" "days_before_month leap (month_index leap yday) \<le> yday"
    "month_index leap yday < 11 \<Longrightarrow> yday < days_before_month leap (Suc (month_index leap yday))" by simp_all
qed

text \<open>Every day has a date, and the date leads back to the day.\<close>

lemma civil_cases:
  obtains y m yday where "year_day d = (y, yday)" "m = month_index (leap_year y) yday"
    "civil d = (y, int m + 1, yday - days_before_month (leap_year y) m + 1)"
    "d = days_before_year y + yday" "0 \<le> yday" "yday < 365 \<or> yday = 365 \<and> leap_year y" "m < 12"
proof -
  obtain y yday where yd: "year_day d = (y, yday)" by (cases "year_day d")
  note b = year_day_bounds [OF yd]
  show thesis
    by (rule that [OF yd refl _ b(1-3) month_index_bounds(1) [OF b(2)]]) (simp add: civil_def yd Let_def)
qed

lemma day_number_in_year:
  "m < 12 \<Longrightarrow> day_number y (int m + 1) k = days_before_year y + days_before_month (leap_year y) m + k - 1"
  by (simp add: day_number_def Let_def)

theorem civil_roundtrip:
  "case civil d of (y, m, k) \<Rightarrow> day_number y m k = d"
proof -
  obtain y m yday where c: "civil d = (y, int m + 1, yday - days_before_month (leap_year y) m + 1)"
    "d = days_before_year y + yday" "m < 12"
    by (rule civil_cases)
  then show ?thesis by (simp add: day_number_in_year)
qed

lemma days_in_year: "days_before_year (y + 1) = days_before_year y + (if leap_year y then 366 else 365)"
proof -
  have step: "y div k = (y - 1) div k + (if y mod k = 0 then 1 else 0)" if "1 < k" for k :: int
  proof (cases "y mod k = 0")
    case True
    then have "y - 1 = k * (y div k - 1) + (k - 1)" using div_mult_mod_eq [of y k] by (simp add: algebra_simps)
    then have "(y - 1) div k = y div k - 1" using that by (intro div_by [of _ _ _ "k - 1"]) simp_all
    then show ?thesis using True by simp
  next
    case False
    moreover have "0 \<le> y mod k" "y mod k < k" using that by (simp_all add: pos_mod_sign pos_mod_bound)
    ultimately have "0 < y mod k" "y mod k < k" by linarith+
    then have r: "0 \<le> y mod k - 1" "y mod k - 1 < k" by linarith+
    have "y - 1 = k * (y div k) + (y mod k - 1)" by simp
    then have "(y - 1) div k = y div k" using r by (rule div_by)
    then show ?thesis using False by simp
  qed
  have m: "y mod 400 = 0 \<longrightarrow> y mod 100 = 0" "y mod 100 = 0 \<longrightarrow> y mod 4 = 0" by presburger+
  have "days_before_year (y + 1) = 365 * y + y div 4 - y div 100 + y div 400" by (simp add: days_before_year_def)
  moreover have "days_before_year y = 365 * (y - 1) + (y - 1) div 4 - (y - 1) div 100 + (y - 1) div 400"
    by (simp only: days_before_year_def Let_def)
  moreover have lin: "365 * y + a - b + c - (365 * (y - 1) + a' - b' + c') = 365 + i - j + k"
    if "a = a' + i" "b = b' + j" "c = c' + k" for a b c a' b' c' i j k :: int using that by simp
  have "365 * y + y div 4 - y div 100 + y div 400 - (365 * (y - 1) + (y - 1) div 4 - (y - 1) div 100 + (y - 1) div 400)
      = 365 + (if y mod 4 = 0 then 1 else 0) - (if y mod 100 = 0 then 1 else 0) + (if y mod 400 = 0 then 1 else 0)"
    by (rule lin; rule step) simp_all
  ultimately have "days_before_year (y + 1) - days_before_year y = 365 + (if y mod 4 = 0 then 1 else 0)
      - (if y mod 100 = 0 then 1 else 0) + (if y mod 400 = 0 then 1 else 0)" by (simp only:)
  then show ?thesis using m by (cases "y mod 4 = 0"; cases "y mod 100 = 0"; cases "y mod 400 = 0") (simp_all add: leap_year_def)
qed

text \<open>The first day of a month and of the next enclose its days.\<close>

theorem month_encloses:
  assumes "civil d = (y, m, k)"
  shows "day_number y m 1 \<le> d" "d < day_number y (m + 1) 1"
proof -
  obtain y' i yday where c: "i = month_index (leap_year y') yday"
    "civil d = (y', int i + 1, yday - days_before_month (leap_year y') i + 1)"
    "d = days_before_year y' + yday" "0 \<le> yday" "yday < 365 \<or> yday = 365 \<and> leap_year y'" "i < 12"
    by (rule civil_cases)
  have ym: "y = y'" "m = int i + 1" using c(2) assms by simp_all
  note mi = month_index_bounds [OF c(4), of "leap_year y'", folded c(1)]
  show "day_number y m 1 \<le> d" using mi(2) c(3,6) by (simp add: ym day_number_in_year)
  show "d < day_number y (m + 1) 1"
  proof (cases "i < 11")
    case True
    then show ?thesis using mi(3) c(3) day_number_in_year [of "Suc i" y' 1] by (simp add: ym add.commute)
  next
    case False
    then have "i = 11" using c(6) by simp
    then have "day_number y (m + 1) 1 = days_before_year (y' + 1)"
      by (simp add: ym day_number_def days_before_month_def month_starts_def)
    then show ?thesis using days_in_year [of y'] c(3,5) by (auto split: if_splits)
  qed
qed

lemma days_before_year_mono: "y \<le> z \<Longrightarrow> days_before_year y \<le> days_before_year z"
proof (induction z rule: int_ge_induct)
  case (step z)
  then show ?case using days_in_year [of z] by (simp split: if_splits)
qed simp

text \<open>The day of the year and the month are unique, so a date that exists is read back.\<close>

lemma year_day_unique:
  assumes "0 \<le> k" "k < (if leap_year y then 366 else 365)"
  shows "year_day (days_before_year y + k) = (y, k)"
proof -
  let ?d = "days_before_year y + k"
  obtain z j where zj: "year_day ?d = (z, j)" by (cases "year_day ?d")
  note b = year_day_bounds [OF zj]
  have "?d < days_before_year (z + 1)" using b days_in_year [of z] by auto
  moreover have "?d < days_before_year (y + 1)" using assms(2) days_in_year [of y] by simp
  ultimately have "\<not> z + 1 \<le> y" "\<not> y + 1 \<le> z"
    using days_before_year_mono [of "z + 1" y] days_before_year_mono [of "y + 1" z] b(1,2) assms(1) by linarith+
  then have "z = y" by linarith
  then show ?thesis using b(1) zj by simp
qed

lemma month_index_first: "i < 12 \<Longrightarrow> month_index leap (days_before_month leap i) = i"
proof -
  assume i: "i < 12"
  let ?j = "month_index leap (days_before_month leap i)"
  have "0 \<le> days_before_month leap i"
    using days_before_month_mono [of 0 i leap] i by (cases "i = 0") (simp_all add: days_before_month_def month_starts_def)
  note b = month_index_bounds [OF this, of leap]
  have "\<not> i < ?j" using days_before_month_mono [of i ?j leap] b(1,2) by linarith
  moreover have "\<not> ?j < i"
  proof
    assume "?j < i"
    then have "?j < 11" "Suc ?j = i \<or> Suc ?j < i" using i by auto
    then show False using b(3) days_before_month_mono [of "Suc ?j" i leap] i by auto
  qed
  ultimately show ?thesis by simp
qed

lemma civil_first: "1 \<le> m \<Longrightarrow> m \<le> 12 \<Longrightarrow> civil (day_number y m 1) = (y, m, 1)"
proof -
  assume m: "1 \<le> m" "m \<le> 12"
  define i where "i = nat (m - 1)"
  have i: "i < 12" "m = int i + 1" using m by (simp_all add: i_def)
  let ?k = "days_before_month (leap_year y) i"
  have "list_all (\<lambda>i. 0 \<le> month_starts ! i \<and> month_starts ! i < 364) [0..<12]" by code_simp
  then have "0 \<le> month_starts ! i" "month_starts ! i < 364" using i(1) by (simp_all only: list_all_iff set_upt) simp_all
  then have "0 \<le> ?k" "?k < (if leap_year y then 366 else 365)" by (simp_all add: days_before_month_def)
  then have "year_day (day_number y m 1) = (y, ?k)"
    using year_day_unique [of ?k y] by (simp add: i day_number_in_year)
  then show ?thesis by (simp add: civil_def month_index_first i)
qed

lemma civil_month_range:
  assumes "civil d = (y, m, k)" shows "1 \<le> m" "m \<le> 12"
proof -
  obtain y' i yday where "civil d = (y', int i + 1, yday - days_before_month (leap_year y') i + 1)" "i < 12"
    by (rule civil_cases)
  then show "1 \<le> m" "m \<le> 12" using assms by simp_all
qed

text \<open>Months counted from year 0: their first days are in order.\<close>

lemma day_number_month: "day_number 0 (12 * y + m) k = day_number y m k"
proof -
  have "12 * y + m - 1 = (m - 1) + y * 12" by simp
  then have "(12 * y + m - 1) div 12 = y + (m - 1) div 12" "(12 * y + m - 1) mod 12 = (m - 1) mod 12"
    by (simp_all only: div_mult_self1 mod_mult_self1)
  then show ?thesis by (simp only: day_number_def Let_def) simp
qed

lemma first_of_next: "day_number 0 k 1 < day_number 0 (k + 1) 1"
proof -
  define y m where "y = (k - 1) div 12" and "m = (k - 1) mod 12 + 1"
  have "k - 1 = 12 * y + (m - 1)" by (simp add: y_def m_def)
  then have k: "k = 12 * y + m" by simp
  have "1 \<le> m" "m \<le> 12" unfolding m_def using pos_mod_bound [of 12 "k - 1"] pos_mod_sign [of 12 "k - 1"] by linarith+
  from month_encloses(2) [OF civil_first [OF this]] have "day_number y m 1 < day_number y (m + 1) 1" .
  then show ?thesis using day_number_month [of y m 1] day_number_month [of y "m + 1" 1] by (simp add: k add.assoc)
qed

lemma first_of_mono: "k \<le> l \<Longrightarrow> day_number 0 k 1 \<le> day_number 0 l 1"
proof (induction l rule: int_ge_induct)
  case (step l)
  then show ?case using first_of_next [of l] by simp
qed simp

lemma civil_month_unique:
  assumes "day_number y m 1 \<le> d" "d < day_number y (m + 1) 1" "1 \<le> m" "m \<le> 12" "civil d = (z, n, k)"
  shows "z = y \<and> n = m"
proof -
  note e = month_encloses [OF assms(5)]
  have d: "day_number 0 (12 * y + m) 1 \<le> d" "d < day_number 0 (12 * y + m + 1) 1"
    "day_number 0 (12 * z + n) 1 \<le> d" "d < day_number 0 (12 * z + n + 1) 1"
    using assms(1,2) e day_number_month [of y m 1] day_number_month [of y "m + 1" 1]
      day_number_month [of z n 1] day_number_month [of z "n + 1" 1] by (simp_all add: add.assoc)
  have "\<not> 12 * y + m + 1 \<le> 12 * z + n" "\<not> 12 * z + n + 1 \<le> 12 * y + m"
    using first_of_mono [of "12 * y + m + 1" "12 * z + n"] first_of_mono [of "12 * z + n + 1" "12 * y + m"] d by linarith+
  then have "12 * y + m = 12 * z + n" by linarith
  moreover have "1 \<le> n" "n \<le> 12" using civil_month_range [OF assms(5)] by simp_all
  ultimately show ?thesis using assms(3,4) by presburger
qed

section \<open>Dates in a location\<close>

type_synonym location = "gtime \<Rightarrow> int"

definition day_ns :: duration where
  "day_ns = 24 * hour"

definition local_day :: "location \<Rightarrow> gtime \<Rightarrow> int" where
  "local_day loc t = (t + loc t) div day_ns"

definition time_of_day :: "location \<Rightarrow> gtime \<Rightarrow> int" where
  "time_of_day loc t = (t + loc t) mod day_ns"

definition date_of :: "location \<Rightarrow> gtime \<Rightarrow> int \<times> int \<times> int" where
  "date_of loc t = civil (local_day loc t)"

text \<open>
  \<open>time.Date\<close> of a date and the nanoseconds after midnight: the reading of the clock is taken for an instant of
  UTC, moved by the offset at that instant, and the offset at the result is what counts.
\<close>

definition time_date :: "location \<Rightarrow> int \<Rightarrow> int \<Rightarrow> int \<Rightarrow> int \<Rightarrow> gtime" where
  "time_date loc y m d tod = (let u = day_number y m d * day_ns + tod in u - loc (u - loc u))"

text \<open>\<open>Time.AddDate\<close>.\<close>

definition add_date :: "location \<Rightarrow> gtime \<Rightarrow> int \<Rightarrow> int \<Rightarrow> int \<Rightarrow> gtime" where
  "add_date loc t years months days =
     (case date_of loc t of (y, m, d) \<Rightarrow> time_date loc (y + years) (m + months) (d + days) (time_of_day loc t))"

text \<open>A location whose clocks are never moved, such as UTC.\<close>

definition fixed_zone :: "int \<Rightarrow> location" where
  "fixed_zone off t = off"

lemma day_ns_pos [simp]: "0 < day_ns" "0 \<le> day_ns"
  by (simp_all add: day_ns_def hour_def)

lemma time_of_day_bounds [simp]: "0 \<le> time_of_day loc t" "time_of_day loc t < day_ns"
  by (simp_all add: time_of_day_def)

lemma day_number_add: "day_number y m (d + k) = day_number y m d + k"
  by (simp add: day_number_def Let_def)

lemma day_number_date: "date_of loc t = (y, m, d) \<Longrightarrow> day_number y m d = local_day loc t"
  using civil_roundtrip [of "local_day loc t"] by (simp add: date_of_def)

subsection \<open>Dates in a fixed zone\<close>

lemma fixed_zone_date: "time_date (fixed_zone off) y m d tod = day_number y m d * day_ns + tod - off"
  by (simp add: time_date_def fixed_zone_def)

lemma local_split: "t + off = local_day (fixed_zone off) t * day_ns + time_of_day (fixed_zone off) t"
  by (simp add: local_day_def time_of_day_def fixed_zone_def)

lemma local_day_unique:
  "t + off = k * day_ns + r \<Longrightarrow> 0 \<le> r \<Longrightarrow> r < day_ns
    \<Longrightarrow> local_day (fixed_zone off) t = k \<and> time_of_day (fixed_zone off) t = r"
  unfolding local_day_def time_of_day_def fixed_zone_def
  using int_div_pos_eq [of "t + off" day_ns k r] int_mod_pos_eq [of "t + off" day_ns k r] by (simp add: mult.commute)

lemma local_day_date [simp]:
  "0 \<le> tod \<Longrightarrow> tod < day_ns \<Longrightarrow> local_day (fixed_zone off) (time_date (fixed_zone off) y m d tod) = day_number y m d"
  using local_day_unique [of "time_date (fixed_zone off) y m d tod" off "day_number y m d" tod] by (simp add: fixed_zone_date)

lemma time_of_day_date [simp]:
  "0 \<le> tod \<Longrightarrow> tod < day_ns \<Longrightarrow> time_of_day (fixed_zone off) (time_date (fixed_zone off) y m d tod) = tod"
  using local_day_unique [of "time_date (fixed_zone off) y m d tod" off "day_number y m d" tod] by (simp add: fixed_zone_date)

text \<open>Moving by whole days moves by days of 24 hours.\<close>

lemma add_date_days: "add_date (fixed_zone off) t 0 0 k = t + k * day_ns"
proof -
  obtain y m d where d: "date_of (fixed_zone off) t = (y, m, d)" by (cases "date_of (fixed_zone off) t")
  then show ?thesis using local_split [of t off]
    by (simp add: add_date_def fixed_zone_date day_number_add day_number_date distrib_right)
qed

text \<open>Midnight of a date before an instant, and of a later date after it.\<close>

lemma local_day_less: "t < k * day_ns - off \<Longrightarrow> local_day (fixed_zone off) t < k"
proof -
  assume "t < k * day_ns - off"
  then have "local_day (fixed_zone off) t * day_ns < k * day_ns"
    using local_split [of t off] time_of_day_bounds(1) [of "fixed_zone off" t] by linarith
  then show ?thesis by (simp add: mult_less_cancel_right)
qed

lemma local_day_ge: "k * day_ns - off \<le> t \<Longrightarrow> k \<le> local_day (fixed_zone off) t"
proof -
  assume "k * day_ns - off \<le> t"
  then have "k * day_ns < (local_day (fixed_zone off) t + 1) * day_ns"
    using local_split [of t off] time_of_day_bounds(2) [of "fixed_zone off" t] by (simp add: distrib_right del: time_of_day_bounds)
  then show ?thesis by (simp add: mult_less_cancel_right)
qed

lemma midnight_le: "day_number y m d \<le> local_day (fixed_zone off) t \<Longrightarrow> time_date (fixed_zone off) y m d 0 \<le> t"
proof -
  assume "day_number y m d \<le> local_day (fixed_zone off) t"
  then have "day_number y m d * day_ns \<le> local_day (fixed_zone off) t * day_ns" by (intro mult_right_mono) simp_all
  then show ?thesis using local_split [of t off] time_of_day_bounds(1) [of "fixed_zone off" t] unfolding fixed_zone_date by linarith
qed

lemma midnight_gt: "local_day (fixed_zone off) t < day_number y m d \<Longrightarrow> t < time_date (fixed_zone off) y m d 0"
proof -
  assume "local_day (fixed_zone off) t < day_number y m d"
  then have "(local_day (fixed_zone off) t + 1) * day_ns \<le> day_number y m d * day_ns" by (intro mult_right_mono) simp_all
  then have "local_day (fixed_zone off) t * day_ns + day_ns \<le> day_number y m d * day_ns" by (simp add: distrib_right)
  then show ?thesis using local_split [of t off] time_of_day_bounds(2) [of "fixed_zone off" t] unfolding fixed_zone_date by linarith
qed

end
