(* ===== verification/Budget.thy ===== *)
theory Budget
  imports Go_Calendar Go_Float
begin

text \<open>
  Budgets of an organization (\<open>billing/budget.go\<close>): limits and usage per day, week and month,
  the recording of usage with its attribution to models and API keys, the budget check and the
  alerts. A limit is a value, as callers hand over a pointer that is never nil; the location of
  the clock, \<open>loc\<close>, is any, with the moves of its clocks. Counters of tokens and requests are
  \<open>int64\<close> and wrap around.
\<close>

section \<open>Data\<close>

datatype BudgetPeriod = BudgetPeriodDaily | BudgetPeriodWeekly | BudgetPeriodMonthly | OtherPeriod gostr

record BudgetLimit =
  bl_Period :: BudgetPeriod
  bl_AmountUSD :: float64
  bl_TokenLimit :: int
  bl_AlertThreshold :: float64

record ModelUsage =
  mu_ModelName :: gostr
  mu_InputTokens :: int
  mu_OutputTokens :: int
  mu_TotalTokens :: int
  mu_RequestCount :: int
  mu_CostUSD :: float64

record ProviderUsage =
  pu_ProviderID :: gostr
  pu_InputTokens :: int
  pu_OutputTokens :: int
  pu_TotalTokens :: int
  pu_RequestCount :: int
  pu_CostUSD :: float64

record BudgetUsage =
  bu_Period :: BudgetPeriod
  bu_SpentUSD :: float64
  bu_InputTokens :: int
  bu_OutputTokens :: int
  bu_TotalTokens :: int
  bu_RequestCount :: int
  bu_ModelUsage :: "(gostr, ModelUsage) gomap"
  bu_ProviderUsage :: "(gostr, ProviderUsage) gomap"
  bu_WindowStart :: gtime
  bu_WindowEnd :: gtime

record OrganizationBudget =
  ob_OrgID :: gostr
  ob_Limits :: "(BudgetPeriod, BudgetLimit) gomap"
  ob_Usage :: "(BudgetPeriod, BudgetUsage) gomap"
  ob_AlertsSent :: "(BudgetPeriod, bool) gomap"
  ob_LastReset :: "(BudgetPeriod, gtime) gomap"
  ob_CreatedAt :: gtime
  ob_UpdatedAt :: gtime

record UsageRecord =
  ur_ID :: int
  ur_OrganizationID :: "int option"
  ur_UserID :: "int option"
  ur_APIKeyID :: gostr
  ur_Model :: gostr
  ur_InputTokens :: int
  ur_OutputTokens :: int
  ur_Cost :: float64
  ur_Period :: gostr
  ur_CreatedAt :: gtime

record BudgetCheckResult =
  bc_Allowed :: bool
  bc_Reason :: gostr
  bc_LimitType :: gostr
  bc_LimitPeriod :: "BudgetPeriod option"
  bc_EstimatedCostUSD :: float64
  bc_RemainingUSD :: float64
  bc_RemainingTokens :: int

record UsagePercentage =
  up_Period :: BudgetPeriod
  up_USD :: float64
  up_Tokens :: float64
  up_RequestCount :: int
  up_WindowStart :: gtime
  up_WindowEnd :: gtime
  up_WindowRemaining :: duration

definition NewOrganizationBudget :: "gtime \<Rightarrow> gostr \<Rightarrow> OrganizationBudget" where
  "NewOrganizationBudget now orgID =
     \<lparr>ob_OrgID = orgID, ob_Limits = Map.empty, ob_Usage = Map.empty, ob_AlertsSent = Map.empty,
      ob_LastReset = Map.empty, ob_CreatedAt = now, ob_UpdatedAt = now\<rparr>"

definition NewUsageRecord ::
  "gtime \<Rightarrow> gostr \<Rightarrow> gostr \<Rightarrow> gostr \<Rightarrow> int \<Rightarrow> int \<Rightarrow> float64 \<Rightarrow> UsageRecord" where
  "NewUsageRecord now orgID providerID modelName inputTokens outputTokens costUSD =
     \<lparr>ur_ID = 0, ur_OrganizationID = None, ur_UserID = None, ur_APIKeyID = [], ur_Model = modelName,
      ur_InputTokens = inputTokens, ur_OutputTokens = outputTokens, ur_Cost = costUSD,
      ur_Period = ''hourly'', ur_CreatedAt = now\<rparr>"

section \<open>Windows\<close>

definition getWindowStart :: "location \<Rightarrow> gtime \<Rightarrow> BudgetPeriod \<Rightarrow> gtime" where
  "getWindowStart loc now period = (case period of
     BudgetPeriodDaily \<Rightarrow> (case date_of loc now of (y, m, d) \<Rightarrow> time_date loc y m d 0)
   | BudgetPeriodWeekly \<Rightarrow>
       (let startOfWeek = add_date loc now 0 0 (- weekday (local_day loc now))
        in case date_of loc startOfWeek of (y, m, d) \<Rightarrow> time_date loc y m d 0)
   | BudgetPeriodMonthly \<Rightarrow> (case date_of loc now of (y, m, d) \<Rightarrow> time_date loc y m 1 0)
   | OtherPeriod _ \<Rightarrow> now)"

definition getWindowEnd :: "location \<Rightarrow> gtime \<Rightarrow> BudgetPeriod \<Rightarrow> gtime" where
  "getWindowEnd loc now period = (let start = getWindowStart loc now period in case period of
     BudgetPeriodDaily \<Rightarrow> time_add start (24 * hour)
   | BudgetPeriodWeekly \<Rightarrow> time_add start (7 * 24 * hour)
   | BudgetPeriodMonthly \<Rightarrow> add_date loc start 0 1 0
   | OtherPeriod _ \<Rightarrow> time_add start (24 * hour))"

definition new_usage :: "location \<Rightarrow> gtime \<Rightarrow> BudgetPeriod \<Rightarrow> BudgetUsage" where
  "new_usage loc now period =
     \<lparr>bu_Period = period, bu_SpentUSD = 0, bu_InputTokens = 0, bu_OutputTokens = 0, bu_TotalTokens = 0,
      bu_RequestCount = 0, bu_ModelUsage = Map.empty, bu_ProviderUsage = Map.empty,
      bu_WindowStart = getWindowStart loc now period, bu_WindowEnd = getWindowEnd loc now period\<rparr>"

section \<open>Operations\<close>

definition budget_SetLimit :: "location \<Rightarrow> gtime \<Rightarrow> BudgetPeriod \<Rightarrow> BudgetLimit \<Rightarrow> OrganizationBudget \<Rightarrow> OrganizationBudget" where
  "budget_SetLimit loc now period limit b =
     (let b = b\<lparr>ob_Limits := (ob_Limits b)(period \<mapsto> limit), ob_UpdatedAt := now\<rparr>
      in if ob_Usage b period = None
         then b\<lparr>ob_Usage := (ob_Usage b)(period \<mapsto> new_usage loc now period)\<rparr> else b)"

definition resetUsage :: "location \<Rightarrow> gtime \<Rightarrow> BudgetPeriod \<Rightarrow> OrganizationBudget \<Rightarrow> OrganizationBudget" where
  "resetUsage loc now period b =
     b\<lparr>ob_Usage := (ob_Usage b)(period \<mapsto> new_usage loc now period),
       ob_AlertsSent := (ob_AlertsSent b)(period \<mapsto> False),
       ob_LastReset := (ob_LastReset b)(period \<mapsto> now)\<rparr>"

definition budget_ResetUsage :: "location \<Rightarrow> gtime \<Rightarrow> BudgetPeriod \<Rightarrow> OrganizationBudget \<Rightarrow> OrganizationBudget" where
  "budget_ResetUsage loc now period b = resetUsage loc now period b"

text \<open>The alert is due when the share of the amount, or else of the tokens, reaches the threshold.\<close>

definition alert_percentage :: "BudgetLimit \<Rightarrow> BudgetUsage \<Rightarrow> float64" where
  "alert_percentage limit usage =
     (if bl_AmountUSD limit > 0 then fmul (fdiv (bu_SpentUSD usage) (bl_AmountUSD limit)) 100
      else if bl_TokenLimit limit > 0
      then fmul (fdiv (float_of_int (bu_TotalTokens usage)) (float_of_int (bl_TokenLimit limit))) 100
      else 0)"

definition checkAlerts :: "BudgetPeriod \<Rightarrow> OrganizationBudget \<Rightarrow> OrganizationBudget" where
  "checkAlerts period b = (case (ob_Limits b period, ob_Usage b period) of
     (Some limit, Some usage) \<Rightarrow>
       if map_get False (ob_AlertsSent b) period then b
       else if alert_percentage limit usage \<ge> fmul (bl_AlertThreshold limit) 100
       then b\<lparr>ob_AlertsSent := (ob_AlertsSent b)(period \<mapsto> True)\<rparr> else b
   | _ \<Rightarrow> b)"

definition record_model :: "UsageRecord \<Rightarrow> (gostr, ModelUsage) gomap \<Rightarrow> (gostr, ModelUsage) gomap" where
  "record_model r m = (let name = ur_Model r in case m name of
     Some u \<Rightarrow> m(name \<mapsto> u
       \<lparr>mu_InputTokens := wrap64 (mu_InputTokens u + ur_InputTokens r),
        mu_OutputTokens := wrap64 (mu_OutputTokens u + ur_OutputTokens r),
        mu_TotalTokens := wrap64 (mu_TotalTokens u + wrap64 (ur_InputTokens r + ur_OutputTokens r)),
        mu_RequestCount := wrap64 (mu_RequestCount u + 1),
        mu_CostUSD := fadd (mu_CostUSD u) (ur_Cost r)\<rparr>)
   | None \<Rightarrow> m(name \<mapsto>
       \<lparr>mu_ModelName = name, mu_InputTokens = ur_InputTokens r, mu_OutputTokens = ur_OutputTokens r,
        mu_TotalTokens = wrap64 (ur_InputTokens r + ur_OutputTokens r), mu_RequestCount = 1,
        mu_CostUSD = ur_Cost r\<rparr>))"

definition record_provider :: "UsageRecord \<Rightarrow> (gostr, ProviderUsage) gomap \<Rightarrow> (gostr, ProviderUsage) gomap" where
  "record_provider r m = (let pid = ur_APIKeyID r in case m pid of
     Some u \<Rightarrow> m(pid \<mapsto> u
       \<lparr>pu_InputTokens := wrap64 (pu_InputTokens u + ur_InputTokens r),
        pu_OutputTokens := wrap64 (pu_OutputTokens u + ur_OutputTokens r),
        pu_TotalTokens := wrap64 (pu_TotalTokens u + wrap64 (ur_InputTokens r + ur_OutputTokens r)),
        pu_RequestCount := wrap64 (pu_RequestCount u + 1),
        pu_CostUSD := fadd (pu_CostUSD u) (ur_Cost r)\<rparr>)
   | None \<Rightarrow> m(pid \<mapsto>
       \<lparr>pu_ProviderID = pid, pu_InputTokens = ur_InputTokens r, pu_OutputTokens = ur_OutputTokens r,
        pu_TotalTokens = wrap64 (ur_InputTokens r + ur_OutputTokens r), pu_RequestCount = 1,
        pu_CostUSD = ur_Cost r\<rparr>))"

definition record_usage :: "UsageRecord \<Rightarrow> BudgetUsage \<Rightarrow> BudgetUsage" where
  "record_usage r u = u
     \<lparr>bu_SpentUSD := fadd (bu_SpentUSD u) (ur_Cost r),
      bu_InputTokens := wrap64 (bu_InputTokens u + ur_InputTokens r),
      bu_OutputTokens := wrap64 (bu_OutputTokens u + ur_OutputTokens r),
      bu_TotalTokens := wrap64 (bu_TotalTokens u + wrap64 (ur_InputTokens r + ur_OutputTokens r)),
      bu_RequestCount := wrap64 (bu_RequestCount u + 1),
      bu_ModelUsage := record_model r (bu_ModelUsage u),
      bu_ProviderUsage := record_provider r (bu_ProviderUsage u)\<rparr>"

text \<open>One round of the loop of \<open>RecordUsage\<close>: create the usage, reset it when its window has passed, record.\<close>

definition record_period :: "location \<Rightarrow> gtime \<Rightarrow> UsageRecord \<Rightarrow> BudgetPeriod \<Rightarrow> OrganizationBudget \<Rightarrow> OrganizationBudget" where
  "record_period loc now r period b =
     (let b = (if ob_Usage b period = None
               then b\<lparr>ob_Usage := (ob_Usage b)(period \<mapsto> new_usage loc now period)\<rparr> else b);
          b = (if time_after now (bu_WindowEnd (the (ob_Usage b period))) then resetUsage loc now period b else b);
          b = b\<lparr>ob_Usage := (ob_Usage b)(period \<mapsto> record_usage r (the (ob_Usage b period)))\<rparr>
      in checkAlerts period b)"

definition budget_RecordUsage :: "location \<Rightarrow> gtime \<Rightarrow> UsageRecord \<Rightarrow> OrganizationBudget \<Rightarrow> OrganizationBudget" where
  "budget_RecordUsage loc now r b =
     (fold (record_period loc now r) [BudgetPeriodDaily, BudgetPeriodWeekly, BudgetPeriodMonthly] b)
     \<lparr>ob_UpdatedAt := now\<rparr>"

text \<open>The loop of \<open>CheckBudget\<close> over the limits in the order \<open>ks\<close> of the map.\<close>

definition check_usd :: "BudgetPeriod \<Rightarrow> BudgetLimit \<Rightarrow> BudgetUsage \<Rightarrow> BudgetCheckResult \<Rightarrow> BudgetCheckResult + BudgetCheckResult" where
  "check_usd period limit usage res =
     (if bl_AmountUSD limit > 0 then
        let remaining = fsub (bl_AmountUSD limit) (bu_SpentUSD usage) in
        if remaining \<le> 0
        then Inl (res\<lparr>bc_Allowed := False, bc_Reason := ''budget_exceeded'', bc_LimitType := ''usd'',
                       bc_LimitPeriod := Some period\<rparr>)
        else if remaining < bc_RemainingUSD res \<or> bc_RemainingUSD res = 0
        then Inr (res\<lparr>bc_RemainingUSD := remaining\<rparr>) else Inr res
      else Inr res)"

definition check_tokens :: "BudgetPeriod \<Rightarrow> BudgetLimit \<Rightarrow> BudgetUsage \<Rightarrow> BudgetCheckResult \<Rightarrow> BudgetCheckResult + BudgetCheckResult" where
  "check_tokens period limit usage res =
     (if bl_TokenLimit limit > 0 then
        let remaining = wrap64 (bl_TokenLimit limit - bu_TotalTokens usage) in
        if remaining \<le> 0
        then Inl (res\<lparr>bc_Allowed := False, bc_Reason := ''token_limit_exceeded'', bc_LimitType := ''tokens'',
                       bc_LimitPeriod := Some period\<rparr>)
        else if remaining < bc_RemainingTokens res \<or> bc_RemainingTokens res = 0
        then Inr (res\<lparr>bc_RemainingTokens := remaining\<rparr>) else Inr res
      else Inr res)"

fun check_periods :: "OrganizationBudget \<Rightarrow> (BudgetPeriod \<times> BudgetLimit) list \<Rightarrow> BudgetCheckResult \<Rightarrow> BudgetCheckResult" where
  "check_periods b [] res = res"
| "check_periods b ((period, limit) # ls) res = (case ob_Usage b period of
     None \<Rightarrow> check_periods b ls res
   | Some usage \<Rightarrow> (case check_usd period limit usage res of
       Inl r \<Rightarrow> r
     | Inr res \<Rightarrow> (case check_tokens period limit usage res of
         Inl r \<Rightarrow> r
       | Inr res \<Rightarrow> check_periods b ls res)))"

definition budget_CheckBudget ::
  "BudgetPeriod list \<Rightarrow> OrganizationBudget \<Rightarrow> gostr \<Rightarrow> gostr \<Rightarrow> int \<Rightarrow> BudgetCheckResult" where
  "budget_CheckBudget ks b providerID modelName estimatedTokens =
     check_periods b (range_of ks (ob_Limits b))
       \<lparr>bc_Allowed = True, bc_Reason = [], bc_LimitType = [], bc_LimitPeriod = None,
        bc_EstimatedCostUSD = fmul (float_of_int estimatedTokens) (fl (1 / 100000)),
        bc_RemainingUSD = 0, bc_RemainingTokens = 0\<rparr>"

definition budget_GetUsage :: "BudgetPeriod \<Rightarrow> OrganizationBudget \<Rightarrow> BudgetUsage option" where
  "budget_GetUsage period b = ob_Usage b period"

definition budget_GetAllUsage :: "OrganizationBudget \<Rightarrow> (BudgetPeriod, BudgetUsage) gomap" where
  "budget_GetAllUsage b = ob_Usage b"

definition budget_GetLimits :: "OrganizationBudget \<Rightarrow> (BudgetPeriod, BudgetLimit) gomap" where
  "budget_GetLimits b = ob_Limits b"

definition budget_GetAlertStatus :: "OrganizationBudget \<Rightarrow> (BudgetPeriod, bool) gomap" where
  "budget_GetAlertStatus b = ob_AlertsSent b"

text \<open>
  \<open>GetUsagePercentages\<close> computes the percentages of each period and drops them: the loop
  never stores into the result.
\<close>

definition usage_percentage :: "gtime \<Rightarrow> OrganizationBudget \<Rightarrow> BudgetPeriod \<Rightarrow> UsagePercentage" where
  "usage_percentage now b period =
     (let pct = \<lparr>up_Period = period, up_USD = 0, up_Tokens = 0, up_RequestCount = 0, up_WindowStart = zero_time,
                 up_WindowEnd = zero_time, up_WindowRemaining = 0\<rparr>
      in case ob_Usage b period of
        None \<Rightarrow> pct
      | Some usage \<Rightarrow>
          let pct = (case ob_Limits b period of
                None \<Rightarrow> pct
              | Some limit \<Rightarrow>
                  let pct = (if bl_AmountUSD limit > 0
                             then pct\<lparr>up_USD := fmul (fdiv (bu_SpentUSD usage) (bl_AmountUSD limit)) 100\<rparr> else pct)
                  in if bl_TokenLimit limit > 0
                     then pct\<lparr>up_Tokens := fmul (fdiv (float_of_int (bu_TotalTokens usage)) (float_of_int (bl_TokenLimit limit))) 100\<rparr>
                     else pct)
          in pct\<lparr>up_RequestCount := bu_RequestCount usage, up_WindowStart := bu_WindowStart usage,
                 up_WindowEnd := bu_WindowEnd usage, up_WindowRemaining := time_sub (bu_WindowEnd usage) now\<rparr>)"

definition budget_GetUsagePercentages ::
  "gtime \<Rightarrow> BudgetPeriod list \<Rightarrow> OrganizationBudget \<Rightarrow> (BudgetPeriod, UsagePercentage) gomap" where
  "budget_GetUsagePercentages now ks b =
     fold (\<lambda>period result. let pct = usage_percentage now b period in result) ks Map.empty"

section \<open>Windows enclose the present\<close>

lemma daily_start: "getWindowStart (fixed_zone off) now BudgetPeriodDaily = local_day (fixed_zone off) now * day_ns - off"
  by (cases "date_of (fixed_zone off) now") (simp add: getWindowStart_def fixed_zone_date day_number_date)

lemma weekly_start:
  "getWindowStart (fixed_zone off) now BudgetPeriodWeekly = (local_day (fixed_zone off) now - weekday (local_day (fixed_zone off) now)) * day_ns - off"
proof -
  let ?w = "weekday (local_day (fixed_zone off) now)" and ?t = "add_date (fixed_zone off) now 0 0 (- weekday (local_day (fixed_zone off) now))"
  obtain y m d where d: "date_of (fixed_zone off) ?t = (y, m, d)" by (cases "date_of (fixed_zone off) ?t")
  have "?t + off = (local_day (fixed_zone off) now - ?w) * day_ns + time_of_day (fixed_zone off) now"
    using local_split [of now off] by (simp add: add_date_days left_diff_distrib)
  then have "local_day (fixed_zone off) ?t = local_day (fixed_zone off) now - ?w"
    using local_day_unique [of ?t off "local_day (fixed_zone off) now - ?w" "time_of_day (fixed_zone off) now"] by simp
  then show ?thesis using day_number_date [OF d] by (simp add: getWindowStart_def Let_def d fixed_zone_date)
qed

lemma month_end:
  assumes "date_of (fixed_zone off) now = (y, m, d)"
  shows "getWindowEnd (fixed_zone off) now BudgetPeriodMonthly = time_date (fixed_zone off) y (m + 1) 1 0"
proof -
  have "1 \<le> m" "m \<le> 12" using civil_month_range assms unfolding date_of_def by blast+
  then have "date_of (fixed_zone off) (time_date (fixed_zone off) y m 1 0) = (y, m, 1)"
    unfolding date_of_def using local_day_date [of 0 off y m 1] civil_first [of m y] by simp
  then show ?thesis using assms
    by (simp add: getWindowEnd_def getWindowStart_def Let_def add_date_def)
qed

lemma window_encloses: "getWindowStart (fixed_zone off) now p \<le> now" "now < getWindowEnd (fixed_zone off) now p"
proof -
  have h: "24 * hour = day_ns" by (simp add: day_ns_def)
  have "getWindowStart (fixed_zone off) now p \<le> now \<and> now < getWindowEnd (fixed_zone off) now p"
  proof (cases p)
    case BudgetPeriodDaily
    then show ?thesis using local_split [of now off] time_of_day_bounds [of "fixed_zone off" now]
      unfolding getWindowEnd_def by (simp add: daily_start h del: time_of_day_bounds)
  next
    case BudgetPeriodWeekly
    let ?w = "weekday (local_day (fixed_zone off) now)"
    have w: "0 \<le> ?w" "?w \<le> 6" using pos_mod_bound [of 7 "local_day (fixed_zone off) now + 1"] unfolding weekday_def by simp_all
    then have "0 \<le> ?w * day_ns" "?w * day_ns \<le> 6 * day_ns" by (simp_all add: mult_right_mono)
    moreover have "now = local_day (fixed_zone off) now * day_ns + time_of_day (fixed_zone off) now - off" using local_split [of now off] by linarith
    moreover have "getWindowEnd (fixed_zone off) now p = getWindowStart (fixed_zone off) now p + 7 * day_ns"
      using BudgetPeriodWeekly by (simp add: getWindowEnd_def Let_def day_ns_def)
    moreover have "getWindowStart (fixed_zone off) now p = local_day (fixed_zone off) now * day_ns - ?w * day_ns - off"
      using BudgetPeriodWeekly by (simp add: weekly_start left_diff_distrib)
    ultimately show ?thesis using time_of_day_bounds [of "fixed_zone off" now] by linarith
  next
    case BudgetPeriodMonthly
    obtain y m d where d: "date_of (fixed_zone off) now = (y, m, d)" by (cases "date_of (fixed_zone off) now")
    note e = month_encloses [OF d [unfolded date_of_def]]
    have "getWindowStart (fixed_zone off) now p = time_date (fixed_zone off) y m 1 0" using BudgetPeriodMonthly d by (simp add: getWindowStart_def)
    then show ?thesis using BudgetPeriodMonthly midnight_le [OF e(1)] midnight_gt [OF e(2)] by (simp add: month_end [OF d])
  next
    case (OtherPeriod s)
    then show ?thesis by (simp add: getWindowEnd_def getWindowStart_def hour_def)
  qed
  then show "getWindowStart (fixed_zone off) now p \<le> now" "now < getWindowEnd (fixed_zone off) now p" by simp_all
qed

text \<open>
  The windows of a period do not overlap: an instant from the start of a window up to, but
  not including, its end lies in the same window.
\<close>

lemma sunday_before: "(w + 1) mod 7 = 0 \<Longrightarrow> w \<le> d \<Longrightarrow> d < w + 7 \<Longrightarrow> d - weekday d = w"
proof -
  assume a: "(w + 1) mod 7 = 0" "w \<le> d" "d < w + 7"
  have "(d + 1) mod 7 = ((w + 1) + (d - w)) mod 7" by (simp add: add.commute)
  also have "\<dots> = (d - w) mod 7" using a(1) by (metis add_0 mod_add_left_eq)
  also have "\<dots> = d - w" using a by simp
  finally show ?thesis by (simp add: weekday_def)
qed

lemma window_same:
  assumes "getWindowStart (fixed_zone off) now p \<le> t" "t < getWindowEnd (fixed_zone off) now p"
    and p: "p \<in> {BudgetPeriodDaily, BudgetPeriodWeekly, BudgetPeriodMonthly}"
  shows "getWindowStart (fixed_zone off) t p = getWindowStart (fixed_zone off) now p"
proof -
  let ?D = "local_day (fixed_zone off) now" and ?L = "local_day (fixed_zone off) t"
  from p consider "p = BudgetPeriodDaily" | "p = BudgetPeriodWeekly" | "p = BudgetPeriodMonthly" by blast
  then show ?thesis
  proof cases
    case 1
    then have "?D \<le> ?L" "?L < ?D + 1"
      using assms(1,2) local_day_ge [of ?D off t] local_day_less [of t "?D + 1" off]
      by (simp_all add: getWindowEnd_def daily_start day_ns_def [symmetric] distrib_right)
    then show ?thesis using 1 by (simp add: daily_start)
  next
    case 2
    let ?W = "?D - weekday ?D"
    have "getWindowEnd (fixed_zone off) now p = getWindowStart (fixed_zone off) now p + 7 * day_ns"
      using 2 by (simp add: getWindowEnd_def Let_def day_ns_def)
    then have "?W \<le> ?L" "?L < ?W + 7"
      using assms(1,2) local_day_ge [of ?W off t] local_day_less [of t "?W + 7" off] 2
      by (simp_all add: weekly_start distrib_right)
    moreover have "(?W + 1) mod 7 = 0" unfolding weekday_def by presburger
    ultimately have "?L - weekday ?L = ?W" using sunday_before [of ?W ?L] by simp
    then show ?thesis using 2 by (simp add: weekly_start)
  next
    case 3
    obtain y m d where d: "date_of (fixed_zone off) now = (y, m, d)" by (cases "date_of (fixed_zone off) now")
    obtain z n k where k: "date_of (fixed_zone off) t = (z, n, k)" by (cases "date_of (fixed_zone off) t")
    have "day_number y m 1 \<le> ?L" "?L < day_number y (m + 1) 1"
      using assms(1,2) 3 month_end [OF d] local_day_ge [of _ off t] local_day_less [of t _ off]
      by (simp_all add: getWindowStart_def d fixed_zone_date)
    then have "z = y \<and> n = m"
      using civil_month_unique civil_month_range d k unfolding date_of_def by blast
    then show ?thesis using 3 d k by (simp add: getWindowStart_def)
  qed
qed

section \<open>The ledger\<close>

text \<open>
  What the counters stand for: per period the window under way and the records of usage that
  fell into it, and their totals, computed over the whole list.
\<close>

record period_log =
  pl_Start :: gtime
  pl_End :: gtime
  pl_Records :: "UsageRecord list"

datatype budget_op = SetLimitOp BudgetPeriod BudgetLimit | RecordUsageOp UsageRecord | ResetUsageOp BudgetPeriod

definition apply_op :: "location \<Rightarrow> gtime \<times> budget_op \<Rightarrow> OrganizationBudget \<Rightarrow> OrganizationBudget" where
  "apply_op loc e b = (case snd e of
     SetLimitOp p l \<Rightarrow> budget_SetLimit loc (fst e) p l b
   | RecordUsageOp r \<Rightarrow> budget_RecordUsage loc (fst e) r b
   | ResetUsageOp p \<Rightarrow> budget_ResetUsage loc (fst e) p b)"

definition tracked_periods :: "BudgetPeriod list" where
  "tracked_periods = [BudgetPeriodDaily, BudgetPeriodWeekly, BudgetPeriodMonthly]"

definition open_log :: "location \<Rightarrow> gtime \<Rightarrow> BudgetPeriod \<Rightarrow> UsageRecord list \<Rightarrow> period_log" where
  "open_log loc now p rs = \<lparr>pl_Start = getWindowStart loc now p, pl_End = getWindowEnd loc now p, pl_Records = rs\<rparr>"

definition log_record :: "location \<Rightarrow> gtime \<Rightarrow> UsageRecord \<Rightarrow> BudgetPeriod \<Rightarrow> period_log option \<Rightarrow> period_log" where
  "log_record loc now r p lo = (case lo of
     Some l \<Rightarrow> if now \<le> pl_End l then l\<lparr>pl_Records := pl_Records l @ [r]\<rparr> else open_log loc now p [r]
   | None \<Rightarrow> open_log loc now p [r])"

definition ledger_step :: "location \<Rightarrow> gtime \<times> budget_op \<Rightarrow> (BudgetPeriod \<rightharpoonup> period_log) \<Rightarrow> (BudgetPeriod \<rightharpoonup> period_log)" where
  "ledger_step loc e lg = (case snd e of
     SetLimitOp p l \<Rightarrow> if lg p = None then lg(p \<mapsto> open_log loc (fst e) p []) else lg
   | RecordUsageOp r \<Rightarrow> (\<lambda>p. if p \<in> set tracked_periods then Some (log_record loc (fst e) r p (lg p)) else lg p)
   | ResetUsageOp p \<Rightarrow> lg(p \<mapsto> open_log loc (fst e) p []))"

definition tokens_of :: "(UsageRecord \<Rightarrow> int) \<Rightarrow> UsageRecord list \<Rightarrow> int" where
  "tokens_of f rs = wrap64 (sum_list (map f rs))"

definition cost_of :: "UsageRecord list \<Rightarrow> float64" where
  "cost_of rs = foldl fadd 0 (map ur_Cost rs)"

definition model_total :: "gostr \<Rightarrow> UsageRecord list \<Rightarrow> ModelUsage" where
  "model_total m rs =
     \<lparr>mu_ModelName = m, mu_InputTokens = tokens_of ur_InputTokens rs, mu_OutputTokens = tokens_of ur_OutputTokens rs,
      mu_TotalTokens = tokens_of (\<lambda>r. ur_InputTokens r + ur_OutputTokens r) rs,
      mu_RequestCount = tokens_of (\<lambda>r. 1) rs, mu_CostUSD = cost_of rs\<rparr>"

definition provider_total :: "gostr \<Rightarrow> UsageRecord list \<Rightarrow> ProviderUsage" where
  "provider_total k rs =
     \<lparr>pu_ProviderID = k, pu_InputTokens = tokens_of ur_InputTokens rs, pu_OutputTokens = tokens_of ur_OutputTokens rs,
      pu_TotalTokens = tokens_of (\<lambda>r. ur_InputTokens r + ur_OutputTokens r) rs,
      pu_RequestCount = tokens_of (\<lambda>r. 1) rs, pu_CostUSD = cost_of rs\<rparr>"

definition attributed :: "(UsageRecord \<Rightarrow> gostr) \<Rightarrow> (gostr \<Rightarrow> UsageRecord list \<Rightarrow> 'u) \<Rightarrow> UsageRecord list \<Rightarrow> (gostr, 'u) gomap" where
  "attributed key tot rs = (\<lambda>k. let ks = filter (\<lambda>r. key r = k) rs in if ks = [] then None else Some (tot k ks))"

definition usage_total :: "BudgetPeriod \<Rightarrow> period_log \<Rightarrow> BudgetUsage" where
  "usage_total p l = (let rs = pl_Records l in
     \<lparr>bu_Period = p, bu_SpentUSD = cost_of rs, bu_InputTokens = tokens_of ur_InputTokens rs,
      bu_OutputTokens = tokens_of ur_OutputTokens rs,
      bu_TotalTokens = tokens_of (\<lambda>r. ur_InputTokens r + ur_OutputTokens r) rs,
      bu_RequestCount = tokens_of (\<lambda>r. 1) rs,
      bu_ModelUsage = attributed ur_Model model_total rs,
      bu_ProviderUsage = attributed ur_APIKeyID provider_total rs,
      bu_WindowStart = pl_Start l, bu_WindowEnd = pl_End l\<rparr>)"

definition valid_record :: "UsageRecord \<Rightarrow> bool" where
  "valid_record r \<longleftrightarrow> is_int64 (ur_InputTokens r) \<and> is_int64 (ur_OutputTokens r) \<and> is_float64 (ur_Cost r)"

fun records_of :: "budget_op \<Rightarrow> UsageRecord list" where
  "records_of (RecordUsageOp r) = [r]"
| "records_of _ = []"

section \<open>The counters agree with the ledger\<close>

lemma tokens_of_Nil [simp]: "tokens_of f [] = 0"
  by (simp add: tokens_of_def wrap64_def)

lemma tokens_of_snoc: "wrap64 (tokens_of f rs + f r) = tokens_of f (rs @ [r])"
  by (simp add: tokens_of_def wrap64_add)

lemma wrap64_one [simp]: "wrap64 1 = 1"
  by (rule wrap64_id) (simp add: is_int64_def)

lemma tokens_of_single [simp]: "tokens_of f [r] = wrap64 (f r)"
  by (simp add: tokens_of_def)

lemma cost_of_Nil [simp]: "cost_of [] = 0"
  by (simp add: cost_of_def)

lemma cost_of_snoc [simp]: "cost_of (rs @ [r]) = fadd (cost_of rs) (ur_Cost r)"
  by (simp add: cost_of_def)

lemma is_float64_cost_of [simp]: "is_float64 (cost_of rs)"
  by (induction rs rule: rev_induct) simp_all

lemma attributed_snoc:
  "attributed key tot (rs @ [r]) = (attributed key tot rs)(key r \<mapsto> tot (key r) (filter (\<lambda>x. key x = key r) rs @ [r]))"
  by (auto simp: attributed_def Let_def fun_eq_iff)

lemma cost_of_single: "valid_record r \<Longrightarrow> cost_of [r] = ur_Cost r"
  using cost_of_snoc [of "[]" r] by (simp add: valid_record_def fadd_def is_float64_def)

lemma record_model_total:
  assumes "valid_record r"
  shows "record_model r (attributed ur_Model model_total rs) = attributed ur_Model model_total (rs @ [r])"
proof (cases "filter (\<lambda>x. ur_Model x = ur_Model r) rs = []")
  case True
  then show ?thesis using assms
    unfolding record_model_def attributed_snoc
    by (simp add: Let_def attributed_def model_total_def cost_of_single) (simp add: valid_record_def)
next
  case False
  then show ?thesis unfolding record_model_def attributed_snoc
    by (simp add: Let_def attributed_def model_total_def tokens_of_snoc [symmetric] wrap64_add)
qed

lemma record_provider_total:
  assumes "valid_record r"
  shows "record_provider r (attributed ur_APIKeyID provider_total rs) = attributed ur_APIKeyID provider_total (rs @ [r])"
proof (cases "filter (\<lambda>x. ur_APIKeyID x = ur_APIKeyID r) rs = []")
  case True
  then show ?thesis using assms
    unfolding record_provider_def attributed_snoc
    by (simp add: Let_def attributed_def provider_total_def cost_of_single) (simp add: valid_record_def)
next
  case False
  then show ?thesis unfolding record_provider_def attributed_snoc
    by (simp add: Let_def attributed_def provider_total_def tokens_of_snoc [symmetric] wrap64_add)
qed

lemma record_usage_total:
  "valid_record r \<Longrightarrow> record_usage r (usage_total p l) = usage_total p (l\<lparr>pl_Records := pl_Records l @ [r]\<rparr>)"
  by (simp add: record_usage_def usage_total_def Let_def record_model_total record_provider_total
      tokens_of_snoc [symmetric] wrap64_add)

lemma usage_total_window [simp]: "bu_WindowEnd (usage_total p l) = pl_End l" "bu_WindowStart (usage_total p l) = pl_Start l"
  by (simp_all add: usage_total_def Let_def)

lemma new_usage_total: "new_usage loc now p = usage_total p (open_log loc now p [])"
  by (simp add: new_usage_def usage_total_def open_log_def attributed_def)

lemma checkAlerts_usage [simp]: "ob_Usage (checkAlerts p b) = ob_Usage b" "ob_Limits (checkAlerts p b) = ob_Limits b"
  by (auto simp: checkAlerts_def split: option.split)

lemma record_period_usage:
  assumes "valid_record r" "ob_Usage b p = map_option (usage_total p) lo"
  shows "ob_Usage (record_period loc now r p b) = (ob_Usage b)(p \<mapsto> usage_total p (log_record loc now r p lo))"
  using assms by (cases lo) (auto simp: record_period_def Let_def new_usage_total record_usage_total log_record_def
      open_log_def resetUsage_def not_le)

definition counters_agree :: "OrganizationBudget \<Rightarrow> (BudgetPeriod \<rightharpoonup> period_log) \<Rightarrow> bool" where
  "counters_agree b lg \<longleftrightarrow> (\<forall>p. ob_Usage b p = map_option (usage_total p) (lg p))"

lemma RecordUsage_agrees:
  assumes "valid_record r" "counters_agree b lg"
  shows "counters_agree (budget_RecordUsage loc now r b) (ledger_step loc (now, RecordUsageOp r) lg)"
proof -
  have a: "ob_Usage b p = map_option (usage_total p) (lg p)" for p using assms(2) by (simp add: counters_agree_def)
  let ?b1 = "record_period loc now r BudgetPeriodDaily b"
  let ?b2 = "record_period loc now r BudgetPeriodWeekly ?b1"
  note s1 = record_period_usage [OF assms(1) a, of loc now BudgetPeriodDaily]
  have s2: "ob_Usage ?b2 = (ob_Usage ?b1)(BudgetPeriodWeekly \<mapsto> usage_total BudgetPeriodWeekly (log_record loc now r BudgetPeriodWeekly (lg BudgetPeriodWeekly)))"
    by (rule record_period_usage [OF assms(1)]) (simp add: s1 a)
  have s3: "ob_Usage (record_period loc now r BudgetPeriodMonthly ?b2) = (ob_Usage ?b2)(BudgetPeriodMonthly \<mapsto> usage_total BudgetPeriodMonthly (log_record loc now r BudgetPeriodMonthly (lg BudgetPeriodMonthly)))"
    by (rule record_period_usage [OF assms(1)]) (simp add: s1 s2 a)
  show ?thesis unfolding counters_agree_def
  proof
    fix p
    show "ob_Usage (budget_RecordUsage loc now r b) p = map_option (usage_total p) (ledger_step loc (now, RecordUsageOp r) lg p)"
      by (cases p) (simp_all add: budget_RecordUsage_def ledger_step_def tracked_periods_def s1 s2 s3 a)
  qed
qed

lemma apply_op_agrees:
  assumes "\<forall>r \<in> set (records_of (snd e)). valid_record r" "counters_agree b lg"
  shows "counters_agree (apply_op loc e b) (ledger_step loc e lg)"
proof (cases "snd e")
  case (RecordUsageOp r)
  then show ?thesis using RecordUsage_agrees [of r b lg loc "fst e"] assms
    by (simp add: apply_op_def) (metis prod.collapse)
qed (use assms(2) in \<open>auto simp: apply_op_def ledger_step_def counters_agree_def budget_SetLimit_def budget_ResetUsage_def
    resetUsage_def Let_def new_usage_total\<close>)

lemma run_agrees:
  assumes "\<forall>e \<in> set es. \<forall>r \<in> set (records_of (snd e)). valid_record r"
  shows "counters_agree (fold (apply_op loc) es (NewOrganizationBudget now orgID)) (fold (ledger_step loc) es Map.empty)"
proof -
  have "counters_agree (fold (apply_op loc) es b) (fold (ledger_step loc) es lg)" if "counters_agree b lg" for b lg
    using that assms by (induction es arbitrary: b lg) (simp_all add: apply_op_agrees)
  then show ?thesis by (simp add: counters_agree_def NewOrganizationBudget_def)
qed

text \<open>C4: The usage that a budget reports for a period, after any sequence of limits, recordings and
  resets, is the summary of its ledger: the window under way and exactly the records that fell into
  it, with their token totals modulo the width of \<open>int64\<close>, their costs added in order, and the same
  for every model and every API key.\<close>

theorem budget_refines_ledger:
  assumes "\<forall>e \<in> set es. \<forall>r \<in> set (records_of (snd e)). valid_record r"
  shows "ob_Usage (fold (apply_op loc) es (NewOrganizationBudget now orgID)) p
       = map_option (usage_total p) (fold (ledger_step loc) es Map.empty p)"
  using run_agrees [OF assms, of loc now orgID] by (simp add: counters_agree_def)

definition demo_record :: "gostr \<Rightarrow> int \<Rightarrow> UsageRecord" where
  "demo_record m n = NewUsageRecord 5 ''org'' ''p'' m n 1 (1 / 4)"

theorem budget_refines_ledger_witness:
  "ob_Usage (fold (apply_op (fixed_zone 0)) [(5, RecordUsageOp (demo_record ''a'' 7))] (NewOrganizationBudget 0 ''org'')) BudgetPeriodWeekly
     = map_option (usage_total BudgetPeriodWeekly)
         (fold (ledger_step (fixed_zone 0)) [(5, RecordUsageOp (demo_record ''a'' 7))] Map.empty BudgetPeriodWeekly)"
proof (rule budget_refines_ledger)
  have "fl (of_int 1 * 2 powi (- 2)) = of_int 1 * 2 powi (- 2)" by (rule fl_exact) simp_all
  then have "is_float64 (1 / 4)" by (simp add: is_float64_def power_int_minus)
  then show "\<forall>e \<in> set [(5, RecordUsageOp (demo_record ''a'' 7))]. \<forall>r \<in> set (records_of (snd e)). valid_record r"
    by (simp add: valid_record_def demo_record_def NewUsageRecord_def is_int64_def)
qed

text \<open>Per model and per key the tokens add up to the total.\<close>

lemma attributed_sum:
  fixes f :: "UsageRecord \<Rightarrow> int"
  assumes "distinct ks" "key ` set rs \<subseteq> set ks"
  shows "sum_list (map (\<lambda>k. sum_list (map f (filter (\<lambda>r. key r = k) rs))) ks) = sum_list (map f rs)"
proof -
  have "(\<Sum>k \<in> set ks. sum_list (map f (filter (\<lambda>r. key r = k) rs))) = sum_list (map f rs)"
    using assms(2)
  proof (induction rs)
    case (Cons r rs)
    have "(\<Sum>k \<in> set ks. sum_list (map f (filter (\<lambda>r. key r = k) (r # rs))))
        = (\<Sum>k \<in> set ks. (if key r = k then f r else 0) + sum_list (map f (filter (\<lambda>r. key r = k) rs)))"
      by (rule sum.cong) simp_all
    also have "\<dots> = f r + sum_list (map f rs)" using Cons by (simp add: sum.distrib)
    finally show ?case by simp
  qed simp
  then show ?thesis using assms(1) by (simp add: sum_list_distinct_conv_sum_set)
qed

lemma wrap64_sum_list: "wrap64 (sum_list (map (\<lambda>k. wrap64 (g k)) ks)) = wrap64 (sum_list (map g ks))"
proof (induction ks)
  case (Cons k ks)
  have "wrap64 (sum_list (map (\<lambda>k. wrap64 (g k)) (k # ks))) = wrap64 (g k + wrap64 (sum_list (map (\<lambda>k. wrap64 (g k)) ks)))"
    by (simp add: wrap64_add)
  then show ?case using Cons by (simp add: wrap64_add)
qed simp

lemma dom_attributed: "dom (attributed key tot rs) = key ` set rs"
  by (auto simp: attributed_def Let_def filter_empty_conv split: if_splits)

lemma attributed_tokens:
  assumes "enumerates ks (attributed key tot rs)" "\<And>k rs. g (tot k rs) = tokens_of f rs"
  shows "wrap64 (sum_list (map (\<lambda>k. g (the (attributed key tot rs k))) ks)) = tokens_of f rs"
proof -
  have d: "set ks = key ` set rs" using assms(1) by (simp add: enumerates_def dom_attributed)
  then have "map (\<lambda>k. g (the (attributed key tot rs k))) ks
    = map (\<lambda>k. wrap64 (sum_list (map f (filter (\<lambda>r. key r = k) rs)))) ks"
    by (auto simp: attributed_def Let_def filter_empty_conv assms(2) tokens_of_def)
  then have "wrap64 (sum_list (map (\<lambda>k. g (the (attributed key tot rs k))) ks))
    = wrap64 (sum_list (map (\<lambda>k. sum_list (map f (filter (\<lambda>r. key r = k) rs))) ks))"
    by (simp only: wrap64_sum_list)
  moreover have "distinct ks" using assms(1) by (simp add: enumerates_def)
  ultimately show ?thesis using attributed_sum [of ks key rs f] d by (simp add: tokens_of_def)
qed

lemma total_tokens [simp]:
  "mu_TotalTokens (model_total k rs) = tokens_of (\<lambda>r. ur_InputTokens r + ur_OutputTokens r) rs"
  "pu_TotalTokens (provider_total k rs) = tokens_of (\<lambda>r. ur_InputTokens r + ur_OutputTokens r) rs"
  by (simp_all add: model_total_def provider_total_def)

text \<open>Nothing is lost in attribution: after any sequence of operations with well-formed records, the
  tokens of a period are the sum over its models and the sum over its API keys, in whatever
  order the maps are ranged over (modulo the width of \<open>int64\<close>).\<close>

theorem budget_attribution_complete:
  assumes "\<forall>e \<in> set es. \<forall>r \<in> set (records_of (snd e)). valid_record r"
    and "ob_Usage (fold (apply_op loc) es (NewOrganizationBudget now orgID)) p = Some u"
    and "enumerates ms (bu_ModelUsage u)" "enumerates ks (bu_ProviderUsage u)"
  shows "bu_TotalTokens u = wrap64 (sum_list (map (\<lambda>m. mu_TotalTokens (the (bu_ModelUsage u m))) ms))
    \<and> bu_TotalTokens u = wrap64 (sum_list (map (\<lambda>k. pu_TotalTokens (the (bu_ProviderUsage u k))) ks))
    \<and> bu_TotalTokens u = wrap64 (bu_InputTokens u + bu_OutputTokens u)"
proof -
  obtain l where u: "u = usage_total p l" using run_agrees [OF assms(1), of loc now orgID] assms(2)
    by (auto simp: counters_agree_def)
  let ?rs = "pl_Records l" and ?f = "\<lambda>r. ur_InputTokens r + ur_OutputTokens r"
  have f: "bu_ModelUsage u = attributed ur_Model model_total ?rs" "bu_ProviderUsage u = attributed ur_APIKeyID provider_total ?rs"
    "bu_TotalTokens u = tokens_of ?f ?rs" "bu_InputTokens u = tokens_of ur_InputTokens ?rs" "bu_OutputTokens u = tokens_of ur_OutputTokens ?rs"
    by (simp_all add: u usage_total_def Let_def)
  have "wrap64 (sum_list (map (\<lambda>m. mu_TotalTokens (the (bu_ModelUsage u m))) ms)) = tokens_of ?f ?rs"
    unfolding f by (rule attributed_tokens) (use assms(3) f in simp_all)
  moreover have "wrap64 (sum_list (map (\<lambda>k. pu_TotalTokens (the (bu_ProviderUsage u k))) ks)) = tokens_of ?f ?rs"
    unfolding f by (rule attributed_tokens) (use assms(4) f in simp_all)
  moreover have "wrap64 (bu_InputTokens u + bu_OutputTokens u) = tokens_of ?f ?rs"
    by (simp add: f tokens_of_def wrap64_add sum_list_addf)
  ultimately show ?thesis by (simp only: f)
qed

text \<open>A budget with two models recorded, for the witnesses below.\<close>

definition demo_ops :: "(gtime \<times> budget_op) list" where
  "demo_ops = [(5, SetLimitOp BudgetPeriodDaily \<lparr>bl_Period = BudgetPeriodDaily, bl_AmountUSD = 0, bl_TokenLimit = 20, bl_AlertThreshold = 1\<rparr>),
     (6, RecordUsageOp (demo_record ''a'' 7)), (7, RecordUsageOp (demo_record ''b'' 3)), (8, RecordUsageOp (demo_record ''a'' 8))]"

lemma demo_ops_valid: "\<forall>e \<in> set demo_ops. \<forall>r \<in> set (records_of (snd e)). valid_record r"
proof -
  have "fl (of_int 1 * 2 powi (- 2)) = of_int 1 * 2 powi (- 2)" by (rule fl_exact) simp_all
  then have "is_float64 (1 / 4)" by (simp add: is_float64_def power_int_minus)
  then show ?thesis by (simp add: demo_ops_def valid_record_def demo_record_def NewUsageRecord_def is_int64_def)
qed

definition demo_log :: period_log where
  "demo_log = open_log (fixed_zone 0) 5 BudgetPeriodDaily [demo_record ''a'' 7, demo_record ''b'' 3, demo_record ''a'' 8]"

lemma demo_ledger: "fold (ledger_step (fixed_zone 0)) demo_ops Map.empty BudgetPeriodDaily = Some demo_log"
proof -
  have "getWindowEnd (fixed_zone 0) 5 BudgetPeriodDaily = day_ns"
    by (simp add: getWindowEnd_def daily_start local_day_def fixed_zone_def day_ns_def hour_def)
  then have w: "6 \<le> getWindowEnd (fixed_zone 0) 5 BudgetPeriodDaily" "7 \<le> getWindowEnd (fixed_zone 0) 5 BudgetPeriodDaily" "8 \<le> getWindowEnd (fixed_zone 0) 5 BudgetPeriodDaily"
    by (simp_all add: day_ns_def hour_def)
  then show ?thesis
    by (simp add: demo_ops_def ledger_step_def tracked_periods_def log_record_def open_log_def demo_log_def)
qed

lemma demo_usage: "ob_Usage (fold (apply_op (fixed_zone 0)) demo_ops (NewOrganizationBudget 0 ''org'')) BudgetPeriodDaily = Some (usage_total BudgetPeriodDaily demo_log)"
  using run_agrees [OF demo_ops_valid, of "fixed_zone 0" 0 "''org''"] demo_ledger by (simp add: counters_agree_def)

theorem budget_attribution_complete_witness:
  "bu_TotalTokens (usage_total BudgetPeriodDaily demo_log)
     = wrap64 (sum_list (map (\<lambda>m. mu_TotalTokens (the (bu_ModelUsage (usage_total BudgetPeriodDaily demo_log) m))) [''b'', ''a'']))"
proof (rule conjunct1, rule budget_attribution_complete [OF demo_ops_valid demo_usage])
  show "enumerates [''b'', ''a''] (bu_ModelUsage (usage_total BudgetPeriodDaily demo_log))"
    "enumerates [[]] (bu_ProviderUsage (usage_total BudgetPeriodDaily demo_log))"
    by (simp_all add: enumerates_def usage_total_def Let_def dom_attributed demo_log_def open_log_def demo_record_def
        NewUsageRecord_def insert_commute)
qed

section \<open>The budget check\<close>

text \<open>A period whose limit is reached.\<close>

definition exhausted :: "OrganizationBudget \<Rightarrow> BudgetPeriod \<Rightarrow> bool" where
  "exhausted b p = (case (ob_Limits b p, ob_Usage b p) of
     (Some l, Some u) \<Rightarrow> 0 < bl_AmountUSD l \<and> bl_AmountUSD l \<le> bu_SpentUSD u \<or> 0 < bl_TokenLimit l \<and> bl_TokenLimit l \<le> bu_TotalTokens u
   | _ \<Rightarrow> False)"

lemma exhausted_tokens: "ob_Limits b p = Some l \<Longrightarrow> ob_Usage b p = Some u \<Longrightarrow> 0 < bl_TokenLimit l
    \<Longrightarrow> \<not> exhausted b p \<Longrightarrow> bu_TotalTokens u < bl_TokenLimit l"
  by (simp add: exhausted_def not_le)

text \<open>The tokens left in the periods of a list that have a token limit and usage.\<close>

definition tokens_left :: "OrganizationBudget \<Rightarrow> (BudgetPeriod \<times> BudgetLimit) list \<Rightarrow> int list" where
  "tokens_left b ls = List.map_filter (\<lambda>(p, l). case ob_Usage b p of None \<Rightarrow> None
     | Some u \<Rightarrow> if 0 < bl_TokenLimit l then Some (wrap64 (bl_TokenLimit l - bu_TotalTokens u)) else None) ls"

definition least_pos :: "'a :: {linorder, zero} \<Rightarrow> 'a \<Rightarrow> 'a" where
  "least_pos x r = (if x < r \<or> r = 0 then x else r)"

definition period_open :: "OrganizationBudget \<Rightarrow> BudgetPeriod \<times> BudgetLimit \<Rightarrow> bool" where
  "period_open b pl = (case ob_Usage b (fst pl) of None \<Rightarrow> True
     | Some u \<Rightarrow> (0 < bl_AmountUSD (snd pl) \<longrightarrow> 0 < fsub (bl_AmountUSD (snd pl)) (bu_SpentUSD u))
         \<and> (0 < bl_TokenLimit (snd pl) \<longrightarrow> 0 < wrap64 (bl_TokenLimit (snd pl) - bu_TotalTokens u)))"

lemma check_periods_open:
  "bc_Allowed res \<Longrightarrow> \<forall>pl \<in> set ls. period_open b pl \<Longrightarrow> bc_Allowed (check_periods b ls res)
     \<and> bc_RemainingTokens (check_periods b ls res) = fold least_pos (tokens_left b ls) (bc_RemainingTokens res)"
proof (induction ls arbitrary: res)
  case (Cons pl ls)
  obtain p l where pl: "pl = (p, l)" by (cases pl)
  show ?case
  proof (cases "ob_Usage b p")
    case None
    then show ?thesis using Cons by (simp add: pl tokens_left_def)
  next
    case (Some u)
    have o: "0 < bl_AmountUSD l \<Longrightarrow> 0 < fsub (bl_AmountUSD l) (bu_SpentUSD u)"
      "0 < bl_TokenLimit l \<Longrightarrow> 0 < wrap64 (bl_TokenLimit l - bu_TotalTokens u)"
      using Cons.prems(2) Some by (auto simp: period_open_def pl)
    define res1 where "res1 = projr (check_usd p l u res)"
    have r1: "check_usd p l u res = Inr res1" "bc_Allowed res1" "bc_RemainingTokens res1 = bc_RemainingTokens res"
      using o(1) Cons.prems(1) by (auto simp: check_usd_def Let_def res1_def)
    define res2 where "res2 = projr (check_tokens p l u res1)"
    have r2: "check_tokens p l u res1 = Inr res2" "bc_Allowed res2"
      "bc_RemainingTokens res2 = (if 0 < bl_TokenLimit l
        then least_pos (wrap64 (bl_TokenLimit l - bu_TotalTokens u)) (bc_RemainingTokens res1) else bc_RemainingTokens res1)"
      using o(2) r1(2) by (auto simp: check_tokens_def Let_def res2_def least_pos_def)
    show ?thesis using Cons.IH [of res2] Cons.prems(2) Some r1 r2 by (simp add: pl tokens_left_def)
  qed
qed (simp add: tokens_left_def)

lemma check_periods_shut:
  "\<exists>pl \<in> set ls. \<not> period_open b pl \<Longrightarrow> \<not> bc_Allowed (check_periods b ls res)
     \<and> (\<exists>(p, l) \<in> set ls. \<not> period_open b (p, l) \<and> bc_LimitPeriod (check_periods b ls res) = Some p)"
proof (induction ls arbitrary: res)
  case (Cons pl ls)
  obtain p l where pl: "pl = (p, l)" by (cases pl)
  have skip: ?case if "check_periods b (pl # ls) res = check_periods b ls res'" "period_open b pl" for res'
    using Cons.IH [of res'] Cons.prems that by auto
  show ?case
  proof (cases "ob_Usage b p")
    case None
    then show ?thesis by (intro skip [of res]) (simp_all add: pl period_open_def)
  next
    case (Some u)
    show ?thesis
    proof (cases "check_usd p l u res")
      case (Inl r)
      then have "\<not> period_open b pl" "\<not> bc_Allowed r" "bc_LimitPeriod r = Some p"
        using Some by (auto simp: check_usd_def Let_def pl period_open_def split: if_splits)
      then show ?thesis using Inl Some by (simp add: pl)
    next
      case r1: (Inr r)
      show ?thesis
      proof (cases "check_tokens p l u r")
        case (Inl r')
        then have "\<not> period_open b pl" "\<not> bc_Allowed r'" "bc_LimitPeriod r' = Some p"
          using Some by (auto simp: check_tokens_def Let_def pl period_open_def split: if_splits)
        then show ?thesis using r1 Inl Some by (simp add: pl)
      next
        case (Inr r')
        then have "period_open b pl" using Some r1
          by (auto simp: check_usd_def check_tokens_def Let_def pl period_open_def split: if_splits)
        then show ?thesis using r1 Inr Some by (intro skip [of r']) (simp_all add: pl)
      qed
    qed
  qed
qed simp

lemma period_open_iff:
  assumes "ob_Limits b p = Some l" "ob_Usage b p = Some u" "is_float64 (bl_AmountUSD l)" "is_float64 (bu_SpentUSD u)"
    "is_int64 (bl_TokenLimit l)" "0 \<le> bu_TotalTokens u" "is_int64 (bu_TotalTokens u)"
  shows "period_open b (p, l) \<longleftrightarrow> \<not> exhausted b p"
proof -
  have "wrap64 (bl_TokenLimit l - bu_TotalTokens u) = bl_TokenLimit l - bu_TotalTokens u" if "0 < bl_TokenLimit l"
    using that assms(5-7) by (intro wrap64_id) (simp add: is_int64_def)
  moreover have "0 < fsub (bl_AmountUSD l) (bu_SpentUSD u) \<longleftrightarrow> bu_SpentUSD u < bl_AmountUSD l"
    using fsub_nonpos_iff [OF assms(3,4)] by linarith
  ultimately show ?thesis using assms(1,2) by (auto simp: period_open_def exhausted_def)
qed

lemma fold_least_pos: "\<forall>x \<in> set xs. 0 < x \<Longrightarrow> fold least_pos xs 0 = (if xs = [] then 0 else Min (set xs))"
  for xs :: "int list"
proof (induction xs rule: rev_induct)
  case (snoc x xs)
  show ?case
  proof (cases "xs = []")
    case False
    then obtain m where m: "Min (set xs) = m" "0 < m" using snoc.prems by simp
    moreover have "Min (set (xs @ [x])) = min x (Min (set xs))" using False by simp
    ultimately show ?thesis using snoc.IH snoc.prems False by (auto simp: least_pos_def [of x m] min_def)
  qed (simp add: least_pos_def)
qed simp

text \<open>The counters and limits that the check relies on: doubles, and tokens that have not wrapped around.\<close>

definition sound_budget :: "OrganizationBudget \<Rightarrow> bool" where
  "sound_budget b \<longleftrightarrow> (\<forall>p l u. ob_Limits b p = Some l \<longrightarrow> ob_Usage b p = Some u \<longrightarrow>
     is_float64 (bl_AmountUSD l) \<and> is_float64 (bu_SpentUSD u) \<and> is_int64 (bl_TokenLimit l)
     \<and> 0 \<le> bu_TotalTokens u \<and> is_int64 (bu_TotalTokens u))"

lemma period_open_sound: "sound_budget b \<Longrightarrow> ob_Limits b p = Some l \<Longrightarrow> period_open b (p, l) \<longleftrightarrow> \<not> exhausted b p"
proof (cases "ob_Usage b p")
  case (Some u)
  moreover assume "sound_budget b" "ob_Limits b p = Some l"
  ultimately show ?thesis unfolding sound_budget_def by (intro period_open_iff) blast+
qed (simp add: period_open_def exhausted_def)

lemma check_split:
  assumes "enumerates ks (ob_Limits b)" "sound_budget b"
  shows "(\<forall>pl \<in> set (range_of ks (ob_Limits b)). period_open b pl) \<longleftrightarrow> (\<forall>p. \<not> exhausted b p)"
proof -
  have "exhausted b p \<Longrightarrow> ob_Limits b p \<noteq> None" for p by (auto simp: exhausted_def split: option.splits)
  then show ?thesis using period_open_sound [OF assms(2)] range_of_enumerates [OF assms(1)]
    by (metis option.exhaust_sel surj_pair)
qed

lemma set_map_filter_iff: "x \<in> set (List.map_filter f xs) \<longleftrightarrow> (\<exists>y \<in> set xs. f y = Some x)"
  by (induction xs) (auto split: option.splits)

lemma set_tokens_left:
  assumes "enumerates ks (ob_Limits b)" "sound_budget b"
  shows "set (tokens_left b (range_of ks (ob_Limits b)))
    = {bl_TokenLimit l - bu_TotalTokens u |p l u. ob_Limits b p = Some l \<and> ob_Usage b p = Some u \<and> 0 < bl_TokenLimit l}"
    (is "?L = ?R")
proof -
  have "wrap64 (bl_TokenLimit l - bu_TotalTokens u) = bl_TokenLimit l - bu_TotalTokens u"
    if "ob_Limits b p = Some l" "ob_Usage b p = Some u" "0 < bl_TokenLimit l" for p l u
  proof -
    have "is_int64 (bl_TokenLimit l)" "0 \<le> bu_TotalTokens u" "is_int64 (bu_TotalTokens u)" using assms(2) that unfolding sound_budget_def by blast+
    then show ?thesis using that(3) by (intro wrap64_id) (simp add: is_int64_def)
  qed
  then have w: "0 < bl_TokenLimit l \<Longrightarrow> ob_Limits b p = Some l \<Longrightarrow> ob_Usage b p = Some u \<Longrightarrow> x = wrap64 (bl_TokenLimit l - bu_TotalTokens u)
      \<longleftrightarrow> x = bl_TokenLimit l - bu_TotalTokens u" for x p l u by simp
  have "x \<in> ?L \<longleftrightarrow> (\<exists>p l u. (p, l) \<in> set (range_of ks (ob_Limits b)) \<and> ob_Usage b p = Some u \<and> 0 < bl_TokenLimit l
      \<and> x = wrap64 (bl_TokenLimit l - bu_TotalTokens u))" for x
  proof -
    have "(case ob_Usage b p of None \<Rightarrow> None | Some u \<Rightarrow> if 0 < bl_TokenLimit l then Some (wrap64 (bl_TokenLimit l - bu_TotalTokens u)) else None)
        = Some x \<longleftrightarrow> (\<exists>u. ob_Usage b p = Some u \<and> 0 < bl_TokenLimit l \<and> x = wrap64 (bl_TokenLimit l - bu_TotalTokens u))" for p and l :: BudgetLimit
      by (auto split: option.splits)
    then show ?thesis by (simp add: tokens_left_def set_map_filter_iff Bex_def)
  qed
  then show ?thesis using range_of_enumerates [OF assms(1)] w by (simp add: set_eq_iff) metis
qed

text \<open>C22: As long as the token counters have not wrapped around and limits and counters are values of their
  types, the budget check allows a request, whatever its size, exactly when no period has reached its limit, and whatever
  the order in which the limits are ranged over; a
  refusal names a period that is exhausted; and what is left of the tokens, when there are token
  limits, is the least over their periods.\<close>

theorem budget_check_exact:
  assumes "enumerates ks (ob_Limits b)" "sound_budget b"
  shows "let res = budget_CheckBudget ks b providerID modelName estimatedTokens;
      left = {bl_TokenLimit l - bu_TotalTokens u |p l u. ob_Limits b p = Some l \<and> ob_Usage b p = Some u \<and> 0 < bl_TokenLimit l}
    in (bc_Allowed res \<longleftrightarrow> (\<forall>p. \<not> exhausted b p))
     \<and> (\<not> bc_Allowed res \<longrightarrow> (\<exists>p. bc_LimitPeriod res = Some p \<and> exhausted b p))
     \<and> (bc_Allowed res \<longrightarrow> bc_RemainingTokens res = (if left = {} then 0 else Min left))"
proof -
  let ?ls = "range_of ks (ob_Limits b)"
  let ?r0 = "\<lparr>bc_Allowed = True, bc_Reason = [], bc_LimitType = [], bc_LimitPeriod = None,
        bc_EstimatedCostUSD = fmul (float_of_int estimatedTokens) (fl (1 / 100000)),
        bc_RemainingUSD = 0, bc_RemainingTokens = 0\<rparr>"
  define res where "res = budget_CheckBudget ks b providerID modelName estimatedTokens"
  define left where "left = {bl_TokenLimit l - bu_TotalTokens u |p l u. ob_Limits b p = Some l \<and> ob_Usage b p = Some u \<and> 0 < bl_TokenLimit l}"
  have r: "res = check_periods b ?ls ?r0" by (simp only: res_def budget_CheckBudget_def)
  note sp = check_split [OF assms] and tl = set_tokens_left [OF assms, folded left_def]
  show ?thesis
  proof (cases "\<forall>p. \<not> exhausted b p")
    case True
    then have o: "\<forall>pl \<in> set ?ls. period_open b pl" using sp by simp
    from check_periods_open [OF _ o, of ?r0]
    have a: "bc_Allowed res" "bc_RemainingTokens res = fold least_pos (tokens_left b ?ls) 0" unfolding r by simp_all
    have "\<forall>x \<in> set (tokens_left b ?ls). 0 < x" unfolding tl left_def using True exhausted_tokens by (auto simp: not_le)
    then have "bc_RemainingTokens res = (if left = {} then 0 else Min left)"
      unfolding a(2) tl [symmetric] by (subst fold_least_pos) simp_all
    then show ?thesis unfolding res_def [symmetric] left_def [symmetric] using a(1) True by simp
  next
    case False
    then have "\<exists>pl \<in> set ?ls. \<not> period_open b pl" using sp by auto
    from check_periods_shut [OF this, of ?r0]
    obtain p l where "\<not> bc_Allowed res" "(p, l) \<in> set ?ls" "\<not> period_open b (p, l)" "bc_LimitPeriod res = Some p"
      unfolding r by blast
    then show ?thesis unfolding res_def [symmetric] left_def [symmetric]
      using False period_open_sound [OF assms(2)] range_of_enumerates [OF assms(1)] by auto
  qed
qed

definition demo_budget :: OrganizationBudget where
  "demo_budget = fold (apply_op (fixed_zone 0)) demo_ops (NewOrganizationBudget 0 ''org'')"

lemma RecordUsage_limits [simp]: "ob_Limits (budget_RecordUsage loc now r b) = ob_Limits b"
proof -
  have "ob_Limits (record_period loc now r p b) = ob_Limits b" for p b
    by (simp add: record_period_def Let_def resetUsage_def)
  then show ?thesis by (simp add: budget_RecordUsage_def)
qed

lemma demo_budget_parts:
  "ob_Limits demo_budget = [BudgetPeriodDaily \<mapsto> \<lparr>bl_Period = BudgetPeriodDaily, bl_AmountUSD = 0, bl_TokenLimit = 20, bl_AlertThreshold = 1\<rparr>]"
  "ob_Usage demo_budget BudgetPeriodDaily = Some (usage_total BudgetPeriodDaily demo_log)"
  "bu_TotalTokens (usage_total BudgetPeriodDaily demo_log) = 21"
  using demo_usage
  by (simp_all add: demo_budget_def, simp_all add: demo_ops_def apply_op_def budget_SetLimit_def NewOrganizationBudget_def Let_def
      usage_total_def demo_log_def open_log_def tokens_of_def demo_record_def NewUsageRecord_def is_int64_def)

theorem budget_check_exact_witness:
  "\<not> bc_Allowed (budget_CheckBudget [BudgetPeriodDaily] demo_budget ''p'' ''a'' 0)"
proof -
  have "is_float64 (bu_SpentUSD (usage_total BudgetPeriodDaily demo_log))" by (simp add: usage_total_def Let_def)
  then have "enumerates [BudgetPeriodDaily] (ob_Limits demo_budget)" "sound_budget demo_budget"
    by (auto simp: enumerates_def sound_budget_def demo_budget_parts is_int64_def split: if_splits)
  from budget_check_exact [OF this, of "''p''" "''a''" 0] show ?thesis
    by (auto simp: Let_def exhausted_def demo_budget_parts intro!: exI [of _ BudgetPeriodDaily])
qed

section \<open>Properties of the windows\<close>

text \<open>C29: In a zone of fixed offset, such as UTC, the window of a period that the budget opens contains the
  present, and the days, weeks and months of the calendar divide time: an instant lies in a window exactly
  when the budget opens the same window there.\<close>

theorem budget_windows_partition:
  "getWindowStart (fixed_zone off) now p \<le> now \<and> now < getWindowEnd (fixed_zone off) now p
   \<and> (p \<in> set tracked_periods \<longrightarrow>
       (getWindowStart (fixed_zone off) now p \<le> t \<and> t < getWindowEnd (fixed_zone off) now p \<longleftrightarrow> getWindowStart (fixed_zone off) t p = getWindowStart (fixed_zone off) now p))"
proof -
  have "getWindowStart (fixed_zone off) now p \<le> t \<and> t < getWindowEnd (fixed_zone off) now p"
    if "getWindowStart (fixed_zone off) t p = getWindowStart (fixed_zone off) now p" "p \<in> set tracked_periods"
  proof -
    have "getWindowEnd (fixed_zone off) t p = getWindowEnd (fixed_zone off) now p"
      using that by (auto simp: getWindowEnd_def Let_def tracked_periods_def)
    then show ?thesis using window_encloses(1) [of off t p] window_encloses(2) [of t off p] that(1) by simp
  qed
  then show ?thesis using window_encloses(1) [of off now p] window_encloses(2) [of now off p] window_same [of off now p t]
    by (auto simp: tracked_periods_def)
qed

theorem budget_windows_partition_witness:
  "getWindowStart (fixed_zone 0) (40 * day_ns + 5) BudgetPeriodMonthly \<le> 31 * day_ns
   \<and> 31 * day_ns < getWindowEnd (fixed_zone 0) (40 * day_ns + 5) BudgetPeriodMonthly"
proof -
  have c: "civil 40 = (1, 2, 10)" "civil 31 = (1, 2, 1)" by code_simp+
  have "local_day (fixed_zone 0) (40 * day_ns + 5) = 40" "local_day (fixed_zone 0) (31 * day_ns) = 31" by (simp_all add: local_day_def fixed_zone_def day_ns_def hour_def)
  then have "getWindowStart (fixed_zone 0) (31 * day_ns) BudgetPeriodMonthly = getWindowStart (fixed_zone 0) (40 * day_ns + 5) BudgetPeriodMonthly"
    by (simp add: getWindowStart_def date_of_def c)
  then show ?thesis
    using budget_windows_partition [of 0 "40 * day_ns + 5" BudgetPeriodMonthly "31 * day_ns"] by (simp add: tracked_periods_def)
qed

section \<open>Where the budget departs from its intent\<close>

text \<open>The percentages are computed but never stored: the result is empty for every budget.\<close>

theorem budget_percentages_empty: "budget_GetUsagePercentages now ks b = Map.empty"
proof -
  have "fold (\<lambda>period result. let pct = usage_percentage now b period in result) ks m = m" for m :: "(BudgetPeriod, UsagePercentage) gomap"
    by (induction ks) (simp_all add: Let_def)
  then show ?thesis by (simp add: budget_GetUsagePercentages_def)
qed

text \<open>
  The check reads no clock and resets no window: a budget that is exhausted today is refused on
  every later day, until something that was not checked records usage.
\<close>

theorem budget_check_never_renews:
  "\<not> bc_Allowed (budget_CheckBudget [BudgetPeriodDaily] demo_budget ''p'' ''a'' 0)
   \<and> bc_Allowed (budget_CheckBudget [BudgetPeriodDaily] (budget_RecordUsage (fixed_zone 0) (3 * day_ns) (demo_record ''a'' 1) demo_budget) ''p'' ''a'' 0)"
proof -
  let ?r = "demo_record ''a'' 1" and ?d = BudgetPeriodDaily
  let ?b = "budget_RecordUsage (fixed_zone 0) (3 * day_ns) (demo_record ''a'' 1) demo_budget"
  have "pl_End demo_log = day_ns"
    by (simp add: demo_log_def open_log_def getWindowEnd_def daily_start local_day_def fixed_zone_def day_ns_def hour_def)
  then have l: "log_record (fixed_zone 0) (3 * day_ns) ?r ?d (Some demo_log) = open_log (fixed_zone 0) (3 * day_ns) ?d [?r]"
    by (simp add: log_record_def day_ns_def hour_def)
  have v: "valid_record ?r" using demo_ops_valid by (simp add: demo_ops_def valid_record_def demo_record_def NewUsageRecord_def is_int64_def)
  have "ob_Usage ?b ?d = Some (usage_total ?d (open_log (fixed_zone 0) (3 * day_ns) ?d [?r]))"
    using RecordUsage_agrees [OF v run_agrees [OF demo_ops_valid, of "fixed_zone 0" 0 "''org''"], of "fixed_zone 0" "3 * day_ns"] demo_ledger
    by (simp add: counters_agree_def demo_budget_def ledger_step_def tracked_periods_def l)
  moreover have "bu_TotalTokens (usage_total ?d (open_log (fixed_zone 0) (3 * day_ns) ?d [?r])) = 2"
    by (simp add: usage_total_def Let_def open_log_def demo_record_def NewUsageRecord_def is_int64_def)
  moreover have "wrap64 (- 1) = - 1" "wrap64 18 = 18" by (simp_all add: is_int64_def)
  ultimately show ?thesis
    by (simp add: budget_CheckBudget_def demo_budget_parts check_usd_def check_tokens_def)
qed

text \<open>
  Where clocks are moved, a window of 24 hours is not the day. On a day of 25 hours, here the 40th with
  clocks set back from three to two, a window that is opened in the last hour before midnight has already ended:
  the next record resets the counters although the day is the same.
\<close>

definition autumn_zone :: location where
  "autumn_zone t = (if t < 40 * day_ns + hour then 2 * hour else hour)"

theorem budget_window_misses_long_day:
  "let now = 40 * day_ns + 22 * hour + 30 * minute; later = now + 5 * minute
   in local_day autumn_zone now = 40 \<and> local_day autumn_zone later = 40
    \<and> getWindowEnd autumn_zone now BudgetPeriodDaily < now
    \<and> (\<forall>b r. ob_Usage b BudgetPeriodDaily = None \<longrightarrow>
         ob_Usage (record_period autumn_zone later r BudgetPeriodDaily (record_period autumn_zone now r BudgetPeriodDaily b)) BudgetPeriodDaily
         = Some (record_usage r (new_usage autumn_zone later BudgetPeriodDaily)))"
proof -
  let ?now = "40 * day_ns + 22 * hour + 30 * minute" and ?p = BudgetPeriodDaily
  let ?later = "?now + 5 * minute"
  have d: "local_day autumn_zone ?now = 40" "local_day autumn_zone ?later = 40"
    by (simp_all add: local_day_def autumn_zone_def day_ns_def hour_def minute_def second_def)
  have c: "civil 40 = (1, 2, 10)" "day_number 1 2 10 = 40" by code_simp+
  have e: "getWindowEnd autumn_zone t ?p = 40 * day_ns + 22 * hour" if "local_day autumn_zone t = 40" for t
    using that by (simp add: getWindowEnd_def getWindowStart_def date_of_def c time_date_def autumn_zone_def Let_def day_ns_def hour_def)
  moreover have "0 < minute" by (simp add: minute_def second_def)
  ultimately have lt: "getWindowEnd autumn_zone ?now ?p < ?now" using d by simp
  have "getWindowEnd autumn_zone ?now ?p < ?later" using lt \<open>0 < minute\<close> by linarith
  then have "ob_Usage (record_period autumn_zone ?later r ?p (record_period autumn_zone ?now r ?p b)) ?p
      = Some (record_usage r (new_usage autumn_zone ?later ?p))" if "ob_Usage b ?p = None" for b r
    using that lt by (simp add: record_period_def Let_def resetUsage_def record_usage_def new_usage_def)
  then show ?thesis using d lt by (simp add: Let_def)
qed

text \<open>A record at the very end of a window counts for the window that has ended.\<close>

theorem budget_boundary_record:
  assumes "ob_Usage b p = Some u" "bu_WindowEnd u = now"
  shows "ob_Usage (record_period (fixed_zone off) now r p b) p = Some (record_usage r u)" "bu_WindowEnd u < getWindowEnd (fixed_zone off) now p"
  using assms window_encloses(2) [of now off p] by (simp_all add: record_period_def Let_def)

text \<open>
  The check is documented to say whether a request would exceed the limits, but the estimate of its
  tokens decides nothing: two requests of any sizes are allowed alike.
\<close>

lemma check_periods_estimate:
  "check_periods b ls (res\<lparr>bc_EstimatedCostUSD := c\<rparr>) = (check_periods b ls res)\<lparr>bc_EstimatedCostUSD := c\<rparr>"
proof (induction ls arbitrary: res)
  case (Cons x ls)
  obtain p l where x: "x = (p, l)" by (cases x)
  have "check_usd p l u (r\<lparr>bc_EstimatedCostUSD := c\<rparr>) = map_sum (bc_EstimatedCostUSD_update (\<lambda>_. c)) (bc_EstimatedCostUSD_update (\<lambda>_. c)) (check_usd p l u r)"
    "check_tokens p l u (r\<lparr>bc_EstimatedCostUSD := c\<rparr>) = map_sum (bc_EstimatedCostUSD_update (\<lambda>_. c)) (bc_EstimatedCostUSD_update (\<lambda>_. c)) (check_tokens p l u r)"
    for u and r :: BudgetCheckResult by (simp_all add: check_usd_def check_tokens_def Let_def)
  then show ?case using Cons by (auto simp: x split: option.split sum.split)
qed simp

theorem budget_check_ignores_size:
  "bc_Allowed (budget_CheckBudget ks b providerID modelName n) = bc_Allowed (budget_CheckBudget ks b providerID' modelName' n')"
proof -
  let ?r = "\<lambda>c. \<lparr>bc_Allowed = True, bc_Reason = [], bc_LimitType = [], bc_LimitPeriod = None, bc_EstimatedCostUSD = c,
    bc_RemainingUSD = 0, bc_RemainingTokens = 0\<rparr>"
  have "bc_Allowed (check_periods b ls (?r c)) = bc_Allowed (check_periods b ls (?r d))" for ls c d
    using check_periods_estimate [of b ls c "?r d"] by simp
  then show ?thesis unfolding budget_CheckBudget_def by blast
qed

text \<open>A record made by \<open>NewUsageRecord\<close> carries neither the organization nor the provider: all usage is attributed to one empty key.\<close>

theorem budget_provider_lost:
  "ur_APIKeyID (NewUsageRecord now orgID providerID m i j c) = [] \<and> ur_OrganizationID (NewUsageRecord now orgID providerID m i j c) = None"
  by (simp add: NewUsageRecord_def)

end
