(* ===== verification/Billing.thy ===== *)
theory Billing
  imports Budget Go_Strings "HOL-Library.Sublist"
begin

text \<open>
  Prices, billing records and balances (\<open>billing/pricing.go\<close>, \<open>service.go\<close>, \<open>repo.go\<close>) over the tables of
  the schema in \<open>db/postgres/connection.go\<close>. A table is the list of its rows in the order in which a
  query without an order returns them. A float that is written to a \<open>DECIMAL\<close> column of
  scale \<open>s\<close> is stored as \<open>dec s\<close> of it, an argument, and read back as the nearest double. Each
  call of the database takes the error it reports for reasons of its own, if any, as \<open>fault\<close>;
  errors that the schema implies are computed.
\<close>

section \<open>Data\<close>

record ModelPricing =
  mp_ID :: int
  mp_ModelName :: gostr
  mp_InputPricePer1K :: float64
  mp_OutputPricePer1K :: float64
  mp_BatchInputPricePer1K :: float64
  mp_IsActive :: bool
  mp_UpdatedAt :: gtime

record BillingRecord =
  br_ID :: int
  br_OrganizationID :: "int option"
  br_UserID :: "int option"
  br_APIKeyID :: gostr
  br_Model :: gostr
  br_InputTokens :: int
  br_OutputTokens :: int
  br_InputCost :: float64
  br_OutputCost :: float64
  br_TotalCost :: float64
  br_Currency :: gostr
  br_ChannelID :: "int option"
  br_TokenGroupID :: "int option"
  br_RequestID :: gostr
  br_CreatedAt :: gtime

record BillingSummary =
  bs_OrganizationID :: "int option"
  bs_UserID :: "int option"
  bs_Period :: gostr
  bs_TotalRequests :: int
  bs_TotalInputTokens :: int
  bs_TotalOutputTokens :: int
  bs_TotalCost :: float64
  bs_CostByModel :: "(gostr, float64) gomap"
  bs_CostByDay :: "(gostr, float64) gomap"
  bs_Currency :: gostr
  bs_StartDate :: gtime
  bs_EndDate :: gtime

record Balance =
  ba_ID :: int
  ba_OrganizationID :: "int option"
  ba_UserID :: "int option"
  ba_Balance :: float64
  ba_Currency :: gostr
  ba_UpdatedAt :: gtime

record Transaction =
  tx_ID :: int
  tx_OrganizationID :: "int option"
  tx_UserID :: "int option"
  tx_Amount :: float64
  tx_BalanceBefore :: float64
  tx_BalanceAfter :: float64
  tx_Type :: gostr
  tx_Description :: gostr
  tx_ReferenceID :: gostr
  tx_CreatedAt :: gtime

text \<open>The errors of the database, those of the service, and a message wrapped around one.\<close>

datatype billing_error = DbError gostr | UndefinedColumn gostr | NotNull gostr | UniqueViolation gostr | NoSuchRow gostr
  | BadAmount gostr | InsufficientBalance float64 float64 | Wrapped gostr billing_error

record billing_db =
  db_pricing :: "ModelPricing list"
  db_records :: "BillingRecord list"
  db_balance_columns :: "gostr list"
  db_balances :: "Balance list"
  db_transactions :: "Transaction list"
  db_pricing_serial :: int
  db_record_serial :: int
  db_transaction_serial :: int

text \<open>The columns that the schema gives the table of balances.\<close>

definition schema_balance_columns :: "gostr list" where
  "schema_balance_columns = [''organization_id'', ''user_id'', ''balance'', ''currency'', ''updated_at'']"

type_synonym decimal = "nat \<Rightarrow> float64 \<Rightarrow> rat"
type_synonym fault = "gostr option"

section \<open>Prices\<close>

definition price_CalculateCost :: "ModelPricing \<Rightarrow> int \<Rightarrow> int \<Rightarrow> float64" where
  "price_CalculateCost p inputTokens outputTokens =
     (let inputCost = fmul (fdiv (float_of_int inputTokens) 1000) (mp_InputPricePer1K p);
          outputCost = fmul (fdiv (float_of_int outputTokens) 1000) (mp_OutputPricePer1K p)
      in fadd inputCost outputCost)"

definition price_CalculateCostWithBatch :: "ModelPricing \<Rightarrow> int \<Rightarrow> int \<Rightarrow> int \<Rightarrow> float64" where
  "price_CalculateCostWithBatch p inputTokens outputTokens batchInputTokens =
     (let standardInputCost = fmul (fdiv (float_of_int (wrap64 (inputTokens - batchInputTokens))) 1000) (mp_InputPricePer1K p);
          batchInputCost = fmul (fdiv (float_of_int batchInputTokens) 1000) (mp_BatchInputPricePer1K p);
          outputCost = fmul (fdiv (float_of_int outputTokens) 1000) (mp_OutputPricePer1K p)
      in fadd (fadd standardInputCost batchInputCost) outputCost)"

definition PredefinedModelPrices :: "(gostr \<times> float64 \<times> float64) list" where
  "PredefinedModelPrices =
    [(''gpt-4o'', fl (5 / 1000), fl (15 / 1000)),
     (''gpt-4o-mini'', fl (15 / 100000), fl (6 / 10000)),
     (''gpt-4-turbo'', fl (1 / 100), fl (3 / 100)),
     (''gpt-4'', fl (3 / 100), fl (6 / 100)),
     (''gpt-3.5-turbo'', fl (5 / 10000), fl (15 / 10000)),
     (''gpt-4o-audio-preview'', fl (5 / 1000), fl (15 / 1000)),
     (''claude-3-5-sonnet-20241022'', fl (3 / 1000), fl (15 / 1000)),
     (''claude-3-5-sonnet-latest'', fl (3 / 1000), fl (15 / 1000)),
     (''claude-3-opus-20240229'', fl (15 / 1000), fl (75 / 1000)),
     (''claude-3-sonnet-20240229'', fl (3 / 1000), fl (15 / 1000)),
     (''claude-3-haiku-20240307'', fl (25 / 100000), fl (125 / 100000)),
     (''gemini-1.5-pro'', fl (125 / 100000), fl (5 / 1000)),
     (''gemini-1.5-flash'', fl (75 / 1000000), fl (3 / 10000)),
     (''gemini-1.5-pro-latest'', fl (125 / 100000), fl (5 / 1000)),
     (''gemini-1.5-flash-latest'', fl (75 / 1000000), fl (3 / 10000)),
     (''mistral-large-latest'', fl (2 / 1000), fl (6 / 1000)),
     (''mistral-small-latest'', fl (2 / 10000), fl (6 / 10000))]"

definition GetPredefinedPrice :: "gostr \<Rightarrow> float64 \<times> float64 \<times> bool" where
  "GetPredefinedPrice modelName = (case map_of PredefinedModelPrices modelName of
     Some (input, output) \<Rightarrow> (input, output, True) | None \<Rightarrow> (0, 0, False))"

section \<open>The repository\<close>

text \<open>A row of prices as it is written and as it is read.\<close>

definition stored_price :: "decimal \<Rightarrow> ModelPricing \<Rightarrow> ModelPricing" where
  "stored_price dec p = p\<lparr>mp_InputPricePer1K := dec 6 (mp_InputPricePer1K p), mp_OutputPricePer1K := dec 6 (mp_OutputPricePer1K p),
     mp_BatchInputPricePer1K := dec 6 (mp_BatchInputPricePer1K p)\<rparr>"

definition read_price :: "ModelPricing \<Rightarrow> ModelPricing" where
  "read_price p = p\<lparr>mp_InputPricePer1K := fl (mp_InputPricePer1K p), mp_OutputPricePer1K := fl (mp_OutputPricePer1K p),
     mp_BatchInputPricePer1K := fl (mp_BatchInputPricePer1K p)\<rparr>"

definition repo_CreateModelPricing ::
  "fault \<Rightarrow> decimal \<Rightarrow> gtime \<Rightarrow> ModelPricing \<Rightarrow> billing_db \<Rightarrow> (billing_error option \<times> ModelPricing) \<times> billing_db" where
  "repo_CreateModelPricing fault dec now p db =
     (let p = p\<lparr>mp_UpdatedAt := now\<rparr>;
          err = (case fault of Some e \<Rightarrow> Some (DbError e)
                 | None \<Rightarrow> if mp_ModelName p \<in> mp_ModelName ` set (db_pricing db) then Some (UniqueViolation ''model_pricing'') else None)
      in case err of
        Some e \<Rightarrow> ((Some (Wrapped ''failed to create model pricing'' e), p), db)
      | None \<Rightarrow> let p = p\<lparr>mp_ID := db_pricing_serial db\<rparr>
          in ((None, p), db\<lparr>db_pricing := db_pricing db @ [stored_price dec p], db_pricing_serial := db_pricing_serial db + 1\<rparr>))"

definition repo_UpdateModelPricing ::
  "fault \<Rightarrow> decimal \<Rightarrow> gtime \<Rightarrow> ModelPricing \<Rightarrow> billing_db \<Rightarrow> billing_error option \<times> billing_db" where
  "repo_UpdateModelPricing fault dec now p db = (case fault of
     Some e \<Rightarrow> (Some (Wrapped ''failed to update model pricing'' (DbError e)), db)
   | None \<Rightarrow>
       if mp_ID p \<notin> mp_ID ` set (db_pricing db) then (Some (NoSuchRow ''model pricing not found''), db)
       else (None, db\<lparr>db_pricing := map (\<lambda>q. if mp_ID q = mp_ID p
               then stored_price dec (p\<lparr>mp_ID := mp_ID q, mp_ModelName := mp_ModelName q, mp_UpdatedAt := now\<rparr>) else q) (db_pricing db)\<rparr>))"

definition repo_GetModelPricing :: "fault \<Rightarrow> gostr \<Rightarrow> billing_db \<Rightarrow> billing_error + ModelPricing option" where
  "repo_GetModelPricing fault modelName db = (case fault of
     Some e \<Rightarrow> Inl (Wrapped ''failed to get model pricing'' (DbError e))
   | None \<Rightarrow> Inr (map_option read_price (find (\<lambda>p. mp_ModelName p = modelName) (db_pricing db))))"

fun insert_by_name :: "ModelPricing \<Rightarrow> ModelPricing list \<Rightarrow> ModelPricing list" where
  "insert_by_name p [] = [p]"
| "insert_by_name p (q # qs) = (if str_less (mp_ModelName q) (mp_ModelName p) then q # insert_by_name p qs else p # q # qs)"

definition repo_ListModelPricing :: "fault \<Rightarrow> billing_db \<Rightarrow> billing_error + ModelPricing list" where
  "repo_ListModelPricing fault db = (case fault of
     Some e \<Rightarrow> Inl (Wrapped ''failed to list model pricing'' (DbError e))
   | None \<Rightarrow> Inr (map read_price (foldr insert_by_name (db_pricing db) [])))"

definition stored_record :: "decimal \<Rightarrow> BillingRecord \<Rightarrow> BillingRecord" where
  "stored_record dec r = r\<lparr>br_InputCost := dec 4 (br_InputCost r), br_OutputCost := dec 4 (br_OutputCost r), br_TotalCost := dec 4 (br_TotalCost r)\<rparr>"

definition repo_CreateBillingRecord ::
  "fault \<Rightarrow> decimal \<Rightarrow> gtime \<Rightarrow> BillingRecord \<Rightarrow> billing_db \<Rightarrow> (billing_error option \<times> BillingRecord) \<times> billing_db" where
  "repo_CreateBillingRecord fault dec now r db =
     (let r = r\<lparr>br_CreatedAt := now\<rparr> in case fault of
        Some e \<Rightarrow> ((Some (Wrapped ''failed to create billing record'' (DbError e)), r), db)
      | None \<Rightarrow> let r = r\<lparr>br_ID := db_record_serial db\<rparr>
          in ((None, r), db\<lparr>db_records := db_records db @ [stored_record dec r], db_record_serial := db_record_serial db + 1\<rparr>))"

text \<open>The condition that the three queries of the summary share, and their groups.\<close>

definition in_summary :: "int option \<Rightarrow> int option \<Rightarrow> gtime \<Rightarrow> gtime \<Rightarrow> BillingRecord \<Rightarrow> bool" where
  "in_summary orgID userID startDate endDate r \<longleftrightarrow>
     startDate \<le> br_CreatedAt r \<and> br_CreatedAt r < endDate
     \<and> (orgID = None \<or> br_OrganizationID r = orgID) \<and> (userID = None \<or> br_UserID r = userID)"

definition sum_cost :: "BillingRecord list \<Rightarrow> float64" where
  "sum_cost rs = fl (sum_list (map br_TotalCost rs))"

definition cost_by :: "(BillingRecord \<Rightarrow> gostr) \<Rightarrow> BillingRecord list \<Rightarrow> (gostr, float64) gomap" where
  "cost_by key rs = (\<lambda>k. if k \<in> key ` set rs then Some (sum_cost (filter (\<lambda>r. key r = k) rs)) else None)"

text \<open>The layout \<open>2006-01-02\<close>, for the years from 0 to 9999, of the date in the location of the database.\<close>

definition format_date :: "location \<Rightarrow> gtime \<Rightarrow> gostr" where
  "format_date dbloc t = (case date_of dbloc t of (y, m, d) \<Rightarrow> pad_digits 4 y @ ''-'' @ pad_digits 2 m @ ''-'' @ pad_digits 2 d)"

definition repo_GetBillingSummary ::
  "fault \<Rightarrow> fault \<Rightarrow> fault \<Rightarrow> location \<Rightarrow> int option \<Rightarrow> int option \<Rightarrow> gtime \<Rightarrow> gtime \<Rightarrow> billing_db \<Rightarrow> billing_error + BillingSummary" where
  "repo_GetBillingSummary fault modelFault dayFault dbloc orgID userID startDate endDate db =
     (let rs = filter (in_summary orgID userID startDate endDate) (db_records db) in
      case fault of Some e \<Rightarrow> Inl (Wrapped ''failed to get billing summary'' (DbError e))
      | None \<Rightarrow> case modelFault of Some e \<Rightarrow> Inl (Wrapped ''failed to get cost by model'' (DbError e))
      | None \<Rightarrow> case dayFault of Some e \<Rightarrow> Inl (Wrapped ''failed to get cost by day'' (DbError e))
      | None \<Rightarrow> Inr
          \<lparr>bs_OrganizationID = orgID, bs_UserID = userID, bs_Period = [], bs_TotalRequests = int (length rs),
           bs_TotalInputTokens = sum_list (map br_InputTokens rs), bs_TotalOutputTokens = sum_list (map br_OutputTokens rs),
           bs_TotalCost = sum_cost rs, bs_CostByModel = cost_by br_Model rs,
           bs_CostByDay = cost_by (\<lambda>r. format_date dbloc (br_CreatedAt r)) rs,
           bs_Currency = ''USD'', bs_StartDate = startDate, bs_EndDate = endDate\<rparr>)"

text \<open>The columns that \<open>GetBalance\<close> selects; one that the table does not have is an error.\<close>

definition balance_select :: "gostr list" where
  "balance_select = [''id'', ''organization_id'', ''user_id'', ''balance'', ''currency'', ''updated_at'']"

definition missing_column :: "gostr list \<Rightarrow> gostr list \<Rightarrow> gostr option" where
  "missing_column wanted columns = find (\<lambda>c. c \<notin> set columns) wanted"

definition repo_GetBalance ::
  "fault \<Rightarrow> gtime \<Rightarrow> int option \<Rightarrow> int option \<Rightarrow> billing_db \<Rightarrow> billing_error + Balance" where
  "repo_GetBalance fault now orgID userID db =
     (case fault of Some e \<Rightarrow> Inl (Wrapped ''failed to get balance'' (DbError e))
      | None \<Rightarrow> case missing_column balance_select (db_balance_columns db) of
          Some c \<Rightarrow> Inl (Wrapped ''failed to get balance'' (UndefinedColumn c))
        | None \<Rightarrow> case find (\<lambda>b. (orgID = None \<or> ba_OrganizationID b = orgID) \<and> (userID = None \<or> ba_UserID b = userID)) (db_balances db) of
            None \<Rightarrow> Inr \<lparr>ba_ID = 0, ba_OrganizationID = orgID, ba_UserID = userID, ba_Balance = 0, ba_Currency = ''USD'', ba_UpdatedAt = now\<rparr>
          | Some b \<Rightarrow> Inr (b\<lparr>ba_Balance := fl (ba_Balance b)\<rparr>))"

definition repo_UpdateBalance ::
  "fault \<Rightarrow> decimal \<Rightarrow> gtime \<Rightarrow> int option \<Rightarrow> int option \<Rightarrow> float64 \<Rightarrow> billing_db \<Rightarrow> billing_error option \<times> billing_db" where
  "repo_UpdateBalance fault dec now orgID userID newBalance db =
     (case fault of Some e \<Rightarrow> (Some (Wrapped ''failed to update balance'' (DbError e)), db)
      | None \<Rightarrow>
          if orgID = None \<or> userID = None
          then (Some (Wrapped ''failed to update balance'' (NotNull (if orgID = None then ''organization_id'' else ''user_id''))), db)
          else if \<exists>b \<in> set (db_balances db). ba_OrganizationID b = orgID \<and> ba_UserID b = userID
          then (None, db\<lparr>db_balances := map (\<lambda>b. if ba_OrganizationID b = orgID \<and> ba_UserID b = userID
                  then b\<lparr>ba_Balance := dec 4 newBalance, ba_UpdatedAt := now\<rparr> else b) (db_balances db)\<rparr>)
          else (None, db\<lparr>db_balances := db_balances db @
                  [\<lparr>ba_ID = 0, ba_OrganizationID = orgID, ba_UserID = userID, ba_Balance = dec 4 newBalance,
                    ba_Currency = ''USD'', ba_UpdatedAt = now\<rparr>]\<rparr>))"

definition stored_transaction :: "decimal \<Rightarrow> Transaction \<Rightarrow> Transaction" where
  "stored_transaction dec t = t\<lparr>tx_Amount := dec 4 (tx_Amount t), tx_BalanceBefore := dec 4 (tx_BalanceBefore t), tx_BalanceAfter := dec 4 (tx_BalanceAfter t)\<rparr>"

definition repo_CreateTransaction ::
  "fault \<Rightarrow> decimal \<Rightarrow> gtime \<Rightarrow> Transaction \<Rightarrow> billing_db \<Rightarrow> billing_error option \<times> billing_db" where
  "repo_CreateTransaction fault dec now t db =
     (let t = t\<lparr>tx_CreatedAt := now\<rparr> in case fault of
        Some e \<Rightarrow> (Some (Wrapped ''failed to create transaction'' (DbError e)), db)
      | None \<Rightarrow> (None, db\<lparr>db_transactions := db_transactions db @ [stored_transaction dec (t\<lparr>tx_ID := db_transaction_serial db\<rparr>)],
                       db_transaction_serial := db_transaction_serial db + 1\<rparr>))"

section \<open>The service\<close>

definition new_pricing :: "gostr \<Rightarrow> float64 \<Rightarrow> float64 \<Rightarrow> gtime \<Rightarrow> ModelPricing" where
  "new_pricing modelName input output t =
     \<lparr>mp_ID = 0, mp_ModelName = modelName, mp_InputPricePer1K = input, mp_OutputPricePer1K = output,
      mp_BatchInputPricePer1K = 0, mp_IsActive = True, mp_UpdatedAt = t\<rparr>"

definition svc_GetModelPrice :: "fault \<Rightarrow> gtime \<Rightarrow> gostr \<Rightarrow> billing_db \<Rightarrow> billing_error + ModelPricing" where
  "svc_GetModelPrice fault now modelName db = (case repo_GetModelPricing fault modelName db of
     Inl e \<Rightarrow> Inl e
   | Inr price \<Rightarrow>
       (case price of
          Some p \<Rightarrow> if mp_IsActive p then Inr p else
            (case GetPredefinedPrice modelName of (input, output, found) \<Rightarrow>
               if found then Inr (new_pricing modelName input output now)
               else Inr (new_pricing modelName (fl (1 / 1000)) (fl (2 / 1000)) now))
        | None \<Rightarrow>
            (case GetPredefinedPrice modelName of (input, output, found) \<Rightarrow>
               if found then Inr (new_pricing modelName input output now)
               else Inr (new_pricing modelName (fl (1 / 1000)) (fl (2 / 1000)) now))))"

definition svc_CalculateCost :: "fault \<Rightarrow> gtime \<Rightarrow> gostr \<Rightarrow> int \<Rightarrow> int \<Rightarrow> billing_db \<Rightarrow> billing_error + float64" where
  "svc_CalculateCost fault now modelName inputTokens outputTokens db = (case svc_GetModelPrice fault now modelName db of
     Inl e \<Rightarrow> Inl e
   | Inr price \<Rightarrow> Inr (price_CalculateCost price inputTokens outputTokens))"

definition svc_RecordBilling ::
  "fault \<Rightarrow> fault \<Rightarrow> decimal \<Rightarrow> gtime \<Rightarrow> BillingRecord \<Rightarrow> billing_db \<Rightarrow> (billing_error option \<times> BillingRecord) \<times> billing_db" where
  "svc_RecordBilling priceFault fault dec now rec db =
     (let priced = (if br_InputCost rec = 0 \<and> br_OutputCost rec = 0
            then case svc_GetModelPrice priceFault now (br_Model rec) db of
                Inl e \<Rightarrow> Inl (Wrapped ''failed to get pricing'' e)
              | Inr price \<Rightarrow>
                  let ic = fmul (fdiv (float_of_int (br_InputTokens rec)) 1000) (mp_InputPricePer1K price);
                      oc = fmul (fdiv (float_of_int (br_OutputTokens rec)) 1000) (mp_OutputPricePer1K price)
                  in Inr (rec\<lparr>br_InputCost := ic, br_OutputCost := oc, br_TotalCost := fadd ic oc\<rparr>)
            else Inr rec)
      in case priced of
        Inl e \<Rightarrow> ((Some e, rec), db)
      | Inr rec \<Rightarrow>
          let rec = (if br_Currency rec = [] then rec\<lparr>br_Currency := ''USD''\<rparr> else rec)
          in repo_CreateBillingRecord fault dec now rec db)"

text \<open>The dates of a billing summary: the windows of the budgets, the year, or the last thirty days.\<close>

definition summary_dates :: "location \<Rightarrow> gtime \<Rightarrow> gostr \<Rightarrow> gtime \<times> gtime" where
  "summary_dates loc now period =
     (case date_of loc now of (y, m, d) \<Rightarrow>
      if period = ''daily'' then (let s = time_date loc y m d 0 in (s, time_add s (24 * hour)))
      else if period = ''weekly'' then
        (let s = add_date loc now 0 0 (- weekday (local_day loc now));
             s = (case date_of loc s of (y, m, d) \<Rightarrow> time_date loc y m d 0)
         in (s, time_add s (7 * 24 * hour)))
      else if period = ''monthly'' then (let s = time_date loc y m 1 0 in (s, add_date loc s 0 1 0))
      else if period = ''yearly'' then (time_date loc y 1 1 0, time_date loc (y + 1) 1 1 0)
      else (add_date loc now 0 0 (- 30), now))"

definition svc_GetBillingSummary ::
  "fault \<Rightarrow> fault \<Rightarrow> fault \<Rightarrow> location \<Rightarrow> location \<Rightarrow> gtime \<Rightarrow> int option \<Rightarrow> int option \<Rightarrow> gostr \<Rightarrow> billing_db \<Rightarrow> billing_error + BillingSummary" where
  "svc_GetBillingSummary f1 f2 f3 dbloc loc now orgID userID period db =
     (case summary_dates loc now period of (startDate, endDate) \<Rightarrow>
        repo_GetBillingSummary f1 f2 f3 dbloc orgID userID startDate endDate db)"

text \<open>
  \<open>UpdateModelPricing\<close>. Where no row exists and the caller gives an identifier, the code reads the
  identifier of the row that does not exist; the outcome \<open>None\<close> is that panic.
\<close>

definition svc_UpdateModelPricing ::
  "fault \<Rightarrow> fault \<Rightarrow> decimal \<Rightarrow> gtime \<Rightarrow> ModelPricing \<Rightarrow> billing_db \<Rightarrow> (billing_error option \<times> billing_db) option" where
  "svc_UpdateModelPricing getFault fault dec now p db = (case repo_GetModelPricing getFault (mp_ModelName p) db of
     Inl e \<Rightarrow> Some (Some e, db)
   | Inr None \<Rightarrow>
       if mp_ID p = 0 then (case repo_CreateModelPricing fault dec now p db of ((e, _), db) \<Rightarrow> Some (e, db)) else None
   | Inr (Some existing) \<Rightarrow> Some (repo_UpdateModelPricing fault dec now p db))"

definition svc_ListModelPricing :: "fault \<Rightarrow> billing_db \<Rightarrow> billing_error + ModelPricing list" where
  "svc_ListModelPricing fault db = repo_ListModelPricing fault db"

definition svc_GetBalance :: "fault \<Rightarrow> gtime \<Rightarrow> int option \<Rightarrow> int option \<Rightarrow> billing_db \<Rightarrow> billing_error + Balance" where
  "svc_GetBalance fault now orgID userID db = repo_GetBalance fault now orgID userID db"

text \<open>The three calls of a balance change, with their own faults.\<close>

definition svc_AddCredit ::
  "fault \<times> fault \<times> fault \<Rightarrow> decimal \<Rightarrow> gtime \<Rightarrow> int option \<Rightarrow> int option \<Rightarrow> float64 \<Rightarrow> gostr \<Rightarrow> billing_db
     \<Rightarrow> billing_error option \<times> billing_db" where
  "svc_AddCredit faults dec now orgID userID amount description db =
     (case faults of (f1, f2, f3) \<Rightarrow>
      if amount \<le> 0 then (Some (BadAmount ''credit amount must be positive''), db)
      else (case repo_GetBalance f1 now orgID userID db of
        Inl e \<Rightarrow> (Some e, db)
      | Inr balance \<Rightarrow>
          let newBalance = fadd (ba_Balance balance) amount in
          (case repo_UpdateBalance f2 dec now orgID userID newBalance db of
             (Some e, db) \<Rightarrow> (Some e, db)
           | (None, db) \<Rightarrow> repo_CreateTransaction f3 dec now
               \<lparr>tx_ID = 0, tx_OrganizationID = orgID, tx_UserID = userID, tx_Amount = amount, tx_BalanceBefore = ba_Balance balance,
                tx_BalanceAfter = newBalance, tx_Type = ''credit'', tx_Description = description, tx_ReferenceID = [],
                tx_CreatedAt = zero_time\<rparr> db)))"

text \<open>What \<open>DeductBalance\<close> does with the balance it has read; nothing protects the two parts from other calls.\<close>

definition deduct_with ::
  "fault \<Rightarrow> fault \<Rightarrow> decimal \<Rightarrow> gtime \<Rightarrow> int option \<Rightarrow> int option \<Rightarrow> float64 \<Rightarrow> gostr \<Rightarrow> gostr \<Rightarrow> Balance \<Rightarrow> billing_db
     \<Rightarrow> billing_error option \<times> billing_db" where
  "deduct_with f2 f3 dec now orgID userID amount description referenceID balance db =
     (if ba_Balance balance < amount then (Some (InsufficientBalance (ba_Balance balance) amount), db)
      else
        let newBalance = fsub (ba_Balance balance) amount in
        (case repo_UpdateBalance f2 dec now orgID userID newBalance db of
           (Some e, db) \<Rightarrow> (Some e, db)
         | (None, db) \<Rightarrow> repo_CreateTransaction f3 dec now
             \<lparr>tx_ID = 0, tx_OrganizationID = orgID, tx_UserID = userID, tx_Amount = - amount, tx_BalanceBefore = ba_Balance balance,
              tx_BalanceAfter = newBalance, tx_Type = ''debit'', tx_Description = description, tx_ReferenceID = referenceID,
              tx_CreatedAt = zero_time\<rparr> db))"

definition svc_DeductBalance ::
  "fault \<times> fault \<times> fault \<Rightarrow> decimal \<Rightarrow> gtime \<Rightarrow> int option \<Rightarrow> int option \<Rightarrow> float64 \<Rightarrow> gostr \<Rightarrow> gostr \<Rightarrow> billing_db
     \<Rightarrow> billing_error option \<times> billing_db" where
  "svc_DeductBalance faults dec now orgID userID amount description referenceID db =
     (case faults of (f1, f2, f3) \<Rightarrow>
      if amount \<le> 0 then (Some (BadAmount ''deduction amount must be positive''), db)
      else (case repo_GetBalance f1 now orgID userID db of
        Inl e \<Rightarrow> (Some e, db)
      | Inr balance \<Rightarrow> deduct_with f2 f3 dec now orgID userID amount description referenceID balance db))"

definition svc_CheckBalance :: "fault \<Rightarrow> gtime \<Rightarrow> int option \<Rightarrow> int option \<Rightarrow> float64 \<Rightarrow> billing_db \<Rightarrow> billing_error + bool" where
  "svc_CheckBalance fault now orgID userID requiredAmount db = (case repo_GetBalance fault now orgID userID db of
     Inl e \<Rightarrow> Inl e
   | Inr balance \<Rightarrow> Inr (ba_Balance balance \<ge> requiredAmount))"

text \<open>The loop over the predefined prices in the order \<open>ks\<close> of the map; failed insertions are only logged.\<close>

fun init_pricing :: "(gostr \<Rightarrow> fault \<times> fault) \<Rightarrow> decimal \<Rightarrow> gtime \<Rightarrow> (gostr \<times> float64 \<times> float64) list \<Rightarrow> billing_db
     \<Rightarrow> billing_error option \<times> billing_db" where
  "init_pricing faults dec now [] db = (None, db)"
| "init_pricing faults dec now ((modelName, input, output) # ps) db =
     (case repo_GetModelPricing (fst (faults modelName)) modelName db of
        Inl e \<Rightarrow> (Some e, db)
      | Inr (Some existing) \<Rightarrow> init_pricing faults dec now ps db
      | Inr None \<Rightarrow> init_pricing faults dec now ps
          (snd (repo_CreateModelPricing (snd (faults modelName)) dec now (new_pricing modelName input output zero_time) db)))"

definition svc_InitializeDefaultPricing ::
  "(gostr \<Rightarrow> fault \<times> fault) \<Rightarrow> decimal \<Rightarrow> gtime \<Rightarrow> gostr list \<Rightarrow> billing_db \<Rightarrow> billing_error option \<times> billing_db" where
  "svc_InitializeDefaultPricing faults dec now ks db =
     init_pricing faults dec now (range_of ks (map_of PredefinedModelPrices)) db"

section \<open>Costs\<close>

lemma token_cost_mono:
  "i \<le> j \<Longrightarrow> 0 \<le> c \<Longrightarrow> fmul (fdiv (float_of_int i) 1000) c \<le> fmul (fdiv (float_of_int j) 1000) c"
  unfolding float_ops by (intro fl_mono mult_right_mono divide_right_mono) simp_all

lemma token_cost_zero [simp]: "fmul (fdiv (float_of_int 0) 1000) c = 0"
  by (simp add: float_ops)

text \<open>The cost of a request under a price list without negative prices never falls when its tokens
  grow, in spite of the rounding of every step, and is not negative for counts that are not;
  pricing without batch tokens is the ordinary pricing.\<close>

theorem billing_cost_monotone:
  assumes "0 \<le> mp_InputPricePer1K p" "0 \<le> mp_OutputPricePer1K p" "i \<le> i'" "j \<le> j'"
  shows "price_CalculateCost p i j \<le> price_CalculateCost p i' j'
    \<and> (0 \<le> i \<longrightarrow> 0 \<le> j \<longrightarrow> 0 \<le> price_CalculateCost p i j)
    \<and> (is_int64 i \<longrightarrow> price_CalculateCostWithBatch p i j 0 = price_CalculateCost p i j)"
proof -
  have m: "price_CalculateCost p a b \<le> price_CalculateCost p a' b'" if "a \<le> a'" "b \<le> b'" for a b a' b'
    unfolding price_CalculateCost_def Let_def fadd_def
    using token_cost_mono [OF that(1) assms(1)] token_cost_mono [OF that(2) assms(2)] by (intro fl_mono add_mono)
  have "price_CalculateCost p 0 0 = 0" by (simp add: price_CalculateCost_def fadd_def)
  moreover have "fadd (fmul x y) 0 = fmul x y" for x y
    using is_float64_ops(3) [of x y] by (simp add: fadd_def is_float64_def)
  ultimately show ?thesis using m [OF assms(3,4)] m [of 0 i 0 j]
    by (simp add: price_CalculateCost_def price_CalculateCostWithBatch_def Let_def)
qed

theorem billing_cost_monotone_witness:
  "price_CalculateCost (new_pricing ''m'' 1 2 0) 3 4 \<le> price_CalculateCost (new_pricing ''m'' 1 2 0) 5 4"
  using billing_cost_monotone [of "new_pricing ''m'' 1 2 0" 3 5 4 4] by (simp add: new_pricing_def)

text \<open>The price of a model: the active row, else the predefined price, else the default.\<close>

lemma GetModelPrice_cases:
  "svc_GetModelPrice None now m db =
     (case find (\<lambda>p. mp_ModelName p = m) (db_pricing db) of
        Some p \<Rightarrow> if mp_IsActive p then Inr (read_price p)
          else Inr (case map_of PredefinedModelPrices m of Some (i, j) \<Rightarrow> new_pricing m i j now | None \<Rightarrow> new_pricing m (fl (1 / 1000)) (fl (2 / 1000)) now)
      | None \<Rightarrow> Inr (case map_of PredefinedModelPrices m of Some (i, j) \<Rightarrow> new_pricing m i j now | None \<Rightarrow> new_pricing m (fl (1 / 1000)) (fl (2 / 1000)) now))"
  by (auto simp: svc_GetModelPrice_def repo_GetModelPricing_def GetPredefinedPrice_def read_price_def split: option.splits)

text \<open>A billing record that carries no cost is stored with the cost that \<open>CalculateCost\<close> quotes for its
  model and tokens, in dollars unless it names a currency, at the time of the call; the record count
  grows by one and nothing else changes.\<close>

theorem billing_record_as_quoted:
  assumes "br_InputCost r = 0" "br_OutputCost r = 0"
  shows "\<exists>r'. svc_RecordBilling None None dec now r db
       = ((None, r'), db\<lparr>db_records := db_records db @ [stored_record dec r'], db_record_serial := db_record_serial db + 1\<rparr>)
     \<and> Inr (br_TotalCost r') = svc_CalculateCost None now (br_Model r) (br_InputTokens r) (br_OutputTokens r) db
     \<and> br_TotalCost r' = fadd (br_InputCost r') (br_OutputCost r')
     \<and> br_Currency r' = (if br_Currency r = [] then ''USD'' else br_Currency r) \<and> br_CreatedAt r' = now
     \<and> br_Model r' = br_Model r \<and> br_InputTokens r' = br_InputTokens r \<and> br_OutputTokens r' = br_OutputTokens r"
proof -
  have "\<exists>p. svc_GetModelPrice None now (br_Model r) db = Inr p"
    by (cases "find (\<lambda>p. mp_ModelName p = br_Model r) (db_pricing db)") (simp_all add: GetModelPrice_cases)
  then obtain p where p: "svc_GetModelPrice None now (br_Model r) db = Inr p" by blast
  show ?thesis
    by (rule exI [of _ "snd (fst (svc_RecordBilling None None dec now r db))"])
      (simp add: svc_RecordBilling_def p assms Let_def repo_CreateBillingRecord_def svc_CalculateCost_def price_CalculateCost_def)
qed

definition demo_billing_record :: BillingRecord where
  "demo_billing_record = \<lparr>br_ID = 0, br_OrganizationID = Some 1, br_UserID = None, br_APIKeyID = [], br_Model = ''gpt-4o-mini'', br_InputTokens = 100,
     br_OutputTokens = 10, br_InputCost = 0, br_OutputCost = 0, br_TotalCost = 0, br_Currency = [], br_ChannelID = None,
     br_TokenGroupID = None, br_RequestID = [], br_CreatedAt = 0\<rparr>"

definition demo_db :: "Balance list \<Rightarrow> gostr list \<Rightarrow> billing_db" where
  "demo_db bs cols = \<lparr>db_pricing = [], db_records = [], db_balance_columns = cols, db_balances = bs, db_transactions = [],
     db_pricing_serial = 1, db_record_serial = 1, db_transaction_serial = 1\<rparr>"

theorem billing_record_as_quoted_witness:
  "\<exists>r' :: BillingRecord. Inr (br_TotalCost r') = svc_CalculateCost None 9 ''gpt-4o-mini'' 100 10 (demo_db [] schema_balance_columns) \<and> br_Currency r' = ''USD''"
  using billing_record_as_quoted [of demo_billing_record "\<lambda>s x. x" 9 "demo_db [] schema_balance_columns"]
  by (auto simp: demo_billing_record_def)

section \<open>Default prices\<close>

lemma CreateModelPricing_None:
  "m \<notin> mp_ModelName ` set (db_pricing db) \<Longrightarrow>
     snd (repo_CreateModelPricing None dec now (new_pricing m i j t) db)
     = db\<lparr>db_pricing := db_pricing db @ [stored_price dec ((new_pricing m i j t)\<lparr>mp_UpdatedAt := now, mp_ID := db_pricing_serial db\<rparr>)],
         db_pricing_serial := db_pricing_serial db + 1\<rparr>"
  by (simp add: repo_CreateModelPricing_def new_pricing_def Let_def)

lemma stored_price_name [simp]: "mp_ModelName (stored_price dec p) = mp_ModelName p"
  by (simp add: stored_price_def)

lemma find_name_iff: "find (\<lambda>p. mp_ModelName p = m) ps = None \<longleftrightarrow> m \<notin> mp_ModelName ` set ps"
  by (auto simp: find_None_iff)

lemma init_pricing_prefix:
  "\<exists>new. snd (init_pricing (\<lambda>_. (None, None)) dec now ps db) = db\<lparr>db_pricing := db_pricing db @ new, db_pricing_serial := db_pricing_serial db + int (length new)\<rparr>
     \<and> mp_ModelName ` set (db_pricing db @ new) = mp_ModelName ` set (db_pricing db) \<union> fst ` set ps
     \<and> fst (init_pricing (\<lambda>_. (None, None)) dec now ps db) = None"
proof (induction ps arbitrary: db)
  case (Cons x ps)
  obtain m i j where x: "x = (m, i, j)" by (cases x)
  show ?case
  proof (cases "m \<in> mp_ModelName ` set (db_pricing db)")
    case True
    then have "init_pricing (\<lambda>_. (None, None)) dec now (x # ps) db = init_pricing (\<lambda>_. (None, None)) dec now ps db"
      using find_name_iff [of m "db_pricing db"] by (auto simp: x repo_GetModelPricing_def split: option.splits)
    moreover have "mp_ModelName ` set (db_pricing db) \<union> fst ` set (x # ps) = mp_ModelName ` set (db_pricing db) \<union> fst ` set ps"
      using True by (auto simp: x)
    ultimately show ?thesis using Cons [of db] by (simp only:)
  next
    case False
    let ?q = "stored_price dec ((new_pricing m i j zero_time)\<lparr>mp_UpdatedAt := now, mp_ID := db_pricing_serial db\<rparr>)"
    let ?db = "db\<lparr>db_pricing := db_pricing db @ [?q], db_pricing_serial := db_pricing_serial db + 1\<rparr>"
    have s: "init_pricing (\<lambda>_. (None, None)) dec now (x # ps) db = init_pricing (\<lambda>_. (None, None)) dec now ps ?db"
      using False find_name_iff [of m "db_pricing db"] CreateModelPricing_None [OF False, of dec now i j zero_time]
      by (simp add: x repo_GetModelPricing_def)
    obtain new where n: "snd (init_pricing (\<lambda>_. (None, None)) dec now ps ?db) = ?db\<lparr>db_pricing := db_pricing ?db @ new, db_pricing_serial := db_pricing_serial ?db + int (length new)\<rparr>"
      "mp_ModelName ` set (db_pricing ?db @ new) = mp_ModelName ` set (db_pricing ?db) \<union> fst ` set ps"
      "fst (init_pricing (\<lambda>_. (None, None)) dec now ps ?db) = None"
      using Cons [of ?db] by blast
    have "mp_ModelName ?q = m" by (simp add: new_pricing_def)
    then show ?thesis unfolding s using n by (intro exI [of _ "?q # new"]) (simp add: x)
  qed
qed (auto intro!: exI [of _ "[]"])

text \<open>Initialising the default prices on a database that reports no errors keeps every row that is
  there and makes a price row for each predefined model, in whatever order the models are taken;
  doing it again, in any order, changes nothing.\<close>

theorem billing_defaults_idempotent:
  assumes "enumerates ks (map_of PredefinedModelPrices)" "enumerates ks' (map_of PredefinedModelPrices)"
  shows "let db' = snd (svc_InitializeDefaultPricing (\<lambda>_. (None, None)) dec now ks db)
    in prefix (db_pricing db) (db_pricing db')
     \<and> mp_ModelName ` set (db_pricing db') = mp_ModelName ` set (db_pricing db) \<union> fst ` set PredefinedModelPrices
     \<and> svc_InitializeDefaultPricing (\<lambda>_. (None, None)) dec now' ks' db' = (None, db')"
proof -
  have keys: "fst ` set (range_of qs (map_of PredefinedModelPrices)) = fst ` set PredefinedModelPrices"
    if "enumerates qs (map_of PredefinedModelPrices)" for qs
  proof -
    have "fst ` set (range_of qs (map_of PredefinedModelPrices)) = set qs \<inter> dom (map_of PredefinedModelPrices)"
      unfolding set_range_of by force
    then show ?thesis using that dom_map_of_conv_image_fst [of PredefinedModelPrices] by (simp add: enumerates_def)
  qed
  let ?run = "\<lambda>now ks. init_pricing (\<lambda>_. (None, None)) dec now (range_of ks (map_of PredefinedModelPrices))"
  obtain new where n: "snd (?run now ks db) = db\<lparr>db_pricing := db_pricing db @ new, db_pricing_serial := db_pricing_serial db + int (length new)\<rparr>"
    "mp_ModelName ` set (db_pricing db @ new) = mp_ModelName ` set (db_pricing db) \<union> fst ` set PredefinedModelPrices"
    using init_pricing_prefix [of dec now "range_of ks (map_of PredefinedModelPrices)" db] keys [OF assms(1)] by auto
  let ?db = "snd (?run now ks db)"
  have same: "init_pricing (\<lambda>_. (None, None)) dec now' ps ?db = (None, ?db)" if "fst ` set ps \<subseteq> mp_ModelName ` set (db_pricing ?db)" for ps
    using that
  proof (induction ps)
    case (Cons x ps)
    obtain m i j where x: "x = (m, i, j)" by (cases x)
    then have "find (\<lambda>p. mp_ModelName p = m) (db_pricing ?db) \<noteq> None"
      using Cons.prems find_name_iff [of m "db_pricing ?db"] by auto
    then show ?case using Cons by (auto simp: x repo_GetModelPricing_def)
  qed simp
  have "?run now' ks' ?db = (None, ?db)" by (rule same) (use keys [OF assms(2)] n in auto)
  then show ?thesis using n by (simp add: svc_InitializeDefaultPricing_def Let_def)
qed

lemma predefined_keys: "enumerates (map fst PredefinedModelPrices) (map_of PredefinedModelPrices)"
proof -
  have "distinct (map fst PredefinedModelPrices)" by (simp add: PredefinedModelPrices_def)
  then show ?thesis by (simp add: enumerates_def dom_map_of_conv_image_fst)
qed

theorem billing_defaults_idempotent_witness:
  "let db' = snd (svc_InitializeDefaultPricing (\<lambda>_. (None, None)) (\<lambda>s x. x) 5 (map fst PredefinedModelPrices) (demo_db [] []))
   in svc_InitializeDefaultPricing (\<lambda>_. (None, None)) (\<lambda>s x. x) 7 (map fst PredefinedModelPrices) db' = (None, db')"
  using billing_defaults_idempotent [OF predefined_keys predefined_keys, of "\<lambda>s x. x" 5 "demo_db [] []" 7] by (simp only: Let_def)

section \<open>Balances\<close>

text \<open>
  The schema has no column \<open>id\<close> in the table of balances, which \<open>GetBalance\<close> selects: on that schema
  no balance can be read, credited, deducted or checked.
\<close>

theorem billing_balances_unreadable:
  assumes "db_balance_columns db = schema_balance_columns"
  shows "\<exists>e. svc_GetBalance f1 now orgID userID db = Inl e"
    and "\<exists>e. svc_CheckBalance f1 now orgID userID amount db = Inl e"
    and "\<exists>e. svc_AddCredit (f1, f2, f3) dec now orgID userID amount d db = (Some e, db)"
    and "\<exists>e. svc_DeductBalance (f1, f2, f3) dec now orgID userID amount d ref db = (Some e, db)"
proof -
  have "missing_column balance_select schema_balance_columns = Some ''id''"
    by (simp add: missing_column_def balance_select_def schema_balance_columns_def)
  then obtain e where e: "repo_GetBalance f1 now orgID userID db = Inl e"
    using assms by (cases f1) (simp_all add: repo_GetBalance_def)
  show "\<exists>e. svc_GetBalance f1 now orgID userID db = Inl e" "\<exists>e. svc_CheckBalance f1 now orgID userID amount db = Inl e"
    "\<exists>e. svc_AddCredit (f1, f2, f3) dec now orgID userID amount d db = (Some e, db)"
    "\<exists>e. svc_DeductBalance (f1, f2, f3) dec now orgID userID amount d ref db = (Some e, db)"
    by (simp_all add: svc_GetBalance_def svc_CheckBalance_def svc_AddCredit_def svc_DeductBalance_def e)
qed

text \<open>Where the column exists, whole calls keep every balance from falling below zero, whatever fails.\<close>

datatype balance_op = CreditOp float64 gostr | DeductOp float64 gostr gostr

record balance_call =
  bcl_faults :: "fault \<times> fault \<times> fault"
  bcl_now :: gtime
  bcl_org :: "int option"
  bcl_user :: "int option"
  bcl_op :: balance_op

definition balance_step :: "decimal \<Rightarrow> balance_call \<Rightarrow> billing_db \<Rightarrow> billing_db" where
  "balance_step dec c db = snd (case bcl_op c of
     CreditOp a d \<Rightarrow> svc_AddCredit (bcl_faults c) dec (bcl_now c) (bcl_org c) (bcl_user c) a d db
   | DeductOp a d r \<Rightarrow> svc_DeductBalance (bcl_faults c) dec (bcl_now c) (bcl_org c) (bcl_user c) a d r db)"

definition balances_ok :: "billing_db \<Rightarrow> bool" where
  "balances_ok db \<longleftrightarrow> (\<forall>b \<in> set (db_balances db). 0 \<le> ba_Balance b)"

lemma GetBalance_nonneg: "balances_ok db \<Longrightarrow> repo_GetBalance f now orgID userID db = Inr b \<Longrightarrow> 0 \<le> ba_Balance b"
  by (auto simp: repo_GetBalance_def balances_ok_def find_Some_iff fl_nonneg split: option.splits)

lemma UpdateBalance_ok: "balances_ok db \<Longrightarrow> 0 \<le> dec 4 x \<Longrightarrow> balances_ok (snd (repo_UpdateBalance f dec now orgID userID x db))"
  by (auto simp: repo_UpdateBalance_def balances_ok_def split: option.splits)

lemma CreateTransaction_balances [simp]: "db_balances (snd (repo_CreateTransaction f dec now t db)) = db_balances db"
  by (simp add: repo_CreateTransaction_def Let_def split: option.splits)

lemma update_then_record_ok:
  assumes "balances_ok db" "0 \<le> dec 4 x"
  shows "balances_ok (snd (case repo_UpdateBalance f dec now orgID userID x db of
    (Some e, db) \<Rightarrow> (Some e, db) | (None, db) \<Rightarrow> repo_CreateTransaction g dec now t db))"
  using UpdateBalance_ok [of db dec x f now orgID userID] assms
  by (cases "repo_UpdateBalance f dec now orgID userID x db"; cases "fst (repo_UpdateBalance f dec now orgID userID x db)")
    (auto simp: balances_ok_def)

text \<open>C11: No sequence of credits and deductions makes a balance negative, whatever calls of the database
  fail in between, provided that decimal storage does not turn an amount that is not negative into a
  negative one.\<close>

theorem billing_balances_never_negative:
  assumes "\<And>x. 0 \<le> x \<Longrightarrow> 0 \<le> dec 4 x" "balances_ok db"
  shows "balances_ok (fold (balance_step dec) cs db)"
  using assms(2)
proof (induction cs arbitrary: db)
  case (Cons c cs)
  obtain f1 f2 f3 where f: "bcl_faults c = (f1, f2, f3)" by (cases "bcl_faults c")
  have "balances_ok (balance_step dec c db)"
  proof (cases "repo_GetBalance f1 (bcl_now c) (bcl_org c) (bcl_user c) db")
    case (Inl e)
    then show ?thesis using Cons.prems by (cases "bcl_op c") (simp_all add: balance_step_def f svc_AddCredit_def svc_DeductBalance_def)
  next
    case (Inr b)
    note b = GetBalance_nonneg [OF Cons.prems Inr]
    have "0 \<le> fadd (ba_Balance b) a" if "0 < a" for a using b that by (simp add: fadd_def fl_nonneg)
    moreover have "0 \<le> fsub (ba_Balance b) a" if "a \<le> ba_Balance b" for a using that by (simp add: fsub_def fl_nonneg)
    ultimately show ?thesis using Inr Cons.prems assms(1)
      by (cases "bcl_op c") (simp_all add: balance_step_def f svc_AddCredit_def svc_DeductBalance_def deduct_with_def Let_def update_then_record_ok)
  qed
  then show ?case using Cons.IH by simp
qed simp

definition round4 :: decimal where
  "round4 s x = of_int \<lfloor>x * 10 ^ s + 1 / 2\<rfloor> / 10 ^ s"

theorem billing_balances_never_negative_witness:
  "balances_ok (fold (balance_step round4)
     [\<lparr>bcl_faults = (None, None, None), bcl_now = 1, bcl_org = Some 1, bcl_user = Some 2, bcl_op = CreditOp 10 ''c''\<rparr>,
      \<lparr>bcl_faults = (None, None, Some ''timeout''), bcl_now = 2, bcl_org = Some 1, bcl_user = Some 2, bcl_op = DeductOp 7 ''d'' ''r''\<rparr>]
     (demo_db [] balance_select))"
proof (rule billing_balances_never_negative)
  fix x :: float64
  assume "0 \<le> x"
  then have "0 \<le> x * 10 ^ 4 + 1 / 2" by simp
  then show "0 \<le> round4 4 x" by (simp add: round4_def)
next
  show "balances_ok (demo_db [] balance_select)" by (simp add: balances_ok_def demo_db_def)
qed

text \<open>
  The balance is read and written in separate calls. When another deduction reads in between, both
  succeed against the same money.
\<close>

definition demo_balance :: "float64 \<Rightarrow> Balance" where
  "demo_balance x = \<lparr>ba_ID = 0, ba_OrganizationID = Some 1, ba_UserID = Some 2, ba_Balance = x, ba_Currency = ''USD'', ba_UpdatedAt = 0\<rparr>"

theorem billing_double_spend:
  "let db = demo_db [demo_balance 10] balance_select in
   \<exists>b. repo_GetBalance None 5 (Some 1) (Some 2) db = Inr b
   \<and> (let (e1, db1) = deduct_with None None (\<lambda>s x. x) 6 (Some 1) (Some 2) 10 ''x'' ''r1'' b db;
          (e2, db2) = deduct_with None None (\<lambda>s x. x) 7 (Some 1) (Some 2) 10 ''y'' ''r2'' b db1
      in e1 = None \<and> e2 = None \<and> map ba_Balance (db_balances db2) = [0] \<and> map tx_Amount (db_transactions db2) = [- 10, - 10])"
proof -
  have "missing_column balance_select balance_select = None" by (simp add: missing_column_def find_None_iff)
  moreover have "fl 10 = 10" using fl_of_int [of 10] by simp
  ultimately show ?thesis
    by (simp add: demo_db_def demo_balance_def repo_GetBalance_def deduct_with_def repo_UpdateBalance_def
        repo_CreateTransaction_def stored_transaction_def fsub_def Let_def)
qed

text \<open>A credit whose transaction cannot be recorded is reported as failed but has been applied: a retry credits twice.\<close>

theorem billing_failed_credit_applied:
  "let (e1, db1) = svc_AddCredit (None, None, Some ''timeout'') (\<lambda>s x. x) 6 (Some 1) (Some 2) 10 ''c'' (demo_db [] balance_select);
       (e2, db2) = svc_AddCredit (None, None, None) (\<lambda>s x. x) 7 (Some 1) (Some 2) 10 ''c'' db1
   in e1 \<noteq> None \<and> e2 = None \<and> map ba_Balance (db_balances db2) = [20] \<and> length (db_transactions db2) = 1"
proof -
  have "missing_column balance_select balance_select = None" by (simp add: missing_column_def find_None_iff)
  moreover have "fl 10 = 10" "fl 20 = 20" using fl_of_int [of 10] fl_of_int [of 20] by simp_all
  ultimately show ?thesis
    by (simp add: demo_db_def repo_GetBalance_def svc_AddCredit_def repo_UpdateBalance_def
        repo_CreateTransaction_def stored_transaction_def fadd_def Let_def)
qed

section \<open>What the service does against its intent\<close>

text \<open>Where no row exists, a price with an identifier makes the update panic; where one exists, a price without an identifier is not found.\<close>

theorem billing_update_panics:
  "mp_ModelName p \<notin> mp_ModelName ` set (db_pricing db) \<Longrightarrow> mp_ID p \<noteq> 0
     \<Longrightarrow> svc_UpdateModelPricing None f dec now p db = None"
  using find_name_iff [of "mp_ModelName p" "db_pricing db"]
  by (simp add: svc_UpdateModelPricing_def repo_GetModelPricing_def)

theorem billing_update_needs_id:
  assumes "mp_ModelName p \<in> mp_ModelName ` set (db_pricing db)" "\<forall>q \<in> set (db_pricing db). 0 < mp_ID q" "mp_ID p = 0"
  shows "svc_UpdateModelPricing None None dec now p db = Some (Some (NoSuchRow ''model pricing not found''), db)"
proof -
  obtain q where "find (\<lambda>q. mp_ModelName q = mp_ModelName p) (db_pricing db) = Some q"
    using assms(1) find_name_iff [of "mp_ModelName p" "db_pricing db"] by auto
  moreover have "0 \<notin> mp_ID ` set (db_pricing db)" using assms(2) by force
  ultimately show ?thesis using assms(3)
    by (simp add: svc_UpdateModelPricing_def repo_GetModelPricing_def repo_UpdateModelPricing_def)
qed

text \<open>The period of a summary is never set.\<close>

theorem billing_summary_period_unset:
  "svc_GetBillingSummary f1 f2 f3 dbloc loc now orgID userID period db = Inr s \<Longrightarrow> bs_Period s = []"
  by (auto simp: svc_GetBillingSummary_def repo_GetBillingSummary_def Let_def split: prod.splits option.splits)

text \<open>Costs are stored with four decimals: one below half of the last place is stored, and summed up, as nothing.\<close>

theorem billing_small_costs_vanish:
  assumes "\<And>x. \<exists>k :: int. dec 4 x = of_int k / 10000" "\<And>x. \<bar>dec 4 x - x\<bar> \<le> 1 / 20000"
    and "\<forall>r \<in> set rs. \<bar>br_TotalCost r\<bar> < 1 / 20000"
  shows "sum_cost (map (stored_record dec) rs) = 0"
proof -
  have "dec 4 x = 0" if x: "\<bar>x\<bar> < 1 / 20000" for x
  proof -
    obtain k :: int where k: "dec 4 x = of_int k / 10000" using assms(1) by blast
    have "\<bar>dec 4 x\<bar> < 1 / 10000" using assms(2) [of x] x by linarith
    then have "\<bar>of_int k :: rat\<bar> < 1" unfolding k by simp
    then show ?thesis by (simp add: k)
  qed
  then have "map br_TotalCost (map (stored_record dec) rs) = map (\<lambda>r. 0) rs"
    using assms(3) by (simp add: stored_record_def)
  then have "sum_list (map br_TotalCost (map (stored_record dec) rs)) = 0" by (simp only: sum_list_0)
  then show ?thesis by (simp only: sum_cost_def fl_0)
qed

section \<open>Summaries\<close>

text \<open>In a zone of fixed offset, a summary for the day, the week, the month or the year covers the present instant, and its cost,
  tokens and requests are those of exactly the records of the organization and user that
  were created from its start up to its end.\<close>

theorem billing_summary_exact:
  assumes "period \<in> {''daily'', ''weekly'', ''monthly'', ''yearly''}"
    and "svc_GetBillingSummary f1 f2 f3 dbloc (fixed_zone off) now orgID userID period db = Inr s"
  shows "bs_StartDate s \<le> now \<and> now < bs_EndDate s
    \<and> (let rs = filter (in_summary orgID userID (bs_StartDate s) (bs_EndDate s)) (db_records db)
       in bs_TotalRequests s = int (length rs) \<and> bs_TotalCost s = sum_cost rs
        \<and> bs_TotalInputTokens s = sum_list (map br_InputTokens rs) \<and> bs_TotalOutputTokens s = sum_list (map br_OutputTokens rs))"
proof -
  obtain y m d where d: "date_of (fixed_zone off) now = (y, m, d)" by (cases "date_of (fixed_zone off) now")
  have year: "time_date (fixed_zone off) y 1 1 0 \<le> now" "now < time_date (fixed_zone off) (y + 1) 1 1 0"
  proof -
    obtain y' i yday where c: "year_day (local_day (fixed_zone off) now) = (y', yday)" "civil (local_day (fixed_zone off) now) = (y', int i + 1, yday - days_before_month (leap_year y') i + 1)"
      "local_day (fixed_zone off) now = days_before_year y' + yday" "0 \<le> yday" "yday < 365 \<or> yday = 365 \<and> leap_year y'"
      by (rule civil_cases [of "local_day (fixed_zone off) now"])
    then have "y' = y" using d by (simp add: date_of_def)
    moreover have "day_number z 1 1 = days_before_year z" for z
      by (simp add: day_number_def days_before_month_def month_starts_def)
    ultimately show "time_date (fixed_zone off) y 1 1 0 \<le> now" "now < time_date (fixed_zone off) (y + 1) 1 1 0"
      using c days_in_year [of y] by (auto intro!: midnight_le midnight_gt)
  qed
  have w: "summary_dates (fixed_zone off) now ''daily'' = (getWindowStart (fixed_zone off) now BudgetPeriodDaily, getWindowEnd (fixed_zone off) now BudgetPeriodDaily)"
    "summary_dates (fixed_zone off) now ''weekly'' = (getWindowStart (fixed_zone off) now BudgetPeriodWeekly, getWindowEnd (fixed_zone off) now BudgetPeriodWeekly)"
    "summary_dates (fixed_zone off) now ''monthly'' = (getWindowStart (fixed_zone off) now BudgetPeriodMonthly, getWindowEnd (fixed_zone off) now BudgetPeriodMonthly)"
    "summary_dates (fixed_zone off) now ''yearly'' = (time_date (fixed_zone off) y 1 1 0, time_date (fixed_zone off) (y + 1) 1 1 0)"
    by (simp_all add: summary_dates_def getWindowStart_def getWindowEnd_def Let_def d)
  obtain a e where ae: "summary_dates (fixed_zone off) now period = (a, e)" by (cases "summary_dates (fixed_zone off) now period")
  then have "a \<le> now" "now < e" using assms(1) w year window_encloses(1) [of off now] window_encloses(2) [of now off] by auto
  moreover have "repo_GetBillingSummary f1 f2 f3 dbloc orgID userID a e db = Inr s" using assms(2) by (simp add: svc_GetBillingSummary_def ae)
  ultimately show ?thesis by (auto simp: repo_GetBillingSummary_def Let_def split: option.splits)
qed

theorem billing_summary_exact_witness:
  "\<exists>s :: BillingSummary. svc_GetBillingSummary None None None (fixed_zone 0) (fixed_zone 0) 5 None None ''daily'' (demo_db [] []) = Inr s
     \<and> bs_StartDate s \<le> 5 \<and> bs_TotalRequests s = 0"
proof -
  have "\<exists>s. svc_GetBillingSummary None None None (fixed_zone 0) (fixed_zone 0) 5 None None ''daily'' (demo_db [] []) = Inr s"
    by (cases "summary_dates (fixed_zone 0) 5 ''daily''") (simp add: svc_GetBillingSummary_def repo_GetBillingSummary_def Let_def)
  then obtain s where s: "svc_GetBillingSummary None None None (fixed_zone 0) (fixed_zone 0) 5 None None ''daily'' (demo_db [] []) = Inr s" by blast
  from billing_summary_exact [OF _ s] show ?thesis using s by (simp add: demo_db_def Let_def)
qed

end
