(* ===== verification/Strategies.thy ===== *)
theory Strategies
  imports Go_Float Go_Sort Go_Calendar Go_Strings
begin

text \<open>
  The selection strategies of \<open>routing/strategies\<close> (\<open>strategy.go\<close>, \<open>strategies_basic.go\<close>,
  \<open>strategies_advanced.go\<close>): the scores of a routing context, the fourteen strategies with their
  configuration and state, and the registry. A strategy object is a value of one datatype and
  the interface method \<open>SelectProvider\<close> dispatches on it. What a call takes from outside, the random
  draws, the clock and the sorting of long slices, is its environment. Health, stability and
  task fit lie between 0 and 1 and tiers from 0 to 3, as the fields document, but nothing enforces it:
  the scores of cost, latency and tier divide by a number that is zero for a negative price, a negative
  latency and tier -1, and are infinite there. The strategies are not synchronised; a call is one step.
\<close>

section \<open>Providers and contexts\<close>

record RouteProvider =
  rp_ID :: gostr
  rp_Name :: gostr
  rp_Tier :: int
  rp_OAuthSupport :: bool
  rp_Health :: float64
  rp_QuotaUsed :: int
  rp_QuotaLimit :: int
  rp_CostPer1KIn :: float64
  rp_CostPer1KOut :: float64
  rp_LatencyMs :: int
  rp_StabilityScore :: float64
  rp_TaskFitScores :: "(gostr, float64) gomap option"
  rp_ModelIDs :: "gostr list"
  rp_IsHealthy :: bool
  rp_LastFailureTime :: gtime
  rp_LastSuccessTime :: gtime

record RoutingContext =
  rc_TaskType :: gostr
  rc_CostBudget :: float64
  rc_LatencyBudget :: duration
  rc_RequiredCaps :: "gostr list"
  rc_ContextSize :: int
  rc_SessionID :: gostr
  rc_Providers :: "RouteProvider list"
  rc_HealthScores :: "(gostr, float64) gomap"
  rc_QuotaScores :: "(gostr, float64) gomap"
  rc_CostScores :: "(gostr, go_float) gomap"
  rc_LatencyScores :: "(gostr, go_float) gomap"
  rc_TaskFitScores :: "(gostr, float64) gomap"
  rc_SpecificityScores :: "(gostr, float64) gomap"
  rc_StabilityScores :: "(gostr, float64) gomap"
  rc_TierPriorities :: "(gostr, int) gomap"
  rc_TierAffinities :: "(gostr, float64) gomap"

datatype select_error = ErrNoProviderAvailable | ErrNoHealthyProvider | ErrInvalidConfig

definition rp_Capabilities :: "RouteProvider \<Rightarrow> gostr list" where
  "rp_Capabilities p =
     (if rp_OAuthSupport p then [''oauth''] else []) @ (if rp_Tier p = 0 then [''premium''] else [])
     @ (if rp_Health p > fl (9 / 10) then [''high_quality''] else [])"

text \<open>The share of the quota that is left, which the scores and the strategy \<open>reset-aware\<close> compute alike.\<close>

definition quota_share :: "RouteProvider \<Rightarrow> float64" where
  "quota_share p =
     (if rp_QuotaLimit p > 0
      then let remaining = fdiv (float_of_int (wrap64 (rp_QuotaLimit p - rp_QuotaUsed p))) (float_of_int (rp_QuotaLimit p))
           in if remaining < 0 then 0 else remaining
      else 1)"

definition rp_cost :: "RouteProvider \<Rightarrow> float64" where
  "rp_cost p = fadd (rp_CostPer1KIn p) (rp_CostPer1KOut p)"

definition cost_score :: "RouteProvider \<Rightarrow> go_float" where
  "cost_score p = (let totalCost = rp_cost p in if totalCost = 0 then Fin 1 else frecip (fadd 1 (fmul totalCost 100)))"

definition latency_score :: "RouteProvider \<Rightarrow> go_float" where
  "latency_score p = (if rp_LatencyMs p = 0 then Fin 1 else frecip (fadd 1 (fdiv (float_of_int (rp_LatencyMs p)) 1000)))"

definition task_fit :: "RoutingContext \<Rightarrow> RouteProvider \<Rightarrow> float64" where
  "task_fit ctx p = (case rp_TaskFitScores p of
     Some m \<Rightarrow> (case m (rc_TaskType ctx) of Some score \<Rightarrow> score | None \<Rightarrow> 1 / 2) | None \<Rightarrow> 1 / 2)"

definition specificity :: "RoutingContext \<Rightarrow> RouteProvider \<Rightarrow> float64" where
  "specificity ctx p =
     (let matchCount = length (filter (\<lambda>cap. list_ex (\<lambda>pCap. cap = pCap) (rp_Capabilities p)) (rc_RequiredCaps ctx))
      in if length (rc_RequiredCaps ctx) > 0
         then fdiv (float_of_int (int matchCount)) (float_of_int (int (length (rc_RequiredCaps ctx)))) else 1)"

definition tier_affinity :: "RoutingContext \<Rightarrow> RouteProvider \<Rightarrow> float64" where
  "tier_affinity ctx p =
     (let affinity = 1;
          affinity = (if rc_CostBudget ctx > 0 \<and> fmul (rp_cost p) 1000 > rc_CostBudget ctx then fmul affinity (1 / 2) else affinity);
          affinity = (if rc_LatencyBudget ctx > 0 \<and> wrap64 (rp_LatencyMs p * millisecond) > rc_LatencyBudget ctx
                      then fmul affinity (1 / 2) else affinity)
      in affinity)"

definition score_provider :: "RouteProvider \<Rightarrow> RoutingContext \<Rightarrow> RoutingContext" where
  "score_provider p ctx = ctx
     \<lparr>rc_HealthScores := (rc_HealthScores ctx)(rp_ID p \<mapsto> rp_Health p),
      rc_QuotaScores := (rc_QuotaScores ctx)(rp_ID p \<mapsto> quota_share p),
      rc_CostScores := (rc_CostScores ctx)(rp_ID p \<mapsto> cost_score p),
      rc_LatencyScores := (rc_LatencyScores ctx)(rp_ID p \<mapsto> latency_score p),
      rc_TaskFitScores := (rc_TaskFitScores ctx)(rp_ID p \<mapsto> task_fit ctx p),
      rc_SpecificityScores := (rc_SpecificityScores ctx)(rp_ID p \<mapsto> specificity ctx p),
      rc_StabilityScores := (rc_StabilityScores ctx)(rp_ID p \<mapsto> rp_StabilityScore p),
      rc_TierPriorities := (rc_TierPriorities ctx)(rp_ID p \<mapsto> rp_Tier p),
      rc_TierAffinities := (rc_TierAffinities ctx)(rp_ID p \<mapsto> tier_affinity ctx p)\<rparr>"

definition calculateScores :: "RoutingContext \<Rightarrow> RoutingContext" where
  "calculateScores ctx = fold score_provider (rc_Providers ctx) ctx"

text \<open>The text of a session: the time in the layout \<open>20060102150405\<close> and eight random letters.\<close>

definition route_letters :: gostr where
  "route_letters = ''abcdefghijklmnopqrstuvwxyzABCDEFGHIJKLMNOPQRSTUVWXYZ0123456789''"

definition route_randomString :: "(nat \<Rightarrow> nat) \<Rightarrow> nat \<Rightarrow> gostr" where
  "route_randomString draw n = map (\<lambda>i. route_letters ! draw i) [0..<n]"

definition format_compact :: "location \<Rightarrow> gtime \<Rightarrow> gostr" where
  "format_compact loc t = (case date_of loc t of (y, m, d) \<Rightarrow>
     pad_digits 4 y @ pad_digits 2 m @ pad_digits 2 d @ pad_digits 2 (time_of_day loc t div hour)
     @ pad_digits 2 (time_of_day loc t mod hour div minute) @ pad_digits 2 (time_of_day loc t mod minute div second))"

definition generateSessionID :: "location \<Rightarrow> gtime \<Rightarrow> (nat \<Rightarrow> nat) \<Rightarrow> gostr" where
  "generateSessionID loc now draw = format_compact loc now @ ''-'' @ route_randomString draw 8"

definition NewRoutingContext :: "location \<Rightarrow> gtime \<Rightarrow> (nat \<Rightarrow> nat) \<Rightarrow> RouteProvider list \<Rightarrow> RoutingContext" where
  "NewRoutingContext loc now draw providers = calculateScores
     \<lparr>rc_TaskType = [], rc_CostBudget = 0, rc_LatencyBudget = 0, rc_RequiredCaps = [], rc_ContextSize = 0,
      rc_SessionID = generateSessionID loc now draw, rc_Providers = providers, rc_HealthScores = Map.empty,
      rc_QuotaScores = Map.empty, rc_CostScores = Map.empty, rc_LatencyScores = Map.empty, rc_TaskFitScores = Map.empty,
      rc_SpecificityScores = Map.empty, rc_StabilityScores = Map.empty, rc_TierPriorities = Map.empty, rc_TierAffinities = Map.empty\<rparr>"

section \<open>Strategies\<close>

datatype routing_strategy = PriorityStrategy "gostr list" | WeightedStrategy "(gostr, float64) gomap option"
  | RoundRobinStrategy int | P2CStrategy | RandomStrategy | LeastUsedStrategy | CostOptimizedStrategy | ResetAwareStrategy
  | StrictRandomStrategy | AutoComboStrategy gostr | LKGPStrategy gostr gtime | ContextOptimizedStrategy
  | ContextRelayStrategy "(gostr, gostr) gomap option" | FillFirstStrategy

datatype route_selection = Selected RouteProvider | SelectedNil | SelectError select_error | SelectPanic

record select_env =
  se_now :: gtime
  se_intn :: "int \<Rightarrow> int"
  se_intn2 :: "int \<Rightarrow> int"
  se_int63n :: "int \<Rightarrow> int"
  se_sort :: "(RouteProvider \<Rightarrow> RouteProvider \<Rightarrow> bool) \<Rightarrow> RouteProvider list \<Rightarrow> RouteProvider list"
  se_sort_scored :: "(RouteProvider \<times> go_float \<Rightarrow> RouteProvider \<times> go_float \<Rightarrow> bool) \<Rightarrow> (RouteProvider \<times> go_float) list \<Rightarrow> (RouteProvider \<times> go_float) list"

fun strategy_Name :: "routing_strategy \<Rightarrow> gostr" where
  "strategy_Name (PriorityStrategy _) = ''priority''"
| "strategy_Name (WeightedStrategy _) = ''weighted''"
| "strategy_Name (RoundRobinStrategy _) = ''round-robin''"
| "strategy_Name P2CStrategy = ''p2c''"
| "strategy_Name RandomStrategy = ''random''"
| "strategy_Name LeastUsedStrategy = ''least-used''"
| "strategy_Name CostOptimizedStrategy = ''cost-optimized''"
| "strategy_Name ResetAwareStrategy = ''reset-aware''"
| "strategy_Name StrictRandomStrategy = ''strict-random''"
| "strategy_Name (AutoComboStrategy _) = ''auto''"
| "strategy_Name (LKGPStrategy _ _) = ''lkgp''"
| "strategy_Name ContextOptimizedStrategy = ''context-optimized''"
| "strategy_Name (ContextRelayStrategy _) = ''context-relay''"
| "strategy_Name FillFirstStrategy = ''fill-first''"

definition healthy_of :: "RoutingContext \<Rightarrow> RouteProvider list" where
  "healthy_of ctx = filter rp_IsHealthy (rc_Providers ctx)"

subsection \<open>Configuration\<close>

definition priority_Configure :: "(gostr, pval) gomap \<Rightarrow> gostr list \<Rightarrow> gostr list" where
  "priority_Configure config orderedList = (case config ''ordered_list'' of
     Some (PList ordered) \<Rightarrow> map (\<lambda>v. case v of PString str \<Rightarrow> str | _ \<Rightarrow> []) ordered
   | _ \<Rightarrow> orderedList)"

definition weighted_Configure :: "(gostr, pval) gomap \<Rightarrow> (gostr, float64) gomap option \<Rightarrow> (gostr, float64) gomap option" where
  "weighted_Configure config w = (case config ''weights'' of
     Some (PObject weights) \<Rightarrow> Some (foldl (\<lambda>m (id, w). case w of PFloat f \<Rightarrow> m(id \<mapsto> f) | _ \<Rightarrow> m) Map.empty weights)
   | _ \<Rightarrow> w)"

definition auto_Configure :: "(gostr, pval) gomap \<Rightarrow> gostr" where
  "auto_Configure config = (case config ''mode'' of Some (PString mode) \<Rightarrow> mode | _ \<Rightarrow> ''ship-fast'')"

fun strategy_Configure :: "(gostr, pval) gomap \<Rightarrow> routing_strategy \<Rightarrow> routing_strategy" where
  "strategy_Configure config (PriorityStrategy l) = PriorityStrategy (priority_Configure config l)"
| "strategy_Configure config (WeightedStrategy w) = WeightedStrategy (weighted_Configure config w)"
| "strategy_Configure config (AutoComboStrategy mode) = AutoComboStrategy (auto_Configure config)"
| "strategy_Configure config s = s"

subsection \<open>Basic strategies\<close>

definition priority_less :: "RoutingContext \<Rightarrow> RouteProvider \<Rightarrow> RouteProvider \<Rightarrow> bool" where
  "priority_less ctx p q =
     (if rp_Tier p \<noteq> rp_Tier q then rp_Tier p < rp_Tier q
      else map_get 0 (rc_HealthScores ctx) (rp_ID p) > map_get 0 (rc_HealthScores ctx) (rp_ID q))"

definition priority_Select :: "select_env \<Rightarrow> RoutingContext \<Rightarrow> route_selection" where
  "priority_Select env ctx =
     (if length (rc_Providers ctx) = 0 then SelectError ErrNoProviderAvailable
      else let providers = sort_Slice (se_sort env) (priority_less ctx) (rc_Providers ctx)
           in case find rp_IsHealthy providers of Some p \<Rightarrow> Selected p | None \<Rightarrow> Selected (providers ! 0))"

definition route_weight :: "(gostr, float64) gomap option \<Rightarrow> RoutingContext \<Rightarrow> RouteProvider \<Rightarrow> float64" where
  "route_weight weights ctx p = (case weights of
     Some m \<Rightarrow> (case m (rp_ID p) of Some customWeight \<Rightarrow> customWeight | None \<Rightarrow> 1)
   | None \<Rightarrow> fmul (rp_Health p) (map_get 0 (rc_QuotaScores ctx) (rp_ID p)))"

definition weigh :: "(gostr, float64) gomap option \<Rightarrow> RoutingContext \<Rightarrow> float64 \<times> (gostr, float64) gomap" where
  "weigh weights ctx = fold (\<lambda>p (totalWeight, weightMap).
       let w = route_weight weights ctx p in (fadd totalWeight w, weightMap(rp_ID p \<mapsto> w)))
     (healthy_of ctx) (0, Map.empty)"

fun weighted_pick :: "(gostr, float64) gomap \<Rightarrow> float64 \<Rightarrow> float64 \<Rightarrow> RouteProvider list \<Rightarrow> RouteProvider option" where
  "weighted_pick weightMap r cumulative [] = None"
| "weighted_pick weightMap r cumulative (p # ps) =
     (if \<not> rp_IsHealthy p then weighted_pick weightMap r cumulative ps
      else let cumulative = fadd cumulative (map_get 0 weightMap (rp_ID p))
           in if r \<le> cumulative then Some p else weighted_pick weightMap r cumulative ps)"

text \<open>\<open>rand.Int63n\<close> panics unless its argument is positive.\<close>

definition weighted_Select :: "select_env \<Rightarrow> (gostr, float64) gomap option \<Rightarrow> RoutingContext \<Rightarrow> route_selection" where
  "weighted_Select env weights ctx =
     (if length (rc_Providers ctx) = 0 then SelectError ErrNoProviderAvailable
      else case weigh weights ctx of (totalWeight, weightMap) \<Rightarrow>
        if totalWeight = 0 then SelectError ErrNoHealthyProvider
        else let n = int_of_float (fmul totalWeight 1000)
             in if n \<le> 0 then SelectPanic
                else let r = fdiv (float_of_int (se_int63n env n)) 1000
                     in case weighted_pick weightMap r 0 (rc_Providers ctx) of
                       Some p \<Rightarrow> Selected p
                     | None \<Rightarrow> (case find rp_IsHealthy (rev (rc_Providers ctx)) of
                         Some p \<Rightarrow> Selected p | None \<Rightarrow> SelectError ErrNoHealthyProvider))"

definition roundRobin_Select :: "int \<Rightarrow> RoutingContext \<Rightarrow> route_selection \<times> int" where
  "roundRobin_Select mu ctx =
     (if length (rc_Providers ctx) = 0 then (SelectError ErrNoProviderAvailable, mu)
      else let healthyProviders = healthy_of ctx
           in if length healthyProviders = 0 then (SelectError ErrNoHealthyProvider, mu)
              else let mu = (mu + 1) mod int (length healthyProviders)
                   in (Selected (healthyProviders ! nat mu), mu))"

text \<open>
  The load of a provider is a quotient by \<open>QuotaLimit + 1\<close>, which is zero for the limit -1:
  then it is an infinity or, with no usage, not a number, and compares accordingly.
\<close>

datatype load = Load float64 | LoadPosInf | LoadNegInf | LoadNaN

definition p2c_load :: "RouteProvider \<Rightarrow> load" where
  "p2c_load p = (let u = rp_QuotaUsed p; l = wrap64 (rp_QuotaLimit p + 1)
     in if l = 0 then (if u > 0 then LoadPosInf else if u < 0 then LoadNegInf else LoadNaN)
        else Load (fdiv (float_of_int u) (float_of_int l)))"

fun load_le :: "load \<Rightarrow> load \<Rightarrow> bool" where
  "load_le LoadNaN _ = False"
| "load_le _ LoadNaN = False"
| "load_le LoadNegInf _ = True"
| "load_le _ LoadPosInf = True"
| "load_le (Load x) (Load y) = (x \<le> y)"
| "load_le _ _ = False"

definition p2c_Select :: "select_env \<Rightarrow> RoutingContext \<Rightarrow> route_selection" where
  "p2c_Select env ctx =
     (if length (rc_Providers ctx) = 0 then SelectError ErrNoProviderAvailable
      else let healthyProviders = healthy_of ctx; n = int (length healthyProviders)
           in if n = 0 then SelectError ErrNoHealthyProvider
              else if n = 1 then Selected (healthyProviders ! 0)
              else let i1 = se_intn env n; i2 = (i1 + 1 + se_intn2 env (n - 1)) mod n;
                       p1 = healthyProviders ! nat i1; p2 = healthyProviders ! nat i2
                   in if load_le (p2c_load p1) (p2c_load p2) then Selected p1 else Selected p2)"

definition random_Select :: "select_env \<Rightarrow> RoutingContext \<Rightarrow> route_selection" where
  "random_Select env ctx =
     (if length (rc_Providers ctx) = 0 then SelectError ErrNoProviderAvailable
      else let healthyProviders = healthy_of ctx
           in if length healthyProviders = 0 then SelectError ErrNoHealthyProvider
              else Selected (healthyProviders ! nat (se_intn env (int (length healthyProviders)))))"

definition rp_usage :: "RouteProvider \<Rightarrow> float64" where
  "rp_usage p = (if rp_QuotaLimit p > 0 then fdiv (float_of_int (rp_QuotaUsed p)) (float_of_int (rp_QuotaLimit p)) else 0)"

text \<open>The loop that the two minimising strategies share, with their key and what they skip.\<close>

fun lowest_loop :: "(RouteProvider \<Rightarrow> bool) \<Rightarrow> (RouteProvider \<Rightarrow> float64) \<Rightarrow> RouteProvider list \<Rightarrow> float64 \<Rightarrow> RouteProvider option \<Rightarrow> RouteProvider option" where
  "lowest_loop skip key [] lowest best = best"
| "lowest_loop skip key (p # ps) lowest best =
     (if \<not> rp_IsHealthy p then lowest_loop skip key ps lowest best
      else if skip p then lowest_loop skip key ps lowest best
      else if lowest < 0 \<or> key p < lowest then lowest_loop skip key ps (key p) (Some p)
      else lowest_loop skip key ps lowest best)"

definition leastUsed_Select :: "RoutingContext \<Rightarrow> route_selection" where
  "leastUsed_Select ctx =
     (if length (rc_Providers ctx) = 0 then SelectError ErrNoProviderAvailable
      else case lowest_loop (\<lambda>p. False) rp_usage (rc_Providers ctx) (- 1) None of
        None \<Rightarrow> SelectError ErrNoHealthyProvider | Some best \<Rightarrow> Selected best)"

definition over_budget :: "RoutingContext \<Rightarrow> RouteProvider \<Rightarrow> bool" where
  "over_budget ctx p \<longleftrightarrow> rc_CostBudget ctx > 0 \<and> fmul (rp_cost p) 1000 > rc_CostBudget ctx"

definition costOptimized_Select :: "RoutingContext \<Rightarrow> route_selection" where
  "costOptimized_Select ctx =
     (if length (rc_Providers ctx) = 0 then SelectError ErrNoProviderAvailable
      else case lowest_loop (over_budget ctx) rp_cost (rc_Providers ctx) (- 1) None of
        None \<Rightarrow> SelectError ErrNoHealthyProvider | Some best \<Rightarrow> Selected best)"

subsection \<open>Advanced strategies\<close>

definition score_greater :: "RouteProvider \<times> go_float \<Rightarrow> RouteProvider \<times> go_float \<Rightarrow> bool" where
  "score_greater a b \<longleftrightarrow> snd a > snd b"

text \<open>Score the healthy providers, sort by falling score, take the first.\<close>

definition best_scored :: "select_env \<Rightarrow> (RouteProvider \<Rightarrow> go_float) \<Rightarrow> RoutingContext \<Rightarrow> route_selection" where
  "best_scored env score ctx =
     (if length (rc_Providers ctx) = 0 then SelectError ErrNoProviderAvailable
      else let scores = map (\<lambda>p. (p, score p)) (healthy_of ctx)
           in if length scores = 0 then SelectError ErrNoHealthyProvider
              else Selected (fst (sort_Slice (se_sort_scored env) score_greater scores ! 0)))"

definition resetAware_Select :: "select_env \<Rightarrow> RoutingContext \<Rightarrow> route_selection" where
  "resetAware_Select env ctx = best_scored env (\<lambda>p. Fin (quota_share p)) ctx"

definition strictRandom_Select :: "select_env \<Rightarrow> RoutingContext \<Rightarrow> route_selection" where
  "strictRandom_Select env ctx =
     (if length (rc_Providers ctx) = 0 then SelectError ErrNoProviderAvailable
      else Selected (rc_Providers ctx ! nat (se_intn env (int (length (rc_Providers ctx))))))"

record factorWeights =
  fw_health :: float64
  fw_quota :: float64
  fw_costInv :: float64
  fw_latencyInv :: float64
  fw_taskFit :: float64
  fw_specificityMatch :: float64
  fw_stability :: float64
  fw_tierPriority :: float64
  fw_tierAffinity :: float64

definition auto_getWeights :: "gostr \<Rightarrow> factorWeights" where
  "auto_getWeights mode =
     (if mode = ''cost-saver'' then
        \<lparr>fw_health = fl (15 / 100), fw_quota = fl (15 / 100), fw_costInv = fl (30 / 100), fw_latencyInv = fl (10 / 100), fw_taskFit = fl (8 / 100),
         fw_specificityMatch = fl (8 / 100), fw_stability = fl (5 / 100), fw_tierPriority = fl (5 / 100), fw_tierAffinity = fl (4 / 100)\<rparr>
      else if mode = ''quality-first'' then
        \<lparr>fw_health = fl (30 / 100), fw_quota = fl (12 / 100), fw_costInv = fl (10 / 100), fw_latencyInv = fl (15 / 100), fw_taskFit = fl (10 / 100),
         fw_specificityMatch = fl (10 / 100), fw_stability = fl (8 / 100), fw_tierPriority = fl (3 / 100), fw_tierAffinity = fl (2 / 100)\<rparr>
      else if mode = ''offline-friendly'' then
        \<lparr>fw_health = fl (20 / 100), fw_quota = fl (20 / 100), fw_costInv = fl (15 / 100), fw_latencyInv = fl (8 / 100), fw_taskFit = fl (8 / 100),
         fw_specificityMatch = fl (8 / 100), fw_stability = fl (10 / 100), fw_tierPriority = fl (8 / 100), fw_tierAffinity = fl (3 / 100)\<rparr>
      else
        \<lparr>fw_health = fl (22 / 100), fw_quota = fl (17 / 100), fw_costInv = fl (17 / 100), fw_latencyInv = fl (13 / 100), fw_taskFit = fl (8 / 100),
         fw_specificityMatch = fl (8 / 100), fw_stability = fl (5 / 100), fw_tierPriority = fl (5 / 100), fw_tierAffinity = fl (5 / 100)\<rparr>)"

text \<open>The weights are positive, so an infinite factor makes the total infinite.\<close>

definition weighted_factors :: "factorWeights \<Rightarrow> RoutingContext \<Rightarrow> RouteProvider \<Rightarrow> (float64 \<times> go_float) list" where
  "weighted_factors w ctx p = (let i = rp_ID p in
     [(fw_health w, Fin (map_get 0 (rc_HealthScores ctx) i)), (fw_quota w, Fin (map_get 0 (rc_QuotaScores ctx) i)),
      (fw_costInv w, map_get (Fin 0) (rc_CostScores ctx) i), (fw_latencyInv w, map_get (Fin 0) (rc_LatencyScores ctx) i),
      (fw_taskFit w, Fin (map_get 0 (rc_TaskFitScores ctx) i)), (fw_specificityMatch w, Fin (map_get 0 (rc_SpecificityScores ctx) i)),
      (fw_stability w, Fin (map_get 0 (rc_StabilityScores ctx) i)), (fw_tierPriority w, frecip (float_of_int (wrap64 (rp_Tier p + 1)))),
      (fw_tierAffinity w, Fin (map_get 0 (rc_TierAffinities ctx) i))])"

definition auto_score :: "gostr \<Rightarrow> RoutingContext \<Rightarrow> RouteProvider \<Rightarrow> go_float" where
  "auto_score mode ctx p =
     foldl (\<lambda>totalScore (w, x). gadd totalScore (gscale w x)) (Fin 0) (weighted_factors (auto_getWeights mode) ctx p)"

definition auto_Select :: "select_env \<Rightarrow> gostr \<Rightarrow> RoutingContext \<Rightarrow> route_selection" where
  "auto_Select env mode ctx = best_scored env (auto_score mode ctx) ctx"

text \<open>The loop that the three maximising strategies share: a later provider replaces the best when its key is larger.\<close>

fun highest_loop :: "(RouteProvider \<Rightarrow> 'k :: linorder) \<Rightarrow> RouteProvider list \<Rightarrow> 'k \<Rightarrow> RouteProvider option \<Rightarrow> RouteProvider option" where
  "highest_loop key [] highest best = best"
| "highest_loop key (p # ps) highest best =
     (if key p > highest then highest_loop key ps (key p) (Some p) else highest_loop key ps highest best)"

definition lkgp_score :: "RouteProvider \<Rightarrow> float64" where
  "lkgp_score p = fmul (rp_Health p) (rp_StabilityScore p)"

definition lkgp_Select :: "select_env \<Rightarrow> gostr \<times> gtime \<Rightarrow> RoutingContext \<Rightarrow> route_selection \<times> gostr \<times> gtime" where
  "lkgp_Select env st ctx = (case st of (lastProvider, lockUntil) \<Rightarrow>
     if length (rc_Providers ctx) = 0 then (SelectError ErrNoProviderAvailable, st)
     else case (if lastProvider \<noteq> [] \<and> time_before (se_now env) lockUntil
                then find (\<lambda>p. rp_ID p = lastProvider \<and> rp_IsHealthy p) (rc_Providers ctx) else None) of
       Some p \<Rightarrow> (Selected p, st)
     | None \<Rightarrow>
         let healthyProviders = healthy_of ctx
         in if length healthyProviders = 0 then (SelectError ErrNoHealthyProvider, st)
            else case highest_loop lkgp_score healthyProviders (- 1) None of
              Some best \<Rightarrow> (Selected best, rp_ID best, time_add (se_now env) (5 * minute))
            | None \<Rightarrow> (SelectedNil, st))"

definition calculateFitScore :: "RouteProvider \<Rightarrow> int \<Rightarrow> float64" where
  "calculateFitScore p contextSize =
     (let maxContext = 128000; minContext = 4000
      in if contextSize \<ge> minContext \<and> contextSize \<le> maxContext
         then let midPoint = fdiv (float_of_int maxContext) 2; distance = \<bar>fsub (float_of_int contextSize) midPoint\<bar>;
                  maxDistance = midPoint
              in fsub 1 (fdiv distance maxDistance)
         else if contextSize > maxContext then fl (1 / 10)
         else 1 / 2)"

definition option_selection :: "RouteProvider option \<Rightarrow> route_selection" where
  "option_selection best = (case best of Some p \<Rightarrow> Selected p | None \<Rightarrow> SelectedNil)"

definition contextOptimized_Select :: "RoutingContext \<Rightarrow> route_selection" where
  "contextOptimized_Select ctx =
     (if length (rc_Providers ctx) = 0 then SelectError ErrNoProviderAvailable
      else let healthyProviders = healthy_of ctx
           in if length healthyProviders = 0 then SelectError ErrNoHealthyProvider
              else option_selection (highest_loop (\<lambda>p. calculateFitScore p (rc_ContextSize ctx)) healthyProviders (- 1) None))"

text \<open>
  The sessions of \<open>context-relay\<close> are a map, nil unless the strategy was made by
  \<open>NewContextRelayStrategy\<close>; storing into the nil map panics.
\<close>

definition relay_Select :: "select_env \<Rightarrow> (gostr, gostr) gomap option \<Rightarrow> RoutingContext \<Rightarrow> route_selection \<times> (gostr, gostr) gomap option" where
  "relay_Select env sessions ctx =
     (if length (rc_Providers ctx) = 0 then (SelectError ErrNoProviderAvailable, sessions)
      else
        let assigned = (case sessions of Some m \<Rightarrow> m (rc_SessionID ctx) | None \<Rightarrow> None);
            kept = (case assigned of Some sp \<Rightarrow> find (\<lambda>p. rp_ID p = sp \<and> rp_IsHealthy p) (rc_Providers ctx) | None \<Rightarrow> None)
        in case kept of
          Some p \<Rightarrow> (Selected p, sessions)
        | None \<Rightarrow>
            let sessions = (if assigned = None then sessions else map_option (\<lambda>m. m(rc_SessionID ctx := None)) sessions);
                healthyProviders = healthy_of ctx
            in if length healthyProviders = 0 then (SelectError ErrNoHealthyProvider, sessions)
               else let autoCtx = ctx\<lparr>rc_TaskType := [], rc_CostBudget := 0, rc_LatencyBudget := 0, rc_RequiredCaps := [],
                                      rc_ContextSize := 0, rc_SessionID := [], rc_Providers := healthyProviders\<rparr>
                    in case auto_Select env ''ship-fast'' autoCtx of
                      Selected selected \<Rightarrow>
                        (case sessions of
                           None \<Rightarrow> (SelectPanic, sessions)
                         | Some m \<Rightarrow> (Selected selected, Some (m(rc_SessionID ctx \<mapsto> rp_ID selected))))
                    | _ \<Rightarrow> (Selected (healthyProviders ! 0), sessions))"

definition NewContextRelayStrategy :: routing_strategy where
  "NewContextRelayStrategy = ContextRelayStrategy (Some Map.empty)"

definition quota_remaining :: "RouteProvider \<Rightarrow> int" where
  "quota_remaining p = (if rp_QuotaLimit p > 0 then wrap64 (rp_QuotaLimit p - rp_QuotaUsed p) else 2 ^ 63 - 1)"

definition fillFirst_Select :: "RoutingContext \<Rightarrow> route_selection" where
  "fillFirst_Select ctx =
     (if length (rc_Providers ctx) = 0 then SelectError ErrNoProviderAvailable
      else let healthyProviders = healthy_of ctx
           in if length healthyProviders = 0 then SelectError ErrNoHealthyProvider
              else option_selection (highest_loop quota_remaining healthyProviders (- 1) None))"

subsection \<open>The interface\<close>

fun strategy_SelectProvider :: "select_env \<Rightarrow> routing_strategy \<Rightarrow> RoutingContext \<Rightarrow> route_selection \<times> routing_strategy" where
  "strategy_SelectProvider env (PriorityStrategy l) ctx = (priority_Select env ctx, PriorityStrategy l)"
| "strategy_SelectProvider env (WeightedStrategy w) ctx = (weighted_Select env w ctx, WeightedStrategy w)"
| "strategy_SelectProvider env (RoundRobinStrategy mu) ctx = map_prod id RoundRobinStrategy (roundRobin_Select mu ctx)"
| "strategy_SelectProvider env P2CStrategy ctx = (p2c_Select env ctx, P2CStrategy)"
| "strategy_SelectProvider env RandomStrategy ctx = (random_Select env ctx, RandomStrategy)"
| "strategy_SelectProvider env LeastUsedStrategy ctx = (leastUsed_Select ctx, LeastUsedStrategy)"
| "strategy_SelectProvider env CostOptimizedStrategy ctx = (costOptimized_Select ctx, CostOptimizedStrategy)"
| "strategy_SelectProvider env ResetAwareStrategy ctx = (resetAware_Select env ctx, ResetAwareStrategy)"
| "strategy_SelectProvider env StrictRandomStrategy ctx = (strictRandom_Select env ctx, StrictRandomStrategy)"
| "strategy_SelectProvider env (AutoComboStrategy mode) ctx = (auto_Select env mode ctx, AutoComboStrategy mode)"
| "strategy_SelectProvider env (LKGPStrategy p t) ctx = map_prod id (\<lambda>(p, t). LKGPStrategy p t) (lkgp_Select env (p, t) ctx)"
| "strategy_SelectProvider env ContextOptimizedStrategy ctx = (contextOptimized_Select ctx, ContextOptimizedStrategy)"
| "strategy_SelectProvider env (ContextRelayStrategy m) ctx = map_prod id ContextRelayStrategy (relay_Select env m ctx)"
| "strategy_SelectProvider env FillFirstStrategy ctx = (fillFirst_Select ctx, FillFirstStrategy)"

section \<open>The registry\<close>

record StrategyRegistry =
  sreg_strategies :: "(gostr, routing_strategy) gomap"
  sreg_default :: gostr

definition NewStrategyRegistry :: StrategyRegistry where
  "NewStrategyRegistry = \<lparr>sreg_strategies = Map.empty, sreg_default = []\<rparr>"

definition sreg_Register :: "routing_strategy \<Rightarrow> StrategyRegistry \<Rightarrow> StrategyRegistry" where
  "sreg_Register s r = r\<lparr>sreg_strategies := (sreg_strategies r)(strategy_Name s \<mapsto> s)\<rparr>"

definition sreg_Get :: "gostr \<Rightarrow> StrategyRegistry \<Rightarrow> select_error + routing_strategy" where
  "sreg_Get name r = (case sreg_strategies r name of None \<Rightarrow> Inl ErrInvalidConfig | Some s \<Rightarrow> Inr s)"

definition sreg_List :: "gostr list \<Rightarrow> StrategyRegistry \<Rightarrow> gostr list" where
  "sreg_List ks r = map fst (range_of ks (sreg_strategies r))"

definition sreg_SetDefault :: "gostr \<Rightarrow> StrategyRegistry \<Rightarrow> StrategyRegistry" where
  "sreg_SetDefault name r = r\<lparr>sreg_default := name\<rparr>"

definition sreg_GetDefault :: "StrategyRegistry \<Rightarrow> select_error + routing_strategy" where
  "sreg_GetDefault r = (if sreg_default r = [] then Inl ErrInvalidConfig
     else case sreg_strategies r (sreg_default r) of None \<Rightarrow> Inl ErrInvalidConfig | Some s \<Rightarrow> Inr s)"

definition AvailableStrategies :: "(gostr \<times> routing_strategy) list" where
  "AvailableStrategies =
     [(''priority'', PriorityStrategy []), (''weighted'', WeightedStrategy None), (''round-robin'', RoundRobinStrategy 0),
      (''p2c'', P2CStrategy), (''random'', RandomStrategy), (''least-used'', LeastUsedStrategy),
      (''cost-optimized'', CostOptimizedStrategy), (''reset-aware'', ResetAwareStrategy), (''strict-random'', StrictRandomStrategy),
      (''auto'', AutoComboStrategy []), (''lkgp'', LKGPStrategy [] zero_time), (''context-optimized'', ContextOptimizedStrategy),
      (''context-relay'', ContextRelayStrategy None), (''fill-first'', FillFirstStrategy)]"

definition GetAllStrategies :: "gostr list \<Rightarrow> routing_strategy list" where
  "GetAllStrategies ks = map snd (range_of ks (map_of AvailableStrategies))"

end
