(* ===== verification/Strategy_Laws.thy ===== *)
theory Strategy_Laws
  imports Strategies "HOL-Library.Product_Lexorder"
begin

text \<open>
  What the strategies of \<open>routing/strategies\<close> guarantee. Twelve of the fourteen share one contract,
  stated as the locale \<open>health_checked\<close> and interpreted on the interface method: they select only
  healthy providers of the context. Then what each strategy optimises, the fairness of round robin
  and the sticky strategies, and where the code departs from its documentation.
\<close>

section \<open>The contract of a health-checked strategy\<close>

definition good_env :: "select_env \<Rightarrow> bool" where
  "good_env env \<longleftrightarrow> (\<forall>n > 0. 0 \<le> se_intn env n \<and> se_intn env n < n) \<and> (\<forall>n > 0. 0 \<le> se_intn2 env n \<and> se_intn2 env n < n)
     \<and> (\<forall>n > 0. 0 \<le> se_int63n env n \<and> se_int63n env n < n) \<and> (\<forall>ctx. sort_contract (se_sort env) (priority_less ctx))
     \<and> sort_contract (se_sort_scored env) score_greater"

fun serve :: "(select_env \<Rightarrow> 's \<Rightarrow> RoutingContext \<Rightarrow> route_selection \<times> 's) \<Rightarrow> 's \<Rightarrow> (select_env \<times> RoutingContext) list \<Rightarrow> route_selection list \<times> 's" where
  "serve select s [] = ([], s)"
| "serve select s ((env, ctx) # calls) =
     (let (r, s) = select env s ctx; (rs, s) = serve select s calls in (r # rs, s))"

locale health_checked =
  fixes select :: "select_env \<Rightarrow> 's \<Rightarrow> RoutingContext \<Rightarrow> route_selection \<times> 's" and keeps :: "'s \<Rightarrow> bool"
  assumes keeps_step: "keeps s \<Longrightarrow> keeps (snd (select env s ctx))"
    and none_registered: "keeps s \<Longrightarrow> rc_Providers ctx = [] \<Longrightarrow> fst (select env s ctx) = SelectError ErrNoProviderAvailable"
    and none_healthy: "keeps s \<Longrightarrow> rc_Providers ctx \<noteq> [] \<Longrightarrow> healthy_of ctx = [] \<Longrightarrow> fst (select env s ctx) = SelectError ErrNoHealthyProvider"
    and selected_healthy: "keeps s \<Longrightarrow> good_env env \<Longrightarrow> fst (select env s ctx) = Selected p \<Longrightarrow> p \<in> set (healthy_of ctx)"
begin

lemma serve_healthy:
  assumes "keeps s" "\<forall>(env, ctx) \<in> set calls. good_env env"
  shows "list_all2 (\<lambda>(env, ctx) r. (\<forall>p. r = Selected p \<longrightarrow> p \<in> set (rc_Providers ctx) \<and> rp_IsHealthy p)
    \<and> ((\<forall>p \<in> set (rc_Providers ctx). \<not> rp_IsHealthy p) \<longrightarrow>
         r = SelectError (if rc_Providers ctx = [] then ErrNoProviderAvailable else ErrNoHealthyProvider))) calls (fst (serve select s calls))"
  using assms
proof (induction calls arbitrary: s)
  case (Cons c calls)
  obtain env ctx where c: "c = (env, ctx)" by (cases c)
  obtain r s' where r: "select env s ctx = (r, s')" by (cases "select env s ctx")
  have h: "set (healthy_of ctx) = {p \<in> set (rc_Providers ctx). rp_IsHealthy p}" by (auto simp: healthy_of_def)
  have "keeps s'" using keeps_step [OF Cons.prems(1), of env ctx] by (simp add: r)
  note ih = Cons.IH [OF this]
  have g: "good_env env" using Cons.prems(2) by (simp add: c)
  have "p \<in> set (healthy_of ctx)" if "r = Selected p" for p
    by (rule selected_healthy [OF Cons.prems(1) g]) (simp add: r that)
  then have "\<forall>p. r = Selected p \<longrightarrow> p \<in> set (rc_Providers ctx) \<and> rp_IsHealthy p" unfolding h by blast
  moreover have "r = SelectError (if rc_Providers ctx = [] then ErrNoProviderAvailable else ErrNoHealthyProvider)"
    if "\<forall>p \<in> set (rc_Providers ctx). \<not> rp_IsHealthy p"
    using none_registered [OF Cons.prems(1), of ctx env] none_healthy [OF Cons.prems(1), of ctx env] that
    by (auto simp: r healthy_of_def filter_empty_conv)
  moreover obtain rs s2 where e: "serve select s' calls = (rs, s2)" by (cases "serve select s' calls")
  moreover have "fst (serve select s (c # calls)) = r # rs" by (simp add: c r e)
  moreover have "\<forall>(env, ctx) \<in> set calls. good_env env" using Cons.prems(2) by simp
  note ih [OF this]
  ultimately show ?case by (simp only: c e list_all2_Cons prod.case fst_conv) blast
qed simp

end

section \<open>What each selection returns\<close>

lemma healthy_mem: "p \<in> set (healthy_of ctx) \<longleftrightarrow> p \<in> set (rc_Providers ctx) \<and> rp_IsHealthy p"
  by (auto simp: healthy_of_def)

lemma find_healthy: "find (\<lambda>p. Q p \<and> rp_IsHealthy p) (rc_Providers ctx) = Some p \<Longrightarrow> p \<in> set (healthy_of ctx)"
  by (auto simp: find_Some_iff healthy_mem)

lemma weighted_pick_healthy: "weighted_pick m r c ps = Some p \<Longrightarrow> p \<in> set ps \<and> rp_IsHealthy p"
  by (induction m r c ps rule: weighted_pick.induct) (auto simp: Let_def split: if_splits)

lemma weighted_healthy: "weighted_Select env w ctx = Selected p \<Longrightarrow> p \<in> set (healthy_of ctx)"
proof -
  assume a: "weighted_Select env w ctx = Selected p"
  obtain t m where tm: "weigh w ctx = (t, m)" by (cases "weigh w ctx")
  let ?r = "fdiv (float_of_int (se_int63n env (int_of_float (fmul t 1000)))) 1000"
  have "weighted_pick m ?r 0 (rc_Providers ctx) = Some p \<or> find rp_IsHealthy (rev (rc_Providers ctx)) = Some p"
    using a by (auto simp: weighted_Select_def tm Let_def split: if_splits option.splits)
  then show ?thesis using weighted_pick_healthy [of m ?r 0 "rc_Providers ctx" p]
    by (auto simp: healthy_mem find_Some_iff) (metis length_rev nth_mem set_rev)
qed

lemma weighted_none: "healthy_of ctx = [] \<Longrightarrow> rc_Providers ctx \<noteq> [] \<Longrightarrow> weighted_Select env w ctx = SelectError ErrNoHealthyProvider"
  by (simp add: weighted_Select_def weigh_def)

lemma highest_loop_best:
  "case highest_loop key ps hi best of
     Some p \<Rightarrow> (p \<in> set ps \<and> hi < key p \<or> best = Some p \<and> (\<forall>q \<in> set ps. key q \<le> hi)) \<and> (\<forall>q \<in> set ps. key q \<le> max hi (key p))
   | None \<Rightarrow> best = None \<and> (\<forall>q \<in> set ps. key q \<le> hi)"
proof (induction ps arbitrary: hi best)
  case (Cons p ps)
  show ?case
  proof (cases "hi < key p")
    case True
    note ih = Cons [where hi = "key p" and best = "Some p"]
    obtain a where a: "highest_loop key ps (key p) (Some p) = Some a"
      using ih by (cases "highest_loop key ps (key p) (Some p)") simp_all
    then have le: "key p \<le> key a" using ih by auto
    then have "\<forall>q \<in> set ps. key q \<le> key a" using ih a by (simp add: max_absorb2)
    then show ?thesis using True a ih le by (auto simp: max_def)
  next
    case False
    then show ?thesis using Cons [where hi = hi and best = best] by (auto split: option.splits simp: max_def)
  qed
qed (auto split: option.splits)

lemma highest_loop_some:
  assumes "highest_loop key ps hi None = Some p"
  shows "p \<in> set ps" "hi < key p" "\<And>q. q \<in> set ps \<Longrightarrow> key q \<le> key p"
  using highest_loop_best [where key = key and ps = ps and hi = hi and best = None] assms by (auto simp: max_def split: if_splits)

lemma highest_loop_none: "highest_loop key ps hi None = None \<longleftrightarrow> (\<forall>q \<in> set ps. key q \<le> hi)"
  using highest_loop_best [where key = key and ps = ps and hi = hi and best = None] by (cases "highest_loop key ps hi None") (auto simp: not_le)

lemma lowest_loop_best:
  assumes "\<forall>q \<in> set ps. 0 \<le> key q" "lowest < 0 \<longleftrightarrow> best = None" "\<forall>b. best = Some b \<longrightarrow> lowest = key b"
  shows "case lowest_loop skip key ps lowest best of
     Some p \<Rightarrow> (p \<in> set ps \<and> rp_IsHealthy p \<and> \<not> skip p \<or> best = Some p) \<and> (best \<noteq> None \<longrightarrow> key p \<le> lowest)
       \<and> (\<forall>q \<in> set ps. rp_IsHealthy q \<and> \<not> skip q \<longrightarrow> key p \<le> key q)
   | None \<Rightarrow> best = None \<and> (\<forall>q \<in> set ps. rp_IsHealthy q \<longrightarrow> skip q)"
  using assms
proof (induction ps arbitrary: lowest best)
  case (Cons p ps)
  show ?case
  proof (cases "rp_IsHealthy p \<and> \<not> skip p \<and> (lowest < 0 \<or> key p < lowest)")
    case True
    have "0 \<le> key p" "\<forall>q \<in> set ps. 0 \<le> key q" using Cons.prems(1) by simp_all
    then have ih: "case lowest_loop skip key ps (key p) (Some p) of
       Some r \<Rightarrow> (r \<in> set ps \<and> rp_IsHealthy r \<and> \<not> skip r \<or> Some p = Some r) \<and> (Some p \<noteq> None \<longrightarrow> key r \<le> key p)
         \<and> (\<forall>q \<in> set ps. rp_IsHealthy q \<and> \<not> skip q \<longrightarrow> key r \<le> key q)
     | None \<Rightarrow> Some p = None \<and> (\<forall>q \<in> set ps. rp_IsHealthy q \<longrightarrow> skip q)" by (intro Cons.IH) simp_all
    have e: "lowest_loop skip key (p # ps) lowest best = lowest_loop skip key ps (key p) (Some p)" using True by simp
    have "best \<noteq> None \<longrightarrow> key p \<le> lowest" using True Cons.prems(2) by auto
    then show ?thesis unfolding e using ih True by (cases "lowest_loop skip key ps (key p) (Some p)") auto
  next
    case False
    then have "lowest_loop skip key (p # ps) lowest best = lowest_loop skip key ps lowest best" by auto
    moreover have "case lowest_loop skip key ps lowest best of
       Some r \<Rightarrow> (r \<in> set ps \<and> rp_IsHealthy r \<and> \<not> skip r \<or> best = Some r) \<and> (best \<noteq> None \<longrightarrow> key r \<le> lowest)
         \<and> (\<forall>q \<in> set ps. rp_IsHealthy q \<and> \<not> skip q \<longrightarrow> key r \<le> key q)
     | None \<Rightarrow> best = None \<and> (\<forall>q \<in> set ps. rp_IsHealthy q \<longrightarrow> skip q)"
      using Cons.prems by (intro Cons.IH) simp_all
    moreover have "rp_IsHealthy p \<and> \<not> skip p \<Longrightarrow> best \<noteq> None \<and> lowest \<le> key p" using False Cons.prems(2) by auto
    ultimately show ?thesis by (cases "lowest_loop skip key ps lowest best") auto
  qed
qed (auto split: option.splits)

lemma lowest_loop_healthy:
  "lowest_loop skip key ps lowest best = Some p \<Longrightarrow> (p \<in> set ps \<and> rp_IsHealthy p \<and> \<not> skip p) \<or> best = Some p"
  by (induction skip key ps lowest best rule: lowest_loop.induct) (auto split: if_splits)

lemma falling_less [simp]: "falling x < falling y \<longleftrightarrow> y < x"
  by (cases x; cases y) auto

lemma falling_le [simp]: "falling x \<le> falling y \<longleftrightarrow> y \<le> x"
  by (cases x; cases y) auto

lemma score_greater_key: "score_greater a b \<longleftrightarrow> falling (snd a) < falling (snd b)"
  by (simp add: score_greater_def)

lemma best_scored_best:
  assumes "good_env env" "best_scored env score ctx = Selected p"
  shows "p \<in> set (healthy_of ctx)" "\<And>q. q \<in> set (healthy_of ctx) \<Longrightarrow> score q \<le> score p"
proof -
  let ?xs = "map (\<lambda>p. (p, score p)) (healthy_of ctx)" and ?k = "\<lambda>x :: RouteProvider \<times> go_float. falling (snd x)"
  let ?s = "sort_Slice (se_sort_scored env) score_greater ?xs"
  have c: "sort_contract (se_sort_scored env) score_greater" using assms(1) by (simp add: good_env_def)
  have k: "score_greater a b \<longleftrightarrow> ?k a < ?k b" for a b by (rule score_greater_key)
  have ne: "healthy_of ctx \<noteq> []" and p: "p = fst (?s ! 0)"
    using assms(2) by (auto simp: best_scored_def Let_def split: if_splits)
  have st: "set ?s = set ?xs" by (rule sort_Slice_set [OF c k])
  then have "?s \<noteq> []" using ne by auto
  then have "find (\<lambda>_. True) ?s = Some (?s ! 0)" by (cases ?s) simp_all
  note f = sort_Slice_find [OF c k this]
  obtain a where a: "?s ! 0 = (a, score a)" "a \<in> set (healthy_of ctx)" using f(1) by auto
  then show "p \<in> set (healthy_of ctx)" by (simp add: p)
  show "score q \<le> score p" if "q \<in> set (healthy_of ctx)" for q
    using f(3) [of "(q, score q)"] that a by (simp add: p)
qed

lemma best_scored_some: "healthy_of ctx \<noteq> [] \<Longrightarrow> \<exists>p. best_scored env score ctx = Selected p"
  by (auto simp: best_scored_def Let_def healthy_of_def)

section \<open>The interface method keeps the contract\<close>

fun checks_health :: "routing_strategy \<Rightarrow> bool" where
  "checks_health (PriorityStrategy _) = False"
| "checks_health StrictRandomStrategy = False"
| "checks_health _ = True"

lemma nth_healthy: "0 \<le> i \<Longrightarrow> i < int (length (healthy_of ctx)) \<Longrightarrow> healthy_of ctx ! nat i \<in> set (healthy_of ctx)"
  by (intro nth_mem) simp

lemma roundRobin_healthy: "fst (roundRobin_Select mu ctx) = Selected p \<Longrightarrow> p \<in> set (healthy_of ctx)"
proof -
  let ?n = "int (length (healthy_of ctx))"
  assume "fst (roundRobin_Select mu ctx) = Selected p"
  then have "0 < ?n" "p = healthy_of ctx ! nat ((mu + 1) mod ?n)"
    by (auto simp: roundRobin_Select_def Let_def split: if_splits)
  then show ?thesis using nth_healthy [of "(mu + 1) mod ?n" ctx] by simp
qed

lemma p2c_healthy:
  assumes "good_env env" "p2c_Select env ctx = Selected p" shows "p \<in> set (healthy_of ctx)"
proof -
  let ?n = "int (length (healthy_of ctx))"
  let ?i = "se_intn env ?n"
  let ?j = "(?i + 1 + se_intn2 env (?n - 1)) mod ?n"
  show ?thesis
  proof (cases "?n = 1")
    case True
    then show ?thesis using assms(2) nth_healthy [of 0 ctx] by (auto simp: p2c_Select_def Let_def split: if_splits)
  next
    case False
    then have n: "0 < ?n" using assms(2) by (auto simp: p2c_Select_def Let_def split: if_splits)
    then have "healthy_of ctx ! nat ?i \<in> set (healthy_of ctx)" "healthy_of ctx ! nat ?j \<in> set (healthy_of ctx)"
      using assms(1) by (intro nth_healthy; simp add: good_env_def)+
    moreover have "p = healthy_of ctx ! nat ?i \<or> p = healthy_of ctx ! nat ?j"
      using assms(2) False n by (auto simp: p2c_Select_def Let_def split: if_splits)
    ultimately show ?thesis by blast
  qed
qed

lemma random_healthy: "good_env env \<Longrightarrow> random_Select env ctx = Selected p \<Longrightarrow> p \<in> set (healthy_of ctx)"
proof -
  let ?n = "int (length (healthy_of ctx))"
  assume g: "good_env env" and "random_Select env ctx = Selected p"
  then have n: "0 < ?n" and p: "p = healthy_of ctx ! nat (se_intn env ?n)"
    by (auto simp: random_Select_def Let_def split: if_splits)
  have "0 \<le> se_intn env ?n" "se_intn env ?n < ?n" using g n unfolding good_env_def by blast+
  then show ?thesis unfolding p by (rule nth_healthy)
qed

lemma lowest_healthy:
  "leastUsed_Select ctx = Selected p \<Longrightarrow> p \<in> set (healthy_of ctx)" "costOptimized_Select ctx = Selected p \<Longrightarrow> p \<in> set (healthy_of ctx)"
  using lowest_loop_healthy [of _ _ "rc_Providers ctx" "- 1" None p]
  by (auto simp: leastUsed_Select_def costOptimized_Select_def healthy_mem split: if_splits option.splits)

lemma highest_healthy:
  "contextOptimized_Select ctx = Selected p \<Longrightarrow> p \<in> set (healthy_of ctx)" "fillFirst_Select ctx = Selected p \<Longrightarrow> p \<in> set (healthy_of ctx)"
  using highest_loop_some(1) [of _ "healthy_of ctx" "- 1" p]
  by (auto simp: contextOptimized_Select_def fillFirst_Select_def option_selection_def Let_def split: if_splits option.splits)

lemma lkgp_healthy: "fst (lkgp_Select env (l, t) ctx) = Selected p \<Longrightarrow> p \<in> set (healthy_of ctx)"
  using highest_loop_some(1) [of lkgp_score "healthy_of ctx" "- 1" p] find_healthy [of "\<lambda>p. rp_ID p = l" ctx p]
  by (auto simp: lkgp_Select_def Let_def split: if_splits option.splits)

lemma relay_auto_ctx: "healthy_of (ctx\<lparr>rc_TaskType := a, rc_CostBudget := b, rc_LatencyBudget := c, rc_RequiredCaps := d,
    rc_ContextSize := e, rc_SessionID := f, rc_Providers := healthy_of ctx\<rparr>) = healthy_of ctx"
  by (simp add: healthy_of_def)

lemma relay_healthy:
  assumes "good_env env" "fst (relay_Select env m ctx) = Selected p" shows "p \<in> set (healthy_of ctx)"
proof -
  let ?ctx = "ctx\<lparr>rc_TaskType := [], rc_CostBudget := 0, rc_LatencyBudget := 0, rc_RequiredCaps := [],
    rc_ContextSize := 0, rc_SessionID := [], rc_Providers := healthy_of ctx\<rparr>"
  have a: "q \<in> set (healthy_of ctx)" if "auto_Select env ''ship-fast'' ?ctx = Selected q" for q
    using best_scored_best(1) [OF assms(1), of _ ?ctx q] that relay_auto_ctx [of ctx] by (simp add: auto_Select_def)
  have b: "\<exists>q. auto_Select env ''ship-fast'' ?ctx = Selected q" if "healthy_of ctx \<noteq> []"
    using best_scored_some [of ?ctx] that relay_auto_ctx [of ctx] by (simp add: auto_Select_def)
  show ?thesis using assms(2) a b find_healthy [of "\<lambda>p. rp_ID p = _" ctx p]
    by (fastforce simp: relay_Select_def Let_def split: if_splits option.splits route_selection.splits)
qed

interpretation routing: health_checked strategy_SelectProvider checks_health
proof unfold_locales
  fix s env ctx
  assume h: "checks_health s"
  show "checks_health (snd (strategy_SelectProvider env s ctx))" using h by (cases s) (auto simp: split_beta)
  show "rc_Providers ctx = [] \<Longrightarrow> fst (strategy_SelectProvider env s ctx) = SelectError ErrNoProviderAvailable"
    using h by (cases s) (auto simp: weighted_Select_def roundRobin_Select_def p2c_Select_def random_Select_def leastUsed_Select_def
      costOptimized_Select_def resetAware_Select_def best_scored_def auto_Select_def lkgp_Select_def contextOptimized_Select_def
      relay_Select_def fillFirst_Select_def)
next
  fix s env ctx p
  assume h: "checks_health s" and g: "good_env env" and p: "fst (strategy_SelectProvider env s ctx) = Selected p"
  show "p \<in> set (healthy_of ctx)"
    using p h weighted_healthy [of env _ ctx p] roundRobin_healthy [of _ ctx p] p2c_healthy [OF g] random_healthy [OF g] lowest_healthy [of ctx p]
      highest_healthy [of ctx p] lkgp_healthy [of env _ _ ctx p] relay_healthy [OF g] best_scored_best(1) [OF g]
    by (cases s) (auto simp: resetAware_Select_def auto_Select_def)
next
  fix s env ctx
  assume h: "checks_health s" and ne: "rc_Providers ctx \<noteq> []" and n: "healthy_of ctx = []"
  have low: "lowest_loop skip key (rc_Providers ctx) (- 1) None = None" for skip key
    using lowest_loop_healthy [of skip key "rc_Providers ctx" "- 1" None] n
    by (cases "lowest_loop skip key (rc_Providers ctx) (- 1) None") (auto simp: healthy_of_def filter_empty_conv)
  have fnd: "find (\<lambda>p. Q p \<and> rp_IsHealthy p) (rc_Providers ctx) = None" for Q
    using find_healthy [of Q ctx] n by (cases "find (\<lambda>p. Q p \<and> rp_IsHealthy p) (rc_Providers ctx)") auto
  show "fst (strategy_SelectProvider env s ctx) = SelectError ErrNoHealthyProvider"
    using h ne n low fnd by (cases s) (auto simp: weighted_none roundRobin_Select_def p2c_Select_def random_Select_def leastUsed_Select_def
      costOptimized_Select_def resetAware_Select_def best_scored_def auto_Select_def lkgp_Select_def contextOptimized_Select_def
      relay_Select_def fillFirst_Select_def Let_def split: option.splits)
qed

section \<open>Properties\<close>

definition plain_env :: "gtime \<Rightarrow> select_env" where
  "plain_env now = \<lparr>se_now = now, se_intn = (\<lambda>n. 0), se_intn2 = (\<lambda>n. 0), se_int63n = (\<lambda>n. 0), se_sort = insertion_sort, se_sort_scored = insertion_sort\<rparr>"

definition priority_key :: "RoutingContext \<Rightarrow> RouteProvider \<Rightarrow> int \<times> float64" where
  "priority_key ctx p = (rp_Tier p, - map_get 0 (rc_HealthScores ctx) (rp_ID p))"

lemma priority_less_key: "priority_less ctx p q \<longleftrightarrow> priority_key ctx p < priority_key ctx q"
  by (auto simp: priority_less_def priority_key_def)

lemma plain_env_good: "good_env (plain_env now)"
proof -
  have "sort_contract insertion_sort (priority_less ctx)" for ctx
    by (rule insertion_sort_contract [where k = "priority_key ctx"]) (rule priority_less_key)
  moreover have "sort_contract insertion_sort score_greater"
    by (rule insertion_sort_contract [where k = "\<lambda>x. falling (snd x)"]) (rule score_greater_key)
  ultimately show ?thesis by (simp add: good_env_def plain_env_def)
qed

definition demo_provider :: "gostr \<Rightarrow> int \<Rightarrow> bool \<Rightarrow> RouteProvider" where
  "demo_provider i tier healthy = \<lparr>rp_ID = i, rp_Name = i, rp_Tier = tier, rp_OAuthSupport = False, rp_Health = 1, rp_QuotaUsed = 0,
     rp_QuotaLimit = 0, rp_CostPer1KIn = 0, rp_CostPer1KOut = 0, rp_LatencyMs = 0, rp_StabilityScore = 1, rp_TaskFitScores = None,
     rp_ModelIDs = [], rp_IsHealthy = healthy, rp_LastFailureTime = 0, rp_LastSuccessTime = 0\<rparr>"

definition demo_ctx :: "RouteProvider list \<Rightarrow> RoutingContext" where
  "demo_ctx ps = NewRoutingContext (fixed_zone 0) 5 (\<lambda>i. i) ps"

lemma calculateScores_fields [simp]:
  "rc_Providers (calculateScores ctx) = rc_Providers ctx" "rc_TaskType (calculateScores ctx) = rc_TaskType ctx"
  "rc_SessionID (calculateScores ctx) = rc_SessionID ctx" "rc_CostBudget (calculateScores ctx) = rc_CostBudget ctx"
proof -
  have "rc_Providers (fold score_provider ps c) = rc_Providers c \<and> rc_TaskType (fold score_provider ps c) = rc_TaskType c
    \<and> rc_SessionID (fold score_provider ps c) = rc_SessionID c \<and> rc_CostBudget (fold score_provider ps c) = rc_CostBudget c" for ps c
    by (induction ps arbitrary: c) (simp_all add: score_provider_def)
  then show "rc_Providers (calculateScores ctx) = rc_Providers ctx" "rc_TaskType (calculateScores ctx) = rc_TaskType ctx"
    "rc_SessionID (calculateScores ctx) = rc_SessionID ctx" "rc_CostBudget (calculateScores ctx) = rc_CostBudget ctx"
    by (simp_all add: calculateScores_def)
qed

lemma demo_ctx_providers [simp]: "rc_Providers (demo_ctx ps) = ps"
  by (simp add: demo_ctx_def NewRoutingContext_def)

text \<open>C20: Whatever requests a strategy other than \<open>priority\<close> and \<open>strict-random\<close> has served and whatever
  its configuration, every provider it selects is one of the request's providers and is healthy, and
  when none is healthy it reports just that.\<close>

theorem strategies_serve_healthy:
  assumes "checks_health s" "\<forall>(env, ctx) \<in> set calls. good_env env"
  shows "list_all2 (\<lambda>(env, ctx) r. (\<forall>p. r = Selected p \<longrightarrow> p \<in> set (rc_Providers ctx) \<and> rp_IsHealthy p)
    \<and> ((\<forall>p \<in> set (rc_Providers ctx). \<not> rp_IsHealthy p) \<longrightarrow>
         r = SelectError (if rc_Providers ctx = [] then ErrNoProviderAvailable else ErrNoHealthyProvider)))
    calls (fst (serve strategy_SelectProvider s calls))"
  using assms by (rule routing.serve_healthy)

definition demo_calls :: "(select_env \<times> RoutingContext) list" where
  "demo_calls = [(plain_env 5, demo_ctx [demo_provider ''a'' 0 False, demo_provider ''b'' 1 True]),
     (plain_env 6, demo_ctx [demo_provider ''b'' 1 False])]"

theorem strategies_serve_healthy_witness:
  "fst (serve strategy_SelectProvider (LKGPStrategy [] 0) demo_calls) ! 1 = SelectError ErrNoHealthyProvider"
proof -
  have "checks_health (LKGPStrategy [] 0)" "\<forall>(env, ctx) \<in> set demo_calls. good_env env"
    using plain_env_good by (simp_all add: demo_calls_def)
  from list_all2_nthD [OF strategies_serve_healthy [OF this], of 1] show ?thesis
    by (simp add: demo_calls_def demo_provider_def)
qed

text \<open>C21: What \<open>auto\<close>, \<open>reset-aware\<close> and \<open>priority\<close> select while a provider is healthy is a healthy provider
  that is best among the healthy ones: for \<open>auto\<close> by the weighted sum of the nine factors, rounded step by step and infinite
  for tier -1, for \<open>reset-aware\<close> by the share of the quota that is left and nothing else, and for
  \<open>priority\<close> by the tier and then the health score.\<close>

theorem strategies_select_best:
  assumes "good_env env" "healthy_of ctx \<noteq> []"
  shows "\<exists>a r p. fst (strategy_SelectProvider env (AutoComboStrategy mode) ctx) = Selected a
     \<and> fst (strategy_SelectProvider env ResetAwareStrategy ctx) = Selected r \<and> fst (strategy_SelectProvider env (PriorityStrategy l) ctx) = Selected p
     \<and> {a, r, p} \<subseteq> set (healthy_of ctx)
     \<and> (\<forall>q \<in> set (healthy_of ctx). auto_score mode ctx q \<le> auto_score mode ctx a \<and> quota_share q \<le> quota_share r
         \<and> priority_key ctx p \<le> priority_key ctx q)"
proof -
  obtain a r where a: "best_scored env (auto_score mode ctx) ctx = Selected a" and r: "best_scored env (\<lambda>p. Fin (quota_share p)) ctx = Selected r"
    using best_scored_some [OF assms(2)] by metis
  have c: "sort_contract (se_sort env) (priority_less ctx)" using assms(1) by (simp add: good_env_def)
  let ?s = "sort_Slice (se_sort env) (priority_less ctx) (rc_Providers ctx)"
  have "set ?s = set (rc_Providers ctx)" by (rule sort_Slice_set [OF c priority_less_key])
  then have "find rp_IsHealthy ?s \<noteq> None"
    using assms(2) by (auto simp: find_None_iff healthy_of_def filter_empty_conv)
  then obtain p where p: "find rp_IsHealthy ?s = Some p" by auto
  note f = sort_Slice_find [OF c priority_less_key p]
  have "fst (strategy_SelectProvider env (PriorityStrategy l) ctx) = Selected p"
    using p assms(2) by (auto simp: priority_Select_def Let_def healthy_of_def)
  then show ?thesis using best_scored_best [OF assms(1) a] best_scored_best [OF assms(1) r] f a r
    by (auto simp: auto_Select_def resetAware_Select_def healthy_mem)
qed

theorem strategies_select_best_witness:
  "\<exists>p. fst (strategy_SelectProvider (plain_env 5) (PriorityStrategy []) (demo_ctx [demo_provider ''a'' 3 True, demo_provider ''b'' 1 True])) = Selected p \<and> rp_Tier p = 1"
proof -
  let ?c = "demo_ctx [demo_provider ''a'' 3 True, demo_provider ''b'' 1 True]"
  have h: "healthy_of ?c = [demo_provider ''a'' 3 True, demo_provider ''b'' 1 True]" by (simp add: healthy_of_def demo_provider_def)
  from strategies_select_best [OF plain_env_good, of ?c 5 "[]" "[]"] obtain p where
    p: "fst (strategy_SelectProvider (plain_env 5) (PriorityStrategy []) ?c) = Selected p" "p \<in> set (healthy_of ?c)"
      "\<forall>q \<in> set (healthy_of ?c). priority_key ?c p \<le> priority_key ?c q" by (auto simp: h)
  then have "priority_key ?c p \<le> priority_key ?c (demo_provider ''b'' 1 True)" by (simp add: h)
  then have "rp_Tier p \<le> 1" by (auto simp: priority_key_def demo_provider_def)
  moreover have "p = demo_provider ''a'' 3 True \<or> p = demo_provider ''b'' 1 True" using p(2) by (simp add: h)
  moreover have "rp_Tier (demo_provider i t b) = t" for i t b by (simp add: demo_provider_def)
  ultimately have "rp_Tier p = 1" by auto
  then show ?thesis using p(1) by blast
qed

text \<open>The strategies that minimise a quantity find its minimum: \<open>least-used\<close> the lowest share of the
  quota in use among the healthy providers, and \<open>cost-optimized\<close> the lowest price among those within the
  budget, provided that usage and prices are not negative; \<open>fill-first\<close> finds the most quota left.\<close>

theorem strategies_select_extreme:
  assumes "\<forall>q \<in> set (rc_Providers ctx). 0 \<le> rp_QuotaUsed q \<and> 0 \<le> rp_CostPer1KIn q \<and> 0 \<le> rp_CostPer1KOut q"
  shows "(leastUsed_Select ctx = Selected p \<longrightarrow> (\<forall>q \<in> set (healthy_of ctx). rp_usage p \<le> rp_usage q))
    \<and> (costOptimized_Select ctx = Selected p \<longrightarrow> \<not> over_budget ctx p \<and> (\<forall>q \<in> set (healthy_of ctx). \<not> over_budget ctx q \<longrightarrow> rp_cost p \<le> rp_cost q))
    \<and> (fillFirst_Select ctx = Selected p \<longrightarrow> (\<forall>q \<in> set (healthy_of ctx). quota_remaining q \<le> quota_remaining p))"
proof -
  have u: "0 \<le> rp_usage q" if "q \<in> set (rc_Providers ctx)" for q
    using assms that by (simp add: rp_usage_def float_ops fl_nonneg)
  have c: "0 \<le> rp_cost q" if "q \<in> set (rc_Providers ctx)" for q
    using assms that by (simp add: rp_cost_def float_ops fl_nonneg)
  note lu = lowest_loop_best [where key = rp_usage and ps = "rc_Providers ctx" and lowest = "- 1" and best = None and skip = "\<lambda>p. False"]
  note lc = lowest_loop_best [where key = rp_cost and ps = "rc_Providers ctx" and lowest = "- 1" and best = None and skip = "over_budget ctx"]
  have "leastUsed_Select ctx = Selected p \<longrightarrow> (\<forall>q \<in> set (healthy_of ctx). rp_usage p \<le> rp_usage q)"
    using lu u by (auto simp: leastUsed_Select_def healthy_mem split: if_splits option.splits)
  moreover have "costOptimized_Select ctx = Selected p \<longrightarrow>
      \<not> over_budget ctx p \<and> (\<forall>q \<in> set (healthy_of ctx). \<not> over_budget ctx q \<longrightarrow> rp_cost p \<le> rp_cost q)"
    using lc c by (auto simp: costOptimized_Select_def healthy_mem split: if_splits option.splits)
  moreover have "fillFirst_Select ctx = Selected p \<longrightarrow> (\<forall>q \<in> set (healthy_of ctx). quota_remaining q \<le> quota_remaining p)"
    using highest_loop_some(3) [of quota_remaining "healthy_of ctx" "- 1" p]
    by (auto simp: fillFirst_Select_def option_selection_def Let_def split: if_splits option.splits)
  ultimately show ?thesis by blast
qed

theorem strategies_select_extreme_witness:
  "rp_usage (demo_provider ''a'' 0 True) \<le> rp_usage (demo_provider ''b'' 0 True)"
proof -
  let ?c = "demo_ctx [demo_provider ''a'' 0 True, demo_provider ''b'' 0 True]"
  have "leastUsed_Select ?c = Selected (demo_provider ''a'' 0 True)"
    by (simp add: leastUsed_Select_def rp_usage_def demo_provider_def)
  then show ?thesis using strategies_select_extreme [of ?c "demo_provider ''a'' 0 True"] by (simp add: healthy_of_def demo_provider_def)
qed

section \<open>Round robin is fair\<close>

lemma roundRobin_step:
  assumes "healthy_of ctx \<noteq> []"
  shows "strategy_SelectProvider env (RoundRobinStrategy mu) ctx
    = (Selected (healthy_of ctx ! nat ((mu + 1) mod int (length (healthy_of ctx)))), RoundRobinStrategy ((mu + 1) mod int (length (healthy_of ctx))))"
  using assms by (auto simp: roundRobin_Select_def Let_def healthy_of_def)

lemma roundRobin_serve:
  assumes "healthy_of ctx \<noteq> []" "\<forall>(env, c) \<in> set calls. healthy_of c = healthy_of ctx"
  shows "fst (serve strategy_SelectProvider (RoundRobinStrategy mu) calls)
    = map (\<lambda>i. Selected (healthy_of ctx ! nat ((mu + 1 + int i) mod int (length (healthy_of ctx))))) [0..<length calls]"
  using assms(2)
proof (induction calls arbitrary: mu)
  case (Cons c calls)
  obtain env ctx' where c: "c = (env, ctx')" by (cases c)
  let ?n = "int (length (healthy_of ctx))" and ?mu = "(mu + 1) mod int (length (healthy_of ctx))"
  have h: "healthy_of ctx' = healthy_of ctx" using Cons.prems by (simp add: c)
  obtain rs s where e: "serve strategy_SelectProvider (RoundRobinStrategy ?mu) calls = (rs, s)" by (cases "serve strategy_SelectProvider (RoundRobinStrategy ?mu) calls")
  have "fst (serve strategy_SelectProvider (RoundRobinStrategy mu) (c # calls)) = Selected (healthy_of ctx ! nat ?mu) # rs"
    using roundRobin_step [of ctx' env mu] assms(1) by (simp add: c h e del: strategy_SelectProvider.simps)
  moreover have "rs = map (\<lambda>i. Selected (healthy_of ctx ! nat ((?mu + 1 + int i) mod ?n))) [0..<length calls]"
    using Cons.IH [of ?mu] Cons.prems e by simp
  moreover have "(?mu + 1 + int i) mod ?n = (mu + 1 + int (Suc i)) mod ?n" for i
  proof -
    have "(?mu + (1 + int i)) mod ?n = (mu + 1 + (1 + int i)) mod ?n" by (rule mod_add_left_eq)
    then show ?thesis by (simp add: algebra_simps)
  qed
  moreover have "[0..<length (c # calls)] = 0 # map Suc [0..<length calls]" by (simp add: map_Suc_upt upt_conv_Cons del: upt_Suc)
  ultimately show ?case by simp
qed simp

lemma rotation_permutes:
  assumes "0 < n" shows "(\<lambda>i. nat ((a + int i) mod int n)) ` {0..<n} = {0..<n}"
proof (rule endo_inj_surj)
  show "(\<lambda>i. nat ((a + int i) mod int n)) ` {0..<n} \<subseteq> {0..<n}" using assms by (auto simp: nat_less_iff)
  show "inj_on (\<lambda>i. nat ((a + int i) mod int n)) {0..<n}"
  proof (rule inj_onI)
    fix i j
    assume ij: "i \<in> {0..<n}" "j \<in> {0..<n}" and eq: "nat ((a + int i) mod int n) = nat ((a + int j) mod int n)"
    moreover have "0 \<le> (a + int i) mod int n" "0 \<le> (a + int j) mod int n" using assms by simp_all
    ultimately have "(a + int i) mod int n = (a + int j) mod int n" by (simp only: eq_nat_nat_iff)
    then have "int n dvd (a + int i) - (a + int j)" by (simp only: mod_eq_dvd_iff)
    then have "int n dvd int i - int j" by simp
    then have "int i - int j = 0 \<or> int n \<le> \<bar>int i - int j\<bar>" using zdvd_imp_le [of "int n" "\<bar>int i - int j\<bar>"] by auto
    moreover have "\<bar>int i - int j\<bar> < int n" using ij by auto
    ultimately show "i = j" by auto
  qed
qed simp

text \<open>C27: Round robin is fair: while the healthy providers do not change, any run of as many requests
  as there are of them selects each exactly once, from whatever position it starts.\<close>

theorem roundrobin_fair:
  assumes "healthy_of ctx \<noteq> []" "\<forall>(env, c) \<in> set calls. healthy_of c = healthy_of ctx" "length calls = length (healthy_of ctx)"
  shows "mset (fst (serve strategy_SelectProvider (RoundRobinStrategy mu) calls)) = image_mset Selected (mset (healthy_of ctx))"
proof -
  let ?h = "healthy_of ctx" and ?n = "length (healthy_of ctx)"
  let ?f = "\<lambda>i. nat ((mu + 1 + int i) mod int ?n)"
  have f: "?f ` {0..<?n} = {0..<?n}" using rotation_permutes [of ?n "mu + 1"] assms(1) by simp
  then have "inj_on ?f {0..<?n}" by (intro eq_card_imp_inj_on) simp_all
  then have m: "image_mset ?f (mset_set {0..<?n}) = mset_set {0..<?n}" using f by (simp add: image_mset_mset_set)
  have "mset (map (\<lambda>i. Selected (?h ! ?f i)) [0..<?n]) = image_mset (\<lambda>k. Selected (?h ! k)) (image_mset ?f (mset_set {0..<?n}))"
    by (simp add: multiset.map_comp comp_def)
  also have "\<dots> = image_mset Selected (image_mset (\<lambda>k. ?h ! k) (mset_set {0..<?n}))" by (simp only: m multiset.map_comp comp_def)
  also have "image_mset (\<lambda>k. ?h ! k) (mset_set {0..<?n}) = mset ?h"
    by (metis map_nth mset_map mset_upt)
  finally show ?thesis using roundRobin_serve [OF assms(1,2)] assms(3) by simp
qed

theorem roundrobin_fair_witness:
  "mset (fst (serve strategy_SelectProvider (RoundRobinStrategy 7)
      [(plain_env 1, demo_ctx [demo_provider ''a'' 0 True, demo_provider ''b'' 1 True]),
       (plain_env 2, demo_ctx [demo_provider ''a'' 0 True, demo_provider ''b'' 1 True])]))
    = {# Selected (demo_provider ''a'' 0 True), Selected (demo_provider ''b'' 1 True) #}"
proof -
  have "healthy_of (demo_ctx [demo_provider ''a'' 0 True, demo_provider ''b'' 1 True]) = [demo_provider ''a'' 0 True, demo_provider ''b'' 1 True]"
    by (simp add: healthy_of_def demo_provider_def)
  then show ?thesis
    using roundrobin_fair [of "demo_ctx [demo_provider ''a'' 0 True, demo_provider ''b'' 1 True]"
      "[(plain_env 1, demo_ctx [demo_provider ''a'' 0 True, demo_provider ''b'' 1 True]), (plain_env 2, demo_ctx [demo_provider ''a'' 0 True, demo_provider ''b'' 1 True])]" 7]
    by (simp del: strategy_SelectProvider.simps serve.simps)
qed

section \<open>Sticky strategies\<close>

text \<open>A session keeps its provider as long as that is healthy.\<close>

theorem relay_sticky:
  assumes "relay_Select env (Some m) ctx = (Selected p, Some m')" "rc_SessionID ctx' = rc_SessionID ctx"
    and "\<exists>q \<in> set (healthy_of ctx'). rp_ID q = rp_ID p" "good_env env"
  shows "\<exists>q. relay_Select env' (Some m') ctx' = (Selected q, Some m') \<and> rp_ID q = rp_ID p"
proof -
  have m': "m' (rc_SessionID ctx) = Some (rp_ID p)"
  proof -
    have b: "healthy_of ctx \<noteq> [] \<Longrightarrow> \<exists>q. auto_Select env ''ship-fast'' (ctx\<lparr>rc_TaskType := [], rc_CostBudget := 0, rc_LatencyBudget := 0, rc_RequiredCaps := [],
        rc_ContextSize := 0, rc_SessionID := [], rc_Providers := healthy_of ctx\<rparr>) = Selected q"
      unfolding auto_Select_def by (rule best_scored_some) (simp add: healthy_of_def)
    show ?thesis using assms(1) b by (fastforce simp: relay_Select_def Let_def find_Some_iff split: if_splits option.splits route_selection.splits)
  qed
  have "find (\<lambda>q. rp_ID q = rp_ID p \<and> rp_IsHealthy q) (rc_Providers ctx') \<noteq> None"
    using assms(3) by (auto simp: find_None_iff healthy_mem)
  then obtain q where q: "find (\<lambda>q. rp_ID q = rp_ID p \<and> rp_IsHealthy q) (rc_Providers ctx') = Some q" by auto
  then have "rp_ID q = rp_ID p" "rc_Providers ctx' \<noteq> []" by (auto simp: find_Some_iff)
  then show ?thesis using q m' assms(2) by (simp add: relay_Select_def)
qed

text \<open>The last known good provider is kept for five minutes while it is healthy.\<close>

theorem lkgp_sticky:
  assumes "lkgp_Select env (l, t) ctx = (Selected p, l', t')" "l' = rp_ID p" "rp_ID p \<noteq> []" "se_now env' < t'"
    and "\<exists>q \<in> set (healthy_of ctx'). rp_ID q = rp_ID p"
  shows "\<exists>q. lkgp_Select env' (l', t') ctx' = (Selected q, l', t') \<and> rp_ID q = rp_ID p"
proof -
  have "find (\<lambda>q. rp_ID q = rp_ID p \<and> rp_IsHealthy q) (rc_Providers ctx') \<noteq> None"
    using assms(5) by (auto simp: find_None_iff healthy_mem)
  then obtain q where q: "find (\<lambda>q. rp_ID q = rp_ID p \<and> rp_IsHealthy q) (rc_Providers ctx') = Some q" by auto
  then have "rp_ID q = rp_ID p" "rc_Providers ctx' \<noteq> []" by (auto simp: find_Some_iff)
  then show ?thesis using q assms(2-4) by (simp add: lkgp_Select_def)
qed

section \<open>Scores\<close>

definition documented_ranges :: "RouteProvider \<Rightarrow> bool" where
  "documented_ranges p \<longleftrightarrow> 0 \<le> rp_Health p \<and> rp_Health p \<le> 1 \<and> 0 \<le> rp_StabilityScore p \<and> rp_StabilityScore p \<le> 1
     \<and> 0 \<le> rp_QuotaUsed p \<and> is_int64 (rp_QuotaUsed p) \<and> is_int64 (rp_QuotaLimit p) \<and> 0 \<le> rp_CostPer1KIn p \<and> 0 \<le> rp_CostPer1KOut p
     \<and> 0 \<le> rp_LatencyMs p \<and> (\<forall>m t x. rp_TaskFitScores p = Some m \<longrightarrow> m t = Some x \<longrightarrow> 0 \<le> x \<and> x \<le> 1)"

lemma inverse_unit: "0 \<le> x \<Longrightarrow> Fin 0 \<le> frecip (fadd 1 x) \<and> frecip (fadd 1 x) \<le> Fin 1"
proof -
  assume "0 \<le> x"
  then have "1 \<le> fadd 1 x" using fl_mono [of 1 "1 + x"] by (simp add: fadd_def)
  moreover from this have "0 \<le> fdiv 1 (fadd 1 x) \<and> fdiv 1 (fadd 1 x) \<le> 1" unfolding fdiv_def by (intro unit_fl) simp_all
  ultimately show ?thesis by (simp add: frecip_def)
qed

lemma quota_share_unit: "documented_ranges p \<Longrightarrow> 0 \<le> quota_share p \<and> quota_share p \<le> 1"
proof -
  assume d: "documented_ranges p"
  let ?l = "rp_QuotaLimit p" and ?u = "rp_QuotaUsed p"
  have "fdiv (float_of_int (wrap64 (?l - ?u))) (float_of_int ?l) \<le> 1" if l: "0 < ?l"
  proof -
    have "wrap64 (?l - ?u) = ?l - ?u" using d l by (intro wrap64_id) (auto simp: documented_ranges_def is_int64_def)
    then show ?thesis using ratio_le_one [of "?l - ?u" ?l] l d by (simp add: documented_ranges_def)
  qed
  then show ?thesis by (auto simp: quota_share_def Let_def)
qed

lemma specificity_unit: "0 \<le> specificity ctx p \<and> specificity ctx p \<le> 1"
proof (cases "rc_RequiredCaps ctx = []")
  case False
  let ?m = "length (filter (\<lambda>cap. list_ex (\<lambda>pCap. cap = pCap) (rp_Capabilities p)) (rc_RequiredCaps ctx))"
  show ?thesis using False ratio_unit [of "int ?m" "int (length (rc_RequiredCaps ctx))"] by (simp add: specificity_def Let_def)
qed (simp add: specificity_def)

lemma tier_affinity_unit: "0 \<le> tier_affinity ctx p \<and> tier_affinity ctx p \<le> 1"
proof -
  have "0 \<le> fmul x (1 / 2) \<and> fmul x (1 / 2) \<le> 1" if "0 \<le> x" "x \<le> 1" for x
    unfolding fmul_def by (rule unit_fl) (use that in simp_all)
  then show ?thesis by (simp add: tier_affinity_def Let_def)
qed

definition unit_map :: "(gostr, float64) gomap \<Rightarrow> bool" where
  "unit_map m \<longleftrightarrow> (\<forall>i x. m i = Some x \<longrightarrow> 0 \<le> x \<and> x \<le> 1)"

lemma unit_map_upd: "unit_map m \<Longrightarrow> 0 \<le> x \<and> x \<le> 1 \<Longrightarrow> unit_map (m(i \<mapsto> x))"
  by (simp add: unit_map_def)

definition unit_scores :: "RoutingContext \<Rightarrow> bool" where
  "unit_scores ctx \<longleftrightarrow> (\<forall>m \<in> {rc_HealthScores ctx, rc_QuotaScores ctx, rc_TaskFitScores ctx, rc_SpecificityScores ctx,
     rc_StabilityScores ctx, rc_TierAffinities ctx}. unit_map m)
     \<and> (\<forall>m \<in> {rc_CostScores ctx, rc_LatencyScores ctx}. \<forall>i x. m i = Some x \<longrightarrow> Fin 0 \<le> x \<and> x \<le> Fin 1)"

lemma score_provider_unit:
  assumes "documented_ranges p" "unit_scores ctx" shows "unit_scores (score_provider p ctx)"
proof -
  have "0 \<le> rp_cost p" using assms(1) by (simp add: documented_ranges_def rp_cost_def fadd_def fl_nonneg)
  then have "Fin 0 \<le> cost_score p \<and> cost_score p \<le> Fin 1"
    using inverse_unit [of "fmul (rp_cost p) 100"] by (simp add: cost_score_def Let_def fmul_def fl_nonneg)
  moreover have "Fin 0 \<le> latency_score p \<and> latency_score p \<le> Fin 1"
    using assms(1) inverse_unit [of "fdiv (float_of_int (rp_LatencyMs p)) 1000"]
    by (simp add: latency_score_def documented_ranges_def fdiv_def float_of_int_def fl_nonneg)
  moreover have "0 \<le> task_fit ctx p \<and> task_fit ctx p \<le> 1"
    using assms(1) by (auto simp: task_fit_def documented_ranges_def split: option.splits)
  moreover have "0 \<le> rp_Health p \<and> rp_Health p \<le> 1" "0 \<le> rp_StabilityScore p \<and> rp_StabilityScore p \<le> 1"
    using assms(1) by (simp_all add: documented_ranges_def)
  ultimately show ?thesis using assms(2) quota_share_unit [OF assms(1)] specificity_unit [of ctx p] tier_affinity_unit [of ctx p]
    by (simp add: unit_scores_def score_provider_def unit_map_upd)
qed

text \<open>The scores of a routing context lie between 0 and 1 for providers within their documented
  ranges, although every step is rounded.\<close>

theorem context_scores_unit:
  assumes "\<forall>p \<in> set ps. documented_ranges p"
  shows "unit_scores (NewRoutingContext loc now draw ps)"
proof -
  have "unit_scores (fold score_provider qs ctx)" if "set qs \<subseteq> set ps" "unit_scores ctx" for qs ctx
    using that assms by (induction qs arbitrary: ctx) (simp_all add: score_provider_unit)
  note fold_unit = this
  show ?thesis unfolding NewRoutingContext_def calculateScores_def
    by (rule fold_unit) (simp_all add: unit_scores_def unit_map_def)
qed

theorem context_scores_unit_witness: "unit_scores (demo_ctx [demo_provider ''a'' 0 True])"
  unfolding demo_ctx_def
  by (rule context_scores_unit) (simp add: documented_ranges_def demo_provider_def is_int64_def)

section \<open>Where the strategies depart from their documentation\<close>

text \<open>
  The scores are computed before a caller can set the requirements of the request: the affinity and
  the specificity of every provider of a new context are 1, whatever budgets and capabilities follow.
\<close>

theorem context_scores_ignore_request:
  assumes "p \<in> set ps"
  shows "rc_TierAffinities (NewRoutingContext loc now draw ps) (rp_ID p) = Some 1"
    and "rc_SpecificityScores (NewRoutingContext loc now draw ps) (rp_ID p) = Some 1"
proof -
  have "rc_TierAffinities (fold score_provider qs ctx) i = (if i \<in> rp_ID ` set qs then Some 1 else rc_TierAffinities ctx i)
      \<and> rc_SpecificityScores (fold score_provider qs ctx) i = (if i \<in> rp_ID ` set qs then Some 1 else rc_SpecificityScores ctx i)"
    if "rc_CostBudget ctx = 0" "rc_LatencyBudget ctx = 0" "rc_RequiredCaps ctx = []" for qs ctx i
    using that by (induction qs arbitrary: ctx) (auto simp: score_provider_def tier_affinity_def specificity_def)
  then show "rc_TierAffinities (NewRoutingContext loc now draw ps) (rp_ID p) = Some 1"
    "rc_SpecificityScores (NewRoutingContext loc now draw ps) (rp_ID p) = Some 1"
    using assms by (simp_all add: NewRoutingContext_def calculateScores_def)
qed

text \<open>\<open>priority\<close> returns an unhealthy provider when none is healthy, and ignores the list it is configured with.\<close>

theorem priority_selects_unhealthy:
  "priority_Select env (demo_ctx [demo_provider ''a'' 0 False]) = Selected (demo_provider ''a'' 0 False)"
  by (simp add: priority_Select_def sort_Slice_def insertion_sort_def insert_left_def demo_provider_def)

theorem priority_ignores_list: "fst (strategy_SelectProvider env (PriorityStrategy l) ctx) = fst (strategy_SelectProvider env (PriorityStrategy l') ctx)"
  by simp

text \<open>\<open>weighted\<close> panics when the weights of the healthy providers add up to less than a thousandth.\<close>

theorem route_weighted_panics:
  "fst (strategy_SelectProvider env (WeightedStrategy (Some [''a'' \<mapsto> 1 / 2048])) (demo_ctx [demo_provider ''a'' 0 True])) = SelectPanic"
proof -
  have "fl (of_int 1 * 2 powi (- 11)) = of_int 1 * 2 powi (- 11)" by (rule fl_exact) simp_all
  then have a: "fl (1 / 2048) = 1 / 2048" by (simp add: power_int_minus)
  have "fl (of_int 1000 * 2 powi (- 11)) = of_int 1000 * 2 powi (- 11)" by (rule fl_exact) simp_all
  then have "fl (125 / 256) = 125 / 256" by (simp add: power_int_minus)
  then show ?thesis
    by (simp add: weighted_Select_def weigh_def healthy_of_def demo_provider_def route_weight_def fadd_def fmul_def a int_of_float_def Let_def)
qed

text \<open>The strategy \<open>context-relay\<close> of \<open>AvailableStrategies\<close> has no map for its sessions: its first selection panics.\<close>

theorem relay_available_panics:
  assumes "good_env env" "healthy_of ctx \<noteq> []"
  shows "map_of AvailableStrategies ''context-relay'' = Some (ContextRelayStrategy None)"
    and "fst (strategy_SelectProvider env (ContextRelayStrategy None) ctx) = SelectPanic"
proof -
  let ?ctx = "ctx\<lparr>rc_TaskType := [], rc_CostBudget := 0, rc_LatencyBudget := 0, rc_RequiredCaps := [],
    rc_ContextSize := 0, rc_SessionID := [], rc_Providers := healthy_of ctx\<rparr>"
  have "\<exists>q. auto_Select env ''ship-fast'' ?ctx = Selected q"
    unfolding auto_Select_def by (rule best_scored_some) (use assms(2) in \<open>simp add: healthy_of_def\<close>)
  moreover have "rc_Providers ctx \<noteq> []" using assms(2) by (auto simp: healthy_of_def)
  ultimately show "fst (strategy_SelectProvider env (ContextRelayStrategy None) ctx) = SelectPanic"
    using assms(2) by (auto simp: relay_Select_def Let_def)
qed (simp add: AvailableStrategies_def)

text \<open>The fit of a context does not depend on the provider, so \<open>context-optimized\<close> always takes the first healthy one.\<close>

theorem context_optimized_first:
  assumes "healthy_of ctx \<noteq> []" shows "contextOptimized_Select ctx = Selected (hd (healthy_of ctx))"
proof -
  obtain p ps where h: "healthy_of ctx = p # ps" using assms by (cases "healthy_of ctx") auto
  let ?f = "\<lambda>p. calculateFitScore p (rc_ContextSize ctx)"
  have const: "?f q = ?f p" for q by (simp add: calculateFitScore_def)
  have "0 \<le> ?f p"
  proof -
    let ?c = "rc_ContextSize ctx"
    have m: "fdiv (float_of_int 128000) 2 = 64000" using fl_of_int [of 128000] fl_of_int [of 64000] by (simp add: float_ops)
    have "0 \<le> fsub 1 (fdiv \<bar>fsub (float_of_int ?c) 64000\<bar> 64000)" if "4000 \<le> ?c" "?c \<le> 128000"
    proof -
      have c: "fsub (float_of_int ?c) 64000 = of_int (?c - 64000)"
        using that fl_of_int [of ?c] fl_of_int [of "?c - 64000"] by (simp add: float_ops)
      have "\<bar>?c - 64000\<bar> \<le> 64000" using that by auto
      then have "\<bar>of_int (?c - 64000) :: rat\<bar> \<le> 64000" by (metis of_int_abs of_int_le_iff of_int_numeral)
      then have "fdiv \<bar>of_int (?c - 64000)\<bar> 64000 \<le> 1" using fl_mono [of "\<bar>of_int (?c - 64000)\<bar> / 64000" 1] by (simp add: fdiv_def)
      then show ?thesis unfolding c by (simp add: fsub_def [of 1] fl_nonneg)
    qed
    moreover have "0 \<le> fl (1 / 10)" by (simp add: fl_nonneg)
    ultimately show ?thesis unfolding calculateFitScore_def Let_def m by (simp only: split: if_split) simp
  qed
  moreover have "highest_loop ?f qs (?f p) (Some p) = Some p" for qs
  proof (induction qs)
    case (Cons q qs)
    have "\<not> ?f p < ?f q" using const [of q] by simp
    then show ?case using Cons by (simp only: highest_loop.simps if_False)
  qed simp
  ultimately have "highest_loop ?f (p # ps) (- 1) None = Some p" by simp
  moreover have "rc_Providers ctx \<noteq> []" using assms by (auto simp: healthy_of_def)
  ultimately show ?thesis unfolding contextOptimized_Select_def h option_selection_def by simp
qed

text \<open>\<open>fill-first\<close> returns neither a provider nor an error when every quota is overdrawn.\<close>

theorem fill_first_nil:
  assumes "healthy_of ctx \<noteq> []" "\<forall>p \<in> set (healthy_of ctx). quota_remaining p < 0"
  shows "fillFirst_Select ctx = SelectedNil"
proof -
  have "highest_loop quota_remaining (healthy_of ctx) (- 1) None = None"
    unfolding highest_loop_none using assms(2) by auto
  moreover have "rc_Providers ctx \<noteq> []" using assms(1) by (auto simp: healthy_of_def)
  ultimately show ?thesis using assms(1) by (simp add: fillFirst_Select_def option_selection_def Let_def)
qed

end
