(* ===== verification/Score_Strategies.thy ===== *)
theory Score_Strategies
  imports Ext_Router
begin

text \<open>
  The scoring strategies of \<open>routing/strategies/strategies.go\<close> over the factors of the extended
  router, and their registry. The literals of the code are rounded to doubles, and so is every
  operation.
\<close>

datatype score_strategy = LeastLatencyStrategy | CheapestStrategy | QualityFirstStrategy | BalancedStrategy
  | CostAwareStrategy | ThroughputStrategy | ReliabilityStrategy | CustomWeightedStrategy ScoringWeights
  | AdaptiveStrategy | LoadBalancedStrategy "(gostr, int) gomap" | GeographicStrategy gostr | ComplianceStrategy
  | SecurityFirstStrategy | OfflineFriendlyStrategy

fun score_Name :: "score_strategy \<Rightarrow> strategy" where
  "score_Name LeastLatencyStrategy = ''least_latency''"
| "score_Name CheapestStrategy = ''cheapest''"
| "score_Name QualityFirstStrategy = ''quality_first''"
| "score_Name BalancedStrategy = ''balanced''"
| "score_Name CostAwareStrategy = ''cost_aware''"
| "score_Name ThroughputStrategy = ''throughput''"
| "score_Name ReliabilityStrategy = ''reliability''"
| "score_Name (CustomWeightedStrategy _) = ''custom_weighted''"
| "score_Name AdaptiveStrategy = ''adaptive''"
| "score_Name (LoadBalancedStrategy _) = ''load_balanced''"
| "score_Name (GeographicStrategy _) = ''geographic''"
| "score_Name ComplianceStrategy = ''compliance''"
| "score_Name SecurityFirstStrategy = ''security_first''"
| "score_Name OfflineFriendlyStrategy = ''offline_friendly''"

definition costAware_Score :: "ScoringFactors \<Rightarrow> float64" where
  "costAware_Score f = fadd (fadd (fadd (fmul (f_Cost f) (fl (5 / 10))) (fmul (f_Quality f) (fl (2 / 10))))
     (fmul (f_Reliability f) (fl (15 / 100)))) (fmul (f_Latency f) (fl (15 / 100)))"

definition balanced_Score :: "ScoringFactors \<Rightarrow> float64" where
  "balanced_Score f = fdiv (fadd (fadd (fadd (f_Latency f) (f_Cost f)) (f_Quality f)) (f_Reliability f)) 4"

definition custom_Score :: "ScoringWeights \<Rightarrow> ScoringFactors \<Rightarrow> float64" where
  "custom_Score w f =
     fadd (fadd (fadd (fadd (fadd (fadd (fadd (fadd
       (fmul (f_Latency f) (w_Latency w)) (fmul (f_Cost f) (w_Cost w)))
       (fmul (f_Quality f) (w_Quality w))) (fmul (f_Reliability f) (w_Reliability w)))
       (fmul (f_Capabilities f) (w_Capabilities w))) (fmul (f_Throughput f) (w_Throughput w)))
       (fmul (f_Compliance f) (w_Compliance w))) (fmul (f_Security f) (w_Security w)))
       (fmul (f_Geographic f) (w_Geographic w))"

definition adaptive_Score :: "ExtendedModelInfo \<Rightarrow> ScoringFactors \<Rightarrow> float64" where
  "adaptive_Score model f = (let contextFactor = fdiv (float_of_int (em_ContextWindow model)) 100000 in
     fadd (fadd (fadd (fadd (fmul (f_Latency f) (fl (3 / 10))) (fmul (f_Cost f) (fl (2 / 10))))
       (fmul (f_Quality f) (fadd (fl (3 / 10)) (fmul contextFactor (fl (1 / 10))))))
       (fmul (f_Reliability f) (fl (15 / 100)))) (fmul (f_Capabilities f) (fl (5 / 100))))"

definition loadBalanced_Score :: "(gostr, int) gomap \<Rightarrow> ExtendedModelInfo \<Rightarrow> ScoringFactors \<Rightarrow> float64" where
  "loadBalanced_Score counts model f =
     (let loadScore = fdiv 1 (fadd (float_of_int (map_get 0 counts (em_Name model))) 1) in
      fadd (fmul (fadd (fadd (f_Latency f) (f_Cost f)) (f_Quality f)) (fl (3 / 10))) (fmul loadScore (fl (1 / 10))))"

definition geographic_Score :: "ScoringFactors \<Rightarrow> float64" where
  "geographic_Score f = fadd (fadd (fadd (fmul (f_Geographic f) (fl (5 / 10))) (fmul (f_Latency f) (fl (2 / 10))))
     (fmul (f_Reliability f) (fl (15 / 100)))) (fmul (f_Cost f) (fl (15 / 100)))"

definition compliance_Score :: "ScoringFactors \<Rightarrow> float64" where
  "compliance_Score f = fadd (fadd (fadd (fmul (f_Compliance f) (fl (5 / 10))) (fmul (f_Security f) (fl (25 / 100))))
     (fmul (f_Reliability f) (fl (15 / 100)))) (fmul (f_Quality f) (fl (1 / 10)))"

definition securityFirst_Score :: "ScoringFactors \<Rightarrow> float64" where
  "securityFirst_Score f = fadd (fadd (fadd (fmul (f_Security f) (fl (5 / 10))) (fmul (f_Compliance f) (fl (25 / 100))))
     (fmul (f_Reliability f) (fl (15 / 100)))) (fmul (f_Quality f) (fl (1 / 10)))"

definition offlineFriendly_Score :: "ScoringFactors \<Rightarrow> float64" where
  "offlineFriendly_Score f = fadd (fadd (fadd (fadd (fmul (f_Reliability f) (fl (4 / 10))) (fmul (f_Cost f) (fl (2 / 10))))
     (fmul (f_Quality f) (fl (2 / 10)))) (fmul (f_Latency f) (fl (1 / 10)))) (fmul (f_Capabilities f) (fl (1 / 10)))"

fun strategy_Score :: "score_strategy \<Rightarrow> ExtendedModelInfo \<Rightarrow> ScoringFactors \<Rightarrow> float64" where
  "strategy_Score LeastLatencyStrategy model f = f_Latency f"
| "strategy_Score CheapestStrategy model f = f_Cost f"
| "strategy_Score QualityFirstStrategy model f = f_Quality f"
| "strategy_Score BalancedStrategy model f = balanced_Score f"
| "strategy_Score CostAwareStrategy model f = costAware_Score f"
| "strategy_Score ThroughputStrategy model f = f_Throughput f"
| "strategy_Score ReliabilityStrategy model f = f_Reliability f"
| "strategy_Score (CustomWeightedStrategy w) model f = custom_Score w f"
| "strategy_Score AdaptiveStrategy model f = adaptive_Score model f"
| "strategy_Score (LoadBalancedStrategy counts) model f = loadBalanced_Score counts model f"
| "strategy_Score (GeographicStrategy _) model f = geographic_Score f"
| "strategy_Score ComplianceStrategy model f = compliance_Score f"
| "strategy_Score SecurityFirstStrategy model f = securityFirst_Score f"
| "strategy_Score OfflineFriendlyStrategy model f = offlineFriendly_Score f"

text \<open>The registry of all strategies but the one with the weights of a tenant.\<close>

definition score_registry :: "(strategy \<times> score_strategy) list" where
  "score_registry =
     [(''least_latency'', LeastLatencyStrategy), (''cheapest'', CheapestStrategy), (''quality_first'', QualityFirstStrategy),
      (''balanced'', BalancedStrategy), (''cost_aware'', CostAwareStrategy), (''throughput'', ThroughputStrategy),
      (''reliability'', ReliabilityStrategy), (''adaptive'', AdaptiveStrategy), (''load_balanced'', LoadBalancedStrategy Map.empty),
      (''geographic'', GeographicStrategy []), (''compliance'', ComplianceStrategy), (''security_first'', SecurityFirstStrategy),
      (''offline_friendly'', OfflineFriendlyStrategy)]"

definition score_Get :: "strategy \<Rightarrow> score_strategy option" where
  "score_Get name = map_of score_registry name"

definition score_List :: "strategy list \<Rightarrow> score_strategy list" where
  "score_List ks = map snd (range_of ks (map_of score_registry))"

definition strategies_clamp :: "float64 \<Rightarrow> float64 \<Rightarrow> float64 \<Rightarrow> float64" where
  "strategies_clamp value lo hi = max (min value hi) lo"

section \<open>Better factors never score lower\<close>

lemma fadd_mono: "a \<le> b \<Longrightarrow> c \<le> d \<Longrightarrow> fadd a c \<le> fadd b d"
  unfolding fadd_def by (intro fl_mono add_mono)

lemma fmul_mono: "a \<le> b \<Longrightarrow> 0 \<le> c \<Longrightarrow> fmul a c \<le> fmul b c"
  unfolding fmul_def by (intro fl_mono mult_right_mono)

definition factors_le :: "ScoringFactors \<Rightarrow> ScoringFactors \<Rightarrow> bool" where
  "factors_le f g \<longleftrightarrow> f_Latency f \<le> f_Latency g \<and> f_Cost f \<le> f_Cost g \<and> f_Quality f \<le> f_Quality g \<and> f_Reliability f \<le> f_Reliability g
     \<and> f_Capabilities f \<le> f_Capabilities g \<and> f_Throughput f \<le> f_Throughput g \<and> f_Compliance f \<le> f_Compliance g
     \<and> f_Security f \<le> f_Security g \<and> f_Geographic f \<le> f_Geographic g"

definition weights_nonneg :: "ScoringWeights \<Rightarrow> bool" where
  "weights_nonneg w \<longleftrightarrow> list_all (\<lambda>x. 0 \<le> x) [w_Latency w, w_Cost w, w_Quality w, w_Reliability w, w_Capabilities w,
     w_Throughput w, w_Compliance w, w_Security w, w_Geographic w]"

text \<open>A scoring strategy respects its factors: with factors that are at least as good in every respect a
  model scores at least as high, under every strategy whose weights are not negative, in spite of the
  rounding. The strategy with custom weights scores as the extended router does.\<close>

theorem strategy_score_monotone:
  assumes "factors_le f g" "0 \<le> em_ContextWindow m" "\<forall>w. s = CustomWeightedStrategy w \<longrightarrow> weights_nonneg w"
  shows "strategy_Score s m f \<le> strategy_Score s m g
    \<and> (\<forall>w. s = CustomWeightedStrategy w \<longrightarrow> strategy_Score s m f = total_score f w)"
proof -
  have c: "0 \<le> fadd (fl (3 / 10)) (fmul (fdiv (float_of_int (em_ContextWindow m)) 100000) (fl (1 / 10)))"
    using assms(2) by (simp add: fadd_def fmul_def fdiv_def float_of_int_def fl_nonneg)
  have "strategy_Score s m f \<le> strategy_Score s m g"
  proof (cases s)
    case (CustomWeightedStrategy w)
    then have "weights_nonneg w" using assms(3) by simp
    then show ?thesis using assms(1) CustomWeightedStrategy
      by (auto simp: custom_Score_def factors_le_def weights_nonneg_def intro!: fadd_mono fmul_mono)
  next
    case BalancedStrategy
    then show ?thesis using assms(1)
      by (auto simp: balanced_Score_def fdiv_def factors_le_def intro!: fl_mono divide_right_mono fadd_mono)
  next
    case AdaptiveStrategy
    then show ?thesis using assms(1) c
      by (auto simp: adaptive_Score_def Let_def factors_le_def fl_nonneg intro!: fadd_mono fmul_mono)
  next
    case (LoadBalancedStrategy counts)
    then show ?thesis using assms(1)
      by (auto simp: loadBalanced_Score_def Let_def factors_le_def fl_nonneg intro!: fadd_mono fmul_mono)
  qed (use assms(1) in \<open>auto simp: costAware_Score_def geographic_Score_def compliance_Score_def securityFirst_Score_def
      offlineFriendly_Score_def factors_le_def fl_nonneg intro!: fadd_mono fmul_mono\<close>)
  then show ?thesis by (auto simp: custom_Score_def total_score_def)
qed

definition demo_factors :: "float64 \<Rightarrow> ScoringFactors" where
  "demo_factors x = \<lparr>f_Latency = x, f_Cost = 1, f_Quality = 1, f_Reliability = 1, f_Capabilities = 1, f_Throughput = 1,
     f_Compliance = 1, f_Security = 1, f_Geographic = 1\<rparr>"

theorem strategy_score_monotone_witness:
  "costAware_Score (demo_factors 0) \<le> costAware_Score (demo_factors 1)"
proof -
  obtain m :: ExtendedModelInfo where m: "em_ContextWindow m = 0" by (metis ExtendedModelInfo.select_convs(15))
  have "factors_le (demo_factors 0) (demo_factors 1)" by (simp add: factors_le_def demo_factors_def)
  from strategy_score_monotone [OF this, of m CostAwareStrategy] show ?thesis by (simp add: m)
qed

text \<open>The registry gives each strategy under its own name, and none for custom weights.\<close>

theorem score_registry_named:
  "score_Get name = Some s \<Longrightarrow> score_Name s = name" "score_Get ''custom_weighted'' = None"
proof -
  have "list_all (\<lambda>(n, s). score_Name s = n) score_registry" by (simp add: score_registry_def)
  then show "score_Get name = Some s \<Longrightarrow> score_Name s = name"
    using map_of_SomeD [of score_registry name s] by (auto simp: score_Get_def list_all_iff)
qed (simp add: score_Get_def score_registry_def)

text \<open>Nothing counts requests in the registered strategy, so load balancing gives every model the same load.\<close>

theorem load_balanced_ignores_load:
  "score_Get ''load_balanced'' = Some (LoadBalancedStrategy Map.empty)"
  "loadBalanced_Score Map.empty m f = loadBalanced_Score Map.empty m' f"
  by (simp_all add: score_Get_def score_registry_def loadBalanced_Score_def)

end
