(* ===== verification/Fallback_Chain.thy ===== *)
theory Fallback_Chain
  imports Fallback_Tiers Go_Float
begin

text \<open>
  The fallback orchestrator and the health tracker of \<open>resilience/fallback.go\<close>. The tiers are linked by
  pointers, so they live in a store: a tier is an address, and \<open>FallbackTo\<close> is the address of
  the next or nil. The executor that calls a provider is an argument: a function of the number of
  the attempt, which returns a response or an error. The providers that are called are returned
  beside the result.
\<close>

section \<open>Data\<close>

record FallbackTier =
  fbt_Tier :: provider_tier
  fbt_Providers :: "fb_provider list"
  fbt_FallbackTo :: "nat option"

record FallbackOrchestrator =
  foc_tiers :: "nat list"
  foc_maxDepth :: int
  foc_store :: "nat \<Rightarrow> FallbackTier option"
  foc_next :: nat

record FallbackRequest =
  frq_PreferredTier :: provider_tier
  frq_MinimumTier :: provider_tier
  frq_PreferSubscription :: bool
  frq_AllowFree :: bool
  frq_MaxAttempts :: int
  frq_RequestID :: gostr

record 'r FallbackResponse =
  frs_Result :: "'r option"
  frs_Error :: "gostr option"
  frs_Attempts :: int
  frs_Fallbacked :: bool
  frs_SelectedProvider :: gostr
  frs_SelectedTier :: gostr
  frs_LatencyMs :: int

datatype fallback_error = ErrAllProvidersExhausted

record HealthSnapshot =
  hs_ProviderID :: gostr
  hs_Health :: float64
  hs_LastSuccess :: gtime
  hs_LastFailure :: gtime
  hs_FailureCount :: int
  hs_TotalCalls :: int

type_synonym ProviderHealthTracker = "(gostr, HealthSnapshot) gomap"

fun tier_index :: "provider_tier \<Rightarrow> int" where
  "tier_index TierSubscription = 0"
| "tier_index TierAPIKey = 1"
| "tier_index TierCheap = 2"
| "tier_index TierFree = 3"

definition tier_order :: "provider_tier list" where
  "tier_order = [TierSubscription, TierAPIKey, TierCheap, TierFree]"

section \<open>Building the hierarchy\<close>

definition NewFallbackOrchestrator :: FallbackOrchestrator where
  "NewFallbackOrchestrator = \<lparr>foc_tiers = [], foc_maxDepth = 4, foc_store = Map.empty, foc_next = 0\<rparr>"

text \<open>One round of the loop over the tiers: a tier with providers is allocated, linked from the one before and appended.\<close>

definition build_tier :: "fb_provider list \<Rightarrow> provider_tier \<Rightarrow> nat option \<times> FallbackOrchestrator \<Rightarrow> nat option \<times> FallbackOrchestrator" where
  "build_tier providers tier st = (case st of (current, f) \<Rightarrow>
     let ps = filter (\<lambda>p. fp_Tier p = tier) providers
     in if length ps = 0 then (current, f)
        else let a = foc_next f;
                 store = (foc_store f)(a \<mapsto> \<lparr>fbt_Tier = tier, fbt_Providers = ps, fbt_FallbackTo = None\<rparr>);
                 store = (case current of
                     None \<Rightarrow> store
                   | Some c \<Rightarrow> (case store c of None \<Rightarrow> store | Some t \<Rightarrow> store(c \<mapsto> t\<lparr>fbt_FallbackTo := Some a\<rparr>)))
             in (Some a, f\<lparr>foc_tiers := foc_tiers f @ [a], foc_store := store, foc_next := a + 1\<rparr>))"

definition BuildTierHierarchy :: "fb_provider list \<Rightarrow> FallbackOrchestrator \<Rightarrow> FallbackOrchestrator" where
  "BuildTierHierarchy providers f = snd (fold (build_tier providers) tier_order (None, f))"

definition tier_at :: "FallbackOrchestrator \<Rightarrow> nat \<Rightarrow> FallbackTier" where
  "tier_at f a = the (foc_store f a)"

text \<open>\<open>AddProvider\<close>: the tier of the provider is found or created in its place, without links.\<close>

fun insert_tier :: "FallbackOrchestrator \<Rightarrow> provider_tier \<Rightarrow> nat \<Rightarrow> nat list \<Rightarrow> nat list" where
  "insert_tier f tier a [] = [a]"
| "insert_tier f tier a (t # ts) =
     (if tier_index tier < tier_index (fbt_Tier (tier_at f t)) then a # t # ts else t # insert_tier f tier a ts)"

definition foc_AddProvider :: "fb_provider \<Rightarrow> FallbackOrchestrator \<Rightarrow> FallbackOrchestrator" where
  "foc_AddProvider provider f =
     (let (a, f) = (case find (\<lambda>t. fbt_Tier (tier_at f t) = fp_Tier provider) (foc_tiers f) of
            Some t \<Rightarrow> (t, f)
          | None \<Rightarrow>
              let a = foc_next f
              in (a, f\<lparr>foc_tiers := insert_tier f (fp_Tier provider) a (foc_tiers f),
                       foc_store := (foc_store f)(a \<mapsto> \<lparr>fbt_Tier = fp_Tier provider, fbt_Providers = [], fbt_FallbackTo = None\<rparr>),
                       foc_next := a + 1\<rparr>));
          t = tier_at f a
      in f\<lparr>foc_store := (foc_store f)(a \<mapsto> t\<lparr>fbt_Providers := fbt_Providers t @ [provider]\<rparr>)\<rparr>)"

definition foc_GetTiers :: "FallbackOrchestrator \<Rightarrow> FallbackTier list" where
  "foc_GetTiers f = map (tier_at f) (foc_tiers f)"

section \<open>Execution\<close>

definition findStartTier :: "FallbackOrchestrator \<Rightarrow> FallbackRequest \<Rightarrow> nat option" where
  "findStartTier f request =
     (if length (foc_tiers f) = 0 then None
      else if frq_PreferSubscription request \<and> fbt_Tier (tier_at f (foc_tiers f ! 0)) = TierSubscription then Some (foc_tiers f ! 0)
      else case find (\<lambda>t. fbt_Tier (tier_at f t) = frq_MinimumTier request) (foc_tiers f) of
        Some t \<Rightarrow> Some t | None \<Rightarrow> Some (foc_tiers f ! 0))"

definition calculateProviderScore :: "fb_provider \<Rightarrow> FallbackRequest \<Rightarrow> float64" where
  "calculateProviderScore p request =
     (let score = fadd 0 (fmul (fp_Health p) 100);
          score = (if fp_QuotaLimit p > 0
                   then fadd score (fmul (fdiv (float_of_int (fp_QuotaRemaining p)) (float_of_int (fp_QuotaLimit p))) 50)
                   else fadd score 50)
      in case fp_Tier p of TierSubscription \<Rightarrow> fadd score 100 | TierAPIKey \<Rightarrow> fadd score 70
         | TierCheap \<Rightarrow> fadd score 40 | TierFree \<Rightarrow> fadd score 10)"

fun best_provider_loop :: "(fb_provider \<Rightarrow> float64) \<Rightarrow> fb_provider list \<Rightarrow> float64 \<Rightarrow> fb_provider option \<Rightarrow> fb_provider option" where
  "best_provider_loop score [] bestScore best = best"
| "best_provider_loop score (p # ps) bestScore best =
     (if \<not> fp_IsHealthy p then best_provider_loop score ps bestScore best
      else if score p > bestScore then best_provider_loop score ps (score p) (Some p)
      else best_provider_loop score ps bestScore best)"

definition selectBestProvider :: "fb_provider list \<Rightarrow> FallbackRequest \<Rightarrow> fb_provider option" where
  "selectBestProvider providers request = best_provider_loop (\<lambda>p. calculateProviderScore p request) providers (- 1) None"

type_synonym 'r executor = "int \<Rightarrow> fb_provider \<Rightarrow> gostr + 'r FallbackResponse"

text \<open>The loop of \<open>ExecuteWithFallback\<close>, with the depth that is left as its measure; the providers called are the third component.\<close>

function fallback_loop ::
  "'r executor \<Rightarrow> FallbackRequest \<Rightarrow> FallbackOrchestrator \<Rightarrow> int \<Rightarrow> nat option \<Rightarrow> gostr option
     \<Rightarrow> ('r FallbackResponse \<times> fallback_error option) \<times> fb_provider list" where
  "fallback_loop executor request f depth current lastErr = (case current of
     Some c \<Rightarrow>
       if depth < foc_maxDepth f then
         let t = tier_at f c in
         (case selectBestProvider (fbt_Providers t) request of
            Some provider \<Rightarrow>
              (case executor (depth + 1) provider of
                 Inr resp \<Rightarrow>
                   ((resp\<lparr>frs_Attempts := depth + 1, frs_SelectedProvider := fp_Name provider,
                         frs_SelectedTier := provider_tier_String (fbt_Tier t)\<rparr>, None), [provider])
               | Inl err \<Rightarrow> (case fallback_loop executor request f (depth + 1) (fbt_FallbackTo t) (Some err) of
                   (r, calls) \<Rightarrow> (r, provider # calls)))
          | None \<Rightarrow> fallback_loop executor request f (depth + 1) (fbt_FallbackTo t) lastErr)
       else ((\<lparr>frs_Result = None, frs_Error = lastErr, frs_Attempts = depth, frs_Fallbacked = depth > 1, frs_SelectedProvider = [],
               frs_SelectedTier = [], frs_LatencyMs = 0\<rparr>, Some ErrAllProvidersExhausted), [])
   | None \<Rightarrow> ((\<lparr>frs_Result = None, frs_Error = lastErr, frs_Attempts = depth, frs_Fallbacked = depth > 1, frs_SelectedProvider = [],
               frs_SelectedTier = [], frs_LatencyMs = 0\<rparr>, Some ErrAllProvidersExhausted), []))"
  by pat_completeness auto
termination by (relation "measure (\<lambda>(_, _, f, depth, _, _). nat (foc_maxDepth f - depth))") auto

declare fallback_loop.simps [simp del]

definition foc_ExecuteWithFallback ::
  "'r executor \<Rightarrow> FallbackRequest \<Rightarrow> FallbackOrchestrator \<Rightarrow> ('r FallbackResponse \<times> fallback_error option) \<times> fb_provider list" where
  "foc_ExecuteWithFallback executor request f = fallback_loop executor request f 0 (findStartTier f request) None"

section \<open>The health tracker\<close>

definition pht_getOrCreate :: "gostr \<Rightarrow> ProviderHealthTracker \<Rightarrow> HealthSnapshot \<times> ProviderHealthTracker" where
  "pht_getOrCreate providerID t =
     get_or_create \<lparr>hs_ProviderID = providerID, hs_Health = 1, hs_LastSuccess = zero_time, hs_LastFailure = zero_time,
       hs_FailureCount = 0, hs_TotalCalls = 0\<rparr> t providerID"

definition pht_RecordSuccess :: "gtime \<Rightarrow> gostr \<Rightarrow> ProviderHealthTracker \<Rightarrow> ProviderHealthTracker" where
  "pht_RecordSuccess now providerID t = (case pht_getOrCreate providerID t of (s, t) \<Rightarrow>
     t(providerID \<mapsto> s\<lparr>hs_LastSuccess := now, hs_TotalCalls := hs_TotalCalls s + 1,
       hs_FailureCount := (if hs_FailureCount s > 0 then hs_FailureCount s - 1 else hs_FailureCount s)\<rparr>))"

definition pht_RecordFailure :: "gtime \<Rightarrow> gostr \<Rightarrow> ProviderHealthTracker \<Rightarrow> ProviderHealthTracker" where
  "pht_RecordFailure now providerID t = (case pht_getOrCreate providerID t of (s, t) \<Rightarrow>
     let s = s\<lparr>hs_LastFailure := now, hs_FailureCount := hs_FailureCount s + 1, hs_TotalCalls := hs_TotalCalls s + 1\<rparr>;
         successRate = (if hs_TotalCalls s > 0
           then fdiv (float_of_int (hs_TotalCalls s - hs_FailureCount s)) (float_of_int (hs_TotalCalls s)) else 1)
     in t(providerID \<mapsto> s\<lparr>hs_Health := successRate\<rparr>))"

definition pht_GetHealth :: "gostr \<Rightarrow> ProviderHealthTracker \<Rightarrow> float64" where
  "pht_GetHealth providerID t = (case t providerID of Some s \<Rightarrow> hs_Health s | None \<Rightarrow> 1 / 2)"

section \<open>The hierarchy\<close>

text \<open>Addresses that are linked one after the other, the last to nil.\<close>

fun linked :: "FallbackOrchestrator \<Rightarrow> nat list \<Rightarrow> bool" where
  "linked f [] = True"
| "linked f [a] = (fbt_FallbackTo (tier_at f a) = None)"
| "linked f (a # b # as) = (fbt_FallbackTo (tier_at f a) = Some b \<and> linked f (b # as))"

definition used_tiers :: "fb_provider list \<Rightarrow> provider_tier list \<Rightarrow> provider_tier list" where
  "used_tiers ps ts = filter (\<lambda>t. \<exists>p \<in> set ps. fp_Tier p = t) ts"

text \<open>The state of the loop after some tiers: consecutive addresses, each linked to the next, the last one current.\<close>

definition built :: "fb_provider list \<Rightarrow> provider_tier list \<Rightarrow> nat option \<times> FallbackOrchestrator \<Rightarrow> bool" where
  "built ps ts st = (case st of (current, f) \<Rightarrow> let us = used_tiers ps ts; n = length us in
     foc_tiers f = [0..<n] \<and> foc_next f = n \<and> foc_maxDepth f = 4 \<and> current = (if n = 0 then None else Some (n - 1))
     \<and> (\<forall>a < n. foc_store f a = Some \<lparr>fbt_Tier = us ! a, fbt_Providers = filter (\<lambda>p. fp_Tier p = us ! a) ps,
          fbt_FallbackTo = (if Suc a < n then Some (Suc a) else None)\<rparr>))"

lemma built_step: "built ps ts st \<Longrightarrow> built ps (ts @ [t]) (build_tier ps t st)"
proof -
  assume b: "built ps ts st"
  obtain current f where st: "st = (current, f)" by (cases st)
  show ?thesis
  proof (cases "\<exists>p \<in> set ps. fp_Tier p = t")
    case False
    then have e: "filter (\<lambda>p. fp_Tier p = t) ps = []" by (auto simp: filter_empty_conv)
    have "used_tiers ps (ts @ [t]) = used_tiers ps ts" using False by (simp add: used_tiers_def)
    moreover have "build_tier ps t st = st" by (simp add: build_tier_def st e)
    ultimately show ?thesis using b by (simp only: built_def)
  next
    case True
    then have e: "filter (\<lambda>p. fp_Tier p = t) ps \<noteq> []" by (auto simp: filter_empty_conv)
    have u: "used_tiers ps (ts @ [t]) = used_tiers ps ts @ [t]" using True by (simp add: used_tiers_def)
    let ?n = "length (used_tiers ps ts)"
    have f: "foc_tiers f = [0..<?n]" "foc_next f = ?n" "foc_maxDepth f = 4" "current = (if ?n = 0 then None else Some (?n - 1))"
      using b by (simp_all add: built_def st Let_def)
    have s: "foc_store f a = Some \<lparr>fbt_Tier = used_tiers ps ts ! a, fbt_Providers = filter (\<lambda>p. fp_Tier p = used_tiers ps ts ! a) ps,
          fbt_FallbackTo = (if Suc a < ?n then Some (Suc a) else None)\<rparr>" if "a < ?n" for a
      using b that by (simp add: built_def st Let_def)
    show ?thesis
    proof (cases ?n)
      case 0
      then show ?thesis using e f by (simp add: built_def u build_tier_def st Let_def)
    next
      case (Suc m)
      then show ?thesis using s [of m] s e f
        by (auto simp: built_def u build_tier_def st Let_def nth_append less_Suc_eq)
    qed
  qed
qed

lemma built_hierarchy: "built ps tier_order (fold (build_tier ps) tier_order (None, NewFallbackOrchestrator))"
proof -
  have "built ps (ts @ us) (fold (build_tier ps) us st)" if "built ps ts st" for ts us st
    using that
  proof (induction us arbitrary: ts st)
    case (Cons u us)
    then show ?case using Cons.IH [of "ts @ [u]"] built_step by simp
  qed simp
  from this [of "[]"] show ?thesis by (simp add: built_def used_tiers_def NewFallbackOrchestrator_def)
qed

lemma hierarchy_facts:
  defines "f \<equiv> \<lambda>ps. BuildTierHierarchy ps NewFallbackOrchestrator" and "us \<equiv> \<lambda>ps. used_tiers ps tier_order"
  shows "foc_tiers (f ps) = [0..<length (us ps)]" "foc_maxDepth (f ps) = 4"
    "a < length (us ps) \<Longrightarrow> tier_at (f ps) a = \<lparr>fbt_Tier = us ps ! a, fbt_Providers = filter (\<lambda>p. fp_Tier p = us ps ! a) ps,
       fbt_FallbackTo = (if Suc a < length (us ps) then Some (Suc a) else None)\<rparr>"
  using built_hierarchy [of ps] unfolding f_def us_def
  by (simp_all add: built_def BuildTierHierarchy_def Let_def tier_at_def split: prod.splits)

lemma linked_upt: "k < n \<Longrightarrow> (\<And>a. a < n \<Longrightarrow> fbt_FallbackTo (tier_at f a) = (if Suc a < n then Some (Suc a) else None)) \<Longrightarrow> linked f [k..<n]"
proof (induction "n - k" arbitrary: k)
  case (Suc d)
  show ?case
  proof (cases "Suc k < n")
    case True
    then have "[k..<n] = k # Suc k # [Suc (Suc k)..<n]" by (simp add: upt_conv_Cons)
    moreover have "linked f [Suc k..<n]" using Suc True by simp
    then have "linked f (Suc k # [Suc (Suc k)..<n])" using True by (simp add: upt_conv_Cons)
    ultimately show ?thesis using Suc.prems True by simp
  next
    case False
    then have "n = Suc k" using Suc.prems(1) by simp
    then show ?thesis using Suc.prems by simp
  qed
qed simp

section \<open>Which providers are called\<close>

text \<open>
  What a tier should offer, stated without the loop of the code: the first of its healthy providers that no
  healthy provider of the tier outscores, unless its score is at most -1.
\<close>

definition outscored_by_none :: "(fb_provider \<Rightarrow> float64) \<Rightarrow> fb_provider list \<Rightarrow> fb_provider \<Rightarrow> bool" where
  "outscored_by_none score ps p \<longleftrightarrow> fp_IsHealthy p \<and> (\<forall>q \<in> set ps. fp_IsHealthy q \<longrightarrow> score q \<le> score p)"

definition tier_choice :: "FallbackRequest \<Rightarrow> fb_provider list \<Rightarrow> fb_provider option" where
  "tier_choice request ps = (let score = \<lambda>p. calculateProviderScore p request
     in find (\<lambda>p. - 1 < score p \<and> outscored_by_none score ps p) ps)"

lemma exists_outscored_by_none:
  assumes "q \<in> set ps" "fp_IsHealthy q"
  shows "\<exists>p \<in> set ps. outscored_by_none score ps p \<and> score q \<le> score p"
proof -
  let ?H = "{p \<in> set ps. fp_IsHealthy p}"
  have f: "finite (score ` ?H)" "score ` ?H \<noteq> {}" using assms by auto
  obtain p where "p \<in> ?H" "Max (score ` ?H) = score p" using Max_in [OF f] by (rule imageE)
  moreover have "score r \<le> Max (score ` ?H)" if "r \<in> ?H" for r using f(1) that by (intro Max_ge) auto
  ultimately show ?thesis using assms by (auto simp: outscored_by_none_def)
qed

lemma best_provider_loop_choice:
  "best_provider_loop score ps b best = (case find (\<lambda>p. b < score p \<and> outscored_by_none score ps p) ps of Some p \<Rightarrow> Some p | None \<Rightarrow> best)"
proof (induction ps arbitrary: b best)
  case (Cons p ps)
  let ?Q = "\<lambda>x. b < score x \<and> outscored_by_none score (p # ps) x"
  consider (skip) "\<not> fp_IsHealthy p \<or> score p \<le> b" | (better) q where "fp_IsHealthy p" "b < score p" "q \<in> set ps" "fp_IsHealthy q" "score p < score q"
    | (best) "fp_IsHealthy p" "b < score p" "\<forall>q \<in> set ps. fp_IsHealthy q \<longrightarrow> score q \<le> score p" by force
  then show ?case
  proof cases
    case skip
    then have "?Q x \<longleftrightarrow> b < score x \<and> outscored_by_none score ps x" for x by (auto simp: outscored_by_none_def)
    moreover have "\<not> ?Q p" using skip by (auto simp: outscored_by_none_def)
    ultimately show ?thesis using skip Cons.IH by auto
  next
    case better
    obtain x where x: "x \<in> set ps" "outscored_by_none score ps x" "score q \<le> score x"
      using exists_outscored_by_none [OF better(3,4)] by blast
    then have "\<exists>x. x \<in> set ps \<and> score p < score x \<and> outscored_by_none score ps x" using better(5) by (intro exI [of _ x]) simp
    then have "find (\<lambda>x. score p < score x \<and> outscored_by_none score ps x) ps \<noteq> None" by (simp add: find_None_iff)
    moreover have "find ?Q ps = find (\<lambda>x. score p < score x \<and> outscored_by_none score ps x) ps"
      by (rule find_cong) (use better x in \<open>force simp: outscored_by_none_def\<close>)+
    moreover have "\<not> ?Q p" using better by (force simp: outscored_by_none_def)
    ultimately show ?thesis using better(1,2) Cons.IH [of "score p" "Some p"] by auto
  next
    case best
    then have "find (\<lambda>x. score p < score x \<and> outscored_by_none score ps x) ps = None" by (force simp: find_None_iff outscored_by_none_def)
    moreover have "?Q p" using best by (simp add: outscored_by_none_def)
    ultimately show ?thesis using best Cons.IH [of "score p" "Some p"] by auto
  qed
qed simp

lemma selectBestProvider_choice: "selectBestProvider ps request = tier_choice request ps"
  by (simp add: selectBestProvider_def tier_choice_def Let_def best_provider_loop_choice split: option.split)

text \<open>The choice of each tier with the attempt on which it is due, and what the attempts lead to.\<close>

fun due :: "FallbackRequest \<Rightarrow> int \<Rightarrow> fb_provider list list \<Rightarrow> (int \<times> fb_provider) list" where
  "due request d [] = []"
| "due request d (ps # pss) =
     (case tier_choice request ps of None \<Rightarrow> [] | Some p \<Rightarrow> [(d + 1, p)]) @ due request (d + 1) pss"

definition fails :: "'r executor \<Rightarrow> int \<times> fb_provider \<Rightarrow> bool" where
  "fails executor ip = isl (executor (fst ip) (snd ip))"

definition follows :: "'r executor \<Rightarrow> (int \<times> fb_provider) list \<Rightarrow> ('r FallbackResponse \<times> fallback_error option) \<times> fb_provider list \<Rightarrow> bool" where
  "follows executor cs out \<longleftrightarrow>
     snd out = map snd (takeWhile (fails executor) cs @ take 1 (dropWhile (fails executor) cs))
     \<and> (case dropWhile (fails executor) cs of
          [] \<Rightarrow> snd (fst out) = Some ErrAllProvidersExhausted
        | (i, p) # _ \<Rightarrow> snd (fst out) = None \<and> frs_Attempts (fst (fst out)) = i \<and> frs_SelectedProvider (fst (fst out)) = fp_Name p)"

lemma follows_fail: "fails executor c \<Longrightarrow> follows executor cs (r, calls) \<Longrightarrow> follows executor (c # cs) (r, snd c # calls)"
  by (cases "dropWhile (fails executor) cs") (auto simp: follows_def simp del: dropWhile_eq_Nil_conv)

lemma fallback_loop_follows:
  assumes "linked f as" "d + int (length as) \<le> foc_maxDepth f"
  shows "follows executor (due request d (map (\<lambda>a. fbt_Providers (tier_at f a)) as))
    (fallback_loop executor request f d (case as of [] \<Rightarrow> None | a # _ \<Rightarrow> Some a) lastErr)"
  using assms
proof (induction as arbitrary: d lastErr)
  case Nil
  then show ?case by (simp add: fallback_loop.simps follows_def)
next
  case (Cons a as)
  let ?next = "fbt_FallbackTo (tier_at f a)"
  have n: "?next = (case as of [] \<Rightarrow> None | b # _ \<Rightarrow> Some b)" "linked f as"
    using Cons.prems(1) by (cases as; simp)+
  have ih: "follows executor (due request (d + 1) (map (\<lambda>a. fbt_Providers (tier_at f a)) as)) (fallback_loop executor request f (d + 1) ?next le)" for le
    unfolding n(1) by (rule Cons.IH [OF n(2)]) (use Cons.prems(2) in simp)
  have d: "d < foc_maxDepth f" using Cons.prems(2) by simp
  show ?case
  proof (cases "tier_choice request (fbt_Providers (tier_at f a))")
    case None
    then show ?thesis using ih [of lastErr] d by (simp add: selectBestProvider_choice fallback_loop.simps [of executor request f d "Some a"] Let_def)
  next
    case (Some p)
    show ?thesis
    proof (cases "executor (d + 1) p")
      case (Inl e)
      obtain r calls where l: "fallback_loop executor request f (d + 1) ?next (Some e) = (r, calls)"
        by (cases "fallback_loop executor request f (d + 1) ?next (Some e)")
      have "fallback_loop executor request f d (Some a) lastErr = (r, p # calls)"
        using Some Inl d l by (simp add: selectBestProvider_choice fallback_loop.simps [of executor request f d "Some a"] Let_def)
      moreover have "fails executor (d + 1, p)" using Inl by (simp add: fails_def)
      ultimately show ?thesis using follows_fail [of executor "(d + 1, p)"] ih [of "Some e"] Some l by simp
    next
      case (Inr resp)
      then have "\<not> fails executor (d + 1, p)" by (simp add: fails_def)
      then show ?thesis using Some Inr d
        by (simp add: selectBestProvider_choice fallback_loop.simps [of executor request f d "Some a"] Let_def follows_def)
    qed
  qed
qed

text \<open>Where a request starts: all tiers, or those from its minimum tier on.\<close>

definition start_tiers :: "FallbackRequest \<Rightarrow> provider_tier list \<Rightarrow> provider_tier list" where
  "start_tiers request us =
     (if frq_PreferSubscription request \<and> us \<noteq> [] \<and> hd us = TierSubscription then us
      else if frq_MinimumTier request \<in> set us then dropWhile (\<lambda>t. t \<noteq> frq_MinimumTier request) us else us)"

lemma find_upt: "find P [0..<n] = Some k \<longleftrightarrow> k < n \<and> P k \<and> (\<forall>j < k. \<not> P j)"
proof
  assume "find P [0..<n] = Some k"
  then obtain i where "i < n" "P i" "k = i" "\<forall>j < i. \<not> P j" by (auto simp: find_Some_iff)
  then show "k < n \<and> P k \<and> (\<forall>j < k. \<not> P j)" by simp
next
  assume "k < n \<and> P k \<and> (\<forall>j < k. \<not> P j)"
  then show "find P [0..<n] = Some k" by (auto simp: find_Some_iff intro!: exI [of _ k])
qed

lemma dropWhile_drop: "k < length xs \<Longrightarrow> \<not> P (xs ! k) \<Longrightarrow> (\<And>j. j < k \<Longrightarrow> P (xs ! j)) \<Longrightarrow> dropWhile P xs = drop k xs"
proof (induction xs arbitrary: k)
  case (Cons x xs)
  show ?case
  proof (cases k)
    case (Suc m)
    have "P x" using Cons.prems(3) [of 0] Suc by simp
    moreover have "P (xs ! j)" if "j < m" for j using Cons.prems(3) [of "Suc j"] that Suc by simp
    then have "dropWhile P xs = drop m xs" using Cons.IH [of m] Cons.prems(1,2) Suc by simp
    ultimately show ?thesis using Suc by simp
  qed (use Cons.prems(2) in simp)
qed simp

lemma start_addresses:
  fixes ps request
  defines "f \<equiv> BuildTierHierarchy ps NewFallbackOrchestrator" and "us \<equiv> used_tiers ps tier_order"
  obtains k where "k = 0 \<or> k < length us" "findStartTier f request = (case [k..<length us] of [] \<Rightarrow> None | a # _ \<Rightarrow> Some a)"
    "start_tiers request us = drop k us"
proof -
  let ?P = "\<lambda>t. fbt_Tier (tier_at f t) = frq_MinimumTier request"
  note h = hierarchy_facts [where ps = ps, folded f_def us_def]
  have first: "(case [0..<length us] of [] \<Rightarrow> None | a # _ \<Rightarrow> Some a) = (if us = [] then None else Some 0)"
    by (simp add: upt_conv_Cons)
  show thesis
  proof (cases "us = [] \<or> frq_PreferSubscription request \<and> hd us = TierSubscription")
    case True
    then have "findStartTier f request = (if us = [] then None else Some 0)"
      using h(3) [of 0] by (auto simp: findStartTier_def h(1) hd_conv_nth)
    then show ?thesis using that [of 0] True first by (auto simp: start_tiers_def)
  next
    case ns: False
    then have e: "findStartTier f request = (case find ?P [0..<length us] of Some t \<Rightarrow> Some t | None \<Rightarrow> Some 0)"
      using h(3) [of 0] by (auto simp: findStartTier_def h(1) hd_conv_nth split: option.split)
    show ?thesis
    proof (cases "find ?P [0..<length us]")
      case None
      then have "frq_MinimumTier request \<notin> set us" by (auto simp: find_None_iff in_set_conv_nth h(3))
      then show ?thesis using that [of 0] ns first None e by (auto simp: start_tiers_def)
    next
      case (Some k)
      then have k: "k < length us" "us ! k = frq_MinimumTier request" "\<And>j. j < k \<Longrightarrow> us ! j \<noteq> frq_MinimumTier request"
        by (auto simp: find_upt h(3))
      then have "frq_MinimumTier request \<in> set us" by (metis nth_mem)
      then have "start_tiers request us = drop k us"
        using ns dropWhile_drop [of k us "\<lambda>t. t \<noteq> frq_MinimumTier request"] k by (auto simp: start_tiers_def)
      moreover have "findStartTier f request = (case [k..<length us] of [] \<Rightarrow> None | a # _ \<Rightarrow> Some a)"
        using e Some k(1) by (simp add: upt_conv_Cons)
      ultimately show ?thesis using that [of k] k(1) by simp
    qed
  qed
qed

text \<open>C5: A request over a hierarchy built from any providers calls, tier by tier from where it starts, the
  best healthy provider of the tier, which is the first of those that no healthy provider of the tier outscores (unless
  its score is -1 or less), in order, until one succeeds, and no other; it succeeds with that
  provider, and gives up only when all of them have failed.\<close>

theorem orchestrator_calls_exactly:
  "follows executor
     (due request 0 (map (\<lambda>t. filter (\<lambda>p. fp_Tier p = t) ps) (start_tiers request (used_tiers ps tier_order))))
     (foc_ExecuteWithFallback executor request (BuildTierHierarchy ps NewFallbackOrchestrator))"
proof -
  let ?f = "BuildTierHierarchy ps NewFallbackOrchestrator" and ?us = "used_tiers ps tier_order"
  note h = hierarchy_facts [where ps = ps]
  obtain k where k: "k = 0 \<or> k < length ?us" "findStartTier ?f request = (case [k..<length ?us] of [] \<Rightarrow> None | a # _ \<Rightarrow> Some a)"
    "start_tiers request ?us = drop k ?us" by (rule start_addresses)
  have "length ?us \<le> 4" using length_filter_le [of _ tier_order] by (simp add: used_tiers_def tier_order_def)
  then have d: "0 + int (length [k..<length ?us]) \<le> foc_maxDepth ?f" using h(2) by simp
  have "linked ?f [k..<length ?us]"
  proof (cases "k < length ?us")
    case True
    then show ?thesis by (rule linked_upt) (simp add: h(3))
  qed simp
  note loop = fallback_loop_follows [OF this d]
  have "map (\<lambda>a. fbt_Providers (tier_at ?f a)) [k..<length ?us] = map (\<lambda>t. filter (\<lambda>p. fp_Tier p = t) ps) (drop k ?us)"
    by (rule nth_equalityI) (simp_all add: h(3))
  then show ?thesis using loop by (simp add: foc_ExecuteWithFallback_def k(2,3))
qed

section \<open>Tiers that are added one by one\<close>

text \<open>An orchestrator filled by \<open>AddProvider\<close> alone has no links: a request tries one tier and never falls back.\<close>

definition unlinked :: "FallbackOrchestrator \<Rightarrow> bool" where
  "unlinked f \<longleftrightarrow> (\<forall>a t. foc_store f a = Some t \<longrightarrow> fbt_FallbackTo t = None) \<and> (\<forall>a \<in> set (foc_tiers f). foc_store f a \<noteq> None)"

lemma set_insert_tier: "set (insert_tier f tier a ts) = insert a (set ts)"
  by (induction ts) auto

lemma AddProvider_unlinked: "unlinked f \<Longrightarrow> unlinked (foc_AddProvider p f)"
proof -
  assume u: "unlinked f"
  show ?thesis
  proof (cases "find (\<lambda>t. fbt_Tier (tier_at f t) = fp_Tier p) (foc_tiers f)")
    case None
    then show ?thesis using u by (auto simp: unlinked_def foc_AddProvider_def Let_def tier_at_def set_insert_tier)
  next
    case (Some a)
    then have "a \<in> set (foc_tiers f)" by (auto simp: find_Some_iff)
    then obtain t where "foc_store f a = Some t" using u by (auto simp: unlinked_def)
    then show ?thesis using u Some by (auto simp: unlinked_def foc_AddProvider_def tier_at_def)
  qed
qed

theorem orchestrator_added_never_falls_back:
  "length (snd (foc_ExecuteWithFallback executor request (fold foc_AddProvider ps NewFallbackOrchestrator))) \<le> 1"
proof -
  let ?f = "fold foc_AddProvider ps NewFallbackOrchestrator"
  have "unlinked (fold foc_AddProvider ps f)" if "unlinked f" for f
    using that by (induction ps arbitrary: f) (simp_all add: AddProvider_unlinked)
  moreover have "unlinked NewFallbackOrchestrator" by (simp add: unlinked_def NewFallbackOrchestrator_def)
  ultimately have u: "unlinked ?f" by blast
  have nil: "snd (fallback_loop executor request ?f d None e) = []" for d e by (simp add: fallback_loop.simps)
  show ?thesis
  proof (cases "findStartTier ?f request")
    case None
    then show ?thesis by (simp add: foc_ExecuteWithFallback_def nil)
  next
    case (Some a)
    then have "a \<in> set (foc_tiers ?f)"
      by (auto simp: findStartTier_def find_Some_iff split: if_splits option.splits)
    then have n: "fbt_FallbackTo (tier_at ?f a) = None" using u by (auto simp: unlinked_def tier_at_def)
    show ?thesis using Some n nil
      by (auto simp: foc_ExecuteWithFallback_def fallback_loop.simps [of executor request ?f 0 "Some a"] Let_def
          split: option.splits sum.splits prod.splits) (metis le_zero_eq list.size(3) snd_conv)
  qed
qed

section \<open>The health tracker\<close>

definition snapshot_ok :: "HealthSnapshot \<Rightarrow> bool" where
  "snapshot_ok s \<longleftrightarrow> 0 \<le> hs_FailureCount s \<and> hs_FailureCount s \<le> hs_TotalCalls s \<and> 0 \<le> hs_Health s \<and> hs_Health s \<le> 1"

definition tracker_ok :: "ProviderHealthTracker \<Rightarrow> bool" where
  "tracker_ok t \<longleftrightarrow> (\<forall>i s. t i = Some s \<longrightarrow> snapshot_ok s)"

text \<open>
  The counters stay in order and the health between 0 and 1. But a success never raises the
  health: after a failure it stays where it is until the next failure.
\<close>

theorem tracker_keeps_ok:
  assumes "tracker_ok t" shows "tracker_ok (pht_RecordSuccess now i t)" "tracker_ok (pht_RecordFailure now i t)"
proof -
  define s where "s = fst (pht_getOrCreate i t)"
  have s: "snapshot_ok s" using assms
    by (auto simp: s_def pht_getOrCreate_def map_get_def tracker_ok_def snapshot_ok_def split: option.splits)
  have g: "pht_getOrCreate i t = (s, t(i \<mapsto> s))"
    by (simp add: s_def pht_getOrCreate_def prod_eq_iff get_or_create_snd)
  have upd: "snapshot_ok s' \<Longrightarrow> tracker_ok (t(i \<mapsto> s'))" for s' using assms by (simp add: tracker_ok_def)
  show "tracker_ok (pht_RecordSuccess now i t)" using s unfolding pht_RecordSuccess_def g
    by (auto intro!: upd simp: snapshot_ok_def)
  show "tracker_ok (pht_RecordFailure now i t)"
    using s ratio_unit [of "hs_TotalCalls s - hs_FailureCount s" "hs_TotalCalls s + 1"] unfolding pht_RecordFailure_def g
    by (auto intro!: upd simp: snapshot_ok_def Let_def)
qed

theorem tracker_success_never_heals:
  "t i = Some s \<Longrightarrow> pht_GetHealth i (fold (\<lambda>now. pht_RecordSuccess now i) nows t) = hs_Health s"
proof -
  have "\<exists>s'. fold (\<lambda>now. pht_RecordSuccess now i) nows t i = Some s' \<and> hs_Health s' = hs_Health s" if "t i = Some s" for t s
    using that
  proof (induction nows arbitrary: t s)
    case (Cons now nows)
    have "\<exists>s1. pht_RecordSuccess now i t i = Some s1 \<and> hs_Health s1 = hs_Health s"
      using Cons.prems by (simp add: pht_RecordSuccess_def pht_getOrCreate_def get_or_create_def)
    then show ?case using Cons.IH by fastforce
  qed simp
  moreover assume "t i = Some s"
  ultimately show ?thesis by (fastforce simp: pht_GetHealth_def)
qed

end
