(* ===== verification/Token_Bucket.thy ===== *)
theory Token_Bucket
  imports Rl_Manager Go_Float
begin

text \<open>
  The token bucket of \<open>ratelimit/manager.go\<close> over a quota storage: the tokens and the instant of
  the last refill are two counters. Tokens are computed in floating point and stored as an
  integer; the refill rate is positive. The errors of the storage are ignored, as the code does.
  A request holds no lock: it accesses the storage four times, and what other requests do to it between two
  accesses is an argument, the function \<open>others\<close> of the number of the gap.
\<close>

definition unix_epoch :: gtime where "unix_epoch = 62135596800 * second"

definition unix_nano :: "gtime \<Rightarrow> int" where "unix_nano t = wrap64 (t - unix_epoch)"

text \<open>\<open>Duration.Seconds\<close>: whole seconds and the fraction, converted separately.\<close>

definition float_seconds :: "duration \<Rightarrow> float64" where
  "float_seconds d =
     (let s = (if d < 0 then - ((- d) div second) else d div second) in
      fadd (float_of_int s) (fdiv (float_of_int (d - s * second)) (float_of_int second)))"

record 's TokenBucketRateLimiter =
  tbl_storage :: "'s quota_storage"
  tbl_refillRate :: float64

definition NewTokenBucketRateLimiter :: "'s quota_storage \<Rightarrow> float64 \<Rightarrow> 's TokenBucketRateLimiter" where
  "NewTokenBucketRateLimiter st rate = \<lparr>tbl_storage = st, tbl_refillRate = rate\<rparr>"

definition count_or_zero :: "gostr + int \<Rightarrow> int" where
  "count_or_zero r = (case r of Inl _ \<Rightarrow> 0 | Inr n \<Rightarrow> n)"

text \<open>
  The tokens in the bucket at an instant, from the two counters: the stored ones and those refilled
  since, up to the size of the bucket.
\<close>

definition tb_current :: "float64 \<Rightarrow> gtime \<Rightarrow> int \<Rightarrow> int \<Rightarrow> int \<Rightarrow> float64" where
  "tb_current rate now bucketSize lastRefillStr currentTokensStr =
     (let lastRefill = time_add unix_epoch lastRefillStr;
          elapsed = time_sub now lastRefill;
          tokensToAdd = fmul (float_seconds elapsed) rate;
          currentTokens = fadd (float_of_int currentTokensStr) tokensToAdd
      in if currentTokens > float_of_int bucketSize then float_of_int bucketSize else currentTokens)"

type_synonym 's gaps = "nat \<Rightarrow> 's \<Rightarrow> 's"

definition alone :: "'s gaps" where
  "alone i s = s"

definition tb_Acquire :: "'s TokenBucketRateLimiter \<Rightarrow> 's gaps \<Rightarrow> gtime \<Rightarrow> gostr \<Rightarrow> int \<Rightarrow> int \<Rightarrow> 's \<Rightarrow> rl_result \<times> 's" where
  "tb_Acquire t others now key bucketSize tokensRequested s =
     (let st = tbl_storage t; bucketKey = key @ '':tokens''; countKey = key @ '':last_refill'';
          lastRefillStr = count_or_zero (qs_GetCount st countKey s);
          s = others 0 s;
          currentTokensStr = count_or_zero (qs_GetCount st bucketKey s);
          currentTokens = tb_current (tbl_refillRate t) now bucketSize lastRefillStr currentTokensStr
      in if currentTokens < float_of_int tokensRequested then
           let retryAfter = int_of_float (fdiv (fsub (float_of_int tokensRequested) currentTokens) (tbl_refillRate t));
               retryAfter = (if retryAfter < 1 then 1 else retryAfter)
           in (\<lparr>rlr_Allowed = False, rlr_Limit = bucketSize, rlr_Remaining = int_of_float currentTokens,
                 rlr_ResetAt = unix_seconds (time_add now (wrap64 (retryAfter * second))), rlr_RetryAfter = retryAfter,
                 rlr_Scope = [], rlr_Tier = [], rlr_Used = bucketSize - int_of_float currentTokens, rlr_ResetInSeconds = 0\<rparr>, s)
         else
           let newTokens = fsub currentTokens (float_of_int tokensRequested);
               s = others 1 s;
               s = snd (qs_SetCount st now bucketKey (int_of_float newTokens) 0 s);
               s = others 2 s;
               s = snd (qs_SetCount st now countKey (unix_nano now) 0 s)
           in (\<lparr>rlr_Allowed = True, rlr_Limit = bucketSize, rlr_Remaining = int_of_float newTokens,
                 rlr_ResetAt = unix_seconds (time_add now (wrap64 (int_of_float (fdiv (float_of_int bucketSize) (tbl_refillRate t)) * second))),
                 rlr_RetryAfter = 0, rlr_Scope = [], rlr_Tier = [], rlr_Used = tokensRequested, rlr_ResetInSeconds = 0\<rparr>, s))"

section \<open>The bucket over a storage of counters\<close>

definition tb_level :: "'s quota_storage \<Rightarrow> gostr \<Rightarrow> 's \<Rightarrow> int" where
  "tb_level st key s = count_or_zero (qs_GetCount st (key @ '':tokens'') s)"

definition tb_refilled :: "'s quota_storage \<Rightarrow> gostr \<Rightarrow> 's \<Rightarrow> int" where
  "tb_refilled st key s = count_or_zero (qs_GetCount st (key @ '':last_refill'') s)"

text \<open>The tokens that a series of requests at one instant is granted, each made when the one before has returned.\<close>

fun tb_burst :: "'s TokenBucketRateLimiter \<Rightarrow> gtime \<Rightarrow> gostr \<Rightarrow> int \<Rightarrow> int list \<Rightarrow> 's \<Rightarrow> int \<times> 's" where
  "tb_burst t now key bucketSize [] s = (0, s)"
| "tb_burst t now key bucketSize (n # ns) s =
     (let (r, s) = tb_Acquire t alone now key bucketSize n s; (granted, s) = tb_burst t now key bucketSize ns s
      in ((if rlr_Allowed r then n else 0) + granted, s))"

lemma tb_burst_Cons: "fst (tb_burst t now key B (n # ns) s)
    = (if rlr_Allowed (fst (tb_Acquire t alone now key B n s)) then n else 0) + fst (tb_burst t now key B ns (snd (tb_Acquire t alone now key B n s)))"
  by (simp add: split_beta Let_def)

declare tb_burst.simps(2) [simp del]

lemma float_seconds_0 [simp]: "float_seconds 0 = 0"
  by (simp add: float_seconds_def float_ops)

lemma int_of_float_range: "0 \<le> x \<Longrightarrow> x \<le> of_int n \<Longrightarrow> 0 \<le> int_of_float x \<and> int_of_float x \<le> n"
  by (auto simp: int_of_float_def floor_le_iff)

lemma int_of_float_of_int [simp]: "int_of_float (of_int n) = n"
  by (simp add: int_of_float_def)

lemma int_of_float_diff [simp]: "int_of_float (of_int m - of_int n) = m - n"
  using int_of_float_of_int [of "m - n"] by simp

definition small_count :: "int \<Rightarrow> bool" where
  "small_count n \<longleftrightarrow> 0 \<le> n \<and> n \<le> 2 ^ 53"

lemma float_small [simp]: "small_count n \<Longrightarrow> float_of_int n = of_int n"
  by (simp add: small_count_def float_of_int_def)

text \<open>What the bucket relies on: a stored count is read back, and other keys keep theirs.\<close>

locale count_storage =
  fixes st :: "'s quota_storage"
  assumes get_set: "count_or_zero (qs_GetCount st k (snd (qs_SetCount st now k' n 0 s)))
    = (if k = k' then n else count_or_zero (qs_GetCount st k s))"
begin

text \<open>A grant leaves what is left of at most a full bucket, and notes the instant; a refusal changes nothing.\<close>

lemma acquire_level:
  assumes "tbl_storage t = st" "small_count B" "small_count n" "tb_Acquire t alone now key B n s = (r, s')"
  shows "if rlr_Allowed r then 0 \<le> tb_level st key s' \<and> tb_level st key s' + n \<le> B \<and> tb_refilled st key s' = unix_nano now
      \<and> rlr_Remaining r = tb_level st key s' else s' = s"
proof -
  define c where "c = tb_current (tbl_refillRate t) now B (tb_refilled st key s) (tb_level st key s)"
  have e: "tb_Acquire t alone now key B n s =
      (if c < of_int n then (fst (tb_Acquire t alone now key B n s), s)
       else (fst (tb_Acquire t alone now key B n s), snd (qs_SetCount st now (key @ '':last_refill'') (unix_nano now) 0
              (snd (qs_SetCount st now (key @ '':tokens'') (int_of_float (fsub c (of_int n))) 0 s)))))"
    and a: "rlr_Allowed (fst (tb_Acquire t alone now key B n s)) \<longleftrightarrow> \<not> c < of_int n"
    and m: "\<not> c < of_int n \<Longrightarrow> rlr_Remaining (fst (tb_Acquire t alone now key B n s)) = int_of_float (fsub c (of_int n))"
    using assms(2,3) by (simp_all add: tb_Acquire_def Let_def assms(1) c_def tb_level_def tb_refilled_def alone_def)
  show ?thesis
  proof (cases "c < of_int n")
    case True
    then show ?thesis using e a assms(4) by simp
  next
    case False
    have cB: "c \<le> of_int B" using assms(2) by (simp add: c_def tb_current_def Let_def)
    have x: "0 \<le> fsub c (of_int n)" "fsub c (of_int n) \<le> of_int (B - n)"
    proof -
      show "0 \<le> fsub c (of_int n)" using False by (simp add: fsub_def fl_nonneg)
      have "c - of_int n \<le> of_int (B - n)" using cB by simp
      moreover have "\<bar>B - n\<bar> \<le> 2 ^ 53" using assms(2,3) by (auto simp: small_count_def)
      ultimately show "fsub c (of_int n) \<le> of_int (B - n)" unfolding fsub_def by (rule fl_le_int)
    qed
    have l: "tb_level st key s' = int_of_float (fsub c (of_int n))" "tb_refilled st key s' = unix_nano now"
      using e False assms(4) by (simp_all add: tb_level_def tb_refilled_def get_set)
    then show ?thesis using int_of_float_range [OF x] a m False assms(4) by simp
  qed
qed

text \<open>No time passes between requests at the instant of the last refill: the level decides.\<close>

lemma acquire_same_instant:
  assumes "tbl_storage t = st" "small_count B" "small_count n" "tb_refilled st key s = unix_nano now" "is_int64 (now - unix_epoch)"
    "small_count (tb_level st key s)" "tb_level st key s \<le> B"
  shows "rlr_Allowed (fst (tb_Acquire t alone now key B n s)) \<longleftrightarrow> n \<le> tb_level st key s"
    "n \<le> tb_level st key s \<Longrightarrow> tb_level st key (snd (tb_Acquire t alone now key B n s)) = tb_level st key s - n"
proof -
  let ?L = "tb_level st key s"
  have z: "time_sub now (unix_epoch + tb_refilled st key s) = 0" using assms(4,5) by (simp add: unix_nano_def)
  have c: "fadd (of_int ?L) (fmul (float_seconds 0) (tbl_refillRate t)) = of_int ?L"
    using assms(6) fl_of_int [of ?L] by (simp add: float_ops small_count_def)
  have "fsub (of_int ?L) (of_int n) = of_int (?L - n)" if "n \<le> ?L"
    using fl_of_int [of "?L - n"] that assms(3,6) by (simp add: fsub_def small_count_def)
  then show "rlr_Allowed (fst (tb_Acquire t alone now key B n s)) \<longleftrightarrow> n \<le> ?L"
    "n \<le> ?L \<Longrightarrow> tb_level st key (snd (tb_Acquire t alone now key B n s)) = ?L - n"
    using assms z c by (simp_all add: tb_Acquire_def tb_current_def alone_def Let_def tb_level_def tb_refilled_def get_set)
qed

lemma burst_bound:
  assumes "tbl_storage t = st" "small_count B" "\<forall>n \<in> set ns. small_count n" "is_int64 (now - unix_epoch)"
  shows "fst (tb_burst t now key B ns s) \<le> B"
proof -
  have later: "fst (tb_burst t now key B ns s) \<le> tb_level st key s"
    if "tb_refilled st key s = unix_nano now" "small_count (tb_level st key s)" "tb_level st key s \<le> B" "\<forall>n \<in> set ns. small_count n" for ns s
    using that
  proof (induction ns arbitrary: s)
    case (Cons n ns)
    obtain r s' where a: "tb_Acquire t alone now key B n s = (r, s')" by (cases "tb_Acquire t alone now key B n s")
    note si = acquire_same_instant [OF assms(1,2) _ Cons.prems(1) assms(4) Cons.prems(2,3), of n] and al = acquire_level [OF assms(1,2) _ a]
    have n: "small_count n" using Cons.prems(4) by simp
    show ?case
    proof (cases "rlr_Allowed r")
      case True
      then have "n \<le> tb_level st key s" "tb_level st key s' = tb_level st key s - n" using si n a by simp_all
      moreover have "tb_refilled st key s' = unix_nano now" using al n True by simp
      moreover have "small_count (tb_level st key s')" "tb_level st key s' \<le> B" using calculation n Cons.prems(2,3) by (auto simp: small_count_def)
      ultimately show ?thesis using Cons.IH [of s'] Cons.prems(4) True by (simp add: tb_burst_Cons a)
    next
      case False
      then have "s' = s" using al n by simp
      then show ?thesis using Cons.IH [of s] Cons.prems False by (simp add: tb_burst_Cons a)
    qed
  qed (simp add: small_count_def)
  show ?thesis using assms(3)
  proof (induction ns arbitrary: s)
    case (Cons n ns)
    obtain r s' where a: "tb_Acquire t alone now key B n s = (r, s')" by (cases "tb_Acquire t alone now key B n s")
    have n: "small_count n" using Cons.prems by simp
    note al = acquire_level [OF assms(1,2) n a]
    show ?case
    proof (cases "rlr_Allowed r")
      case True
      then have "0 \<le> tb_level st key s'" "tb_level st key s' + n \<le> B" "tb_refilled st key s' = unix_nano now" using al by simp_all
      moreover have "small_count (tb_level st key s')" "tb_level st key s' \<le> B" using calculation n assms(2) by (auto simp: small_count_def)
      ultimately have "fst (tb_burst t now key B ns s') + n \<le> B" using later [of s' ns] Cons.prems by simp
      then show ?thesis using True by (simp add: tb_burst_Cons a)
    next
      case False
      then have "s' = s" using al by simp
      then show ?thesis using Cons.IH [of s] Cons.prems False by (simp add: tb_burst_Cons a)
    qed
  qed (use assms(2) in \<open>simp add: small_count_def\<close>)
qed

end

interpretation mem_count: count_storage "rl_mem_storage order"
  by unfold_locales (simp add: rl_mem_storage_def rlm_GetCount_def rlm_SetCount_def count_or_zero_def)

text \<open>C28: However many requests for tokens of a bucket are made at one instant, each after the one before has
  returned, in whatever sizes and from whatever state of the memory storage, the tokens granted are at most
  the size of the bucket (sizes up to \<open>2\<^sup>5\<^sup>3\<close>).\<close>

theorem bucket_burst_bound:
  assumes "small_count bucketSize" "\<forall>n \<in> set ns. small_count n" "is_int64 (now - unix_epoch)"
  shows "fst (tb_burst (NewTokenBucketRateLimiter (rl_mem_storage order) rate) now key bucketSize ns s) \<le> bucketSize"
  by (rule mem_count.burst_bound) (use assms in \<open>simp_all add: NewTokenBucketRateLimiter_def\<close>)

theorem bucket_burst_bound_witness:
  "fst (tb_burst (NewTokenBucketRateLimiter (rl_mem_storage []) 2) (unix_epoch + 5) ''k'' 10 [4, 4, 4, 2] NewInMemoryStorage) \<le> 10"
  by (rule bucket_burst_bound) (simp_all add: small_count_def is_int64_def)

section \<open>Requests that overlap exceed the bucket\<close>

text \<open>
  Between its reads and its writes a request holds no lock. Of two requests for a full bucket of ten
  the inner is made, on the state as it still is, when the outer has read the counters and not yet written them:
  both are granted.
\<close>

theorem bucket_race:
  "let t = NewTokenBucketRateLimiter (rl_mem_storage []) 1; now = unix_epoch + 10 * second;
       inner = tb_Acquire t alone now ''k'' 10 10;
       outer = tb_Acquire t (\<lambda>i s. if i = 1 then snd (inner s) else s) now ''k'' 10 10
   in rlr_Allowed (fst (inner NewInMemoryStorage)) \<and> rlr_Allowed (fst (outer NewInMemoryStorage))"
proof -
  have e: "time_sub (unix_epoch + 10 * second) unix_epoch = 10 * second"
    by (simp add: time_sub_def min_duration_def max_duration_def second_def)
  have fs: "float_seconds (10 * second) = 10" using fl_of_int [of 10] by (simp add: float_seconds_def float_ops second_def)
  have f: "fl 10 = 10" using fl_of_int [of 10] by simp
  have "tb_current 1 (unix_epoch + 10 * second) 10 0 0 = 10"
    by (simp add: tb_current_def e fs float_ops f)
  then show ?thesis
    by (simp add: Let_def tb_Acquire_def NewTokenBucketRateLimiter_def alone_def rl_mem_storage_def rlm_GetCount_def NewInMemoryStorage_def
        count_or_zero_def float_of_int_def f)
qed

section \<open>Fractions of tokens are lost\<close>

text \<open>
  The level is stored without its fraction while the clock of the refill moves on. At one and a half
  tokens a second and one request a second, each of which is granted, the bucket never fills.
\<close>

definition one_step :: "nat \<Rightarrow> rl_mem \<Rightarrow> rl_mem" where
  "one_step i s = snd (tb_Acquire (NewTokenBucketRateLimiter (rl_mem_storage []) (3 / 2)) alone (unix_epoch + (int i + 2) * second) ''k'' 10 1 s)"

theorem bucket_loses_fractions:
  assumes "tb_level (rl_mem_storage []) ''k'' s = 0" "tb_refilled (rl_mem_storage []) ''k'' s = second" "n \<le> 1000000000"
  shows "tb_level (rl_mem_storage []) ''k'' (fold one_step [0..<n] s) = 0"
proof -
  have "tb_level (rl_mem_storage []) ''k'' (fold one_step [0..<n] s) = 0
    \<and> tb_refilled (rl_mem_storage []) ''k'' (fold one_step [0..<n] s) = (int n + 1) * second"
    using assms(3)
  proof (induction n)
    case (Suc n)
    define s' where "s' = fold one_step [0..<n] s"
    have ih: "tb_level (rl_mem_storage []) ''k'' s' = 0" "tb_refilled (rl_mem_storage []) ''k'' s' = (int n + 1) * second"
      using Suc by (simp_all add: s'_def)
    have sec: "time_sub (unix_epoch + (int n + 2) * second) (unix_epoch + (int n + 1) * second) = second"
      by (simp add: time_sub_def min_duration_def max_duration_def second_def algebra_simps)
    have half: "fl (1 / 2) = 1 / 2" "fl (3 / 2) = 3 / 2"
      using fl_exact [of 1 "- 1"] fl_exact [of 3 "- 1"] by (simp_all add: power_int_minus)
    have fs: "float_seconds second = 1" using fl_of_int [of 1] by (simp add: float_seconds_def float_ops second_def)
    have fh: "\<lfloor>1 / 2 :: rat\<rfloor> = 0" by (rule floor_unique) simp_all
    have sm: "small_count 10" "small_count 1" "small_count 0" by (simp_all add: small_count_def)
    have un: "unix_nano (unix_epoch + (int n + 2) * second) = (int n + 2) * second"
      using Suc.prems by (simp add: unix_nano_def wrap64_id is_int64_def second_def)
    have "tb_level (rl_mem_storage []) ''k'' (one_step n s') = 0 \<and> tb_refilled (rl_mem_storage []) ''k'' (one_step n s') = (int n + 2) * second"
      using ih sec fs un float_small [OF sm(1)] float_small [OF sm(2)] float_small [OF sm(3)]
      by (simp add: one_step_def tb_Acquire_def tb_current_def alone_def Let_def tb_level_def tb_refilled_def NewTokenBucketRateLimiter_def
          mem_count.get_set fmul_def fadd_def fsub_def int_of_float_def half fh)
    then show ?case by (simp add: s'_def algebra_simps)
  qed (use assms in simp)
  then show ?thesis by simp
qed

end
