(* ===== verification/Spec2Isabelle.thy ===== *)
theory Spec2Isabelle
  imports Retry_Breaker Circuit_Manager Resilience Fallback_Tiers Channel_Router
    Rate_Limiter Quota Rl_Middleware Event_Id Event_Bus Provider_Selector Token_Group
    Retry_Loop Chain_Exec Session_Context Task_Executor Pipeline A2A_Server
    Ext_Router Rtk_Rewrites Acp_Registry Billing Strategy_Laws Score_Strategies Fallback_Chain Token_Bucket
begin

text \<open>
  \<^bold>\<open>The request-control core of the NexusAI gateway.\<close> The gateway forwards requests
  for language models to providers and runs agents on top. What decides whether, where and
  how often a request is forwarded, in which order its steps run and what the rest of the
  system hears about it is the Go code under \<open>src/internal\<close> modelled here (and the command
  filter under \<open>src/rtk\<close>): circuit breakers,
  retries and fallback (\<open>retry\<close>, \<open>resilience\<close>, \<open>channel\<close>, \<open>provider\<close>), the choice of a model
  or provider (\<open>routing\<close>), limits (\<open>rate\<close>, \<open>quota\<close>,
  \<open>ratelimit\<close>, \<open>token\<close>), budgets and billing (\<open>billing\<close>), the event bus (\<open>eventbus\<close>), and the request pipeline with the
  orchestration of chains, sessions, plans and agent tasks (\<open>runtime\<close>, \<open>orchestration\<close>,
  \<open>agent/planner\<close>, \<open>protocol/a2a\<close>, \<open>protocol/acp\<close>).

  \<^bold>\<open>Theories.\<close>

  \<^item> \<open>Gw_Prelude\<close>, \<open>Go_Strings\<close>, \<open>Go_Float\<close>, \<open>Go_Sort\<close>, \<open>Go_Calendar\<close>: Go's types and their operations (strings as byte
    lists, times and durations in nanoseconds, maps and the orders they are ranged over,
    64-bit wrap-around, the functions of \<open>strings\<close> and \<open>Duration.String\<close>), double
    precision as an executable rounding of rational numbers, \<open>sort.Slice\<close>, and the calendar
    with dates in a location whose clocks may be moved.
  \<^item> \<open>Breaker_Contract\<close>: the interface of a circuit breaker as the locales \<open>breaker\<close>,
    \<open>rearming_breaker\<close>, \<open>latching_breaker\<close> and \<open>probing_breaker\<close>; what follows from their laws is proved once
    and reaches the six breakers of the code by interpretation.
  \<^item> \<open>Retry_Breaker\<close> (\<open>retry/circuit_breaker.go\<close>): the breaker of the retry loop, its protocol
    as a step relation, reachable states, fail-fast and recovery. \<open>Retry_Loop\<close>
    (\<open>retry/retry.go\<close>): the loop with its delays.
  \<^item> \<open>Circuit_Manager\<close> (\<open>resilience/circuitbreaker/circuitbreaker.go\<close>): circuits with
    statistics and the manager that keeps one per provider.
  \<^item> \<open>Resilience\<close> (\<open>resilience/circuit_breaker.go\<close>): provider breaker, connection cooldowns
    and model lockouts, and \<open>ThreeLayerResilience\<close> over them with its abstract
    specification and the refinement.
  \<^item> \<open>Fallback_Tiers\<close> (\<open>resilience/fallback_tiers.go\<close>, the provider of \<open>resilience/fallback.go\<close>):
    the four tiers, the per-provider breaker and the loop \<open>ExecuteWithFallback\<close>.
    \<open>Fallback_Chain\<close> (\<open>resilience/fallback.go\<close>): the fallback orchestrator over a hierarchy of tiers.
  \<^item> \<open>Channel_Router\<close> (\<open>channel/channel.go\<close>, \<open>channel/router.go\<close>): channels, their circuits and
    the weighted selection.
  \<^item> \<open>Provider_Health\<close>, \<open>Provider_Selector\<close> (\<open>provider/models.go\<close>, \<open>health.go\<close>, \<open>rotation.go\<close>):
    health checks, their metrics and breaker, and the four selection strategies over them.
  \<^item> \<open>Rate_Limiter\<close> (\<open>rate/limiter.go\<close>): fixed-window counters behind the locale
    \<open>window_storage\<close>, interpreted by the in-memory storage.
  \<^item> \<open>Quota\<close> (\<open>quota/manager.go\<close>): plans, usage windows, the sliding-window limiter behind the
    locale \<open>sliding_window\<close>, and \<open>CheckQuota\<close>.
  \<^item> \<open>Rl_Storage\<close>, \<open>Rl_Manager\<close>, \<open>Rl_Middleware\<close> (\<open>ratelimit/storage.go\<close>, \<open>tiers.go\<close>, \<open>manager.go\<close>,
    \<open>middleware.go\<close>, \<open>tenancy/tenant.go\<close>): the quota storage, the limiter and the manager of all
    scopes over it, behind the locale \<open>counter_store\<close>, and the HTTP middlewares over the manager.
    \<open>Token_Bucket\<close> (\<open>ratelimit/manager.go\<close>): the token bucket over the same storage, behind the locale \<open>count_storage\<close>.
  \<^item> \<open>Token_Group\<close> (\<open>token/group.go\<close>, \<open>repo.go\<close>, \<open>service.go\<close>): quotas of token groups at the width
    of \<open>int64\<close>, and the races between their check and their update.
  \<^item> \<open>Event_Id\<close> (\<open>eventbus/id.go\<close>, \<open>eventbus/sequencer.go\<close>): time-ordered identifiers and
    sequence numbers. \<open>Event_Types\<close>, \<open>Event_Bus\<close> (\<open>eventbus/types.go\<close>, \<open>eventbus/bus.go\<close>): events,
    subscriptions, dead letters and the local bus.
  \<^item> \<open>Pipeline\<close> (\<open>runtime/pipeline.go\<close>, \<open>context.go\<close>): the life of a request through authentication,
    tenancy, redaction, knowledge, routing and skills, with the calls it makes.
  \<^item> \<open>Chain_Exec\<close>, \<open>Session_Context\<close> (\<open>orchestration/orchestrator.go\<close>, \<open>context.go\<close>): chains of steps
    and conversation sessions.
  \<^item> \<open>Task_Plan\<close>, \<open>Task_Executor\<close> (\<open>agent/planner\<close>): goals and their decomposition into prioritized
    tasks; monitoring, self-correction and the execution loop.
  \<^item> \<open>A2A_Server\<close> (\<open>protocol/a2a/server.go\<close>, \<open>extended.go\<close>): agent tasks, agents, sessions and
    streams, with the goroutines under way as part of the state. \<open>Acp_Registry\<close>
    (\<open>protocol/acp/registry.go\<close>): the registry of agent adapters and the running agents.
  \<^item> \<open>Model_Router\<close>, \<open>Ext_Router\<close> (\<open>routing/engine.go\<close>, \<open>routing.go\<close>, \<open>extended_router.go\<close>): the model
    catalog that all routers share, selection by strategy through the locale \<open>preference\<close>, and
    routing by nine weighted factors with the latency tracker. \<open>Strategies\<close>, \<open>Strategy_Laws\<close>,
    \<open>Score_Strategies\<close> (\<open>routing/strategies\<close>): the fourteen strategies for the choice of a provider, their
    contract \<open>health_checked\<close>, and the scoring of models.
  \<^item> \<open>Budget\<close> (\<open>billing/budget.go\<close>): limits and usage per day, week and month and the ledger they
    stand for. \<open>Billing\<close> (\<open>billing/pricing.go\<close>, \<open>service.go\<close>, \<open>repo.go\<close>): prices, billing records,
    balances and summaries over the tables of the database.
  \<^item> \<open>Rtk_Lexer\<close>, \<open>Rtk_Filter\<close>, \<open>Rtk_Rewrites\<close> (\<open>rtk/filter_engine.go\<close>): the command lexer and its
    reference, the filters and optimizers, and what they do to a command through the locales
    \<open>rtk_optimizer\<close> and \<open>settled_optimizer\<close>, which the twenty-one optimizers interpret.

  \<^bold>\<open>How the code is modelled.\<close> A struct is a record, an enumeration a datatype, a method
  a function from the old state to the result and the new state; one definition is one
  method with every branch, early return and error. A mutex makes each method one step,
  so interleavings are sequences of steps; what runs outside a lock (the delivery of an
  event, the handler of a task, the send of a publication, the check before an update) is a
  step of its own. Objects that goroutines share by pointer are kept in a store where it
  matters. What the code takes from outside is an argument: the clock reading of each
  call, random draws and bytes, the order in which a map is ranged over, the rows a
  repository returns, the executor that calls a provider, the JSON codec, the event
  handlers, the services behind an interface, the location of the clock, the rounding of decimal columns and
  the calls of the database that fail. Where a method works on shared state without a lock (the loop of
  \<open>Publish\<close>, the reads and writes of the token bucket), what others do to the state between its accesses
  is an argument too. Where a method reads the clock twice in a row
  the two readings are one. A panic is an outcome.
  Counters of type \<open>int\<close> are unbounded integers where they count events and stay far
  below \<open>2\<^sup>6\<^sup>3\<close>; token quotas, timeouts that are doubled and retry allowances wrap around, and
  sequence numbers and timestamps of identifiers are 64-bit words. Floating point is the exact
  result rounded to the nearest double, ties to even, with subnormals; infinities and NaN are
  values of their own where the code can reach them (the backoff of retries, the scores and loads of the routing
  strategies) and do not arise elsewhere. Logging and metrics export are left
  out. Functions terminate: loops are structural recursion over the list the code
  ranges over or a recursion on the attempts left. The exception is the execution loop of the
  planner, which need not end; it takes fuel, and \<open>exec_returns_iff\<close> says for which
  surroundings and how much fuel it returns.

  \<^bold>\<open>What is shown.\<close> Breakers: after the threshold of failures nothing passes until the
  timeout (\<open>circuit_stays_shut\<close>, \<open>tl_outage\<close> in whatever history, \<open>fallback_fail_fast\<close>, \<open>router_fail_fast\<close>,
  \<open>health_fail_fast\<close>, \<open>retry_fail_fast\<close>, all through the interface), a breaker recovers, its state
  changes follow the protocol and its counters stay in range. Routing: the three layers refine
  their specification; a fallback request calls exactly the candidates it should, in
  order, and gives up only when nothing is left; the orchestrator calls the best healthy provider of each
  tier; a channel is selected by its exact share
  of the weights; a selected provider is registered, enabled and healthy, and round robin is
  fair; a model is routed to only when it is eligible and best for the strategy or the scores, and
  never while deactivated; the built-in weights are valid; strategies select only healthy providers, and the
  best by their measure. Limits: the fixed-window limiter answers like its windows, independently per user;
  the sliding window agrees with one that remembers everything and is never exceeded in
  any minute; the combined check refines a table of counters; requests in flight stay within
  burst size and concurrency limit in every interleaving; token quotas are exact, and
  respected one request at a time; a bucket grants at most its size at an instant, one request at a time. Money: the usage a budget
  reports is the summary of its ledger, a check is exact, the windows divide time where clocks are not moved,
  and balances never become negative. Events: identifiers parse
  back and sort by time, the events that a serialising bus accepts have sequence numbers without gaps, a publication reaches exactly the
  subscriptions it should whatever happens meanwhile, failures reach the dead letter queue. Requests: no service sees a
  message but through its redaction, or before the user and the tenant are established; retries
  follow the backoff within its bounds; chains respect dependencies and run once; histories are
  bounded; plans are sorted and executions accounted for; agent streams and queues keep their
  capacities. Commands: the filter's lexer splits into words, its suggestions keep the words of a
  command and settle after one round, with the exceptions stated. Many theorems state where the code departs from its documentation or
  intent; they are recorded as findings.

  \<^bold>\<open>Not modelled.\<close> SQL repositories but those of token groups and billing, HTTP handlers and
  clients, NATS and Redis transports, the detection of personal data by regular expressions (\<open>privacy\<close>),
  webhooks, compliance reports, caches, knowledge bases, configuration files and logging.
\<close>

end
